(* ===== verification/Prelude.thy ===== *)
theory Prelude
  imports
    Main
    "HOL-Library.Word"
    "HOL-Library.Finite_Map"
    "HOL-Library.List_Lexorder"
    "HOL-Library.Char_ord"
    "HOL-Library.Product_Lexorder"
begin

text \<open>
  What every component theory shares.

  \<^item> Integers: \<open>u64\<close> is a 64-bit word, so that counters wrap as they do in a release build;
    \<open>usize\<close> sizes and indices are \<open>nat\<close>; \<open>i64\<close> timestamps are \<open>int\<close>, with the
    saturation bounds written out where the code saturates.
  \<^item> Strings: a Rust \<open>str\<close> is its sequence of UTF-8 bytes, here a \<open>string\<close>. So
    \<open>len\<close> is \<open>length\<close>, the order of \<open>str\<close> is the lexicographic order of bytes
    (\<open>List_Lexorder\<close> over \<open>Char_ord\<close>), and \<open>trim\<close> recognises the UTF-8 encodings of
    every character with the Unicode property White_Space.
  \<^item> Maps: \<open>BTreeMap\<close> and \<open>HashMap\<close> are finite maps \<open>fmap\<close>; iterating a
    \<open>BTreeMap\<close> is \<open>sorted_list_of_fmap\<close>, in key order. The iteration order of a
    \<open>HashMap\<close> is not specified by Rust; where the code iterates one, key order is taken, and
    the results that are proved of such loops do not depend on it.
  \<^item> Instants: \<open>datetime\<close> is a \<open>chrono::DateTime<Utc>\<close>: whole seconds since the Unix epoch and
    nanoseconds within the second.
\<close>

named_theorems str_simps \<open>equations of the string operations\<close>
named_theorems fm_simps \<open>equations of the finite map operations\<close>

section \<open>Integers\<close>

type_synonym u64 = "64 word"

definition i64_max :: int where
  "i64_max = 9223372036854775807"

definition i64_min :: int where
  "i64_min = -9223372036854775808"

text \<open>\<open>i64::saturating_add\<close> and \<open>saturating_sub\<close>.\<close>

definition saturating_i64 :: "int \<Rightarrow> int" where
  "saturating_i64 x = max i64_min (min i64_max x)"

definition saturating_sub_u64 :: "u64 \<Rightarrow> u64 \<Rightarrow> u64" where
  "saturating_sub_u64 a b = (if b \<le> a then a - b else 0)"

text \<open>\<open>i64::try_from(u64)\<close> and the cast \<open>u64 as i64\<close>.\<close>

definition i64_try_from :: "u64 \<Rightarrow> int option" where
  "i64_try_from x = (if uint x \<le> i64_max then Some (uint x) else None)"

section \<open>Options\<close>

definition unwrap_or :: "'a option \<Rightarrow> 'a \<Rightarrow> 'a" where
  "unwrap_or opt d = (case opt of None \<Rightarrow> d | Some x \<Rightarrow> x)"

section \<open>Instants\<close>

datatype datetime = DateTime (timestamp: int) (subsec_nanos: nat)

instantiation datetime :: linorder
begin

definition less_eq_datetime :: "datetime \<Rightarrow> datetime \<Rightarrow> bool" where
  "a \<le> b \<longleftrightarrow> timestamp a < timestamp b \<or>
     timestamp a = timestamp b \<and> subsec_nanos a \<le> subsec_nanos b"

definition less_datetime :: "datetime \<Rightarrow> datetime \<Rightarrow> bool" where
  "a < b \<longleftrightarrow> timestamp a < timestamp b \<or>
     timestamp a = timestamp b \<and> subsec_nanos a < subsec_nanos b"

instance
  by standard
    (auto simp: less_eq_datetime_def less_datetime_def datetime.expand)

end

definition UNIX_EPOCH :: datetime where
  "UNIX_EPOCH = DateTime 0 0"

definition timestamp_millis :: "datetime \<Rightarrow> int" where
  "timestamp_millis d = timestamp d * 1000 + int (subsec_nanos d div 1000000)"

lemma timestamp_mono: "a \<le> b \<Longrightarrow> timestamp a \<le> timestamp b"
  by (auto simp: less_eq_datetime_def)

section \<open>Strings\<close>

text \<open>\<open>str::split(c)\<close>: the pieces between the separators, at least one.\<close>

fun split_on :: "char \<Rightarrow> string \<Rightarrow> string list" where
  "split_on c [] = [[]]"
| "split_on c (x # xs) =
     (if x = c then [] # split_on c xs
      else (case split_on c xs of
              [] \<Rightarrow> [[x]]
            | p # ps \<Rightarrow> (x # p) # ps))"

text \<open>\<open>[&str]::join(sep)\<close>.\<close>

fun join :: "string \<Rightarrow> string list \<Rightarrow> string" where
  "join sep [] = []"
| "join sep [x] = x"
| "join sep (x # y # ys) = x @ sep @ join sep (y # ys)"

definition starts_with :: "string \<Rightarrow> string \<Rightarrow> bool" where
  "starts_with s p \<longleftrightarrow> take (length p) s = p"

definition ends_with :: "string \<Rightarrow> string \<Rightarrow> bool" where
  "ends_with s p \<longleftrightarrow> length p \<le> length s \<and> drop (length s - length p) s = p"

definition strip_prefix :: "string \<Rightarrow> string \<Rightarrow> string option" where
  "strip_prefix s p = (if starts_with s p then Some (drop (length p) s) else None)"

fun contains_str :: "string \<Rightarrow> string \<Rightarrow> bool" where
  "contains_str [] p = (p = [])"
| "contains_str (x # xs) p = (starts_with (x # xs) p \<or> contains_str xs p)"

text \<open>\<open>str::split_once(c)\<close>: around the first occurrence.\<close>

fun split_once :: "char \<Rightarrow> string \<Rightarrow> (string \<times> string) option" where
  "split_once c [] = None"
| "split_once c (x # xs) =
     (if x = c then Some ([], xs)
      else map_option (\<lambda>(a, b). (x # a, b)) (split_once c xs))"

text \<open>\<open>str::trim_matches(c)\<close>.\<close>

definition trim_matches :: "char \<Rightarrow> string \<Rightarrow> string" where
  "trim_matches c s = rev (dropWhile (\<lambda>x. x = c) (rev (dropWhile (\<lambda>x. x = c) s)))"

definition ascii_lower :: "char \<Rightarrow> char" where
  "ascii_lower c = (let n = (of_char c :: nat)
     in if 65 \<le> n \<and> n \<le> 90 then char_of (n + 32) else c)"

definition to_ascii_lowercase :: "string \<Rightarrow> string" where
  "to_ascii_lowercase s = map ascii_lower s"

definition eq_ignore_ascii_case :: "string \<Rightarrow> string \<Rightarrow> bool" where
  "eq_ignore_ascii_case a b \<longleftrightarrow> to_ascii_lowercase a = to_ascii_lowercase b"

text \<open>Decimal digits, as \<open>Display\<close> prints an unsigned integer.\<close>

definition digit :: "nat \<Rightarrow> char" where
  "digit n = char_of (48 + n)"

fun show_nat :: "nat \<Rightarrow> string" where
  "show_nat n = (if n < 10 then [digit n] else show_nat (n div 10) @ [digit (n mod 10)])"

declare show_nat.simps [simp del]

definition show_u64 :: "u64 \<Rightarrow> string" where
  "show_u64 w = show_nat (unat w)"

definition show_int :: "int \<Rightarrow> string" where
  "show_int i = (if i < 0 then CHR ''-'' # show_nat (nat (- i)) else show_nat (nat i))"

definition is_ascii_digit :: "char \<Rightarrow> bool" where
  "is_ascii_digit c \<longleftrightarrow> 48 \<le> (of_char c :: nat) \<and> (of_char c :: nat) \<le> 57"

definition is_ascii_hexdigit :: "char \<Rightarrow> bool" where
  "is_ascii_hexdigit c \<longleftrightarrow> is_ascii_digit c \<or>
     65 \<le> (of_char c :: nat) \<and> (of_char c :: nat) \<le> 70 \<or>
     97 \<le> (of_char c :: nat) \<and> (of_char c :: nat) \<le> 102"

text \<open>\<open>str::parse\<close> of a \<open>u64\<close> and of an \<open>i64\<close>: an optional sign, at least one digit, and a value in range.\<close>

fun digits_value :: "string \<Rightarrow> nat \<Rightarrow> nat option" where
  "digits_value [] acc = Some acc"
| "digits_value (c # s) acc =
     (if is_ascii_digit c
      then (let v = acc * 10 + (of_char c - 48) in if v < 2 ^ 64 then digits_value s v else None)
      else None)"

definition u64_from_str :: "string \<Rightarrow> u64 option" where
  "u64_from_str s =
     map_option of_nat
       (if s = [] \<or> s = ''+'' \<or> s = ''-'' then None
        else if hd s = CHR ''+'' then digits_value (tl s) 0 else digits_value s 0)"

fun all_digits :: "string \<Rightarrow> nat \<Rightarrow> nat option" where
  "all_digits [] acc = Some acc"
| "all_digits (c # s) acc = (if is_ascii_digit c then all_digits s (acc * 10 + (of_char c - 48)) else None)"

definition i64_from_str :: "string \<Rightarrow> int option" where
  "i64_from_str s =
     (if s = [] \<or> s = ''+'' \<or> s = ''-'' then None
      else let parsed = (if hd s = CHR ''-'' then map_option (\<lambda>n. - int n) (all_digits (tl s) 0)
                        else if hd s = CHR ''+'' then map_option int (all_digits (tl s) 0)
                        else map_option int (all_digits s 0))
           in case parsed of
                None \<Rightarrow> None
              | Some i \<Rightarrow> if i64_min \<le> i \<and> i \<le> i64_max then Some i else None)"

definition nl :: string where
  "nl = [CHR 0x0A]"

definition dquote :: string where
  "dquote = [CHR 0x22]"

text \<open>\<open>str::replace(c, with)\<close> for a single character.\<close>

definition replace_char :: "char \<Rightarrow> string \<Rightarrow> string \<Rightarrow> string" where
  "replace_char c r s = concat (map (\<lambda>x. if x = c then r else [x]) s)"

subsection \<open>Whitespace\<close>

text \<open>
  The characters \<open>char::is_whitespace\<close> accepts, by their UTF-8 encodings: U+0009 to U+000D and
  U+0020 in one byte; U+0085 and U+00A0 in two; U+1680, U+2000 to U+200A, U+2028, U+2029, U+202F,
  U+205F and U+3000 in three.
\<close>

definition is_ws1 :: "char \<Rightarrow> bool" where
  "is_ws1 a \<longleftrightarrow> a = CHR '' '' \<or> 9 \<le> (of_char a :: nat) \<and> (of_char a :: nat) \<le> 13"

definition is_ws2 :: "char \<Rightarrow> char \<Rightarrow> bool" where
  "is_ws2 a b \<longleftrightarrow> a = CHR 0xC2 \<and> (b = CHR 0x85 \<or> b = CHR 0xA0)"

definition is_ws3 :: "char \<Rightarrow> char \<Rightarrow> char \<Rightarrow> bool" where
  "is_ws3 a b c \<longleftrightarrow>
     a = CHR 0xE1 \<and> b = CHR 0x9A \<and> c = CHR 0x80 \<or>
     a = CHR 0xE2 \<and> b = CHR 0x80 \<and>
       (128 \<le> (of_char c :: nat) \<and> (of_char c :: nat) \<le> 138 \<or>
        c = CHR 0xA8 \<or> c = CHR 0xA9 \<or> c = CHR 0xAF) \<or>
     a = CHR 0xE2 \<and> b = CHR 0x81 \<and> c = CHR 0x9F \<or>
     a = CHR 0xE3 \<and> b = CHR 0x80 \<and> c = CHR 0x80"

text \<open>Bytes of the whitespace character a string starts with, 0 if it starts with none; and the
  same for the end of a string, read backwards.\<close>

fun ws_len :: "string \<Rightarrow> nat" where
  "ws_len [] = 0"
| "ws_len [a] = (if is_ws1 a then 1 else 0)"
| "ws_len [a, b] = (if is_ws1 a then 1 else if is_ws2 a b then 2 else 0)"
| "ws_len (a # b # c # s) =
     (if is_ws1 a then 1 else if is_ws2 a b then 2 else if is_ws3 a b c then 3 else 0)"

fun ws_len_rev :: "string \<Rightarrow> nat" where
  "ws_len_rev [] = 0"
| "ws_len_rev [a] = (if is_ws1 a then 1 else 0)"
| "ws_len_rev [b, a] = (if is_ws1 b then 1 else if is_ws2 a b then 2 else 0)"
| "ws_len_rev (c # b # a # s) =
     (if is_ws1 c then 1 else if is_ws2 b c then 2 else if is_ws3 a b c then 3 else 0)"

function trim_by :: "(string \<Rightarrow> nat) \<Rightarrow> string \<Rightarrow> string" where
  "trim_by f s = (if s = [] \<or> f s = 0 then s else trim_by f (drop (f s) s))"
  by pat_completeness auto
termination
  by (relation "measure (\<lambda>(f, s). length s)") auto

declare trim_by.simps [simp del]

definition trim :: "string \<Rightarrow> string" where
  "trim s = rev (trim_by ws_len_rev (rev (trim_by ws_len s)))"

text \<open>Whether any character of the string is whitespace (\<open>chars().any(char::is_whitespace)\<close>).\<close>

fun has_whitespace :: "string \<Rightarrow> bool" where
  "has_whitespace [] = False"
| "has_whitespace (x # xs) = (ws_len (x # xs) \<noteq> 0 \<or> has_whitespace xs)"

lemma trim_by_suffix: "\<exists>p. s = p @ trim_by f s"
proof (induction f s rule: trim_by.induct)
  case (1 f s)
  show ?case
  proof (cases "s = [] \<or> f s = 0")
    case True
    then show ?thesis by (simp add: trim_by.simps [of f s])
  next
    case False
    then have eq: "trim_by f s = trim_by f (drop (f s) s)" by (subst trim_by.simps) simp
    from False obtain p where "drop (f s) s = p @ trim_by f (drop (f s) s)"
      using "1" by auto
    then have "take (f s) s @ drop (f s) s = (take (f s) s @ p) @ trim_by f s"
      using eq by simp
    then show ?thesis by (metis append_take_drop_id)
  qed
qed

lemma trim_by_done: "trim_by f s = [] \<or> f (trim_by f s) = 0"
proof (induction f s rule: trim_by.induct)
  case (1 f s)
  then show ?case by (cases "s = [] \<or> f s = 0") (auto simp: trim_by.simps [of f s])
qed

lemma trim_by_id: "f s = 0 \<Longrightarrow> trim_by f s = s"
  by (subst trim_by.simps) simp

lemma trim_by_Nil [simp]: "trim_by f [] = []"
  by (subst trim_by.simps) simp

lemma set_trim_by: "set (trim_by f s) \<subseteq> set s"
  by (metis trim_by_suffix set_append Un_upper2)

lemma set_trim: "set (trim s) \<subseteq> set s"
  using set_trim_by [of ws_len s] set_trim_by [of ws_len_rev "rev (trim_by ws_len s)"]
  by (auto simp: trim_def)

lemma ws_len_append: "ws_len s \<noteq> 0 \<Longrightarrow> ws_len (s @ t) \<noteq> 0"
  by (induction s rule: ws_len.induct; cases t; cases "tl t")
     (auto split: if_splits)

lemma trim_trim [simp]: "trim (trim s) = trim s"
proof -
  let ?t = "trim_by ws_len s"
  let ?u = "trim s"
  obtain v where v: "rev ?t = v @ rev ?u"
    using trim_by_suffix [of "rev ?t" ws_len_rev] by (auto simp: trim_def)
  then have t: "?t = ?u @ rev v" by (metis rev_append rev_rev_ident)
  have "ws_len ?u = 0"
    using trim_by_done [of ws_len s] ws_len_append [of ?u "rev v"] t by fastforce
  then have "trim_by ws_len ?u = ?u" by (rule trim_by_id)
  moreover have "trim_by ws_len_rev (rev ?u) = rev ?u"
    using trim_by_done [of ws_len_rev "rev ?t"] trim_by_id [of ws_len_rev "rev ?u"]
    by (auto simp: trim_def)
  ultimately show ?thesis by (simp add: trim_def [of ?u])
qed

lemma trim_Nil [simp]: "trim [] = []"
  by (simp add: trim_def)

lemma trim_space [simp]: "trim (CHR '' '' # s) = trim s"
proof -
  have "ws_len (CHR '' '' # s) = 1"
    by (cases s; cases "tl s") (auto simp: is_ws1_def)
  then have "trim_by ws_len (CHR '' '' # s) = trim_by ws_len s"
    by (subst trim_by.simps) simp
  then show ?thesis by (simp add: trim_def)
qed

text \<open>A printable ASCII byte is no byte of any whitespace character.\<close>

definition plain :: "char \<Rightarrow> bool" where
  "plain c \<longleftrightarrow> 33 \<le> (of_char c :: nat) \<and> (of_char c :: nat) < 128"

lemma plain_not_ws:
  assumes "plain c"
  shows "\<not> is_ws1 c" "\<not> is_ws2 c b" "\<not> is_ws2 b c" "\<not> is_ws3 c a b" "\<not> is_ws3 a c b" "\<not> is_ws3 a b c"
  using assms by (auto simp: plain_def is_ws1_def is_ws2_def is_ws3_def)

lemma ws_len_plain: "plain c \<Longrightarrow> ws_len (c # s) = 0"
  by (cases s; cases "tl s") (simp_all add: plain_not_ws)

lemma ws_len_rev_plain: "plain c \<Longrightarrow> ws_len_rev (c # s) = 0"
  by (cases s; cases "tl s") (simp_all add: plain_not_ws)

lemma ws_len_rev_guard:
  assumes "s \<noteq> []" "ws_len_rev s = 0" "plain c"
  shows "ws_len_rev (s @ c # t) = 0"
proof -
  consider a where "s = [a]" | a b where "s = [a, b]" | a b c' u where "s = a # b # c' # u"
    using assms(1) by (metis neq_Nil_conv)
  then show ?thesis
  proof cases
    case 1
    with assms show ?thesis
      by (cases t) (auto simp: plain_not_ws split: if_splits)
  next
    case 2
    with assms show ?thesis
      by (auto simp: plain_not_ws split: if_splits)
  qed (use assms in auto)
qed

lemma trim_fixed:
  assumes "ws_len s = 0" "ws_len_rev (rev s) = 0"
  shows "trim s = s"
  using assms by (simp add: trim_def trim_by_id)

lemma trim_fixed_end: "trim s = s \<Longrightarrow> s \<noteq> [] \<Longrightarrow> ws_len_rev (rev s) = 0"
  by (metis rev_is_Nil_conv rev_rev_ident trim_by_done trim_def)

lemma trim_guarded:
  assumes "trim s = s" "s \<noteq> []" "plain c" "u = [] \<or> plain (hd u)"
  shows "trim (u @ c # s) = u @ c # s"
proof (rule trim_fixed)
  show "ws_len (u @ c # s) = 0"
    using assms(3,4) by (cases u) (auto simp: ws_len_plain)
  show "ws_len_rev (rev (u @ c # s)) = 0"
    using ws_len_rev_guard [of "rev s" c "rev u"] assms trim_fixed_end [of s] by simp
qed

lemma split_once_append: "c \<notin> set a \<Longrightarrow> split_once c (a @ c # b) = Some (a, b)"
  by (induction a) auto

subsection \<open>Splitting and joining\<close>

lemma split_on_ne [simp]: "split_on c s \<noteq> []"
  by (induction s) (auto split: list.splits)

lemma split_on_no_sep: "c \<notin> set s \<Longrightarrow> split_on c s = [s]"
  by (induction s) auto

lemma split_on_append: "c \<notin> set s \<Longrightarrow> split_on c (s @ c # t) = s # split_on c t"
  by (induction s) auto

lemma split_on_pieces: "p \<in> set (split_on c s) \<Longrightarrow> c \<notin> set p"
  by (induction s arbitrary: p) (auto split: if_splits list.splits)

lemma split_on_subset: "p \<in> set (split_on c s) \<Longrightarrow> set p \<subseteq> set s"
proof (induction s arbitrary: p)
  case (Cons x s)
  obtain q qs where "split_on c s = q # qs" by (cases "split_on c s") auto
  with Cons show ?case by (fastforce split: if_splits)
qed simp

lemma split_on_join:
  "xs \<noteq> [] \<Longrightarrow> \<forall>x \<in> set xs. c \<notin> set x \<Longrightarrow> split_on c (join [c] xs) = xs"
proof (induction "[c]" xs rule: join.induct)
  case (3 x y ys)
  then show ?case by (simp add: split_on_append)
qed (simp_all add: split_on_no_sep)

lemma join_split_on: "join [c] (split_on c s) = s"
proof (induction s)
  case (Cons x s)
  obtain p ps where p: "split_on c s = p # ps" by (cases "split_on c s") auto
  show ?case
  proof (cases "x = c")
    case True
    with Cons p show ?thesis by simp
  next
    case False
    with Cons p show ?thesis by (cases ps) auto
  qed
qed simp

subsection \<open>Prefixes\<close>

lemma starts_with_append [simp]: "starts_with (p @ s) p"
  by (simp add: starts_with_def)

lemma starts_with_iff: "starts_with s p \<longleftrightarrow> (\<exists>t. s = p @ t)"
  by (metis append_take_drop_id starts_with_append starts_with_def)

lemma starts_with_Cons [str_simps]:
  "starts_with (x # xs) (y # ys) \<longleftrightarrow> x = y \<and> starts_with xs ys"
  by (auto simp: starts_with_def)

lemma starts_with_Nil [simp]: "starts_with s []" and starts_with_Nil2 [simp]: "starts_with [] p \<longleftrightarrow> p = []"
  by (auto simp: starts_with_def)

lemma strip_prefix_append [simp]: "strip_prefix (p @ s) p = Some s"
  by (simp add: strip_prefix_def)

lemma strip_prefix_Some: "strip_prefix s p = Some t \<longleftrightarrow> s = p @ t"
  by (auto simp: strip_prefix_def starts_with_iff)

section \<open>Finite maps\<close>

text \<open>\<open>BTreeMap::values\<close> and their sum, as \<open>Iterator::sum\<close> computes it.\<close>

definition fm_values :: "('k::linorder, 'v) fmap \<Rightarrow> 'v list" where
  "fm_values m = map snd (sorted_list_of_fmap m)"

definition fm_keys :: "('k::linorder, 'v) fmap \<Rightarrow> 'k list" where
  "fm_keys m = map fst (sorted_list_of_fmap m)"

definition fm_sum :: "('k::linorder, 'v::monoid_add) fmap \<Rightarrow> 'v" where
  "fm_sum m = sum_list (fm_values m)"

text \<open>\<open>map.get(k).copied().unwrap_or(d)\<close>, and the \<open>entry(k).or_insert(0)\<close> reading.\<close>

definition fm_get :: "'v \<Rightarrow> ('k, 'v) fmap \<Rightarrow> 'k \<Rightarrow> 'v" where
  "fm_get d m k = (case fmlookup m k of None \<Rightarrow> d | Some v \<Rightarrow> v)"

abbreviation fm_get0 :: "('k, 'v::zero) fmap \<Rightarrow> 'k \<Rightarrow> 'v" where
  "fm_get0 \<equiv> fm_get 0"

definition fm_size :: "('k::linorder, 'v) fmap \<Rightarrow> nat" where
  "fm_size m = length (sorted_list_of_fmap m)"

definition fm_contains :: "('k, 'v) fmap \<Rightarrow> 'k \<Rightarrow> bool" where
  "fm_contains m k \<longleftrightarrow> fmlookup m k \<noteq> None"

lemma fm_get_simps [fm_simps]:
  "fm_get d fmempty k = d"
  "fm_get d (fmupd k' v m) k = (if k = k' then v else fm_get d m k)"
  "fm_get d (fmdrop k' m) k = (if k = k' then d else fm_get d m k)"
  by (auto simp: fm_get_def)

lemma fm_keys_eq: "fm_keys m = sorted_list_of_set (fmdom' m)"
  by (simp add: fm_keys_def sorted_list_of_fmap_def comp_def sorted_list_of_fset.rep_eq fmdom'_alt_def)

lemma set_fm_keys [simp]: "set (fm_keys m) = fmdom' m"
  by (simp add: fm_keys_eq)

lemma distinct_fm_keys [simp]: "distinct (fm_keys m)"
  by (simp add: fm_keys_eq)

lemma sorted_fm_keys [simp]: "sorted (fm_keys m)"
  by (simp add: fm_keys_eq)

lemma sorted_list_of_fmap_keys: "sorted_list_of_fmap m = map (\<lambda>k. (k, the (fmlookup m k))) (fm_keys m)"
  by (simp add: fm_keys_def sorted_list_of_fmap_def comp_def)

lemma set_sorted_list_of_fmap [simp]:
  "(k, v) \<in> set (sorted_list_of_fmap m) \<longleftrightarrow> fmlookup m k = Some v"
  by (auto simp: sorted_list_of_fmap_keys fmlookup_dom'_iff)

lemma fm_sum_alt:
  fixes m :: "('k::linorder, 'v::comm_monoid_add) fmap"
  shows "fm_sum m = (\<Sum>k\<in>fmdom' m. the (fmlookup m k))"
proof -
  have "fm_sum m = sum_list (map (\<lambda>k. the (fmlookup m k)) (fm_keys m))"
    by (simp add: fm_sum_def fm_values_def sorted_list_of_fmap_keys comp_def)
  also have "\<dots> = sum (\<lambda>k. the (fmlookup m k)) (set (fm_keys m))"
    by (rule sum_list_distinct_conv_sum_set) simp
  finally show ?thesis by simp
qed

lemma fm_sum_empty [simp]: "fm_sum fmempty = (0::'v::comm_monoid_add)"
  by (simp add: fm_sum_alt)

lemma fm_sum_drop:
  fixes m :: "('k::linorder, 'v::ab_group_add) fmap"
  shows "fm_sum (fmdrop k m) = fm_sum m - fm_get0 m k"
proof (cases "fmlookup m k")
  case None
  then have "fmdrop k m = m" by (simp add: fmdrop_idle' fmlookup_dom'_iff)
  with None show ?thesis by (simp add: fm_get_def)
next
  case (Some v)
  then have "k \<in> fmdom' m" by (simp add: fmlookup_dom'_iff)
  have "fm_sum (fmdrop k m) = (\<Sum>j\<in>fmdom' m - {k}. the (fmlookup m j))"
    by (auto simp: fm_sum_alt intro: sum.cong)
  also have "\<dots> = fm_sum m - v"
    using \<open>k \<in> fmdom' m\<close> Some by (simp add: sum_diff1 fm_sum_alt)
  finally show ?thesis using Some by (simp add: fm_get_def)
qed

lemma fm_sum_upd:
  fixes m :: "('k::linorder, 'v::ab_group_add) fmap"
  shows "fm_sum (fmupd k v m) = fm_sum m - fm_get0 m k + v"
proof -
  have "fm_sum (fmupd k v m) = v + (\<Sum>j\<in>fmdom' m - {k}. the (fmlookup (fmupd k v m) j))"
    by (simp add: fm_sum_alt sum.insert_remove)
  also have "(\<Sum>j\<in>fmdom' m - {k}. the (fmlookup (fmupd k v m) j)) = fm_sum (fmdrop k m)"
    unfolding fm_sum_alt by (rule sum.cong) auto
  finally show ?thesis by (simp add: fm_sum_drop)
qed

lemma fm_size_alt: "fm_size m = card (fmdom' m)"
proof -
  have "fm_size m = length (fm_keys m)" by (simp add: fm_size_def fm_keys_def)
  then show ?thesis by (metis distinct_card distinct_fm_keys set_fm_keys)
qed

section \<open>Paging\<close>

text \<open>Asking for page after page reads a list once through.\<close>

lemma concat_pages: "concat (map (\<lambda>k. take n (drop (k * n) xs)) [0..<m]) = take (m * n) xs"
proof (induction m)
  case (Suc m)
  have "take (m * n) xs @ take n (drop (m * n) xs) = take (m * n + n) xs" by (simp only: take_add)
  with Suc show ?case by (simp add: add.commute)
qed simp

end
