(* ===== verification/Merge_Laws.thy ===== *)
theory Merge_Laws
  imports Prelude
begin

text \<open>
  The contract of a merge that can be retried and reordered: \<open>retriable\<close>, over states compared
  up to an equivalence, under an invariant of the state and a condition on the messages. Its client
  lemma is convergence: two replicas that start equivalent and take in the same set of messages, in
  any order and with any repetition, end equivalent. \<open>absorbing\<close> is the unconditional form,
  with equality, and lifts to finite maps entry by entry (\<open>fm_lift\<close>).
\<close>

text \<open>Merging a map into another, entry by entry; an absent entry reads as \<open>u\<close>.\<close>

definition fm_lift :: "('v \<Rightarrow> 'w \<Rightarrow> 'v) \<Rightarrow> 'v \<Rightarrow> ('k::linorder, 'v) fmap \<Rightarrow> ('k, 'w) fmap \<Rightarrow> ('k, 'v) fmap" where
  "fm_lift f u ours theirs =
     fold (\<lambda>(k, c) m. fmupd k (f (fm_get u m k) c) m) (sorted_list_of_fmap theirs) ours"

lemma distinct_sorted_list_of_fmap [simp]: "distinct (map fst (sorted_list_of_fmap m))"
  using distinct_fm_keys [of m] by (simp add: fm_keys_def)

lemma map_of_sorted_fm [simp]: "map_of (sorted_list_of_fmap m) k = fmlookup m k"
  using map_of_sorted_list [of m] by simp

lemma sorted_list_of_fmmap: "sorted_list_of_fmap (fmmap f m) = map (\<lambda>(k, x). (k, f x)) (sorted_list_of_fmap m)"
proof -
  have "the (fmlookup (fmmap f m) k) = f (the (fmlookup m k))" if "k \<in> set (fm_keys m)" for k
    using that by (auto simp: fmlookup_dom'_iff)
  moreover have "fm_keys (fmmap f m) = fm_keys m" by (simp add: fm_keys_def sorted_list_of_fmap_def)
  ultimately show ?thesis by (simp add: sorted_list_of_fmap_keys)
qed

lemma fm_lift_fold_lookup:
  "distinct (map fst xs) \<Longrightarrow>
   fmlookup (fold (\<lambda>(k, c) m. fmupd k (f (fm_get u m k) c) m) xs ours) k =
    (case map_of xs k of
       None \<Rightarrow> fmlookup ours k
     | Some c \<Rightarrow> Some (f (fm_get u ours k) c))"
proof (induction xs arbitrary: ours)
  case (Cons x xs)
  obtain k' c where x: "x = (k', c)" by (cases x)
  with Cons.prems have "map_of xs k' = None" by (simp add: map_of_eq_None_iff)
  with Cons x show ?case
    by (cases "k = k'") (auto simp: fm_simps split: option.splits)
qed simp

lemma fmlookup_fm_lift [simp]:
  "fmlookup (fm_lift f u ours theirs) k =
    (case fmlookup theirs k of
       None \<Rightarrow> fmlookup ours k
     | Some c \<Rightarrow> Some (f (fm_get u ours k) c))"
  by (simp add: fm_lift_def fm_lift_fold_lookup)

lemma fm_get_fm_lift:
  "fm_get u (fm_lift f u ours theirs) k =
    (case fmlookup theirs k of None \<Rightarrow> fm_get u ours k | Some c \<Rightarrow> f (fm_get u ours k) c)"
  by (simp add: fm_get_def split: option.splits)

lemma fm_lift_empty [simp]: "fm_lift f u m fmempty = m"
  by (rule fmap_ext) simp

locale retriable =
  fixes merge :: "'s \<Rightarrow> 'm \<Rightarrow> 's"
    and eqv :: "'s \<Rightarrow> 's \<Rightarrow> bool"
    and inv :: "'s \<Rightarrow> bool"
    and ok :: "'m \<Rightarrow> bool"
  assumes eqv_refl: "eqv s s"
    and eqv_sym: "eqv s t \<Longrightarrow> eqv t s"
    and eqv_trans: "eqv s t \<Longrightarrow> eqv t r \<Longrightarrow> eqv s r"
    and inv_merge: "inv s \<Longrightarrow> ok m \<Longrightarrow> inv (merge s m)"
    and merge_cong: "inv s \<Longrightarrow> inv t \<Longrightarrow> ok m \<Longrightarrow> eqv s t \<Longrightarrow> eqv (merge s m) (merge t m)"
    and merge_idem: "inv s \<Longrightarrow> ok m \<Longrightarrow> eqv (merge (merge s m) m) (merge s m)"
    and merge_swap: "inv s \<Longrightarrow> ok m \<Longrightarrow> ok n \<Longrightarrow> eqv (merge (merge s m) n) (merge (merge s n) m)"
begin

lemma inv_foldl: "inv s \<Longrightarrow> \<forall>m \<in> set ms. ok m \<Longrightarrow> inv (foldl merge s ms)"
  by (induction ms arbitrary: s) (auto intro: inv_merge)

lemma foldl_cong:
  "inv s \<Longrightarrow> inv t \<Longrightarrow> \<forall>m \<in> set ms. ok m \<Longrightarrow> eqv s t \<Longrightarrow> eqv (foldl merge s ms) (foldl merge t ms)"
  by (induction ms arbitrary: s t) (auto intro: inv_merge merge_cong)

lemma foldl_swap1:
  assumes "inv s" "ok m" "\<forall>n \<in> set ms. ok n"
  shows "eqv (foldl merge (merge s m) ms) (merge (foldl merge s ms) m)"
  using assms
proof (induction ms arbitrary: s)
  case Nil
  then show ?case by (simp add: eqv_refl)
next
  case (Cons n ms)
  then have "eqv (foldl merge (merge (merge s m) n) ms) (foldl merge (merge (merge s n) m) ms)"
    by (intro foldl_cong) (auto intro: inv_merge merge_swap)
  moreover have "eqv (foldl merge (merge (merge s n) m) ms) (merge (foldl merge (merge s n) ms) m)"
    using Cons by (auto intro: inv_merge)
  ultimately show ?case by (auto intro: eqv_trans)
qed

lemma foldl_absorb:
  assumes "inv s" "\<forall>n \<in> set ms. ok n" "m \<in> set ms"
  shows "eqv (merge (foldl merge s ms) m) (foldl merge s ms)"
proof -
  obtain xs ys where ms: "ms = xs @ m # ys" using assms(3) by (meson split_list)
  let ?s = "foldl merge s xs"
  have inv: "inv ?s" using assms ms by (auto intro: inv_foldl)
  have "eqv (merge (foldl merge (merge ?s m) ys) m) (foldl merge (merge (merge ?s m) m) ys)"
    using assms ms inv by (intro eqv_sym [OF foldl_swap1]) (auto intro: inv_merge)
  moreover have "eqv (foldl merge (merge (merge ?s m) m) ys) (foldl merge (merge ?s m) ys)"
    using assms ms inv by (intro foldl_cong) (auto intro: inv_merge merge_idem)
  ultimately show ?thesis using ms by (auto intro: eqv_trans)
qed

lemma foldl_absorb_list:
  assumes "inv s" "\<forall>n \<in> set ms. ok n" "set ns \<subseteq> set ms"
  shows "eqv (foldl merge (foldl merge s ms) ns) (foldl merge s ms)"
  using assms(3)
proof (induction ns)
  case Nil
  then show ?case by (simp add: eqv_refl)
next
  case (Cons n ns)
  have inv: "inv (foldl merge s ms)" using assms by (auto intro: inv_foldl)
  have "eqv (foldl merge (merge (foldl merge s ms) n) ns) (foldl merge (foldl merge s ms) ns)"
    using Cons.prems assms inv
    by (intro foldl_cong foldl_absorb) (auto intro: inv_merge)
  moreover have "eqv (foldl merge (foldl merge s ms) ns) (foldl merge s ms)"
    using Cons by simp
  ultimately show ?case by (auto intro: eqv_trans)
qed

lemma foldl_swap:
  assumes "inv s" "\<forall>m \<in> set ms. ok m" "\<forall>n \<in> set ns. ok n"
  shows "eqv (foldl merge (foldl merge s ms) ns) (foldl merge (foldl merge s ns) ms)"
  using assms
proof (induction ms arbitrary: s)
  case Nil
  then show ?case by (simp add: eqv_refl)
next
  case (Cons m ms)
  have inv: "inv (foldl merge s ns)" using Cons.prems by (auto intro: inv_foldl)
  have "eqv (foldl merge (foldl merge (merge s m) ms) ns) (foldl merge (foldl merge (merge s m) ns) ms)"
    using Cons by (auto intro: inv_merge)
  moreover have "eqv (foldl merge (foldl merge (merge s m) ns) ms) (foldl merge (merge (foldl merge s ns) m) ms)"
    using Cons.prems inv by (intro foldl_cong foldl_swap1) (auto intro: inv_merge inv_foldl)
  ultimately show ?case by (auto intro: eqv_trans)
qed

lemma converges:
  assumes "inv s" "\<forall>m \<in> set ms. ok m" "set ms = set ns"
  shows "eqv (foldl merge s ms) (foldl merge s ns)"
proof -
  have "eqv (foldl merge s ms) (foldl merge (foldl merge s ms) ns)"
    using assms by (intro eqv_sym [OF foldl_absorb_list]) auto
  moreover have "eqv (foldl merge (foldl merge s ms) ns) (foldl merge (foldl merge s ns) ms)"
    using assms by (intro foldl_swap) auto
  moreover have "eqv (foldl merge (foldl merge s ns) ms) (foldl merge s ns)"
    using assms by (intro foldl_absorb_list) auto
  ultimately show ?thesis by (blast intro: eqv_trans)
qed

end

locale absorbing =
  fixes join :: "'s \<Rightarrow> 'm \<Rightarrow> 's"
  assumes join_idem: "join (join s m) m = join s m"
    and join_swap: "join (join s m) n = join (join s n) m"
begin

lemma fm_lift_idem: "fm_lift join u (fm_lift join u a b) b = fm_lift join u a b"
  by (rule fmap_ext) (simp add: fm_get_fm_lift join_idem split: option.splits)

lemma fm_lift_swap:
  "fm_lift join u (fm_lift join u a b) c = fm_lift join u (fm_lift join u a c) b"
  by (rule fmap_ext) (simp add: fm_get_fm_lift join_swap split: option.splits)

end

sublocale absorbing \<subseteq> retriable join "(=)" "\<lambda>_. True" "\<lambda>_. True"
  by unfold_locales (auto simp: join_idem intro: join_swap)

end
