(* ===== verification/Attribute.thy ===== *)
theory Attribute
  imports Merge_Laws
begin

text \<open>
  \<^verbatim>\<open>src/src/attribute.rs\<close>: one value observed inside a namespace with its bookkeeping
  (\<open>attribute\<close>), the copy a peer offers (\<open>merge_data\<close>, the Rust \<open>Merge\<close>), what a merge reports
  (\<open>merged\<close>) and the wire form (\<open>attribute_view\<close>); the tag helpers and every method of
  \<open>Attribute\<close>, each as \<open>Attribute_<method>\<close>.

  \<open>DateTime::from_timestamp\<close> belongs to the chrono crate and is the parameter
  \<open>from_timestamp\<close> of \<open>Attribute_merge\<close>; \<open>None\<close> is a timestamp chrono cannot represent.

  The lemmas show: the tag field is a faithful encoding of a set without repeats; a sighting adds
  exactly one to the total, widens the window and keeps at most the configured number of hourly
  buckets; a merge is idempotent, never lowers a count, never touches the server's own entry and
  commutes with other merges up to the order in which tags are listed.
\<close>

section \<open>Data\<close>

definition STATS_BUCKET_SECS :: int where
  "STATS_BUCKET_SECS = 3600"

record attribute =
  attr_value :: string
  first_seen :: datetime
  last_seen :: datetime
  counts :: "(string, u64) fmap"
  tags :: string
  tags_at :: int
  ttl :: u64
  stats :: "(string, (int, u64) fmap) fmap"
  legacy_count :: u64
  legacy_stats :: "(int, u64) fmap"

record merge_data =
  m_counts :: "(string, u64) fmap"
  m_stats :: "(string, (int, u64) fmap) fmap"
  m_first_seen :: int
  m_last_seen :: int
  m_tags :: string
  m_tags_at :: int
  m_ttl :: u64

record merged =
  changed :: bool
  ignored_self :: nat
  merged_count :: u64

record attribute_view =
  v_value :: string
  v_first_seen :: int
  v_last_seen :: int
  v_count :: u64
  v_tags :: string
  v_ttl :: u64
  v_consensus :: u64
  v_stats :: "(int, u64) fmap option"

section \<open>Operations\<close>

subsection \<open>Tags\<close>

definition split_tags :: "string \<Rightarrow> string list" where
  "split_tags ts = filter (\<lambda>t. t \<noteq> []) (map trim (split_on CHR '','' ts))"

definition tag_values :: "string \<Rightarrow> string \<Rightarrow> string list" where
  "tag_values ts key = List.map_filter (\<lambda>tag.
     case split_once CHR '':'' tag of
       None \<Rightarrow> None
     | Some (name, v) \<Rightarrow>
         if eq_ignore_ascii_case (trim name) key \<and> trim v \<noteq> [] then Some (trim v) else None)
     (split_tags ts)"

definition tag_value :: "string \<Rightarrow> string \<Rightarrow> string option" where
  "tag_value ts key = (case tag_values ts key of [] \<Rightarrow> None | v # _ \<Rightarrow> Some v)"

text \<open>The loop of \<open>add_tags\<close> and \<open>set_tags\<close>: append what is not there yet.\<close>

fun push_missing :: "string list \<Rightarrow> string list \<Rightarrow> string list" where
  "push_missing seen [] = seen"
| "push_missing seen (t # ts) =
     push_missing (if t \<in> set seen then seen else seen @ [t]) ts"

subsection \<open>Attribute\<close>

definition Attribute_new :: "string \<Rightarrow> attribute" where
  "Attribute_new v = \<lparr>attr_value = v, first_seen = UNIX_EPOCH, last_seen = UNIX_EPOCH,
     counts = fmempty, tags = [], tags_at = 0, ttl = 0, stats = fmempty,
     legacy_count = 0, legacy_stats = fmempty\<rparr>"

definition Attribute_count :: "attribute \<Rightarrow> u64" where
  "Attribute_count a = fm_sum (counts a)"

text \<open>Adding a list of buckets into a map (\<open>*buckets.entry(bucket).or_insert(0) += hits\<close>).\<close>

fun add_buckets :: "(int \<times> u64) list \<Rightarrow> (int, u64) fmap \<Rightarrow> (int, u64) fmap" where
  "add_buckets [] m = m"
| "add_buckets ((b, h) # bs) m = add_buckets bs (fmupd b (fm_get0 m b + h) m)"

definition Attribute_migrate :: "attribute \<Rightarrow> string \<Rightarrow> attribute" where
  "Attribute_migrate a node =
     (let a1 = (if legacy_count a > 0
                then a\<lparr>counts := fmupd node (fm_get0 (counts a) node + legacy_count a) (counts a),
                       legacy_count := 0\<rparr>
                else a)
      in if legacy_stats a1 \<noteq> fmempty
         then a1\<lparr>stats := fmupd node
                    (add_buckets (sorted_list_of_fmap (legacy_stats a1))
                       (fm_get fmempty (stats a1) node)) (stats a1),
                 legacy_stats := fmempty\<rparr>
         else a1)"

definition bucket_of :: "datetime \<Rightarrow> int" where
  "bucket_of t = timestamp t div STATS_BUCKET_SECS * STATS_BUCKET_SECS"

definition Attribute_make_stats :: "attribute \<Rightarrow> string \<Rightarrow> datetime \<Rightarrow> attribute" where
  "Attribute_make_stats a node t =
     (let bucket = bucket_of t; buckets = fm_get fmempty (stats a) node
      in a\<lparr>stats := fmupd node (fmupd bucket (fm_get0 buckets bucket + 1) buckets) (stats a)\<rparr>)"

definition Attribute_trim_stats :: "attribute \<Rightarrow> string \<Rightarrow> nat \<Rightarrow> attribute" where
  "Attribute_trim_stats a node keep =
     (case fmlookup (stats a) node of
        None \<Rightarrow> a
      | Some buckets \<Rightarrow>
          if keep = 0 \<or> fm_size buckets \<le> keep then a
          else let excess = fm_size buckets - keep;
                   oldest = take excess (fm_keys buckets)
               in a\<lparr>stats := fmupd node (fold fmdrop oldest buckets) (stats a)\<rparr>)"

definition Attribute_increment :: "attribute \<Rightarrow> string \<Rightarrow> datetime \<Rightarrow> nat \<Rightarrow> attribute" where
  "Attribute_increment a node t stats_retention =
     (let a1 = (if Attribute_count a = 0 then a\<lparr>first_seen := t, last_seen := t\<rparr>
                else a\<lparr>first_seen := (if t < first_seen a then t else first_seen a),
                       last_seen := (if t > last_seen a then t else last_seen a)\<rparr>);
          a2 = Attribute_make_stats a1 node t;
          a3 = Attribute_trim_stats a2 node stats_retention
      in a3\<lparr>counts := fmupd node (fm_get0 (counts a3) node + 1) (counts a3)\<rparr>)"

definition Attribute_decrement :: "attribute \<Rightarrow> string \<Rightarrow> attribute \<times> u64" where
  "Attribute_decrement a node =
     (let a1 = (case fmlookup (counts a) node of
                  None \<Rightarrow> a
                | Some mine \<Rightarrow>
                    let mine' = saturating_sub_u64 mine 1
                    in if mine' = 0 then a\<lparr>counts := fmdrop node (counts a)\<rparr>
                       else a\<lparr>counts := fmupd node mine' (counts a)\<rparr>)
      in (a1, Attribute_count a1))"

definition Attribute_set_ttl :: "attribute \<Rightarrow> u64 \<Rightarrow> attribute" where
  "Attribute_set_ttl a t = a\<lparr>ttl := t\<rparr>"

definition Attribute_add_tags :: "attribute \<Rightarrow> string \<Rightarrow> attribute" where
  "Attribute_add_tags a ts =
     (let held = split_tags (tags a); merged = push_missing held (split_tags ts)
      in if merged \<noteq> held then a\<lparr>tags := join '','' merged\<rparr> else a)"

definition Attribute_set_tags :: "attribute \<Rightarrow> string \<Rightarrow> int \<Rightarrow> attribute" where
  "Attribute_set_tags a ts at =
     a\<lparr>tags := join '','' (push_missing [] (split_tags ts)), tags_at := max (tags_at a) at\<rparr>"

definition Attribute_as_merge :: "attribute \<Rightarrow> merge_data" where
  "Attribute_as_merge a = \<lparr>m_counts = counts a, m_stats = stats a,
     m_first_seen = timestamp (first_seen a), m_last_seen = timestamp (last_seen a),
     m_tags = tags a, m_tags_at = tags_at a, m_ttl = ttl a\<rparr>"

subsection \<open>Merging a peer's copy\<close>

text \<open>The three loops of \<open>merge\<close>, over the incoming maps in key order.\<close>

fun merge_counts ::
  "string \<Rightarrow> (string \<times> u64) list \<Rightarrow> (string, u64) fmap \<Rightarrow> bool \<Rightarrow> nat
    \<Rightarrow> (string, u64) fmap \<times> bool \<times> nat" where
  "merge_counts mine [] ours ch ign = (ours, ch, ign)"
| "merge_counts mine ((node, c) # rest) ours ch ign =
     (if node = mine then merge_counts mine rest ours ch (Suc ign)
      else let entry = fm_get0 ours node
           in if c > entry then merge_counts mine rest (fmupd node c ours) True ign
              else merge_counts mine rest (fmupd node entry ours) ch ign)"

fun merge_buckets ::
  "(int \<times> u64) list \<Rightarrow> (int, u64) fmap \<Rightarrow> bool \<Rightarrow> (int, u64) fmap \<times> bool" where
  "merge_buckets [] ours ch = (ours, ch)"
| "merge_buckets ((bucket, hits) # rest) ours ch =
     (let entry = fm_get0 ours bucket
      in if hits > entry then merge_buckets rest (fmupd bucket hits ours) True
         else merge_buckets rest (fmupd bucket entry ours) ch)"

fun merge_stats ::
  "string \<Rightarrow> (string \<times> (int, u64) fmap) list \<Rightarrow> (string, (int, u64) fmap) fmap \<Rightarrow> bool
    \<Rightarrow> (string, (int, u64) fmap) fmap \<times> bool" where
  "merge_stats mine [] ours ch = (ours, ch)"
| "merge_stats mine ((node, buckets) # rest) ours ch =
     (if node = mine then merge_stats mine rest ours ch
      else let (bs, ch') = merge_buckets (sorted_list_of_fmap buckets) (fm_get fmempty ours node) ch
           in merge_stats mine rest (fmupd node bs ours) ch')"

definition merged_ttl :: "u64 \<Rightarrow> u64 \<Rightarrow> u64" where
  "merged_ttl ours theirs =
     (if ours = 0 then theirs else if theirs = 0 then ours else min ours theirs)"

text \<open>The tag rule of \<open>merge\<close>.\<close>

definition merge_tags :: "attribute \<Rightarrow> merge_data \<Rightarrow> attribute" where
  "merge_tags a incoming =
     (if m_tags_at incoming > tags_at a
      then a\<lparr>tags := m_tags incoming, tags_at := m_tags_at incoming\<rparr>
      else if m_tags_at incoming < tags_at a then a
      else if m_tags incoming \<noteq> [] then Attribute_add_tags a (m_tags incoming)
      else a)"

definition merge_first_seen ::
  "datetime option \<Rightarrow> bool \<Rightarrow> datetime \<Rightarrow> datetime" where
  "merge_first_seen theirs unseen ours =
     (case theirs of None \<Rightarrow> ours
      | Some t \<Rightarrow> if unseen \<or> t < ours then t else ours)"

definition merge_last_seen ::
  "datetime option \<Rightarrow> bool \<Rightarrow> datetime \<Rightarrow> datetime" where
  "merge_last_seen theirs unseen ours =
     (case theirs of None \<Rightarrow> ours
      | Some t \<Rightarrow> if unseen \<or> t > ours then t else ours)"

definition is_unseen :: "attribute \<Rightarrow> bool" where
  "is_unseen a \<longleftrightarrow> Attribute_count a = 0 \<and> first_seen a = UNIX_EPOCH"

definition Attribute_merge ::
  "(int \<Rightarrow> datetime option) \<Rightarrow> attribute \<Rightarrow> merge_data \<Rightarrow> string \<Rightarrow> attribute \<times> merged" where
  "Attribute_merge from_timestamp a incoming mine =
     (let unseen = is_unseen a;
          (counts', ch1, ign) =
            merge_counts mine (sorted_list_of_fmap (m_counts incoming)) (counts a) False 0;
          (stats', ch2) =
            merge_stats mine (sorted_list_of_fmap (m_stats incoming)) (stats a) ch1;
          first' = merge_first_seen (from_timestamp (m_first_seen incoming)) unseen (first_seen a);
          last' = merge_last_seen (from_timestamp (m_last_seen incoming)) unseen (last_seen a);
          a1 = a\<lparr>counts := counts', stats := stats', first_seen := first', last_seen := last'\<rparr>;
          a2 = merge_tags a1 incoming;
          ttl' = merged_ttl (ttl a2) (m_ttl incoming);
          a3 = a2\<lparr>ttl := ttl'\<rparr>
      in (a3, \<lparr>changed = ch2 \<or> first' \<noteq> first_seen a \<or> last' \<noteq> last_seen a \<or>
                 tags a2 \<noteq> tags a \<or> ttl' \<noteq> ttl a,
               ignored_self = ign,
               merged_count = Attribute_count a3\<rparr>))"

subsection \<open>Expiry and views\<close>

definition Attribute_expires_at :: "attribute \<Rightarrow> int option" where
  "Attribute_expires_at a =
     (if ttl a > 0
      then Some (saturating_i64 (timestamp (last_seen a) +
             (case i64_try_from (ttl a) of None \<Rightarrow> i64_max | Some t \<Rightarrow> t)))
      else None)"

definition Attribute_is_expired :: "attribute \<Rightarrow> datetime \<Rightarrow> bool" where
  "Attribute_is_expired a now =
     (case Attribute_expires_at a of None \<Rightarrow> False | Some deadline \<Rightarrow> timestamp now > deadline)"

definition Attribute_merged_stats :: "attribute \<Rightarrow> (int, u64) fmap" where
  "Attribute_merged_stats a =
     fold (\<lambda>buckets merged. add_buckets (sorted_list_of_fmap buckets) merged)
       (fm_values (stats a)) fmempty"

definition Attribute_view :: "attribute \<Rightarrow> u64 \<Rightarrow> bool \<Rightarrow> attribute_view" where
  "Attribute_view a consensus with_stats = \<lparr>v_value = attr_value a,
     v_first_seen = timestamp (first_seen a), v_last_seen = timestamp (last_seen a),
     v_count = Attribute_count a, v_tags = tags a, v_ttl = ttl a, v_consensus = consensus,
     v_stats = (if with_stats then Some (Attribute_merged_stats a) else None)\<rparr>"


section \<open>Tags are a set\<close>

lemma split_tags_Nil [simp]: "split_tags [] = []"
  by (simp add: split_tags_def)

text \<open>A well-formed tag: trimmed, not empty, without a comma.\<close>

definition good_tag :: "string \<Rightarrow> bool" where
  "good_tag t \<longleftrightarrow> t \<noteq> [] \<and> trim t = t \<and> CHR '','' \<notin> set t"

lemma split_tags_good: "t \<in> set (split_tags ts) \<Longrightarrow> good_tag t"
  using set_trim split_on_pieces by (fastforce simp: split_tags_def good_tag_def)

lemma split_tags_join: "\<forall>t \<in> set ts. good_tag t \<Longrightarrow> split_tags (join '','' ts) = ts"
proof (cases "ts = []")
  case False
  assume good: "\<forall>t \<in> set ts. good_tag t"
  with False have "split_on CHR '','' (join '','' ts) = ts"
    by (intro split_on_join) (auto simp: good_tag_def)
  moreover from good have "map trim ts = ts" by (auto simp: good_tag_def intro: map_idI)
  moreover from good have "filter (\<lambda>t. t \<noteq> []) ts = ts"
    by (auto simp: good_tag_def filter_id_conv)
  ultimately show ?thesis by (simp add: split_tags_def)
qed simp

lemma set_push_missing [simp]: "set (push_missing seen ts) = set seen \<union> set ts"
  by (induction seen ts rule: push_missing.induct) auto

lemma distinct_push_missing: "distinct seen \<Longrightarrow> distinct (push_missing seen ts)"
  by (induction seen ts rule: push_missing.induct) auto

lemma push_missing_idle: "set ts \<subseteq> set seen \<Longrightarrow> push_missing seen ts = seen"
  by (induction seen ts rule: push_missing.induct) auto

lemma push_missing_prefix: "\<exists>new. push_missing seen ts = seen @ new \<and> set new \<subseteq> set ts"
proof (induction seen ts rule: push_missing.induct)
  case (2 seen t ts)
  then obtain new where "push_missing (if t \<in> set seen then seen else seen @ [t]) ts =
      (if t \<in> set seen then seen else seen @ [t]) @ new" and "set new \<subseteq> set ts"
    by blast
  then show ?case by (cases "t \<in> set seen") auto
qed simp

abbreviation tag_set :: "attribute \<Rightarrow> string set" where
  "tag_set a \<equiv> set (split_tags (tags a))"

lemma split_tags_push: 
  "split_tags (join '','' (push_missing (split_tags s) (split_tags ts))) =
     push_missing (split_tags s) (split_tags ts)"
  by (rule split_tags_join) (auto dest: split_tags_good)

lemma split_tags_add_tags:
  "split_tags (tags (Attribute_add_tags a ts)) = push_missing (split_tags (tags a)) (split_tags ts)"
  by (auto simp: Attribute_add_tags_def Let_def split_tags_push)

lemma tag_set_add_tags [simp]:
  "tag_set (Attribute_add_tags a ts) = tag_set a \<union> set (split_tags ts)"
  by (simp add: split_tags_add_tags)

lemma split_tags_set_tags:
  "split_tags (tags (Attribute_set_tags a ts at)) = push_missing [] (split_tags ts)"
  by (auto simp: Attribute_set_tags_def intro!: split_tags_join dest: split_tags_good)

lemma add_tags_idle: "set (split_tags ts) \<subseteq> tag_set a \<Longrightarrow> Attribute_add_tags a ts = a"
  by (simp add: Attribute_add_tags_def Let_def push_missing_idle)

text \<open>Tagging touches nothing but the tags.\<close>

lemma add_tags_frame [simp]:
  "counts (Attribute_add_tags a ts) = counts a"
  "stats (Attribute_add_tags a ts) = stats a"
  "first_seen (Attribute_add_tags a ts) = first_seen a"
  "last_seen (Attribute_add_tags a ts) = last_seen a"
  "tags_at (Attribute_add_tags a ts) = tags_at a"
  "ttl (Attribute_add_tags a ts) = ttl a"
  "attr_value (Attribute_add_tags a ts) = attr_value a"
  "legacy_count (Attribute_add_tags a ts) = legacy_count a"
  "legacy_stats (Attribute_add_tags a ts) = legacy_stats a"
  by (simp_all add: Attribute_add_tags_def Let_def)

section \<open>Sightings\<close>

lemma make_stats_frame [simp]:
  "counts (Attribute_make_stats a n t) = counts a"
  "first_seen (Attribute_make_stats a n t) = first_seen a"
  "last_seen (Attribute_make_stats a n t) = last_seen a"
  "tags (Attribute_make_stats a n t) = tags a"
  "ttl (Attribute_make_stats a n t) = ttl a"
  "attr_value (Attribute_make_stats a n t) = attr_value a"
  by (simp_all add: Attribute_make_stats_def Let_def)

lemma trim_stats_frame [simp]:
  "counts (Attribute_trim_stats a n k) = counts a"
  "first_seen (Attribute_trim_stats a n k) = first_seen a"
  "last_seen (Attribute_trim_stats a n k) = last_seen a"
  "tags (Attribute_trim_stats a n k) = tags a"
  "ttl (Attribute_trim_stats a n k) = ttl a"
  "attr_value (Attribute_trim_stats a n k) = attr_value a"
  by (simp_all add: Attribute_trim_stats_def Let_def split: option.splits)

lemma increment_frame [simp]:
  "tags (Attribute_increment a n t k) = tags a"
  "ttl (Attribute_increment a n t k) = ttl a"
  "attr_value (Attribute_increment a n t k) = attr_value a"
  by (simp_all add: Attribute_increment_def Let_def)

lemma counts_increment:
  "counts (Attribute_increment a n t k) = fmupd n (fm_get0 (counts a) n + 1) (counts a)"
  by (simp add: Attribute_increment_def Let_def)

lemma count_increment [simp]:
  "Attribute_count (Attribute_increment a n t k) = Attribute_count a + 1"
  by (simp add: Attribute_count_def counts_increment fm_sum_upd)

lemma seen_increment:
  "first_seen (Attribute_increment a n t k) =
     (if Attribute_count a = 0 then t else min t (first_seen a))"
  "last_seen (Attribute_increment a n t k) =
     (if Attribute_count a = 0 then t else max t (last_seen a))"
  by (auto simp: Attribute_increment_def Let_def min_def max_def)

lemma bucket_of_bounds:
  "bucket_of t \<le> timestamp t" "timestamp t < bucket_of t + STATS_BUCKET_SECS"
  "bucket_of t mod STATS_BUCKET_SECS = 0"
  by (simp_all add: bucket_of_def STATS_BUCKET_SECS_def)

lemma fmlookup_fold_fmdrop: "fmlookup (fold fmdrop ks m) k = (if k \<in> set ks then None else fmlookup m k)"
  by (induction ks arbitrary: m) auto

lemma fmdom'_fold_fmdrop: "fmdom' (fold fmdrop ks m) = fmdom' m - set ks"
  by (induction ks arbitrary: m) auto

lemma fm_keys_fold_take: "fm_keys (fold fmdrop (take n (fm_keys m)) m) = drop n (fm_keys m)"
proof -
  have "fmdom' m - set (take n (fm_keys m)) = set (drop n (fm_keys m))"
    using set_take_disj_set_drop_if_distinct [OF distinct_fm_keys order_refl, of n m]
      set_append [of "take n (fm_keys m)" "drop n (fm_keys m)"] by auto
  then show ?thesis
    by (simp add: fm_keys_eq [of "fold _ _ _"] fmdom'_fold_fmdrop sorted_list_of_set.idem_if_sorted_distinct
        sorted_wrt_drop)
qed


definition node_buckets :: "attribute \<Rightarrow> string \<Rightarrow> (int, u64) fmap" where
  "node_buckets a n = fm_get fmempty (stats a) n"

lemma node_buckets_make_stats:
  "node_buckets (Attribute_make_stats a n t) n =
     fmupd (bucket_of t) (fm_get0 (node_buckets a n) (bucket_of t) + 1) (node_buckets a n)"
  by (simp add: node_buckets_def Attribute_make_stats_def Let_def fm_get_def)

lemma fm_size_keys: "fm_size m = length (fm_keys m)"
  by (simp add: fm_size_def fm_keys_def)

lemma node_buckets_trim_stats:
  "fm_keys (node_buckets (Attribute_trim_stats a n keep) n) =
     (if keep = 0 then fm_keys (node_buckets a n)
      else drop (length (fm_keys (node_buckets a n)) - keep) (fm_keys (node_buckets a n)))"
  by (auto simp: Attribute_trim_stats_def node_buckets_def fm_get_def fm_size_keys Let_def
      fm_keys_fold_take fm_keys_eq [of fmempty] split: option.splits)

lemma other_buckets_increment:
  "m \<noteq> n \<Longrightarrow> fmlookup (stats (Attribute_increment a n t k)) m = fmlookup (stats a) m"
  by (auto simp: Attribute_increment_def Attribute_make_stats_def Attribute_trim_stats_def Let_def
      split: option.splits)

lemma node_buckets_increment:
  "node_buckets (Attribute_increment a n t keep) n =
     node_buckets (Attribute_trim_stats (Attribute_make_stats a n t) n keep) n"
  by (auto simp: Attribute_increment_def node_buckets_def Attribute_make_stats_def
      Attribute_trim_stats_def Let_def split: option.splits)

lemma migrate_count:
  "Attribute_count (Attribute_migrate a n) = Attribute_count a + legacy_count a"
proof -
  have "\<not> legacy_count a > 0 \<Longrightarrow> legacy_count a = 0" by (simp add: word_gt_0)
  then show ?thesis
    by (cases "legacy_count a > 0") (simp_all add: Attribute_migrate_def Let_def Attribute_count_def fm_sum_upd)
qed

lemma migrate_done: "legacy_count (Attribute_migrate a n) = 0" "legacy_stats (Attribute_migrate a n) = fmempty"
  by (simp_all add: Attribute_migrate_def Let_def word_gt_0)

lemma migrate_idle: "legacy_count a = 0 \<Longrightarrow> legacy_stats a = fmempty \<Longrightarrow> Attribute_migrate a n = a"
  by (simp add: Attribute_migrate_def)

lemma decrement_count:
  assumes "fmlookup (counts a) n = Some c" "c \<noteq> 0"
  shows "snd (Attribute_decrement a n) = Attribute_count a - 1"
proof -
  have "1 \<le> c" using assms(2) by (simp add: word_le_nat_alt unat_gt_0 Suc_le_eq)
  then show ?thesis using assms
    by (auto simp: Attribute_decrement_def Let_def saturating_sub_u64_def Attribute_count_def
        fm_sum_drop fm_sum_upd fm_get_def)
qed


section \<open>Merging\<close>

text \<open>What the loops compute, entry by entry.\<close>

lemma fm_get_max [simp]: "max (0::u64) x = x" "max x (0::u64) = x"
  by (auto simp: max_def)

lemma merge_counts_lookup:
  assumes "distinct (map fst xs)"
  shows "fmlookup (fst (merge_counts mine xs ours ch ign)) k =
    (case map_of xs k of
       None \<Rightarrow> fmlookup ours k
     | Some c \<Rightarrow> if k = mine then fmlookup ours k else Some (max (fm_get0 ours k) c))"
  using assms
proof (induction mine xs ours ch ign rule: merge_counts.induct)
  case (2 mine node c rest ours ch ign)
  then have "map_of rest node = None" by (simp add: map_of_eq_None_iff)
  with 2 show ?case
    by (cases "k = node") (auto simp: Let_def fm_simps max_def split: option.splits)
qed simp

lemma merge_counts_changed:
  assumes "distinct (map fst xs)"
  shows "fst (snd (merge_counts mine xs ours ch ign)) \<longleftrightarrow>
    ch \<or> (\<exists>(k, c) \<in> set xs. k \<noteq> mine \<and> c > fm_get0 ours k)"
  using assms
proof (induction mine xs ours ch ign rule: merge_counts.induct)
  case (2 mine node c rest ours ch ign)
  have other: "(\<exists>(k, c') \<in> set rest. k \<noteq> mine \<and> c' > fm_get0 (fmupd node v ours) k) \<longleftrightarrow>
      (\<exists>(k, c') \<in> set rest. k \<noteq> mine \<and> c' > fm_get0 ours k)" for v
    using "2.prems" by (intro bex_cong refl) (auto simp: fm_simps image_iff)
  show ?case
    using 2 other by (simp add: Let_def)
qed simp

lemma merge_counts_ignored:
  "snd (snd (merge_counts mine xs ours ch ign)) = ign + length (filter (\<lambda>(k, _). k = mine) xs)"
  by (induction mine xs ours ch ign rule: merge_counts.induct) (auto simp: Let_def)

lemma merge_buckets_lookup:
  assumes "distinct (map fst xs)"
  shows "fmlookup (fst (merge_buckets xs ours ch)) k =
    (case map_of xs k of
       None \<Rightarrow> fmlookup ours k
     | Some c \<Rightarrow> Some (max (fm_get0 ours k) c))"
  using assms
proof (induction xs ours ch rule: merge_buckets.induct)
  case (2 bucket hits rest ours ch)
  then have "map_of rest bucket = None" by (simp add: map_of_eq_None_iff)
  with 2 show ?case
    by (cases "k = bucket") (auto simp: Let_def fm_simps max_def split: option.splits)
qed simp

lemma merge_buckets_changed:
  assumes "distinct (map fst xs)"
  shows "snd (merge_buckets xs ours ch) \<longleftrightarrow> ch \<or> (\<exists>(k, c) \<in> set xs. c > fm_get0 ours k)"
  using assms
proof (induction xs ours ch rule: merge_buckets.induct)
  case (2 bucket hits rest ours ch)
  have other: "(\<exists>(k, c') \<in> set rest. c' > fm_get0 (fmupd bucket v ours) k) \<longleftrightarrow>
      (\<exists>(k, c') \<in> set rest. c' > fm_get0 ours k)" for v
    using "2.prems" by (intro bex_cong refl) (auto simp: fm_simps image_iff)
  show ?case using 2 other by (simp add: Let_def)
qed simp

text \<open>The pointwise maximum of two maps, absent counting as 0: what a merge makes of every entry
  that is not this server's own. Both levels satisfy the merge contract.\<close>

abbreviation fm_max :: "('k::linorder, u64) fmap \<Rightarrow> ('k, u64) fmap \<Rightarrow> ('k, u64) fmap" where
  "fm_max \<equiv> fm_lift max 0"

interpretation count_max: absorbing "max :: u64 \<Rightarrow> u64 \<Rightarrow> u64"
  by unfold_locales (auto simp: max_def)

interpretation bucket_max: absorbing "fm_max :: (int, u64) fmap \<Rightarrow> (int, u64) fmap \<Rightarrow> (int, u64) fmap"
  by unfold_locales (rule count_max.fm_lift_idem, rule count_max.fm_lift_swap)

lemma merge_buckets_fm_max: "fst (merge_buckets (sorted_list_of_fmap theirs) ours ch) = fm_max ours theirs"
  by (rule fmap_ext) (simp add: merge_buckets_lookup)

lemma fm_get0_fm_max [simp]: "fm_get0 (fm_max ours theirs) k = max (fm_get0 ours k) (fm_get0 theirs k)"
  by (auto simp: fm_get_def split: option.splits)

lemma merge_stats_lookup:
  assumes "distinct (map fst xs)"
  shows "fmlookup (fst (merge_stats mine xs ours ch)) k =
    (case map_of xs k of
       None \<Rightarrow> fmlookup ours k
     | Some bs \<Rightarrow> if k = mine then fmlookup ours k else Some (fm_max (fm_get fmempty ours k) bs))"
  using assms
proof (induction mine xs ours ch rule: merge_stats.induct)
  case (2 mine node buckets rest ours ch)
  obtain bs ch' where mb: "merge_buckets (sorted_list_of_fmap buckets) (fm_get fmempty ours node) ch = (bs, ch')"
    by fastforce
  then have "bs = fm_max (fm_get fmempty ours node) buckets"
    by (metis fst_conv merge_buckets_fm_max)
  moreover from "2.prems" have "map_of rest node = None" by (simp add: map_of_eq_None_iff)
  ultimately show ?case
    using 2 mb by (cases "k = node") (auto simp: fm_simps split: option.splits)
qed simp


lemma merge_stats_changed:
  assumes "distinct (map fst xs)"
  shows "snd (merge_stats mine xs ours ch) \<longleftrightarrow>
    ch \<or> (\<exists>(k, bs) \<in> set xs. k \<noteq> mine \<and>
       (\<exists>b h. fmlookup bs b = Some h \<and> h > fm_get0 (fm_get fmempty ours k) b))"
  using assms
proof (induction mine xs ours ch rule: merge_stats.induct)
  case (2 mine node buckets rest ours ch)
  obtain bs ch' where mb: "merge_buckets (sorted_list_of_fmap buckets) (fm_get fmempty ours node) ch = (bs, ch')"
    by fastforce
  then have ch': "ch' \<longleftrightarrow> ch \<or> (\<exists>b h. fmlookup buckets b = Some h \<and> h > fm_get0 (fm_get fmempty ours node) b)"
    using merge_buckets_changed [of "sorted_list_of_fmap buckets" "fm_get fmempty ours node" ch]
    by (auto simp: Bex_def)
  have other: "(\<exists>(k, bs') \<in> set rest. k \<noteq> mine \<and>
        (\<exists>b h. fmlookup bs' b = Some h \<and> h > fm_get0 (fm_get fmempty (fmupd node bs ours) k) b)) \<longleftrightarrow>
      (\<exists>(k, bs') \<in> set rest. k \<noteq> mine \<and>
        (\<exists>b h. fmlookup bs' b = Some h \<and> h > fm_get0 (fm_get fmempty ours k) b))"
  proof (rule bex_cong [OF refl])
    fix p assume "p \<in> set rest"
    with "2.prems" have "fm_get fmempty (fmupd node bs ours) (fst p) = fm_get fmempty ours (fst p)"
      by (auto simp: fm_simps)
    then show "(case p of (k, bs') \<Rightarrow> k \<noteq> mine \<and> (\<exists>b h. fmlookup bs' b = Some h \<and>
          h > fm_get0 (fm_get fmempty (fmupd node bs ours) k) b)) =
        (case p of (k, bs') \<Rightarrow> k \<noteq> mine \<and> (\<exists>b h. fmlookup bs' b = Some h \<and>
          h > fm_get0 (fm_get fmempty ours k) b))"
      by (cases p) simp
  qed
  show ?case
    using 2 mb ch' other by simp
qed simp

lemma merge_counts_eq:
  "fst (merge_counts mine (sorted_list_of_fmap theirs) ours ch ign) = fm_max ours (fmdrop mine theirs)"
  by (rule fmap_ext) (simp add: merge_counts_lookup split: option.splits)

lemma merge_stats_eq:
  "fst (merge_stats mine (sorted_list_of_fmap theirs) ours ch) =
     fm_lift fm_max fmempty ours (fmdrop mine theirs)"
  by (rule fmap_ext) (simp add: merge_stats_lookup split: option.splits)

text \<open>A merge, field by field.\<close>

abbreviation merge_into :: "(int \<Rightarrow> datetime option) \<Rightarrow> string \<Rightarrow> attribute \<Rightarrow> merge_data \<Rightarrow> attribute" where
  "merge_into ft mine a m \<equiv> fst (Attribute_merge ft a m mine)"

lemma merge_tags_frame [simp]:
  "counts (merge_tags a m) = counts a" "stats (merge_tags a m) = stats a"
  "first_seen (merge_tags a m) = first_seen a" "last_seen (merge_tags a m) = last_seen a"
  "ttl (merge_tags a m) = ttl a" "attr_value (merge_tags a m) = attr_value a"
  "legacy_count (merge_tags a m) = legacy_count a" "legacy_stats (merge_tags a m) = legacy_stats a"
  by (simp_all add: merge_tags_def)

lemma tags_at_merge_tags: "tags_at (merge_tags a m) = max (tags_at a) (m_tags_at m)"
  by (simp add: merge_tags_def)

lemma tag_set_merge_tags:
  "tag_set (merge_tags a m) =
     (if m_tags_at m > tags_at a then set (split_tags (m_tags m))
      else if m_tags_at m < tags_at a then tag_set a
      else tag_set a \<union> set (split_tags (m_tags m)))"
  by (simp add: merge_tags_def)

lemma tags_merge_tags_cong:
  "tags a = tags b \<Longrightarrow> tags_at a = tags_at b \<Longrightarrow> tags (merge_tags a m) = tags (merge_tags b m)"
  by (simp add: merge_tags_def Attribute_add_tags_def Let_def)

lemma merge_fields:
  "counts (merge_into ft mine a m) = fm_max (counts a) (fmdrop mine (m_counts m))"
  "stats (merge_into ft mine a m) = fm_lift fm_max fmempty (stats a) (fmdrop mine (m_stats m))"
  "first_seen (merge_into ft mine a m) =
     merge_first_seen (ft (m_first_seen m)) (is_unseen a) (first_seen a)"
  "last_seen (merge_into ft mine a m) =
     merge_last_seen (ft (m_last_seen m)) (is_unseen a) (last_seen a)"
  "ttl (merge_into ft mine a m) = merged_ttl (ttl a) (m_ttl m)"
  "tags_at (merge_into ft mine a m) = max (tags_at a) (m_tags_at m)"
  "tags (merge_into ft mine a m) = tags (merge_tags a m)"
  "attr_value (merge_into ft mine a m) = attr_value a"
  "legacy_count (merge_into ft mine a m) = legacy_count a"
  "legacy_stats (merge_into ft mine a m) = legacy_stats a"
  by (auto simp: Attribute_merge_def Let_def merge_counts_eq merge_stats_eq tags_at_merge_tags
      intro!: tags_merge_tags_cong split: prod.splits
      dest!: arg_cong [where f = fst])

lemma merge_reports:
  "changed (snd (Attribute_merge ft a m mine)) \<longleftrightarrow>
     (\<exists>k c. fmlookup (m_counts m) k = Some c \<and> k \<noteq> mine \<and> c > fm_get0 (counts a) k) \<or>
     (\<exists>k bs b h. fmlookup (m_stats m) k = Some bs \<and> k \<noteq> mine \<and> fmlookup bs b = Some h \<and>
        h > fm_get0 (fm_get fmempty (stats a) k) b) \<or>
     first_seen (merge_into ft mine a m) \<noteq> first_seen a \<or>
     last_seen (merge_into ft mine a m) \<noteq> last_seen a \<or>
     tags (merge_into ft mine a m) \<noteq> tags a \<or>
     ttl (merge_into ft mine a m) \<noteq> ttl a"
  "merged_count (snd (Attribute_merge ft a m mine)) = Attribute_count (merge_into ft mine a m)"
proof -
  obtain c' ch1 ign where mc:
    "merge_counts mine (sorted_list_of_fmap (m_counts m)) (counts a) False 0 = (c', ch1, ign)"
    by (cases "merge_counts mine (sorted_list_of_fmap (m_counts m)) (counts a) False 0") auto
  obtain s' ch2 where ms:
    "merge_stats mine (sorted_list_of_fmap (m_stats m)) (stats a) ch1 = (s', ch2)"
    by fastforce
  have "ch1 \<longleftrightarrow> (\<exists>k c. fmlookup (m_counts m) k = Some c \<and> k \<noteq> mine \<and> c > fm_get0 (counts a) k)"
    using merge_counts_changed [of "sorted_list_of_fmap (m_counts m)" mine "counts a" False 0] mc
    by (auto simp: Bex_def)
  moreover have "ch2 \<longleftrightarrow> ch1 \<or> (\<exists>k bs b h. fmlookup (m_stats m) k = Some bs \<and> k \<noteq> mine \<and>
      fmlookup bs b = Some h \<and> h > fm_get0 (fm_get fmempty (stats a) k) b)"
    using merge_stats_changed [of "sorted_list_of_fmap (m_stats m)" mine "stats a" ch1] ms
    by (auto simp: Bex_def)
  ultimately show "changed (snd (Attribute_merge ft a m mine)) \<longleftrightarrow>
     (\<exists>k c. fmlookup (m_counts m) k = Some c \<and> k \<noteq> mine \<and> c > fm_get0 (counts a) k) \<or>
     (\<exists>k bs b h. fmlookup (m_stats m) k = Some bs \<and> k \<noteq> mine \<and> fmlookup bs b = Some h \<and>
        h > fm_get0 (fm_get fmempty (stats a) k) b) \<or>
     first_seen (merge_into ft mine a m) \<noteq> first_seen a \<or>
     last_seen (merge_into ft mine a m) \<noteq> last_seen a \<or>
     tags (merge_into ft mine a m) \<noteq> tags a \<or>
     ttl (merge_into ft mine a m) \<noteq> ttl a"
    using mc ms by (simp add: Attribute_merge_def Let_def)
  show "merged_count (snd (Attribute_merge ft a m mine)) = Attribute_count (merge_into ft mine a m)"
    using mc ms by (simp add: Attribute_merge_def Let_def)
qed


section \<open>Copies converge\<close>

text \<open>Two copies that differ at most in the order their tags are listed in.\<close>

definition attr_equiv :: "attribute \<Rightarrow> attribute \<Rightarrow> bool" where
  "attr_equiv a b \<longleftrightarrow> a\<lparr>tags := []\<rparr> = b\<lparr>tags := []\<rparr> \<and> tag_set a = tag_set b"

text \<open>A copy whose dates chrono can represent and whose first sighting is not the epoch itself,
  which stands for "never seen".\<close>

definition well_dated :: "(int \<Rightarrow> datetime option) \<Rightarrow> merge_data \<Rightarrow> bool" where
  "well_dated ft m \<longleftrightarrow> ft (m_first_seen m) \<noteq> None \<and> ft (m_first_seen m) \<noteq> Some UNIX_EPOCH \<and>
     ft (m_last_seen m) \<noteq> None"

definition attr_dated :: "attribute \<Rightarrow> bool" where
  "attr_dated a \<longleftrightarrow> first_seen a = UNIX_EPOCH \<longrightarrow> Attribute_count a = 0"

lemma is_unseen_dated: "attr_dated a \<Longrightarrow> is_unseen a \<longleftrightarrow> first_seen a = UNIX_EPOCH"
  by (auto simp: attr_dated_def is_unseen_def)

lemma attr_equiv_iff:
  "attr_equiv a b \<longleftrightarrow> attr_value a = attr_value b \<and> first_seen a = first_seen b \<and>
     last_seen a = last_seen b \<and> counts a = counts b \<and> tags_at a = tags_at b \<and> ttl a = ttl b \<and>
     stats a = stats b \<and> legacy_count a = legacy_count b \<and> legacy_stats a = legacy_stats b \<and>
     tag_set a = tag_set b"
  by (cases a; cases b) (auto simp: attr_equiv_def)

lemma tag_set_merge:
  "tag_set (merge_into ft mine a m) =
     (if m_tags_at m > tags_at a then set (split_tags (m_tags m))
      else if m_tags_at m < tags_at a then tag_set a
      else tag_set a \<union> set (split_tags (m_tags m)))"
  by (simp only: merge_fields tag_set_merge_tags)

lemma merge_dated:
  assumes "attr_dated a" "well_dated ft m"
  shows "first_seen (merge_into ft mine a m) \<noteq> UNIX_EPOCH"
  using assms
  by (auto simp: merge_fields merge_first_seen_def well_dated_def is_unseen_dated split: if_splits)

lemma merged_ttl_laws:
  "merged_ttl (merged_ttl a b) b = merged_ttl a b"
  "merged_ttl (merged_ttl a b) c = merged_ttl (merged_ttl a c) b"
  by (auto simp: merged_ttl_def min_def)

lemma merge_first_seen_idem:
  "(u' \<Longrightarrow> u) \<Longrightarrow> merge_first_seen t u' (merge_first_seen t u d) = merge_first_seen t u d"
  by (auto simp: merge_first_seen_def split: option.splits)

lemma merge_last_seen_idem:
  "(u' \<Longrightarrow> u) \<Longrightarrow> merge_last_seen t u' (merge_last_seen t u d) = merge_last_seen t u d"
  by (auto simp: merge_last_seen_def split: option.splits)

lemma merge_first_seen_swap:
  "merge_first_seen (Some t) False (merge_first_seen (Some s) u d) =
   merge_first_seen (Some s) False (merge_first_seen (Some t) u d)"
  by (auto simp: merge_first_seen_def)

lemma merge_last_seen_swap:
  "merge_last_seen (Some t) False (merge_last_seen (Some s) u d) =
   merge_last_seen (Some s) False (merge_last_seen (Some t) u d)"
  by (auto simp: merge_last_seen_def)

lemma merge_tags_idem: "tags (merge_tags (merge_tags a m) m) = tags (merge_tags a m)"
proof -
  have "set (split_tags (m_tags m)) \<subseteq> tag_set (merge_tags a m)" if "\<not> m_tags_at m < tags_at a"
    using that by (simp add: tag_set_merge_tags)
  then show ?thesis
    by (cases "m_tags_at m < tags_at a")
      (auto simp: merge_tags_def [of "merge_tags a m"] tags_at_merge_tags add_tags_idle)
qed

lemma merge_state_idem:
  assumes "is_unseen (merge_into ft mine a m) \<Longrightarrow> is_unseen a"
  shows "merge_into ft mine (merge_into ft mine a m) m = merge_into ft mine a m"
proof (rule attribute.equality)
  have "tags (merge_tags (merge_into ft mine a m) m) = tags (merge_tags (merge_tags a m) m)"
    by (rule tags_merge_tags_cong) (simp_all add: merge_fields tags_at_merge_tags)
  then show "tags (merge_into ft mine (merge_into ft mine a m) m) = tags (merge_into ft mine a m)"
    by (simp add: merge_fields merge_tags_idem)
  show "first_seen (merge_into ft mine (merge_into ft mine a m) m) = first_seen (merge_into ft mine a m)"
    using assms by (simp add: merge_fields(3) merge_first_seen_idem)
  show "last_seen (merge_into ft mine (merge_into ft mine a m) m) = last_seen (merge_into ft mine a m)"
    using assms by (simp add: merge_fields(4) merge_last_seen_idem)
qed (simp_all add: merge_fields merged_ttl_laws count_max.fm_lift_idem bucket_max.fm_lift_idem)

lemma merge_state_swap:
  assumes "attr_dated a" "well_dated ft m" "well_dated ft n"
  shows "attr_equiv (merge_into ft mine (merge_into ft mine a m) n)
                    (merge_into ft mine (merge_into ft mine a n) m)"
proof -
  have unseen: "\<not> is_unseen (merge_into ft mine a m)" "\<not> is_unseen (merge_into ft mine a n)"
    using assms merge_dated by (auto simp: is_unseen_def)
  obtain f l f' l' where "ft (m_first_seen m) = Some f" "ft (m_last_seen m) = Some l"
      "ft (m_first_seen n) = Some f'" "ft (m_last_seen n) = Some l'"
    using assms(2,3) by (auto simp: well_dated_def)
  with unseen show ?thesis
    unfolding attr_equiv_iff tag_set_merge
    by (auto simp: merge_fields merged_ttl_laws(2) [of "ttl a" "m_ttl m" "m_ttl n"]
        merge_first_seen_swap merge_last_seen_swap tag_set_merge_tags
        count_max.fm_lift_swap [of _ "counts a" "fmdrop mine (m_counts m)"]
        bucket_max.fm_lift_swap [of _ "stats a" "fmdrop mine (m_stats m)"])
qed

lemma merge_state_cong:
  "attr_equiv a b \<Longrightarrow> attr_equiv (merge_into ft mine a m) (merge_into ft mine b m)"
  unfolding attr_equiv_iff tag_set_merge
  by (auto simp: merge_fields is_unseen_def Attribute_count_def tag_set_merge_tags)

lemma attr_equiv_equivalence:
  "attr_equiv a a" "attr_equiv a b \<Longrightarrow> attr_equiv b a"
  "attr_equiv a b \<Longrightarrow> attr_equiv b c \<Longrightarrow> attr_equiv a c"
  by (auto simp: attr_equiv_def)

interpretation copies: retriable "merge_into ft mine" attr_equiv attr_dated "well_dated ft"
  for ft :: "int \<Rightarrow> datetime option" and mine :: string
proof unfold_locales
  fix a m assume dated: "attr_dated a" "well_dated ft m"
  then show "attr_dated (merge_into ft mine a m)"
    using merge_dated by (simp add: attr_dated_def)
  have "\<not> is_unseen (merge_into ft mine a m)" using dated merge_dated by (simp add: is_unseen_def)
  then show "attr_equiv (merge_into ft mine (merge_into ft mine a m) m) (merge_into ft mine a m)"
    by (metis merge_state_idem attr_equiv_equivalence(1))
qed (blast intro: attr_equiv_equivalence merge_state_swap merge_state_cong)+


section \<open>Properties\<close>

lemma merge_ignored:
  "ignored_self (snd (Attribute_merge ft a m mine)) =
     length (filter (\<lambda>(k, _). k = mine) (sorted_list_of_fmap (m_counts m)))"
  using merge_counts_ignored [of mine "sorted_list_of_fmap (m_counts m)" "counts a" False 0]
  by (auto simp: Attribute_merge_def Let_def split: prod.splits)

lemma merge_settled:
  assumes "merge_into ft mine a m = a"
  shows "\<not> changed (snd (Attribute_merge ft a m mine))"
proof -
  have c: "max (fm_get0 (counts a) k) c \<le> fm_get0 (counts a) k"
    if "fmlookup (m_counts m) k = Some c" "k \<noteq> mine" for k c
  proof -
    from assms have "fm_get0 (counts a) k = fm_get0 (fm_max (counts a) (fmdrop mine (m_counts m))) k"
      by (metis merge_fields(1))
    with that show ?thesis by (simp add: fm_get_def)
  qed
  have s: "max (fm_get0 (fm_get fmempty (stats a) k) b) h \<le> fm_get0 (fm_get fmempty (stats a) k) b"
    if "fmlookup (m_stats m) k = Some bs" "k \<noteq> mine" "fmlookup bs b = Some h" for k bs b h
  proof -
    from assms have "fm_get fmempty (stats a) k =
        fm_get fmempty (fm_lift fm_max fmempty (stats a) (fmdrop mine (m_stats m))) k"
      by (metis merge_fields(2))
    with that have "fm_get fmempty (stats a) k = fm_max (fm_get fmempty (stats a) k) bs"
      by (simp add: fm_get_fm_lift)
    then have "fm_get0 (fm_get fmempty (stats a) k) b = fm_get0 (fm_max (fm_get fmempty (stats a) k) bs) b"
      by metis
    with that show ?thesis by (simp add: fm_get_def)
  qed
  show ?thesis
    using assms c s by (fastforce simp: merge_reports not_less)
qed

text \<open>
  A merge can be retried: applying the same peer copy a second time leaves the attribute
  exactly as the first application left it, tags string included, and reports that nothing
  changed (with the same number of ignored own entries and the same total), whenever the merge
  reports a non-zero total.
\<close>
theorem attribute_merge_idempotent:
  assumes "Attribute_merge from_timestamp a m mine = (a', r)" and "merged_count r \<noteq> 0"
  shows "Attribute_merge from_timestamp a' m mine = (a', r\<lparr>changed := False\<rparr>)"
proof -
  have a': "a' = merge_into from_timestamp mine a m" and r: "r = snd (Attribute_merge from_timestamp a m mine)"
    using assms(1) by auto
  have "\<not> is_unseen a'" using assms(2) a' r by (simp add: merge_reports is_unseen_def)
  then have same: "merge_into from_timestamp mine a' m = a'"
    using a' merge_state_idem by metis
  moreover from same have "snd (Attribute_merge from_timestamp a' m mine) = r\<lparr>changed := False\<rparr>"
    using merge_settled [OF same] a' r by (simp add: merge_ignored merge_reports)
  ultimately show ?thesis by (metis prod.collapse)
qed

definition sample_chrono :: "int \<Rightarrow> datetime option" where
  "sample_chrono s = (if \<bar>s\<bar> \<le> 8000000000000 then Some (DateTime s 0) else None)"

definition sample_copy :: merge_data where
  "sample_copy = \<lparr>m_counts = fmap_of_list [(''paris'', 3), (''local'', 9)],
     m_stats = fmap_of_list [(''paris'', fmap_of_list [(3600, 3)])],
     m_first_seen = 4000, m_last_seen = 5000, m_tags = ''tlp:red, feed'', m_tags_at = 7, m_ttl = 60\<rparr>"

theorem attribute_merge_idempotent_witness:
  "\<exists>a' r. Attribute_merge sample_chrono (Attribute_new ''1.2.3.4'') sample_copy ''local'' = (a', r) \<and>
     merged_count r = 3 \<and> changed r \<and> ignored_self r = 1 \<and>
     Attribute_merge sample_chrono a' sample_copy ''local'' = (a', r\<lparr>changed := False\<rparr>)"
proof -
  obtain a' r where ar: "Attribute_merge sample_chrono (Attribute_new ''1.2.3.4'') sample_copy ''local'' = (a', r)"
    by fastforce
  have "(let r = snd (Attribute_merge sample_chrono (Attribute_new ''1.2.3.4'') sample_copy ''local'')
         in merged_count r = 3 \<and> changed r \<and> ignored_self r = 1)"
    by code_simp
  then have r: "merged_count r = 3 \<and> changed r \<and> ignored_self r = 1" by (simp add: ar)
  then have "merged_count r \<noteq> 0" by simp
  with attribute_merge_idempotent [OF ar] r ar show ?thesis by blast
qed

text \<open>
  C40. Two servers that start from equivalent copies of a value and take in the same peer copies,
  in any order and any number of times, end with copies that agree in everything but the order
  the tags are listed in, provided the dates of the copies are representable and none has the
  epoch, the mark of a value never seen, as its first sighting.
\<close>
theorem attribute_copies_converge:
  assumes "attr_dated a"
    and "\<forall>m \<in> set ms. well_dated from_timestamp m"
    and "set ms = set ns"
  shows "attr_equiv (foldl (\<lambda>a m. fst (Attribute_merge from_timestamp a m mine)) a ms)
                    (foldl (\<lambda>a m. fst (Attribute_merge from_timestamp a m mine)) a ns)"
  using assms by (rule copies.converges)

definition sample_copy2 :: merge_data where
  "sample_copy2 = \<lparr>m_counts = fmap_of_list [(''oslo'', 1)], m_stats = fmempty,
     m_first_seen = 100, m_last_seen = 900, m_tags = ''seen'', m_tags_at = 7, m_ttl = 30\<rparr>"

theorem attribute_copies_converge_witness:
  "attr_equiv
     (foldl (\<lambda>a m. fst (Attribute_merge sample_chrono a m ''local'')) (Attribute_new ''v'') [sample_copy, sample_copy2])
     (foldl (\<lambda>a m. fst (Attribute_merge sample_chrono a m ''local'')) (Attribute_new ''v'')
        [sample_copy2, sample_copy, sample_copy2])"
proof -
  have "attr_dated (Attribute_new ''v'')" by code_simp
  moreover have "\<forall>m \<in> set [sample_copy, sample_copy2]. well_dated sample_chrono m"
    by (simp add: well_dated_def sample_chrono_def sample_copy_def sample_copy2_def UNIX_EPOCH_def)
  moreover have "set [sample_copy, sample_copy2] = set [sample_copy2, sample_copy, sample_copy2]" by auto
  ultimately show ?thesis by (rule attribute_copies_converge)
qed


text \<open>
  A peer never says what this server has seen: a merge leaves the server's own count and its
  own hourly buckets exactly as they were, and for every server the count after the merge is the
  larger of the two copies' counts, so no count ever goes down.
\<close>
theorem attribute_merge_keeps_own:
  "fmlookup (counts (fst (Attribute_merge from_timestamp a m mine))) mine = fmlookup (counts a) mine \<and>
   fmlookup (stats (fst (Attribute_merge from_timestamp a m mine))) mine = fmlookup (stats a) mine \<and>
   (\<forall>node. node = mine \<or> fm_get0 (counts (fst (Attribute_merge from_timestamp a m mine))) node =
      max (fm_get0 (counts a) node) (fm_get0 (m_counts m) node))"
  by (auto simp: merge_fields fm_simps)

lemma fm_sum_get0:
  fixes m :: "('k::linorder, u64) fmap"
  assumes "finite A" "fmdom' m \<subseteq> A"
  shows "fm_sum m = (\<Sum>k\<in>A. fm_get0 m k)"
proof -
  have "(\<Sum>k\<in>fmdom' m. the (fmlookup m k)) = (\<Sum>k\<in>fmdom' m. fm_get0 m k)"
    by (rule sum.cong) (auto simp: fm_get_def fmlookup_dom'_iff)
  also have "\<dots> = (\<Sum>k\<in>A. fm_get0 m k)"
    using assms by (intro sum.mono_neutral_left) (auto simp: fm_get_def fmlookup_dom'_iff split: option.splits)
  finally show ?thesis by (simp add: fm_sum_alt)
qed

lemma fm_sum_cong:
  fixes m n :: "('k::linorder, u64) fmap"
  assumes "\<And>k. fm_get0 m k = fm_get0 n k"
  shows "fm_sum m = fm_sum n"
  using assms fm_sum_get0 [of "fmdom' m \<union> fmdom' n" m] fm_sum_get0 [of "fmdom' m \<union> fmdom' n" n]
  by simp

text \<open>
  One exchange is enough for two servers to report the same total: if neither holds a copy of
  the other's own count that is ahead of the other's (each server only ever raises its own), then
  after each has merged what the other offered (\<open>as_merge\<close> on one side, \<open>merge\<close> on the other) both
  count the same for every server, and report the same number of sightings.
\<close>
theorem attribute_exchange_agrees:
  assumes "fm_get0 (counts b) node_a \<le> fm_get0 (counts a) node_a"
    and "fm_get0 (counts a) node_b \<le> fm_get0 (counts b) node_b"
    and "a' = fst (Attribute_merge ft a (Attribute_as_merge b) node_a)"
    and "b' = fst (Attribute_merge ft b (Attribute_as_merge a) node_b)"
  shows "fm_get0 (counts a') node = fm_get0 (counts b') node \<and>
         Attribute_count a' = Attribute_count b'"
proof -
  have "fm_get0 (counts a') k = fm_get0 (counts b') k" for k
    using assms
    by (auto simp: merge_fields Attribute_as_merge_def fm_simps max.commute max_absorb1 max_absorb2)
  then show ?thesis by (auto simp: Attribute_count_def intro: fm_sum_cong)
qed

theorem attribute_exchange_agrees_witness:
  "\<exists>a b. a = Attribute_increment (Attribute_increment (Attribute_new ''v'') ''paris'' (DateTime 100 0) 0) ''paris'' (DateTime 200 0) 0 \<and>
     b = Attribute_increment (Attribute_new ''v'') ''oslo'' (DateTime 150 0) 0 \<and>
     Attribute_count (fst (Attribute_merge sample_chrono a (Attribute_as_merge b) ''paris'')) =
     Attribute_count (fst (Attribute_merge sample_chrono b (Attribute_as_merge a) ''oslo''))"
proof -
  define a where "a = Attribute_increment (Attribute_increment (Attribute_new ''v'') ''paris'' (DateTime 100 0) 0) ''paris'' (DateTime 200 0) 0"
  define b where "b = Attribute_increment (Attribute_new ''v'') ''oslo'' (DateTime 150 0) 0"
  have "fm_get0 (counts b) ''paris'' \<le> fm_get0 (counts a) ''paris''"
    "fm_get0 (counts a) ''oslo'' \<le> fm_get0 (counts b) ''oslo''"
    unfolding a_def b_def by code_simp+
  from attribute_exchange_agrees [OF this refl refl] show ?thesis
    using a_def b_def by blast
qed

text \<open>
  Recording a sighting: the total grows by exactly one and so does the recording server's own
  entry, no other server's entry moves; the first sighting sets the window to its instant and
  every later one only widens it; the sighting's bucket starts on the hour that holds it.
\<close>
theorem attribute_increment_counts:
  "Attribute_count (Attribute_increment a node t keep) = Attribute_count a + 1 \<and>
   fm_get0 (counts (Attribute_increment a node t keep)) n =
     fm_get0 (counts a) n + (if n = node then 1 else 0) \<and>
   first_seen (Attribute_increment a node t keep) =
     (if Attribute_count a = 0 then t else min t (first_seen a)) \<and>
   last_seen (Attribute_increment a node t keep) =
     (if Attribute_count a = 0 then t else max t (last_seen a)) \<and>
   bucket_of t \<le> timestamp t \<and> timestamp t < bucket_of t + STATS_BUCKET_SECS \<and>
   bucket_of t mod STATS_BUCKET_SECS = 0"
  by (simp add: seen_increment counts_increment fm_simps bucket_of_bounds)

text \<open>
  Statistics cannot grow without bound: with a retention of \<open>keep > 0\<close> buckets, after a sighting
  the recording server holds at most \<open>keep\<close> of its own buckets, namely the newest ones among those
  it held and the sighting's, and no other server's buckets are touched.
\<close>
theorem attribute_retention_bound:
  assumes "keep > 0"
  shows "fm_size (node_buckets (Attribute_increment a node t keep) node) \<le> keep \<and>
     fmdom' (node_buckets (Attribute_increment a node t keep) node) \<subseteq>
       insert (bucket_of t) (fmdom' (node_buckets a node)) \<and>
     (\<forall>old. old \<in> insert (bucket_of t) (fmdom' (node_buckets a node)) \<longrightarrow>
        old \<notin> fmdom' (node_buckets (Attribute_increment a node t keep) node) \<longrightarrow>
        (\<forall>b \<in> fmdom' (node_buckets (Attribute_increment a node t keep) node). old < b)) \<and>
     (other \<noteq> node \<longrightarrow> fmlookup (stats (Attribute_increment a node t keep)) other = fmlookup (stats a) other)"
proof -
  let ?ks = "fm_keys (node_buckets (Attribute_make_stats a node t) node)"
  let ?new = "node_buckets (Attribute_increment a node t keep) node"
  have new: "fm_keys ?new = drop (length ?ks - keep) ?ks"
    using assms by (simp add: node_buckets_increment node_buckets_trim_stats)
  have set_ks: "set ?ks = insert (bucket_of t) (fmdom' (node_buckets a node))"
    by (simp add: node_buckets_make_stats)
  have dom: "fmdom' ?new = set (drop (length ?ks - keep) ?ks)" using new set_fm_keys by metis
  have "old < b" if "old \<in> set ?ks" "old \<notin> fmdom' ?new" "b \<in> fmdom' ?new" for old b
  proof -
    let ?n = "length ?ks - keep"
    have "sorted (take ?n ?ks @ drop ?n ?ks)" "distinct (take ?n ?ks @ drop ?n ?ks)"
      using sorted_fm_keys distinct_fm_keys by (metis append_take_drop_id)+
    moreover have "old \<in> set (take ?n ?ks)" using that dom
      by (metis Un_iff append_take_drop_id set_append)
    ultimately show ?thesis using that(3) dom unfolding sorted_append distinct_append
      by (metis disjoint_iff order_less_le)
  qed
  moreover have "fm_size ?new \<le> keep" using new by (simp add: fm_size_keys)
  moreover have "fmdom' ?new \<subseteq> set ?ks" using dom set_drop_subset by metis
  ultimately show ?thesis using set_ks other_buckets_increment by metis
qed

theorem attribute_retention_bound_witness:
  "fm_size (node_buckets (Attribute_increment
     (Attribute_increment (Attribute_new ''v'') ''local'' (DateTime 100 0) 1) ''local'' (DateTime 9000 0) 1) ''local'') \<le> 1"
  using attribute_retention_bound [of 1 "Attribute_increment (Attribute_new ''v'') ''local'' (DateTime 100 0) 1"
      "''local''" "DateTime 9000 0" "''x''"]
  by simp


lemma expired_mono: "Attribute_is_expired a now \<Longrightarrow> now \<le> later \<Longrightarrow> Attribute_is_expired a later"
  using timestamp_mono [of now later] by (auto simp: Attribute_is_expired_def split: option.splits)

text \<open>
  Expiry: a value without a TTL never expires, and one with a TTL is visible up to and
  including the second \<open>last_seen + ttl\<close> and invisible from the next one on (as long as that
  deadline is an i64, which every date of the common era is).
\<close>
theorem attribute_expiry:
  assumes "0 \<le> timestamp (last_seen a)" and "timestamp (last_seen a) + uint (ttl a) \<le> i64_max"
  shows "Attribute_is_expired a now \<longleftrightarrow>
    ttl a \<noteq> 0 \<and> timestamp (last_seen a) + uint (ttl a) < timestamp now"
proof (cases "ttl a = 0")
  case False
  have "0 \<le> uint (ttl a)" "i64_min \<le> 0" by (simp_all add: i64_min_def)
  then have "uint (ttl a) \<le> i64_max"
    and "saturating_i64 (timestamp (last_seen a) + uint (ttl a)) = timestamp (last_seen a) + uint (ttl a)"
    using assms unfolding saturating_i64_def by linarith+
  then show ?thesis using False
    by (simp add: Attribute_is_expired_def Attribute_expires_at_def i64_try_from_def word_gt_0)
qed (simp add: Attribute_is_expired_def Attribute_expires_at_def)

theorem attribute_expiry_witness:
  "\<exists>a. a = Attribute_set_ttl (Attribute_increment (Attribute_new ''v'') ''local'' (DateTime 1000 5) 0) 60 \<and>
     \<not> Attribute_is_expired a (DateTime 1060 999) \<and> Attribute_is_expired a (DateTime 1061 0)"
proof -
  define a where "a = Attribute_set_ttl (Attribute_increment (Attribute_new ''v'') ''local'' (DateTime 1000 5) 0) 60"
  have la: "timestamp (last_seen a) = 1000" "ttl a = 60" unfolding a_def by code_simp+
  have "0 \<le> timestamp (last_seen a)" "timestamp (last_seen a) + uint (ttl a) \<le> i64_max"
    by (simp_all add: la i64_max_def)
  then have "\<not> Attribute_is_expired a (DateTime 1060 999) \<and> Attribute_is_expired a (DateTime 1061 0)"
    by (simp add: attribute_expiry la)
  with a_def show ?thesis by blast
qed

text \<open>
  The tag field is a set: \<open>add_tags\<close> makes the tags exactly those held and those given, keeps
  the held ones first and in order, lists none twice that was not listed twice before, and changes
  nothing else; \<open>set_tags\<close> makes them exactly those given, without repeats, and never moves the
  moment of the last replacement backwards.
\<close>
theorem attribute_tags_are_a_set:
  "set (split_tags (tags (Attribute_add_tags a ts))) = set (split_tags (tags a)) \<union> set (split_tags ts) \<and>
   (\<exists>new. split_tags (tags (Attribute_add_tags a ts)) = split_tags (tags a) @ new) \<and>
   (distinct (split_tags (tags a)) \<longrightarrow> distinct (split_tags (tags (Attribute_add_tags a ts)))) \<and>
   (Attribute_add_tags a ts)\<lparr>tags := tags a\<rparr> = a \<and>
   set (split_tags (tags (Attribute_set_tags a ts at))) = set (split_tags ts) \<and>
   distinct (split_tags (tags (Attribute_set_tags a ts at))) \<and>
   tags_at a \<le> tags_at (Attribute_set_tags a ts at) \<and> at \<le> tags_at (Attribute_set_tags a ts at)"
proof (intro conjI impI)
  show "\<exists>new. split_tags (tags (Attribute_add_tags a ts)) = split_tags (tags a) @ new"
    using push_missing_prefix [of "split_tags (tags a)" "split_tags ts"] by (auto simp: split_tags_add_tags)
qed (auto simp: split_tags_add_tags split_tags_set_tags intro: distinct_push_missing,
     simp_all add: Attribute_add_tags_def Attribute_set_tags_def Let_def)

theorem attribute_tags_are_a_set_witness:
  "split_tags (tags (Attribute_add_tags (Attribute_add_tags (Attribute_new ''v'') ''a, b'') ''b,c''))
     = [''a'', ''b'', ''c''] \<and>
   distinct (split_tags (tags (Attribute_add_tags (Attribute_add_tags (Attribute_new ''v'') ''a, b'') ''b,c'')))"
proof -
  have "split_tags (tags (Attribute_add_tags (Attribute_add_tags (Attribute_new ''v'') ''a, b'') ''b,c''))
     = [''a'', ''b'', ''c'']" by code_simp
  moreover have "distinct (split_tags (tags (Attribute_add_tags (Attribute_new ''v'') ''a, b'')))" by code_simp
  ultimately show ?thesis
    using attribute_tags_are_a_set [of "Attribute_add_tags (Attribute_new ''v'') ''a, b''" "''b,c''" 0] by blast
qed


section \<open>Where the documented rules do not hold\<close>

text \<open>
  \<open>Merged::changed\<close> is documented as "whether anything about the local copy changed". Taking over a
  later replacement of the same tag text moves \<open>tags_at\<close> and is not reported, so the shard is not
  marked dirty and the later moment is lost at a restart.
\<close>
lemma merge_changed_misses_tags_at:
  "\<exists>a m. let (a', r) = Attribute_merge sample_chrono a m ''local''
         in \<not> changed r \<and> a' \<noteq> a \<and> tags_at a < tags_at a'"
proof -
  let ?a = "Attribute_set_tags (Attribute_increment (Attribute_new ''v'') ''local'' (DateTime 100 0) 0) ''tlp:red'' 5"
  let ?m = "(Attribute_as_merge ?a)\<lparr>m_tags_at := 9\<rparr>"
  have "let (a', r) = Attribute_merge sample_chrono ?a ?m ''local''
        in \<not> changed r \<and> tags_at ?a < tags_at a'" by code_simp
  then have "let (a', r) = Attribute_merge sample_chrono ?a ?m ''local''
        in \<not> changed r \<and> a' \<noteq> ?a \<and> tags_at ?a < tags_at a'" by auto
  then show ?thesis by blast
qed

text \<open>
  The rules for the window are documented not to care about order or repetition. They do for copies
  that bring no counts: an epoch date makes the local copy look unseen again, and the next copy then
  overwrites the window instead of widening it.
\<close>
lemma merge_order_matters_at_epoch:
  "\<exists>m n. last_seen (fst (Attribute_merge sample_chrono (fst (Attribute_merge sample_chrono (Attribute_new ''v'') m ''local'')) n ''local''))
       \<noteq> last_seen (fst (Attribute_merge sample_chrono (fst (Attribute_merge sample_chrono (Attribute_new ''v'') n ''local'')) m ''local''))"
proof -
  let ?m = "sample_copy\<lparr>m_counts := fmempty, m_first_seen := 0, m_last_seen := 50\<rparr>"
  let ?n = "sample_copy\<lparr>m_counts := fmempty, m_first_seen := 10, m_last_seen := 20\<rparr>"
  have "last_seen (fst (Attribute_merge sample_chrono (fst (Attribute_merge sample_chrono (Attribute_new ''v'') ?m ''local'')) ?n ''local''))
       \<noteq> last_seen (fst (Attribute_merge sample_chrono (fst (Attribute_merge sample_chrono (Attribute_new ''v'') ?n ''local'')) ?m ''local''))"
    by code_simp
  then show ?thesis by blast
qed

lemma merge_repetition_matters_at_epoch:
  "\<exists>a m. last_seen (fst (Attribute_merge sample_chrono (fst (Attribute_merge sample_chrono a m ''local'')) m ''local''))
       < last_seen (fst (Attribute_merge sample_chrono a m ''local''))"
proof -
  let ?a = "fst (Attribute_merge sample_chrono (Attribute_new ''v'')
     (sample_copy\<lparr>m_counts := fmempty, m_first_seen := 10, m_last_seen := 50\<rparr>) ''local'')"
  let ?m = "sample_copy\<lparr>m_counts := fmempty, m_first_seen := 0, m_last_seen := 20\<rparr>"
  have "last_seen (fst (Attribute_merge sample_chrono (fst (Attribute_merge sample_chrono ?a ?m ''local'')) ?m ''local''))
       < last_seen (fst (Attribute_merge sample_chrono ?a ?m ''local''))"
    by code_simp
  then show ?thesis by blast
qed

end
