(* ===== verification/Namespace.thy ===== *)
theory Namespace
  imports Attribute
begin

text \<open>
  \<^verbatim>\<open>src/src/db.rs\<close>, \<open>struct Namespace\<close>: the values of one namespace and the flag saying whether any
  of them ever had a TTL. The read-write lock and the per-value mutexes are not modelled: each
  operation is one step. The clock is an argument.

  The flag is an optimisation: a sweep skips a namespace without it. \<open>ns_inv\<close> is what makes that
  right, and every operation keeps it.
\<close>

section \<open>Data\<close>

record namespace =
  ns_values :: "(string, attribute) fmap"
  ns_has_ttl :: bool

record 'a page =
  pg_items :: "'a list"
  pg_total :: nat
  pg_offset :: nat

definition Namespace_default :: namespace where
  "Namespace_default = \<lparr>ns_values = fmempty, ns_has_ttl = False\<rparr>"

section \<open>Operations\<close>

definition Namespace_from_values :: "(string, attribute) fmap \<Rightarrow> string \<Rightarrow> namespace" where
  "Namespace_from_values values node =
     \<lparr>ns_values = fmmap (\<lambda>attr. Attribute_migrate attr node) values,
      ns_has_ttl = list_ex (\<lambda>attr. ttl attr > 0) (fm_values values)\<rparr>"

text \<open>What \<open>record\<close> does to the attribute, on both of its paths.\<close>

definition sight :: "attribute \<Rightarrow> string \<Rightarrow> datetime \<Rightarrow> u64 option \<Rightarrow> nat \<Rightarrow> string \<Rightarrow> attribute" where
  "sight attr node when ttl_opt retention given =
     (let attr = (case ttl_opt of None \<Rightarrow> attr | Some t \<Rightarrow> Attribute_set_ttl attr t);
          attr = (if given \<noteq> [] then Attribute_add_tags attr given else attr)
      in Attribute_increment attr node when retention)"

definition Namespace_record ::
  "namespace \<Rightarrow> string \<Rightarrow> string \<Rightarrow> datetime \<Rightarrow> u64 option \<Rightarrow> nat \<Rightarrow> string
    \<Rightarrow> namespace \<times> u64 \<times> bool \<times> attribute_view" where
  "Namespace_record ns node v when ttl_opt retention given =
     (let ns = (if (case ttl_opt of None \<Rightarrow> False | Some t \<Rightarrow> t > 0) then ns\<lparr>ns_has_ttl := True\<rparr> else ns)
      in case fmlookup (ns_values ns) v of
           Some attr \<Rightarrow>
             let attr = sight attr node when ttl_opt retention given
             in (ns\<lparr>ns_values := fmupd v attr (ns_values ns)\<rparr>, Attribute_count attr, False, Attribute_view attr 0 False)
         | None \<Rightarrow>
             let attr = sight (Attribute_new v) node when ttl_opt retention given
             in (ns\<lparr>ns_values := fmupd v attr (ns_values ns)\<rparr>, Attribute_count attr, True, Attribute_view attr 0 False))"

definition Namespace_set_count :: "namespace \<Rightarrow> string \<Rightarrow> string \<Rightarrow> u64 \<Rightarrow> datetime \<Rightarrow> namespace \<times> bool" where
  "Namespace_set_count ns node v count now =
     (if count = 0 then (ns\<lparr>ns_values := fmdrop v (ns_values ns)\<rparr>, fm_contains (ns_values ns) v)
      else let attr = fm_get (Attribute_new v) (ns_values ns) v
           in if Attribute_count attr = count
              then (ns\<lparr>ns_values := fmupd v attr (ns_values ns)\<rparr>, False)
              else let attr = attr\<lparr>counts := fmupd node count fmempty\<rparr>;
                       attr = (if first_seen attr = UNIX_EPOCH
                               then attr\<lparr>first_seen := now, last_seen := now\<rparr> else attr)
                   in (ns\<lparr>ns_values := fmupd v attr (ns_values ns)\<rparr>, True))"

definition Namespace_merge ::
  "(int \<Rightarrow> datetime option) \<Rightarrow> namespace \<Rightarrow> string \<Rightarrow> string \<Rightarrow> merge_data \<Rightarrow> namespace \<times> merged \<times> bool" where
  "Namespace_merge from_timestamp ns node v incoming =
     (let ns = (if m_ttl incoming > 0 then ns\<lparr>ns_has_ttl := True\<rparr> else ns);
          is_new = (\<not> fm_contains (ns_values ns) v);
          attr = fm_get (Attribute_new v) (ns_values ns) v;
          (attr, outcome) = Attribute_merge from_timestamp attr incoming node
      in (ns\<lparr>ns_values := fmupd v attr (ns_values ns)\<rparr>, outcome, is_new))"

definition Namespace_merge_page :: "namespace \<Rightarrow> nat \<Rightarrow> nat \<Rightarrow> datetime \<Rightarrow> (string \<times> merge_data) page" where
  "Namespace_merge_page ns offset limit now =
     (let live = filter (\<lambda>(_, attr). \<not> Attribute_is_expired attr now) (sorted_list_of_fmap (ns_values ns));
          items = map (\<lambda>(v, attr). (v, Attribute_as_merge attr)) (take limit (drop offset live))
      in \<lparr>pg_items = items, pg_total = length live, pg_offset = offset\<rparr>)"

definition Namespace_merge_payload :: "namespace \<Rightarrow> string \<Rightarrow> datetime \<Rightarrow> merge_data option" where
  "Namespace_merge_payload ns v now =
     (case fmlookup (ns_values ns) v of
        None \<Rightarrow> None
      | Some attr \<Rightarrow> if Attribute_is_expired attr now then None else Some (Attribute_as_merge attr))"

definition Namespace_view :: "namespace \<Rightarrow> string \<Rightarrow> u64 \<Rightarrow> bool \<Rightarrow> datetime \<Rightarrow> attribute_view option" where
  "Namespace_view ns v consensus with_stats now =
     (case fmlookup (ns_values ns) v of
        None \<Rightarrow> None
      | Some attr \<Rightarrow> if Attribute_is_expired attr now then None else Some (Attribute_view attr consensus with_stats))"

definition Namespace_count :: "namespace \<Rightarrow> string \<Rightarrow> datetime \<Rightarrow> u64" where
  "Namespace_count ns v now =
     (case fmlookup (ns_values ns) v of
        None \<Rightarrow> 0
      | Some attr \<Rightarrow> if Attribute_is_expired attr now then 0 else Attribute_count attr)"

definition Namespace_all_views :: "namespace \<Rightarrow> bool \<Rightarrow> datetime \<Rightarrow> attribute_view list" where
  "Namespace_all_views ns with_stats now =
     map (\<lambda>attr. Attribute_view attr 0 with_stats)
       (filter (\<lambda>attr. \<not> Attribute_is_expired attr now) (fm_values (ns_values ns)))"

definition Namespace_remove_expired :: "namespace \<Rightarrow> datetime \<Rightarrow> namespace \<times> string list" where
  "Namespace_remove_expired ns now =
     (if \<not> ns_has_ttl ns then (ns, [])
      else if \<not> list_ex (\<lambda>attr. Attribute_is_expired attr now) (fm_values (ns_values ns)) then (ns, [])
      else let removed = map fst (filter (\<lambda>(_, attr). Attribute_is_expired attr now) (sorted_list_of_fmap (ns_values ns)))
           in (ns\<lparr>ns_values := fold fmdrop removed (ns_values ns)\<rparr>, removed))"

definition Namespace_retag :: "namespace \<Rightarrow> string \<Rightarrow> string \<Rightarrow> datetime \<Rightarrow> namespace \<times> bool" where
  "Namespace_retag ns v given now =
     (case fmlookup (ns_values ns) v of
        None \<Rightarrow> (ns, False)
      | Some attr \<Rightarrow>
          if Attribute_is_expired attr now then (ns, False)
          else (ns\<lparr>ns_values := fmupd v (Attribute_set_tags attr given (timestamp_millis now)) (ns_values ns)\<rparr>, True))"

definition Namespace_release :: "namespace \<Rightarrow> string \<Rightarrow> string \<Rightarrow> namespace" where
  "Namespace_release ns node v =
     (case fmlookup (ns_values ns) v of
        None \<Rightarrow> ns
      | Some attr \<Rightarrow>
          let (attr, remaining) = Attribute_decrement attr node
          in if remaining = 0 then ns\<lparr>ns_values := fmdrop v (ns_values ns)\<rparr>
             else ns\<lparr>ns_values := fmupd v attr (ns_values ns)\<rparr>)"

definition Namespace_value_names :: "namespace \<Rightarrow> string list" where
  "Namespace_value_names ns = fm_keys (ns_values ns)"

definition Namespace_is_empty :: "namespace \<Rightarrow> bool" where
  "Namespace_is_empty ns \<longleftrightarrow> ns_values ns = fmempty"

definition Namespace_len :: "namespace \<Rightarrow> nat" where
  "Namespace_len ns = fm_size (ns_values ns)"

section \<open>Lemmas\<close>

definition ns_inv :: "namespace \<Rightarrow> bool" where
  "ns_inv ns \<longleftrightarrow> (\<forall>v attr. fmlookup (ns_values ns) v = Some attr \<longrightarrow> ttl attr > 0 \<longrightarrow> ns_has_ttl ns)"

lemma set_fm_values: "x \<in> set (fm_values m) \<longleftrightarrow> (\<exists>k. fmlookup m k = Some x)"
proof -
  have "x \<in> set (fm_values m) \<longleftrightarrow> (\<exists>k. (k, x) \<in> set (sorted_list_of_fmap m))"
    unfolding fm_values_def set_map by (metis (no_types, lifting) image_iff prod.collapse snd_conv)
  then show ?thesis by simp
qed

lemma expired_ttl: "Attribute_is_expired attr now \<Longrightarrow> ttl attr > 0"
  by (auto simp: Attribute_is_expired_def Attribute_expires_at_def split: if_splits)

lemma ttl_migrate [simp]: "ttl (Attribute_migrate a n) = ttl a"
  by (simp add: Attribute_migrate_def Let_def)

lemma ttl_sight: "ttl (sight a n t o' r g) = (case o' of None \<Rightarrow> ttl a | Some x \<Rightarrow> x)"
  by (simp add: sight_def Let_def Attribute_set_ttl_def split: option.splits)

lemma ttl_merge: "ttl (fst (Attribute_merge ft a m n)) = merged_ttl (ttl a) (m_ttl m)"
  by (simp add: Attribute_merge_def Let_def split: prod.splits)

lemma ttl_set_tags [simp]: "ttl (Attribute_set_tags a ts t) = ttl a"
  by (simp add: Attribute_set_tags_def Let_def)

lemma ttl_decrement [simp]: "ttl (fst (Attribute_decrement a n)) = ttl a"
  by (simp add: Attribute_decrement_def Let_def split: option.splits)

lemma merged_ttl_pos: "merged_ttl a b > 0 \<Longrightarrow> a > 0 \<or> b > 0"
  by (auto simp: merged_ttl_def split: if_splits)

lemma ns_inv_upd:
  "ns_inv ns \<Longrightarrow> (ttl a > 0 \<longrightarrow> ns_has_ttl ns) \<Longrightarrow> ns_inv (ns\<lparr>ns_values := fmupd v a (ns_values ns)\<rparr>)"
  by (simp add: ns_inv_def)

lemma ns_inv_drop: "ns_inv ns \<Longrightarrow> ns_inv (ns\<lparr>ns_values := fmdrop v (ns_values ns)\<rparr>)"
  by (auto simp: ns_inv_def split: if_splits)

lemma ns_inv_get: "ns_inv ns \<Longrightarrow> ttl (fm_get (Attribute_new v) (ns_values ns) v) > 0 \<Longrightarrow> ns_has_ttl ns"
  by (auto simp: ns_inv_def fm_get_def Attribute_new_def split: option.splits)

lemma ns_inv_flag: "ns_inv ns \<Longrightarrow> ns_inv (ns\<lparr>ns_has_ttl := True\<rparr>)"
  by (simp add: ns_inv_def)

lemma fold_fmdrop_lookup: "fmlookup (fold fmdrop ks m) k = (if k \<in> set ks then None else fmlookup m k)"
  by (induction ks arbitrary: m) auto

lemma Namespace_record_simp:
  "Namespace_record ns node v when t retention given =
     (let attr = sight (fm_get (Attribute_new v) (ns_values ns) v) node when t retention given
      in (\<lparr>ns_values = fmupd v attr (ns_values ns),
           ns_has_ttl = (ns_has_ttl ns \<or> (case t of None \<Rightarrow> False | Some t \<Rightarrow> t > 0))\<rparr>,
          Attribute_count attr, \<not> fm_contains (ns_values ns) v, Attribute_view attr 0 False))"
  by (cases ns) (auto simp: Namespace_record_def Let_def fm_get_def fm_contains_def split: option.splits)

lemma count_sight [simp]: "Attribute_count (sight a n t x r g) = Attribute_count a + 1"
proof -
  have "Attribute_count (Attribute_add_tags b ts) = Attribute_count b"
    and "Attribute_count (Attribute_set_ttl b y) = Attribute_count b" for b ts y
    by (simp_all add: Attribute_count_def Attribute_set_ttl_def)
  then show ?thesis by (simp add: sight_def Let_def split: option.splits)
qed

text \<open>
  A sighting in a namespace: the value's total grows by exactly one (from zero for a value not
  held), it is reported new exactly when it was not held, the count returned is the count then held,
  and every other value is untouched.
\<close>
theorem namespace_record_counts:
  "Namespace_record ns node v when t retention given = (ns', n, is_new, view) \<Longrightarrow>
   n = (case fmlookup (ns_values ns) v of None \<Rightarrow> 1 | Some a \<Rightarrow> Attribute_count a + 1) \<and>
   (is_new \<longleftrightarrow> fmlookup (ns_values ns) v = None) \<and>
   (\<exists>a. fmlookup (ns_values ns') v = Some a \<and> Attribute_count a = n \<and> v_count view = n \<and>
      (case t of None \<Rightarrow> True | Some x \<Rightarrow> ttl a = x)) \<and>
   (w \<noteq> v \<longrightarrow> fmlookup (ns_values ns') w = fmlookup (ns_values ns) w)"
  by (auto simp: Namespace_record_simp Let_def fm_get_def fm_contains_def Attribute_new_def Attribute_count_def
      Attribute_view_def ttl_sight count_sight [unfolded Attribute_count_def] split: option.splits)

theorem namespace_record_counts_witness:
  "fmlookup (ns_values (fst (Namespace_record Namespace_default ''local'' ''v'' (DateTime 100 0) (Some 60) 0 []))) ''w'' = None"
proof -
  obtain ns n b view where r: "Namespace_record Namespace_default ''local'' ''v'' (DateTime 100 0) (Some 60) 0 [] = (ns, n, b, view)"
    by (metis prod_cases4)
  from namespace_record_counts [OF r, of "''w''"] show ?thesis using r by (simp add: Namespace_default_def)
qed

lemma ns_inv_record: "ns_inv ns \<Longrightarrow> ns_inv (fst (Namespace_record ns node v when t retention given))"
  using ns_inv_get [of ns v]
  by (auto simp: Namespace_record_simp Let_def ns_inv_def ttl_sight split: option.splits if_splits)

lemma Namespace_merge_fst:
  "fst (Namespace_merge ft ns node v m) =
     \<lparr>ns_values = fmupd v (fst (Attribute_merge ft (fm_get (Attribute_new v) (ns_values ns) v) m node)) (ns_values ns),
      ns_has_ttl = (ns_has_ttl ns \<or> m_ttl m > 0)\<rparr>"
  by (cases ns) (auto simp: Namespace_merge_def Let_def split: prod.splits)

lemma ns_inv_merge: "ns_inv ns \<Longrightarrow> ns_inv (fst (Namespace_merge ft ns node v m))"
  using ns_inv_get [of ns v] merged_ttl_pos
  by (auto simp: Namespace_merge_fst ns_inv_def ttl_merge split: if_splits)

lemma ns_inv_set_count: "ns_inv ns \<Longrightarrow> ns_inv (fst (Namespace_set_count ns node v c now))"
  using ns_inv_get [of ns v]
  by (auto simp: Namespace_set_count_def Let_def intro!: ns_inv_upd ns_inv_drop)

lemma ns_inv_release:
  assumes "ns_inv ns"
  shows "ns_inv (Namespace_release ns node v)"
proof (cases "fmlookup (ns_values ns) v")
  case (Some a)
  obtain b r where d: "Attribute_decrement a node = (b, r)" by fastforce
  then have "ttl b = ttl a" using ttl_decrement [of a node] by simp
  then have "ttl b > 0 \<longrightarrow> ns_has_ttl ns" using Some assms by (auto simp: ns_inv_def)
  with Some d assms show ?thesis
    by (auto simp: Namespace_release_def intro!: ns_inv_upd ns_inv_drop)
qed (simp add: Namespace_release_def assms)

lemma ns_inv_retag: "ns_inv ns \<Longrightarrow> ns_inv (fst (Namespace_retag ns v given now))"
  by (auto simp: Namespace_retag_def ns_inv_def split: option.splits)

lemma ns_inv_from_values: "ns_inv (Namespace_from_values vs node)"
  unfolding Namespace_from_values_def ns_inv_def by (auto simp: list_ex_iff Bex_def set_fm_values)

definition expired_names :: "namespace \<Rightarrow> datetime \<Rightarrow> string set" where
  "expired_names ns now = {w. \<exists>a. fmlookup (ns_values ns) w = Some a \<and> Attribute_is_expired a now}"

lemma remove_expired_exact:
  assumes "ns_inv ns"
  shows "fmlookup (ns_values (fst (Namespace_remove_expired ns now))) w =
       (if w \<in> expired_names ns now then None else fmlookup (ns_values ns) w)"
    and "set (snd (Namespace_remove_expired ns now)) = expired_names ns now"
    and "distinct (snd (Namespace_remove_expired ns now))"
    and "ns_has_ttl (fst (Namespace_remove_expired ns now)) = ns_has_ttl ns"
proof -
  let ?names = "map fst (filter (\<lambda>(_, attr). Attribute_is_expired attr now) (sorted_list_of_fmap (ns_values ns)))"
  have set_names: "set ?names = expired_names ns now" unfolding expired_names_def by force
  have dist: "distinct ?names" by (rule distinct_map_filter) simp
  have short: "expired_names ns now = {}"
    if "\<not> ns_has_ttl ns \<or> \<not> list_ex (\<lambda>a. Attribute_is_expired a now) (fm_values (ns_values ns))"
    using that assms expired_ttl by (auto simp: ns_inv_def list_ex_iff set_fm_values expired_names_def)
  show "fmlookup (ns_values (fst (Namespace_remove_expired ns now))) w =
       (if w \<in> expired_names ns now then None else fmlookup (ns_values ns) w)"
    and "set (snd (Namespace_remove_expired ns now)) = expired_names ns now"
    and "distinct (snd (Namespace_remove_expired ns now))"
    and "ns_has_ttl (fst (Namespace_remove_expired ns now)) = ns_has_ttl ns"
    using short set_names dist by (auto simp: Namespace_remove_expired_def Let_def fold_fmdrop_lookup)
qed

lemma ns_inv_remove_expired:
  assumes "ns_inv ns"
  shows "ns_inv (fst (Namespace_remove_expired ns now))"
  unfolding ns_inv_def
proof (intro allI impI)
  fix v a
  assume "fmlookup (ns_values (fst (Namespace_remove_expired ns now))) v = Some a" "ttl a > 0"
  then have "fmlookup (ns_values ns) v = Some a"
    by (simp add: remove_expired_exact(1) [OF assms] split: if_splits)
  with \<open>ttl a > 0\<close> assms show "ns_has_ttl (fst (Namespace_remove_expired ns now))"
    by (auto simp: remove_expired_exact(4) [OF assms] ns_inv_def)
qed

text \<open>
  The flag that lets a sweep skip a namespace is never wrong: every operation keeps \<open>ns_inv\<close>, and
  under it \<open>remove_expired\<close> removes exactly the expired values, whatever short cut it takes, and
  names exactly those it removed, each once.
\<close>
theorem namespace_sweep_exact:
  assumes "ns_inv ns"
  shows "ns_inv (fst (Namespace_record ns node v when t retention given)) \<and>
    ns_inv (fst (Namespace_merge ft ns node v m)) \<and> ns_inv (fst (Namespace_set_count ns node v c now)) \<and>
    ns_inv (Namespace_release ns node v) \<and> ns_inv (fst (Namespace_retag ns v given now)) \<and>
    ns_inv (Namespace_from_values vs node) \<and> ns_inv (fst (Namespace_remove_expired ns now)) \<and>
    (\<forall>w. fmlookup (ns_values (fst (Namespace_remove_expired ns now))) w =
       (case fmlookup (ns_values ns) w of None \<Rightarrow> None
        | Some a \<Rightarrow> if Attribute_is_expired a now then None else Some a)) \<and>
    set (snd (Namespace_remove_expired ns now)) =
       {w. \<exists>a. fmlookup (ns_values ns) w = Some a \<and> Attribute_is_expired a now} \<and>
    distinct (snd (Namespace_remove_expired ns now))"
  using assms remove_expired_exact [OF assms, of now]
  by (auto simp: ns_inv_record ns_inv_merge ns_inv_set_count ns_inv_release ns_inv_retag ns_inv_from_values
      ns_inv_remove_expired expired_names_def split: option.splits)

theorem namespace_sweep_exact_witness:
  "set (snd (Namespace_remove_expired (fst (Namespace_record Namespace_default ''local'' ''v'' (DateTime 100 0) (Some 60) 0 []))
      (DateTime 161 0))) = {''v''}"
proof -
  let ?ns = "fst (Namespace_record Namespace_default ''local'' ''v'' (DateTime 100 0) (Some 60) 0 [])"
  have "ns_inv Namespace_default" by (simp add: ns_inv_def Namespace_default_def)
  then have inv: "ns_inv ?ns" using namespace_sweep_exact by blast
  define a where "a = sight (Attribute_new ''v'') ''local'' (DateTime 100 0) (Some 60) 0 []"
  have ns: "ns_values ?ns = fmupd ''v'' a fmempty" unfolding a_def by code_simp
  have exp: "Attribute_is_expired a (DateTime 161 0)" unfolding a_def by code_simp
  have "set (snd (Namespace_remove_expired ?ns (DateTime 161 0))) =
       {w. \<exists>a. fmlookup (ns_values ?ns) w = Some a \<and> Attribute_is_expired a (DateTime 161 0)}"
    using namespace_sweep_exact [OF inv] by blast
  then show ?thesis unfolding ns using exp by (auto split: if_splits)
qed

text \<open>
  Paging through a namespace for a peer offers every live value exactly once, in order, with the
  copy it holds, and no expired one: asking for pages of any size, as many as the total calls for,
  reads the whole listing.
\<close>
theorem namespace_pages_cover:
  assumes "pg_total (Namespace_merge_page ns 0 limit now) \<le> pages * limit"
  shows "concat (map (\<lambda>k. pg_items (Namespace_merge_page ns (k * limit) limit now)) [0..<pages]) =
      map (\<lambda>(v, a). (v, Attribute_as_merge a))
        (filter (\<lambda>(_, a). \<not> Attribute_is_expired a now) (sorted_list_of_fmap (ns_values ns))) \<and>
    distinct (map fst (concat (map (\<lambda>k. pg_items (Namespace_merge_page ns (k * limit) limit now)) [0..<pages])))"
proof -
  let ?live = "filter (\<lambda>(_, a). \<not> Attribute_is_expired a now) (sorted_list_of_fmap (ns_values ns))"
  have "concat (map (\<lambda>k. pg_items (Namespace_merge_page ns (k * limit) limit now)) [0..<pages]) =
      map (\<lambda>(v, a). (v, Attribute_as_merge a)) (concat (map (\<lambda>k. take limit (drop (k * limit) ?live)) [0..<pages]))"
    by (simp add: Namespace_merge_page_def Let_def map_concat comp_def)
  also have "\<dots> = map (\<lambda>(v, a). (v, Attribute_as_merge a)) ?live"
    using assms by (simp add: concat_pages Namespace_merge_page_def Let_def)
  finally have eq: "concat (map (\<lambda>k. pg_items (Namespace_merge_page ns (k * limit) limit now)) [0..<pages]) =
      map (\<lambda>(v, a). (v, Attribute_as_merge a)) ?live" .
  have "map fst (map (\<lambda>(v, a). (v, Attribute_as_merge a)) ?live) = map fst ?live" by auto
  moreover have "distinct (map fst ?live)" by (rule distinct_map_filter) simp
  ultimately show ?thesis using eq by metis
qed

theorem namespace_pages_cover_witness:
  "distinct (map fst (concat (map (\<lambda>k. pg_items (Namespace_merge_page
     (fst (Namespace_record (fst (Namespace_record Namespace_default ''local'' ''b'' (DateTime 100 0) None 0 [])) ''local'' ''a'' (DateTime 100 0) None 0 []))
     (k * 1) 1 (DateTime 200 0))) [0..<2])))"
proof -
  have "pg_total (Namespace_merge_page
     (fst (Namespace_record (fst (Namespace_record Namespace_default ''local'' ''b'' (DateTime 100 0) None 0 [])) ''local'' ''a'' (DateTime 100 0) None 0 []))
     0 1 (DateTime 200 0)) \<le> 2 * 1" by code_simp
  then show ?thesis by (rule namespace_pages_cover [THEN conjunct2])
qed

end
