(* ===== verification/Paths.thy ===== *)
theory Paths
  imports Prelude
begin

text \<open>
  Namespaces are flat slash-separated paths. This theory holds everything the code decides from a
  path alone: its segments (\<^verbatim>\<open>src/src/acl.rs\<close>), the shard it is stored in
  (\<^verbatim>\<open>src/src/persistence.rs\<close>), whether it is one of the database's own and whether it counts
  towards consensus (\<^verbatim>\<open>src/src/db.rs\<close>), the root its activity is counted under
  (\<^verbatim>\<open>src/src/activity.rs\<close>), whether it lies under a prefix (\<^verbatim>\<open>src/src/latest.rs\<close>) and which
  namespaces a server is willing to store (\<open>storage_policy\<close>, \<^verbatim>\<open>src/src/db.rs\<close>).

  The lemmas relate these rules to one another: the prefix rule on strings is the prefix rule on
  segments, the internal shard holds exactly the internal namespaces, and a policy holds exactly
  what its prefixes cover.
\<close>

section \<open>Constants\<close>

definition ALL_NAMESPACE :: string where "ALL_NAMESPACE = ''_all''"
definition SHADOW_PREFIX :: string where "SHADOW_PREFIX = ''_shadow/''"
definition CONFIG_PREFIX :: string where "CONFIG_PREFIX = ''_config/''"
definition APIKEYS_NAMESPACE :: string where "APIKEYS_NAMESPACE = ''_config/acl/apikeys/''"
definition DEFAULT_APIKEY :: string where "DEFAULT_APIKEY = ''changeme''"
definition LOCAL_NODE :: string where "LOCAL_NODE = ''local''"
definition ROOT_SHARD :: string where "ROOT_SHARD = ''_internal''"
definition INTERNAL_SHARD :: string where "INTERNAL_SHARD = ''_internal''"

section \<open>Paths\<close>

definition segments :: "string \<Rightarrow> string list" where
  "segments path = filter (\<lambda>s. s \<noteq> []) (split_on CHR ''/'' path)"

definition shard_of :: "string \<Rightarrow> string" where
  "shard_of namespace =
     (let first = (case find (\<lambda>s. s \<noteq> []) (split_on CHR ''/'' namespace) of
                     None \<Rightarrow> ROOT_SHARD | Some s \<Rightarrow> s)
      in if starts_with first ''_'' then INTERNAL_SHARD else first)"

definition is_internal :: "string \<Rightarrow> bool" where
  "is_internal namespace =
     (case find (\<lambda>s. s \<noteq> []) (split_on CHR ''/'' namespace) of
        None \<Rightarrow> False | Some first \<Rightarrow> starts_with first ''_'')"

definition root_of :: "string \<Rightarrow> string option" where
  "root_of namespace =
     (case find (\<lambda>s. s \<noteq> []) (split_on CHR ''/'' namespace) of
        None \<Rightarrow> None
      | Some root \<Rightarrow> if starts_with root ''_'' then None else Some root)"

definition counts_towards_consensus :: "string \<Rightarrow> bool" where
  "counts_towards_consensus name \<longleftrightarrow>
     name \<noteq> ALL_NAMESPACE \<and> \<not> starts_with name SHADOW_PREFIX \<and> \<not> starts_with name CONFIG_PREFIX"

definition under :: "string \<Rightarrow> string \<Rightarrow> bool" where
  "under namespace prefix \<longleftrightarrow>
     prefix = [] \<or> namespace = prefix \<or>
     (case strip_prefix namespace prefix of None \<Rightarrow> False | Some rest \<Rightarrow> starts_with rest ''/'')"

section \<open>What a server stores\<close>

record storage_policy =
  sp_prefixes :: "string list"
  sp_everything :: bool

definition StoragePolicy_everything :: storage_policy where
  "StoragePolicy_everything = \<lparr>sp_prefixes = [], sp_everything = True\<rparr>"

text \<open>The loop of \<open>from_prefixes\<close>, which returns early when a prefix covers the whole tree.\<close>

fun from_prefixes_loop :: "string list \<Rightarrow> string list \<Rightarrow> storage_policy" where
  "from_prefixes_loop held [] = \<lparr>sp_prefixes = held, sp_everything = False\<rparr>"
| "from_prefixes_loop held (p # ps) =
     (let prefix = trim_matches CHR ''/'' (trim p)
      in if prefix = [] then StoragePolicy_everything
         else from_prefixes_loop (if prefix \<in> set held then held else held @ [prefix]) ps)"

definition StoragePolicy_from_prefixes :: "string list \<Rightarrow> storage_policy" where
  "StoragePolicy_from_prefixes prefixes = from_prefixes_loop [] prefixes"

definition StoragePolicy_holds :: "storage_policy \<Rightarrow> string \<Rightarrow> bool" where
  "StoragePolicy_holds p ns =
     (if is_internal ns then True
      else if sp_everything p then True
      else let namespace = trim_matches CHR ''/'' ns
           in list_ex (\<lambda>prefix. namespace = prefix \<or>
                (case strip_prefix namespace prefix of
                   None \<Rightarrow> False | Some rest \<Rightarrow> starts_with rest ''/'')) (sp_prefixes p))"

definition StoragePolicy_is_router :: "storage_policy \<Rightarrow> bool" where
  "StoragePolicy_is_router p \<longleftrightarrow> \<not> sp_everything p \<and> sp_prefixes p = []"

definition StoragePolicy_stores_everything :: "storage_policy \<Rightarrow> bool" where
  "StoragePolicy_stores_everything p = sp_everything p"

section \<open>Lemmas\<close>

lemma find_filter: "find P xs = (case filter P xs of [] \<Rightarrow> None | x # _ \<Rightarrow> Some x)"
  by (induction xs) auto

lemma find_segments:
  "find (\<lambda>s. s \<noteq> []) (split_on CHR ''/'' ns) =
     (case segments ns of [] \<Rightarrow> None | s # _ \<Rightarrow> Some s)"
  by (simp add: find_filter segments_def)

lemma segments_no_slash: "s \<in> set (segments ns) \<Longrightarrow> s \<noteq> [] \<and> CHR ''/'' \<notin> set s"
  by (auto simp: segments_def dest: split_on_pieces)

lemma shard_of_internal:
  "shard_of ns = INTERNAL_SHARD \<longleftrightarrow> is_internal ns \<or> segments ns = []"
  by (auto simp: shard_of_def is_internal_def find_segments INTERNAL_SHARD_def ROOT_SHARD_def
      str_simps split: list.splits)

lemma shard_of_no_slash: "CHR ''/'' \<notin> set (shard_of ns) \<and> shard_of ns \<noteq> []"
proof (cases "segments ns")
  case Nil
  then show ?thesis
    by (simp add: shard_of_def find_segments ROOT_SHARD_def INTERNAL_SHARD_def str_simps)
next
  case (Cons s ss)
  with segments_no_slash [of s ns] show ?thesis
    by (simp add: shard_of_def find_segments INTERNAL_SHARD_def)
qed

lemma shard_of_internal_idem [simp]: "shard_of ALL_NAMESPACE = INTERNAL_SHARD"
  by code_simp

lemma starts_with_underscore_segments:
  "starts_with ns (CHR ''_'' # p) \<Longrightarrow> is_internal ns"
proof (induction ns)
  case (Cons x xs)
  then have [simp]: "x = CHR ''_''" by (simp add: str_simps)
  obtain q qs where "split_on CHR ''/'' xs = q # qs" by (cases "split_on CHR ''/'' xs") auto
  then show ?case by (simp add: is_internal_def str_simps)
qed simp

lemma not_counted_internal: "\<not> counts_towards_consensus ns \<Longrightarrow> is_internal ns"
  unfolding counts_towards_consensus_def SHADOW_PREFIX_def CONFIG_PREFIX_def ALL_NAMESPACE_def
  by (metis starts_with_underscore_segments starts_with_append append_Nil2)

text \<open>\<open>under\<close> in terms of what is left of the path.\<close>

lemma under_iff:
  "under ns p \<longleftrightarrow> p = [] \<or> ns = p \<or> (\<exists>rest. ns = p @ CHR ''/'' # rest)"
  by (auto simp: under_def strip_prefix_Some str_simps starts_with_iff split: option.splits)

text \<open>A path in normal form: segments that are not empty, joined by single slashes.\<close>

definition normal_path :: "string \<Rightarrow> bool" where
  "normal_path p \<longleftrightarrow> p \<noteq> [] \<and> (\<forall>s \<in> set (split_on CHR ''/'' p). s \<noteq> [])"

lemma normal_path_segments: "normal_path p \<Longrightarrow> split_on CHR ''/'' p = segments p"
  by (simp add: normal_path_def segments_def filter_id_conv)

lemma split_on_append_sep: "split_on c (a @ c # b) = split_on c a @ split_on c b"
proof (induction a)
  case (Cons x a)
  obtain p ps where "split_on c a = p # ps" by (cases "split_on c a") auto
  with Cons show ?case by auto
qed simp

lemma join_append:
  "xs \<noteq> [] \<Longrightarrow> ys \<noteq> [] \<Longrightarrow> join sep (xs @ ys) = join sep xs @ sep @ join sep ys"
proof (induction sep xs rule: join.induct)
  case (2 sep x)
  then show ?case by (cases ys) auto
qed auto

lemma under_segments:
  assumes "normal_path p" "normal_path ns"
  shows "under ns p \<longleftrightarrow> (\<exists>rest. segments ns = segments p @ rest)"
proof
  assume "under ns p"
  then consider "ns = p" | rest where "ns = p @ CHR ''/'' # rest"
    using assms(1) by (auto simp: under_iff normal_path_def)
  then show "\<exists>rest. segments ns = segments p @ rest"
    by cases (auto simp: segments_def split_on_append_sep)
next
  assume "\<exists>rest. segments ns = segments p @ rest"
  then obtain rest where eq: "segments ns = segments p @ rest" by blast
  have p: "p = join ''/'' (segments p)" and ns: "ns = join ''/'' (segments ns)"
    using assms by (metis join_split_on normal_path_segments)+
  have "segments p \<noteq> []" using assms(1) by (metis normal_path_segments split_on_ne)
  show "under ns p"
  proof (cases "rest = []")
    case True
    with eq p ns show ?thesis by (simp add: under_iff)
  next
    case False
    with eq \<open>segments p \<noteq> []\<close> have "ns = p @ ''/'' @ join ''/'' rest"
      using p ns by (metis join_append)
    then show ?thesis by (auto simp: under_iff)
  qed
qed


text \<open>
  The contract every path rule of the program is meant to follow: a prefix covers the paths whose
  segments start with its own. Stated over any rule \<open>covers\<close> that obeys it on the paths \<open>ok\<close>
  admits, so that one set of consequences serves grants, policies and listings alike.
\<close>

locale path_rule =
  fixes covers :: "string \<Rightarrow> string \<Rightarrow> bool"
    and ok :: "string \<Rightarrow> bool"
  assumes covers_segments:
    "ok p \<Longrightarrow> ok ns \<Longrightarrow> covers p ns \<longleftrightarrow> (\<exists>rest. segments ns = segments p @ rest)"
begin

lemma covers_self: "ok p \<Longrightarrow> covers p p"
  by (simp add: covers_segments)

lemma covers_trans: "ok p \<Longrightarrow> ok q \<Longrightarrow> ok r \<Longrightarrow> covers p q \<Longrightarrow> covers q r \<Longrightarrow> covers p r"
  by (auto simp: covers_segments)

lemma covers_antisym: "ok p \<Longrightarrow> ok q \<Longrightarrow> covers p q \<Longrightarrow> covers q p \<Longrightarrow> segments p = segments q"
  by (auto simp: covers_segments)

text \<open>Two prefixes of one path are comparable: there is always a most specific one.\<close>

lemma covers_comparable:
  "ok p \<Longrightarrow> ok q \<Longrightarrow> ok ns \<Longrightarrow> covers p ns \<Longrightarrow> covers q ns \<Longrightarrow> covers p q \<or> covers q p"
  unfolding covers_segments append_eq_append_conv2 by (metis append_eq_append_conv2)

end

interpretation under: path_rule "\<lambda>p ns. under ns p" normal_path
  by unfold_locales (rule under_segments)

subsection \<open>Storage policies\<close>

lemma policy_holds_under:
  assumes "\<not> is_internal ns" "[] \<notin> set held"
  shows "StoragePolicy_holds \<lparr>sp_prefixes = held, sp_everything = False\<rparr> ns \<longleftrightarrow>
     (\<exists>p \<in> set held. under (trim_matches CHR ''/'' ns) p)"
proof -
  have "p \<noteq> []" if "p \<in> set held" for p using assms(2) that by blast
  then show ?thesis using assms(1)
    by (simp add: StoragePolicy_holds_def list_ex_iff under_def Let_def cong: bex_cong)
qed

lemma everything_holds [simp]: "StoragePolicy_holds StoragePolicy_everything ns"
  by (simp add: StoragePolicy_holds_def StoragePolicy_everything_def)

lemma under_Nil [simp]: "under ns []"
  by (simp add: under_def)

lemma from_prefixes_loop_holds:
  assumes "\<not> is_internal ns" "[] \<notin> set held"
  shows "StoragePolicy_holds (from_prefixes_loop held ps) ns \<longleftrightarrow>
     (\<exists>p \<in> set held \<union> (trim_matches CHR ''/'' \<circ> trim) ` set ps. under (trim_matches CHR ''/'' ns) p)"
  using assms(2)
proof (induction ps arbitrary: held)
  case Nil
  then show ?case using assms(1) by (simp add: policy_holds_under)
next
  case (Cons p ps)
  show ?case
  proof (cases "trim_matches CHR ''/'' (trim p) = []")
    case True
    then show ?thesis by simp
  next
    case False
    with Cons.prems show ?thesis by (simp add: Let_def Cons.IH) blast
  qed
qed

lemma is_router_loop:
  "StoragePolicy_is_router (from_prefixes_loop held ps) \<longleftrightarrow> held = [] \<and> ps = []"
  by (induction held ps rule: from_prefixes_loop.induct)
     (auto simp: StoragePolicy_is_router_def StoragePolicy_everything_def Let_def)

text \<open>
  What a server stores is decided by the configured prefixes alone: the database's own
  namespaces are always held; any other namespace is held exactly when it lies under one of the
  prefixes, whole segments compared and surrounding blanks and slashes ignored; an empty prefix
  covers everything and a server without prefixes is a router that holds no data.
\<close>
theorem storage_policy_holds:
  "(StoragePolicy_holds (StoragePolicy_from_prefixes ps) ns \<longleftrightarrow>
      is_internal ns \<or>
      (\<exists>p \<in> set ps. under (trim_matches CHR ''/'' ns) (trim_matches CHR ''/'' (trim p)))) \<and>
   (StoragePolicy_is_router (StoragePolicy_from_prefixes ps) \<longleftrightarrow> ps = [])"
  using from_prefixes_loop_holds [of ns "[]" ps] is_router_loop [of "[]" ps]
  by (cases "is_internal ns") (auto simp: StoragePolicy_from_prefixes_def StoragePolicy_holds_def)

end
