(* ===== verification/Activity.thy ===== *)
theory Activity
  imports Paths Merge_Laws
begin

text \<open>
  \<^verbatim>\<open>src/src/activity.rs\<close>: how busy each top-level namespace has been, in hourly and daily buckets.
  The clock is an argument of the operations that read it; the mutex and the atomic flag are not
  modelled, every operation runs alone.
\<close>

section \<open>Data\<close>

definition HOUR :: int where "HOUR = 3600"
definition DAY :: int where "DAY = 86400"
definition HOURLY_BUCKETS :: int where "HOURLY_BUCKETS = 31 * 24"
definition DAILY_BUCKETS :: int where "DAILY_BUCKETS = 400"

record counts2 =
  reads :: u64
  writes :: u64

definition Counts_default :: counts2 where
  "Counts_default = \<lparr>reads = 0, writes = 0\<rparr>"

record series =
  hourly :: "(int, counts2) fmap"
  daily :: "(int, counts2) fmap"

record activity =
  a_enabled :: bool
  a_roots :: "(string, series) fmap"
  a_dirty :: bool

datatype granularity = Hour | Day

record root_report =
  rr_name :: string
  rr_reads :: "u64 list"
  rr_writes :: "u64 list"
  rr_total :: counts2
  rr_previous :: counts2

record report =
  rp_enabled :: bool
  rp_granularity :: granularity
  rp_step :: int
  rp_start :: int
  rp_buckets :: nat
  rp_oldest :: "int option"
  rp_now :: int
  rp_roots :: "root_report list"

section \<open>Operations\<close>

definition Counts_add :: "counts2 \<Rightarrow> counts2 \<Rightarrow> counts2" where
  "Counts_add a b = \<lparr>reads = reads a + reads b, writes = writes a + writes b\<rparr>"

definition bump :: "(int, counts2) fmap \<Rightarrow> int \<Rightarrow> int \<Rightarrow> int \<Rightarrow> counts2 \<Rightarrow> (int, counts2) fmap" where
  "bump buckets now step keep counts =
     (let start = now div step * step
      in case fmlookup buckets start of
           Some bucket \<Rightarrow> fmupd start (Counts_add bucket counts) buckets
         | None \<Rightarrow>
             let buckets = fmupd start counts buckets;
                 oldest = start - (keep - 1) * step
             in fmfilter (\<lambda>at. at \<ge> oldest) buckets)"

definition Series_default :: series where
  "Series_default = \<lparr>hourly = fmempty, daily = fmempty\<rparr>"

definition Series_record :: "series \<Rightarrow> int \<Rightarrow> counts2 \<Rightarrow> series" where
  "Series_record s now counts =
     s\<lparr>hourly := bump (hourly s) now HOUR HOURLY_BUCKETS counts,
       daily := bump (daily s) now DAY DAILY_BUCKETS counts\<rparr>"

definition Series_is_empty :: "series \<Rightarrow> bool" where
  "Series_is_empty s \<longleftrightarrow> hourly s = fmempty \<and> daily s = fmempty"

fun Granularity_step :: "granularity \<Rightarrow> int" where
  "Granularity_step Hour = HOUR"
| "Granularity_step Day = DAY"

fun Granularity_retained :: "granularity \<Rightarrow> int" where
  "Granularity_retained Hour = HOURLY_BUCKETS"
| "Granularity_retained Day = DAILY_BUCKETS"

definition Activity_default :: activity where
  "Activity_default = \<lparr>a_enabled = True, a_roots = fmempty, a_dirty = False\<rparr>"

definition Activity_set_enabled :: "activity \<Rightarrow> bool \<Rightarrow> activity" where
  "Activity_set_enabled a b = a\<lparr>a_enabled := b\<rparr>"

definition Activity_record_at :: "activity \<Rightarrow> string \<Rightarrow> int \<Rightarrow> counts2 \<Rightarrow> activity" where
  "Activity_record_at a namespace now counts =
     (case root_of namespace of
        None \<Rightarrow> a
      | Some root \<Rightarrow>
          let series = (case fmlookup (a_roots a) root of None \<Rightarrow> Series_default | Some s \<Rightarrow> s)
          in a\<lparr>a_roots := fmupd root (Series_record series now counts) (a_roots a), a_dirty := True\<rparr>)"

definition Activity_record :: "activity \<Rightarrow> string \<Rightarrow> int \<Rightarrow> counts2 \<Rightarrow> activity" where
  "Activity_record a namespace now counts =
     (if \<not> a_enabled a then a else Activity_record_at a namespace now counts)"

definition Activity_record_read :: "activity \<Rightarrow> string \<Rightarrow> int \<Rightarrow> activity" where
  "Activity_record_read a namespace now = Activity_record a namespace now \<lparr>reads = 1, writes = 0\<rparr>"

definition Activity_record_write :: "activity \<Rightarrow> string \<Rightarrow> int \<Rightarrow> activity" where
  "Activity_record_write a namespace now = Activity_record a namespace now \<lparr>reads = 0, writes = 1\<rparr>"

definition held_at :: "granularity \<Rightarrow> series \<Rightarrow> (int, counts2) fmap" where
  "held_at g s = (case g of Hour \<Rightarrow> hourly s | Day \<Rightarrow> daily s)"

text \<open>The loop over the buckets in the window, and the one over the window before it.\<close>

fun fill_window :: "int \<Rightarrow> int \<Rightarrow> (int \<times> counts2) list \<Rightarrow> u64 list \<times> u64 list \<times> counts2
    \<Rightarrow> u64 list \<times> u64 list \<times> counts2" where
  "fill_window start step [] acc = acc"
| "fill_window start step ((at, c) # held) (rs, ws, tot) =
     (let i = nat ((at - start) div step)
      in fill_window start step held (rs[i := reads c], ws[i := writes c], Counts_add tot c))"

definition root_report_of :: "granularity \<Rightarrow> int \<Rightarrow> int \<Rightarrow> int \<Rightarrow> nat \<Rightarrow> string \<Rightarrow> series \<Rightarrow> root_report" where
  "root_report_of g start latest previous_start buckets name s =
     (let step = Granularity_step g;
          held = sorted_list_of_fmap (held_at g s);
          (rs, ws, tot) = fill_window start step
             (filter (\<lambda>(at, _). start \<le> at \<and> at \<le> latest) held)
             (replicate buckets 0, replicate buckets 0, Counts_default);
          previous = fold (\<lambda>(_, c) acc. Counts_add acc c)
             (filter (\<lambda>(at, _). previous_start \<le> at \<and> at < start) held) Counts_default
      in \<lparr>rr_name = name, rr_reads = rs, rr_writes = ws, rr_total = tot, rr_previous = previous\<rparr>)"

definition oldest_of :: "granularity \<Rightarrow> (string \<times> series) list \<Rightarrow> int option" where
  "oldest_of g shown =
     fold (\<lambda>(_, s) oldest.
        case fm_keys (held_at g s) of
          [] \<Rightarrow> oldest
        | first # _ \<Rightarrow> Some (case oldest of None \<Rightarrow> first | Some old \<Rightarrow> min old first)) shown None"

definition busiest :: "root_report \<Rightarrow> int \<times> string" where
  "busiest r = (- uint (reads (rr_total r) + writes (rr_total r)), rr_name r)"

definition Activity_report :: "activity \<Rightarrow> granularity \<Rightarrow> int \<Rightarrow> nat \<Rightarrow> (string \<Rightarrow> bool) \<Rightarrow> int \<Rightarrow> report" where
  "Activity_report a g until buckets visible now =
     (let step = Granularity_step g;
          buckets = max 1 (min buckets (nat (Granularity_retained g)));
          latest = until div step * step;
          start = latest - (int buckets - 1) * step;
          previous_start = start - int buckets * step;
          shown = filter (\<lambda>(name, _). visible name) (sorted_list_of_fmap (a_roots a));
          roots = sort_key busiest
             (map (\<lambda>(name, s). root_report_of g start latest previous_start buckets name s) shown)
      in \<lparr>rp_enabled = a_enabled a, rp_granularity = g, rp_step = step, rp_start = start,
          rp_buckets = buckets, rp_oldest = oldest_of g shown, rp_now = now div step * step, rp_roots = roots\<rparr>)"

definition Activity_take_snapshot :: "activity \<Rightarrow> bool \<Rightarrow> activity \<times> (string, series) fmap option" where
  "Activity_take_snapshot a force =
     (if \<not> a_dirty a \<and> \<not> force then (a, None)
      else let roots = fmfilter (\<lambda>k. \<not> Series_is_empty (the (fmlookup (a_roots a) k))) (a_roots a)
           in (a\<lparr>a_roots := roots, a_dirty := False\<rparr>, Some roots))"

definition Activity_mark_dirty :: "activity \<Rightarrow> activity" where
  "Activity_mark_dirty a = a\<lparr>a_dirty := True\<rparr>"

definition add_all :: "(int, counts2) fmap \<Rightarrow> (int, counts2) fmap \<Rightarrow> (int, counts2) fmap" where
  "add_all saved held =
     fold (\<lambda>(at, c) m. fmupd at (Counts_add (fm_get Counts_default m at) c) m) (sorted_list_of_fmap saved) held"

definition Activity_restore :: "activity \<Rightarrow> (string, series) fmap \<Rightarrow> activity" where
  "Activity_restore a data = a\<lparr>a_roots :=
     fold (\<lambda>(root, saved) roots.
        let s = fm_get Series_default roots root
        in fmupd root (s\<lparr>hourly := add_all (hourly saved) (hourly s), daily := add_all (daily saved) (daily s)\<rparr>) roots)
       (sorted_list_of_fmap data) (a_roots a)\<rparr>"

section \<open>Lemmas\<close>

subsection \<open>Retention\<close>

text \<open>A series as the clock leaves it: buckets on multiples of the step, spanning no more than what
  is kept.\<close>

definition in_window :: "int \<Rightarrow> int \<Rightarrow> int \<Rightarrow> (int, counts2) fmap \<Rightarrow> bool" where
  "in_window step keep newest m \<longleftrightarrow>
     (\<forall>k \<in> fmdom' m. step dvd k \<and> newest - (keep - 1) * step \<le> k \<and> k \<le> newest)"

lemma in_window_size:
  assumes "in_window step keep newest m" "step > 0" "keep \<ge> 0" "step dvd newest"
  shows "int (fm_size m) \<le> keep"
proof -
  let ?f = "\<lambda>k. (newest - k) div step"
  have "inj_on ?f (fmdom' m)"
  proof (rule inj_onI)
    fix a b assume ab: "a \<in> fmdom' m" "b \<in> fmdom' m" "?f a = ?f b"
    have "step dvd newest - a" "step dvd newest - b"
      using ab assms(1,4) by (auto simp: in_window_def)
    with ab(3) have "newest - a = newest - b" by (metis dvd_div_mult_self)
    then show "a = b" by simp
  qed
  moreover have "?f ` fmdom' m \<subseteq> {0 ..< keep}"
  proof (rule image_subsetI)
    fix k assume "k \<in> fmdom' m"
    then have "newest - k \<ge> 0" "newest - k \<le> (keep - 1) * step" using assms(1) by (auto simp: in_window_def)
    then have "0 \<le> ?f k" "?f k \<le> keep - 1"
      using assms(2) zdiv_mono1 [of "newest - k" "(keep - 1) * step" step]
      by (auto simp: pos_imp_zdiv_nonneg_iff)
    then show "?f k \<in> {0 ..< keep}" by simp
  qed
  ultimately have "card (fmdom' m) \<le> card {0 ..< keep}" by (intro card_inj_on_le) auto
  then show ?thesis using assms(3) by (simp add: fm_size_alt)
qed

lemma bump_lookup:
  assumes "step > 0" "keep > 0"
  shows "fmlookup (bump m now step keep c) (now div step * step) =
      Some (Counts_add (fm_get Counts_default m (now div step * step)) c)"
    and "k \<noteq> now div step * step \<Longrightarrow>
      fmlookup (bump m now step keep c) k = fmlookup m k \<or>
      fmlookup m (now div step * step) = None \<and> k < now div step * step - (keep - 1) * step"
    and "k \<noteq> now div step * step \<Longrightarrow> fmlookup m (now div step * step) \<noteq> None \<Longrightarrow>
      fmlookup (bump m now step keep c) k = fmlookup m k"
  using assms
  by (auto simp: bump_def Let_def fm_get_def Counts_add_def Counts_default_def split: option.splits)

lemma bump_in_window:
  assumes "in_window step keep newest m" "step > 0" "keep > 0" "newest \<le> now div step * step" "step dvd newest"
  shows "\<exists>newest'. step dvd newest' \<and> newest' \<le> now div step * step \<and>
     in_window step keep newest' (bump m now step keep c)"
proof (cases "fmlookup m (now div step * step)")
  case None
  have "in_window step keep (now div step * step) (bump m now step keep c)"
    using None assms unfolding in_window_def bump_def Let_def
    by (auto simp: fmdom'_filter intro: order_trans)
  then show ?thesis by (intro exI [of _ "now div step * step"]) simp
next
  case (Some b)
  then have "fmdom' (bump m now step keep c) = fmdom' m"
    by (auto simp: bump_def Let_def fmlookup_dom'_iff)
  then have "in_window step keep newest (bump m now step keep c)"
    using assms(1) by (simp add: in_window_def)
  with assms(4,5) show ?thesis by blast
qed

text \<open>
  Activity is counted exactly and kept for a bounded time: an event adds its counts to the bucket
  that holds the present moment and to no other; buckets disappear only when a new one starts, and
  then only those older than the retention. While the clock does not run backwards, no namespace
  holds more buckets than the retention allows.
\<close>
theorem activity_bump:
  assumes "step > 0" and "keep > 0" and "step dvd newest" and "in_window step keep newest m"
    and "newest \<le> now div step * step"
  shows "fm_get Counts_default (bump m now step keep c) (now div step * step) =
      Counts_add (fm_get Counts_default m (now div step * step)) c \<and>
    (\<forall>k. k \<noteq> now div step * step \<longrightarrow> now div step * step - (keep - 1) * step \<le> k \<longrightarrow>
      fmlookup (bump m now step keep c) k = fmlookup m k) \<and>
    (\<exists>newest'. newest' \<le> now div step * step \<and> step dvd newest' \<and>
      in_window step keep newest' (bump m now step keep c)) \<and>
    int (fm_size (bump m now step keep c)) \<le> keep"
proof -
  have lk: "fmlookup (bump m now step keep c) (now div step * step) =
      Some (Counts_add (fm_get Counts_default m (now div step * step)) c)"
    using assms by (rule_tac bump_lookup)
  obtain newest' where n: "step dvd newest'" "newest' \<le> now div step * step"
    "in_window step keep newest' (bump m now step keep c)"
    using bump_in_window [OF assms(4,1,2,5,3)] by blast
  then have "int (fm_size (bump m now step keep c)) \<le> keep"
    using in_window_size assms(1,2) by force
  moreover have "fmlookup (bump m now step keep c) k = fmlookup m k"
    if "k \<noteq> now div step * step" "now div step * step - (keep - 1) * step \<le> k" for k
    using bump_lookup(2) [OF assms(1,2) that(1)] that(2) by fastforce
  ultimately show ?thesis using lk n by (auto simp: fm_get_def)
qed

theorem activity_bump_witness:
  "int (fm_size (bump (bump fmempty 7300 HOUR HOURLY_BUCKETS \<lparr>reads = 1, writes = 0\<rparr>) 7400 HOUR HOURLY_BUCKETS
      \<lparr>reads = 0, writes = 1\<rparr>)) \<le> 744"
proof -
  have "in_window HOUR HOURLY_BUCKETS 7200 (bump fmempty 7300 HOUR HOURLY_BUCKETS \<lparr>reads = 1, writes = 0\<rparr>)"
    unfolding in_window_def by code_simp
  moreover have "HOUR > 0" "HOURLY_BUCKETS > 0" "HOUR dvd 7200" "7200 \<le> 7400 div HOUR * HOUR" "HOURLY_BUCKETS = 744"
    by (simp_all add: HOUR_def HOURLY_BUCKETS_def)
  ultimately show ?thesis
    using activity_bump [of HOUR HOURLY_BUCKETS 7200 _ 7400 "\<lparr>reads = 0, writes = 1\<rparr>"] by metis
qed

subsection \<open>Reports\<close>

lemma sum_list_upd:
  fixes xs :: "'a::ab_group_add list"
  shows "i < length xs \<Longrightarrow> sum_list (xs[i := v]) = sum_list xs - xs ! i + v"
  by (induction xs arbitrary: i) (auto split: nat.splits)

lemma fill_window_spec:
  assumes "step > 0" "distinct (map fst held)" "length ws = length rs"
    and "\<forall>at \<in> fst ` set held. start \<le> at \<and> step dvd at - start \<and> nat ((at - start) div step) < length rs \<and>
          rs ! nat ((at - start) div step) = 0 \<and> ws ! nat ((at - start) div step) = 0"
    and "fill_window start step held (rs, ws, tot) = (rs', ws', tot')"
  shows "length rs' = length rs \<and> length ws' = length rs \<and>
     sum_list rs' + reads tot = sum_list rs + reads tot' \<and>
     sum_list ws' + writes tot = sum_list ws + writes tot' \<and>
     (\<forall>i < length rs. rs' ! i = (case map_of held (start + int i * step) of None \<Rightarrow> rs ! i | Some c \<Rightarrow> reads c) \<and>
        ws' ! i = (case map_of held (start + int i * step) of None \<Rightarrow> ws ! i | Some c \<Rightarrow> writes c))"
  using assms(2-5)
proof (induction held arbitrary: rs ws tot)
  case (Cons x held)
  obtain at c where x: "x = (at, c)" by (cases x)
  let ?i = "nat ((at - start) div step)"
  have i: "start \<le> at" "step dvd at - start" "?i < length rs" "rs ! ?i = 0" "ws ! ?i = 0"
    using Cons.prems(3) x by auto
  have at: "at = start + int ?i * step"
    using i(1,2) assms(1) by (simp add: pos_imp_zdiv_nonneg_iff)
  have other: "nat ((at' - start) div step) \<noteq> ?i" if "at' \<in> fst ` set held" for at'
  proof
    assume eq: "nat ((at' - start) div step) = ?i"
    have "start \<le> at'" "step dvd at' - start" using Cons.prems(3) that by auto
    then have "at' = start + int (nat ((at' - start) div step)) * step"
      using assms(1) by (simp add: pos_imp_zdiv_nonneg_iff)
    with eq at have "at' = at" by simp
    with that Cons.prems(1) x show False by auto
  qed
  have zero: "\<forall>at' \<in> fst ` set held. start \<le> at' \<and> step dvd at' - start \<and>
      nat ((at' - start) div step) < length (rs[?i := reads c]) \<and>
      rs[?i := reads c] ! nat ((at' - start) div step) = 0 \<and> ws[?i := writes c] ! nat ((at' - start) div step) = 0"
    using Cons.prems(3) x other by (metis fst_conv image_insert insertCI length_list_update list.simps(15) nth_list_update_neq)
  have IH: "length rs' = length rs \<and> length ws' = length rs \<and>
     sum_list rs' + reads (Counts_add tot c) = sum_list (rs[?i := reads c]) + reads tot' \<and>
     sum_list ws' + writes (Counts_add tot c) = sum_list (ws[?i := writes c]) + writes tot' \<and>
     (\<forall>j < length rs. rs' ! j = (case map_of held (start + int j * step) of None \<Rightarrow> rs[?i := reads c] ! j | Some c \<Rightarrow> reads c) \<and>
        ws' ! j = (case map_of held (start + int j * step) of None \<Rightarrow> ws[?i := writes c] ! j | Some c \<Rightarrow> writes c))"
    using Cons.IH [OF _ _ zero, of "Counts_add tot c"] Cons.prems(1,2,4) x by (simp add: Let_def)
  have "map_of held at = None" using Cons.prems(1) x by (auto simp: map_of_eq_None_iff)
  have nth: "rs' ! j = (case map_of (x # held) (start + int j * step) of None \<Rightarrow> rs ! j | Some c \<Rightarrow> reads c) \<and>
      ws' ! j = (case map_of (x # held) (start + int j * step) of None \<Rightarrow> ws ! j | Some c \<Rightarrow> writes c)"
    if "j < length rs" for j
  proof (cases "j = ?i")
    case True
    with at have "start + int j * step = at" by simp
    then show ?thesis using IH that True x \<open>map_of held at = None\<close> i(3) Cons.prems(2) by simp
  next
    case False
    then have "start + int j * step \<noteq> at" using at assms(1) by auto
    then show ?thesis using IH that False x by (auto split: option.splits)
  qed
  show ?case using IH nth i Cons.prems(2) by (auto simp: sum_list_upd Counts_add_def)
qed simp

lemma step_pos [simp]: "Granularity_step g > 0" and retained_pos: "Granularity_retained g > 0"
  by (cases g; simp add: HOUR_def DAY_def HOURLY_BUCKETS_def DAILY_BUCKETS_def)+

lemma window_index:
  assumes "(step::int) > 0" "step dvd at" "latest = k * step" "start = latest - (int n - 1) * step" "n > 0"
    and "start \<le> at" "at \<le> latest"
  shows "step dvd at - start \<and> nat ((at - start) div step) < n"
proof -
  have "step dvd start" using assms(3,4) by simp
  moreover have "(at - start) div step \<le> ((int n - 1) * step) div step"
    using assms by (intro zdiv_mono1) auto
  ultimately show ?thesis using assms(1,2,5) by auto
qed

lemma map_of_filter_keys:
  "map_of (filter (\<lambda>(k, _). P k) xs) k = (if P k then map_of xs k else None)"
  by (induction xs) auto

lemma report_row:
  fixes g :: granularity and start :: int
  defines "step \<equiv> Granularity_step g"
  assumes "\<forall>k \<in> fmdom' (held_at g s). step dvd k"
    and m: "1 \<le> m" and latest: "latest = until div step * step" and start: "start = latest - (int m - 1) * step"
    and r: "r = root_report_of g start latest before m name s"
  shows "length (rr_reads r) = m \<and> length (rr_writes r) = m \<and>
       (\<forall>i < m. rr_reads r ! i = reads (fm_get Counts_default (held_at g s) (start + int i * step)) \<and>
          rr_writes r ! i = writes (fm_get Counts_default (held_at g s) (start + int i * step))) \<and>
       sum_list (rr_reads r) = reads (rr_total r) \<and> sum_list (rr_writes r) = writes (rr_total r)"
proof -
  let ?held = "filter (\<lambda>(at, _). start \<le> at \<and> at \<le> latest) (sorted_list_of_fmap (held_at g s))"
  obtain rs ws tot where fw: "fill_window start step ?held (replicate m 0, replicate m 0, Counts_default) = (rs, ws, tot)"
    by (rule prod_cases3)
  have step: "step > 0" by (simp add: step_def)
  have dist: "distinct (map fst ?held)" by (rule distinct_map_filter) simp
  have idx: "\<forall>at \<in> fst ` set ?held. start \<le> at \<and> step dvd at - start \<and> nat ((at - start) div step) < length (replicate m (0::u64)) \<and>
        replicate m (0::u64) ! nat ((at - start) div step) = 0 \<and> replicate m (0::u64) ! nat ((at - start) div step) = 0"
  proof
    fix at assume "at \<in> fst ` set ?held"
    then have at: "start \<le> at" "at \<le> latest" "at \<in> fmdom' (held_at g s)" by (auto simp: fmlookup_dom'_iff)
    then have "step dvd at" using assms(2) by blast
    then have "step dvd at - start \<and> nat ((at - start) div step) < m"
      using step window_index [of step at latest "until div step" start m] at m latest start by simp
    then show "start \<le> at \<and> step dvd at - start \<and> nat ((at - start) div step) < length (replicate m (0::u64)) \<and>
        replicate m (0::u64) ! nat ((at - start) div step) = 0 \<and> replicate m (0::u64) ! nat ((at - start) div step) = 0"
      using at by simp
  qed
  note spec = fill_window_spec [OF step dist _ idx fw]
  have look: "map_of ?held (start + int i * step) = fmlookup (held_at g s) (start + int i * step)" if "i < m" for i
  proof -
    have "int i * step \<le> (int m - 1) * step" using that step by (intro mult_right_mono) auto
    then have "start + int i * step \<le> latest" by (simp add: start)
    moreover have "start \<le> start + int i * step" using step by simp
    ultimately show ?thesis by (simp add: map_of_filter_keys)
  qed
  have rr: "rr_reads r = rs" "rr_writes r = ws" "rr_total r = tot"
    using fw by (simp_all add: r root_report_of_def Let_def step_def)
  have nth: "rs ! i = reads (fm_get Counts_default (held_at g s) (start + int i * step)) \<and>
      ws ! i = writes (fm_get Counts_default (held_at g s) (start + int i * step))" if "i < m" for i
    using spec look [OF that] that by (simp add: fm_get_def Counts_default_def split: option.splits)
  show ?thesis unfolding rr using spec nth by (simp add: Counts_default_def sum_list_replicate)
qed

text \<open>
  A report shows what was counted: one row for every namespace with a history that the caller may
  see and no other, each with one entry per bucket of the window, oldest first, that is exactly the
  count held for that bucket (zero where nothing happened), and a total that is the sum of its row.
  The window is never wider than what is retained, and no bucket falls outside the row.
\<close>
theorem activity_report_window:
  assumes "rep = Activity_report a g until n visible now"
    and "\<forall>name s. fmlookup (a_roots a) name = Some s \<longrightarrow> (\<forall>k \<in> fmdom' (held_at g s). Granularity_step g dvd k)"
  shows "1 \<le> rp_buckets rep \<and> int (rp_buckets rep) \<le> Granularity_retained g \<and>
    rr_name ` set (rp_roots rep) = {name \<in> fmdom' (a_roots a). visible name} \<and>
    (\<forall>r \<in> set (rp_roots rep). \<forall>s. fmlookup (a_roots a) (rr_name r) = Some s \<longrightarrow>
       length (rr_reads r) = rp_buckets rep \<and> length (rr_writes r) = rp_buckets rep \<and>
       (\<forall>i < rp_buckets rep.
          rr_reads r ! i = reads (fm_get Counts_default (held_at g s) (rp_start rep + int i * rp_step rep)) \<and>
          rr_writes r ! i = writes (fm_get Counts_default (held_at g s) (rp_start rep + int i * rp_step rep))) \<and>
       sum_list (rr_reads r) = reads (rr_total r) \<and> sum_list (rr_writes r) = writes (rr_total r))"
proof -
  let ?step = "Granularity_step g"
  define m where "m = max 1 (min n (nat (Granularity_retained g)))"
  define latest where "latest = until div ?step * ?step"
  define start where "start = latest - (int m - 1) * ?step"
  define shown where "shown = filter (\<lambda>(name, _). visible name) (sorted_list_of_fmap (a_roots a))"
  let ?row = "\<lambda>(name, s). root_report_of g start latest (start - int m * ?step) m name s"
  have rep: "rp_buckets rep = m" "rp_start rep = start" "rp_step rep = ?step"
    "set (rp_roots rep) = ?row ` set shown"
    by (simp_all add: assms(1) Activity_report_def Let_def m_def latest_def start_def shown_def)
  have m: "1 \<le> m" "int m \<le> Granularity_retained g" using retained_pos [of g] by (auto simp: m_def)
  have name: "rr_name (?row (k, s)) = k" for k s
    by (simp add: root_report_of_def Let_def split: prod.splits)
  have "fst ` set shown = {name \<in> fmdom' (a_roots a). visible name}"
    by (force simp: shown_def fmlookup_dom'_iff)
  moreover have "rr_name ` set (rp_roots rep) = fst ` set shown"
    unfolding rep image_image by (rule image_cong) (use name in auto)
  moreover have "length (rr_reads (?row (k, s))) = m \<and> length (rr_writes (?row (k, s))) = m \<and>
       (\<forall>i < m. rr_reads (?row (k, s)) ! i = reads (fm_get Counts_default (held_at g s) (start + int i * ?step)) \<and>
          rr_writes (?row (k, s)) ! i = writes (fm_get Counts_default (held_at g s) (start + int i * ?step))) \<and>
       sum_list (rr_reads (?row (k, s))) = reads (rr_total (?row (k, s))) \<and>
       sum_list (rr_writes (?row (k, s))) = writes (rr_total (?row (k, s)))"
    if "fmlookup (a_roots a) k = Some s" for k s
    unfolding prod.case
    by (rule report_row [OF _ m(1) latest_def start_def refl]) (use assms(2) that in blast)
  ultimately show ?thesis using m rep name shown_def by auto
qed

theorem activity_report_window_witness:
  "\<exists>r. set (rp_roots (Activity_report (Activity_record_read Activity_default ''feeds/a'' 7300) Hour 7300 2 (\<lambda>_. True) 7300)) = {r} \<and>
     rr_reads r ! 1 = 1 \<and> sum_list (rr_reads r) = reads (rr_total r)"
proof -
  let ?a = "Activity_record_read Activity_default ''feeds/a'' 7300"
  let ?rep = "Activity_report ?a Hour 7300 2 (\<lambda>_. True) 7300"
  let ?s = "\<lparr>hourly = fmupd 7200 \<lparr>reads = 1, writes = 0\<rparr> fmempty, daily = fmupd 0 \<lparr>reads = 1, writes = 0\<rparr> fmempty\<rparr>"
  have a: "a_roots ?a = fmupd ''feeds'' ?s fmempty" by code_simp
  have r: "rp_roots ?rep = [\<lparr>rr_name = ''feeds'', rr_reads = [0, 1], rr_writes = [0, 0],
      rr_total = \<lparr>reads = 1, writes = 0\<rparr>, rr_previous = Counts_default\<rparr>]" by code_simp
  have b: "rp_buckets ?rep = 2" "rp_start ?rep + int 1 * rp_step ?rep = 7200" by code_simp+
  have al: "\<forall>name s. fmlookup (a_roots ?a) name = Some s \<longrightarrow> (\<forall>k \<in> fmdom' (held_at Hour s). Granularity_step Hour dvd k)"
    unfolding a by (auto simp: held_at_def HOUR_def)
  have look: "fmlookup (a_roots ?a) ''feeds'' = Some ?s" by (simp add: a)
  from activity_report_window [OF refl al, of 7300 2 "\<lambda>_. True" 7300]
  have rows: "\<forall>r \<in> set (rp_roots ?rep). \<forall>s. fmlookup (a_roots ?a) (rr_name r) = Some s \<longrightarrow>
       (\<forall>i < rp_buckets ?rep.
          rr_reads r ! i = reads (fm_get Counts_default (held_at Hour s) (rp_start ?rep + int i * rp_step ?rep))) \<and>
       sum_list (rr_reads r) = reads (rr_total r)" by blast
  show ?thesis
  proof (intro exI conjI)
    let ?r = "hd (rp_roots ?rep)"
    show "set (rp_roots ?rep) = {?r}" by (simp add: r)
    have "?r \<in> set (rp_roots ?rep)" "fmlookup (a_roots ?a) (rr_name ?r) = Some ?s" using look by (simp_all add: r)
    with rows have q: "\<forall>i < rp_buckets ?rep. rr_reads ?r ! i =
        reads (fm_get Counts_default (held_at Hour ?s) (rp_start ?rep + int i * rp_step ?rep))"
      "sum_list (rr_reads ?r) = reads (rr_total ?r)" by blast+
    have "rr_reads ?r ! 1 = reads (fm_get Counts_default (held_at Hour ?s) (rp_start ?rep + int 1 * rp_step ?rep))"
      using q(1) b(1) by simp
    then show "rr_reads ?r ! 1 = 1" unfolding b by (simp add: held_at_def fm_simps)
    show "sum_list (rr_reads ?r) = reads (rr_total ?r)" by (rule q(2))
  qed
qed

subsection \<open>Saving and restoring\<close>

definition bucket_counts :: "activity \<Rightarrow> granularity \<Rightarrow> string \<Rightarrow> int \<Rightarrow> counts2" where
  "bucket_counts a g root at =
     fm_get Counts_default (held_at g (fm_get Series_default (a_roots a) root)) at"

lemma add_all_get:
  "fm_get Counts_default (add_all saved held) at =
     Counts_add (fm_get Counts_default held at) (fm_get Counts_default saved at)"
proof -
  have "add_all saved held = fm_lift Counts_add Counts_default held saved"
    by (simp add: add_all_def fm_lift_def)
  then show ?thesis
    by (simp add: fm_get_fm_lift) (simp add: fm_get_def Counts_add_def Counts_default_def split: option.splits)
qed

lemma restore_roots:
  "a_roots (Activity_restore a data) =
     fm_lift (\<lambda>s saved. s\<lparr>hourly := add_all (hourly saved) (hourly s), daily := add_all (daily saved) (daily s)\<rparr>)
       Series_default (a_roots a) data"
  by (simp add: Activity_restore_def fm_lift_def Let_def)

lemma fm_get_empty_counts [simp]: "fm_get Counts_default (held_at g Series_default) at = Counts_default"
  by (cases g) (simp_all add: held_at_def Series_default_def fm_simps)

lemma Counts_add_0 [simp]: "Counts_add c Counts_default = c" "Counts_add Counts_default c = c"
  by (simp_all add: Counts_add_def Counts_default_def)

lemma bucket_counts_restore:
  "bucket_counts (Activity_restore a data) g root at =
     Counts_add (bucket_counts a g root at)
       (fm_get Counts_default (held_at g (fm_get Series_default data root)) at)"
proof (cases "fmlookup data root")
  case None
  then show ?thesis
    by (simp add: bucket_counts_def restore_roots fm_get_fm_lift) (simp add: fm_get_def [of Series_default data])
next
  case (Some saved)
  then have "fm_get Series_default data root = saved" by (simp add: fm_get_def)
  with Some show ?thesis
    by (cases g) (simp_all add: bucket_counts_def restore_roots fm_get_fm_lift held_at_def add_all_get)
qed

lemma bucket_counts_snapshot:
  assumes "Activity_take_snapshot a force = (a', Some data)"
  shows "fm_get Counts_default (held_at g (fm_get Series_default data root)) at = bucket_counts a g root at \<and>
    a_roots a' = data \<and> \<not> a_dirty a'"
proof -
  have data: "data = fmfilter (\<lambda>k. \<not> Series_is_empty (the (fmlookup (a_roots a) k))) (a_roots a)"
    and a': "a_roots a' = data" "\<not> a_dirty a'"
    using assms by (auto simp: Activity_take_snapshot_def Let_def split: if_splits)
  have "fm_get Counts_default (held_at g s) at = Counts_default" if "Series_is_empty s" for s
    using that by (cases g) (simp_all add: held_at_def Series_is_empty_def fm_simps)
  then show ?thesis using a' unfolding bucket_counts_def
    by (auto simp: data fm_get_def [of Series_default] split: option.splits)
qed

text \<open>
  Activity survives a restart: restoring what \<open>take_snapshot\<close> returned adds, bucket by bucket, what
  was saved to what was counted since, so a fresh server reads exactly the saved counts and events
  that arrived before the restore are not lost. Taking a snapshot changes no count.
\<close>
theorem activity_snapshot_restores:
  assumes "Activity_take_snapshot a force = (a', Some data)"
  shows "bucket_counts (Activity_restore fresh data) g root at =
      Counts_add (bucket_counts fresh g root at) (bucket_counts a g root at) \<and>
    bucket_counts (Activity_restore Activity_default data) g root at = bucket_counts a g root at \<and>
    bucket_counts a' g root at = bucket_counts a g root at"
proof -
  have "bucket_counts Activity_default g root at = Counts_default"
    by (simp add: bucket_counts_def Activity_default_def fm_simps)
  then show ?thesis
    using bucket_counts_snapshot [OF assms, of g root at] bucket_counts_restore
    by (simp add: bucket_counts_def [of a'])
qed

theorem activity_snapshot_restores_witness:
  "bucket_counts (Activity_restore Activity_default
     (the (snd (Activity_take_snapshot (Activity_record_write Activity_default ''feeds'' 7300) False)))) Hour ''feeds'' 7200
   = \<lparr>reads = 0, writes = 1\<rparr>"
proof -
  let ?a = "Activity_record_write Activity_default ''feeds'' 7300"
  have "Activity_take_snapshot ?a False = (fst (Activity_take_snapshot ?a False), Some (the (snd (Activity_take_snapshot ?a False))))"
    by code_simp
  from activity_snapshot_restores [OF this, of Activity_default Hour "''feeds''" 7200]
  have "bucket_counts (Activity_restore Activity_default
     (the (snd (Activity_take_snapshot ?a False)))) Hour ''feeds'' 7200 = bucket_counts ?a Hour ''feeds'' 7200" by blast
  also have "\<dots> = \<lparr>reads = 0, writes = 1\<rparr>" by code_simp
  finally show ?thesis .
qed

end
