(* ===== verification/Latest.thy ===== *)
theory Latest
  imports Paths
begin

text \<open>
  \<^verbatim>\<open>src/src/latest.rs\<close>: the values written most recently and where, kept as two maps: entries by
  arrival number, and the arrival number of each namespace and value. The arrival number is a
  \<open>nat\<close>: the 64-bit counter of the code would have to count 2^64 writes to wrap. The clock is an
  argument; the mutex is not modelled.

  The abstract view (\<open>listing\<close>) is the plain list of entries, oldest first, no pair of namespace and
  value twice. Every operation is shown to be its list counterpart.
\<close>

section \<open>Data\<close>

definition LATEST_CAPACITY :: nat where "LATEST_CAPACITY = 10000"
definition MAX_LIMIT :: nat where "MAX_LIMIT = 1000"
definition DEFAULT_LIMIT :: nat where "DEFAULT_LIMIT = 100"

record entry =
  le_namespace :: string
  le_value :: string
  le_written :: int

record latest_inner =
  li_order :: "(nat, entry) fmap"
  li_position :: "(string, nat) fmap"
  li_next :: nat
  li_dirty :: bool

record latest =
  l_capacity :: nat
  l_inner :: latest_inner

section \<open>Operations\<close>

definition key_of :: "string \<Rightarrow> string \<Rightarrow> string" where
  "key_of namespace v = namespace @ [CHR 0x00] @ v"

definition entry_key :: "entry \<Rightarrow> string" where
  "entry_key e = key_of (le_namespace e) (le_value e)"

lemma entry_key_simps [simp]:
  "entry_key \<lparr>le_namespace = n, le_value = v, le_written = t\<rparr> = key_of n v"
  by (simp add: entry_key_def)

definition Inner_default :: latest_inner where
  "Inner_default = \<lparr>li_order = fmempty, li_position = fmempty, li_next = 0, li_dirty = False\<rparr>"

definition Inner_remove :: "latest_inner \<Rightarrow> string \<Rightarrow> latest_inner" where
  "Inner_remove i key =
     (case fmlookup (li_position i) key of
        None \<Rightarrow> i
      | Some at \<Rightarrow> i\<lparr>li_position := fmdrop key (li_position i), li_order := fmdrop at (li_order i)\<rparr>)"

text \<open>\<open>BTreeMap::pop_first\<close>.\<close>

definition pop_first :: "('k::linorder, 'v) fmap \<Rightarrow> (('k \<times> 'v) \<times> ('k, 'v) fmap) option" where
  "pop_first m = (case sorted_list_of_fmap m of [] \<Rightarrow> None | (k, v) # _ \<Rightarrow> Some ((k, v), fmdrop k m))"

lemma pop_first_size: "pop_first m = Some (kv, m') \<Longrightarrow> fm_size m' < fm_size m"
proof -
  assume "pop_first m = Some (kv, m')"
  then obtain k v rest where m: "sorted_list_of_fmap m = (k, v) # rest" "m' = fmdrop k m"
    by (auto simp: pop_first_def split: list.splits)
  then have "k \<in> fmdom' m" using set_sorted_list_of_fmap [of k v m] by (simp add: fmlookup_dom'_iff)
  then have "card (fmdom' m - {k}) < card (fmdom' m)" by (intro card_Diff1_less) simp_all
  with m(2) show ?thesis by (simp add: fm_size_alt)
qed

function Inner_trim :: "latest_inner \<Rightarrow> nat \<Rightarrow> latest_inner" where
  "Inner_trim i capacity =
     (if fm_size (li_order i) > capacity
      then (case pop_first (li_order i) of
              None \<Rightarrow> i
            | Some ((_, oldest), order) \<Rightarrow>
                Inner_trim (i\<lparr>li_order := order, li_position := fmdrop (entry_key oldest) (li_position i)\<rparr>) capacity)
      else i)"
  by pat_completeness auto
termination
  by (relation "measure (\<lambda>(i, _). fm_size (li_order i))") (auto dest: pop_first_size)

declare Inner_trim.simps [simp del]

definition Inner_push :: "latest_inner \<Rightarrow> entry \<Rightarrow> nat \<Rightarrow> latest_inner" where
  "Inner_push i e capacity =
     (let key = entry_key e;
          i = Inner_remove i key;
          at = li_next i;
          i = i\<lparr>li_next := li_next i + 1, li_order := fmupd at e (li_order i),
                li_position := fmupd key at (li_position i)\<rparr>
      in Inner_trim i capacity)"

definition Latest_default :: latest where
  "Latest_default = \<lparr>l_capacity = LATEST_CAPACITY, l_inner = Inner_default\<rparr>"

definition Latest_set_capacity :: "latest \<Rightarrow> nat \<Rightarrow> latest" where
  "Latest_set_capacity l capacity =
     (let before = fm_size (li_order (l_inner l));
          i = Inner_trim (l_inner l) capacity;
          i = (if fm_size (li_order i) \<noteq> before then i\<lparr>li_dirty := True\<rparr> else i)
      in l\<lparr>l_capacity := capacity, l_inner := i\<rparr>)"

definition Latest_record_at :: "latest \<Rightarrow> string \<Rightarrow> string \<Rightarrow> int \<Rightarrow> latest" where
  "Latest_record_at l namespace v written =
     (if l_capacity l = 0 \<or> is_internal namespace then l
      else l\<lparr>l_inner := (Inner_push (l_inner l)
              \<lparr>le_namespace = namespace, le_value = v, le_written = written\<rparr> (l_capacity l))\<lparr>li_dirty := True\<rparr>\<rparr>)"

definition Latest_forget_namespace :: "latest \<Rightarrow> string \<Rightarrow> latest" where
  "Latest_forget_namespace l namespace =
     (let gone = map entry_key (filter (\<lambda>e. le_namespace e = namespace) (fm_values (li_order (l_inner l))))
      in if gone = [] then l
         else l\<lparr>l_inner := (fold (\<lambda>key i. Inner_remove i key) gone (l_inner l))\<lparr>li_dirty := True\<rparr>\<rparr>)"

text \<open>The loop of \<open>recent\<close>, with the answers of \<open>visible\<close> remembered per namespace.\<close>

fun recent_loop :: "nat \<Rightarrow> int option \<Rightarrow> string \<Rightarrow> (string \<Rightarrow> bool) \<Rightarrow> entry list \<Rightarrow> (string, bool) fmap
    \<Rightarrow> entry list \<Rightarrow> entry list" where
  "recent_loop limit since prefix visible [] allowed found = found"
| "recent_loop limit since prefix visible (e # es) allowed found =
     (if length found \<ge> limit then found
      else if (case since of None \<Rightarrow> False | Some s \<Rightarrow> le_written e < s) then found
      else if \<not> under (le_namespace e) prefix then recent_loop limit since prefix visible es allowed found
      else let (ok, allowed) =
             (case fmlookup allowed (le_namespace e) of
                Some b \<Rightarrow> (b, allowed)
              | None \<Rightarrow> (visible (le_namespace e), fmupd (le_namespace e) (visible (le_namespace e)) allowed))
           in recent_loop limit since prefix visible es allowed (if ok then found @ [e] else found))"

definition Latest_recent :: "latest \<Rightarrow> nat \<Rightarrow> int option \<Rightarrow> string \<Rightarrow> (string \<Rightarrow> bool) \<Rightarrow> entry list" where
  "Latest_recent l limit since prefix visible =
     recent_loop (min limit MAX_LIMIT) since (trim_matches CHR ''/'' prefix) visible
       (rev (fm_values (li_order (l_inner l)))) fmempty []"

definition Latest_take_snapshot :: "latest \<Rightarrow> bool \<Rightarrow> latest \<times> entry list option" where
  "Latest_take_snapshot l force =
     (if \<not> li_dirty (l_inner l) \<and> \<not> force then (l, None)
      else (l\<lparr>l_inner := (l_inner l)\<lparr>li_dirty := False\<rparr>\<rparr>, Some (fm_values (li_order (l_inner l)))))"

definition Latest_mark_dirty :: "latest \<Rightarrow> latest" where
  "Latest_mark_dirty l = l\<lparr>l_inner := (l_inner l)\<lparr>li_dirty := True\<rparr>\<rparr>"

definition Latest_restore :: "latest \<Rightarrow> entry list \<Rightarrow> latest" where
  "Latest_restore l saved =
     (let since_startup = fm_values (li_order (l_inner l));
          i = (l_inner l)\<lparr>li_order := fmempty, li_position := fmempty\<rparr>
      in l\<lparr>l_inner := fold (\<lambda>e i. Inner_push i e (l_capacity l)) (saved @ since_startup) i\<rparr>)"

section \<open>The record as a list\<close>

text \<open>What keeps the two maps in step: they name the same arrivals, each under the key of its entry,
  and every arrival number has been given out.\<close>

definition inner_inv :: "latest_inner \<Rightarrow> bool" where
  "inner_inv i \<longleftrightarrow>
     (\<forall>k at. fmlookup (li_position i) k = Some at \<longleftrightarrow>
        (\<exists>e. fmlookup (li_order i) at = Some e \<and> entry_key e = k)) \<and>
     (\<forall>at \<in> fmdom' (li_order i). at < li_next i)"

definition listing :: "latest_inner \<Rightarrow> entry list" where
  "listing i = fm_values (li_order i)"

definition last_n :: "nat \<Rightarrow> 'a list \<Rightarrow> 'a list" where
  "last_n n xs = drop (length xs - n) xs"

lemma fm_keys_drop: "fm_keys (fmdrop k m) = filter (\<lambda>j. j \<noteq> k) (fm_keys m)"
  using sorted_filter [of "\<lambda>x. x" "fm_keys m"]
  by (intro sorted_distinct_set_unique) (auto simp: fmdom'_drop)

lemma fm_keys_upd_greatest:
  assumes "\<forall>j \<in> fmdom' m. j < k"
  shows "fm_keys (fmupd k v m) = fm_keys m @ [k]"
  using assms by (intro sorted_distinct_set_unique) (auto simp: sorted_append less_imp_le)

lemma fm_values_keys: "fm_values m = map (\<lambda>k. the (fmlookup m k)) (fm_keys m)"
  by (simp add: fm_values_def sorted_list_of_fmap_keys comp_def)

lemma fm_values_drop:
  "fm_values (fmdrop k m) = map (\<lambda>k. the (fmlookup m k)) (filter (\<lambda>j. j \<noteq> k) (fm_keys m))"
  by (auto simp: fm_values_keys fm_keys_drop)

lemma fm_values_upd_greatest:
  assumes "\<forall>j \<in> fmdom' m. j < k"
  shows "fm_values (fmupd k v m) = fm_values m @ [v]"
  using assms by (auto simp: fm_values_keys fm_keys_upd_greatest)

lemma inv_key_unique:
  assumes "inner_inv i" "fmlookup (li_order i) a = Some e" "fmlookup (li_order i) b = Some f" "entry_key e = entry_key f"
  shows "a = b"
  using assms unfolding inner_inv_def by (metis option.inject)

lemma listing_distinct_keys:
  assumes "inner_inv i"
  shows "distinct (map entry_key (listing i))"
proof -
  have "inj_on (\<lambda>k. entry_key (the (fmlookup (li_order i) k))) (fmdom' (li_order i))"
    using inv_key_unique [OF assms] by (auto simp: inj_on_def fmlookup_dom'_iff)
  then show ?thesis by (simp add: listing_def fm_values_keys distinct_map comp_def)
qed

lemma listing_remove:
  assumes "inner_inv i"
  shows "listing (Inner_remove i key) = filter (\<lambda>e. entry_key e \<noteq> key) (listing i)"
proof (cases "fmlookup (li_position i) key")
  case None
  have "entry_key e \<noteq> key" if mem: "e \<in> set (listing i)" for e
  proof -
    obtain at where "fmlookup (li_order i) at = Some e"
      using mem by (auto simp: listing_def fm_values_keys fmlookup_dom'_iff)
    then show ?thesis using None assms unfolding inner_inv_def by (metis option.distinct(1))
  qed
  with None show ?thesis by (simp add: Inner_remove_def filter_id_conv)
next
  case (Some at)
  then obtain e where e: "fmlookup (li_order i) at = Some e" "entry_key e = key"
    using assms by (auto simp: inner_inv_def)
  have "entry_key (the (fmlookup (li_order i) j)) \<noteq> key \<longleftrightarrow> j \<noteq> at" if "j \<in> fmdom' (li_order i)" for j
    using that e inv_key_unique [OF assms] by (auto simp: fmlookup_dom'_iff)
  then have "filter (\<lambda>j. j \<noteq> at) (fm_keys (li_order i)) =
      filter (\<lambda>j. entry_key (the (fmlookup (li_order i) j)) \<noteq> key) (fm_keys (li_order i))"
    by (intro filter_cong) auto
  then have "fm_values (fmdrop at (li_order i)) =
      map (\<lambda>k. the (fmlookup (li_order i) k))
        (filter (\<lambda>j. entry_key (the (fmlookup (li_order i) j)) \<noteq> key) (fm_keys (li_order i)))"
    by (simp only: fm_values_drop)
  then show ?thesis using Some
    by (simp add: Inner_remove_def listing_def) (simp add: fm_values_keys filter_map comp_def)
qed

lemma inv_remove:
  assumes "inner_inv i"
  shows "inner_inv (Inner_remove i key)" "li_next (Inner_remove i key) = li_next i"
    "fmlookup (li_position (Inner_remove i key)) key = None"
proof -
  show "li_next (Inner_remove i key) = li_next i"
    by (simp add: Inner_remove_def split: option.splits)
  show "fmlookup (li_position (Inner_remove i key)) key = None"
    by (auto simp: Inner_remove_def split: option.splits)
  show "inner_inv (Inner_remove i key)"
  proof (cases "fmlookup (li_position i) key")
    case None
    then show ?thesis using assms by (simp add: Inner_remove_def)
  next
    case (Some at)
    then obtain e where e: "fmlookup (li_order i) at = Some e" "entry_key e = key"
      using assms by (auto simp: inner_inv_def)
    have "fmlookup (fmdrop key (li_position i)) k = Some b \<longleftrightarrow>
        (\<exists>f. fmlookup (fmdrop at (li_order i)) b = Some f \<and> entry_key f = k)" for k b
      using assms e Some inv_key_unique [OF assms] unfolding inner_inv_def by (auto split: if_splits)
    moreover have "Inner_remove i key =
        i\<lparr>li_position := fmdrop key (li_position i), li_order := fmdrop at (li_order i)\<rparr>"
      using Some by (simp add: Inner_remove_def)
    ultimately show ?thesis using assms unfolding inner_inv_def by simp
  qed
qed

lemma trim_listing:
  assumes "inner_inv i"
  shows "inner_inv (Inner_trim i capacity) \<and> listing (Inner_trim i capacity) = last_n capacity (listing i) \<and>
    li_next (Inner_trim i capacity) = li_next i \<and> li_dirty (Inner_trim i capacity) = li_dirty i"
  using assms
proof (induction i capacity rule: Inner_trim.induct)
  case (1 i capacity)
  have len: "length (listing i) = fm_size (li_order i)" by (simp add: listing_def fm_values_def fm_size_def)
  show ?case
  proof (cases "fm_size (li_order i) > capacity")
    case False
    then show ?thesis using 1(2) len by (simp add: Inner_trim.simps [of i] last_n_def)
  next
    case True
    then obtain at oldest rest where first: "sorted_list_of_fmap (li_order i) = (at, oldest) # rest"
      by (cases "sorted_list_of_fmap (li_order i)") (auto simp: fm_size_def)
    then have look: "fmlookup (li_order i) at = Some oldest"
      using set_sorted_list_of_fmap [of at oldest "li_order i"] by simp
    let ?i = "i\<lparr>li_order := fmdrop at (li_order i), li_position := fmdrop (entry_key oldest) (li_position i)\<rparr>"
    have pop: "pop_first (li_order i) = Some ((at, oldest), fmdrop at (li_order i))"
      by (simp add: pop_first_def first)
    have "fmlookup (li_position i) (entry_key oldest) = Some at"
      using 1(2) look by (auto simp: inner_inv_def)
    then have rem: "?i = Inner_remove i (entry_key oldest)" by (simp add: Inner_remove_def)
    have eq: "Inner_trim i capacity = Inner_trim ?i capacity"
      using True pop by (simp add: Inner_trim.simps [of i])
    have lst: "listing i = oldest # map snd rest" by (simp add: listing_def fm_values_def first)
    have "entry_key e \<noteq> entry_key oldest" if "e \<in> set (map snd rest)" for e
      using listing_distinct_keys [OF 1(2)] that unfolding lst by force
    then have "filter (\<lambda>e. entry_key e \<noteq> entry_key oldest) (map snd rest) = map snd rest"
      by (simp add: filter_id_conv)
    then have tl: "listing ?i = map snd rest" unfolding rem listing_remove [OF 1(2)] lst by simp
    have inv: "inner_inv ?i" unfolding rem using 1(2) by (rule inv_remove)
    have "length (listing i) > capacity" using True len by simp
    then have "last_n capacity (listing ?i) = last_n capacity (listing i)"
      unfolding tl lst by (simp add: last_n_def Suc_diff_le)
    then show ?thesis using 1(1) [OF True pop refl refl inv] eq by simp
  qed
qed

lemma push_listing:
  assumes "inner_inv i"
  shows "inner_inv (Inner_push i e capacity) \<and>
    listing (Inner_push i e capacity) =
      last_n capacity (filter (\<lambda>f. entry_key f \<noteq> entry_key e) (listing i) @ [e])"
proof -
  let ?r = "Inner_remove i (entry_key e)"
  let ?i = "?r\<lparr>li_next := li_next ?r + 1, li_order := fmupd (li_next ?r) e (li_order ?r),
                li_position := fmupd (entry_key e) (li_next ?r) (li_position ?r)\<rparr>"
  note r = inv_remove [OF assms, of "entry_key e"]
  have lt: "\<forall>at \<in> fmdom' (li_order ?r). at < li_next ?r" using r(1) by (simp add: inner_inv_def)
  then have fresh: "fmlookup (li_order ?r) (li_next ?r) = None" by (metis fmdom'_notD less_irrefl)
  have nokey: "\<not> (\<exists>at f. fmlookup (li_order ?r) at = Some f \<and> entry_key f = entry_key e)"
    using r(1,3) unfolding inner_inv_def by (metis option.distinct(1))
  have "inner_inv ?i"
    using r(1) fresh nokey lt unfolding inner_inv_def by (auto split: if_splits simp: less_Suc_eq)
  moreover have "listing ?i = listing ?r @ [e]"
    using lt by (simp add: listing_def fm_values_upd_greatest)
  ultimately show ?thesis
    using trim_listing [of ?i capacity] by (simp add: Inner_push_def Let_def listing_remove [OF assms])
qed

text \<open>A NUL byte in no namespace: the keys then tell namespaces and values apart.\<close>

lemma key_of_inj:
  assumes "CHR 0x00 \<notin> set n" "CHR 0x00 \<notin> set n'" "key_of n v = key_of n' v'"
  shows "n = n' \<and> v = v'"
proof -
  have "Some (n, v) = Some (n', v')"
    using split_once_append [OF assms(1), of v] split_once_append [OF assms(2), of v'] assms(3)
    by (metis key_of_def append_Cons append_Nil)
  then show ?thesis by simp
qed

lemma forget_exact:
  assumes "\<forall>e \<in> set es. CHR 0x00 \<notin> set (le_namespace e)"
  shows "filter (\<lambda>e. entry_key e \<notin> set (map entry_key (filter (\<lambda>e. le_namespace e = ns) es))) es =
     filter (\<lambda>e. le_namespace e \<noteq> ns) es"
proof (rule filter_cong [OF refl])
  fix e assume e: "e \<in> set es"
  have "le_namespace e = le_namespace f" if "f \<in> set es" "entry_key f = entry_key e" for f
    using key_of_inj [of "le_namespace f" "le_namespace e"] assms e that
    unfolding entry_key_def by metis
  moreover have "entry_key e \<in> set (map entry_key (filter (\<lambda>e. le_namespace e = ns) es)) \<longleftrightarrow>
      (\<exists>f \<in> set es. le_namespace f = ns \<and> entry_key f = entry_key e)"
    by (simp add: image_iff) metis
  ultimately show "(entry_key e \<notin> set (map entry_key (filter (\<lambda>e. le_namespace e = ns) es))) = (le_namespace e \<noteq> ns)"
    using e by blast
qed

lemma forget_fold:
  assumes "inner_inv i"
  shows "inner_inv (fold (\<lambda>key i. Inner_remove i key) ks i) \<and>
    listing (fold (\<lambda>key i. Inner_remove i key) ks i) = filter (\<lambda>e. entry_key e \<notin> set ks) (listing i)"
  using assms
proof (induction ks arbitrary: i)
  case (Cons k ks)
  then show ?case using inv_remove(1) [OF Cons.prems, of k]
    by (simp add: listing_remove conj_commute)
qed simp

lemma restore_fold:
  assumes "inner_inv i"
  shows "inner_inv (fold (\<lambda>e i. Inner_push i e capacity) es i)"
  using assms by (induction es arbitrary: i) (simp_all add: push_listing)

lemma inv_dirty [simp]: "inner_inv (i\<lparr>li_dirty := b\<rparr>) = inner_inv i" "listing (i\<lparr>li_dirty := b\<rparr>) = listing i"
  by (simp_all add: inner_inv_def listing_def)

definition latest_inv :: "latest \<Rightarrow> bool" where
  "latest_inv l \<longleftrightarrow> inner_inv (l_inner l) \<and> length (listing (l_inner l)) \<le> l_capacity l"

lemma length_last_n [simp]: "length (last_n n xs) \<le> n"
  by (auto simp: last_n_def)

lemma last_n_all: "length xs \<le> n \<Longrightarrow> last_n n xs = xs"
  by (simp add: last_n_def)

lemma fold_push_length:
  assumes "inner_inv i" "length (listing i) \<le> capacity"
  shows "length (listing (fold (\<lambda>e i. Inner_push i e capacity) es i)) \<le> capacity"
  using assms by (induction es arbitrary: i) (simp_all add: push_listing)

text \<open>
  The record of latest writes is a bounded list without repeats, and its two maps never disagree:
  recording, forgetting, resizing and restoring all keep \<open>latest_inv\<close>. Recording a write moves the
  pair of namespace and value to the newest place and, when there are too many, drops the one written
  longest ago; forgetting a namespace drops its entries and no others; shrinking keeps the newest.
\<close>
theorem latest_refines_list:
  assumes "latest_inv l"
  shows "latest_inv (Latest_record_at l ns v t) \<and> latest_inv (Latest_forget_namespace l ns) \<and>
    latest_inv (Latest_set_capacity l c) \<and> latest_inv (Latest_restore l saved) \<and>
    distinct (map entry_key (listing (l_inner l))) \<and>
    listing (l_inner (Latest_record_at l ns v t)) =
      (if l_capacity l = 0 \<or> is_internal ns then listing (l_inner l)
       else last_n (l_capacity l) (filter (\<lambda>e. entry_key e \<noteq> key_of ns v) (listing (l_inner l)) @
              [\<lparr>le_namespace = ns, le_value = v, le_written = t\<rparr>])) \<and>
    ((\<forall>e \<in> set (listing (l_inner l)). CHR 0x00 \<notin> set (le_namespace e)) \<longrightarrow>
     listing (l_inner (Latest_forget_namespace l ns)) = filter (\<lambda>e. le_namespace e \<noteq> ns) (listing (l_inner l))) \<and>
    listing (l_inner (Latest_set_capacity l c)) = last_n c (listing (l_inner l))"
proof -
  let ?i = "l_inner l"
  let ?gone = "map entry_key (filter (\<lambda>e. le_namespace e = ns) (listing ?i))"
  have inv: "inner_inv ?i" and len: "length (listing ?i) \<le> l_capacity l" using assms by (auto simp: latest_inv_def)
  have forget: "inner_inv (l_inner (Latest_forget_namespace l ns))"
    "listing (l_inner (Latest_forget_namespace l ns)) = filter (\<lambda>e. entry_key e \<notin> set ?gone) (listing ?i)"
    "l_capacity (Latest_forget_namespace l ns) = l_capacity l"
    using forget_fold [OF inv, of ?gone] inv
    by (auto simp: Latest_forget_namespace_def Let_def listing_def [symmetric] filter_empty_conv)
  have recd: "latest_inv (Latest_record_at l ns v t)"
    using inv len by (simp add: Latest_record_at_def latest_inv_def push_listing)
  have setc: "latest_inv (Latest_set_capacity l c)"
    "listing (l_inner (Latest_set_capacity l c)) = last_n c (listing ?i)"
    using trim_listing [OF inv, of c] by (auto simp: Latest_set_capacity_def Let_def latest_inv_def)
  have empty: "inner_inv (?i\<lparr>li_order := fmempty, li_position := fmempty\<rparr>)"
    "listing (?i\<lparr>li_order := fmempty, li_position := fmempty\<rparr>) = []"
    by (simp_all add: inner_inv_def listing_def fm_values_keys fm_keys_eq)
  have restore: "latest_inv (Latest_restore l saved)"
    unfolding latest_inv_def Latest_restore_def Let_def
    using restore_fold [OF empty(1)] fold_push_length [OF empty(1)] empty(2) by (simp del: fold_append)
  have "latest_inv (Latest_forget_namespace l ns)"
    unfolding latest_inv_def forget(3) using forget(1) len by (metis forget(2) length_filter_le le_trans)
  moreover have "listing (l_inner (Latest_record_at l ns v t)) =
      (if l_capacity l = 0 \<or> is_internal ns then listing ?i
       else last_n (l_capacity l) (filter (\<lambda>e. entry_key e \<noteq> key_of ns v) (listing ?i) @
              [\<lparr>le_namespace = ns, le_value = v, le_written = t\<rparr>]))"
    using push_listing [OF inv] by (simp add: Latest_record_at_def)
  ultimately show ?thesis
    using recd setc restore listing_distinct_keys [OF inv] forget(2) forget_exact [of "listing ?i" ns] by simp
qed

theorem latest_refines_list_witness:
  "listing (l_inner (Latest_record_at (Latest_record_at (Latest_set_capacity Latest_default 1) ''feeds'' ''a'' 10) ''feeds'' ''b'' 20)) =
     [\<lparr>le_namespace = ''feeds'', le_value = ''b'', le_written = 20\<rparr>]"
proof -
  let ?l = "Latest_record_at (Latest_set_capacity Latest_default 1) ''feeds'' ''a'' 10"
  have "latest_inv Latest_default"
    by (simp add: latest_inv_def Latest_default_def Inner_default_def inner_inv_def listing_def fm_values_keys fm_keys_eq)
  then have "latest_inv (Latest_set_capacity Latest_default 1)" using latest_refines_list by blast
  then have inv: "latest_inv ?l" using latest_refines_list by blast
  have c: "l_capacity ?l = 1" "\<not> is_internal ''feeds''" "listing (l_inner ?l) = [\<lparr>le_namespace = ''feeds'', le_value = ''a'', le_written = 10\<rparr>]"
    unfolding listing_def by code_simp+
  show ?thesis using latest_refines_list [OF inv, of "''feeds''" "''b''" 20] c by (simp add: last_n_def)
qed

subsection \<open>Answering\<close>

lemma recent_loop_spec:
  assumes "\<forall>k b. fmlookup allowed k = Some b \<longrightarrow> b = visible k" "length found \<le> limit"
  shows "recent_loop limit since prefix visible es allowed found =
    found @ take (limit - length found)
      (filter (\<lambda>e. under (le_namespace e) prefix \<and> visible (le_namespace e))
        (takeWhile (\<lambda>e. case since of None \<Rightarrow> True | Some s \<Rightarrow> s \<le> le_written e) es))"
  using assms
proof (induction limit since prefix visible es allowed found rule: recent_loop.induct)
  case (2 limit since prefix visible e es allowed found)
  let ?P = "\<lambda>e. under (le_namespace e) prefix \<and> visible (le_namespace e)"
  let ?W = "\<lambda>e. case since of None \<Rightarrow> True | Some s \<Rightarrow> s \<le> le_written e"
  show ?case
  proof (cases "length found \<ge> limit \<or> \<not> ?W e")
    case True
    then show ?thesis using 2(4) by (cases since) auto
  next
    case False
    then have w: "?W e" "length found < limit" "\<not> (case since of None \<Rightarrow> False | Some s \<Rightarrow> le_written e < s)"
      by (cases since; simp)+
    show ?thesis
    proof (cases "under (le_namespace e) prefix")
      case False
      then show ?thesis using 2(1) w 2(3,4) by simp
    next
      case True
      obtain ok allowed' where al: "(case fmlookup allowed (le_namespace e) of
                Some b \<Rightarrow> (b, allowed)
              | None \<Rightarrow> (visible (le_namespace e), fmupd (le_namespace e) (visible (le_namespace e)) allowed)) = (ok, allowed')"
        by fastforce
      then have ok: "ok = visible (le_namespace e)" and al': "\<forall>k b. fmlookup allowed' k = Some b \<longrightarrow> b = visible k"
        using 2(3) by (auto split: option.splits if_splits)
      have "limit - length found = Suc (limit - Suc (length found))" using w(2) by simp
      then show ?thesis
        using 2(2) [OF _ _ _ refl, of ok allowed'] w True al al' by (auto simp: ok)
    qed
  qed
qed simp

text \<open>
  What \<open>/_api/latest\<close> answers: from the newest entry back to the first one older than \<open>since\<close>, the
  entries under the prefix in namespaces the caller may read, at most \<open>limit\<close> and never more than
  \<open>MAX_LIMIT\<close>. Asking the access rules once per namespace changes no answer.
\<close>
theorem latest_recent_answers:
  "Latest_recent l limit since prefix visible =
     take (min limit MAX_LIMIT)
       (filter (\<lambda>e. under (le_namespace e) (trim_matches CHR ''/'' prefix) \<and> visible (le_namespace e))
         (takeWhile (\<lambda>e. case since of None \<Rightarrow> True | Some s \<Rightarrow> s \<le> le_written e)
           (rev (listing (l_inner l)))))"
  by (simp add: Latest_recent_def recent_loop_spec listing_def)

text \<open>
  The record survives a restart: restoring on a fresh server what was saved gives back the same
  entries in the same order, as long as they fit the capacity.
\<close>
theorem latest_snapshot_restores:
  assumes "latest_inv l" and "Latest_take_snapshot l True = (l', Some saved)"
    and "l_capacity l \<le> l_capacity fresh" and "listing (l_inner fresh) = []"
  shows "listing (l_inner (Latest_restore fresh saved)) = listing (l_inner l)"
proof -
  have saved: "saved = listing (l_inner l)" using assms(2) by (auto simp: Latest_take_snapshot_def listing_def)
  let ?c = "l_capacity fresh"
  let ?i = "(l_inner fresh)\<lparr>li_order := fmempty, li_position := fmempty\<rparr>"
  have empty: "inner_inv ?i" "listing ?i = []"
    by (simp_all add: inner_inv_def listing_def fm_values_keys fm_keys_eq)
  have "listing (fold (\<lambda>e i. Inner_push i e ?c) es i) = listing i @ es"
    if "inner_inv i" "length (listing i @ es) \<le> ?c" "distinct (map entry_key (listing i @ es))" for es i
    using that
  proof (induction es arbitrary: i)
    case (Cons e es)
    have "entry_key e \<notin> entry_key ` set (listing i)" using Cons.prems(3) by simp
    then have "filter (\<lambda>f. entry_key f \<noteq> entry_key e) (listing i) = listing i"
      by (intro filter_True) (metis imageI)
    then have "inner_inv (Inner_push i e ?c)" "listing (Inner_push i e ?c) = listing i @ [e]"
      using push_listing [OF Cons.prems(1), of e ?c] Cons.prems(2) by (simp_all add: last_n_all)
    then show ?case using Cons.IH [of "Inner_push i e ?c"] Cons.prems(2,3) by simp
  qed simp
  from this [OF empty(1), of saved] have "listing (fold (\<lambda>e i. Inner_push i e ?c) saved ?i) = saved"
    using assms(1,3) listing_distinct_keys saved empty(2) by (auto simp: latest_inv_def)
  then show ?thesis using assms(4) saved
    by (simp add: Latest_restore_def Let_def listing_def [symmetric])
qed

theorem latest_snapshot_restores_witness:
  "listing (l_inner (Latest_restore Latest_default [\<lparr>le_namespace = ''feeds'', le_value = ''a'', le_written = 10\<rparr>])) =
     [\<lparr>le_namespace = ''feeds'', le_value = ''a'', le_written = 10\<rparr>]"
proof -
  let ?e = "\<lparr>le_namespace = ''feeds'', le_value = ''a'', le_written = 10\<rparr>"
  let ?l = "Latest_record_at Latest_default ''feeds'' ''a'' 10"
  have l: "listing (l_inner ?l) = [?e]" unfolding listing_def by code_simp
  have "inner_inv (l_inner Latest_default)" "listing (l_inner Latest_default) = []"
    by (simp_all add: Latest_default_def Inner_default_def inner_inv_def listing_def fm_values_keys fm_keys_eq)
  then have inv: "latest_inv ?l"
    by (simp add: latest_inv_def Latest_record_at_def push_listing)
  obtain l' where s: "Latest_take_snapshot ?l True = (l', Some [?e])"
    using l by (simp add: Latest_take_snapshot_def listing_def)
  show ?thesis
    using latest_snapshot_restores [OF inv s, of Latest_default] l \<open>listing (l_inner Latest_default) = []\<close>
    by (simp add: Latest_record_at_def)
qed

end
