(* ===== verification/Store.thy ===== *)
theory Store
  imports Paths Attribute Activity Latest
begin

text \<open>
  The file layer of \<^verbatim>\<open>src/src/persistence.rs\<close>: which file a shard lives in, writing one (through a
  temporary file that is renamed into place), reading one back, and reading everything at startup.

  The disk is a finite map from paths to file contents of any type \<open>'f\<close>. What serde_json, zstd and
  sha2 compute, and whether the operating system lets a file be written or renamed, are the fields of
  \<open>env\<close>. \<open>stored_attr\<close> is what the serde attributes of \<open>Attribute\<close> keep of one: timestamps in whole
  seconds (\<open>ts_seconds\<close>) and no legacy fields (\<open>skip_serializing\<close>); \<open>codec_ok\<close> is the assumption
  that reading what was written gives exactly that.
\<close>

section \<open>Data\<close>

definition SNAPSHOT_VERSION :: nat where "SNAPSHOT_VERSION = 2"
definition LEGACY_SNAPSHOT :: string where "LEGACY_SNAPSHOT = ''sightingdb.json''"
definition SHARD_SUFFIX :: string where "SHARD_SUFFIX = ''.json.zst''"
definition INTERNAL_FILE :: string where "INTERNAL_FILE = ''sightingdb.json.zst''"
definition ACTIVITY_FILE :: string where "ACTIVITY_FILE = ''activity.json''"
definition LATEST_FILE :: string where "LATEST_FILE = ''latest.json''"
definition DEFAULT_LEVEL :: int where "DEFAULT_LEVEL = 3"

type_synonym shard_values = "(string, (string, attribute) fmap) fmap"

record shard_data =
  sd_version :: nat
  sd_namespaces :: shard_values

datatype store_error =
    WriteFailed string | RenameFailed string | OpenFailed string | ParseFailed string
  | VersionNewer nat | VersionMissing

record 'f env =
  e_shard_out :: "shard_data \<Rightarrow> 'f"
  e_shard_in :: "'f \<Rightarrow> shard_data option"
  e_json_in :: "'f \<Rightarrow> shard_data option"
  e_activity_out :: "(string, series) fmap \<Rightarrow> 'f"
  e_activity_in :: "'f \<Rightarrow> (string, series) fmap option"
  e_latest_out :: "entry list \<Rightarrow> 'f"
  e_latest_in :: "'f \<Rightarrow> entry list option"
  e_size :: "'f \<Rightarrow> nat"
  e_sha256 :: "string \<Rightarrow> string"
  e_write_ok :: "string \<Rightarrow> bool"
  e_rename_ok :: "string \<Rightarrow> bool"

type_synonym 'f disk = "(string, 'f) fmap"

section \<open>Shard files\<close>

definition hex_upper :: "nat \<Rightarrow> char" where
  "hex_upper n = (if n < 10 then char_of (48 + n) else char_of (55 + n))"

definition hex_lower :: "nat \<Rightarrow> char" where
  "hex_lower n = (if n < 10 then char_of (48 + n) else char_of (87 + n))"

definition is_ascii_alphanumeric :: "char \<Rightarrow> bool" where
  "is_ascii_alphanumeric c \<longleftrightarrow> is_ascii_digit c \<or>
     65 \<le> (of_char c :: nat) \<and> (of_char c :: nat) \<le> 90 \<or> 97 \<le> (of_char c :: nat) \<and> (of_char c :: nat) \<le> 122"

definition safe_char :: "char \<Rightarrow> bool" where
  "safe_char c \<longleftrightarrow> is_ascii_alphanumeric c \<or> c = CHR ''.'' \<or> c = CHR ''_'' \<or> c = CHR ''-''"

definition encode_char :: "char \<Rightarrow> string" where
  "encode_char c =
     (if safe_char c then [c]
      else [CHR ''%'', hex_upper ((of_char c :: nat) div 16), hex_upper ((of_char c :: nat) mod 16)])"

definition safe_name :: "string \<Rightarrow> string" where
  "safe_name shard = concat (map encode_char shard)"

text \<open>The first four bytes of a digest as eight hexadecimal digits (\<open>{:08x}\<close> of a big-endian u32).\<close>

definition digest_hex :: "string \<Rightarrow> string" where
  "digest_hex digest =
     concat (map (\<lambda>c. [hex_lower ((of_char c :: nat) div 16), hex_lower ((of_char c :: nat) mod 16)]) (take 4 digest))"

definition path_join :: "string \<Rightarrow> string \<Rightarrow> string" where
  "path_join dir name = dir @ ''/'' @ name"

definition shard_name :: "'f env \<Rightarrow> string \<Rightarrow> string" where
  "shard_name env shard =
     (if shard = INTERNAL_SHARD then INTERNAL_FILE
      else take 80 (safe_name shard) @ ''-'' @ digest_hex (e_sha256 env shard) @ SHARD_SUFFIX)"

definition shard_file :: "'f env \<Rightarrow> string \<Rightarrow> string \<Rightarrow> string" where
  "shard_file env dbdir shard = path_join dbdir (shard_name env shard)"

text \<open>\<open>Path::with_extension\<close> for a path whose file name has an extension.\<close>

definition with_extension :: "string \<Rightarrow> string \<Rightarrow> string" where
  "with_extension path ext = rev (tl (dropWhile (\<lambda>c. c \<noteq> CHR ''.'') (rev path))) @ ''.'' @ ext"

section \<open>Writing and reading\<close>

text \<open>A write leaves at most the temporary file behind when it fails; that name does not end in
  \<open>SHARD_SUFFIX\<close> and is never read.\<close>

definition write_file :: "'f env \<Rightarrow> 'f disk \<Rightarrow> string \<Rightarrow> 'f \<Rightarrow> 'f disk \<times> (store_error + nat)" where
  "write_file env disk path f =
     (let temp = with_extension path ''tmp''
      in if \<not> e_write_ok env temp then (disk, Inl (WriteFailed temp))
         else let disk = fmupd temp f disk
              in if \<not> e_rename_ok env path then (disk, Inl (RenameFailed path))
                 else (fmupd path f (fmdrop temp disk), Inr (e_size env f)))"

definition write_shard :: "'f env \<Rightarrow> 'f disk \<Rightarrow> string \<Rightarrow> string \<Rightarrow> shard_data \<Rightarrow> 'f disk \<times> (store_error + nat)" where
  "write_shard env disk dbdir shard data = write_file env disk (shard_file env dbdir shard) (e_shard_out env data)"

definition save_json :: "'f env \<Rightarrow> 'f disk \<Rightarrow> string \<Rightarrow> string \<Rightarrow> 'f \<Rightarrow> 'f disk \<times> (store_error + unit)" where
  "save_json env disk dbdir name f =
     (case write_file env disk (path_join dbdir name) f of
        (disk, Inl e) \<Rightarrow> (disk, Inl e)
      | (disk, Inr _) \<Rightarrow> (disk, Inr ()))"

definition load_json :: "('f \<Rightarrow> 'a option) \<Rightarrow> 'f disk \<Rightarrow> string \<Rightarrow> string \<Rightarrow> 'a option" where
  "load_json from_reader disk dbdir name =
     (case fmlookup disk (path_join dbdir name) of None \<Rightarrow> None | Some f \<Rightarrow> from_reader f)"

definition load_activity :: "'f env \<Rightarrow> 'f disk \<Rightarrow> string \<Rightarrow> (string, series) fmap option" where
  "load_activity env disk dbdir = load_json (e_activity_in env) disk dbdir ACTIVITY_FILE"

definition load_latest :: "'f env \<Rightarrow> 'f disk \<Rightarrow> string \<Rightarrow> entry list option" where
  "load_latest env disk dbdir = load_json (e_latest_in env) disk dbdir LATEST_FILE"

definition read_shard :: "'f env \<Rightarrow> 'f disk \<Rightarrow> string \<Rightarrow> store_error + shard_data" where
  "read_shard env disk path =
     (case fmlookup disk path of
        None \<Rightarrow> Inl (OpenFailed path)
      | Some f \<Rightarrow> (case e_shard_in env f of None \<Rightarrow> Inl (ParseFailed path) | Some data \<Rightarrow> Inr data))"

definition check_version :: "nat \<Rightarrow> store_error option" where
  "check_version version =
     (if version > SNAPSHOT_VERSION then Some (VersionNewer version)
      else if version = 0 then Some VersionMissing
      else None)"

definition read_shard_file :: "'f env \<Rightarrow> 'f disk \<Rightarrow> string \<Rightarrow> string \<Rightarrow> store_error + shard_values" where
  "read_shard_file env disk dbdir shard =
     (let path = shard_file env dbdir shard
      in if fmlookup disk path = None then Inr fmempty
         else case read_shard env disk path of
                Inl e \<Rightarrow> Inl e
              | Inr data \<Rightarrow>
                  (case check_version (sd_version data) of
                     Some e \<Rightarrow> Inl e
                   | None \<Rightarrow> Inr (sd_namespaces data)))"

text \<open>The files of the directory that end in the suffix of a shard, in order.\<close>

definition shard_paths :: "'f disk \<Rightarrow> string \<Rightarrow> string list" where
  "shard_paths disk dbdir =
     filter (\<lambda>path. ends_with path SHARD_SUFFIX \<and>
        (case strip_prefix path (dbdir @ ''/'') of None \<Rightarrow> False | Some name \<Rightarrow> CHR ''/'' \<notin> set name))
       (fm_keys disk)"

fun load_shards :: "'f env \<Rightarrow> 'f disk \<Rightarrow> string list \<Rightarrow> shard_values \<Rightarrow> store_error + shard_values" where
  "load_shards env disk [] namespaces = Inr namespaces"
| "load_shards env disk (path # paths) namespaces =
     (case read_shard env disk path of
        Inl e \<Rightarrow> Inl e
      | Inr data \<Rightarrow>
          (case check_version (sd_version data) of
             Some e \<Rightarrow> Inl e
           | None \<Rightarrow> load_shards env disk paths (namespaces ++\<^sub>f sd_namespaces data)))"

definition load_legacy :: "'f env \<Rightarrow> 'f disk \<Rightarrow> string \<Rightarrow> store_error + shard_values option" where
  "load_legacy env disk dbdir =
     (let legacy = path_join dbdir LEGACY_SNAPSHOT
      in case fmlookup disk legacy of
           None \<Rightarrow> Inr None
         | Some f \<Rightarrow>
             (case e_json_in env f of
                None \<Rightarrow> Inl (ParseFailed legacy)
              | Some data \<Rightarrow>
                  (case check_version (sd_version data) of
                     Some e \<Rightarrow> Inl e
                   | None \<Rightarrow> Inr (Some (sd_namespaces data)))))"

definition load :: "'f env \<Rightarrow> 'f disk \<Rightarrow> string \<Rightarrow> store_error + shard_data option" where
  "load env disk dbdir =
     (case load_legacy env disk dbdir of
        Inl e \<Rightarrow> Inl e
      | Inr legacy \<Rightarrow>
          (let namespaces = (case legacy of None \<Rightarrow> fmempty | Some m \<Rightarrow> m); paths = shard_paths disk dbdir
           in case load_shards env disk paths namespaces of
                Inl e \<Rightarrow> Inl e
              | Inr namespaces \<Rightarrow>
                  if legacy = None \<and> paths = [] then Inr None
                  else Inr (Some \<lparr>sd_version = SNAPSHOT_VERSION, sd_namespaces = namespaces\<rparr>)))"

section \<open>What a file keeps\<close>

definition whole_seconds :: "datetime \<Rightarrow> datetime" where
  "whole_seconds d = DateTime (timestamp d) 0"

definition stored_attr :: "attribute \<Rightarrow> attribute" where
  "stored_attr a = a\<lparr>first_seen := whole_seconds (first_seen a), last_seen := whole_seconds (last_seen a),
     legacy_count := 0, legacy_stats := fmempty\<rparr>"

definition stored_values :: "shard_values \<Rightarrow> shard_values" where
  "stored_values m = fmmap (fmmap stored_attr) m"

definition codec_ok :: "'f env \<Rightarrow> bool" where
  "codec_ok env \<longleftrightarrow>
     (\<forall>d. e_shard_in env (e_shard_out env d) = Some (d\<lparr>sd_namespaces := stored_values (sd_namespaces d)\<rparr>)) \<and>
     (\<forall>d. e_activity_in env (e_activity_out env d) = Some d) \<and>
     (\<forall>d. e_latest_in env (e_latest_out env d) = Some d) \<and>
     (\<forall>s. length (e_sha256 env s) = 32)"

section \<open>Lemmas\<close>

subsection \<open>File names\<close>

lemma of_char_less [simp]: "(of_char c :: nat) < 256"
  by simp

lemma hex_digit_codes:
  "n < 16 \<Longrightarrow> (of_char (hex_upper n) :: nat) = (if n < 10 then 48 + n else 55 + n)"
  "n < 16 \<Longrightarrow> (of_char (hex_lower n) :: nat) = (if n < 10 then 48 + n else 87 + n)"
  by (auto simp: hex_upper_def hex_lower_def of_char_of take_bit_eq_mod)

lemma hex_codes_range:
  "n < 16 \<Longrightarrow> 48 \<le> (of_char (hex_upper n) :: nat)" "n < 16 \<Longrightarrow> 48 \<le> (of_char (hex_lower n) :: nat)"
  by (simp_all add: hex_digit_codes)

lemma hex_not_slash: "n < 16 \<Longrightarrow> hex_upper n \<noteq> CHR ''/''" "n < 16 \<Longrightarrow> hex_lower n \<noteq> CHR ''/''"
proof -
  have slash: "(of_char CHR ''/'' :: nat) = 47" by simp
  show "n < 16 \<Longrightarrow> hex_upper n \<noteq> CHR ''/''" using hex_codes_range(1) [of n] slash by fastforce
  show "n < 16 \<Longrightarrow> hex_lower n \<noteq> CHR ''/''" using hex_codes_range(2) [of n] slash by fastforce
qed

lemma nibbles [simp]: "(of_char c :: nat) div 16 < 16" "(of_char c :: nat) mod 16 < 16"
  using of_char_less [of c] by (simp_all add: less_mult_imp_div_less)

lemma encode_char_no_slash: "CHR ''/'' \<notin> set (encode_char c)"
proof -
  have "\<not> safe_char CHR ''/''" by code_simp
  then show ?thesis using hex_not_slash(1) [of "(of_char c :: nat) div 16"] hex_not_slash(1) [of "(of_char c :: nat) mod 16"]
    by (auto simp: encode_char_def)
qed

lemma digest_hex_no_slash: "CHR ''/'' \<notin> set (digest_hex d)"
  by (auto simp: digest_hex_def hex_not_slash(2) [symmetric])

lemma length_digest_hex: "length d = 32 \<Longrightarrow> length (digest_hex d) = 8"
proof -
  have "length (concat (map (\<lambda>c. [f c, g c]) xs)) = 2 * length xs" for f g :: "char \<Rightarrow> char" and xs
    by (induction xs) auto
  then show "length d = 32 \<Longrightarrow> length (digest_hex d) = 8" by (simp add: digest_hex_def)
qed

lemma shard_name_no_slash: "CHR ''/'' \<notin> set (shard_name env shard)"
proof -
  have "CHR ''/'' \<notin> set (take 80 (safe_name shard))"
    using encode_char_no_slash set_take_subset [of 80 "safe_name shard"] by (fastforce simp: safe_name_def)
  then show ?thesis using digest_hex_no_slash
    by (simp add: shard_name_def INTERNAL_FILE_def SHARD_SUFFIX_def)
qed

text \<open>Percent-decoding, the inverse that shows the encoding loses nothing.\<close>

definition unhex :: "char \<Rightarrow> nat" where
  "unhex c = (let n = (of_char c :: nat) in if n < 58 then n - 48 else n - 55)"

fun decode_name :: "string \<Rightarrow> string" where
  "decode_name [] = []"
| "decode_name (c # s) =
     (if c = CHR ''%'' then
        (case s of a # b # t \<Rightarrow> char_of (16 * unhex a + unhex b) # decode_name t | _ \<Rightarrow> [])
      else c # decode_name s)"

lemma unhex_hex [simp]: "n < 16 \<Longrightarrow> unhex (hex_upper n) = n"
  by (simp add: unhex_def Let_def hex_digit_codes)

lemma decode_encode_char: "decode_name (encode_char c @ t) = c # decode_name t"
proof (cases "safe_char c")
  case True
  moreover have "\<not> safe_char CHR ''%''" by code_simp
  ultimately show ?thesis by (auto simp: encode_char_def)
next
  case False
  have "16 * ((of_char c :: nat) div 16) + (of_char c :: nat) mod 16 = of_char c" by simp
  then show ?thesis using False by (simp add: encode_char_def del: mult_div_mod_eq)
qed

lemma decode_safe_name: "decode_name (safe_name s) = s"
  by (induction s) (simp_all add: safe_name_def decode_encode_char)

lemma shard_name_inj:
  assumes "codec_ok env" "length (safe_name a) \<le> 80" "length (safe_name b) \<le> 80"
    and "shard_name env a = shard_name env b"
  shows "a = b"
proof -
  have int: "CHR ''-'' \<notin> set INTERNAL_FILE" by (simp add: INTERNAL_FILE_def)
  have ext: "shard_name env x \<noteq> INTERNAL_FILE" if "x \<noteq> INTERNAL_SHARD" for x
    using that int by (metis shard_name_def append_is_Nil_conv in_set_conv_decomp append_Cons)
  show ?thesis
  proof (cases "a = INTERNAL_SHARD \<or> b = INTERNAL_SHARD")
    case True
    then show ?thesis using assms(4) ext by (metis shard_name_def)
  next
    case False
    have "length (digest_hex (e_sha256 env x)) = 8" for x
      using assms(1) by (simp add: codec_ok_def length_digest_hex)
    then have "safe_name a = safe_name b" using False assms(2-4) by (auto simp: shard_name_def append_eq_append_conv)
    then show ?thesis by (metis decode_safe_name)
  qed
qed

text \<open>The shards of a set live in different files.\<close>

definition files_apart :: "'f env \<Rightarrow> string set \<Rightarrow> bool" where
  "files_apart env S \<longleftrightarrow> inj_on (shard_name env) S"

text \<open>
  Shard files stay in the directory and apart: the name of a shard's file, whatever the shard is
  called, contains no slash and is not \<open>.\<close> or \<open>..\<close>, so joined to the directory it names a file in it;
  and two different shards whose encoded names fit in 80 bytes have different files, without relying
  on the hash. The internal shard's file is nobody else's.
\<close>
theorem shard_files_confined:
  assumes "codec_ok env"
  shows "CHR ''/'' \<notin> set (shard_name env shard) \<and> shard_name env shard \<noteq> ''.'' \<and> shard_name env shard \<noteq> ''..'' \<and>
    ends_with (shard_name env shard) SHARD_SUFFIX \<and>
    files_apart env {s. length (safe_name s) \<le> 80} \<and>
    (shard_name env shard = shard_name env INTERNAL_SHARD \<longleftrightarrow> shard = INTERNAL_SHARD)"
proof -
  have int: "CHR ''-'' \<notin> set INTERNAL_FILE" by (simp add: INTERNAL_FILE_def)
  have ends: "ends_with (shard_name env shard) SHARD_SUFFIX"
    by (simp add: shard_name_def ends_with_def SHARD_SUFFIX_def INTERNAL_FILE_def)
  moreover have "length (shard_name env shard) \<ge> 3"
    by (simp add: shard_name_def INTERNAL_FILE_def SHARD_SUFFIX_def)
  then have "shard_name env shard \<noteq> ''.''" "shard_name env shard \<noteq> ''..''" by auto
  moreover have "files_apart env {s. length (safe_name s) \<le> 80}"
    using shard_name_inj [OF assms] by (auto simp: files_apart_def inj_on_def)
  moreover have "shard_name env shard = shard_name env INTERNAL_SHARD \<longleftrightarrow> shard = INTERNAL_SHARD"
    using int by (auto simp: shard_name_def) (metis Un_iff list.set_intros(1) set_append)
  ultimately show ?thesis using shard_name_no_slash by metis
qed

text \<open>A concrete instance: files that hold what was written to them, and a digest that pads.\<close>

datatype sample_file = SampleShard shard_data | SampleActivity "(string, series) fmap" | SampleLatest "entry list"

definition sample_env :: "sample_file env" where
  "sample_env = \<lparr>
     e_shard_out = (\<lambda>d. SampleShard (d\<lparr>sd_namespaces := stored_values (sd_namespaces d)\<rparr>)),
     e_shard_in = (\<lambda>f. case f of SampleShard d \<Rightarrow> Some d | _ \<Rightarrow> None),
     e_json_in = (\<lambda>f. case f of SampleShard d \<Rightarrow> Some d | _ \<Rightarrow> None),
     e_activity_out = SampleActivity,
     e_activity_in = (\<lambda>f. case f of SampleActivity d \<Rightarrow> Some d | _ \<Rightarrow> None),
     e_latest_out = SampleLatest,
     e_latest_in = (\<lambda>f. case f of SampleLatest d \<Rightarrow> Some d | _ \<Rightarrow> None),
     e_size = (\<lambda>_. 0),
     e_sha256 = (\<lambda>s. take 32 (s @ replicate 32 CHR 0x00)),
     e_write_ok = (\<lambda>_. True), e_rename_ok = (\<lambda>_. True)\<rparr>"

lemma sample_env_ok: "codec_ok sample_env"
  by (auto simp: codec_ok_def sample_env_def)

theorem shard_files_confined_witness:
  "CHR ''/'' \<notin> set (shard_name sample_env ''../../etc/cron.d/x'') \<and>
   shard_name sample_env ''Feeds'' \<noteq> shard_name sample_env ''feeds''"
proof -
  have "''Feeds'' \<in> {s. length (safe_name s) \<le> 80}" "''feeds'' \<in> {s. length (safe_name s) \<le> 80}" by code_simp+
  then show ?thesis
    using shard_files_confined [OF sample_env_ok, of "''../../etc/cron.d/x''"]
    by (auto simp: files_apart_def inj_on_def)
qed

subsection \<open>Writing and reading back\<close>

lemma with_extension_tmp: "\<exists>stem. with_extension path ''tmp'' = stem @ ''.tmp''"
  by (simp add: with_extension_def)

lemma ends_with_append: "ends_with (a @ b) b"
  by (simp add: ends_with_def)

lemma ends_with_iff: "ends_with s p \<longleftrightarrow> (\<exists>t. s = t @ p)"
  using ends_with_append by (metis append_take_drop_id ends_with_def)

lemma not_temp:
  assumes "ends_with p SHARD_SUFFIX"
  shows "p \<noteq> with_extension path ''tmp''"
proof
  assume p: "p = with_extension path ''tmp''"
  then obtain stem where "p = stem @ ''.tmp''" using with_extension_tmp by metis
  then have "last p = CHR ''p''" by simp
  moreover obtain t where "p = t @ SHARD_SUFFIX" using assms by (auto simp: ends_with_iff)
  then have "last p = CHR ''t''" by (simp add: SHARD_SUFFIX_def)
  ultimately show False by simp
qed

lemma write_file_other:
  assumes "p \<noteq> path" "p \<noteq> with_extension path ''tmp''"
  shows "fmlookup (fst (write_file env disk path f)) p = fmlookup disk p"
  using assms by (simp add: write_file_def Let_def)

lemma write_file_same:
  assumes "path \<noteq> with_extension path ''tmp''"
  shows "fmlookup (fst (write_file env disk path f)) path =
    (case snd (write_file env disk path f) of Inl e \<Rightarrow> fmlookup disk path | Inr _ \<Rightarrow> Some f)"
  using assms by (simp add: write_file_def Let_def)

lemma shard_file_ends: "ends_with (shard_file env dbdir shard) SHARD_SUFFIX"
proof -
  obtain t where "shard_name env shard = t @ SHARD_SUFFIX"
    by (cases "shard = INTERNAL_SHARD")
       (simp_all add: shard_name_def INTERNAL_FILE_def SHARD_SUFFIX_def)
  then have "shard_file env dbdir shard = (dbdir @ ''/'' @ t) @ SHARD_SUFFIX"
    by (simp add: shard_file_def path_join_def)
  then show ?thesis by (simp only: ends_with_append)
qed

lemma shard_file_eq: "shard_file env dbdir a = shard_file env dbdir b \<longleftrightarrow> shard_name env a = shard_name env b"
  by (simp add: shard_file_def path_join_def)

lemma read_shard_file_cong:
  "fmlookup disk' (shard_file env dbdir s) = fmlookup disk (shard_file env dbdir s) \<Longrightarrow>
   read_shard_file env disk' dbdir s = read_shard_file env disk dbdir s"
  by (simp add: read_shard_file_def read_shard_def Let_def)

lemma read_written:
  assumes "codec_ok env" "fmlookup disk (shard_file env dbdir s) = Some (e_shard_out env d)" "sd_version d = SNAPSHOT_VERSION"
  shows "read_shard_file env disk dbdir s = Inr (stored_values (sd_namespaces d))"
  using assms by (simp add: read_shard_file_def read_shard_def codec_ok_def check_version_def SNAPSHOT_VERSION_def)

lemma write_shard_other:
  assumes "shard_name env s \<noteq> shard_name env shard"
  shows "read_shard_file env (fst (write_shard env disk dbdir shard d)) dbdir s = read_shard_file env disk dbdir s"
  by (rule read_shard_file_cong)
     (simp add: write_shard_def write_file_other shard_file_eq assms not_temp shard_file_ends)

text \<open>
  Writing a shard is all or nothing: if it succeeds the shard reads back as what was written, to
  the whole second; if it fails, at whatever step, the shard reads back as before; and no other
  shard's file is affected either way.
\<close>
theorem write_shard_atomic:
  assumes "codec_ok env" and "sd_version d = SNAPSHOT_VERSION"
    and "write_shard env disk dbdir shard d = (disk', res)"
  shows "(case res of
       Inr _ \<Rightarrow> read_shard_file env disk' dbdir shard = Inr (stored_values (sd_namespaces d))
     | Inl _ \<Rightarrow> read_shard_file env disk' dbdir shard = read_shard_file env disk dbdir shard) \<and>
   (shard_name env other \<noteq> shard_name env shard \<longrightarrow>
      read_shard_file env disk' dbdir other = read_shard_file env disk dbdir other)"
proof -
  have ne: "shard_file env dbdir shard \<noteq> with_extension (shard_file env dbdir shard) ''tmp''"
    by (rule not_temp [OF shard_file_ends])
  have look: "fmlookup disk' (shard_file env dbdir shard) =
      (case res of Inl e \<Rightarrow> fmlookup disk (shard_file env dbdir shard) | Inr _ \<Rightarrow> Some (e_shard_out env d))"
    using write_file_same [OF ne, of env disk "e_shard_out env d"] assms(3) by (simp add: write_shard_def)
  have "read_shard_file env disk' dbdir other = read_shard_file env disk dbdir other"
    if "shard_name env other \<noteq> shard_name env shard"
    using write_shard_other [OF that, of disk dbdir d] assms(3) by simp
  then show ?thesis
    using look read_written [OF assms(1) _ assms(2)] read_shard_file_cong
    by (auto split: sum.splits)
qed

theorem write_shard_atomic_witness:
  "read_shard_file sample_env (fst (write_shard sample_env fmempty ''db'' ''feeds''
      \<lparr>sd_version = 2, sd_namespaces = fmupd ''feeds'' fmempty fmempty\<rparr>)) ''db'' ''feeds'' =
     Inr (fmupd ''feeds'' fmempty fmempty)"
proof -
  let ?d = "\<lparr>sd_version = 2, sd_namespaces = fmupd ''feeds'' fmempty fmempty\<rparr>"
  obtain disk res where w: "write_shard sample_env fmempty ''db'' ''feeds'' ?d = (disk, res)" by fastforce
  then have "res = Inr 0" by (auto simp: write_shard_def write_file_def Let_def sample_env_def)
  moreover have "sd_version ?d = SNAPSHOT_VERSION" by (simp add: SNAPSHOT_VERSION_def)
  ultimately have "read_shard_file sample_env disk ''db'' ''feeds'' = Inr (stored_values (sd_namespaces ?d))"
    using write_shard_atomic [OF sample_env_ok _ w] by simp
  moreover have "stored_values (sd_namespaces ?d) = fmupd ''feeds'' fmempty fmempty"
    by (intro fmap_ext) (simp add: stored_values_def)
  ultimately show ?thesis using w by simp
qed

end
