(* ===== verification/Tier.thy ===== *)
theory Tier
  imports Paths
begin

text \<open>
  \<^verbatim>\<open>src/src/tier.rs\<close>: how long a shard stays in memory once touched. The three tiers, the
  per-shard settings, how they resolve against the configured defaults, and their file form.

  Reading a file and parsing TOML belong to the standard library and the toml crate: \<open>TierPolicy_load\<close>
  takes them as the parameters \<open>read_to_string\<close> and \<open>toml_from_str\<close>. A parsed value is a
  \<open>toml_value\<close>, with the constructors of \<open>toml::Value\<close>. Durations are whole seconds.
\<close>

section \<open>Data\<close>

datatype tier = Hot | Warm | Cold

datatype toml_value =
    TomlString string
  | TomlInteger int
  | TomlFloat string
  | TomlBoolean bool
  | TomlDatetime string
  | TomlArray "toml_value list"
  | TomlTable "(string \<times> toml_value) list"

datatype tier_error =
    UnknownTier string | TierNotString | WarmIdleNotSeconds | UnknownKey string | EntryEmpty
  | EntryShape | TierFileUnreadable | TierFileUnparsable

record tier_entry =
  e_tier :: "tier option"
  e_warm_idle :: "u64 option"

record resolved =
  r_tier :: tier
  r_warm_idle :: u64
  own_tier :: "tier option"
  own_warm_idle :: "u64 option"

record tier_policy =
  default_tier :: tier
  tp_entries :: "(string, tier_entry) fmap"
  tp_warm_idle :: u64

record tier_file =
  tf_default_tier :: string
  tf_warm_idle :: u64
  tf_tiers :: "(string, toml_value) fmap"

section \<open>Operations\<close>

definition Tier_parse :: "string \<Rightarrow> tier_error + tier" where
  "Tier_parse raw =
     (let s = to_ascii_lowercase (trim raw)
      in if s = ''hot'' then Inr Hot
         else if s = ''warm'' then Inr Warm
         else if s = ''cold'' then Inr Cold
         else Inl (UnknownTier s))"

fun Tier_as_str :: "tier \<Rightarrow> string" where
  "Tier_as_str Hot = ''hot''"
| "Tier_as_str Warm = ''warm''"
| "Tier_as_str Cold = ''cold''"

definition Entry_default :: tier_entry where
  "Entry_default = \<lparr>e_tier = None, e_warm_idle = None\<rparr>"

definition Entry_is_empty :: "tier_entry \<Rightarrow> bool" where
  "Entry_is_empty e \<longleftrightarrow> e_tier e = None \<and> e_warm_idle e = None"

definition Resolved_idle_allowance :: "resolved \<Rightarrow> u64 option" where
  "Resolved_idle_allowance r =
     (case r_tier r of Hot \<Rightarrow> None | Warm \<Rightarrow> Some (r_warm_idle r) | Cold \<Rightarrow> Some 0)"

definition TierPolicy_default :: tier_policy where
  "TierPolicy_default = \<lparr>default_tier = Hot, tp_entries = fmempty, tp_warm_idle = 3600\<rparr>"

definition shard_key :: "string \<Rightarrow> string" where
  "shard_key shard = trim_matches CHR ''/'' (trim shard)"

definition TierPolicy_entry :: "tier_policy \<Rightarrow> string \<Rightarrow> tier_entry" where
  "TierPolicy_entry p shard = fm_get Entry_default (tp_entries p) (shard_key shard)"

definition TierPolicy_resolve :: "tier_policy \<Rightarrow> string \<Rightarrow> resolved" where
  "TierPolicy_resolve p shard =
     (if shard = INTERNAL_SHARD
      then \<lparr>r_tier = Hot, r_warm_idle = tp_warm_idle p, own_tier = None, own_warm_idle = None\<rparr>
      else let entry = TierPolicy_entry p shard
           in \<lparr>r_tier = unwrap_or (e_tier entry) (default_tier p),
               r_warm_idle = unwrap_or (e_warm_idle entry) (tp_warm_idle p),
               own_tier = e_tier entry, own_warm_idle = e_warm_idle entry\<rparr>)"

definition TierPolicy_idle_allowance :: "tier_policy \<Rightarrow> string \<Rightarrow> u64 option" where
  "TierPolicy_idle_allowance p shard = Resolved_idle_allowance (TierPolicy_resolve p shard)"

definition TierPolicy_set :: "tier_policy \<Rightarrow> string \<Rightarrow> tier_entry \<Rightarrow> tier_policy" where
  "TierPolicy_set p shard entry =
     (let shard = shard_key shard
      in if Entry_is_empty entry then p\<lparr>tp_entries := fmdrop shard (tp_entries p)\<rparr>
         else p\<lparr>tp_entries := fmupd shard entry (tp_entries p)\<rparr>)"

text \<open>The loop over a table, and \<open>parse_entry\<close>; \<open>seconds as u64\<close> of a number that is not negative.\<close>

fun parse_entry_fields :: "(string \<times> toml_value) list \<Rightarrow> tier_entry \<Rightarrow> tier_error + tier_entry" where
  "parse_entry_fields [] entry = Inr entry"
| "parse_entry_fields ((key, field) # others) entry =
     (if key = ''tier'' then
        (case field of
           TomlString tier \<Rightarrow>
             (case Tier_parse tier of
                Inl e \<Rightarrow> Inl e
              | Inr t \<Rightarrow> parse_entry_fields others (entry\<lparr>e_tier := Some t\<rparr>))
         | _ \<Rightarrow> Inl TierNotString)
      else if key = ''warm_idle'' then
        (case field of
           TomlInteger seconds \<Rightarrow>
             if seconds \<ge> 0
             then parse_entry_fields others (entry\<lparr>e_warm_idle := Some (word_of_int seconds)\<rparr>)
             else Inl WarmIdleNotSeconds
         | _ \<Rightarrow> Inl WarmIdleNotSeconds)
      else Inl (UnknownKey key))"

fun parse_entry :: "toml_value \<Rightarrow> tier_error + tier_entry" where
  "parse_entry (TomlString tier) =
     (case Tier_parse tier of
        Inl e \<Rightarrow> Inl e
      | Inr t \<Rightarrow> Inr \<lparr>e_tier = Some t, e_warm_idle = None\<rparr>)"
| "parse_entry (TomlTable table) =
     (case parse_entry_fields table Entry_default of
        Inl e \<Rightarrow> Inl e
      | Inr entry \<Rightarrow> if Entry_is_empty entry then Inl EntryEmpty else Inr entry)"
| "parse_entry _ = Inl EntryShape"

fun load_entries :: "(string \<times> toml_value) list \<Rightarrow> (string, tier_entry) fmap
    \<Rightarrow> tier_error + (string, tier_entry) fmap" where
  "load_entries [] entries = Inr entries"
| "load_entries ((namespace, v) # rest) entries =
     (case parse_entry v of
        Inl e \<Rightarrow> Inl e
      | Inr entry \<Rightarrow> load_entries rest (fmupd namespace entry entries))"

definition TierPolicy_load ::
  "(string \<Rightarrow> string option) \<Rightarrow> (string \<Rightarrow> tier_file option) \<Rightarrow> string \<Rightarrow> tier_error + tier_policy" where
  "TierPolicy_load read_to_string toml_from_str path =
     (case read_to_string path of
        None \<Rightarrow> Inl TierFileUnreadable
      | Some text \<Rightarrow>
          (case toml_from_str text of
             None \<Rightarrow> Inl TierFileUnparsable
           | Some file \<Rightarrow>
               (case load_entries (sorted_list_of_fmap (tf_tiers file)) fmempty of
                  Inl e \<Rightarrow> Inl e
                | Inr entries \<Rightarrow>
                    (case Tier_parse (tf_default_tier file) of
                       Inl e \<Rightarrow> Inl e
                     | Inr t \<Rightarrow> Inr \<lparr>default_tier = t, tp_entries = entries,
                                    tp_warm_idle = tf_warm_idle file\<rparr>))))"

text \<open>The text \<open>TierPolicy::save\<close> writes.\<close>

definition TierPolicy_header :: string where
  "TierPolicy_header =
     ''# Written by the SightingDB management interface. Comments added here'' @ nl @
     ''# are replaced the next time a tier is changed.'' @ nl @
     ''#'' @ nl @
     ''# hot   never evicted'' @ nl @
     ''# warm  dropped once untouched for warm_idle seconds'' @ nl @
     ''# cold  dropped at the next sweep once idle'' @ nl @
     ''#'' @ nl @
     ''# Keyed by the top-level namespace, which is the unit that is paged in'' @ nl @
     ''# and out: '' @ dquote @ ''feeds'' @ dquote @ '' covers '' @ dquote @ ''feeds/misp/ips'' @ dquote @
       '' and everything beside it.'' @ nl @
     ''# An entry may set the tier, the idle window, or both.'' @ nl @ nl"

definition entry_text :: "tier_entry \<Rightarrow> string option" where
  "entry_text entry =
     (case (e_tier entry, e_warm_idle entry) of
        (Some t, None) \<Rightarrow> Some (dquote @ Tier_as_str t @ dquote)
      | (Some t, Some idle) \<Rightarrow>
          Some (''{ tier = '' @ dquote @ Tier_as_str t @ dquote @ '', warm_idle = '' @ show_u64 idle @ '' }'')
      | (None, Some idle) \<Rightarrow> Some (''{ warm_idle = '' @ show_u64 idle @ '' }'')
      | (None, None) \<Rightarrow> None)"

definition TierPolicy_body :: "tier_policy \<Rightarrow> string" where
  "TierPolicy_body p =
     TierPolicy_header @
     ''default_tier = '' @ dquote @ Tier_as_str (default_tier p) @ dquote @ nl @
     ''warm_idle = '' @ show_u64 (tp_warm_idle p) @ nl @ nl @ ''[tiers]'' @ nl @
     concat (map (\<lambda>(namespace, entry).
       case entry_text entry of
         None \<Rightarrow> []
       | Some v \<Rightarrow> dquote @ namespace @ dquote @ '' = '' @ v @ nl) (sorted_list_of_fmap (tp_entries p)))"

section \<open>Lemmas\<close>

lemma Tier_parse_names:
  "Tier_parse ''hot'' = Inr Hot" "Tier_parse ''warm'' = Inr Warm" "Tier_parse ''cold'' = Inr Cold"
  by code_simp+

lemma Tier_roundtrip [simp]: "Tier_parse (Tier_as_str t) = Inr t"
  by (cases t) (simp_all add: Tier_parse_names)

lemma resolve_internal: "r_tier (TierPolicy_resolve p INTERNAL_SHARD) = Hot"
  by (simp add: TierPolicy_resolve_def)

lemma entry_set:
  "TierPolicy_entry (TierPolicy_set p shard entry) s =
     (if shard_key s = shard_key shard then entry else TierPolicy_entry p s)"
  by (auto simp: TierPolicy_entry_def TierPolicy_set_def Let_def Entry_is_empty_def Entry_default_def fm_simps)

lemma set_defaults [simp]:
  "default_tier (TierPolicy_set p shard entry) = default_tier p"
  "tp_warm_idle (TierPolicy_set p shard entry) = tp_warm_idle p"
  by (simp_all add: TierPolicy_set_def Let_def)

text \<open>
  Residency settings: the shard of the database's own state is never given an idle allowance,
  whatever was configured. For any other shard the setting last made under its name decides, each
  half on its own falling back to the configured default; setting an empty entry returns the shard
  to the defaults; and no setting changes another shard's allowance.
\<close>
theorem tier_policy_resolves:
  "TierPolicy_idle_allowance p INTERNAL_SHARD = None \<and>
   (shard \<noteq> INTERNAL_SHARD \<longrightarrow>
     TierPolicy_idle_allowance (TierPolicy_set p shard entry) shard =
       (case unwrap_or (e_tier entry) (default_tier p) of
          Hot \<Rightarrow> None
        | Warm \<Rightarrow> Some (unwrap_or (e_warm_idle entry) (tp_warm_idle p))
        | Cold \<Rightarrow> Some 0)) \<and>
   (shard_key other \<noteq> shard_key shard \<longrightarrow>
     TierPolicy_resolve (TierPolicy_set p shard entry) other = TierPolicy_resolve p other)"
  by (simp add: TierPolicy_idle_allowance_def TierPolicy_resolve_def Resolved_idle_allowance_def
      entry_set Let_def split: tier.split)

theorem tier_policy_resolves_witness:
  "TierPolicy_idle_allowance
     (TierPolicy_set TierPolicy_default ''feeds'' \<lparr>e_tier = Some Warm, e_warm_idle = None\<rparr>) ''feeds'' = Some 3600 \<and>
   TierPolicy_resolve
     (TierPolicy_set TierPolicy_default ''feeds'' \<lparr>e_tier = Some Warm, e_warm_idle = None\<rparr>) ''dns'' =
   TierPolicy_resolve TierPolicy_default ''dns''"
proof -
  have "''feeds'' \<noteq> INTERNAL_SHARD" "shard_key ''dns'' \<noteq> shard_key ''feeds''" by code_simp+
  then show ?thesis
    using tier_policy_resolves [of TierPolicy_default "''feeds''" "\<lparr>e_tier = Some Warm, e_warm_idle = None\<rparr>" "''dns''"]
    by (simp add: unwrap_or_def TierPolicy_default_def)
qed

text \<open>The table form of an entry reads back as the entry.\<close>

definition entry_value :: "tier_entry \<Rightarrow> toml_value" where
  "entry_value entry = TomlTable
     ((case e_tier entry of None \<Rightarrow> [] | Some t \<Rightarrow> [(''tier'', TomlString (Tier_as_str t))]) @
      (case e_warm_idle entry of None \<Rightarrow> [] | Some i \<Rightarrow> [(''warm_idle'', TomlInteger (uint i))]))"

lemma parse_entry_value: "\<not> Entry_is_empty e \<Longrightarrow> parse_entry (entry_value e) = Inr e"
  by (cases e) (auto simp: entry_value_def Entry_is_empty_def Entry_default_def split: option.splits)

lemma load_entries_lookup:
  assumes "load_entries xs m = Inr m'" "distinct (map fst xs)"
  shows "(\<forall>k v. (k, v) \<in> set xs \<longrightarrow> (\<exists>e. parse_entry v = Inr e \<and> fmlookup m' k = Some e)) \<and>
     (\<forall>k. k \<notin> fst ` set xs \<longrightarrow> fmlookup m' k = fmlookup m k)"
  using assms
proof (induction xs m rule: load_entries.induct)
  case (2 n v rest m)
  then obtain e where e: "parse_entry v = Inr e" and rest: "load_entries rest (fmupd n e m) = Inr m'"
    by (auto split: sum.splits)
  with 2 show ?case by force
qed auto

text \<open>
  A tier file is taken in whole or refused: when \<open>TierPolicy::load\<close> succeeds, the policy has
  exactly the file's entries, each as \<open>parse_entry\<close> reads it, and no entry that says nothing.
\<close>
theorem tier_file_load_exact:
  assumes "read_to_string path = Some text" and "toml_from_str text = Some file"
    and "TierPolicy_load read_to_string toml_from_str path = Inr p"
  shows "fmdom' (tp_entries p) = fmdom' (tf_tiers file) \<and>
    (\<forall>ns v. fmlookup (tf_tiers file) ns = Some v \<longrightarrow>
       (\<exists>e. parse_entry v = Inr e \<and> fmlookup (tp_entries p) ns = Some e \<and> \<not> Entry_is_empty e)) \<and>
    Tier_parse (tf_default_tier file) = Inr (default_tier p) \<and> tp_warm_idle p = tf_warm_idle file"
proof -
  from assms obtain m where m: "load_entries (sorted_list_of_fmap (tf_tiers file)) fmempty = Inr m"
    and p: "tp_entries p = m" "tp_warm_idle p = tf_warm_idle file"
      "Tier_parse (tf_default_tier file) = Inr (default_tier p)"
    by (auto simp: TierPolicy_load_def split: sum.splits)
  have keys: "distinct (map fst (sorted_list_of_fmap (tf_tiers file)))"
    using distinct_fm_keys [of "tf_tiers file"] by (simp add: fm_keys_def)
  have dom: "fst ` set (sorted_list_of_fmap (tf_tiers file)) = fmdom' (tf_tiers file)"
    using set_fm_keys [of "tf_tiers file"] by (simp add: fm_keys_def)
  have ne: "\<not> Entry_is_empty e" if "parse_entry v = Inr e" for v e
    using that by (cases v) (auto simp: Entry_is_empty_def split: sum.splits if_splits)
  have look: "\<exists>e. parse_entry v = Inr e \<and> fmlookup m ns = Some e" if "fmlookup (tf_tiers file) ns = Some v" for ns v
    using load_entries_lookup [OF m keys] that by simp
  have none: "fmlookup m ns = None" if "ns \<notin> fmdom' (tf_tiers file)" for ns
    using load_entries_lookup [OF m keys] that dom by simp
  have "ns \<in> fmdom' m \<longleftrightarrow> ns \<in> fmdom' (tf_tiers file)" for ns
    using look none by (metis fmlookup_dom'_iff option.distinct(1))
  then show ?thesis using p look ne by blast
qed

theorem tier_file_load_exact_witness:
  "\<exists>p. TierPolicy_load (\<lambda>_. Some ''text'') (\<lambda>_. Some \<lparr>tf_default_tier = ''warm'', tf_warm_idle = 60,
       tf_tiers = fmap_of_list [(''feeds'', TomlString ''Cold'')]\<rparr>) ''tiers.toml'' = Inr p \<and>
     fmdom' (tp_entries p) = {''feeds''} \<and> tp_warm_idle p = 60"
proof -
  let ?f = "\<lparr>tf_default_tier = ''warm'', tf_warm_idle = 60,
       tf_tiers = fmap_of_list [(''feeds'', TomlString ''Cold'')]\<rparr>"
  let ?p = "\<lparr>default_tier = Warm, tp_entries = fmap_of_list [(''feeds'', \<lparr>e_tier = Some Cold, e_warm_idle = None\<rparr>)],
       tp_warm_idle = 60\<rparr>"
  have "TierPolicy_load (\<lambda>_. Some ''text'') (\<lambda>_. Some ?f) ''tiers.toml'' = Inr ?p" by code_simp
  then show ?thesis
    using tier_file_load_exact [of "\<lambda>_. Some ''text''" "''tiers.toml''" "''text''" "\<lambda>_. Some ?f" ?f ?p]
    by (auto simp: fmap_of_list.rep_eq fmdom'_alt_def)
qed

end
