(* ===== verification/Tags.thy ===== *)
theory Tags
  imports Attribute
begin

text \<open>
  \<^verbatim>\<open>src/src/tags.rs\<close>: the vocabulary, a colour and a description per tag, with names ending in a
  colon standing for whole families. The vocabulary decides presentation only.

  Parsing TOML belongs to the toml crate and is the parameter \<open>toml_from_str\<close> of
  \<open>Vocabulary_from_toml\<close>. \<open>normalise_colour\<close> is called on validated colours only, which are ASCII,
  so the lower case of Unicode is the lower case of ASCII there.
\<close>

section \<open>Data\<close>

definition MAX_NAME :: nat where
  "MAX_NAME = 128"

definition UNKNOWN_COLOUR :: string where
  "UNKNOWN_COLOUR = ''#6b7280''"

record tag =
  t_colour :: string
  t_description :: string

type_synonym vocabulary = "(string, tag) fmap"

datatype tag_error =
    NameEmpty | NameTooLong | NameComma | NameBlankEdge | NameControl
  | ColourHash | ColourLength | ColourHex | NoSuchTag

section \<open>Operations\<close>

text \<open>\<open>char::is_control\<close>: U+0000 to U+001F, U+007F, and U+0080 to U+009F in two bytes.\<close>

fun has_control :: "string \<Rightarrow> bool" where
  "has_control [] = False"
| "has_control (a # s) =
     ((of_char a :: nat) < 32 \<or> (of_char a :: nat) = 127 \<or>
      (a = CHR 0xC2 \<and> (case s of [] \<Rightarrow> False | b # _ \<Rightarrow> 128 \<le> (of_char b :: nat) \<and> (of_char b :: nat) < 160)) \<or>
      has_control s)"

definition validate_colour :: "string \<Rightarrow> tag_error + unit" where
  "validate_colour colour =
     (case strip_prefix colour ''#'' of
        None \<Rightarrow> Inl ColourHash
      | Some hex \<Rightarrow>
          if length hex \<noteq> 3 \<and> length hex \<noteq> 6 then Inl ColourLength
          else if \<not> list_all is_ascii_hexdigit hex then Inl ColourHex
          else Inr ())"

definition tag_validate :: "string \<Rightarrow> string \<Rightarrow> tag_error + unit" where
  "tag_validate name colour =
     (if name = [] then Inl NameEmpty
      else if length name > MAX_NAME then Inl NameTooLong
      else if CHR '','' \<in> set name then Inl NameComma
      else if trim name \<noteq> name then Inl NameBlankEdge
      else if has_control name then Inl NameControl
      else validate_colour colour)"

definition normalise_colour :: "string \<Rightarrow> string" where
  "normalise_colour colour = to_ascii_lowercase (trim colour)"

definition tags_split :: "string \<Rightarrow> string list" where
  "tags_split voc = filter (\<lambda>t. t \<noteq> []) (map trim (split_on CHR '','' voc))"

fun from_toml_loop :: "(string \<times> tag) list \<Rightarrow> vocabulary \<Rightarrow> vocabulary" where
  "from_toml_loop [] voc = voc"
| "from_toml_loop ((name, tag) # rest) voc =
     from_toml_loop rest
       (case tag_validate name (t_colour tag) of
          Inr _ \<Rightarrow> fmupd name tag voc
        | Inl e \<Rightarrow> voc)"

definition Vocabulary_from_toml :: "(string \<Rightarrow> 'e + (string, tag) fmap) \<Rightarrow> string \<Rightarrow> 'e + vocabulary" where
  "Vocabulary_from_toml toml_from_str text =
     (case toml_from_str text of
        Inl e \<Rightarrow> Inl e
      | Inr parsed \<Rightarrow> Inr (from_toml_loop (sorted_list_of_fmap parsed) fmempty))"

definition Vocabulary_seeded :: "(string \<Rightarrow> 'e + (string, tag) fmap) \<Rightarrow> string \<Rightarrow> vocabulary" where
  "Vocabulary_seeded toml_from_str seed =
     (case Vocabulary_from_toml toml_from_str seed of Inr v \<Rightarrow> v | Inl e \<Rightarrow> fmempty)"

definition Vocabulary_toml_header :: string where
  "Vocabulary_toml_header =
     ''# Written by the SightingDB management interface. Comments added'' @ nl @
     ''# here are replaced the next time a tag is saved.'' @ nl @
     ''#'' @ nl @
     ''# A name ending in '' @ [CHR 0x27] @ '':'' @ [CHR 0x27] @ '' colours a whole family, so '' @ dquote @ ''tlp:'' @ dquote @ '' would'' @ nl @
     ''# cover every tlp: tag at once.'' @ nl @ nl"

definition escape_description :: "string \<Rightarrow> string" where
  "escape_description d =
     replace_char CHR 0x22 [CHR 0x5C, CHR 0x22] (replace_char CHR 0x5C [CHR 0x5C, CHR 0x5C] d)"

definition Vocabulary_to_toml :: "vocabulary \<Rightarrow> string" where
  "Vocabulary_to_toml voc = Vocabulary_toml_header @ concat (map (\<lambda>(name, tag).
     ''[tags.'' @ dquote @ name @ dquote @ '']'' @ nl @
     ''colour = '' @ dquote @ t_colour tag @ dquote @ nl @
     (if t_description tag = [] then []
      else ''description = '' @ dquote @ escape_description (t_description tag) @ dquote @ nl) @ nl)
     (sorted_list_of_fmap voc))"

text \<open>\<open>Iterator::max_by_key\<close>: the last of the greatest.\<close>

fun max_by_key :: "('a \<Rightarrow> nat) \<Rightarrow> 'a list \<Rightarrow> 'a option" where
  "max_by_key f [] = None"
| "max_by_key f (x # xs) =
     (case max_by_key f xs of
        None \<Rightarrow> Some x
      | Some y \<Rightarrow> if f x \<le> f y then Some y else Some x)"

definition Vocabulary_colour_of :: "vocabulary \<Rightarrow> string \<Rightarrow> string option" where
  "Vocabulary_colour_of voc tag =
     (case fmlookup voc tag of
        Some known \<Rightarrow> Some (t_colour known)
      | None \<Rightarrow>
          map_option (\<lambda>(_, t). t_colour t)
            (max_by_key (\<lambda>(name, _). length name)
              (filter (\<lambda>(name, _). ends_with name '':'' \<and> starts_with tag name) (sorted_list_of_fmap voc))))"

definition Vocabulary_get :: "vocabulary \<Rightarrow> string \<Rightarrow> tag option" where
  "Vocabulary_get voc name = fmlookup voc name"

definition Vocabulary_entries :: "vocabulary \<Rightarrow> (string \<times> tag) list" where
  "Vocabulary_entries voc = sorted_list_of_fmap voc"

definition Vocabulary_set :: "vocabulary \<Rightarrow> string \<Rightarrow> string \<Rightarrow> string \<Rightarrow> tag_error + vocabulary" where
  "Vocabulary_set voc name colour description =
     (let name = trim name
      in case tag_validate name colour of
           Inl e \<Rightarrow> Inl e
         | Inr _ \<Rightarrow> Inr (fmupd name \<lparr>t_colour = normalise_colour colour, t_description = trim description\<rparr> voc))"

definition Vocabulary_remove :: "vocabulary \<Rightarrow> string \<Rightarrow> tag_error + vocabulary" where
  "Vocabulary_remove voc name =
     (if fm_contains voc (trim name) then Inr (fmdrop (trim name) voc) else Inl NoSuchTag)"

section \<open>Lemmas\<close>

lemma validate_colour_iff:
  "validate_colour c = Inr () \<longleftrightarrow>
     (\<exists>hex. c = CHR ''#'' # hex \<and> (length hex = 3 \<or> length hex = 6) \<and> list_all is_ascii_hexdigit hex)"
  by (auto simp: validate_colour_def strip_prefix_Some split: option.splits if_splits)
     (auto simp: strip_prefix_def starts_with_def)

lemma hexdigit_lower: "is_ascii_hexdigit c \<Longrightarrow> is_ascii_hexdigit (ascii_lower c)"
  by (auto simp: is_ascii_hexdigit_def is_ascii_digit_def ascii_lower_def Let_def)

lemma hexdigit_plain: "is_ascii_hexdigit c \<Longrightarrow> plain c"
  by (auto simp: is_ascii_hexdigit_def is_ascii_digit_def plain_def)

lemma validated_colour_trim:
  assumes "validate_colour c = Inr ()"
  shows "trim c = c"
proof -
  from assms obtain hex where c: "c = CHR ''#'' # hex" and len: "length hex = 3 \<or> length hex = 6"
    and hex: "list_all is_ascii_hexdigit hex" by (auto simp: validate_colour_iff)
  from len obtain h l where h: "hex = h @ [l]" by (cases hex rule: rev_cases) auto
  then have "plain l" using hex by (simp add: hexdigit_plain)
  then have "ws_len_rev (rev c) = 0" using c h by (simp add: ws_len_rev_plain)
  moreover have "ws_len c = 0" using c by (simp add: ws_len_plain plain_def)
  ultimately show ?thesis by (intro trim_fixed)
qed

lemma normalise_validated:
  assumes "validate_colour c = Inr ()"
  shows "validate_colour (normalise_colour c) = Inr ()"
  using assms validated_colour_trim [OF assms]
  by (auto simp: validate_colour_iff normalise_colour_def to_ascii_lowercase_def list_all_iff
      ascii_lower_def [of "CHR ''#''"] hexdigit_lower)

text \<open>What every entry of a vocabulary satisfies.\<close>

definition vocabulary_wf :: "vocabulary \<Rightarrow> bool" where
  "vocabulary_wf voc \<longleftrightarrow> (\<forall>name t. fmlookup voc name = Some t \<longrightarrow> tag_validate name (t_colour t) = Inr ())"

lemma validated_name: "tag_validate name c = Inr () \<Longrightarrow> tag_validate name c' = validate_colour c' \<and> validate_colour c = Inr ()"
  by (auto simp: tag_validate_def split: if_splits)

lemma vocabulary_wf_upd:
  "vocabulary_wf voc \<Longrightarrow> tag_validate n (t_colour t) = Inr () \<Longrightarrow> vocabulary_wf (fmupd n t voc)"
  by (simp add: vocabulary_wf_def)

lemma from_toml_loop_wf: "vocabulary_wf voc \<Longrightarrow> vocabulary_wf (from_toml_loop xs voc)"
proof (induction xs voc rule: from_toml_loop.induct)
  case (2 name tag rest voc)
  show ?case
  proof (cases "tag_validate name (t_colour tag)")
    case (Inl e)
    with 2 show ?thesis by simp
  next
    case (Inr u)
    with 2(2) have "vocabulary_wf (fmupd name tag voc)" by (intro vocabulary_wf_upd) simp_all
    with 2(1) Inr show ?thesis by simp
  qed
qed simp

lemma validated_is_one_tag:
  assumes "tag_validate name c = Inr ()"
  shows "tags_split name = [name]"
  using assms by (auto simp: tag_validate_def tags_split_def split_on_no_sep split: if_splits)

text \<open>
  A vocabulary only ever holds entries that validate: loading a file drops the others, and
  defining or forgetting a tag keeps it so. Every name it holds is one tag of a value's tag field,
  never several and never none.
\<close>
theorem vocabulary_stays_valid:
  assumes "vocabulary_wf voc"
  shows "(Vocabulary_set voc name c d = Inr tags' \<longrightarrow> vocabulary_wf tags') \<and>
    (Vocabulary_remove voc name = Inr tags'' \<longrightarrow> vocabulary_wf tags'') \<and>
    vocabulary_wf (Vocabulary_seeded toml_from_str seed) \<and>
    (fmlookup voc held = Some t \<longrightarrow> tags_split held = [held] \<and> length held \<le> MAX_NAME)"
proof (intro conjI impI)
  assume "Vocabulary_set voc name c d = Inr tags'"
  then have valid: "tag_validate (trim name) c = Inr ()"
    and tags': "tags' = fmupd (trim name) \<lparr>t_colour = normalise_colour c, t_description = trim d\<rparr> voc"
    by (auto simp: Vocabulary_set_def Let_def split: sum.splits)
  have "tag_validate (trim name) (normalise_colour c) = Inr ()"
    using validated_name [OF valid, of "normalise_colour c"] normalise_validated by auto
  with assms tags' show "vocabulary_wf tags'" by (simp add: vocabulary_wf_def)
next
  assume "Vocabulary_remove voc name = Inr tags''"
  with assms show "vocabulary_wf tags''"
    by (auto simp: vocabulary_wf_def Vocabulary_remove_def split: if_splits)
next
  show "vocabulary_wf (Vocabulary_seeded toml_from_str seed)"
    by (simp add: Vocabulary_seeded_def Vocabulary_from_toml_def from_toml_loop_wf vocabulary_wf_def [of fmempty]
        split: sum.splits)
next
  assume "fmlookup voc held = Some t"
  with assms have v: "tag_validate held (t_colour t) = Inr ()" by (simp add: vocabulary_wf_def)
  then show "tags_split held = [held]" by (rule validated_is_one_tag)
  from v show "length held \<le> MAX_NAME" by (auto simp: tag_validate_def split: if_splits)
qed

theorem vocabulary_stays_valid_witness:
  "vocabulary_wf (fmupd ''tlp:red'' \<lparr>t_colour = ''#ff0033'', t_description = ''d''\<rparr> fmempty)"
proof -
  have "vocabulary_wf fmempty" by (simp add: vocabulary_wf_def)
  moreover have "Vocabulary_set fmempty '' tlp:red '' ''#FF0033'' ''d'' =
      Inr (fmupd ''tlp:red'' \<lparr>t_colour = ''#ff0033'', t_description = ''d''\<rparr> fmempty)" by code_simp
  ultimately show ?thesis
    using vocabulary_stays_valid [of fmempty "'' tlp:red ''" "''#FF0033''" "''d''"
        "fmupd ''tlp:red'' \<lparr>t_colour = ''#ff0033'', t_description = ''d''\<rparr> fmempty" fmempty "\<lambda>_. Inl ()" "[]" "[]"
        "\<lparr>t_colour = [], t_description = []\<rparr>"]
    by blast
qed

lemma max_by_key_None: "max_by_key f xs = None \<longleftrightarrow> xs = []"
  by (cases xs) (auto split: option.splits)

lemma max_by_key_max:
  "max_by_key f xs = Some x \<Longrightarrow> x \<in> set xs \<and> (\<forall>y \<in> set xs. f y \<le> f x)"
proof (induction xs arbitrary: x)
  case (Cons a xs)
  then show ?case
    by (cases "max_by_key f xs") (auto simp: max_by_key_None split: if_splits intro: le_trans)
qed simp

lemma empty_pairs: "xs = [] \<longleftrightarrow> (\<forall>a b. (a, b) \<notin> set xs)"
  by (cases xs) auto

text \<open>
  The colour a tag is shown in: its own entry's if it has one; otherwise the entry of the longest
  family, a name ending in a colon, that the tag begins with; none if there is neither.
\<close>
theorem vocabulary_colour:
  "case fmlookup voc tag of
     Some t \<Rightarrow> Vocabulary_colour_of voc tag = Some (t_colour t)
   | None \<Rightarrow>
      (Vocabulary_colour_of voc tag = None \<longleftrightarrow>
         (\<forall>name t. fmlookup voc name = Some t \<longrightarrow> ends_with name '':'' \<longrightarrow> \<not> starts_with tag name)) \<and>
      (\<forall>c. Vocabulary_colour_of voc tag = Some c \<longrightarrow>
         (\<exists>name t. fmlookup voc name = Some t \<and> ends_with name '':'' \<and> starts_with tag name \<and> c = t_colour t \<and>
            (\<forall>name' t'. fmlookup voc name' = Some t' \<and> ends_with name' '':'' \<and> starts_with tag name' \<longrightarrow>
               length name' \<le> length name)))"
proof (cases "fmlookup voc tag")
  case None
  let ?xs = "filter (\<lambda>(name, _). ends_with name '':'' \<and> starts_with tag name) (sorted_list_of_fmap voc)"
  have mem: "(name, t) \<in> set ?xs \<longleftrightarrow>
      fmlookup voc name = Some t \<and> ends_with name '':'' \<and> starts_with tag name" for name t by auto
  have eq: "Vocabulary_colour_of voc tag = map_option (\<lambda>(_, t). t_colour t) (max_by_key (\<lambda>(name, _). length name) ?xs)"
    using None by (simp add: Vocabulary_colour_of_def)
  have "(Vocabulary_colour_of voc tag = None) \<longleftrightarrow> ?xs = []"
    unfolding eq by (simp only: map_option_is_None max_by_key_None)
  also have "\<dots> \<longleftrightarrow> (\<forall>name t. (name, t) \<notin> set ?xs)"
    by (rule empty_pairs)
  also have "\<dots> \<longleftrightarrow> (\<forall>name t. fmlookup voc name = Some t \<longrightarrow> ends_with name '':'' \<longrightarrow> \<not> starts_with tag name)"
    unfolding mem by blast
  finally have none: "(Vocabulary_colour_of voc tag = None) \<longleftrightarrow>
    (\<forall>name t. fmlookup voc name = Some t \<longrightarrow> ends_with name '':'' \<longrightarrow> \<not> starts_with tag name)" .
  have some: "\<exists>name t. fmlookup voc name = Some t \<and> ends_with name '':'' \<and> starts_with tag name \<and> c = t_colour t \<and>
            (\<forall>name' t'. fmlookup voc name' = Some t' \<and> ends_with name' '':'' \<and> starts_with tag name' \<longrightarrow>
               length name' \<le> length name)" if col: "Vocabulary_colour_of voc tag = Some c" for c
  proof -
    obtain name t where m: "max_by_key (\<lambda>(name, _). length name) ?xs = Some (name, t)" "c = t_colour t"
      using col unfolding eq by auto
    then have "(name, t) \<in> set ?xs" and "\<forall>y \<in> set ?xs. (case y of (n, _) \<Rightarrow> length n) \<le> length name"
      using max_by_key_max [OF m(1)] by auto
    then have "fmlookup voc name = Some t \<and> ends_with name '':'' \<and> starts_with tag name"
      and "length n \<le> length name"
      if "fmlookup voc n = Some t' \<and> ends_with n '':'' \<and> starts_with tag n" for n t'
      using that mem [of n t'] mem [of name t] by auto
    with m(2) \<open>(name, t) \<in> set ?xs\<close> show ?thesis unfolding mem by blast
  qed
  from None none some show ?thesis by simp
qed (simp add: Vocabulary_colour_of_def)

theorem vocabulary_colour_witness:
  "Vocabulary_colour_of (fmap_of_list [(''a:'', \<lparr>t_colour = ''#111'', t_description = []\<rparr>),
      (''a:b:'', \<lparr>t_colour = ''#222'', t_description = []\<rparr>)]) ''a:b:c'' = Some ''#222''"
proof -
  let ?v = "fmap_of_list [(''a:'', \<lparr>t_colour = ''#111'', t_description = []\<rparr>),
      (''a:b:'', \<lparr>t_colour = ''#222'', t_description = []\<rparr>)]"
  have n: "fmlookup ?v ''a:b:c'' = None" by code_simp
  have ab: "fmlookup ?v ''a:b:'' = Some \<lparr>t_colour = ''#222'', t_description = []\<rparr>" "ends_with ''a:b:'' '':''"
    "starts_with ''a:b:c'' ''a:b:''" by code_simp+
  have dom: "name = ''a:'' \<or> name = ''a:b:''" if "fmlookup ?v name = Some t" for name t
    using that by (auto simp: fmap_of_list.rep_eq split: if_splits)
  have some: "Vocabulary_colour_of ?v ''a:b:c'' = None \<longleftrightarrow>
         (\<forall>name t. fmlookup ?v name = Some t \<longrightarrow> ends_with name '':'' \<longrightarrow> \<not> starts_with ''a:b:c'' name)"
    and longest: "\<forall>c. Vocabulary_colour_of ?v ''a:b:c'' = Some c \<longrightarrow>
         (\<exists>name t. fmlookup ?v name = Some t \<and> ends_with name '':'' \<and> starts_with ''a:b:c'' name \<and> c = t_colour t \<and>
            (\<forall>name' t'. fmlookup ?v name' = Some t' \<and> ends_with name' '':'' \<and> starts_with ''a:b:c'' name' \<longrightarrow>
               length name' \<le> length name))"
    using vocabulary_colour [of ?v "''a:b:c''"] unfolding n option.case by blast+
  obtain c where c: "Vocabulary_colour_of ?v ''a:b:c'' = Some c"
    using some ab by (cases "Vocabulary_colour_of ?v ''a:b:c''") blast+
  then obtain name t where nt: "fmlookup ?v name = Some t" "c = t_colour t" "length ''a:b:'' \<le> length name"
    using longest ab by blast
  then have "name = ''a:b:''" using dom [OF nt(1)] by auto
  then have "t = \<lparr>t_colour = ''#222'', t_description = []\<rparr>" using nt(1) ab(1) by (metis option.inject)
  then show ?thesis using nt(2) c by simp
qed

text \<open>
  Names with a double quote validate, although \<open>to_toml\<close> writes a name between double quotes without
  escaping it: the file then has no such table and does not load.
\<close>
lemma quoted_name_validates:
  "tag_validate [CHR ''a'', CHR 0x22, CHR ''b''] ''#fff'' = Inr ()"
  "\<exists>rest. Vocabulary_to_toml (fmupd [CHR ''a'', CHR 0x22, CHR ''b''] \<lparr>t_colour = ''#fff'', t_description = []\<rparr> fmempty) =
     Vocabulary_toml_header @ ''[tags.'' @ [CHR 0x22, CHR ''a'', CHR 0x22, CHR ''b'', CHR 0x22, CHR '']''] @ rest"
proof -
  show "tag_validate [CHR ''a'', CHR 0x22, CHR ''b''] ''#fff'' = Inr ()" by code_simp
  have "sorted_list_of_fmap (fmupd [CHR ''a'', CHR 0x22, CHR ''b''] t (fmempty :: vocabulary)) =
      [([CHR ''a'', CHR 0x22, CHR ''b''], t)]" for t by code_simp
  then show "\<exists>rest. Vocabulary_to_toml (fmupd [CHR ''a'', CHR 0x22, CHR ''b''] \<lparr>t_colour = ''#fff'', t_description = []\<rparr> fmempty) =
     Vocabulary_toml_header @ ''[tags.'' @ [CHR 0x22, CHR ''a'', CHR 0x22, CHR ''b'', CHR 0x22, CHR '']''] @ rest"
    by (simp add: Vocabulary_to_toml_def dquote_def)
qed

end
