(* ===== verification/Database.thy ===== *)
theory Database
  imports Namespace Store Tier Tags
begin

text \<open>
  \<^verbatim>\<open>src/src/db.rs\<close>, \<open>struct Database\<close>: the namespaces held in memory, the catalogue of shards, the set
  of shards changed since the last save, the policies, and every operation on them; paging shards in
  and out goes through the file layer of \<open>Store\<close>.

  An operation takes the environment, the disk, the clock and the database and returns the database it
  leaves behind, also when it only reads: reading moves a shard's last access and may page it in. Each
  operation runs alone. A namespace handle (\<open>Arc<Namespace>\<close>) is the entry of the map, so a change
  through a handle is a change of that entry; which namespaces some other thread holds a handle to is
  the argument \<open>busy\<close> of the operations that ask. One operation reads the clock once. Logging is not
  modelled.
\<close>

section \<open>Data\<close>

record db_policy =
  stats_retention :: nat
  shadow_ttl :: u64

record write_opts =
  wo_consensus :: bool
  wo_ttl :: "u64 option"

definition WriteOpts_default :: write_opts where
  "WriteOpts_default = \<lparr>wo_consensus = False, wo_ttl = None\<rparr>"

record written =
  w_count :: u64
  w_new :: bool

record storage_view =
  sv_warm_idle :: u64
  sv_own_tier :: bool
  sv_own_warm_idle :: bool

record namespace_entry =
  ne_namespace :: string
  ne_shard :: string
  ne_tier :: string
  ne_resident :: bool
  ne_storage :: storage_view

record tree_entry =
  te_name :: string
  te_path :: string
  te_is_namespace :: bool
  te_descendants :: nat
  te_shard :: string
  te_tier :: string
  te_resident :: bool
  te_storage :: storage_view

record sighting =
  s_namespace :: string
  s_shard :: string
  s_count :: u64
  s_first_seen :: int
  s_last_seen :: int

record sightings =
  ss_items :: "sighting list"
  ss_truncated :: bool
  ss_paged_in :: bool

record evict_report =
  er_evicted :: nat
  er_busy :: nat
  er_failed :: nat

record sweep_report =
  sr_values_removed :: nat
  sr_namespaces_removed :: nat

record value_count =
  vc_values :: nat
  vc_exact :: bool
  vc_paged_in :: bool

record shard_meta =
  sm_namespaces :: "string fset"
  sm_resident :: bool
  sm_last_access :: int

definition ShardMeta_default :: shard_meta where
  "ShardMeta_default = \<lparr>sm_namespaces = {||}, sm_resident = False, sm_last_access = 0\<rparr>"

record store =
  st_dbdir :: string
  st_level :: int

record database =
  db_namespaces :: "(string, namespace) fmap"
  db_policy_of :: db_policy
  db_stores :: storage_policy
  db_node :: string
  db_dirty :: "string fset"
  db_shards :: "(string, shard_meta) fmap"
  db_store :: "store option"
  db_tiers :: tier_policy
  db_activity :: activity
  db_latest :: latest

section \<open>Building one\<close>

definition Database_with_node :: "db_policy \<Rightarrow> storage_policy \<Rightarrow> string \<Rightarrow> database" where
  "Database_with_node policy stores node = \<lparr>db_namespaces = fmempty, db_policy_of = policy,
     db_stores = stores, db_node = node, db_dirty = {||}, db_shards = fmempty, db_store = None,
     db_tiers = TierPolicy_default, db_activity = Activity_default, db_latest = Latest_default\<rparr>"

definition catalogue_of :: "int \<Rightarrow> string list \<Rightarrow> (string, shard_meta) fmap" where
  "catalogue_of seen names =
     fold (\<lambda>name shards. let meta = fm_get ShardMeta_default shards (shard_of name)
        in fmupd (shard_of name) (meta\<lparr>sm_namespaces := finsert name (sm_namespaces meta),
             sm_resident := True, sm_last_access := seen\<rparr>) shards) names fmempty"

definition Database_from_snapshot_as ::
  "datetime \<Rightarrow> shard_data \<Rightarrow> db_policy \<Rightarrow> storage_policy \<Rightarrow> string \<Rightarrow> database" where
  "Database_from_snapshot_as now data policy stores node =
     (let namespaces = fmmap (\<lambda>values. Namespace_from_values values node) (sd_namespaces data)
      in (Database_with_node policy stores node)\<lparr>db_namespaces := namespaces,
            db_shards := catalogue_of (timestamp now) (fm_keys namespaces)\<rparr>)"

definition Database_attach_store :: "database \<Rightarrow> store \<Rightarrow> tier_policy \<Rightarrow> database" where
  "Database_attach_store db st tiers = db\<lparr>db_store := Some st, db_tiers := tiers\<rparr>"

definition Database_legacy_apikeys :: "database \<Rightarrow> string list" where
  "Database_legacy_apikeys db =
     filter (\<lambda>key. key \<noteq> []) (List.map_filter (\<lambda>name. strip_prefix name APIKEYS_NAMESPACE) (fm_keys (db_namespaces db)))"

section \<open>Finding a namespace\<close>

definition Database_touch :: "datetime \<Rightarrow> database \<Rightarrow> string \<Rightarrow> database" where
  "Database_touch now db shard =
     (case fmlookup (db_shards db) shard of
        None \<Rightarrow> db
      | Some meta \<Rightarrow> db\<lparr>db_shards := fmupd shard (meta\<lparr>sm_last_access := timestamp now\<rparr>) (db_shards db)\<rparr>)"

definition Database_record :: "datetime \<Rightarrow> database \<Rightarrow> string \<Rightarrow> database" where
  "Database_record now db name =
     (let shard = shard_of name; meta = fm_get ShardMeta_default (db_shards db) shard
      in db\<lparr>db_shards := fmupd shard (meta\<lparr>sm_namespaces := finsert name (sm_namespaces meta),
              sm_resident := True, sm_last_access := timestamp now\<rparr>) (db_shards db)\<rparr>)"

definition Database_resident :: "database \<Rightarrow> string \<Rightarrow> namespace option" where
  "Database_resident db name = fmlookup (db_namespaces db) name"

definition Database_catalogued :: "database \<Rightarrow> string \<Rightarrow> string \<Rightarrow> bool" where
  "Database_catalogued db shard name =
     (case fmlookup (db_shards db) shard of
        None \<Rightarrow> False
      | Some meta \<Rightarrow> \<not> sm_resident meta \<and> name |\<in>| sm_namespaces meta)"

definition shard_resident :: "database \<Rightarrow> string \<Rightarrow> bool" where
  "shard_resident db shard =
     (case fmlookup (db_shards db) shard of None \<Rightarrow> False | Some meta \<Rightarrow> sm_resident meta)"

definition Database_page_in :: "'f env \<Rightarrow> 'f disk \<Rightarrow> datetime \<Rightarrow> database \<Rightarrow> string \<Rightarrow> store_error + database" where
  "Database_page_in env disk now db shard =
     (case db_store db of
        None \<Rightarrow> Inr db
      | Some st \<Rightarrow>
          if shard_resident db shard then Inr db
          else case read_shard_file env disk (st_dbdir st) shard of
                 Inl e \<Rightarrow> Inl e
               | Inr data \<Rightarrow>
                   let meta = fm_get ShardMeta_default (db_shards db) shard
                   in Inr (db\<lparr>
                        db_namespaces := db_namespaces db ++\<^sub>f fmmap (\<lambda>values. Namespace_from_values values (db_node db)) data,
                        db_shards := fmupd shard (meta\<lparr>sm_namespaces := sm_namespaces meta |\<union>| fmdom data,
                           sm_resident := True, sm_last_access := timestamp now\<rparr>) (db_shards db)\<rparr>))"

definition Database_namespace ::
  "'f env \<Rightarrow> 'f disk \<Rightarrow> datetime \<Rightarrow> database \<Rightarrow> string \<Rightarrow> database \<times> namespace option" where
  "Database_namespace env disk now db name =
     (let shard = shard_of name; db = Database_touch now db shard
      in case Database_resident db name of
           Some ns \<Rightarrow> (db, Some ns)
         | None \<Rightarrow>
             if \<not> Database_catalogued db shard name then (db, None)
             else (case Database_page_in env disk now db shard of
                     Inl e \<Rightarrow> (db, None)
                   | Inr db \<Rightarrow> (db, Database_resident db name)))"

definition Database_namespace_or_create ::
  "'f env \<Rightarrow> 'f disk \<Rightarrow> datetime \<Rightarrow> database \<Rightarrow> string \<Rightarrow> database \<times> namespace" where
  "Database_namespace_or_create env disk now db name =
     (case Database_namespace env disk now db name of
        (db, Some ns) \<Rightarrow> (db, ns)
      | (db, None) \<Rightarrow>
          let shard = shard_of name;
              evicted = (case fmlookup (db_shards db) shard of None \<Rightarrow> False | Some meta \<Rightarrow> \<not> sm_resident meta);
              db = (if evicted
                    then (case Database_page_in env disk now db shard of Inl e \<Rightarrow> db | Inr db \<Rightarrow> db)
                    else db);
              ns = (case fmlookup (db_namespaces db) name of None \<Rightarrow> Namespace_default | Some ns \<Rightarrow> ns);
              db = db\<lparr>db_namespaces := fmupd name ns (db_namespaces db)\<rparr>
          in (Database_record now db name, ns))"

definition put_namespace :: "database \<Rightarrow> string \<Rightarrow> namespace \<Rightarrow> database" where
  "put_namespace db name ns = db\<lparr>db_namespaces := fmupd name ns (db_namespaces db)\<rparr>"

section \<open>Reading\<close>

definition Database_count ::
  "'f env \<Rightarrow> 'f disk \<Rightarrow> datetime \<Rightarrow> database \<Rightarrow> string \<Rightarrow> string \<Rightarrow> database \<times> u64" where
  "Database_count env disk now db path v =
     (case Database_namespace env disk now db path of
        (db, None) \<Rightarrow> (db, 0)
      | (db, Some ns) \<Rightarrow> (db, Namespace_count ns v now))"

definition Database_view ::
  "'f env \<Rightarrow> 'f disk \<Rightarrow> datetime \<Rightarrow> database \<Rightarrow> string \<Rightarrow> string \<Rightarrow> u64 \<Rightarrow> bool \<Rightarrow> database \<times> attribute_view option" where
  "Database_view env disk now db path v consensus with_stats =
     (case Database_namespace env disk now db path of
        (db, None) \<Rightarrow> (db, None)
      | (db, Some ns) \<Rightarrow> (db, Namespace_view ns v consensus with_stats now))"

definition Database_merge_page ::
  "'f env \<Rightarrow> 'f disk \<Rightarrow> datetime \<Rightarrow> database \<Rightarrow> string \<Rightarrow> nat \<Rightarrow> nat \<Rightarrow> database \<times> (string \<times> merge_data) page option" where
  "Database_merge_page env disk now db path offset limit =
     (case Database_namespace env disk now db path of
        (db, None) \<Rightarrow> (db, None)
      | (db, Some ns) \<Rightarrow> (db, Some (Namespace_merge_page ns offset limit now)))"

definition Database_merge_payload ::
  "'f env \<Rightarrow> 'f disk \<Rightarrow> datetime \<Rightarrow> database \<Rightarrow> string \<Rightarrow> string \<Rightarrow> database \<times> merge_data option" where
  "Database_merge_payload env disk now db path v =
     (case Database_namespace env disk now db path of
        (db, None) \<Rightarrow> (db, None)
      | (db, Some ns) \<Rightarrow> (db, Namespace_merge_payload ns v now))"

definition Database_namespace_exists :: "database \<Rightarrow> string \<Rightarrow> bool" where
  "Database_namespace_exists db name \<longleftrightarrow>
     fm_contains (db_namespaces db) name \<or>
     (case fmlookup (db_shards db) (shard_of name) of
        None \<Rightarrow> False | Some meta \<Rightarrow> name |\<in>| sm_namespaces meta)"

text \<open>Filling in the consensus of each view from \<open>_all\<close>.\<close>

fun fill_consensus ::
  "'f env \<Rightarrow> 'f disk \<Rightarrow> datetime \<Rightarrow> database \<Rightarrow> attribute_view list \<Rightarrow> database \<times> attribute_view list" where
  "fill_consensus env disk now db [] = (db, [])"
| "fill_consensus env disk now db (view # views) =
     (let (db, c) = Database_count env disk now db ALL_NAMESPACE (v_value view);
          (db, rest) = fill_consensus env disk now db views
      in (db, view\<lparr>v_consensus := c\<rparr> # rest))"

definition Database_namespace_views ::
  "'f env \<Rightarrow> 'f disk \<Rightarrow> datetime \<Rightarrow> database \<Rightarrow> string \<Rightarrow> database \<times> attribute_view list option" where
  "Database_namespace_views env disk now db name =
     (case Database_namespace env disk now db name of
        (db, None) \<Rightarrow> (db, None)
      | (db, Some ns) \<Rightarrow>
          let (db, views) = fill_consensus env disk now db (Namespace_all_views ns False now) in (db, Some views))"

definition Database_value_count ::
  "'f env \<Rightarrow> 'f disk \<Rightarrow> datetime \<Rightarrow> database \<Rightarrow> string \<Rightarrow> database \<times> value_count option" where
  "Database_value_count env disk now db name =
     (let db = Database_touch now db (shard_of name)
      in case Database_resident db name of
           Some ns \<Rightarrow> (db, Some \<lparr>vc_values = Namespace_len ns, vc_exact = (\<not> ns_has_ttl ns), vc_paged_in = False\<rparr>)
         | None \<Rightarrow>
             (case Database_namespace env disk now db name of
                (db, None) \<Rightarrow> (db, None)
              | (db, Some ns) \<Rightarrow>
                  (db, Some \<lparr>vc_values = Namespace_len ns, vc_exact = (\<not> ns_has_ttl ns), vc_paged_in = True\<rparr>)))"

definition Database_value_page ::
  "'f env \<Rightarrow> 'f disk \<Rightarrow> datetime \<Rightarrow> database \<Rightarrow> string \<Rightarrow> string \<Rightarrow> nat \<Rightarrow> nat \<Rightarrow> bool \<Rightarrow> database \<times> attribute_view page option" where
  "Database_value_page env disk now db name wanted offset limit with_stats =
     (let wanted = to_ascii_lowercase wanted
      in case Database_namespace env disk now db name of
           (db, None) \<Rightarrow> (db, None)
         | (db, Some ns) \<Rightarrow>
             let matching = filter (\<lambda>(v, attr). (wanted = [] \<or> contains_str (to_ascii_lowercase v) wanted) \<and>
                               \<not> Attribute_is_expired attr now) (sorted_list_of_fmap (ns_values ns));
                 items = map (\<lambda>(v, attr). Attribute_view attr 0 with_stats) (take limit (drop offset matching));
                 (db, items) = fill_consensus env disk now db items
             in (db, Some \<lparr>pg_items = items, pg_total = length matching, pg_offset = offset\<rparr>))"

section \<open>Writing\<close>

definition Database_mark_shard_dirty :: "database \<Rightarrow> string \<Rightarrow> database" where
  "Database_mark_shard_dirty db shard = db\<lparr>db_dirty := finsert shard (db_dirty db)\<rparr>"

definition Database_mark_dirty :: "database \<Rightarrow> string \<Rightarrow> database" where
  "Database_mark_dirty db namespace = Database_mark_shard_dirty db (shard_of namespace)"

definition write_ttl :: "db_policy \<Rightarrow> string \<Rightarrow> write_opts \<Rightarrow> u64 option" where
  "write_ttl policy path opts =
     (case wo_ttl opts of
        Some t \<Rightarrow> Some t
      | None \<Rightarrow> if starts_with path SHADOW_PREFIX \<and> shadow_ttl policy > 0 then Some (shadow_ttl policy) else None)"

text \<open>\<open>write\<close>, \<open>write_tagged\<close> and \<open>record_write\<close>: a write that counts and is new writes once more, to
  \<open>_all\<close>, without counting.\<close>

function Database_record_write ::
  "'f env \<Rightarrow> 'f disk \<Rightarrow> datetime \<Rightarrow> database \<Rightarrow> string \<Rightarrow> string \<Rightarrow> string \<Rightarrow> datetime \<Rightarrow> write_opts \<Rightarrow> string
    \<Rightarrow> database \<times> written" where
  "Database_record_write env disk now db node path v when opts given =
     (let t = write_ttl (db_policy_of db) path opts;
          (db, ns) = Database_namespace_or_create env disk now db path;
          (ns, n, is_new, view) = Namespace_record ns node v when t (stats_retention (db_policy_of db)) given;
          db = put_namespace db path ns;
          db = (if wo_consensus opts \<and> is_new
                then fst (Database_record_write env disk now db (db_node db) ALL_NAMESPACE v when WriteOpts_default [])
                else db);
          db = fst (Database_count env disk now db ALL_NAMESPACE v)
      in (Database_mark_dirty db path, \<lparr>w_count = n, w_new = is_new\<rparr>))"
  by pat_completeness auto
termination
  by (relation "measure (\<lambda>(_, _, _, _, _, _, _, _, opts, _). if wo_consensus opts then 1 else 0)")
     (auto simp: WriteOpts_default_def)

declare Database_record_write.simps [simp del]

definition Database_write_tagged ::
  "'f env \<Rightarrow> 'f disk \<Rightarrow> datetime \<Rightarrow> database \<Rightarrow> string \<Rightarrow> string \<Rightarrow> datetime \<Rightarrow> write_opts \<Rightarrow> string \<Rightarrow> database \<times> written" where
  "Database_write_tagged env disk now db path v when opts given =
     Database_record_write env disk now db (db_node db) path v when opts given"

definition Database_write_tagged_as ::
  "'f env \<Rightarrow> 'f disk \<Rightarrow> datetime \<Rightarrow> database \<Rightarrow> string \<Rightarrow> string \<Rightarrow> string \<Rightarrow> datetime \<Rightarrow> write_opts \<Rightarrow> string \<Rightarrow> database \<times> written" where
  "Database_write_tagged_as env disk now db origin path v when opts given =
     Database_record_write env disk now db origin path v when opts given"

definition Database_write ::
  "'f env \<Rightarrow> 'f disk \<Rightarrow> datetime \<Rightarrow> database \<Rightarrow> string \<Rightarrow> string \<Rightarrow> datetime \<Rightarrow> write_opts \<Rightarrow> database \<times> u64" where
  "Database_write env disk now db path v when opts =
     (let (db, w) = Database_write_tagged env disk now db path v when opts [] in (db, w_count w))"

definition Database_merge ::
  "(int \<Rightarrow> datetime option) \<Rightarrow> 'f env \<Rightarrow> 'f disk \<Rightarrow> datetime \<Rightarrow> database \<Rightarrow> string \<Rightarrow> string \<Rightarrow> merge_data \<Rightarrow> database \<times> merged" where
  "Database_merge from_timestamp env disk now db path v incoming =
     (let (db, ns) = Database_namespace_or_create env disk now db path;
          (ns, outcome, is_new) = Namespace_merge from_timestamp ns (db_node db) v incoming;
          db = put_namespace db path ns;
          db = (if is_new \<and> counts_towards_consensus path
                then fst (Database_write env disk now db ALL_NAMESPACE v now WriteOpts_default) else db);
          db = (if changed outcome then Database_mark_dirty db path else db)
      in (db, outcome))"

fun correct_counts :: "string \<Rightarrow> datetime \<Rightarrow> (string \<times> u64) list \<Rightarrow> namespace \<Rightarrow> nat \<Rightarrow> namespace \<times> nat" where
  "correct_counts node now [] all n = (all, n)"
| "correct_counts node now ((v, truth) # rest) all n =
     (let (all, fixed) = Namespace_set_count all node v truth now
      in correct_counts node now rest all (if fixed then n + 1 else n))"

definition Database_set_consensus ::
  "'f env \<Rightarrow> 'f disk \<Rightarrow> datetime \<Rightarrow> database \<Rightarrow> (string, string fset) fmap \<Rightarrow> database \<times> nat" where
  "Database_set_consensus env disk now db holders =
     (let (db, all) = Database_namespace_or_create env disk now db ALL_NAMESPACE;
          (all, n) = correct_counts (db_node db) now
             (map (\<lambda>(v, namespaces). (v, of_nat (fcard namespaces))) (sorted_list_of_fmap holders)) all 0;
          gone = filter (\<lambda>v. \<not> fm_contains holders v) (Namespace_value_names all);
          (all, n) = correct_counts (db_node db) now (map (\<lambda>v. (v, 0)) gone) all n;
          db = put_namespace db ALL_NAMESPACE all;
          db = (if n > 0 then Database_mark_dirty db ALL_NAMESPACE else db)
      in (db, n))"

definition Database_set_tags ::
  "'f env \<Rightarrow> 'f disk \<Rightarrow> datetime \<Rightarrow> database \<Rightarrow> string \<Rightarrow> string \<Rightarrow> string \<Rightarrow> database \<times> bool" where
  "Database_set_tags env disk now db path v given =
     (case Database_namespace env disk now db path of
        (db, None) \<Rightarrow> (db, False)
      | (db, Some ns) \<Rightarrow>
          let (ns, retagged) = Namespace_retag ns v given now; db = put_namespace db path ns
          in (if retagged then Database_mark_dirty db path else db, retagged))"

definition Database_create_namespace :: "'f env \<Rightarrow> 'f disk \<Rightarrow> datetime \<Rightarrow> database \<Rightarrow> string \<Rightarrow> database \<times> bool" where
  "Database_create_namespace env disk now db name =
     (if Database_namespace_exists db name then (db, False)
      else (Database_mark_dirty (fst (Database_namespace_or_create env disk now db name)) name, True))"

section \<open>Deleting and sweeping\<close>

definition Database_release_consensus :: "'f env \<Rightarrow> 'f disk \<Rightarrow> datetime \<Rightarrow> database \<Rightarrow> string \<Rightarrow> database" where
  "Database_release_consensus env disk now db v =
     (case Database_namespace env disk now db ALL_NAMESPACE of
        (db, None) \<Rightarrow> db
      | (db, Some all) \<Rightarrow> put_namespace db ALL_NAMESPACE (Namespace_release all (db_node db) v))"

definition uncatalogue :: "database \<Rightarrow> string \<Rightarrow> database" where
  "uncatalogue db name =
     (case fmlookup (db_shards db) (shard_of name) of
        None \<Rightarrow> db
      | Some meta \<Rightarrow> db\<lparr>db_shards := fmupd (shard_of name)
          (meta\<lparr>sm_namespaces := sm_namespaces meta |-| {|name|}\<rparr>) (db_shards db)\<rparr>)"

definition Database_delete :: "'f env \<Rightarrow> 'f disk \<Rightarrow> datetime \<Rightarrow> database \<Rightarrow> string \<Rightarrow> database \<times> bool" where
  "Database_delete env disk now db name =
     (case Database_namespace env disk now db name of
        (db, None) \<Rightarrow> (db, False)
      | (db, Some ns) \<Rightarrow>
          let values = Namespace_value_names ns;
              removed = fm_contains (db_namespaces db) name;
              db = db\<lparr>db_namespaces := fmdrop name (db_namespaces db)\<rparr>;
              db = (if removed then uncatalogue (Database_mark_dirty db name) name else db);
              db = (if removed \<and> counts_towards_consensus name
                    then fold (\<lambda>v db. Database_release_consensus env disk now db v) values db else db);
              db = (if removed then db\<lparr>db_latest := Latest_forget_namespace (db_latest db) name\<rparr> else db)
          in (db, removed))"

text \<open>One namespace of a sweep: what expired goes, its consensus is released, and the namespace is
  noted when that emptied it.\<close>

fun sweep_loop ::
  "'f env \<Rightarrow> 'f disk \<Rightarrow> datetime \<Rightarrow> string list \<Rightarrow> database \<Rightarrow> nat \<Rightarrow> string list \<Rightarrow> database \<times> nat \<times> string list" where
  "sweep_loop env disk now [] db removed emptied = (db, removed, emptied)"
| "sweep_loop env disk now (name # names) db removed emptied =
     (if starts_with name CONFIG_PREFIX then sweep_loop env disk now names db removed emptied
      else case fmlookup (db_namespaces db) name of
             None \<Rightarrow> sweep_loop env disk now names db removed emptied
           | Some ns \<Rightarrow>
               let (ns, expired) = Namespace_remove_expired ns now;
                   db = put_namespace db name ns;
                   db = (if expired \<noteq> [] then Database_mark_dirty db name else db);
                   emptied = (if expired \<noteq> [] \<and> Namespace_is_empty ns then emptied @ [name] else emptied);
                   db = (if counts_towards_consensus name
                         then fold (\<lambda>v db. Database_release_consensus env disk now db v) expired db else db)
               in sweep_loop env disk now names db (removed + length expired) emptied)"

fun prune_loop :: "(string \<Rightarrow> bool) \<Rightarrow> string list \<Rightarrow> (string, namespace) fmap \<Rightarrow> string list
    \<Rightarrow> (string, namespace) fmap \<times> string list" where
  "prune_loop busy [] m removed = (m, removed)"
| "prune_loop busy (name # names) m removed =
     (if starts_with name CONFIG_PREFIX then prune_loop busy names m removed
      else if (case fmlookup m name of None \<Rightarrow> False | Some ns \<Rightarrow> \<not> busy name \<and> Namespace_is_empty ns)
           then prune_loop busy names (fmdrop name m) (removed @ [name])
           else prune_loop busy names m removed)"

definition Database_prune_empty :: "(string \<Rightarrow> bool) \<Rightarrow> database \<Rightarrow> string list \<Rightarrow> database \<times> nat" where
  "Database_prune_empty busy db emptied =
     (if emptied = [] then (db, 0)
      else let (m, removed) = prune_loop busy emptied (db_namespaces db) [];
               db = db\<lparr>db_namespaces := m\<rparr>;
               db = fold (\<lambda>name db. uncatalogue db name) removed db
           in (db, length removed))"

definition Database_sweep ::
  "(string \<Rightarrow> bool) \<Rightarrow> 'f env \<Rightarrow> 'f disk \<Rightarrow> datetime \<Rightarrow> database \<Rightarrow> database \<times> sweep_report" where
  "Database_sweep busy env disk now db =
     (let (db, removed, emptied) = sweep_loop env disk now (fm_keys (db_namespaces db)) db 0 [];
          (db, pruned) = Database_prune_empty busy db emptied
      in (db, \<lparr>sr_values_removed = removed, sr_namespaces_removed = pruned\<rparr>))"

section \<open>Eviction\<close>

definition shard_names :: "database \<Rightarrow> string \<Rightarrow> string list" where
  "shard_names db shard = filter (\<lambda>name. shard_of name = shard) (fm_keys (db_namespaces db))"

definition Database_shards :: "database \<Rightarrow> string fset" where
  "Database_shards db = fset_of_list (map shard_of (fm_keys (db_namespaces db)))"

definition Database_take_dirty :: "database \<Rightarrow> database \<times> string fset" where
  "Database_take_dirty db = (db\<lparr>db_dirty := {||}\<rparr>, db_dirty db)"

definition Database_shard_snapshot :: "database \<Rightarrow> string \<Rightarrow> shard_data" where
  "Database_shard_snapshot db shard = \<lparr>sd_version = SNAPSHOT_VERSION,
     sd_namespaces = fmmap ns_values (fmfilter (\<lambda>name. shard_of name = shard) (db_namespaces db))\<rparr>"

definition save_shard :: "'f env \<Rightarrow> 'f disk \<Rightarrow> database \<Rightarrow> string \<Rightarrow> string \<Rightarrow> 'f disk \<times> (store_error + unit)" where
  "save_shard env disk db dbdir shard =
     (case write_shard env disk dbdir shard (Database_shard_snapshot db shard) of
        (disk, Inl e) \<Rightarrow> (disk, Inl e)
      | (disk, Inr _) \<Rightarrow> (disk, Inr ()))"

definition Database_drop_shard :: "(string \<Rightarrow> bool) \<Rightarrow> database \<Rightarrow> string \<Rightarrow> database \<times> bool" where
  "Database_drop_shard busy db shard =
     (let mine = shard_names db shard
      in if list_ex busy mine then (db, False)
         else let db = db\<lparr>db_namespaces := fold fmdrop mine (db_namespaces db)\<rparr>
              in (case fmlookup (db_shards db) shard of
                    None \<Rightarrow> db
                  | Some meta \<Rightarrow> db\<lparr>db_shards := fmupd shard (meta\<lparr>sm_resident := False\<rparr>) (db_shards db)\<rparr>, True))"

definition idle_shards :: "tier_policy \<Rightarrow> int \<Rightarrow> database \<Rightarrow> string list" where
  "idle_shards tiers now db =
     map fst (filter (\<lambda>(shard, meta). sm_resident meta \<and>
        (case TierPolicy_idle_allowance tiers shard of
           None \<Rightarrow> False
         | Some allowance \<Rightarrow> saturating_i64 (now - sm_last_access meta) \<ge> sint allowance))
       (sorted_list_of_fmap (db_shards db)))"

fun evict_loop :: "(string \<Rightarrow> bool) \<Rightarrow> 'f env \<Rightarrow> string \<Rightarrow> string list \<Rightarrow> 'f disk \<Rightarrow> database \<Rightarrow> evict_report
    \<Rightarrow> 'f disk \<times> database \<times> evict_report" where
  "evict_loop busy env dbdir [] disk db report = (disk, db, report)"
| "evict_loop busy env dbdir (shard # shards) disk db report =
     (let (disk, saved) = (if shard |\<in>| db_dirty db then save_shard env disk db dbdir shard else (disk, Inr ()))
      in case saved of
           Inl e \<Rightarrow> evict_loop busy env dbdir shards disk db (report\<lparr>er_failed := er_failed report + 1\<rparr>)
         | Inr _ \<Rightarrow>
             let db = db\<lparr>db_dirty := db_dirty db |-| {|shard|}\<rparr>;
                 (db, dropped) = Database_drop_shard busy db shard
             in evict_loop busy env dbdir shards disk db
                  (if dropped then report\<lparr>er_evicted := er_evicted report + 1\<rparr>
                   else report\<lparr>er_busy := er_busy report + 1\<rparr>))"

definition EvictReport_default :: evict_report where
  "EvictReport_default = \<lparr>er_evicted = 0, er_busy = 0, er_failed = 0\<rparr>"

definition Database_evict_idle ::
  "(string \<Rightarrow> bool) \<Rightarrow> 'f env \<Rightarrow> 'f disk \<Rightarrow> int \<Rightarrow> database \<Rightarrow> 'f disk \<times> database \<times> evict_report" where
  "Database_evict_idle busy env disk now db =
     (case db_store db of
        None \<Rightarrow> (disk, db, EvictReport_default)
      | Some st \<Rightarrow> evict_loop busy env (st_dbdir st) (idle_shards (db_tiers db) now db) disk db EvictReport_default)"

end
