(* ===== verification/Database_Laws.thy ===== *)
theory Database_Laws
  imports Database
begin

text \<open>
  What the operations of \<open>Database\<close> do to the database as a map of namespaces, wherever their values
  are: in memory or, for an evicted shard, in its file (\<open>contents\<close>); and the invariant that makes the
  two agree (\<open>db_inv\<close>). Reading, paging in, evicting and saving change nothing in this view; writing,
  merging and deleting change what they say.
\<close>

section \<open>The database as a map of namespaces\<close>

definition on_disk :: "'f env \<Rightarrow> 'f disk \<Rightarrow> database \<Rightarrow> string \<Rightarrow> shard_values" where
  "on_disk env disk db shard =
     (case db_store db of
        None \<Rightarrow> fmempty
      | Some st \<Rightarrow> (case read_shard_file env disk (st_dbdir st) shard of Inl e \<Rightarrow> fmempty | Inr data \<Rightarrow> data))"

text \<open>Nanoseconds are not part of the view (\<open>stored_attr\<close>): they do not survive a page out.\<close>

definition contents :: "'f env \<Rightarrow> 'f disk \<Rightarrow> database \<Rightarrow> string \<Rightarrow> (string, attribute) fmap option" where
  "contents env disk db name =
     (case fmlookup (db_namespaces db) name of
        Some ns \<Rightarrow> Some (fmmap stored_attr (ns_values ns))
      | None \<Rightarrow>
          if Database_catalogued db (shard_of name) name
          then map_option (fmmap stored_attr) (fmlookup (on_disk env disk db (shard_of name)) name)
          else None)"

text \<open>
  The invariant. Every namespace in memory is in a resident shard; the catalogue of a shard names
  exactly its namespaces; an evicted shard's file is readable and holds exactly the catalogued
  namespaces; a resident shard that is not dirty is on disk as it is in memory, the shards of \<open>X\<close>
  excepted, which are about to be marked dirty. Attributes carry no legacy fields, and the TTL flags
  are right.
\<close>

definition shard_sound :: "'f env \<Rightarrow> 'f disk \<Rightarrow> string set \<Rightarrow> database \<Rightarrow> string \<Rightarrow> shard_meta \<Rightarrow> bool" where
  "shard_sound env disk X db shard meta \<longleftrightarrow>
     (\<forall>n. n |\<in>| sm_namespaces meta \<longrightarrow> shard_of n = shard) \<and>
     (if sm_resident meta
      then (\<forall>n. shard_of n = shard \<longrightarrow> (n |\<in>| sm_namespaces meta \<longleftrightarrow> n \<in> fmdom' (db_namespaces db))) \<and>
           (db_store db \<noteq> None \<and> shard |\<notin>| db_dirty db \<and> shard \<notin> X \<longrightarrow>
             read_shard_file env disk (st_dbdir (the (db_store db))) shard =
               Inr (stored_values (sd_namespaces (Database_shard_snapshot db shard))))
      else db_store db \<noteq> None \<and>
           (\<exists>data. read_shard_file env disk (st_dbdir (the (db_store db))) shard = Inr (stored_values data) \<and>
              fmdom data = sm_namespaces meta))"

definition ns_sound :: "namespace \<Rightarrow> bool" where
  "ns_sound ns \<longleftrightarrow> ns_inv ns \<and>
     (\<forall>v a. fmlookup (ns_values ns) v = Some a \<longrightarrow> legacy_count a = 0 \<and> legacy_stats a = fmempty)"

definition db_inv_upto :: "'f env \<Rightarrow> 'f disk \<Rightarrow> string set \<Rightarrow> database \<Rightarrow> bool" where
  "db_inv_upto env disk X db \<longleftrightarrow>
     (\<forall>n \<in> fmdom' (db_namespaces db). shard_resident db (shard_of n)) \<and>
     (\<forall>shard meta. fmlookup (db_shards db) shard = Some meta \<longrightarrow> shard_sound env disk X db shard meta) \<and>
     (\<forall>n ns. fmlookup (db_namespaces db) n = Some ns \<longrightarrow> ns_sound ns)"

text \<open>
  The internal shard is always among the exceptions: \<open>release_consensus\<close> changes \<open>_all\<close> without marking
  it dirty. It is never evicted, so this costs nothing while the process runs.
\<close>

abbreviation db_inv :: "'f env \<Rightarrow> 'f disk \<Rightarrow> database \<Rightarrow> bool" where
  "db_inv env disk db \<equiv> db_inv_upto env disk {INTERNAL_SHARD} db"

section \<open>Plumbing\<close>

lemma stored_attr_simps [simp]:
  "stored_attr (stored_attr a) = stored_attr a"
  "Attribute_count (stored_attr a) = Attribute_count a" "ttl (stored_attr a) = ttl a"
  "Attribute_is_expired (stored_attr a) now = Attribute_is_expired a now"
  by (simp_all add: stored_attr_def whole_seconds_def Attribute_count_def Attribute_is_expired_def Attribute_expires_at_def)

lemma fmmap_stored_idem [simp]: "fmmap stored_attr (fmmap stored_attr m) = fmmap stored_attr m"
  by (rule fmap_ext) (auto simp: option.map_comp comp_def)

lemma stored_values_idem [simp]: "stored_values (stored_values m) = stored_values m"
  by (rule fmap_ext) (auto simp: stored_values_def option.map_comp comp_def)

lemma stored_values_lookup [simp]: "fmlookup (stored_values m) n = map_option (fmmap stored_attr) (fmlookup m n)"
  by (simp add: stored_values_def)

lemma snapshot_lookup [simp]:
  "fmlookup (sd_namespaces (Database_shard_snapshot db shard)) n =
     (if shard_of n = shard then map_option ns_values (fmlookup (db_namespaces db) n) else None)"
  by (simp add: Database_shard_snapshot_def)

lemma snapshot_cong:
  assumes "\<And>n. shard_of n = s \<Longrightarrow> fmlookup (db_namespaces db') n = fmlookup (db_namespaces db) n"
  shows "Database_shard_snapshot db' s = Database_shard_snapshot db s"
proof -
  have "sd_namespaces (Database_shard_snapshot db' s) = sd_namespaces (Database_shard_snapshot db s)"
    using assms by (intro fmap_ext) simp
  then show ?thesis by (simp add: Database_shard_snapshot_def)
qed

lemma shard_sound_cong:
  assumes "shard_sound env disk X db s meta"
    and "\<And>n. shard_of n = s \<Longrightarrow> fmlookup (db_namespaces db') n = fmlookup (db_namespaces db) n"
    and "db_store db' = db_store db" "s |\<in>| db_dirty db \<Longrightarrow> s |\<in>| db_dirty db' \<or> s \<in> X'" "s \<in> X \<Longrightarrow> s |\<in>| db_dirty db' \<or> s \<in> X'"
    and "sm_namespaces meta' = sm_namespaces meta" "sm_resident meta' = sm_resident meta"
    and "\<And>st. db_store db = Some st \<Longrightarrow> read_shard_file env disk' (st_dbdir st) s = read_shard_file env disk (st_dbdir st) s"
  shows "shard_sound env disk' X' db' s meta'"
proof -
  have "n \<in> fmdom' (db_namespaces db') \<longleftrightarrow> n \<in> fmdom' (db_namespaces db)" if "shard_of n = s" for n
    using assms(2) [OF that] by (simp add: fmlookup_dom'_iff)
  moreover have "Database_shard_snapshot db' s = Database_shard_snapshot db s"
    by (rule snapshot_cong) (rule assms(2))
  ultimately show ?thesis using assms(1,3-8) unfolding shard_sound_def by (cases "db_store db") auto
qed

lemma shard_sound_names: "shard_sound env disk X db s m \<Longrightarrow> n |\<in>| sm_namespaces m \<Longrightarrow> shard_of n = s"
  by (simp only: shard_sound_def)

lemma shard_sound_memory:
  "shard_sound env disk X db s m \<Longrightarrow> sm_resident m \<Longrightarrow> shard_of n = s \<Longrightarrow>
   n |\<in>| sm_namespaces m \<longleftrightarrow> n \<in> fmdom' (db_namespaces db)"
  by (simp only: shard_sound_def if_True)

lemma shard_sound_clean:
  "shard_sound env disk X db s m \<Longrightarrow> sm_resident m \<Longrightarrow> db_store db = Some st \<Longrightarrow> s |\<notin>| db_dirty db \<Longrightarrow> s \<notin> X \<Longrightarrow>
   read_shard_file env disk (st_dbdir st) s = Inr (stored_values (sd_namespaces (Database_shard_snapshot db s)))"
  unfolding shard_sound_def by (metis option.distinct(1) option.sel)

lemma shard_sound_residentI:
  assumes "\<And>n. n |\<in>| sm_namespaces m \<Longrightarrow> shard_of n = s" "sm_resident m"
    and "\<And>n. shard_of n = s \<Longrightarrow> n |\<in>| sm_namespaces m \<longleftrightarrow> n \<in> fmdom' (db_namespaces db)"
    and "\<And>st. db_store db = Some st \<Longrightarrow> s |\<notin>| db_dirty db \<Longrightarrow> s \<notin> X \<Longrightarrow>
       read_shard_file env disk (st_dbdir st) s = Inr (stored_values (sd_namespaces (Database_shard_snapshot db s)))"
  shows "shard_sound env disk X db s m"
  unfolding shard_sound_def using assms by (metis not_None_eq option.sel)

lemma touch_fields [simp]:
  "db_namespaces (Database_touch now db s) = db_namespaces db" "db_store (Database_touch now db s) = db_store db"
  "db_dirty (Database_touch now db s) = db_dirty db" "db_node (Database_touch now db s) = db_node db"
  "db_policy_of (Database_touch now db s) = db_policy_of db" "db_stores (Database_touch now db s) = db_stores db"
  by (simp_all add: Database_touch_def split: option.splits)

lemma touch_meta:
  "fmlookup (db_shards (Database_touch now db s)) s' =
     map_option (\<lambda>m. if s' = s then m\<lparr>sm_last_access := timestamp now\<rparr> else m) (fmlookup (db_shards db) s')"
  by (cases "fmlookup (db_shards db) s"; cases "fmlookup (db_shards db) s'") (auto simp: Database_touch_def)

lemma touch_derived [simp]:
  "Database_catalogued (Database_touch now db s) s' n = Database_catalogued db s' n"
  "shard_resident (Database_touch now db s) s' = shard_resident db s'"
  "Database_resident (Database_touch now db s) n = Database_resident db n"
  by (auto simp: Database_catalogued_def shard_resident_def Database_resident_def touch_meta split: option.splits)

lemma contents_cong:
  assumes "fmlookup (db_namespaces db') n = fmlookup (db_namespaces db) n"
    and "Database_catalogued db' (shard_of n) n = Database_catalogued db (shard_of n) n"
    and "db_store db' = db_store db"
    and "\<And>st. db_store db = Some st \<Longrightarrow>
       Database_catalogued db (shard_of n) n \<Longrightarrow> read_shard_file env disk' (st_dbdir st) (shard_of n) = read_shard_file env disk (st_dbdir st) (shard_of n)"
  shows "contents env disk' db' n = contents env disk db n"
  using assms by (simp add: contents_def on_disk_def split: option.splits)

lemma contents_touch [simp]: "contents env disk (Database_touch now db s) n = contents env disk db n"
  by (rule contents_cong) simp_all

lemma inv_touch:
  assumes "db_inv_upto env disk X db"
  shows "db_inv_upto env disk X (Database_touch now db s)"
proof -
  have "shard_sound env disk X (Database_touch now db s) s' meta"
    if m: "fmlookup (db_shards (Database_touch now db s)) s' = Some meta" for s' meta
  proof -
    obtain m where "fmlookup (db_shards db) s' = Some m" "sm_namespaces meta = sm_namespaces m" "sm_resident meta = sm_resident m"
      using m by (auto simp: touch_meta split: if_splits)
    moreover from this have "shard_sound env disk X db s' m" using assms by (simp add: db_inv_upto_def)
    ultimately show ?thesis by (elim shard_sound_cong) simp_all
  qed
  with assms show ?thesis by (simp add: db_inv_upto_def)
qed

subsection \<open>Paging in\<close>

lemma migrate_stored [simp]: "Attribute_migrate (stored_attr a) node = stored_attr a"
  by (simp add: migrate_idle stored_attr_def)

lemma from_stored_values:
  "ns_values (Namespace_from_values (fmmap stored_attr m) node) = fmmap stored_attr m"
  by (rule fmap_ext) (simp add: Namespace_from_values_def option.map_comp comp_def)

lemma from_stored_sound: "ns_sound (Namespace_from_values (fmmap stored_attr m) node)"
  unfolding ns_sound_def using ns_inv_from_values
  by (auto simp: from_stored_values stored_attr_def)

lemma not_resident_not_in_memory:
  assumes "db_inv_upto env disk X db" "\<not> shard_resident db (shard_of n)"
  shows "fmlookup (db_namespaces db) n = None"
  using assms by (auto simp: db_inv_upto_def fmlookup_dom'_iff)

text \<open>Changing one shard: the others stay sound.\<close>

lemma inv_one_shard:
  assumes inv: "db_inv_upto env disk X db"
    and metas: "\<And>s'. s' \<noteq> s \<Longrightarrow> fmlookup (db_shards db') s' = fmlookup (db_shards db) s'"
    and own: "fmlookup (db_shards db') s = Some meta" "sm_resident meta" "shard_sound env disk X' db' s meta"
    and other: "\<And>n. shard_of n \<noteq> s \<Longrightarrow> fmlookup (db_namespaces db') n = fmlookup (db_namespaces db) n"
    and sound: "\<And>n ns. shard_of n = s \<Longrightarrow> fmlookup (db_namespaces db') n = Some ns \<Longrightarrow> ns_sound ns"
    and rest: "db_store db' = db_store db" "\<And>s'. s' \<noteq> s \<Longrightarrow> s' |\<in>| db_dirty db \<or> s' \<in> X \<Longrightarrow> s' |\<in>| db_dirty db' \<or> s' \<in> X'"
  shows "db_inv_upto env disk X' db'"
proof -
  have "shard_resident db' (shard_of n)" if n: "n \<in> fmdom' (db_namespaces db')" for n
  proof (cases "shard_of n = s")
    case False
    then have "n \<in> fmdom' (db_namespaces db)" using n other by (simp add: fmlookup_dom'_iff)
    then show ?thesis using inv False metas by (simp add: db_inv_upto_def shard_resident_def)
  qed (simp add: shard_resident_def own)
  moreover have "shard_sound env disk X' db' s' m" if m: "fmlookup (db_shards db') s' = Some m" for s' m
  proof (cases "s' = s")
    case False
    then have "shard_sound env disk X db s' m" using inv m metas by (simp add: db_inv_upto_def)
    then show ?thesis by (rule shard_sound_cong) (use False in \<open>auto simp: other rest(1) dest: rest(2)\<close>)
  qed (use m own in simp)
  moreover have "ns_sound ns" if "fmlookup (db_namespaces db') n = Some ns" for n ns
    using that sound other inv by (cases "shard_of n = s") (auto simp: db_inv_upto_def)
  ultimately show ?thesis by (simp add: db_inv_upto_def)
qed

lemma page_in:
  assumes inv: "db_inv_upto env disk X db" and meta: "fmlookup (db_shards db) s = Some meta" and out: "\<not> sm_resident meta"
  shows "\<exists>db'. Database_page_in env disk now db s = Inr db' \<and> db_inv_upto env disk X db' \<and>
     shard_resident db' s \<and> (\<forall>n. contents env disk db' n = contents env disk db n) \<and>
     db_node db' = db_node db \<and> db_policy_of db' = db_policy_of db \<and> db_store db' = db_store db \<and> db_stores db' = db_stores db \<and> db_dirty db' = db_dirty db \<and>
     (\<forall>s'. s' \<noteq> s \<longrightarrow> fmlookup (db_shards db') s' = fmlookup (db_shards db) s') \<and>
     (\<forall>n. shard_of n \<noteq> s \<longrightarrow> fmlookup (db_namespaces db') n = fmlookup (db_namespaces db) n)"
proof -
  have sound: "shard_sound env disk X db s meta" using inv meta by (simp add: db_inv_upto_def)
  then obtain st data where st: "db_store db = Some st"
    and read: "read_shard_file env disk (st_dbdir st) s = Inr (stored_values data)"
    and dom: "fmdom data = sm_namespaces meta" and names: "\<And>n. n |\<in>| sm_namespaces meta \<Longrightarrow> shard_of n = s"
    using out by (auto simp: shard_sound_def)
  have notres: "\<not> shard_resident db s" using meta out by (simp add: shard_resident_def)
  define db' where "db' = db\<lparr>
     db_namespaces := db_namespaces db ++\<^sub>f fmmap (\<lambda>values. Namespace_from_values values (db_node db)) (stored_values data),
     db_shards := fmupd s (meta\<lparr>sm_namespaces := sm_namespaces meta |\<union>| fmdom (stored_values data),
        sm_resident := True, sm_last_access := timestamp now\<rparr>) (db_shards db)\<rparr>"
  have page: "Database_page_in env disk now db s = Inr db'"
    using st notres read meta by (simp add: Database_page_in_def db'_def fm_get_def)
  have dataD: "shard_of n = s" if "fmlookup data n = Some d" for n d
    using names dom that by (metis fmdomI)
  have mem: "fmlookup (db_namespaces db') n =
      (case fmlookup data n of
         None \<Rightarrow> fmlookup (db_namespaces db) n
       | Some d \<Rightarrow> Some (Namespace_from_values (fmmap stored_attr d) (db_node db)))" for n
    by (auto simp: db'_def fmadd.rep_eq map_add_def option.map_comp comp_def split: option.splits)
  have none: "fmlookup (db_namespaces db) n = None" if "shard_of n = s" for n
    using not_resident_not_in_memory [OF inv] notres that by blast
  have metas: "fmlookup (db_shards db') s' = (if s' = s then Some (meta\<lparr>sm_resident := True, sm_last_access := timestamp now\<rparr>)
      else fmlookup (db_shards db) s')" for s'
    by (simp add: db'_def stored_values_def dom)
  have store': "db_store db' = Some st" by (simp add: db'_def st)
  have other: "fmlookup (db_namespaces db') n = fmlookup (db_namespaces db) n" if "shard_of n \<noteq> s" for n
    using dataD that by (auto simp: mem split: option.splits)
  have domn: "n |\<in>| sm_namespaces meta \<longleftrightarrow> fmlookup data n \<noteq> None" for n
    by (metis dom fmdomI fmdom_notI not_None_eq)
  have cont: "contents env disk db' n = contents env disk db n" for n
  proof (cases "shard_of n = s")
    case False
    then show ?thesis by (intro contents_cong other) (simp_all add: Database_catalogued_def metas db'_def)
  next
    case True
    have od: "on_disk env disk db s = stored_values data" by (simp add: on_disk_def st read)
    have cat: "Database_catalogued db s n \<longleftrightarrow> fmlookup data n \<noteq> None"
      using meta out domn by (simp add: Database_catalogued_def)
    show ?thesis
      using none [OF True] True od cat metas
      by (auto simp: contents_def mem from_stored_values Database_catalogued_def [of db'] split: option.splits)
  qed
  have memn: "n \<in> fmdom' (db_namespaces db') \<longleftrightarrow> fmlookup data n \<noteq> None" if "shard_of n = s" for n
    using none [OF that] by (simp add: fmlookup_dom'_iff mem split: option.splits)
  have snap: "stored_values (sd_namespaces (Database_shard_snapshot db' s)) = stored_values data"
    by (rule fmap_ext) (auto simp: mem none from_stored_values dest: dataD split: option.splits)
  have "shard_sound env disk X db' s (meta\<lparr>sm_resident := True, sm_last_access := timestamp now\<rparr>)"
    unfolding shard_sound_def by (simp add: names store' read snap domn memn)
  then have inv': "db_inv_upto env disk X db'"
  proof (intro inv_one_shard [OF inv])
    show "ns_sound ns" if "shard_of n = s" "fmlookup (db_namespaces db') n = Some ns" for n ns
      using that none by (auto simp: mem from_stored_sound split: option.splits)
    show "s' |\<in>| db_dirty db' \<or> s' \<in> X" if "s' |\<in>| db_dirty db \<or> s' \<in> X" for s'
      using that by (simp add: db'_def)
  qed (simp_all add: metas other store' st)
  show ?thesis
  proof (intro exI [of _ db'] conjI allI impI)
    show "shard_resident db' s" by (simp add: shard_resident_def metas)
  qed (simp_all add: page cont metas other inv' store' st, simp_all add: db'_def)
qed

subsection \<open>Finding, creating and replacing a namespace\<close>

definition same_setup :: "database \<Rightarrow> database \<Rightarrow> bool" where
  "same_setup db' db \<longleftrightarrow> db_node db' = db_node db \<and> db_policy_of db' = db_policy_of db \<and> db_store db' = db_store db \<and>
     db_stores db' = db_stores db"

lemma same_setup_refl [simp]: "same_setup db db"
  by (simp add: same_setup_def)

lemma same_setup_trans: "same_setup c b \<Longrightarrow> same_setup b a \<Longrightarrow> same_setup c a"
  by (simp add: same_setup_def)

lemma inv_mono: "db_inv_upto env disk X db \<Longrightarrow> X \<subseteq> Y \<Longrightarrow> db_inv_upto env disk Y db"
  unfolding db_inv_upto_def shard_sound_def by (meson subsetD)

lemma namespace_finds:
  assumes inv: "db_inv_upto env disk X db" and found: "Database_namespace env disk now db name = (db', r)"
  shows "db_inv_upto env disk X db'" "contents env disk db' n = contents env disk db n"
    "r = fmlookup (db_namespaces db') name"
    "contents env disk db name = map_option (\<lambda>ns. fmmap stored_attr (ns_values ns)) r"
    "same_setup db' db" "db_dirty db' = db_dirty db"
    "r = None \<Longrightarrow> \<not> (\<exists>meta. fmlookup (db_shards db') (shard_of name) = Some meta \<and> name |\<in>| sm_namespaces meta)"
proof -
  let ?s = "shard_of name" let ?db = "Database_touch now db (shard_of name)"
  note invt = inv_touch [OF inv, of now ?s]
  have all: "db_inv_upto env disk X db' \<and> contents env disk db' n = contents env disk db n \<and>
    r = fmlookup (db_namespaces db') name \<and>
    contents env disk db name = map_option (\<lambda>ns. fmmap stored_attr (ns_values ns)) r \<and>
    same_setup db' db \<and> db_dirty db' = db_dirty db \<and>
    (r = None \<longrightarrow> \<not> (\<exists>meta. fmlookup (db_shards db') ?s = Some meta \<and> name |\<in>| sm_namespaces meta))"
  proof (cases "fmlookup (db_namespaces db) name")
    case (Some ns)
    then have "db' = ?db" "r = Some ns" using found by (auto simp: Database_namespace_def Let_def Database_resident_def)
    then show ?thesis using Some invt by (simp add: same_setup_def contents_def [of env disk db name])
  next
    case None
    show ?thesis
    proof (cases "Database_catalogued db ?s name")
      case False
      then have eq: "db' = ?db" "r = None"
        using found None by (auto simp: Database_namespace_def Let_def Database_resident_def)
      have "name |\<notin>| sm_namespaces meta" if m: "fmlookup (db_shards db') ?s = Some meta" for meta
      proof
        assume mem: "name |\<in>| sm_namespaces meta"
        obtain m0 where m0: "fmlookup (db_shards db) ?s = Some m0" "sm_namespaces m0 = sm_namespaces meta"
          using m unfolding eq by (auto simp: touch_meta)
        with False mem have "sm_resident m0" by (simp add: Database_catalogued_def)
        moreover have "shard_sound env disk X db ?s m0" using inv m0 by (simp add: db_inv_upto_def)
        ultimately show False using mem m0 None shard_sound_memory [of env disk X db ?s m0 name]
          by (simp add: fmlookup_dom'_iff)
      qed
      then show ?thesis using None False invt by (simp add: eq same_setup_def contents_def [of env disk db name])
    next
      case True
      then obtain meta where m: "fmlookup (db_shards ?db) ?s = Some meta" "\<not> sm_resident meta" "name |\<in>| sm_namespaces meta"
        by (auto simp: Database_catalogued_def touch_meta split: option.splits)
      obtain db2 where p: "Database_page_in env disk now ?db ?s = Inr db2" "db_inv_upto env disk X db2" "shard_resident db2 ?s"
        "\<And>n. contents env disk db2 n = contents env disk db n" "same_setup db2 db" "db_dirty db2 = db_dirty db"
        using page_in [OF invt m(1,2), of now] by (auto simp: same_setup_def)
      have eq: "db' = db2" "r = fmlookup (db_namespaces db2) name"
        using found None True p(1) by (auto simp: Database_namespace_def Let_def Database_resident_def)
      have "contents env disk db2 name = map_option (\<lambda>ns. fmmap stored_attr (ns_values ns)) (fmlookup (db_namespaces db2) name)"
        using p(3) by (auto simp: contents_def Database_catalogued_def shard_resident_def split: option.splits)
      moreover have "\<not> (\<exists>meta. fmlookup (db_shards db2) ?s = Some meta \<and> name |\<in>| sm_namespaces meta)"
        if "fmlookup (db_namespaces db2) name = None"
      proof (intro notI, elim exE conjE)
        fix m assume m: "fmlookup (db_shards db2) ?s = Some m" "name |\<in>| sm_namespaces m"
        then have "sm_resident m" "shard_sound env disk X db2 ?s m"
          using p(2,3) by (simp_all add: shard_resident_def db_inv_upto_def)
        then show False using m(2) that shard_sound_memory [of env disk X db2 ?s m name] by (simp add: fmlookup_dom'_iff)
      qed
      ultimately show ?thesis using p eq by simp
    qed
  qed
  then show "db_inv_upto env disk X db'" "contents env disk db' n = contents env disk db n"
    "r = fmlookup (db_namespaces db') name"
    "contents env disk db name = map_option (\<lambda>ns. fmmap stored_attr (ns_values ns)) r"
    "same_setup db' db" "db_dirty db' = db_dirty db"
    "r = None \<Longrightarrow> \<not> (\<exists>meta. fmlookup (db_shards db') (shard_of name) = Some meta \<and> name |\<in>| sm_namespaces meta)"
    by auto
qed

lemma put_in_memory:
  assumes inv: "db_inv_upto env disk X db" and mem: "fmlookup (db_namespaces db) name = Some ns0" and ns: "ns_sound ns"
    and dirty: "shard_of name \<in> X \<or> shard_of name |\<in>| db_dirty db"
  shows "db_inv_upto env disk X (put_namespace db name ns)"
    "contents env disk (put_namespace db name ns) =
       (contents env disk db)(name := Some (fmmap stored_attr (ns_values ns)))"
    "same_setup (put_namespace db name ns) db"
proof -
  let ?s = "shard_of name"
  have res: "shard_resident db ?s" using inv mem by (auto simp: db_inv_upto_def fmlookup_dom'_iff)
  then obtain meta where meta: "fmlookup (db_shards db) ?s = Some meta" "sm_resident meta"
    by (auto simp: shard_resident_def split: option.splits)
  have sound: "shard_sound env disk X db ?s meta" using inv meta by (simp add: db_inv_upto_def)
  have dom: "n \<in> fmdom' (db_namespaces (put_namespace db name ns)) \<longleftrightarrow> n \<in> fmdom' (db_namespaces db)" for n
    using mem by (auto simp: put_namespace_def fmlookup_dom'_iff)
  have f: "db_store (put_namespace db name ns) = db_store db" "db_dirty (put_namespace db name ns) = db_dirty db"
    by (simp_all add: put_namespace_def)
  have "shard_sound env disk X (put_namespace db name ns) ?s meta"
  proof (rule shard_sound_residentI)
    show "n |\<in>| sm_namespaces meta \<longleftrightarrow> n \<in> fmdom' (db_namespaces (put_namespace db name ns))" if "shard_of n = ?s" for n
      using shard_sound_memory [OF sound meta(2) that] by (simp only: dom)
  qed (use dirty f meta(2) shard_sound_names [OF sound] in auto)
  then show "db_inv_upto env disk X (put_namespace db name ns)"
  proof (intro inv_one_shard [OF inv, of ?s])
    show "ns_sound ns'" if "shard_of n = ?s" "fmlookup (db_namespaces (put_namespace db name ns)) n = Some ns'" for n ns'
      using that ns inv by (auto simp: put_namespace_def db_inv_upto_def split: if_splits)
  qed (auto simp: put_namespace_def meta)
  show "contents env disk (put_namespace db name ns) =
       (contents env disk db)(name := Some (fmmap stored_attr (ns_values ns)))"
  proof
    fix n
    show "contents env disk (put_namespace db name ns) n =
       ((contents env disk db)(name := Some (fmmap stored_attr (ns_values ns)))) n"
    proof (cases "n = name")
      case False
      then have "contents env disk (put_namespace db name ns) n = contents env disk db n"
        by (intro contents_cong) (simp_all add: put_namespace_def Database_catalogued_def)
      with False show ?thesis by simp
    qed (simp add: contents_def put_namespace_def)
  qed
  show "same_setup (put_namespace db name ns) db" by (simp add: same_setup_def put_namespace_def)
qed

lemma mark_dirty:
  assumes "db_inv_upto env disk (insert (shard_of p) X) db"
  shows "db_inv_upto env disk X (Database_mark_dirty db p)"
    "contents env disk (Database_mark_dirty db p) = contents env disk db"
    "same_setup (Database_mark_dirty db p) db"
    "db_namespaces (Database_mark_dirty db p) = db_namespaces db"
proof -
  let ?db = "Database_mark_dirty db p"
  have f: "db_namespaces ?db = db_namespaces db" "db_shards ?db = db_shards db" "db_store ?db = db_store db"
    "db_dirty ?db = finsert (shard_of p) (db_dirty db)"
    by (simp_all add: Database_mark_dirty_def Database_mark_shard_dirty_def)
  have "shard_sound env disk X ?db s m" if "fmlookup (db_shards db) s = Some m" for s m
  proof -
    have "shard_sound env disk (insert (shard_of p) X) db s m" using assms that by (simp add: db_inv_upto_def)
    then show ?thesis by (rule shard_sound_cong) (auto simp: f)
  qed
  then show "db_inv_upto env disk X ?db" using assms by (simp add: db_inv_upto_def f shard_resident_def)
  show "contents env disk ?db = contents env disk db"
    by (rule ext, rule contents_cong) (simp_all add: f Database_catalogued_def)
  show "same_setup ?db db" by (simp add: same_setup_def f) (simp add: Database_mark_dirty_def Database_mark_shard_dirty_def)
  show "db_namespaces ?db = db_namespaces db" by (rule f)
qed

lemma contents_in_memory: "fmlookup (db_namespaces db) n = Some ns \<Longrightarrow> contents env disk db n = Some (fmmap stored_attr (ns_values ns))"
  by (simp add: contents_def)

lemma default_sound: "ns_sound Namespace_default"
  by (simp add: ns_sound_def ns_inv_def Namespace_default_def)

text \<open>Registering a namespace that nobody holds, in a shard that is in memory or new.\<close>

lemma register_new:
  assumes inv: "db_inv_upto env disk X db" and new: "contents env disk db name = None"
    and res: "\<And>m. fmlookup (db_shards db) (shard_of name) = Some m \<Longrightarrow> sm_resident m"
    and db'_def: "db' = Database_record now (put_namespace db name Namespace_default) name"
  shows "db_inv_upto env disk (insert (shard_of name) X) db'"
    "contents env disk db' = (contents env disk db)(name := Some fmempty)"
    "fmlookup (db_namespaces db') name = Some Namespace_default"
    "same_setup db' db" "db_dirty db' = db_dirty db"
proof -
  let ?s = "shard_of name"
  let ?held = "fm_get ShardMeta_default (db_shards db) ?s"
  let ?meta = "?held\<lparr>sm_namespaces := finsert name (sm_namespaces ?held), sm_resident := True, sm_last_access := timestamp now\<rparr>"
  have f: "db_namespaces db' = fmupd name Namespace_default (db_namespaces db)" "db_store db' = db_store db"
    "db_dirty db' = db_dirty db" "db_shards db' = fmupd ?s ?meta (db_shards db)"
    by (simp_all add: db'_def Database_record_def put_namespace_def Let_def)
  have old: "n |\<in>| sm_namespaces ?held \<longleftrightarrow> n \<in> fmdom' (db_namespaces db)" if "shard_of n = ?s" for n
  proof (cases "fmlookup (db_shards db) ?s")
    case None
    then have "n \<notin> fmdom' (db_namespaces db)" using inv that by (auto simp: db_inv_upto_def shard_resident_def)
    with None show ?thesis by (simp add: fm_get_def ShardMeta_default_def)
  next
    case (Some m)
    then have "shard_sound env disk X db ?s m" using inv by (simp add: db_inv_upto_def)
    with Some res that show ?thesis by (simp add: fm_get_def shard_sound_memory)
  qed
  have names: "shard_of n = ?s" if n: "n |\<in>| sm_namespaces ?held" for n
  proof (cases "fmlookup (db_shards db) ?s")
    case None
    with n show ?thesis by (simp add: fm_get_def ShardMeta_default_def)
  next
    case (Some m)
    then have "shard_sound env disk X db ?s m" using inv by (simp add: db_inv_upto_def)
    with Some n show ?thesis by (simp add: fm_get_def shard_sound_names)
  qed
  have "shard_sound env disk (insert ?s X) db' ?s ?meta"
  proof (rule shard_sound_residentI)
    show "shard_of n = ?s" if "n |\<in>| sm_namespaces ?meta" for n using that names by auto
    show "n |\<in>| sm_namespaces ?meta \<longleftrightarrow> n \<in> fmdom' (db_namespaces db')" if "shard_of n = ?s" for n
      using old [OF that] by (simp add: f)
  qed simp_all
  then show "db_inv_upto env disk (insert ?s X) db'"
  proof (intro inv_one_shard [OF inv, of ?s])
    show "ns_sound ns" if "fmlookup (db_namespaces db') n = Some ns" for n ns
      using that inv default_sound by (auto simp: f db_inv_upto_def split: if_splits)
  qed (auto simp: f)
  show "contents env disk db' = (contents env disk db)(name := Some fmempty)"
  proof
    fix n
    show "contents env disk db' n = ((contents env disk db)(name := Some fmempty)) n"
    proof (cases "n = name")
      case False
      have "Database_catalogued db' (shard_of n) n = Database_catalogued db (shard_of n) n"
        using res by (cases "shard_of n = ?s") (simp_all add: Database_catalogued_def f split: option.split)
      then have "contents env disk db' n = contents env disk db n"
        using False by (intro contents_cong) (simp_all add: f)
      with False show ?thesis by simp
    qed (simp add: contents_def f Namespace_default_def)
  qed
  show "fmlookup (db_namespaces db') name = Some Namespace_default" by (simp add: f)
  show "same_setup db' db" by (simp add: same_setup_def db'_def Database_record_def put_namespace_def Let_def)
  show "db_dirty db' = db_dirty db" by (simp add: f)
qed

lemma namespace_or_create:
  assumes inv: "db_inv_upto env disk X db" and eq: "Database_namespace_or_create env disk now db name = (db', ns)"
  shows "db_inv_upto env disk (insert (shard_of name) X) db' \<and> fmlookup (db_namespaces db') name = Some ns \<and> ns_sound ns \<and>
    contents env disk db' = (contents env disk db)(name := Some (fmmap stored_attr (ns_values ns))) \<and>
    fmmap stored_attr (ns_values ns) = (case contents env disk db name of None \<Rightarrow> fmempty | Some m \<Rightarrow> m) \<and>
    same_setup db' db \<and> db_dirty db' = db_dirty db"
proof -
  let ?s = "shard_of name"
  obtain db1 r where found: "Database_namespace env disk now db name = (db1, r)" by fastforce
  note n = namespace_finds [OF inv found]
  show ?thesis
  proof (cases r)
    case (Some ns1)
    then have e: "db' = db1" "ns = ns1" using eq found by (auto simp: Database_namespace_or_create_def)
    have "db_inv_upto env disk (insert ?s X) db1" using n(1) by (rule inv_mono) auto
    moreover have "ns_sound ns1" using n(1,3) Some by (simp add: db_inv_upto_def)
    moreover have "contents env disk db1 = (contents env disk db)(name := Some (fmmap stored_attr (ns_values ns1)))"
      using n(2,4) Some by (intro ext) simp
    moreover have "contents env disk db name = Some (fmmap stored_attr (ns_values ns1))" using n(4) Some by simp
    ultimately show ?thesis using n(3,5,6) Some e by simp
  next
    case None
    let ?evicted = "case fmlookup (db_shards db1) ?s of None \<Rightarrow> False | Some meta \<Rightarrow> \<not> sm_resident meta"
    define db2 where "db2 = (if ?evicted
                    then (case Database_page_in env disk now db1 ?s of Inl e \<Rightarrow> db1 | Inr db \<Rightarrow> db) else db1)"
    have p: "db_inv_upto env disk X db2 \<and> (\<forall>n. contents env disk db2 n = contents env disk db1 n) \<and>
        (\<forall>m. fmlookup (db_shards db2) ?s = Some m \<longrightarrow> sm_resident m) \<and> same_setup db2 db1 \<and> db_dirty db2 = db_dirty db1"
    proof (cases ?evicted)
      case False
      then show ?thesis using n(1) by (auto simp: db2_def split: option.splits)
    next
      case True
      then obtain meta where m: "fmlookup (db_shards db1) ?s = Some meta" "\<not> sm_resident meta" by (auto split: option.splits)
      from page_in [OF n(1) m, of now] show ?thesis using True
        by (auto simp: db2_def same_setup_def shard_resident_def split: option.splits)
    qed
    have new: "contents env disk db2 name = None" using p n(2,4) None by simp
    then have mem: "fmlookup (db_namespaces db2) name = None" by (auto simp: contents_def split: option.splits)
    have e: "db' = Database_record now (put_namespace db2 name Namespace_default) name" "ns = Namespace_default"
      using eq found None mem by (auto simp: Database_namespace_or_create_def Let_def db2_def [symmetric] put_namespace_def)
    have "\<And>m. fmlookup (db_shards db2) ?s = Some m \<Longrightarrow> sm_resident m" using p by blast
    note reg = register_new [OF conjunct1 [OF p] new this e(1)]
    have "contents env disk db2 = contents env disk db" using p n(2) by (intro ext) simp
    moreover have "fmmap stored_attr (ns_values Namespace_default) = fmempty" by (simp add: Namespace_default_def)
    ultimately show ?thesis
      using reg p n(4-6) None by (auto simp: e(2) default_sound intro: same_setup_trans)
  qed
qed

section \<open>Writing\<close>

subsection \<open>A sighting does not see nanoseconds\<close>

lemma whole_min [simp]: "whole_seconds (min t (whole_seconds f)) = whole_seconds (min t f)"
  by (cases t; cases f) (auto simp: whole_seconds_def less_eq_datetime_def min_def)

lemma whole_max [simp]: "whole_seconds (max t (whole_seconds f)) = whole_seconds (max t f)"
  by (cases t; cases f) (auto simp: whole_seconds_def less_eq_datetime_def max_def)

lemma whole_whole [simp]: "whole_seconds (whole_seconds t) = whole_seconds t"
  by (simp add: whole_seconds_def)

lemma stats_increment_cong:
  assumes "stats a = stats b"
  shows "stats (Attribute_increment a n t k) = stats (Attribute_increment b n t k)"
proof -
  have m: "stats (Attribute_make_stats x n t) =
      (let buckets = fm_get fmempty (stats x) n in fmupd n (fmupd (bucket_of t) (fm_get0 buckets (bucket_of t) + 1) buckets) (stats x))" for x
    by (simp add: Attribute_make_stats_def Let_def)
  have tr: "stats (Attribute_trim_stats x n k) = stats (Attribute_trim_stats y n k)" if "stats x = stats y" for x y
    using that by (simp add: Attribute_trim_stats_def Let_def split: option.split)
  have inc: "stats (Attribute_increment x n t k) = stats (Attribute_trim_stats (Attribute_make_stats x n t) n k)" for x
    unfolding Attribute_increment_def Let_def by (simp, intro impI conjI tr) (simp_all add: m)
  show ?thesis unfolding inc by (rule tr) (simp add: m assms)
qed

lemma increment_more [simp]:
  "tags_at (Attribute_increment a n t k) = tags_at a"
  "legacy_count (Attribute_increment a n t k) = legacy_count a"
  "legacy_stats (Attribute_increment a n t k) = legacy_stats a"
  by (auto simp: Attribute_increment_def Attribute_trim_stats_def Attribute_make_stats_def Let_def split: option.split)

lemma tags_add_tags_cong: "tags a = tags b \<Longrightarrow> tags (Attribute_add_tags a g) = tags (Attribute_add_tags b g)"
  by (simp add: Attribute_add_tags_def Let_def)

lemma sight_fields:
  "attr_value (sight a n t x k g) = attr_value a" "tags_at (sight a n t x k g) = tags_at a"
  "legacy_count (sight a n t x k g) = legacy_count a" "legacy_stats (sight a n t x k g) = legacy_stats a"
  "tags (sight a n t x k g) = (if g = [] then tags a else tags (Attribute_add_tags a g))"
  "counts (sight a n t x k g) = fmupd n (fm_get0 (counts a) n + 1) (counts a)"
  "stats (sight a n t x k g) = stats (Attribute_increment a n t k)"
  "first_seen (sight a n t x k g) = (if Attribute_count a = 0 then t else min t (first_seen a))"
  "last_seen (sight a n t x k g) = (if Attribute_count a = 0 then t else max t (last_seen a))"
  by (auto simp: sight_def Let_def Attribute_set_ttl_def counts_increment seen_increment Attribute_count_def
      intro: stats_increment_cong tags_add_tags_cong split: option.splits)

lemma sight_stored: "stored_attr (sight (stored_attr a) n t x k g) = stored_attr (sight a n t x k g)"
proof -
  have f: "attr_value (stored_attr a) = attr_value a" "tags_at (stored_attr a) = tags_at a" "tags (stored_attr a) = tags a"
    "counts (stored_attr a) = counts a" "stats (stored_attr a) = stats a"
    "first_seen (stored_attr a) = whole_seconds (first_seen a)" "last_seen (stored_attr a) = whole_seconds (last_seen a)"
    for a by (simp_all add: stored_attr_def)
  have "stats (Attribute_increment (stored_attr a) n t k) = stats (Attribute_increment a n t k)"
    by (rule stats_increment_cong) (simp add: f)
  moreover have "tags (Attribute_add_tags (stored_attr a) g) = tags (Attribute_add_tags a g)"
    by (rule tags_add_tags_cong) (simp add: f)
  moreover have "ttl (sight (stored_attr a) n t x k g) = ttl (sight a n t x k g)" by (simp add: ttl_sight split: option.split)
  ultimately show ?thesis
    by (intro attribute.equality) (simp_all add: f sight_fields, simp_all add: stored_attr_def sight_fields)
qed

lemma stored_new [simp]: "stored_attr (Attribute_new v) = Attribute_new v"
  by (simp add: stored_attr_def Attribute_new_def whole_seconds_def UNIX_EPOCH_def)

lemma fm_get_stored: "fm_get (Attribute_new v) (fmmap stored_attr m) w = stored_attr (fm_get (Attribute_new v) m w)"
  by (simp add: fm_get_def split: option.splits)

subsection \<open>What a write does\<close>

definition values_of :: "(string \<Rightarrow> (string, attribute) fmap option) \<Rightarrow> string \<Rightarrow> (string, attribute) fmap" where
  "values_of C name = (case C name of None \<Rightarrow> fmempty | Some m \<Rightarrow> m)"

definition sighted ::
  "(string \<Rightarrow> (string, attribute) fmap option) \<Rightarrow> string \<Rightarrow> string \<Rightarrow> string \<Rightarrow> datetime \<Rightarrow> u64 option \<Rightarrow> nat \<Rightarrow> string
    \<Rightarrow> string \<Rightarrow> (string, attribute) fmap option" where
  "sighted C node path v when t retention given = C(path := Some
     (fmupd v (stored_attr (sight (fm_get (Attribute_new v) (values_of C path) v) node when t retention given)) (values_of C path)))"

definition count_in :: "(string \<Rightarrow> (string, attribute) fmap option) \<Rightarrow> string \<Rightarrow> string \<Rightarrow> datetime \<Rightarrow> u64" where
  "count_in C name v now =
     (case fmlookup (values_of C name) v of
        None \<Rightarrow> 0 | Some a \<Rightarrow> if Attribute_is_expired a now then 0 else Attribute_count a)"

lemma count_reads:
  assumes inv: "db_inv_upto env disk X db" and eq: "Database_count env disk now db path v = (db', c)"
  shows "db_inv_upto env disk X db' \<and> contents env disk db' = contents env disk db \<and> same_setup db' db \<and>
    db_dirty db' = db_dirty db \<and> c = count_in (contents env disk db) path v now"
proof -
  obtain db1 r where found: "Database_namespace env disk now db path = (db1, r)" by fastforce
  note n = namespace_finds [OF inv found]
  have e: "db' = db1" "c = (case r of None \<Rightarrow> 0 | Some ns \<Rightarrow> Namespace_count ns v now)"
    using eq found by (auto simp: Database_count_def split: option.splits)
  have "c = count_in (contents env disk db) path v now"
    unfolding e count_in_def values_of_def n(4)
    by (auto simp: Namespace_count_def split: option.splits)
  then show ?thesis using n e by auto
qed

lemma record_sound: "ns_sound ns \<Longrightarrow> ns_sound (fst (Namespace_record ns n v t x k g))"
  unfolding ns_sound_def
  by (auto simp: ns_inv_record) (auto simp: Namespace_record_simp Let_def sight_fields fm_get_def Attribute_new_def split: if_splits option.splits)

lemma write_step:
  assumes inv: "db_inv_upto env disk X db"
    and noc: "Database_namespace_or_create env disk now db path = (db1, ns)"
    and rec: "Namespace_record ns node v when t k g = (ns', n, is_new, view)"
  defines "C \<equiv> contents env disk db"
  shows "db_inv_upto env disk (insert (shard_of path) X) (put_namespace db1 path ns')"
    "contents env disk (put_namespace db1 path ns') = sighted C node path v when t k g"
    "same_setup (put_namespace db1 path ns') db"
    "n = Attribute_count (fm_get (Attribute_new v) (values_of C path) v) + 1"
    "is_new \<longleftrightarrow> fmlookup (values_of C path) v = None"
proof -
  have s: "db_inv_upto env disk (insert (shard_of path) X) db1" "fmlookup (db_namespaces db1) path = Some ns" "ns_sound ns"
    "contents env disk db1 = C(path := Some (fmmap stored_attr (ns_values ns)))"
    "fmmap stored_attr (ns_values ns) = values_of C path" "same_setup db1 db"
    using namespace_or_create [OF inv noc] by (simp_all add: C_def values_of_def)
  have sound: "ns_sound ns'" using record_sound [OF s(3), of node v "when" t k g] rec by simp
  let ?a = "sight (fm_get (Attribute_new v) (ns_values ns) v) node when t k g"
  have ns': "ns_values ns' = fmupd v ?a (ns_values ns)" "n = Attribute_count ?a" "is_new = (\<not> fm_contains (ns_values ns) v)"
    using rec by (auto simp: Namespace_record_simp Let_def)
  have get: "fm_get (Attribute_new v) (values_of C path) v = stored_attr (fm_get (Attribute_new v) (ns_values ns) v)"
    unfolding s(5) [symmetric] by (rule fm_get_stored)
  have vals: "fmmap stored_attr (ns_values ns') =
      fmupd v (stored_attr (sight (fm_get (Attribute_new v) (values_of C path) v) node when t k g)) (values_of C path)"
    unfolding s(5) [symmetric] by (rule fmap_ext) (simp add: ns' fm_get_stored sight_stored)
  have "shard_of path \<in> insert (shard_of path) X \<or> shard_of path |\<in>| db_dirty db1" by simp
  note put = put_in_memory [OF s(1,2) sound this]
  show "db_inv_upto env disk (insert (shard_of path) X) (put_namespace db1 path ns')" by (rule put)
  show "contents env disk (put_namespace db1 path ns') = sighted C node path v when t k g"
    by (simp add: put(2) s(4) sighted_def vals)
  show "same_setup (put_namespace db1 path ns') db" using put(3) s(6) by (rule same_setup_trans)
  show "n = Attribute_count (fm_get (Attribute_new v) (values_of C path) v) + 1" by (simp add: ns' get)
  show "is_new \<longleftrightarrow> fmlookup (values_of C path) v = None"
    by (simp add: ns' fm_contains_def s(5) [symmetric])
qed

lemma write_tail:
  assumes "db_inv_upto env disk (insert (shard_of path) X) db"
  shows "db_inv_upto env disk X (Database_mark_dirty (fst (Database_count env disk now db ALL_NAMESPACE v)) path)"
    "contents env disk (Database_mark_dirty (fst (Database_count env disk now db ALL_NAMESPACE v)) path) = contents env disk db"
    "same_setup (Database_mark_dirty (fst (Database_count env disk now db ALL_NAMESPACE v)) path) db"
proof -
  obtain db2 c where cnt: "Database_count env disk now db ALL_NAMESPACE v = (db2, c)" by fastforce
  note rd = count_reads [OF assms cnt]
  show "db_inv_upto env disk X (Database_mark_dirty (fst (Database_count env disk now db ALL_NAMESPACE v)) path)"
    "contents env disk (Database_mark_dirty (fst (Database_count env disk now db ALL_NAMESPACE v)) path) = contents env disk db"
    "same_setup (Database_mark_dirty (fst (Database_count env disk now db ALL_NAMESPACE v)) path) db"
    using mark_dirty [of env disk path X db2] rd by (auto simp: cnt intro: same_setup_trans)
qed

definition sighted_by :: "database \<Rightarrow> (string \<Rightarrow> (string, attribute) fmap option) \<Rightarrow> string \<Rightarrow> string \<Rightarrow> string \<Rightarrow> datetime
    \<Rightarrow> write_opts \<Rightarrow> string \<Rightarrow> string \<Rightarrow> (string, attribute) fmap option" where
  "sighted_by db C node path v when opts given =
     sighted C node path v when (write_ttl (db_policy_of db) path opts) (stats_retention (db_policy_of db)) given"

lemma sighted_by_cong: "same_setup db' db \<Longrightarrow> sighted_by db' = sighted_by db"
  by (intro ext) (simp add: sighted_by_def same_setup_def)

lemma record_write_plain:
  assumes inv: "db_inv_upto env disk X db" and plain: "\<not> wo_consensus opts"
    and w: "Database_record_write env disk now db node path v when opts given = (db', w)"
  shows "db_inv_upto env disk X db' \<and> same_setup db' db \<and>
    contents env disk db' = sighted_by db (contents env disk db) node path v when opts given"
proof -
  obtain db1 ns where noc: "Database_namespace_or_create env disk now db path = (db1, ns)" by fastforce
  have stp: "same_setup db1 db" using namespace_or_create [OF inv noc] by blast
  obtain ns' n b view where rec: "Namespace_record ns node v when (write_ttl (db_policy_of db) path opts)
      (stats_retention (db_policy_of db)) given = (ns', n, b, view)" by (metis prod_cases4)
  note st = write_step [OF inv noc rec]
  have "db' = Database_mark_dirty (fst (Database_count env disk now (put_namespace db1 path ns') ALL_NAMESPACE v)) path"
    using plain w noc rec stp
    by (auto simp: Database_record_write.simps [of env disk now db] Let_def same_setup_def)
  then show ?thesis using write_tail [OF st(1), of now v] st(2,3)
    by (auto simp: sighted_by_def intro: same_setup_trans)
qed

lemma record_write_effect:
  assumes inv: "db_inv_upto env disk X db"
    and w: "Database_record_write env disk now db node path v when opts given = (db', w)"
  defines "C \<equiv> contents env disk db"
  shows "db_inv_upto env disk X db' \<and> same_setup db' db \<and>
    contents env disk db' =
      (let C1 = sighted_by db C node path v when opts given
       in if wo_consensus opts \<and> w_new w then sighted_by db C1 (db_node db) ALL_NAMESPACE v when WriteOpts_default [] else C1) \<and>
    w_count w = Attribute_count (fm_get (Attribute_new v) (values_of C path) v) + 1 \<and>
    (w_new w \<longleftrightarrow> fmlookup (values_of C path) v = None)"
proof -
  obtain db1 ns where noc: "Database_namespace_or_create env disk now db path = (db1, ns)" by fastforce
  have stp: "same_setup db1 db" using namespace_or_create [OF inv noc] by blast
  obtain ns' n b view where rec: "Namespace_record ns node v when (write_ttl (db_policy_of db) path opts)
      (stats_retention (db_policy_of db)) given = (ns', n, b, view)" by (metis prod_cases4)
  note st = write_step [OF inv noc rec]
  let ?put = "put_namespace db1 path ns'"
  define mid where "mid = (if wo_consensus opts \<and> b
      then fst (Database_record_write env disk now ?put (db_node db) ALL_NAMESPACE v when WriteOpts_default []) else ?put)"
  have node: "db_node ?put = db_node db" using st(3) by (simp add: same_setup_def)
  have e: "db' = Database_mark_dirty (fst (Database_count env disk now mid ALL_NAMESPACE v)) path"
    "w = \<lparr>w_count = n, w_new = b\<rparr>"
    using w noc rec stp node
    by (auto simp: Database_record_write.simps [of env disk now db] Let_def same_setup_def mid_def)
  have mid: "db_inv_upto env disk (insert (shard_of path) X) mid \<and> same_setup mid db \<and>
    contents env disk mid = (let C1 = sighted_by db C node path v when opts given
       in if wo_consensus opts \<and> b then sighted_by db C1 (db_node db) ALL_NAMESPACE v when WriteOpts_default [] else C1)"
  proof (cases "wo_consensus opts \<and> b")
    case False
    then show ?thesis using st(1-3) by (auto simp: mid_def sighted_by_def C_def)
  next
    case True
    obtain db2 w2 where inner: "Database_record_write env disk now ?put (db_node db) ALL_NAMESPACE v when WriteOpts_default [] = (db2, w2)"
      by fastforce
    have "\<not> wo_consensus WriteOpts_default" by (simp add: WriteOpts_default_def)
    from record_write_plain [OF st(1) this inner] show ?thesis
      using True inner st(2,3) sighted_by_cong [OF st(3)]
      by (auto simp: mid_def Let_def C_def sighted_by_def [of db _ node] intro: same_setup_trans)
  qed
  then show ?thesis
    using write_tail [of env disk path X mid now v] st(4,5) e by (auto simp: C_def intro: same_setup_trans)
qed

text \<open>
  C1. A write is a sighting of the value in its namespace and, when it counts towards consensus and the
  namespace did not hold the value, one in \<open>_all\<close>; the database changes in no other way, whatever had
  to be paged in for it. The count returned is the namespace's count of the value after it, and
  \<open>new\<close> says whether the namespace held it before. The invariant holds afterwards.
\<close>
theorem database_write_refines:
  assumes "db_inv env disk db"
    and "Database_write_tagged env disk now db path v when opts given = (db', w)"
  shows "db_inv env disk db' \<and>
    contents env disk db' =
      (let C1 = sighted_by db (contents env disk db) (db_node db) path v when opts given
       in if wo_consensus opts \<and> w_new w then sighted_by db C1 (db_node db) ALL_NAMESPACE v when WriteOpts_default [] else C1) \<and>
    w_count w = Attribute_count (fm_get (Attribute_new v) (values_of (contents env disk db) path) v) + 1 \<and>
    (w_new w \<longleftrightarrow> fmlookup (values_of (contents env disk db) path) v = None)"
  using record_write_effect [OF assms(1), of now "db_node db" path v "when" opts given db' w] assms(2)
  unfolding Database_write_tagged_def by blast

definition sample_store_db :: database where
  "sample_store_db = Database_attach_store
     (Database_with_node \<lparr>stats_retention = 0, shadow_ttl = 0\<rparr> StoragePolicy_everything ''local'')
     \<lparr>st_dbdir = ''db'', st_level = 3\<rparr> (TierPolicy_default\<lparr>default_tier := Cold\<rparr>)"

lemma sample_store_inv: "db_inv_upto sample_env fmempty {} sample_store_db"
  by (simp add: sample_store_db_def Database_attach_store_def Database_with_node_def db_inv_upto_def)

definition sample_write :: "database \<times> written" where
  "sample_write = Database_write_tagged sample_env fmempty (DateTime 100 0) sample_store_db ''feeds/a'' ''v'' (DateTime 90 5)
     \<lparr>wo_consensus = True, wo_ttl = None\<rparr> []"

lemma sample_write_inv: "db_inv_upto sample_env fmempty {} (fst sample_write)"
proof -
  obtain db' w where w: "sample_write = (db', w)" by fastforce
  then show ?thesis using record_write_effect [OF sample_store_inv] unfolding sample_write_def Database_write_tagged_def by fastforce
qed

theorem database_write_refines_witness: "w_new (snd sample_write) \<and> w_count (snd sample_write) = 1"
proof -
  have inv: "db_inv sample_env fmempty sample_store_db" using sample_store_inv by (rule inv_mono) simp
  have "fmlookup (values_of (contents sample_env fmempty sample_store_db) ''feeds/a'') ''v'' = None"
    by (simp add: values_of_def contents_def sample_store_db_def Database_attach_store_def Database_with_node_def
        Database_catalogued_def)
  moreover from this have "Attribute_count (fm_get (Attribute_new ''v'') (values_of (contents sample_env fmempty sample_store_db) ''feeds/a'') ''v'') = 0"
    by (simp add: fm_get_def Attribute_new_def Attribute_count_def)
  ultimately show ?thesis
    using database_write_refines [OF inv, of "DateTime 100 0" "''feeds/a''" "''v''" "DateTime 90 5" "\<lparr>wo_consensus = True, wo_ttl = None\<rparr>" "[]"
        "fst sample_write" "snd sample_write"]
    by (simp add: sample_write_def)
qed

lemma catalogued_held:
  assumes inv: "db_inv_upto env disk X db" and meta: "fmlookup (db_shards db) (shard_of n) = Some m"
  shows "n |\<in>| sm_namespaces m \<longleftrightarrow> contents env disk db n \<noteq> None"
proof -
  have sound: "shard_sound env disk X db (shard_of n) m" using inv meta by (simp add: db_inv_upto_def)
  show ?thesis
  proof (cases "sm_resident m")
    case True
    then show ?thesis using shard_sound_memory [OF sound True refl] meta
      by (simp add: contents_def Database_catalogued_def fmlookup_dom'_iff split: option.splits)
  next
    case False
    then obtain st data where st: "db_store db = Some st"
      "read_shard_file env disk (st_dbdir st) (shard_of n) = Inr (stored_values data)" "fmdom data = sm_namespaces m"
      using sound by (auto simp: shard_sound_def)
    have "fmlookup (db_namespaces db) n = None"
      using not_resident_not_in_memory [OF inv] meta False by (simp add: shard_resident_def)
    moreover have "n |\<in>| sm_namespaces m \<longleftrightarrow> fmlookup data n \<noteq> None" by (metis st(3) fmdomI fmdom_notI not_None_eq)
    ultimately show ?thesis using meta False st(1,2) by (simp add: contents_def Database_catalogued_def on_disk_def)
  qed
qed

lemma exists_iff:
  assumes inv: "db_inv_upto env disk X db"
  shows "Database_namespace_exists db n \<longleftrightarrow> contents env disk db n \<noteq> None"
proof (cases "fmlookup (db_shards db) (shard_of n)")
  case None
  then have "fmlookup (db_namespaces db) n = None" "\<not> Database_catalogued db (shard_of n) n"
    using not_resident_not_in_memory [OF inv] by (simp_all add: shard_resident_def Database_catalogued_def)
  with None show ?thesis by (simp add: Database_namespace_exists_def fm_contains_def contents_def)
next
  case (Some m)
  have "fmlookup (db_namespaces db) n \<noteq> None \<Longrightarrow> contents env disk db n \<noteq> None" by (auto simp: contents_def)
  then show ?thesis using catalogued_held [OF inv Some] Some
    by (auto simp: Database_namespace_exists_def fm_contains_def)
qed

definition view_in :: "(string \<Rightarrow> (string, attribute) fmap option) \<Rightarrow> string \<Rightarrow> string \<Rightarrow> u64 \<Rightarrow> bool \<Rightarrow> datetime \<Rightarrow> attribute_view option" where
  "view_in C name v consensus with_stats now =
     (case fmlookup (values_of C name) v of
        None \<Rightarrow> None
      | Some a \<Rightarrow> if Attribute_is_expired a now then None else Some (Attribute_view a consensus with_stats))"

lemma view_reads:
  assumes inv: "db_inv_upto env disk X db" and eq: "Database_view env disk now db path v consensus with_stats = (db', r)"
  shows "db_inv_upto env disk X db' \<and> contents env disk db' = contents env disk db \<and> same_setup db' db \<and>
    db_dirty db' = db_dirty db \<and> r = view_in (contents env disk db) path v consensus with_stats now"
proof -
  obtain db1 ns where found: "Database_namespace env disk now db path = (db1, ns)" by fastforce
  note n = namespace_finds [OF inv found]
  have view: "Attribute_view (stored_attr a) consensus with_stats = Attribute_view a consensus with_stats" for a
    by (simp add: Attribute_view_def stored_attr_def whole_seconds_def Attribute_count_def Attribute_merged_stats_def)
  have "db' = db1" "r = (case ns of None \<Rightarrow> None | Some ns \<Rightarrow> Namespace_view ns v consensus with_stats now)"
    using eq found by (auto simp: Database_view_def split: option.splits)
  moreover have "(case ns of None \<Rightarrow> None | Some ns \<Rightarrow> Namespace_view ns v consensus with_stats now) =
      view_in (contents env disk db) path v consensus with_stats now"
    by (auto simp: view_in_def values_of_def n(4) Namespace_view_def view split: option.splits)
  ultimately show ?thesis using n(1,2,5,6) by auto
qed

text \<open>
  C3. Reading answers from the database as it is and changes nothing in it: counts, views with their
  statistics, and whether a namespace exists are those of the values held, in memory or paged out; a
  read, paging in included, leaves every namespace's values as they were.
\<close>
theorem database_reads:
  assumes "db_inv env disk db"
  shows "(let (db', c) = Database_count env disk now db path v
      in db_inv env disk db' \<and> contents env disk db' = contents env disk db \<and> c = count_in (contents env disk db) path v now) \<and>
    (let (db', r) = Database_view env disk now db path v consensus with_stats
      in db_inv env disk db' \<and> contents env disk db' = contents env disk db \<and>
         r = view_in (contents env disk db) path v consensus with_stats now) \<and>
    (Database_namespace_exists db path \<longleftrightarrow> contents env disk db path \<noteq> None)"
proof -
  obtain db1 c where cnt: "Database_count env disk now db path v = (db1, c)" by fastforce
  obtain db2 r where vw: "Database_view env disk now db path v consensus with_stats = (db2, r)" by fastforce
  show ?thesis using count_reads [OF assms cnt] view_reads [OF assms vw] exists_iff [OF assms, of path] cnt vw by simp
qed

lemma sample_paths:
  "shard_of ''feeds/a'' = ''feeds''" "INTERNAL_SHARD \<noteq> ''feeds''" "ALL_NAMESPACE \<noteq> ''feeds/a''" "''feeds/a'' \<noteq> ALL_NAMESPACE" "''feeds'' \<noteq> INTERNAL_SHARD"
  "starts_with ''feeds/a'' SHADOW_PREFIX = False" "starts_with ALL_NAMESPACE SHADOW_PREFIX = False"
  by code_simp+

abbreviation sample_ns :: namespace where
  "sample_ns \<equiv> \<lparr>ns_values = fmupd ''v'' (sight (Attribute_new ''v'') ''local'' (DateTime 90 5) None 0 []) fmempty, ns_has_ttl = False\<rparr>"

abbreviation sample_meta :: "string \<Rightarrow> shard_meta" where
  "sample_meta n \<equiv> \<lparr>sm_namespaces = {|n|}, sm_resident = True, sm_last_access = 100\<rparr>"

lemma create_in_new_shard:
  assumes "fmlookup (db_shards db) (shard_of name) = None" "fmlookup (db_namespaces db) name = None"
  shows "Database_namespace_or_create env disk now db name =
    (Database_record now (put_namespace db name Namespace_default) name, Namespace_default)"
  using assms
  by (simp add: Database_namespace_or_create_def Database_namespace_def Database_touch_def Database_resident_def
      Database_catalogued_def put_namespace_def Let_def)

lemma count_in_memory:
  assumes "fmlookup (db_namespaces db) path = Some ns"
  shows "Database_count env disk now db path v = (Database_touch now db (shard_of path), Namespace_count ns v now)"
  using assms by (simp add: Database_count_def Database_namespace_def Database_resident_def Let_def)

lemmas sample_defs = sample_store_db_def Database_attach_store_def Database_with_node_def Database_record_def
  put_namespace_def Database_mark_dirty_def Database_mark_shard_dirty_def Database_touch_def ShardMeta_default_def
  Namespace_default_def fm_simps fm_contains_def sample_paths Let_def

lemma sample_inner:
  assumes "fmlookup (db_shards db) INTERNAL_SHARD = None" "fmlookup (db_namespaces db) ALL_NAMESPACE = None"
    "db_node db = ''local''" "db_policy_of db = \<lparr>stats_retention = 0, shadow_ttl = 0\<rparr>"
  shows "fst (Database_record_write sample_env fmempty (DateTime 100 0) db ''local'' ALL_NAMESPACE ''v'' (DateTime 90 5) WriteOpts_default []) =
    db\<lparr>db_namespaces := fmupd ALL_NAMESPACE sample_ns (db_namespaces db),
      db_shards := fmupd INTERNAL_SHARD (sample_meta ALL_NAMESPACE) (db_shards db),
      db_dirty := finsert INTERNAL_SHARD (db_dirty db)\<rparr>"
  using assms
  by (subst Database_record_write.simps)
     (simp add: create_in_new_shard count_in_memory Namespace_record_simp write_ttl_def WriteOpts_default_def
       Database_record_def put_namespace_def Database_mark_dirty_def Database_mark_shard_dirty_def Database_touch_def
       ShardMeta_default_def Namespace_default_def fm_simps fm_get_def [of _ "db_shards db"] fm_contains_def sample_paths Let_def)

lemma count_new [simp]: "Attribute_count (Attribute_new v) = 0"
  by (simp add: Attribute_count_def Attribute_new_def)

lemma sample_write_value:
  "sample_write = (sample_store_db\<lparr>
     db_namespaces := fmupd ALL_NAMESPACE sample_ns (fmupd ''feeds/a'' sample_ns fmempty),
     db_shards := fmupd INTERNAL_SHARD (sample_meta ALL_NAMESPACE) (fmupd ''feeds'' (sample_meta ''feeds/a'') fmempty),
     db_dirty := {|''feeds'', INTERNAL_SHARD|}\<rparr>, \<lparr>w_count = 1, w_new = True\<rparr>)"
  unfolding sample_write_def Database_write_tagged_def
  by (subst Database_record_write.simps)
     (simp add: create_in_new_shard count_in_memory sample_inner Namespace_record_simp write_ttl_def sample_defs)

theorem database_reads_witness:
  "count_in (contents sample_env fmempty (fst sample_write)) ''feeds/a'' ''v'' (DateTime 100 0) = 1"
proof -
  have inv: "db_inv sample_env fmempty (fst sample_write)" using sample_write_inv by (rule inv_mono) simp
  have "fmlookup (db_namespaces (fst sample_write)) ''feeds/a'' = Some sample_ns"
    by (simp add: sample_write_value sample_paths)
  then have "snd (Database_count sample_env fmempty (DateTime 100 0) (fst sample_write) ''feeds/a'' ''v'') =
      Namespace_count sample_ns ''v'' (DateTime 100 0)" by (simp add: count_in_memory)
  also have "\<dots> = 1" by code_simp
  finally show ?thesis
    using database_reads [OF inv, of "DateTime 100 0" "''feeds/a''" "''v''"]
    by (cases "Database_count sample_env fmempty (DateTime 100 0) (fst sample_write) ''feeds/a'' ''v''") simp
qed

end
