(* ===== verification/Eviction.thy ===== *)
theory Eviction
  imports Database_Laws
begin

text \<open>
  Paging shards out (\<open>Database::evict_idle\<close> of \<^verbatim>\<open>src/src/db.rs\<close>) loses nothing: when it runs alone,
  every namespace reads afterwards as before, from memory or from the file just written. What can go
  wrong when it does not run alone is at the end.
\<close>

lemma save_shard_written:
  assumes "codec_ok env" "save_shard env disk db dbdir s = (disk', Inr ())"
  shows "read_shard_file env disk' dbdir s = Inr (stored_values (sd_namespaces (Database_shard_snapshot db s)))"
    "shard_name env s' \<noteq> shard_name env s \<Longrightarrow> read_shard_file env disk' dbdir s' = read_shard_file env disk dbdir s'"
proof -
  obtain n where w: "write_shard env disk dbdir s (Database_shard_snapshot db s) = (disk', Inr n)"
    using assms(2) by (auto simp: save_shard_def split: prod.splits sum.splits)
  then have d: "disk' = fst (write_shard env disk dbdir s (Database_shard_snapshot db s))" by simp
  have ne: "shard_file env dbdir s \<noteq> with_extension (shard_file env dbdir s) ''tmp''"
    by (rule not_temp [OF shard_file_ends])
  have "fmlookup disk' (shard_file env dbdir s) = Some (e_shard_out env (Database_shard_snapshot db s))"
    using write_file_same [OF ne, of env disk "e_shard_out env (Database_shard_snapshot db s)"] w by (simp add: write_shard_def)
  then show "read_shard_file env disk' dbdir s = Inr (stored_values (sd_namespaces (Database_shard_snapshot db s)))"
    by (rule read_written [OF assms(1)]) (simp add: Database_shard_snapshot_def)
  show "shard_name env s' \<noteq> shard_name env s \<Longrightarrow> read_shard_file env disk' dbdir s' = read_shard_file env disk dbdir s'"
    unfolding d by (rule write_shard_other)
qed

lemma save_shard_failed:
  assumes "save_shard env disk db dbdir s = (disk', Inl e)"
  shows "read_shard_file env disk' dbdir s' = read_shard_file env disk dbdir s'"
proof (cases "shard_name env s' = shard_name env s")
  case False
  have "disk' = fst (write_shard env disk dbdir s (Database_shard_snapshot db s))"
    using assms by (auto simp: save_shard_def split: prod.splits sum.splits)
  with False show ?thesis by (simp add: write_shard_other)
next
  case True
  obtain e' where w: "write_shard env disk dbdir s (Database_shard_snapshot db s) = (disk', Inl e')"
    using assms by (auto simp: save_shard_def split: prod.splits sum.splits)
  have ne: "shard_file env dbdir s \<noteq> with_extension (shard_file env dbdir s) ''tmp''"
    by (rule not_temp [OF shard_file_ends])
  have "fmlookup disk' (shard_file env dbdir s) = fmlookup disk (shard_file env dbdir s)"
    using write_file_same [OF ne, of env disk "e_shard_out env (Database_shard_snapshot db s)"] w by (simp add: write_shard_def)
  with True show ?thesis by (intro read_shard_file_cong) (simp add: shard_file_def)
qed

text \<open>A clean shard can be forgotten: its file has it.\<close>

lemma drop_clean_shard:
  assumes inv: "db_inv_upto env disk X db" and store: "db_store db = Some st"
    and meta: "fmlookup (db_shards db) s = Some meta" "sm_resident meta"
    and clean: "s |\<notin>| db_dirty db" "s \<notin> X"
    and drop: "Database_drop_shard busy db s = (db', dropped)"
  shows "db_inv_upto env disk X db' \<and> contents env disk db' = contents env disk db \<and> same_setup db' db \<and>
    db_dirty db' = db_dirty db \<and> fmdom' (db_shards db') = fmdom' (db_shards db) \<and>
    (\<forall>s'. s' \<noteq> s \<longrightarrow> fmlookup (db_shards db') s' = fmlookup (db_shards db) s')"
proof (cases "list_ex busy (shard_names db s)")
  case True
  then have "db' = db" using drop by (simp add: Database_drop_shard_def)
  then show ?thesis using inv by simp
next
  case False
  have sound: "shard_sound env disk X db s meta" using inv meta by (simp add: db_inv_upto_def)
  have read: "read_shard_file env disk (st_dbdir st) s = Inr (stored_values (sd_namespaces (Database_shard_snapshot db s)))"
    by (rule shard_sound_clean [OF sound meta(2) store clean])
  have f: "db_namespaces db' = fold fmdrop (shard_names db s) (db_namespaces db)" "db_store db' = Some st"
    "db_dirty db' = db_dirty db" "db_shards db' = fmupd s (meta\<lparr>sm_resident := False\<rparr>) (db_shards db)" "same_setup db' db"
    using drop False meta store by (auto simp: Database_drop_shard_def Let_def same_setup_def)
  have mem: "fmlookup (db_namespaces db') n = (if shard_of n = s then None else fmlookup (db_namespaces db) n)" for n
    by (auto simp: f fold_fmdrop_lookup shard_names_def fmlookup_dom'_iff) 
  have names: "n |\<in>| sm_namespaces meta \<longleftrightarrow> shard_of n = s \<and> n \<in> fmdom' (db_namespaces db)" for n
    using shard_sound_memory [OF sound meta(2)] shard_sound_names [OF sound] by blast
  have cont: "contents env disk db' n = contents env disk db n" for n
  proof (cases "shard_of n = s")
    case False
    then show ?thesis by (intro contents_cong) (simp_all add: mem Database_catalogued_def f(2,4) store)
  next
    case True
    have "on_disk env disk db' s = stored_values (sd_namespaces (Database_shard_snapshot db s))"
      by (simp add: on_disk_def f read)
    then show ?thesis using True names meta
      by (auto simp: contents_def mem Database_catalogued_def f(4) fmlookup_dom'_iff comp_def split: option.splits)
  qed
  have sound': "shard_sound env disk X db' s (meta\<lparr>sm_resident := False\<rparr>)"
  proof -
    have "fmdom (sd_namespaces (Database_shard_snapshot db s)) = sm_namespaces meta"
    proof (rule fset_eqI)
      fix n
      show "n |\<in>| fmdom (sd_namespaces (Database_shard_snapshot db s)) \<longleftrightarrow> n |\<in>| sm_namespaces meta"
        by (simp add: names fmlookup_dom_iff fmlookup_dom'_iff)
    qed
    then show ?thesis using read shard_sound_names [OF sound] unfolding shard_sound_def f(2) by auto
  qed
  have "db_inv_upto env disk X db'"
    unfolding db_inv_upto_def
  proof (intro conjI allI impI ballI)
    fix n assume "n \<in> fmdom' (db_namespaces db')"
    then have "shard_of n \<noteq> s" "n \<in> fmdom' (db_namespaces db)" by (auto simp: fmlookup_dom'_iff mem split: if_splits)
    then show "shard_resident db' (shard_of n)" using inv by (simp add: db_inv_upto_def shard_resident_def f(4))
  next
    fix s' m assume m: "fmlookup (db_shards db') s' = Some m"
    show "shard_sound env disk X db' s' m"
    proof (cases "s' = s")
      case True
      then show ?thesis using m sound' by (simp add: f)
    next
      case False
      then have "shard_sound env disk X db s' m" using m inv by (simp add: f db_inv_upto_def)
      then show ?thesis by (rule shard_sound_cong) (use False in \<open>auto simp: mem f(2,3) store\<close>)
    qed
  next
    fix n ns assume "fmlookup (db_namespaces db') n = Some ns"
    then show "ns_sound ns" using inv by (auto simp: db_inv_upto_def mem split: if_splits)
  qed
  moreover have "fmdom' (db_shards db') = fmdom' (db_shards db)" using meta by (auto simp: f fmlookup_dom'_iff)
  ultimately show ?thesis using cont f by auto
qed

text \<open>A change of the disk that leaves every catalogued shard readable as before, except those that are
  in memory and marked to be written.\<close>

lemma inv_disk:
  assumes inv: "db_inv_upto env disk X db" and store: "db_store db = Some st"
    and same: "\<And>s m. fmlookup (db_shards db) s = Some m \<Longrightarrow> \<not> (sm_resident m \<and> s |\<in>| db_dirty db) \<Longrightarrow>
      read_shard_file env disk' (st_dbdir st) s = read_shard_file env disk (st_dbdir st) s"
  shows "db_inv_upto env disk' X db" "contents env disk' db = contents env disk db"
proof -
  have "shard_sound env disk' X db s m" if m: "fmlookup (db_shards db) s = Some m" for s m
  proof -
    have sound: "shard_sound env disk X db s m" using inv m by (simp add: db_inv_upto_def)
    show ?thesis
    proof (cases "sm_resident m \<and> s |\<in>| db_dirty db")
      case True
      then show ?thesis using shard_sound_names [OF sound] shard_sound_memory [OF sound]
        by (intro shard_sound_residentI) auto
    next
      case False
      from sound show ?thesis
        by (rule shard_sound_cong) (use store same [OF m False] in simp_all)
    qed
  qed
  then show "db_inv_upto env disk' X db" using inv by (simp add: db_inv_upto_def)
  show "contents env disk' db = contents env disk db"
  proof (rule ext, rule contents_cong)
    fix n st' assume "db_store db = Some st'" "Database_catalogued db (shard_of n) n"
    then show "read_shard_file env disk' (st_dbdir st') (shard_of n) = read_shard_file env disk (st_dbdir st') (shard_of n)"
      using same store by (auto simp: Database_catalogued_def split: option.splits)
  qed simp_all
qed

lemma saved_is_clean:
  assumes inv: "db_inv_upto env disk X db" and store: "db_store db = Some st"
    and meta: "fmlookup (db_shards db) s = Some meta" "sm_resident meta"
    and saved: "s |\<in>| db_dirty db \<longrightarrow>
       read_shard_file env disk (st_dbdir st) s = Inr (stored_values (sd_namespaces (Database_shard_snapshot db s)))"
  shows "db_inv_upto env disk X (db\<lparr>db_dirty := db_dirty db |-| {|s|}\<rparr>)"
    "contents env disk (db\<lparr>db_dirty := db_dirty db |-| {|s|}\<rparr>) = contents env disk db"
proof -
  let ?db = "db\<lparr>db_dirty := db_dirty db |-| {|s|}\<rparr>"
  have sound: "shard_sound env disk X db s meta" using inv meta by (simp add: db_inv_upto_def)
  have snap: "Database_shard_snapshot ?db s = Database_shard_snapshot db s" by (rule snapshot_cong) simp
  have "shard_sound env disk X ?db s meta"
  proof (rule shard_sound_residentI)
    show "read_shard_file env disk (st_dbdir st') s = Inr (stored_values (sd_namespaces (Database_shard_snapshot ?db s)))"
      if "db_store ?db = Some st'" "s \<notin> X" for st'
      using that store saved shard_sound_clean [OF sound meta(2) store _ that(2)] snap
      by (cases "s |\<in>| db_dirty db") auto
  qed (use meta shard_sound_names [OF sound] shard_sound_memory [OF sound meta(2)] in auto)
  then show "db_inv_upto env disk X ?db"
  proof (intro inv_one_shard [OF inv, of s])
    show "ns_sound ns" if "fmlookup (db_namespaces ?db) n = Some ns" for n ns
      using that inv by (simp add: db_inv_upto_def)
  qed (simp_all add: meta)
  show "contents env disk ?db = contents env disk db"
    by (rule ext, rule contents_cong) (simp_all add: Database_catalogued_def)
qed

lemma evict_loop_keeps:
  assumes "codec_ok env" and "db_store db = Some st" and "db_inv_upto env disk X db"
    and "files_apart env (fmdom' (db_shards db))" and "distinct shards"
    and "\<forall>s \<in> set shards. s \<notin> X \<and> shard_resident db s"
    and "evict_loop busy env (st_dbdir st) shards disk db report = (disk', db', report')"
  shows "db_inv_upto env disk' X db' \<and> contents env disk' db' = contents env disk db \<and> same_setup db' db"
  using assms(2-7)
proof (induction shards arbitrary: disk db report)
  case (Cons s shards)
  obtain disk1 res where sv: "(if s |\<in>| db_dirty db then save_shard env disk db (st_dbdir st) s else (disk, Inr ())) = (disk1, res)"
    by fastforce
  obtain meta where meta: "fmlookup (db_shards db) s = Some meta" "sm_resident meta"
    using Cons.prems(5) by (auto simp: shard_resident_def split: option.splits)
  have apart: "shard_name env s' \<noteq> shard_name env s" if "s' \<in> fmdom' (db_shards db)" "s' \<noteq> s" for s'
    using Cons.prems(3) that meta by (auto simp: files_apart_def inj_on_def fmlookup_dom'_iff)
  show ?case
  proof (cases res)
    case (Inl e)
    then have "save_shard env disk db (st_dbdir st) s = (disk1, Inl e)" using sv by (auto split: if_splits)
    then have d: "db_inv_upto env disk1 X db" "contents env disk1 db = contents env disk db"
      by (auto intro!: inv_disk [OF Cons.prems(2,1)] simp: save_shard_failed)
    have "evict_loop busy env (st_dbdir st) shards disk1 db (report\<lparr>er_failed := er_failed report + 1\<rparr>) = (disk', db', report')"
      using Cons.prems(6) sv Inl by simp
    from Cons.IH [OF Cons.prems(1) d(1) Cons.prems(3) _ _ this] show ?thesis
      using Cons.prems(4,5) d(2) by simp
  next
    case (Inr u)
    let ?db1 = "db\<lparr>db_dirty := db_dirty db |-| {|s|}\<rparr>"
    have other: "read_shard_file env disk1 (st_dbdir st) s' = read_shard_file env disk (st_dbdir st) s'"
      if "s' \<in> fmdom' (db_shards db)" "s' \<noteq> s" for s'
      using sv Inr save_shard_written(2) [OF assms(1) _ apart [OF that]] by (auto split: if_splits)
    have own: "read_shard_file env disk1 (st_dbdir st) s = Inr (stored_values (sd_namespaces (Database_shard_snapshot db s)))"
      if "s |\<in>| db_dirty db" using sv Inr that save_shard_written(1) [OF assms(1)] by auto
    have mid: "db_inv_upto env disk1 X ?db1" "contents env disk1 ?db1 = contents env disk db"
    proof -
      have "read_shard_file env disk1 (st_dbdir st) s' = read_shard_file env disk (st_dbdir st) s'"
        if "fmlookup (db_shards db) s' = Some m" "\<not> (sm_resident m \<and> s' |\<in>| db_dirty db)" for s' m
        using other [of s'] sv meta that by (cases "s' = s") (auto simp: fmlookup_dom'_iff)
      then have a: "contents env disk1 db = contents env disk db" and b: "db_inv_upto env disk1 X db"
        by (auto intro!: inv_disk [OF Cons.prems(2,1)])
      have c: "s |\<in>| db_dirty db \<longrightarrow>
         read_shard_file env disk1 (st_dbdir st) s = Inr (stored_values (sd_namespaces (Database_shard_snapshot db s)))"
        using own by blast
      show "db_inv_upto env disk1 X ?db1" "contents env disk1 ?db1 = contents env disk db"
        using saved_is_clean [OF b Cons.prems(1) meta c] a by simp_all
    qed
    obtain db2 dropped where dr: "Database_drop_shard busy ?db1 s = (db2, dropped)" by fastforce
    have "s |\<notin>| db_dirty ?db1" "s \<notin> X" using Cons.prems(5) by auto
    from drop_clean_shard [OF mid(1) _ _ meta(2) this dr, of st] Cons.prems(1) meta(1)
    have d: "db_inv_upto env disk1 X db2" "contents env disk1 db2 = contents env disk1 ?db1" "same_setup db2 ?db1"
      "fmdom' (db_shards db2) = fmdom' (db_shards db)"
      "\<And>s'. s' \<noteq> s \<Longrightarrow> fmlookup (db_shards db2) s' = fmlookup (db_shards db) s'" by auto
    have st2: "db_store db2 = Some st" using d(3) Cons.prems(1) by (simp add: same_setup_def)
    have res2: "\<forall>s' \<in> set shards. s' \<notin> X \<and> shard_resident db2 s'"
    proof
      fix s' assume s': "s' \<in> set shards"
      then have "fmlookup (db_shards db2) s' = fmlookup (db_shards db) s'" using Cons.prems(4) by (intro d(5)) auto
      then show "s' \<notin> X \<and> shard_resident db2 s'" using Cons.prems(5) s' by (simp add: shard_resident_def)
    qed
    obtain report2 where "evict_loop busy env (st_dbdir st) shards disk1 db2 report2 = (disk', db', report')"
      using Cons.prems(6) sv Inr dr by auto
    from Cons.IH [OF st2 d(1) _ _ res2 this] show ?thesis
      using Cons.prems(3,4) d(2-4) mid(2) by (auto simp: same_setup_def)
  qed
qed simp

lemma idle_shards_evictable:
  "distinct (idle_shards tiers now db)"
  "s \<in> set (idle_shards tiers now db) \<Longrightarrow> shard_resident db s"
  "s \<in> set (idle_shards tiers now db) \<Longrightarrow> s \<noteq> INTERNAL_SHARD"
proof -
  show "distinct (idle_shards tiers now db)" unfolding idle_shards_def by (rule distinct_map_filter) simp
  show "s \<in> set (idle_shards tiers now db) \<Longrightarrow> shard_resident db s"
    by (auto simp: idle_shards_def shard_resident_def)
  have "TierPolicy_idle_allowance tiers INTERNAL_SHARD = None"
    by (simp add: TierPolicy_idle_allowance_def Resolved_idle_allowance_def resolve_internal)
  then show "s \<in> set (idle_shards tiers now db) \<Longrightarrow> s \<noteq> INTERNAL_SHARD"
    by (auto simp: idle_shards_def)
qed

lemma eviction_keeps:
  assumes "codec_ok env" and "db_inv env disk db" and "files_apart env (fmdom' (db_shards db))"
    and "Database_evict_idle busy env disk now db = (disk', db', report)"
  shows "db_inv env disk' db' \<and> contents env disk' db' = contents env disk db \<and>
    INTERNAL_SHARD \<notin> set (idle_shards (db_tiers db) now db)"
proof (cases "db_store db")
  case None
  then show ?thesis using assms(2,4) idle_shards_evictable(3) by (auto simp: Database_evict_idle_def)
next
  case (Some st)
  have "evict_loop busy env (st_dbdir st) (idle_shards (db_tiers db) now db) disk db EvictReport_default = (disk', db', report)"
    using assms(4) Some by (simp add: Database_evict_idle_def)
  from evict_loop_keeps [OF assms(1) Some assms(2,3) idle_shards_evictable(1) _ this]
  show ?thesis using idle_shards_evictable(2,3) by blast
qed

text \<open>
  C2. Eviction loses nothing: when it runs alone, paging out the idle shards leaves every namespace
  with the values it had (to the whole second), whether its shard was written out, could not be
  written, was in use or was not touched, and keeps the invariant. The shard of the database's own
  state is never a candidate.
\<close>
theorem eviction_loses_nothing:
  assumes "codec_ok env" and "db_inv env disk db" and "files_apart env (fmdom' (db_shards db))"
    and "Database_evict_idle busy env disk now db = (disk', db', report)"
  shows "db_inv env disk' db' \<and> contents env disk' db' = contents env disk db \<and>
    INTERNAL_SHARD \<notin> set (idle_shards (db_tiers db) now db)"
  using eviction_keeps [OF assms] .

lemma sample_save_ok: "\<exists>disk'. save_shard sample_env disk db dbdir s = (disk', Inr ())"
  by (simp add: save_shard_def write_shard_def write_file_def Let_def sample_env_def)

lemma sample_evict:
  "\<exists>disk' db' report. Database_evict_idle (\<lambda>_. False) sample_env fmempty 100 (fst sample_write) = (disk', db', report) \<and>
     er_evicted report = 1 \<and> fmlookup (db_namespaces db') ''feeds/a'' = None"
proof -
  let ?db = "fst sample_write"
  obtain disk' where sv: "save_shard sample_env fmempty ?db ''db'' ''feeds'' = (disk', Inr ())"
    using sample_save_ok by blast
  have idle: "idle_shards (db_tiers ?db) 100 ?db = [''feeds'']"
    unfolding sample_write_value by code_simp
  have names: "shard_names (?db\<lparr>db_dirty := d\<rparr>) ''feeds'' = [''feeds/a'']" for d
    unfolding sample_write_value shard_names_def by simp code_simp
  have st: "db_store ?db = Some \<lparr>st_dbdir = ''db'', st_level = 3\<rparr>" "''feeds'' |\<in>| db_dirty ?db"
    by (simp_all add: sample_write_value sample_store_db_def Database_attach_store_def)
  show ?thesis
    using sv by (simp add: Database_evict_idle_def st idle Database_drop_shard_def names EvictReport_default_def Let_def split: option.split)
qed

theorem eviction_loses_nothing_witness:
  "\<exists>disk' db' report. Database_evict_idle (\<lambda>_. False) sample_env fmempty 100 (fst sample_write) = (disk', db', report) \<and>
     er_evicted report = 1 \<and> fmlookup (db_namespaces db') ''feeds/a'' = None \<and>
     contents sample_env disk' db' ''feeds/a'' = Some (fmmap stored_attr (ns_values sample_ns))"
proof -
  obtain disk' db' report where ev: "Database_evict_idle (\<lambda>_. False) sample_env fmempty 100 (fst sample_write) = (disk', db', report)"
    "er_evicted report = 1" "fmlookup (db_namespaces db') ''feeds/a'' = None" using sample_evict by blast
  have "files_apart sample_env (fmdom' (db_shards (fst sample_write)))"
  proof -
    have "fmdom' (db_shards (fst sample_write)) = {INTERNAL_SHARD, ''feeds''}" by (simp add: sample_write_value)
    moreover have "shard_name sample_env ''feeds'' \<noteq> shard_name sample_env INTERNAL_SHARD" by code_simp
    ultimately show ?thesis by (auto simp: files_apart_def)
  qed
  moreover have "db_inv sample_env fmempty (fst sample_write)" using sample_write_inv by (rule inv_mono) simp
  ultimately have "contents sample_env disk' db' = contents sample_env fmempty (fst sample_write)"
    using eviction_loses_nothing [OF sample_env_ok _ _ ev(1)] by blast
  moreover have "contents sample_env fmempty (fst sample_write) ''feeds/a'' = Some (fmmap stored_attr (ns_values sample_ns))"
    by (simp add: contents_def sample_write_value sample_paths)
  ultimately show ?thesis using ev by auto
qed

end
