(* ===== verification/Persistence.thy ===== *)
theory Persistence
  imports Eviction
begin

text \<open>
  Saving and restarting: \<open>persistence::save\<close> of \<^verbatim>\<open>src/src/persistence.rs\<close> over the whole database, and
  \<open>open_database\<close> of \<^verbatim>\<open>src/src/main.rs\<close>. What a shutdown writes, the next start reads back.
\<close>

record save_report =
  shards_written :: nat
  shards_skipped :: nat
  saved_bytes :: nat

definition SaveReport_default :: save_report where
  "SaveReport_default = \<lparr>shards_written = 0, shards_skipped = 0, saved_bytes = 0\<rparr>"

text \<open>The shards in memory are written in some order (a \<open>HashSet\<close> in the code); the first that cannot be
  written is marked dirty again and ends the save.\<close>

fun save_loop :: "'f env \<Rightarrow> string \<Rightarrow> bool \<Rightarrow> string fset \<Rightarrow> string list \<Rightarrow> 'f disk \<Rightarrow> database \<Rightarrow> save_report
    \<Rightarrow> 'f disk \<times> database \<times> (store_error + save_report)" where
  "save_loop env dbdir all dirty [] disk db report = (disk, db, Inr report)"
| "save_loop env dbdir all dirty (shard # shards) disk db report =
     (if \<not> all \<and> shard |\<notin>| dirty
      then save_loop env dbdir all dirty shards disk db (report\<lparr>shards_skipped := shards_skipped report + 1\<rparr>)
      else case write_shard env disk dbdir shard (Database_shard_snapshot db shard) of
             (disk, Inr n) \<Rightarrow> save_loop env dbdir all dirty shards disk db
                (report\<lparr>shards_written := shards_written report + 1, saved_bytes := saved_bytes report + n\<rparr>)
           | (disk, Inl e) \<Rightarrow> (disk, Database_mark_shard_dirty db shard, Inl e))"

definition save_activity :: "'f env \<Rightarrow> 'f disk \<Rightarrow> string \<Rightarrow> bool \<Rightarrow> database \<Rightarrow> 'f disk \<times> database \<times> (store_error + unit)" where
  "save_activity env disk dbdir all db =
     (let (act, taken) = Activity_take_snapshot (db_activity db) all; db = db\<lparr>db_activity := act\<rparr>
      in case taken of
           None \<Rightarrow> (disk, db, Inr ())
         | Some data \<Rightarrow>
             (case save_json env disk dbdir ACTIVITY_FILE (e_activity_out env data) of
                (disk, Inr _) \<Rightarrow> (disk, db, Inr ())
              | (disk, Inl e) \<Rightarrow> (disk, db\<lparr>db_activity := Activity_mark_dirty act\<rparr>, Inl e)))"

definition save_latest :: "'f env \<Rightarrow> 'f disk \<Rightarrow> string \<Rightarrow> bool \<Rightarrow> database \<Rightarrow> 'f disk \<times> database \<times> (store_error + unit)" where
  "save_latest env disk dbdir all db =
     (let (lat, taken) = Latest_take_snapshot (db_latest db) all; db = db\<lparr>db_latest := lat\<rparr>
      in case taken of
           None \<Rightarrow> (disk, db, Inr ())
         | Some data \<Rightarrow>
             (case save_json env disk dbdir LATEST_FILE (e_latest_out env data) of
                (disk, Inr _) \<Rightarrow> (disk, db, Inr ())
              | (disk, Inl e) \<Rightarrow> (disk, db\<lparr>db_latest := Latest_mark_dirty lat\<rparr>, Inl e)))"

text \<open>Files of dirty shards that have no namespace left. A removal that fails is ignored.\<close>

fun remove_stale :: "'f env \<Rightarrow> (string \<Rightarrow> bool) \<Rightarrow> string \<Rightarrow> string list \<Rightarrow> 'f disk \<Rightarrow> 'f disk" where
  "remove_stale env removable dbdir [] disk = disk"
| "remove_stale env removable dbdir (shard # shards) disk =
     (let path = shard_file env dbdir shard
      in remove_stale env removable dbdir shards
           (if fmlookup disk path \<noteq> None \<and> removable path then fmdrop path disk else disk))"

definition save :: "'f env \<Rightarrow> bool \<Rightarrow> (string \<Rightarrow> bool) \<Rightarrow> 'f disk \<Rightarrow> string \<Rightarrow> bool \<Rightarrow> database
    \<Rightarrow> 'f disk \<times> database \<times> (store_error + save_report)" where
  "save env mkdir_ok removable disk dbdir all db =
     (if \<not> mkdir_ok then (disk, db, Inl (WriteFailed dbdir))
      else let present = Database_shards db; (db, dirty) = Database_take_dirty db
           in case save_loop env dbdir all dirty (sorted_list_of_fset present) disk db SaveReport_default of
                (disk, db, Inl e) \<Rightarrow> (disk, db, Inl e)
              | (disk, db, Inr report) \<Rightarrow>
                  (case save_activity env disk dbdir all db of
                     (disk, db, Inl e) \<Rightarrow> (disk, db, Inl e)
                   | (disk, db, Inr _) \<Rightarrow>
                       (case save_latest env disk dbdir all db of
                          (disk, db, Inl e) \<Rightarrow> (disk, db, Inl e)
                        | (disk, db, Inr _) \<Rightarrow>
                            (remove_stale env removable dbdir (sorted_list_of_fset (dirty |-| present)) disk, db, Inr report))))"

text \<open>\<open>main.rs\<close>: the database a server starts with.\<close>

definition open_database ::
  "'f env \<Rightarrow> 'f disk \<Rightarrow> datetime \<Rightarrow> db_policy \<Rightarrow> storage_policy \<Rightarrow> string \<Rightarrow> string option \<Rightarrow> store_error + database" where
  "open_database env disk now policy stores node dbdir =
     (case dbdir of
        None \<Rightarrow> Inr (Database_with_node policy stores node)
      | Some path \<Rightarrow>
          (case load env disk path of
             Inl e \<Rightarrow> Inl e
           | Inr loaded \<Rightarrow>
               let db = (case loaded of
                           Some data \<Rightarrow> Database_from_snapshot_as now data policy stores node
                         | None \<Rightarrow> Database_with_node policy stores node);
                   db = (case load_activity env disk path of
                           None \<Rightarrow> db | Some data \<Rightarrow> db\<lparr>db_activity := Activity_restore (db_activity db) data\<rparr>);
                   db = (case load_latest env disk path of
                           None \<Rightarrow> db | Some saved \<Rightarrow> db\<lparr>db_latest := Latest_restore (db_latest db) saved\<rparr>)
               in Inr db))"

section \<open>What a save leaves on disk\<close>

lemma suffix_last: "ends_with p SHARD_SUFFIX \<Longrightarrow> last p = CHR ''t''"
  by (auto simp: ends_with_iff SHARD_SUFFIX_def)

text \<open>A write touches the file it names and its temporary file, whose name ends in \<open>.tmp\<close>.\<close>

definition no_temp :: "string \<Rightarrow> bool" where
  "no_temp p \<longleftrightarrow> last p \<noteq> CHR ''p''"

lemma write_file_elsewhere:
  assumes "no_temp p" "p \<noteq> path"
  shows "fmlookup (fst (write_file env disk path f)) p = fmlookup disk p"
proof -
  have "p \<noteq> with_extension path ''tmp''" using assms(1) by (auto simp: no_temp_def with_extension_def)
  then show ?thesis using assms(2) by (simp add: write_file_other)
qed

lemma shard_file_no_temp [simp]: "no_temp (shard_file env dbdir s)"
  using shard_file_ends [of env dbdir s] by (auto simp: no_temp_def ends_with_iff SHARD_SUFFIX_def)

lemma save_json_elsewhere:
  assumes "no_temp p" "p \<noteq> path_join dbdir name" "save_json env disk dbdir name f = (disk', r)"
  shows "fmlookup disk' p = fmlookup disk p"
  using write_file_elsewhere [OF assms(1,2), of env disk f] assms(3)
  by (auto simp: save_json_def split: prod.splits sum.splits)

definition same_shards :: "database \<Rightarrow> database \<Rightarrow> bool" where
  "same_shards db' db \<longleftrightarrow> db_namespaces db' = db_namespaces db \<and> db_shards db' = db_shards db \<and>
     db_dirty db' = db_dirty db \<and> same_setup db' db"

lemma save_activity_elsewhere:
  assumes "save_activity env disk dbdir all db = (disk', db', r)"
  shows "same_shards db' db \<and> (no_temp p \<and> p \<noteq> path_join dbdir ACTIVITY_FILE \<longrightarrow> fmlookup disk' p = fmlookup disk p)"
proof (cases "Activity_take_snapshot (db_activity db) all")
  case (Pair a taken)
  then show ?thesis using assms
    by (auto simp: save_activity_def same_shards_def same_setup_def Let_def split: option.splits prod.splits sum.splits
        dest: save_json_elsewhere [of p, rotated 2])
qed

lemma save_latest_elsewhere:
  assumes "save_latest env disk dbdir all db = (disk', db', r)"
  shows "same_shards db' db \<and> (no_temp p \<and> p \<noteq> path_join dbdir LATEST_FILE \<longrightarrow> fmlookup disk' p = fmlookup disk p)"
proof (cases "Latest_take_snapshot (db_latest db) all")
  case (Pair a taken)
  then show ?thesis using assms
    by (auto simp: save_latest_def same_shards_def same_setup_def Let_def split: option.splits prod.splits sum.splits
        dest: save_json_elsewhere [of p, rotated 2])
qed

lemma write_shard_stored:
  assumes "write_shard env disk dbdir s d = (disk', Inr n)"
  shows "fmlookup disk' (shard_file env dbdir s) = Some (e_shard_out env d)"
proof -
  have ne: "shard_file env dbdir s \<noteq> with_extension (shard_file env dbdir s) ''tmp''"
    by (rule not_temp [OF shard_file_ends])
  show ?thesis using write_file_same [OF ne, of env disk "e_shard_out env d"] assms by (simp add: write_shard_def)
qed

lemma write_shard_elsewhere:
  assumes "write_shard env disk dbdir s d = (disk', r)" "no_temp p" "p \<noteq> shard_file env dbdir s"
  shows "fmlookup disk' p = fmlookup disk p"
  using write_file_elsewhere [OF assms(2,3), of env disk "e_shard_out env d"] assms(1) by (simp add: write_shard_def)

lemma save_loop_written:
  assumes "save_loop env dbdir True dirty shards disk db report = (disk', db', Inr report')" "inj_on (shard_name env) (set shards)" "distinct shards"
  shows "db' = db \<and> (\<forall>s \<in> set shards. fmlookup disk' (shard_file env dbdir s) = Some (e_shard_out env (Database_shard_snapshot db s))) \<and>
    (\<forall>p. no_temp p \<and> p \<notin> shard_file env dbdir ` set shards \<longrightarrow> fmlookup disk' p = fmlookup disk p)"
  using assms
proof (induction shards arbitrary: disk report)
  case (Cons s shards)
  let ?d = "Database_shard_snapshot db s" and ?p = "shard_file env dbdir s"
  obtain disk1 n where w: "write_shard env disk dbdir s ?d = (disk1, Inr n)"
    using Cons.prems(1) by (auto split: prod.splits sum.splits)
  then have rest: "save_loop env dbdir True dirty shards disk1 db
      (report\<lparr>shards_written := shards_written report + 1, saved_bytes := saved_bytes report + n\<rparr>) = (disk', db', Inr report')"
    using Cons.prems(1) by simp
  have "?p \<notin> shard_file env dbdir ` set shards"
    using Cons.prems(2,3) by (auto simp: shard_file_eq inj_on_def)
  then have "fmlookup disk' ?p = Some (e_shard_out env ?d)"
    using Cons.IH [OF rest] Cons.prems(2,3) write_shard_stored [OF w] by simp
  then show ?case
    using Cons.IH [OF rest] Cons.prems(2,3) write_shard_elsewhere [OF w] by auto
qed simp

lemma remove_stale_lookup:
  "fmlookup (remove_stale env removable dbdir shards disk) p =
     (if removable p \<and> p \<in> shard_file env dbdir ` set shards then None else fmlookup disk p)"
  by (induction shards arbitrary: disk) (auto simp: Let_def)

text \<open>A whole save that succeeds, in one statement about the files a start reads.\<close>

lemma save_all_files:
  assumes "save env mkdir_ok removable disk dbdir True db = (disk', db', Inr report)"
    and "\<And>p. removable p" and apart: "inj_on (shard_name env) S" "fset (Database_shards db) \<subseteq> S" "fset (db_dirty db) \<subseteq> S"
  shows "s \<in> S \<Longrightarrow> fmlookup disk' (shard_file env dbdir s) =
      (if s |\<in>| Database_shards db then Some (e_shard_out env (Database_shard_snapshot db s))
       else if s |\<in>| db_dirty db then None else fmlookup disk (shard_file env dbdir s))"
    "no_temp p \<Longrightarrow> p \<noteq> path_join dbdir ACTIVITY_FILE \<Longrightarrow> p \<noteq> path_join dbdir LATEST_FILE \<Longrightarrow> p \<notin> shard_file env dbdir ` S \<Longrightarrow>
      fmlookup disk' p = fmlookup disk p"
    "db_namespaces db' = db_namespaces db" "db_shards db' = db_shards db" "db_dirty db' = {||}" "same_setup db' db"
proof -
  let ?ps = "sorted_list_of_fset (Database_shards db)" and ?db = "db\<lparr>db_dirty := {||}\<rparr>"
  let ?stale = "sorted_list_of_fset (db_dirty db |-| Database_shards db)"
  obtain disk1 db1 disk2 db2 disk3 u1 u2 where
    loop: "save_loop env dbdir True (db_dirty db) ?ps disk ?db SaveReport_default = (disk1, db1, Inr report)"
    and act: "save_activity env disk1 dbdir True db1 = (disk2, db2, Inr u1)"
    and lat: "save_latest env disk2 dbdir True db2 = (disk3, db', Inr u2)"
    and stale: "disk' = remove_stale env removable dbdir ?stale disk3"
    using assms(1) by (auto simp: save_def Database_take_dirty_def Let_def split: if_splits prod.splits sum.splits)
  have inj: "inj_on (shard_name env) (set ?ps)" using apart(1,2) by (auto intro: inj_on_subset simp: Database_shards_def)
  have one: "db1 = ?db" "s \<in> set ?ps \<Longrightarrow> fmlookup disk1 (shard_file env dbdir s) = Some (e_shard_out env (Database_shard_snapshot ?db s))"
    "no_temp p \<Longrightarrow> p \<notin> shard_file env dbdir ` set ?ps \<Longrightarrow> fmlookup disk1 p = fmlookup disk p" for s p
    using save_loop_written [OF loop inj] by (auto simp: sorted_list_of_fset.rep_eq)
  have json: "shard_file env dbdir s \<noteq> path_join dbdir ACTIVITY_FILE" "shard_file env dbdir s \<noteq> path_join dbdir LATEST_FILE" for s
    using shard_file_ends [of env dbdir s]
    by (auto simp: ends_with_iff path_join_def ACTIVITY_FILE_def LATEST_FILE_def SHARD_SUFFIX_def dest: arg_cong [of _ _ last])
  have three: "fmlookup disk3 p = fmlookup disk1 p"
    if "no_temp p" "p \<noteq> path_join dbdir ACTIVITY_FILE" "p \<noteq> path_join dbdir LATEST_FILE" for p
    using save_activity_elsewhere [OF act, of p] save_latest_elsewhere [OF lat, of p] that by simp
  have snap: "Database_shard_snapshot ?db s = Database_shard_snapshot db s" for s by (rule snapshot_cong) simp
  have injf: "inj_on (shard_file env dbdir) S" using apart(1) by (simp add: inj_on_def shard_file_eq)
  have own: "shard_file env dbdir s \<in> shard_file env dbdir ` T \<longleftrightarrow> s \<in> T" if "s \<in> S" "T \<subseteq> S" for s T
    using injf that by (rule inj_on_image_mem_iff)
  have sets: "set ?ps = fset (Database_shards db)" "set ?stale = fset (db_dirty db) - fset (Database_shards db)"
    by simp_all
  show "fmlookup disk' (shard_file env dbdir s) =
      (if s |\<in>| Database_shards db then Some (e_shard_out env (Database_shard_snapshot db s))
       else if s |\<in>| db_dirty db then None else fmlookup disk (shard_file env dbdir s))" if s: "s \<in> S"
  proof -
    have "fmlookup disk3 (shard_file env dbdir s) = fmlookup disk1 (shard_file env dbdir s)" by (rule three) (simp_all add: json)
    moreover have "shard_file env dbdir s \<in> shard_file env dbdir ` set ?stale \<longleftrightarrow> s \<in> fset (db_dirty db) - fset (Database_shards db)"
      unfolding sets using apart(3) by (intro own [OF s]) auto
    moreover have "shard_file env dbdir s \<in> shard_file env dbdir ` set ?ps \<longleftrightarrow> s \<in> fset (Database_shards db)"
      unfolding sets by (rule own [OF s apart(2)])
    ultimately show ?thesis using one(2) [of s] one(3) [of "shard_file env dbdir s"] assms(2)
      by (auto simp: stale remove_stale_lookup snap sets)
  qed
  show "fmlookup disk' p = fmlookup disk p"
    if "no_temp p" "p \<noteq> path_join dbdir ACTIVITY_FILE" "p \<noteq> path_join dbdir LATEST_FILE" "p \<notin> shard_file env dbdir ` S"
    using three [OF that(1-3)] one(3) [OF that(1)] that(4) apart(2,3) unfolding stale remove_stale_lookup sets by (auto simp: sets)
  have "same_shards db2 db1" "same_shards db' db2"
    using save_activity_elsewhere [OF act] save_latest_elsewhere [OF lat] by blast+
  then show "db_namespaces db' = db_namespaces db" "db_shards db' = db_shards db" "db_dirty db' = {||}" "same_setup db' db"
    by (simp_all add: same_shards_def one(1) same_setup_def)
qed

section \<open>What a start reads\<close>

lemma shard_paths_iff:
  "shard_file env dbdir s \<in> set (shard_paths disk dbdir) \<longleftrightarrow> fmlookup disk (shard_file env dbdir s) \<noteq> None"
proof -
  have "strip_prefix (shard_file env dbdir s) (dbdir @ ''/'') = Some (shard_name env s)"
    by (simp add: shard_file_def path_join_def strip_prefix_def starts_with_def)
  then show ?thesis
    by (auto simp: shard_paths_def shard_file_ends shard_name_no_slash fmlookup_dom'_iff)
qed

lemma shard_paths_mem: "p \<in> set (shard_paths disk dbdir) \<Longrightarrow> fmlookup disk p \<noteq> None \<and> ends_with p SHARD_SUFFIX"
  by (auto simp: shard_paths_def fmlookup_dom'_iff)

lemma load_shards_merge:
  assumes "\<And>p. p \<in> set paths \<Longrightarrow> \<exists>d. read_shard env disk p = Inr d \<and> check_version (sd_version d) = None \<and> sd_namespaces d = D p"
  shows "load_shards env disk paths m = Inr (fold (\<lambda>p m. m ++\<^sub>f D p) paths m)"
  using assms
proof (induction paths arbitrary: m)
  case (Cons p paths)
  obtain d where "read_shard env disk p = Inr d" "check_version (sd_version d) = None" "sd_namespaces d = D p"
    using Cons.prems [of p] by auto
  then show ?case using Cons.IH [of "m ++\<^sub>f D p"] Cons.prems by simp
qed simp

lemma merged_lookup:
  assumes "\<And>p. p \<in> set paths \<Longrightarrow> p \<noteq> q \<Longrightarrow> fmlookup (D p) n = None"
  shows "fmlookup (fold (\<lambda>p m. m ++\<^sub>f D p) paths m) n =
    (if q \<in> set paths \<and> fmlookup (D q) n \<noteq> None then fmlookup (D q) n else fmlookup m n)"
  using assms
proof (induction paths arbitrary: m)
  case (Cons p paths)
  have "fmlookup (m ++\<^sub>f D p) n = (if p = q \<and> fmlookup (D q) n \<noteq> None then fmlookup (D q) n else fmlookup m n)"
    using Cons.prems [of p] by (cases "p = q") (auto simp: fmlookup_dom_iff)
  then show ?case using Cons.IH [of "m ++\<^sub>f D p"] Cons.prems by auto
qed simp

lemma read_shard_of_file:
  assumes "read_shard_file env disk dbdir s = Inr m" "fmlookup disk (shard_file env dbdir s) \<noteq> None"
  shows "\<exists>d. read_shard env disk (shard_file env dbdir s) = Inr d \<and> check_version (sd_version d) = None \<and> sd_namespaces d = m"
  using assms by (auto simp: read_shard_file_def Let_def split: sum.splits option.splits)

text \<open>A directory whose shard files are all readable, each holding its own shard's namespaces, loads as
  their union.\<close>

lemma load_union:
  assumes files: "\<And>p. p \<in> set (shard_paths disk dbdir) \<Longrightarrow> \<exists>s \<in> S. p = shard_file env dbdir s"
    and inj: "inj_on (shard_name env) S"
    and read: "\<And>s. s \<in> S \<Longrightarrow> \<exists>m. read_shard_file env disk dbdir s = Inr m \<and> (\<forall>n. fmlookup m n = (if shard_of n = s then C n else None))"
    and rest: "\<And>n. shard_of n \<notin> S \<Longrightarrow> C n = None"
    and legacy: "fmlookup disk (path_join dbdir LEGACY_SNAPSHOT) = None"
  shows "\<exists>loaded. load env disk dbdir = Inr loaded \<and>
    (case loaded of None \<Rightarrow> \<forall>n. C n = None | Some data \<Rightarrow> \<forall>n. fmlookup (sd_namespaces data) n = C n)"
proof -
  let ?paths = "shard_paths disk dbdir"
  define D where "D p = (case read_shard env disk p of Inl e \<Rightarrow> fmempty | Inr d \<Rightarrow> sd_namespaces d)" for p
  have ok: "\<exists>d. read_shard env disk p = Inr d \<and> check_version (sd_version d) = None \<and> sd_namespaces d = D p"
    if p: "p \<in> set ?paths" for p
  proof -
    obtain s where s: "s \<in> S" "p = shard_file env dbdir s" using files [OF p] by blast
    obtain m where m: "read_shard_file env disk dbdir s = Inr m" using read [OF s(1)] by blast
    show ?thesis using read_shard_of_file [OF m] shard_paths_mem [OF p] s(2) by (auto simp: D_def)
  qed
  have D: "fmlookup (D (shard_file env dbdir s)) n = (if shard_of n = s then C n else None)"
    if s: "s \<in> S" "shard_file env dbdir s \<in> set ?paths" for s n
  proof -
    obtain m where m: "read_shard_file env disk dbdir s = Inr m" "\<forall>n. fmlookup m n = (if shard_of n = s then C n else None)"
      using read [OF s(1)] by blast
    then have "D (shard_file env dbdir s) = m"
      using read_shard_of_file [OF m(1)] shard_paths_mem [OF s(2)] by (auto simp: D_def)
    then show ?thesis using m(2) by simp
  qed
  let ?N = "fold (\<lambda>p m. m ++\<^sub>f D p) ?paths fmempty"
  have N: "fmlookup ?N n = C n" for n
  proof -
    let ?q = "shard_file env dbdir (shard_of n)"
    have "fmlookup (D p) n = None" if "p \<in> set ?paths" "p \<noteq> ?q" for p using files [OF that(1)] D that by auto
    note look = merged_lookup [where D = D and n = n and m = fmempty and paths = "?paths" and q = ?q, OF this]
    show ?thesis
    proof (cases "shard_of n \<in> S")
      case False
      then have "fmlookup (D ?q) n = None" if "?q \<in> set ?paths"
        using files [OF that] D rest [OF False] that by fastforce
      then show ?thesis using look rest [OF False] by auto
    next
      case True
      have "C n = None" if "?q \<notin> set ?paths"
      proof -
        have "fmlookup disk ?q = None" using that by (simp add: shard_paths_iff)
        then obtain m where "\<forall>k. fmlookup m k = (if shard_of k = shard_of n then C k else None)" "m = fmempty"
          using read [OF True] by (auto simp: read_shard_file_def Let_def)
        then show ?thesis by (metis fmempty_lookup)
      qed
      then show ?thesis using look D [OF True] by auto
    qed
  qed
  have "load_legacy env disk dbdir = Inr None" by (simp add: load_legacy_def legacy)
  then have l: "load env disk dbdir = Inr (if ?paths = [] then None else Some \<lparr>sd_version = SNAPSHOT_VERSION, sd_namespaces = ?N\<rparr>)"
    using load_shards_merge [of ?paths env disk D fmempty, OF ok] by (simp add: load_def Let_def)
  show ?thesis
  proof (cases "?paths = []")
    case True
    then have "C n = None" for n using N [of n] by simp
    then show ?thesis using l True by simp
  next
    case False
    then show ?thesis using l N by simp
  qed
qed

section \<open>Restarting\<close>

text \<open>No shard is dirty and out of memory: what is marked for the next save is there to be saved.\<close>

definition dirty_in_memory :: "database \<Rightarrow> bool" where
  "dirty_in_memory db \<longleftrightarrow> (\<forall>s meta. s |\<in>| db_dirty db \<and> fmlookup (db_shards db) s = Some meta \<longrightarrow> sm_resident meta)"

lemma shards_in_memory:
  "s |\<in>| Database_shards db \<longleftrightarrow> (\<exists>n \<in> fmdom' (db_namespaces db). shard_of n = s)"
  by (auto simp: Database_shards_def fset_of_list_elem)

lemma saved_shard:
  assumes codec: "codec_ok env" and inv: "db_inv_upto env disk X db" and store: "db_store db = Some st"
    and meta: "fmlookup (db_shards db) s = Some meta" and X: "X \<subseteq> fset (Database_shards db)" and mem: "dirty_in_memory db"
    and kept: "fmlookup disk' (shard_file env (st_dbdir st) s) =
      (if s |\<in>| Database_shards db then Some (e_shard_out env (Database_shard_snapshot db s))
       else if s |\<in>| db_dirty db then None else fmlookup disk (shard_file env (st_dbdir st) s))"
  shows "\<exists>m. read_shard_file env disk' (st_dbdir st) s = Inr m \<and>
    (\<forall>n. fmlookup m n = (if shard_of n = s then contents env disk db n else None))"
proof -
  have sound: "shard_sound env disk X db s meta" using inv meta by (simp add: db_inv_upto_def)
  have snap: "fmlookup (stored_values (sd_namespaces (Database_shard_snapshot db s))) n =
      (if shard_of n = s then contents env disk db n else None)" if "sm_resident meta" for n
    using that meta by (auto simp: contents_def Database_catalogued_def split: option.splits)
  show ?thesis
  proof (cases "s |\<in>| Database_shards db")
    case True
    then have "sm_resident meta" using inv meta by (auto simp: shards_in_memory db_inv_upto_def shard_resident_def split: option.splits)
    moreover have "read_shard_file env disk' (st_dbdir st) s = Inr (stored_values (sd_namespaces (Database_shard_snapshot db s)))"
      using kept True by (intro read_written [OF codec]) (simp_all add: Database_shard_snapshot_def)
    ultimately show ?thesis using snap by auto
  next
    case absent: False
    then have empty_snap: "fmlookup (stored_values (sd_namespaces (Database_shard_snapshot db s))) n = None" for n
      by (auto simp: shards_in_memory fmlookup_dom'_iff)
    have same: "read_shard_file env disk' (st_dbdir st) s = read_shard_file env disk (st_dbdir st) s" if "s |\<notin>| db_dirty db"
      using kept absent that by (intro read_shard_file_cong) simp
    consider "sm_resident meta" "s |\<in>| db_dirty db" | "sm_resident meta" "s |\<notin>| db_dirty db" | "\<not> sm_resident meta" by blast
    then show ?thesis
    proof cases
      case 1
      then have "read_shard_file env disk' (st_dbdir st) s = Inr fmempty" using kept absent by (simp add: read_shard_file_def Let_def)
      then show ?thesis using snap [OF 1(1)] empty_snap by auto
    next
      case 2
      then have "read_shard_file env disk (st_dbdir st) s = Inr (stored_values (sd_namespaces (Database_shard_snapshot db s)))"
        using absent X by (intro shard_sound_clean [OF sound _ store]) auto
      then show ?thesis using snap [OF 2(1)] same [OF 2(2)] by auto
    next
      case 3
      then obtain data where data: "read_shard_file env disk (st_dbdir st) s = Inr (stored_values data)" "fmdom data = sm_namespaces meta"
        using sound store by (auto simp: shard_sound_def)
      have "s |\<notin>| db_dirty db" using mem meta 3 by (auto simp: dirty_in_memory_def)
      moreover have "fmlookup (stored_values data) n = (if shard_of n = s then contents env disk db n else None)" for n
      proof (cases "shard_of n = s")
        case True
        have "fmlookup (db_namespaces db) n = None"
          using not_resident_not_in_memory [OF inv, of n] True meta 3 by (simp add: shard_resident_def)
        moreover have "Database_catalogued db s n \<longleftrightarrow> fmlookup data n \<noteq> None"
          using meta 3 data(2) by (auto simp: Database_catalogued_def fmlookup_dom_iff [symmetric])
        ultimately show ?thesis using True data(1) store by (auto simp: contents_def on_disk_def option.map_comp comp_def)
      next
        case False
        then have "n |\<notin>| sm_namespaces meta" using shard_sound_names [OF sound] by blast
        then have "fmlookup data n = None" using data(2) by (metis fmdom_notD)
        then show ?thesis using False by simp
      qed
      ultimately show ?thesis using same data(1) by auto
    qed
  qed
qed

lemma catalogue_lookup:
  "fmlookup (catalogue_of seen names) s =
     (if \<exists>n \<in> set names. shard_of n = s
      then Some \<lparr>sm_namespaces = fset_of_list (filter (\<lambda>n. shard_of n = s) names), sm_resident = True, sm_last_access = seen\<rparr>
      else None)"
proof (induction names rule: rev_induct)
  case (snoc n names)
  then show ?case by (auto simp: catalogue_of_def Let_def fm_get_def ShardMeta_default_def filter_empty_conv fset_of_list_elem)
qed (simp add: catalogue_of_def)

lemma opened_fields:
  assumes "open_database env disk now policy stores node (Some dir) = Inr db" "load env disk dir = Inr loaded"
  shows "db_namespaces db = fmmap (\<lambda>values. Namespace_from_values values node) (case loaded of None \<Rightarrow> fmempty | Some data \<Rightarrow> sd_namespaces data)"
    "db_dirty db = {||}" "db_shards db = catalogue_of (timestamp now) (fm_keys (db_namespaces db))"
proof -
  define start where "start = (case loaded of Some data \<Rightarrow> Database_from_snapshot_as now data policy stores node
    | None \<Rightarrow> Database_with_node policy stores node)"
  have start: "db_namespaces start = fmmap (\<lambda>values. Namespace_from_values values node) (case loaded of None \<Rightarrow> fmempty | Some data \<Rightarrow> sd_namespaces data)"
    "db_dirty start = {||}" "db_shards start = catalogue_of (timestamp now) (fm_keys (db_namespaces start))"
    by (cases loaded; simp add: start_def Database_from_snapshot_as_def Database_with_node_def Let_def catalogue_of_def fm_keys_eq)+
  have "db_namespaces db = db_namespaces start \<and> db_dirty db = db_dirty start \<and> db_shards db = db_shards start"
    using assms unfolding open_database_def
    by (cases "load_activity env disk dir"; cases "load_latest env disk dir") (simp_all add: Let_def start_def [symmetric], auto)
  then show "db_namespaces db = fmmap (\<lambda>values. Namespace_from_values values node) (case loaded of None \<Rightarrow> fmempty | Some data \<Rightarrow> sd_namespaces data)"
    "db_dirty db = {||}" "db_shards db = catalogue_of (timestamp now) (fm_keys (db_namespaces db))"
    using start by simp_all
qed

text \<open>A database built from what was read, and its files.\<close>

lemma reopened:
  assumes inj: "\<And>n. C n = fmlookup N n" and stored: "\<And>n m. C n = Some m \<Longrightarrow> fmmap stored_attr m = m"
    and files: "\<And>s. \<exists>n. shard_of n = s \<and> C n \<noteq> None \<Longrightarrow> \<exists>m. read_shard_file env disk (st_dbdir st) s = Inr m \<and>
       (\<forall>n. fmlookup m n = (if shard_of n = s then C n else None))"
    and same: "db_namespaces db = fmmap (\<lambda>values. Namespace_from_values values node) N" "db_dirty db = {||}"
      "db_shards db = catalogue_of seen (fm_keys (db_namespaces db))" "db_store db = Some st"
  shows "db_inv_upto env disk {} db" "contents env disk db n = C n"
proof -
  have mem: "fmlookup (db_namespaces db) n = map_option (\<lambda>values. Namespace_from_values values node) (C n)" for n
    by (simp add: same(1) inj)
  have vals: "fmmap stored_attr (ns_values (Namespace_from_values m node)) = m" if "C n = Some m" for n m
    using stored [OF that] from_stored_values [of m node] by simp
  show cont: "contents env disk db n = C n" for n
  proof (cases "C n")
    case None
    then have "\<not> Database_catalogued db (shard_of n) n"
      by (auto simp: Database_catalogued_def same(3) catalogue_lookup)
    then show ?thesis using None by (simp add: contents_def mem)
  next
    case (Some m)
    then show ?thesis using vals by (simp add: contents_def mem)
  qed
  have dom: "n \<in> fmdom' (db_namespaces db) \<longleftrightarrow> C n \<noteq> None" for n by (auto simp: fmlookup_dom'_iff mem)
  have "shard_sound env disk {} db s meta" if meta: "fmlookup (db_shards db) s = Some meta" for s meta
  proof (rule shard_sound_residentI)
    have m: "sm_resident meta" "\<And>n. n |\<in>| sm_namespaces meta \<longleftrightarrow> shard_of n = s \<and> C n \<noteq> None" "\<exists>n. shard_of n = s \<and> C n \<noteq> None"
      using meta dom by (auto simp: same(3) catalogue_lookup fset_of_list_elem split: if_splits)
    show "shard_of n = s" if "n |\<in>| sm_namespaces meta" for n using that m(2) by blast
    show "sm_resident meta" by (rule m(1))
    show "n |\<in>| sm_namespaces meta \<longleftrightarrow> n \<in> fmdom' (db_namespaces db)" if "shard_of n = s" for n using that m(2) dom by blast
    fix st' assume "db_store db = Some st'"
    then have "st' = st" using same(4) by simp
    obtain x where x: "read_shard_file env disk (st_dbdir st) s = Inr x" "\<forall>n. fmlookup x n = (if shard_of n = s then C n else None)"
      using files [OF m(3)] by blast
    have "x = stored_values (sd_namespaces (Database_shard_snapshot db s))"
    proof (rule fmap_ext)
      fix n show "fmlookup x n = fmlookup (stored_values (sd_namespaces (Database_shard_snapshot db s))) n"
        using x(2) vals [of n] by (cases "C n") (simp_all add: mem)
    qed
    then show "read_shard_file env disk (st_dbdir st') s = Inr (stored_values (sd_namespaces (Database_shard_snapshot db s)))"
      using x(1) \<open>st' = st\<close> by simp
  qed
  moreover have "ns_sound ns" if held: "fmlookup (db_namespaces db) n = Some ns" for n ns
  proof -
    obtain m where "C n = Some m" "ns = Namespace_from_values m node" using held by (auto simp: mem)
    then show ?thesis using from_stored_sound [of m node] stored by auto
  qed
  moreover have "shard_resident db (shard_of n)" if "n \<in> fmdom' (db_namespaces db)" for n
    using that by (auto simp: shard_resident_def same(3) catalogue_lookup)
  ultimately show "db_inv_upto env disk {} db" by (simp add: db_inv_upto_def)
qed

lemma contents_stored: "contents env disk db n = Some m \<Longrightarrow> fmmap stored_attr m = m"
  by (auto simp: contents_def split: option.splits if_splits)

text \<open>Saving everything and opening the directory again; the shards that come back are among those that were.\<close>

lemma restart_reopens:
  assumes "codec_ok env" and "db_inv_upto env disk X db" and "X \<subseteq> fset (Database_shards db)" and "db_store db = Some st"
    and "dirty_in_memory db" and "fset (db_dirty db) \<subseteq> fmdom' (db_shards db)" and "files_apart env (fmdom' (db_shards db))"
    and "\<forall>p \<in> set (shard_paths disk (st_dbdir st)). \<exists>s \<in> fmdom' (db_shards db). p = shard_file env (st_dbdir st) s"
    and "fmlookup disk (path_join (st_dbdir st) LEGACY_SNAPSHOT) = None" and "\<forall>p. removable p"
    and "save env mkdir_ok removable disk (st_dbdir st) True db = (disk', db', Inr report)"
    and "st_dbdir st2 = st_dbdir st"
  shows "\<exists>db2. open_database env disk' now policy stores node (Some (st_dbdir st)) = Inr db2 \<and>
    contents env disk' (Database_attach_store db2 st2 tiers) = contents env disk db \<and>
    db_inv_upto env disk' {} (Database_attach_store db2 st2 tiers) \<and> fmdom' (db_shards db2) \<subseteq> fmdom' (db_shards db)"
proof -
  let ?S = "fmdom' (db_shards db)" and ?dir = "st_dbdir st" and ?C = "contents env disk db"
  have inj: "inj_on (shard_name env) ?S" using assms(7) by (simp add: files_apart_def)
  have present: "fset (Database_shards db) \<subseteq> ?S"
    using assms(2) by (auto simp: shards_in_memory db_inv_upto_def shard_resident_def fmlookup_dom'_iff split: option.splits)
  note files = save_all_files [OF assms(11) spec [OF assms(10)] inj present assms(6)]
  have read: "\<exists>m. read_shard_file env disk' ?dir s = Inr m \<and> (\<forall>n. fmlookup m n = (if shard_of n = s then ?C n else None))"
    if s: "s \<in> ?S" for s
  proof -
    obtain meta where "fmlookup (db_shards db) s = Some meta" using s by (auto simp: fmlookup_dom'_iff)
    from saved_shard [OF assms(1,2,4) this assms(3,5) files(1) [OF s]] show ?thesis .
  qed
  have rest: "?C n = None" if "shard_of n \<notin> ?S" for n
    using that not_resident_not_in_memory [OF assms(2), of n]
    by (auto simp: contents_def Database_catalogued_def shard_resident_def fmlookup_dom'_iff)
  have legacy: "fmlookup disk' (path_join ?dir LEGACY_SNAPSHOT) = None"
  proof -
    have "path_join ?dir LEGACY_SNAPSHOT \<notin> shard_file env ?dir ` ?S"
    proof
      assume "path_join ?dir LEGACY_SNAPSHOT \<in> shard_file env ?dir ` ?S"
      then obtain s where "path_join ?dir LEGACY_SNAPSHOT = shard_file env ?dir s" by blast
      then have "last (path_join ?dir LEGACY_SNAPSHOT) = CHR ''t''" using suffix_last [OF shard_file_ends] by metis
      then show False by (simp add: path_join_def LEGACY_SNAPSHOT_def)
    qed
    then show ?thesis using assms(9) files(2) [of "path_join ?dir LEGACY_SNAPSHOT"]
      by (simp add: no_temp_def path_join_def LEGACY_SNAPSHOT_def ACTIVITY_FILE_def LATEST_FILE_def)
  qed
  have own: "\<exists>s \<in> ?S. p = shard_file env ?dir s" if p: "p \<in> set (shard_paths disk' ?dir)" for p
  proof (rule ccontr)
    assume no: "\<not> (\<exists>s \<in> ?S. p = shard_file env ?dir s)"
    have last: "last p = CHR ''t''" using shard_paths_mem [OF p] suffix_last by blast
    then have "no_temp p" "p \<noteq> path_join ?dir ACTIVITY_FILE" "p \<noteq> path_join ?dir LATEST_FILE"
      by (auto simp: no_temp_def path_join_def ACTIVITY_FILE_def LATEST_FILE_def)
    then have "fmlookup disk' p = fmlookup disk p" using no by (intro files(2)) auto
    then have "p \<in> set (shard_paths disk ?dir)" using p by (auto simp: shard_paths_def fmlookup_dom'_iff)
    then show False using assms(8) no by blast
  qed
  obtain loaded where l: "load env disk' ?dir = Inr loaded"
    "case loaded of None \<Rightarrow> \<forall>n. ?C n = None | Some data \<Rightarrow> \<forall>n. fmlookup (sd_namespaces data) n = ?C n"
    using load_union [OF own inj read rest legacy] by blast
  define N where "N = (case loaded of None \<Rightarrow> fmempty | Some data \<Rightarrow> sd_namespaces data)"
  have N: "?C n = fmlookup N n" for n using l(2) by (simp add: N_def split: option.splits)
  obtain db2 where db2: "open_database env disk' now policy stores node (Some ?dir) = Inr db2"
    by (simp add: open_database_def l(1) Let_def)
  define db3 where "db3 = Database_attach_store db2 st2 tiers"
  have f: "db_namespaces db3 = db_namespaces db2" "db_dirty db3 = db_dirty db2" "db_shards db3 = db_shards db2" "db_store db3 = Some st2"
    by (simp_all add: db3_def Database_attach_store_def)
  have n3: "db_namespaces db3 = fmmap (\<lambda>values. Namespace_from_values values node) N"
    unfolding f(1) N_def by (rule opened_fields(1) [OF db2 l(1)])
  have d3: "db_dirty db3 = {||}" unfolding f(2) by (rule opened_fields(2) [OF db2 l(1)])
  have s3: "db_shards db3 = catalogue_of (timestamp now) (fm_keys (db_namespaces db3))"
    unfolding f(1,3) by (rule opened_fields(3) [OF db2 l(1)])
  have on_file: "\<exists>m. read_shard_file env disk' ?dir s = Inr m \<and> (\<forall>n. fmlookup m n = (if shard_of n = s then ?C n else None))"
    if held: "\<exists>n. shard_of n = s \<and> ?C n \<noteq> None" for s
  proof -
    obtain n where n: "shard_of n = s" "?C n \<noteq> None" using held by blast
    have "s \<in> ?S" using n(2) rest [of n] unfolding n(1) by (rule contrapos_np)
    then show ?thesis by (rule read)
  qed
  have "db_inv_upto env disk' {} db3"
    by (rule reopened(1) [where C = ?C, OF N _ _ n3 d3 s3 f(4)]) (rule contents_stored, assumption, simp only: assms(12), rule on_file)
  moreover have "contents env disk' db3 n = ?C n" for n
    by (rule reopened(2) [where C = ?C, OF N _ _ n3 d3 s3 f(4)]) (rule contents_stored, assumption, simp only: assms(12), rule on_file)
  then have "contents env disk' db3 = ?C" by (rule ext)
  moreover have "fmdom' (db_shards db2) \<subseteq> ?S"
  proof
    fix s
    assume "s \<in> fmdom' (db_shards db2)"
    then obtain n where n: "n \<in> set (fm_keys (db_namespaces db3))" "shard_of n = s"
      using s3 by (auto simp: f(3) fmlookup_dom'_iff catalogue_lookup split: if_splits)
    then have "?C n \<noteq> None" by (auto simp: n3 N fmlookup_dom'_iff)
    with rest [of n] n(2) show "s \<in> ?S" by metis
  qed
  ultimately show ?thesis using db2 unfolding db3_def by blast
qed

text \<open>
  A restart after a full save loses nothing: the files a successful save of everything leaves are
  read back by the next start into a database that holds exactly the same namespaces and values, to
  the second, evicted shards included, and that satisfies the invariant with nothing left to write.
  The hypotheses: the codecs read what they write, the shards' file names differ, the directory holds
  no other shard file and no snapshot of the old format, and stale files can be removed.
\<close>
theorem restart_restores:
  assumes "codec_ok env" and "db_inv_upto env disk X db" and "X \<subseteq> fset (Database_shards db)" and "db_store db = Some st"
    and "dirty_in_memory db" and "fset (db_dirty db) \<subseteq> fmdom' (db_shards db)" and "files_apart env (fmdom' (db_shards db))"
    and "\<forall>p \<in> set (shard_paths disk (st_dbdir st)). \<exists>s \<in> fmdom' (db_shards db). p = shard_file env (st_dbdir st) s"
    and "fmlookup disk (path_join (st_dbdir st) LEGACY_SNAPSHOT) = None" and "\<forall>p. removable p"
    and "save env mkdir_ok removable disk (st_dbdir st) True db = (disk', db', Inr report)"
  shows "\<exists>db2. open_database env disk' now policy stores node (Some (st_dbdir st)) = Inr db2 \<and>
    contents env disk' (Database_attach_store db2 st tiers) = contents env disk db \<and>
    db_inv_upto env disk' {} (Database_attach_store db2 st tiers)"
  using restart_reopens [OF assms refl, of now policy stores node tiers] by blast

lemma sample_save:
  "\<exists>disk' db' report. save sample_env True (\<lambda>_. True) disk ''db'' True db = (disk', db', Inr report)"
proof -
  have file_ok: "\<exists>d. write_file sample_env disk p f = (d, Inr 0)" for disk p f
    by (simp add: write_file_def sample_env_def Let_def)
  have loop: "\<exists>d r. save_loop sample_env ''db'' True dirty shards disk db report = (d, db, Inr r)" for dirty shards disk db report
  proof (induction shards arbitrary: disk report)
    case (Cons s shards)
    obtain d where "write_shard sample_env disk ''db'' s (Database_shard_snapshot db s) = (d, Inr 0)"
      using file_ok by (metis write_shard_def)
    then show ?case using Cons by simp
  qed simp
  have json: "\<exists>d. save_json sample_env disk dir name f = (d, Inr ())" for disk dir name f
    using file_ok [of disk "path_join dir name" f] by (auto simp: save_json_def)
  have act: "\<exists>d db'. save_activity sample_env disk ''db'' True db = (d, db', Inr ())" for disk db
  proof -
    obtain a data where "Activity_take_snapshot (db_activity db) True = (a, Some data)" by (simp add: Activity_take_snapshot_def Let_def)
    moreover obtain d where "save_json sample_env disk ''db'' ACTIVITY_FILE (e_activity_out sample_env data) = (d, Inr ())" using json by blast
    ultimately show ?thesis by (simp add: save_activity_def)
  qed
  have lat: "\<exists>d db'. save_latest sample_env disk ''db'' True db = (d, db', Inr ())" for disk db
  proof -
    obtain a data where "Latest_take_snapshot (db_latest db) True = (a, Some data)" by (simp add: Latest_take_snapshot_def Let_def)
    moreover obtain d where "save_json sample_env disk ''db'' LATEST_FILE (e_latest_out sample_env data) = (d, Inr ())" using json by blast
    ultimately show ?thesis by (simp add: save_latest_def)
  qed
  obtain db0 dirty where t: "Database_take_dirty db = (db0, dirty)" by fastforce
  obtain d1 r where 1: "save_loop sample_env ''db'' True dirty (sorted_list_of_fset (Database_shards db)) disk db0 SaveReport_default = (d1, db0, Inr r)"
    using loop by blast
  obtain d2 db2 where 2: "save_activity sample_env d1 ''db'' True db0 = (d2, db2, Inr ())" using act by blast
  obtain d3 db3 where "save_latest sample_env d2 ''db'' True db2 = (d3, db3, Inr ())" using lat by blast
  with t 1 2 show ?thesis by (simp add: save_def)
qed

theorem restart_restores_witness:
  "\<exists>disk' db2. open_database sample_env disk' (DateTime 200 0) \<lparr>stats_retention = 0, shadow_ttl = 0\<rparr> StoragePolicy_everything ''local'' (Some ''db'') = Inr db2 \<and>
     contents sample_env disk' (Database_attach_store db2 \<lparr>st_dbdir = ''db'', st_level = 3\<rparr> TierPolicy_default) =
     contents sample_env fmempty (fst sample_write)"
proof -
  let ?db = "fst sample_write" and ?st = "\<lparr>st_dbdir = ''db'', st_level = 3\<rparr>"
  obtain disk' db' report where sv: "save sample_env True (\<lambda>_. True) fmempty (st_dbdir ?st) True ?db = (disk', db', Inr report)"
    using sample_save by fastforce
  have store: "db_store ?db = Some ?st"
    by (simp add: sample_write_value sample_store_db_def Database_attach_store_def)
  have shards: "fmdom' (db_shards ?db) = {''feeds'', INTERNAL_SHARD}" "fset (db_dirty ?db) = {''feeds'', INTERNAL_SHARD}"
    by (auto simp: sample_write_value)
  have mem: "dirty_in_memory ?db" by (auto simp: dirty_in_memory_def sample_write_value split: if_splits)
  have apart: "files_apart sample_env (fmdom' (db_shards ?db))"
  proof -
    have "shard_name sample_env INTERNAL_SHARD \<noteq> shard_name sample_env ''feeds''" by code_simp
    then show ?thesis unfolding shards files_apart_def by auto
  qed
  show ?thesis
    using restart_restores [OF sample_env_ok sample_write_inv _ store mem _ apart _ _ _ sv, of "DateTime 200 0"
        "\<lparr>stats_retention = 0, shadow_ttl = 0\<rparr>" StoragePolicy_everything "''local''" TierPolicy_default] shards
    by (fastforce simp: shard_paths_def)
qed

end
