(* ===== verification/Consensus.thy ===== *)
theory Consensus
  imports Database_Laws
begin

text \<open>
  Consensus: \<open>_all\<close> says in how many namespaces a value is held. The tally is kept by three parties, the
  first write of a value into a namespace (\<open>record_write\<close>), \<open>delete\<close> and \<open>sweep\<close> (\<open>release_consensus\<close>); the
  theorems say that together they keep it equal to what the database holds.
\<close>

section \<open>The tally as a view of the contents\<close>

type_synonym logical = "string \<Rightarrow> (string, attribute) fmap option"

definition holders :: "logical \<Rightarrow> string \<Rightarrow> string set" where
  "holders C v = {n. counts_towards_consensus n \<and> v \<in> fmdom' (values_of C n)}"

text \<open>\<open>tallied node C h\<close>: the entry of each value in \<open>_all\<close> is one count of \<open>h v\<close> under this server's name,
  and there is none where \<open>h v\<close> is 0.\<close>

definition tally_is :: "string \<Rightarrow> nat \<Rightarrow> attribute option \<Rightarrow> bool" where
  "tally_is node k entry \<longleftrightarrow> (case entry of
       None \<Rightarrow> k = 0
     | Some a \<Rightarrow> counts a = fmupd node (of_nat k) fmempty \<and> 0 < k \<and> k < 2 ^ 64 \<and> ttl a = 0)"

definition tallied :: "string \<Rightarrow> logical \<Rightarrow> (string \<Rightarrow> nat) \<Rightarrow> bool" where
  "tallied node C h \<longleftrightarrow> (\<forall>v. tally_is node (h v) (fmlookup (values_of C ALL_NAMESPACE) v))"

definition consensus_ok :: "string \<Rightarrow> logical \<Rightarrow> bool" where
  "consensus_ok node C \<longleftrightarrow> tallied node C (\<lambda>v. card (holders C v))"

lemma all_does_not_count [simp]: "\<not> counts_towards_consensus ALL_NAMESPACE"
  by (simp add: counts_towards_consensus_def)

lemma values_of_upd [simp]:
  "values_of (C(n := Some m)) n' = (if n' = n then m else values_of C n')"
  "values_of (C(n := None)) n' = (if n' = n then fmempty else values_of C n')"
  by (simp_all add: values_of_def)

lemma finite_holders: "finite {n. C n \<noteq> None} \<Longrightarrow> finite (holders C v)"
  by (rule finite_subset [of _ "{n. C n \<noteq> None}"]) (auto simp: holders_def values_of_def split: option.splits)

lemma finite_contents: "finite {n. contents env disk db n \<noteq> None}"
proof (rule finite_subset)
  show "{n. contents env disk db n \<noteq> None} \<subseteq>
      fmdom' (db_namespaces db) \<union> (\<Union>meta \<in> fmran' (db_shards db). fset (sm_namespaces meta))"
    by (auto simp: contents_def Database_catalogued_def fmlookup_dom'_iff split: option.splits if_splits intro: fmran'I)
qed (simp add: fmran'_alt_def)

lemmas finite_holders_db = finite_holders [OF finite_contents]

lemma tallied_cong:
  "tallied node C h \<Longrightarrow> values_of C' ALL_NAMESPACE = values_of C ALL_NAMESPACE \<Longrightarrow> h' = h \<Longrightarrow> tallied node C' h'"
  by (simp add: tallied_def)

lemma tally_is_simps [simp]:
  "tally_is node k None \<longleftrightarrow> k = 0"
  "tally_is node k (Some a) \<longleftrightarrow> counts a = fmupd node (of_nat k) fmempty \<and> 0 < k \<and> k < 2 ^ 64 \<and> ttl a = 0"
  by (simp_all add: tally_is_def)

lemma tallied_at: "tallied node C h \<Longrightarrow> tally_is node (h v) (fmlookup (values_of C ALL_NAMESPACE) v)"
  by (simp add: tallied_def)

lemma tally_count:
  assumes "tallied node C h"
  shows "count_in C ALL_NAMESPACE v now = of_nat (h v)"
proof (cases "fmlookup (values_of C ALL_NAMESPACE) v")
  case None
  then show ?thesis using tallied_at [OF assms, of v] by (simp add: count_in_def)
next
  case (Some a)
  then have a: "counts a = fmupd node (of_nat (h v)) fmempty" "ttl a = 0"
    using tallied_at [OF assms, of v] by auto
  then have "\<not> Attribute_is_expired a now" by (auto dest: expired_ttl)
  with Some a show ?thesis by (simp add: count_in_def Attribute_count_def fm_sum_upd fm_get_def)
qed

subsection \<open>One more holder, one fewer\<close>

lemma tally_up:
  assumes t: "tallied node C h" and bound: "h v < 2 ^ 64 - 1"
  shows "tallied node (sighted C node ALL_NAMESPACE v when None k []) (h(v := h v + 1))"
proof -
  define a0 where "a0 = fm_get (Attribute_new v) (values_of C ALL_NAMESPACE) v"
  have a: "counts a0 = (if h v = 0 then fmempty else fmupd node (of_nat (h v)) fmempty)" "ttl a0 = 0"
    using tallied_at [OF t, of v] by (auto simp: a0_def fm_get_def Attribute_new_def split: option.splits)
  then have "fm_get0 (counts a0) node = of_nat (h v)" by (simp add: fm_get_def)
  then have "counts (stored_attr (sight a0 node when None k [])) = fmupd node (of_nat (h v + 1)) fmempty"
    by (simp add: stored_attr_def sight_fields add.commute) (simp add: a)
  moreover have "ttl (stored_attr (sight a0 node when None k [])) = 0" by (simp add: a ttl_sight)
  ultimately show ?thesis
    using t bound by (simp add: tallied_def sighted_def a0_def [symmetric])
qed

lemma u64_of_nat_0: "n < 2 ^ 64 \<Longrightarrow> (of_nat n :: u64) = 0 \<longleftrightarrow> n = 0"
  by (auto simp: word_of_nat_eq_0_iff dest: dvd_imp_le)

text \<open>\<open>release_consensus\<close>.\<close>

definition released :: "string \<Rightarrow> string \<Rightarrow> logical \<Rightarrow> logical" where
  "released node v C =
     (case C ALL_NAMESPACE of
        None \<Rightarrow> C
      | Some m \<Rightarrow> C(ALL_NAMESPACE := Some (ns_values (Namespace_release \<lparr>ns_values = m, ns_has_ttl = False\<rparr> node v))))"

lemma tally_down:
  assumes t: "tallied node C h"
  shows "tallied node (released node v C) (h(v := h v - 1))"
proof (cases "fmlookup (values_of C ALL_NAMESPACE) v")
  case None
  then have "h v = 0" using tallied_at [OF t, of v] by simp
  have "values_of (released node v C) ALL_NAMESPACE = values_of C ALL_NAMESPACE"
    using None by (auto simp: released_def Namespace_release_def values_of_def split: option.splits)
  then show ?thesis using t \<open>h v = 0\<close> None by (simp add: tallied_def)
next
  case (Some a)
  then have a: "counts a = fmupd node (of_nat (h v)) fmempty" "0 < h v" "h v < 2 ^ 64" "ttl a = 0"
    using tallied_at [OF t, of v] by auto
  obtain m where m: "C ALL_NAMESPACE = Some m" "fmlookup m v = Some a"
    using Some by (auto simp: values_of_def split: option.splits)
  have "(1::u64) \<le> of_nat (h v)" using a(2,3) by (simp add: word_le_nat_alt unsigned_of_nat take_bit_nat_eq_self)
  then have "saturating_sub_u64 (of_nat (h v)) 1 = of_nat (h v - 1)"
    using a(2) by (simp add: saturating_sub_u64_def of_nat_diff)
  moreover have "(of_nat (h v - 1) :: u64) = 0 \<longleftrightarrow> h v - 1 = 0"
    using a(3) by (intro u64_of_nat_0) simp
  ultimately show ?thesis
    using t a m by (auto simp: tallied_def released_def Namespace_release_def Attribute_decrement_def Let_def
        Attribute_count_def values_of_def fm_sum_drop fm_sum_upd fm_get_def)
qed

section \<open>Writing\<close>

lemma holders_sighted:
  assumes "counts_towards_consensus path"
  shows "holders (sighted C node path v when t k g) w = (if w = v then insert path (holders C v) else holders C w)"
  using assms by (auto simp: holders_def sighted_def)

lemma holders_all: "holders (sighted C node ALL_NAMESPACE v when t k g) w = holders C w"
  by (auto simp: holders_def sighted_def)

lemma all_ttl: "write_ttl policy ALL_NAMESPACE WriteOpts_default = None"
  by (simp add: write_ttl_def WriteOpts_default_def sample_paths)

lemma consensus_again:
  assumes ok: "consensus_ok node C" and p: "counts_towards_consensus path"
    and held: "fmlookup (values_of C path) v \<noteq> None"
  shows "consensus_ok node (sighted C origin path v when t k g)"
proof -
  have "path \<in> holders C v" using p held by (auto simp: holders_def fmlookup_dom'_iff)
  then have h: "holders (sighted C origin path v when t k g) w = holders C w" for w
    by (auto simp: holders_sighted [OF p])
  have "path \<noteq> ALL_NAMESPACE" using p by auto
  then have "values_of (sighted C origin path v when t k g) ALL_NAMESPACE = values_of C ALL_NAMESPACE"
    by (simp add: sighted_def)
  with ok show ?thesis unfolding consensus_ok_def h by (rule tallied_cong) simp
qed

lemma consensus_first:
  assumes ok: "consensus_ok node C" and p: "counts_towards_consensus path" and fin: "finite (holders C v)"
    and new: "fmlookup (values_of C path) v = None" and bound: "card (holders C v) < 2 ^ 64 - 1"
  shows "consensus_ok node (sighted (sighted C origin path v when t k g) node ALL_NAMESPACE v when None k' [])"
proof -
  let ?C = "sighted C origin path v when t k g"
  have "path \<noteq> ALL_NAMESPACE" using p by auto
  then have "values_of ?C ALL_NAMESPACE = values_of C ALL_NAMESPACE" by (simp add: sighted_def)
  then have "tallied node ?C (\<lambda>w. card (holders C w))"
    using ok unfolding consensus_ok_def by (metis tallied_cong)
  from tally_up [OF this bound]
  have "tallied node (sighted ?C node ALL_NAMESPACE v when None k' []) ((\<lambda>w. card (holders C w))(v := card (holders C v) + 1))" .
  moreover have "path \<notin> holders C v" using new by (auto simp: holders_def fmlookup_dom'_iff)
  then have "(\<lambda>w. card (holders C w))(v := card (holders C v) + 1) = (\<lambda>w. card (holders ?C w))"
    using fin by (auto simp: holders_sighted [OF p])
  ultimately show ?thesis by (simp add: consensus_ok_def holders_all)
qed

lemma write_keeps_consensus:
  assumes "db_inv_upto env disk X db" and "consensus_ok (db_node db) (contents env disk db)"
    and "counts_towards_consensus path" and "wo_consensus opts"
    and "card (holders (contents env disk db) v) < 2 ^ 64 - 1"
    and "Database_record_write env disk now db origin path v when opts given = (db', w)"
  shows "consensus_ok (db_node db') (contents env disk db')" "path \<in> holders (contents env disk db') v"
proof -
  let ?C = "contents env disk db"
  note eff = record_write_effect [OF assms(1) assms(6)]
  have node: "db_node db' = db_node db" using eff by (simp add: same_setup_def)
  show "consensus_ok (db_node db') (contents env disk db')"
  proof (cases "w_new w")
    case True
    then show ?thesis
      using eff assms(4) consensus_first [OF assms(2,3) finite_holders_db _ assms(5)]
      by (simp add: node sighted_by_def all_ttl Let_def)
  next
    case False
    then have "fmlookup (values_of ?C path) v \<noteq> None" using eff by simp
    from consensus_again [OF assms(2,3) this] show ?thesis
      using eff False by (simp add: node sighted_by_def Let_def)
  qed
  show "path \<in> holders (contents env disk db') v"
    using eff holders_sighted [OF assms(3)] by (simp add: sighted_by_def Let_def holders_all)
qed

lemma consensus_answers:
  assumes "db_inv_upto env disk X db" "consensus_ok node (contents env disk db)"
  shows "snd (Database_count env disk now db ALL_NAMESPACE x) = of_nat (card (holders (contents env disk db) x))"
proof -
  obtain db2 c where "Database_count env disk now db ALL_NAMESPACE x = (db2, c)" by fastforce
  with count_reads [OF assms(1) this] tally_count [OF assms(2) [unfolded consensus_ok_def]] show ?thesis by simp
qed

text \<open>
  C5. Consensus counts namespaces, not writes: if every tally in \<open>_all\<close> is the number of namespaces that
  hold the value, it still is after any write that takes part in consensus, whichever server it is
  attributed to and whether or not the value was new there; and asking for the consensus of any value
  afterwards answers that number.
\<close>
theorem consensus_counts_namespaces:
  assumes "db_inv env disk db" and "consensus_ok (db_node db) (contents env disk db)"
    and "counts_towards_consensus path" and "wo_consensus opts"
    and "card (holders (contents env disk db) v) < 2 ^ 64 - 1"
    and "Database_write_tagged_as env disk now db origin path v when opts given = (db', w)"
  shows "consensus_ok (db_node db') (contents env disk db') \<and>
    path \<in> holders (contents env disk db') v \<and>
    snd (Database_count env disk now' db' ALL_NAMESPACE x) = of_nat (card (holders (contents env disk db') x))"
proof -
  note w = write_keeps_consensus [OF assms(1-5) assms(6) [unfolded Database_write_tagged_as_def]]
  have "db_inv env disk db'"
    using record_write_effect [OF assms(1) assms(6) [unfolded Database_write_tagged_as_def]] by simp
  from w consensus_answers [OF this w(1)] show ?thesis by blast
qed

lemma sample_start: "contents sample_env fmempty sample_store_db n = None"
  by (simp add: contents_def sample_store_db_def Database_attach_store_def Database_with_node_def Database_catalogued_def)

lemma sample_start_ok: "consensus_ok node (contents sample_env fmempty sample_store_db)"
  by (simp add: consensus_ok_def tallied_def holders_def values_of_def sample_start)

lemma sample_counts: "counts_towards_consensus ''feeds/a''"
  by code_simp

lemma sample_write_ok:
  "consensus_ok (db_node (fst sample_write)) (contents sample_env fmempty (fst sample_write))"
proof -
  obtain db' w where w: "sample_write = (db', w)" by fastforce
  have "card (holders (contents sample_env fmempty sample_store_db) ''v'') < 2 ^ 64 - 1"
    by (simp add: holders_def values_of_def sample_start)
  from write_keeps_consensus(1) [OF sample_store_inv sample_start_ok sample_counts _ this
      w [unfolded sample_write_def Database_write_tagged_def]]
  show ?thesis unfolding w by simp
qed

theorem consensus_counts_namespaces_witness:
  "snd (Database_count sample_env fmempty (DateTime 100 0) (fst sample_write) ALL_NAMESPACE ''v'') =
     of_nat (card (holders (contents sample_env fmempty (fst sample_write)) ''v''))"
proof -
  obtain db' w where w: "sample_write = (db', w)" by fastforce
  have inv: "db_inv sample_env fmempty sample_store_db" using sample_store_inv by (rule inv_mono) simp
  have bound: "card (holders (contents sample_env fmempty sample_store_db) ''v'') < 2 ^ 64 - 1"
    by (simp add: holders_def values_of_def sample_start)
  have "Database_write_tagged_as sample_env fmempty (DateTime 100 0) sample_store_db (db_node sample_store_db) ''feeds/a'' ''v''
      (DateTime 90 5) \<lparr>wo_consensus = True, wo_ttl = None\<rparr> [] = (db', w)"
    using w by (simp add: sample_write_def Database_write_tagged_def Database_write_tagged_as_def)
  from consensus_counts_namespaces [OF inv sample_start_ok sample_counts _ bound this, of "DateTime 100 0" "''v''"]
  show ?thesis unfolding w by simp
qed

section \<open>Giving consensus back\<close>

lemma namespace_keeps_memory:
  assumes inv: "db_inv_upto env disk X db" and found: "Database_namespace env disk now db name = (db', r)"
    and mem: "fmlookup (db_namespaces db) n = Some ns"
  shows "fmlookup (db_namespaces db') n = Some ns"
proof (cases "fmlookup (db_namespaces db) name = None \<and> Database_catalogued db (shard_of name) name")
  case False
  then have "db_namespaces db' = db_namespaces db"
    using found by (auto simp: Database_namespace_def Let_def Database_resident_def split: option.splits)
  then show ?thesis using mem by simp
next
  case True
  then obtain meta where meta: "fmlookup (db_shards (Database_touch now db (shard_of name))) (shard_of name) = Some meta"
    "\<not> sm_resident meta"
    by (auto simp: Database_catalogued_def touch_meta split: option.splits)
  obtain db1 where page: "Database_page_in env disk now (Database_touch now db (shard_of name)) (shard_of name) = Inr db1"
    "\<And>n. shard_of n \<noteq> shard_of name \<Longrightarrow> fmlookup (db_namespaces db1) n = fmlookup (db_namespaces db) n"
    using page_in [OF inv_touch [OF inv] meta, of now] by auto
  have "db' = db1" using found True page(1) by (auto simp: Database_namespace_def Let_def Database_resident_def)
  moreover have "shard_resident db (shard_of n)" using inv mem by (auto simp: db_inv_upto_def fmlookup_dom'_iff)
  then have "shard_of n \<noteq> shard_of name"
    using meta by (auto simp: shard_resident_def touch_meta split: option.splits)
  ultimately show ?thesis using page(2) mem by simp
qed

lemma decrement_stored: "Attribute_decrement (stored_attr a) node = map_prod stored_attr id (Attribute_decrement a node)"
  by (auto simp: Attribute_decrement_def stored_attr_def Let_def Attribute_count_def split: option.split)

lemma release_values:
  "ns_values (Namespace_release \<lparr>ns_values = fmmap stored_attr (ns_values ns), ns_has_ttl = b\<rparr> node v) =
     fmmap stored_attr (ns_values (Namespace_release ns node v))"
proof (cases "fmlookup (ns_values ns) v")
  case None
  then show ?thesis by (simp add: Namespace_release_def)
next
  case (Some a)
  then show ?thesis
    by (cases "Attribute_decrement a node") (auto simp: Namespace_release_def decrement_stored intro!: fmap_ext)
qed

lemma release_sound: "ns_sound ns \<Longrightarrow> ns_sound (Namespace_release ns node v)"
  unfolding ns_sound_def
  by (auto simp: ns_inv_release)
     (auto simp: Namespace_release_def Attribute_decrement_def Let_def split: option.splits if_splits)

lemma release_effect:
  assumes inv: "db_inv_upto env disk X db" and X: "INTERNAL_SHARD \<in> X"
    and db'_def: "db' = Database_release_consensus env disk now db v"
  shows "db_inv_upto env disk X db'" "contents env disk db' = released (db_node db) v (contents env disk db)"
    "same_setup db' db" "db_dirty db' = db_dirty db"
    "fmdom' (db_namespaces db) \<subseteq> fmdom' (db_namespaces db')" "n \<noteq> ALL_NAMESPACE \<Longrightarrow> n \<in> fmdom' (db_namespaces db) \<Longrightarrow> fmlookup (db_namespaces db') n = fmlookup (db_namespaces db) n"
proof -
  obtain db1 r where found: "Database_namespace env disk now db ALL_NAMESPACE = (db1, r)" by fastforce
  note nf = namespace_finds [OF inv found]
  note keep = namespace_keeps_memory [OF inv found]
  have node: "db_node db1 = db_node db" using nf(5) by (simp add: same_setup_def)
  have all: "db_inv_upto env disk X db' \<and> contents env disk db' = released (db_node db) v (contents env disk db) \<and>
     same_setup db' db \<and> db_dirty db' = db_dirty db \<and>
     (\<forall>n \<in> fmdom' (db_namespaces db). n \<in> fmdom' (db_namespaces db') \<and> (n \<noteq> ALL_NAMESPACE \<longrightarrow> fmlookup (db_namespaces db') n = fmlookup (db_namespaces db) n))"
  proof (cases r)
    case None
    then have "db' = db1" by (simp add: db'_def Database_release_consensus_def found)
    then show ?thesis using nf None keep by (auto simp: released_def fmlookup_dom'_iff)
  next
    case (Some all)
    have mem: "fmlookup (db_namespaces db1) ALL_NAMESPACE = Some all" using nf(3) Some by simp
    then have "ns_sound all" using nf(1) by (auto simp: db_inv_upto_def)
    note put = put_in_memory [OF nf(1) mem release_sound [OF this, of "db_node db" v]]
    have db': "db' = put_namespace db1 ALL_NAMESPACE (Namespace_release all (db_node db) v)"
      by (simp add: db'_def Database_release_consensus_def found Some node)
    have "contents env disk db' = released (db_node db) v (contents env disk db)"
      using put(2) X nf(2,4) Some by (auto simp: db' released_def release_values intro!: ext)
    then show ?thesis using put(1,3) X nf(5,6) keep
      by (auto simp: db' put_namespace_def fmlookup_dom'_iff intro: same_setup_trans)
  qed
  show "db_inv_upto env disk X db'" "contents env disk db' = released (db_node db) v (contents env disk db)"
    "same_setup db' db" "db_dirty db' = db_dirty db"
    "fmdom' (db_namespaces db) \<subseteq> fmdom' (db_namespaces db')"
    "n \<noteq> ALL_NAMESPACE \<Longrightarrow> n \<in> fmdom' (db_namespaces db) \<Longrightarrow> fmlookup (db_namespaces db') n = fmlookup (db_namespaces db) n"
    using all by blast+
qed

lemma released_other [simp]:
  "n \<noteq> ALL_NAMESPACE \<Longrightarrow> released node v C n = C n"
  "released node v C ALL_NAMESPACE = None \<longleftrightarrow> C ALL_NAMESPACE = None"
  by (auto simp: released_def split: option.split)

lemma released_all_other:
  "n \<noteq> ALL_NAMESPACE \<Longrightarrow> fold (released node) vs C n = C n"
  "fold (released node) vs C ALL_NAMESPACE = None \<longleftrightarrow> C ALL_NAMESPACE = None"
  by (induction vs arbitrary: C) auto

lemma tally_down_all:
  assumes "tallied node C h" "distinct vs"
  shows "tallied node (fold (released node) vs C) (\<lambda>w. if w \<in> set vs then h w - 1 else h w)"
  using assms
proof (induction vs arbitrary: C h)
  case (Cons v vs)
  from Cons.IH [OF tally_down [OF Cons.prems(1), of v]] Cons.prems(2)
  have "tallied node (fold (released node) (v # vs) C)
      (\<lambda>w. if w \<in> set vs then (h(v := h v - 1)) w - 1 else (h(v := h v - 1)) w)" by simp
  moreover have "(\<lambda>w. if w \<in> set vs then (h(v := h v - 1)) w - 1 else (h(v := h v - 1)) w) =
      (\<lambda>w. if w \<in> set (v # vs) then h w - 1 else h w)"
    using Cons.prems(2) by auto
  ultimately show ?case by simp
qed simp

lemma consensus_give_back:
  assumes ok: "consensus_ok node C" and name: "counts_towards_consensus name" and fin: "\<And>v. finite (holders C v)"
    and vs: "distinct vs" "set vs \<subseteq> fmdom' (values_of C name)"
    and left: "fmdom' (values_of (C(name := x)) name) = fmdom' (values_of C name) - set vs"
  shows "consensus_ok node (fold (released node) vs (C(name := x)))"
proof -
  let ?C = "C(name := x)" and ?D = "fold (released node) vs (C(name := x))"
  have ne: "name \<noteq> ALL_NAMESPACE" using name by auto
  have "tallied node ?C (\<lambda>v. card (holders C v))"
    using ok unfolding consensus_ok_def by (rule tallied_cong) (use ne in \<open>simp_all add: values_of_def\<close>)
  from tally_down_all [OF this vs(1)]
  have "tallied node ?D (\<lambda>w. if w \<in> set vs then card (holders C w) - 1 else card (holders C w))" .
  moreover have "holders ?D w = (if w \<in> set vs then holders C w - {name} else holders C w)" for w
  proof -
    have "values_of ?D n = values_of ?C n" if "counts_towards_consensus n" for n
      using that by (cases "n = ALL_NAMESPACE") (auto simp: values_of_def released_all_other)
    moreover have "values_of ?C n = values_of C n" if "n \<noteq> name" for n using that by (simp add: values_of_def)
    ultimately have "fmdom' (values_of ?D n) = (if n = name then fmdom' (values_of C name) - set vs else fmdom' (values_of C n))"
      if "counts_towards_consensus n" for n using that left by simp
    then have "holders ?D w = {n. counts_towards_consensus n \<and>
        w \<in> (if n = name then fmdom' (values_of C name) - set vs else fmdom' (values_of C n))}"
      unfolding holders_def by auto
    then show ?thesis using vs(2) by (auto simp: holders_def split: if_splits)
  qed
  moreover have "name \<in> holders C w" if "w \<in> set vs" for w using that vs(2) name by (auto simp: holders_def)
  then have "card (holders C w - {name}) = card (holders C w) - 1" if "w \<in> set vs" for w
    using that fin by (simp add: card_Diff_singleton)
  ultimately have "(\<lambda>w. if w \<in> set vs then card (holders C w) - 1 else card (holders C w)) = (\<lambda>w. card (holders ?D w))"
    by auto
  with \<open>tallied node ?D _\<close> show ?thesis by (simp add: consensus_ok_def)
qed

lemma release_list:
  assumes "db_inv_upto env disk X db" "INTERNAL_SHARD \<in> X"
    and "db' = fold (\<lambda>v db. Database_release_consensus env disk now db v) vs db"
  shows "db_inv_upto env disk X db' \<and> contents env disk db' = fold (released (db_node db)) vs (contents env disk db) \<and>
    same_setup db' db \<and> db_dirty db' = db_dirty db \<and> fmdom' (db_namespaces db) \<subseteq> fmdom' (db_namespaces db')"
  using assms
proof (induction vs arbitrary: db)
  case (Cons v vs)
  let ?db = "Database_release_consensus env disk now db v"
  note r = release_effect [OF Cons.prems(1,2), of ?db now v, simplified]
  have "db_node ?db = db_node db" using r(3) by (simp add: same_setup_def)
  then show ?case using Cons.IH [OF r(1) Cons.prems(2)] Cons.prems(3) r
    by (auto intro: same_setup_trans)
qed simp

section \<open>Deleting a namespace\<close>

lemma forget_in_memory:
  assumes inv: "db_inv_upto env disk X db" and mem: "fmlookup (db_namespaces db) name = Some ns"
    and dirty: "shard_of name \<in> X \<or> shard_of name |\<in>| db_dirty db"
    and db'_def: "db' = uncatalogue (db\<lparr>db_namespaces := fmdrop name (db_namespaces db)\<rparr>) name"
  shows "db_inv_upto env disk X db'" "contents env disk db' = (contents env disk db)(name := None)"
    "same_setup db' db" "db_dirty db' = db_dirty db" "db_namespaces db' = fmdrop name (db_namespaces db)"
proof -
  let ?s = "shard_of name"
  have "shard_resident db ?s" using inv mem by (auto simp: db_inv_upto_def fmlookup_dom'_iff)
  then obtain meta where meta: "fmlookup (db_shards db) ?s = Some meta" "sm_resident meta"
    by (auto simp: shard_resident_def split: option.splits)
  let ?meta = "meta\<lparr>sm_namespaces := sm_namespaces meta |-| {|name|}\<rparr>"
  have sound: "shard_sound env disk X db ?s meta" using inv meta by (simp add: db_inv_upto_def)
  have f: "db_namespaces db' = fmdrop name (db_namespaces db)" "db_shards db' = fmupd ?s ?meta (db_shards db)"
    "db_store db' = db_store db" "db_dirty db' = db_dirty db" "same_setup db' db"
    using meta by (simp_all add: db'_def uncatalogue_def same_setup_def)
  have "shard_sound env disk X db' ?s ?meta"
  proof (rule shard_sound_residentI)
    show "n |\<in>| sm_namespaces ?meta \<longleftrightarrow> n \<in> fmdom' (db_namespaces db')" if "shard_of n = ?s" for n
      using shard_sound_memory [OF sound meta(2) that] by (auto simp: f)
  qed (use dirty f meta(2) shard_sound_names [OF sound] in auto)
  then show "db_inv_upto env disk X db'"
  proof (intro inv_one_shard [OF inv, of ?s])
    show "ns_sound ns'" if "shard_of n = ?s" "fmlookup (db_namespaces db') n = Some ns'" for n ns'
      using that inv by (auto simp: f db_inv_upto_def split: if_splits)
  qed (auto simp: f meta)
  show "contents env disk db' = (contents env disk db)(name := None)"
  proof
    fix n
    show "contents env disk db' n = ((contents env disk db)(name := None)) n"
    proof (cases "n = name")
      case True
      then show ?thesis by (simp add: contents_def f Database_catalogued_def meta)
    next
      case False
      then have "contents env disk db' n = contents env disk db n"
        using meta by (cases "shard_of n = ?s"; intro contents_cong) (simp_all add: f Database_catalogued_def)
      with False show ?thesis by simp
    qed
  qed
  show "same_setup db' db" "db_dirty db' = db_dirty db" "db_namespaces db' = fmdrop name (db_namespaces db)" by (rule f)+
qed

lemma mark_dirty_names: "db_namespaces (Database_mark_dirty db n) = db_namespaces db"
  "db_shards (Database_mark_dirty db n) = db_shards db"
  by (simp_all add: Database_mark_dirty_def Database_mark_shard_dirty_def)

lemma latest_is_apart [simp]:
  "db_inv_upto env disk X (db\<lparr>db_latest := l\<rparr>) = db_inv_upto env disk X db"
  "contents env disk (db\<lparr>db_latest := l\<rparr>) = contents env disk db"
  "same_setup (db\<lparr>db_latest := l\<rparr>) db0 = same_setup db db0"
proof -
  have "Database_shard_snapshot (db\<lparr>db_latest := l\<rparr>) = Database_shard_snapshot db"
    by (intro ext snapshot_cong) simp
  then have "shard_sound env disk X (db\<lparr>db_latest := l\<rparr>) = shard_sound env disk X db"
    by (intro ext) (simp add: shard_sound_def)
  then show "db_inv_upto env disk X (db\<lparr>db_latest := l\<rparr>) = db_inv_upto env disk X db"
    by (simp add: db_inv_upto_def shard_resident_def)
  show "contents env disk (db\<lparr>db_latest := l\<rparr>) = contents env disk db"
    by (rule ext, rule contents_cong) (simp_all add: Database_catalogued_def)
qed (simp add: same_setup_def)

lemma delete_effect:
  assumes inv: "db_inv_upto env disk X db" and X: "INTERNAL_SHARD \<in> X"
    and del: "Database_delete env disk now db name = (db', removed)"
  defines "C \<equiv> contents env disk db"
  shows "db_inv_upto env disk X db' \<and> same_setup db' db \<and> (removed \<longleftrightarrow> C name \<noteq> None) \<and>
    contents env disk db' = (if removed \<and> counts_towards_consensus name
       then fold (released (db_node db)) (fm_keys (values_of C name)) (C(name := None)) else C(name := None))"
proof -
  obtain db1 r where found: "Database_namespace env disk now db name = (db1, r)" by fastforce
  note nf = namespace_finds [OF inv found]
  show ?thesis
  proof (cases r)
    case None
    then have "db' = db1" "\<not> removed" using del by (simp_all add: Database_delete_def found)
    then show ?thesis using nf None by (auto simp: C_def intro!: ext)
  next
    case (Some ns)
    have mem: "fmlookup (db_namespaces db1) name = Some ns" using nf(3) Some by simp
    have vals: "C name = Some (fmmap stored_attr (ns_values ns))" "fm_keys (values_of C name) = Namespace_value_names ns"
      using nf(4) Some by (simp_all add: C_def values_of_def Namespace_value_names_def fm_keys_eq)
    define db2 where "db2 = Database_mark_dirty db1 name"
    have two: "db_inv_upto env disk X db2" "contents env disk db2 = contents env disk db1" "same_setup db2 db1"
      using mark_dirty [of env disk name X db1] inv_mono [OF nf(1)] by (auto simp: db2_def)
    have mem2: "fmlookup (db_namespaces db2) name = Some ns" "shard_of name |\<in>| db_dirty db2"
      using mem by (simp_all add: db2_def mark_dirty_names) (simp add: Database_mark_dirty_def Database_mark_shard_dirty_def)
    define db3 where "db3 = uncatalogue (db2\<lparr>db_namespaces := fmdrop name (db_namespaces db2)\<rparr>) name"
    have uncat: "uncatalogue (Database_mark_dirty (db1\<lparr>db_namespaces := fmdrop name (db_namespaces db1)\<rparr>) name) name = db3"
      by (cases db1) (simp add: db3_def db2_def Database_mark_dirty_def Database_mark_shard_dirty_def)
    note fg = forget_in_memory [OF two(1) mem2(1) disjI2 [OF mem2(2)] db3_def]
    have three: "db_inv_upto env disk X db3" "contents env disk db3 = C(name := None)" "same_setup db3 db"
      using fg(1-3) two(2,3) nf(2,5) by (auto simp: C_def intro!: ext intro: same_setup_trans)
    have contained: "fm_contains (db_namespaces db1) name" using mem by (simp add: fm_contains_def)
    define db4 where "db4 = (if counts_towards_consensus name
      then fold (\<lambda>v db. Database_release_consensus env disk now db v) (Namespace_value_names ns) db3 else db3)"
    have "removed" "db' = db4\<lparr>db_latest := Latest_forget_namespace (db_latest db4) name\<rparr>"
      using del contained uncat by (auto simp: Database_delete_def found Some Let_def db4_def)
    moreover have "db_node db3 = db_node db" using three(3) by (simp add: same_setup_def)
    moreover have "db_inv_upto env disk X db4 \<and> same_setup db4 db \<and> contents env disk db4 =
        (if counts_towards_consensus name then fold (released (db_node db3)) (Namespace_value_names ns) (C(name := None)) else C(name := None))"
      using release_list [OF three(1) X, of _ now "Namespace_value_names ns"] three
      by (auto simp: db4_def intro: same_setup_trans)
    ultimately show ?thesis using vals by simp
  qed
qed

text \<open>
  C37. Deleting a namespace removes it and nothing else: it answers whether the namespace was there, every
  other namespace keeps its values, and the tallies of the values it held go down by one, so that they
  are still the number of namespaces holding each value. A namespace that does not count (a shadow or
  a configuration namespace) leaves the tallies alone.
\<close>
theorem delete_gives_consensus_back:
  assumes "db_inv env disk db" and "consensus_ok (db_node db) (contents env disk db)" and "name \<noteq> ALL_NAMESPACE"
    and "Database_delete env disk now db name = (db', removed)"
  shows "db_inv env disk db' \<and> (removed \<longleftrightarrow> contents env disk db name \<noteq> None) \<and>
    contents env disk db' name = None \<and>
    (\<forall>n. n \<noteq> name \<and> n \<noteq> ALL_NAMESPACE \<longrightarrow> contents env disk db' n = contents env disk db n) \<and>
    consensus_ok (db_node db') (contents env disk db')"
proof -
  let ?C = "contents env disk db"
  note eff = delete_effect [OF assms(1) _ assms(4), simplified]
  have node: "db_node db' = db_node db" using eff by (simp add: same_setup_def)
  have "consensus_ok (db_node db') (contents env disk db')"
  proof (cases "removed \<and> counts_towards_consensus name")
    case True
    have "consensus_ok (db_node db) (fold (released (db_node db)) (fm_keys (values_of ?C name)) (?C(name := None)))"
      using True by (intro consensus_give_back [OF assms(2)] finite_holders_db) simp_all
    then show ?thesis using eff True by (simp add: node)
  next
    case False
    then have "\<And>v. name \<notin> holders ?C v" using eff by (auto simp: holders_def values_of_def)
    then have "holders (?C(name := None)) v = holders ?C v" for v by (auto simp: holders_def)
    then have "consensus_ok (db_node db) (?C(name := None))"
      using assms(2,3) by (auto simp: consensus_ok_def intro: tallied_cong)
    then show ?thesis using eff False by (simp add: node if_split)
  qed
  then show ?thesis using eff assms(3) by (auto simp: released_all_other)
qed

theorem delete_gives_consensus_back_witness:
  "contents sample_env fmempty (fst (Database_delete sample_env fmempty (DateTime 100 0) (fst sample_write) ''feeds/a'')) ''feeds/a'' = None \<and>
   consensus_ok ''local'' (contents sample_env fmempty (fst (Database_delete sample_env fmempty (DateTime 100 0) (fst sample_write) ''feeds/a'')))"
proof -
  have inv: "db_inv sample_env fmempty (fst sample_write)" using sample_write_inv by (rule inv_mono) simp
  obtain db' r where d: "Database_delete sample_env fmempty (DateTime 100 0) (fst sample_write) ''feeds/a'' = (db', r)" by fastforce
  have "db_node db' = ''local''"
    using delete_effect [OF inv _ d] by (simp add: same_setup_def sample_write_value sample_store_db_def
        Database_attach_store_def Database_with_node_def)
  with delete_gives_consensus_back [OF inv sample_write_ok sample_paths(4) d] d show ?thesis by simp
qed

section \<open>Sweeping\<close>

definition unexpired :: "datetime \<Rightarrow> (string, attribute) fmap \<Rightarrow> (string, attribute) fmap" where
  "unexpired now m = fmfilter (\<lambda>v. case fmlookup m v of None \<Rightarrow> False | Some a \<Rightarrow> \<not> Attribute_is_expired a now) m"

lemma unexpired_lookup:
  "fmlookup (unexpired now m) v = (case fmlookup m v of None \<Rightarrow> None | Some a \<Rightarrow> if Attribute_is_expired a now then None else Some a)"
  by (auto simp: unexpired_def split: option.splits)

lemma fmmap_is_empty: "fmmap f m = fmempty \<longleftrightarrow> m = fmempty"
  by (metis fmmap_empty fmdom_empty fmdom_map fmrestrict_fset_dom fmrestrict_fset_null)

lemma remove_expired_contents:
  assumes "ns_inv ns" and rem: "Namespace_remove_expired ns now = (ns', expired)"
  defines "m \<equiv> fmmap stored_attr (ns_values ns)"
  shows "fmmap stored_attr (ns_values ns') = unexpired now m"
    "set expired = fmdom' m - fmdom' (unexpired now m)" "distinct expired"
    "expired = [] \<Longrightarrow> ns' = ns" "Namespace_is_empty ns' \<longleftrightarrow> unexpired now m = fmempty"
proof -
  note ex = remove_expired_exact [OF assms(1), of now, unfolded rem fst_conv snd_conv]
  have look: "fmlookup (unexpired now m) w = map_option stored_attr (if w \<in> expired_names ns now then None else fmlookup (ns_values ns) w)" for w
    by (auto simp: unexpired_lookup m_def expired_names_def split: option.splits)
  show vals: "fmmap stored_attr (ns_values ns') = unexpired now m"
    by (rule fmap_ext) (simp add: look ex(1))
  show "set expired = fmdom' m - fmdom' (unexpired now m)"
    unfolding ex(2) by (auto simp: fmlookup_dom'_iff unexpired_lookup m_def expired_names_def split: option.splits if_splits)
  show "distinct expired" by (rule ex)
  have nonempty: "\<exists>(v, a) \<in> set (sorted_list_of_fmap (ns_values ns)). Attribute_is_expired a now"
    if "list_ex (\<lambda>attr. Attribute_is_expired attr now) (fm_values (ns_values ns))"
    using that by (auto simp: list_ex_iff fm_values_def)
  show "ns' = ns" if "expired = []"
  proof (rule ccontr)
    assume "ns' \<noteq> ns"
    then have "list_ex (\<lambda>attr. Attribute_is_expired attr now) (fm_values (ns_values ns))"
      using rem by (auto simp: Namespace_remove_expired_def split: if_splits)
    then show False using that rem nonempty \<open>ns' \<noteq> ns\<close>
      by (auto simp: Namespace_remove_expired_def Let_def filter_empty_conv split: if_splits)
  qed
  show "Namespace_is_empty ns' \<longleftrightarrow> unexpired now m = fmempty"
    by (simp add: Namespace_is_empty_def vals [symmetric] fmmap_is_empty)
qed

lemma put_same: "fmlookup (db_namespaces db) name = Some ns \<Longrightarrow> put_namespace db name ns = db"
  by (simp add: put_namespace_def) (metis (no_types, lifting) database.surjective database.update_convs(1) fmap_ext fmupd_lookup)

lemma sweep_one:
  assumes inv: "db_inv_upto env disk X db" and X: "INTERNAL_SHARD \<in> X" and mem: "fmlookup (db_namespaces db) name = Some ns"
    and rem: "Namespace_remove_expired ns now = (ns', expired)"
    and db2: "db2 = (if expired \<noteq> [] then Database_mark_dirty (put_namespace db name ns') name else put_namespace db name ns')"
    and db3: "db3 = (if counts_towards_consensus name
      then fold (\<lambda>v db. Database_release_consensus env disk now db v) expired db2 else db2)"
  defines "C \<equiv> contents env disk db"
  shows "db_inv_upto env disk X db3 \<and> same_setup db3 db \<and> fmdom' (db_namespaces db) \<subseteq> fmdom' (db_namespaces db3) \<and>
     db_dirty db |\<subseteq>| db_dirty db3 \<and> (expired \<noteq> [] \<longrightarrow> shard_of name |\<in>| db_dirty db3) \<and>
     contents env disk db3 = (let D = C(name := Some (unexpired now (values_of C name)))
        in if counts_towards_consensus name then fold (released (db_node db)) expired D else D)"
proof -
  have sound: "ns_sound ns" using inv mem by (auto simp: db_inv_upto_def)
  note rc = remove_expired_contents [OF _ rem]
  have C: "C name = Some (fmmap stored_attr (ns_values ns))" "values_of C name = fmmap stored_attr (ns_values ns)"
    using mem by (simp_all add: C_def contents_in_memory values_of_def)
  have two: "db_inv_upto env disk X db2 \<and> same_setup db2 db \<and> fmdom' (db_namespaces db) \<subseteq> fmdom' (db_namespaces db2) \<and>
     db_dirty db |\<subseteq>| db_dirty db2 \<and> (expired \<noteq> [] \<longrightarrow> shard_of name |\<in>| db_dirty db2) \<and>
     contents env disk db2 = C(name := Some (unexpired now (values_of C name)))"
  proof (cases "expired = []")
    case True
    then have "ns' = ns" "unexpired now (values_of C name) = values_of C name"
      using rc(4,1) sound by (simp_all add: C ns_sound_def)
    then show ?thesis using True db2 mem inv C by (auto simp: put_same C_def)
  next
    case False
    have "ns_sound ns'"
      using sound ns_inv_remove_expired [of ns now] remove_expired_exact(1) [of ns now] rem
      by (auto simp: ns_sound_def split: if_splits)
    then have put: "db_inv_upto env disk (insert (shard_of name) X) (put_namespace db name ns')"
      "contents env disk (put_namespace db name ns') = C(name := Some (unexpired now (values_of C name)))"
      "same_setup (put_namespace db name ns') db"
      using put_in_memory [OF inv_mono [OF inv] mem, of "insert (shard_of name) X" ns'] rc(1) sound
      by (auto simp: C_def C [unfolded C_def] ns_sound_def)
    have "fmdom' (db_namespaces (put_namespace db name ns')) = insert name (fmdom' (db_namespaces db))"
      "db_dirty (Database_mark_dirty (put_namespace db name ns') name) = finsert (shard_of name) (db_dirty db)"
      by (auto simp: put_namespace_def Database_mark_dirty_def Database_mark_shard_dirty_def)
    then show ?thesis using False db2 mark_dirty [OF put(1)] put(2,3)
      by (auto simp: mark_dirty_names intro: same_setup_trans)
  qed
  have "db_node db2 = db_node db" using two by (simp add: same_setup_def)
  moreover have "counts_towards_consensus name \<Longrightarrow> fmdom' (db_namespaces db2) \<subseteq> fmdom' (db_namespaces db3)"
    using two release_list [of env disk X db2 db3 now expired] X db3 by simp
  ultimately show ?thesis
    using two release_list [of env disk X db2 db3 now expired] X db3
    by (cases "counts_towards_consensus name") (simp_all add: Let_def, blast intro: same_setup_trans)
qed

text \<open>The same step on the contents alone.\<close>

definition gone_of :: "datetime \<Rightarrow> logical \<Rightarrow> string \<Rightarrow> string set" where
  "gone_of now C n = fmdom' (values_of C n) - fmdom' (unexpired now (values_of C n))"

lemma sweep_one_contents:
  assumes held: "C name \<noteq> None" and vs: "set vs = gone_of now C name" "distinct vs" and fin: "\<And>v. finite (holders C v)"
    and D: "D = (let E = C(name := Some (unexpired now (values_of C name)))
        in if counts_towards_consensus name then fold (released node) vs E else E)"
  shows "D n = None \<longleftrightarrow> C n = None"
    "n \<noteq> ALL_NAMESPACE \<Longrightarrow> values_of D n = (if n = name then unexpired now (values_of C name) else values_of C n)"
    "consensus_ok node C \<Longrightarrow> consensus_ok node D" "consensus_ok node C \<Longrightarrow> name = ALL_NAMESPACE \<Longrightarrow> vs = []"
proof -
  show "D n = None \<longleftrightarrow> C n = None"
    using held by (cases "n = ALL_NAMESPACE") (auto simp: D Let_def released_all_other)
  show "n \<noteq> ALL_NAMESPACE \<Longrightarrow> values_of D n = (if n = name then unexpired now (values_of C name) else values_of C n)"
    by (simp add: D Let_def values_of_def released_all_other)
  have sub: "fmdom' (unexpired now m) \<subseteq> fmdom' m" for m by (auto simp: unexpired_lookup fmlookup_dom'_iff split: option.splits)
  have quiet: "unexpired now (values_of C ALL_NAMESPACE) = values_of C ALL_NAMESPACE" if ok: "consensus_ok node C"
  proof (rule fmap_ext)
    fix v
    show "fmlookup (unexpired now (values_of C ALL_NAMESPACE)) v = fmlookup (values_of C ALL_NAMESPACE) v"
      using tallied_at [OF ok [unfolded consensus_ok_def], of v] expired_ttl
      by (fastforce simp: unexpired_lookup split: option.splits)
  qed
  show "consensus_ok node C \<Longrightarrow> name = ALL_NAMESPACE \<Longrightarrow> vs = []"
    using quiet vs(1) by (simp add: gone_of_def)
  show "consensus_ok node D" if ok: "consensus_ok node C"
  proof (cases "counts_towards_consensus name")
    case True
    then show ?thesis using consensus_give_back [OF ok True fin vs(2), of "Some (unexpired now (values_of C name))"] vs(1) sub
      by (auto simp: D Let_def gone_of_def)
  next
    case False
    then have "holders D v = holders C v" for v by (auto simp: D Let_def holders_def)
    moreover have "values_of D ALL_NAMESPACE = values_of C ALL_NAMESPACE"
      using False quiet [OF ok] by (auto simp: D Let_def)
    ultimately show ?thesis using ok by (simp add: consensus_ok_def tallied_def)
  qed
qed

text \<open>What a sweep over the namespaces \<open>S\<close> has done to the database.\<close>

definition swept_db :: "'f env \<Rightarrow> 'f disk \<Rightarrow> string set \<Rightarrow> datetime \<Rightarrow> string set \<Rightarrow> database \<Rightarrow> database \<Rightarrow> bool" where
  "swept_db env disk X now S db db' \<longleftrightarrow>
     db_inv_upto env disk X db' \<and> same_setup db' db \<and> db_dirty db |\<subseteq>| db_dirty db' \<and>
     fmdom' (db_namespaces db) \<subseteq> fmdom' (db_namespaces db') \<and>
     (\<forall>n. contents env disk db' n = None \<longleftrightarrow> contents env disk db n = None) \<and>
     (\<forall>n. n \<noteq> ALL_NAMESPACE \<longrightarrow> values_of (contents env disk db') n =
        (if n \<in> S then unexpired now (values_of (contents env disk db) n) else values_of (contents env disk db) n)) \<and>
     (consensus_ok (db_node db) (contents env disk db) \<longrightarrow> consensus_ok (db_node db) (contents env disk db'))"

lemma swept_refl: "db_inv_upto env disk X db \<Longrightarrow> swept_db env disk X now {} db db"
  by (simp add: swept_db_def)

lemma swept_trans:
  assumes "swept_db env disk X now S db db1" "swept_db env disk X now T db1 db2" "S \<inter> T = {}"
  shows "swept_db env disk X now (S \<union> T) db db2"
proof -
  have "db_node db1 = db_node db" using assms(1) by (simp add: swept_db_def same_setup_def)
  then show ?thesis using assms unfolding swept_db_def by (auto intro: same_setup_trans)
qed

lemma swept_gone:
  "swept_db env disk X now S db db1 \<Longrightarrow> n \<noteq> ALL_NAMESPACE \<Longrightarrow> n \<notin> S \<Longrightarrow>
   gone_of now (contents env disk db1) n = gone_of now (contents env disk db) n \<and>
   unexpired now (values_of (contents env disk db1) n) = unexpired now (values_of (contents env disk db) n)"
  by (simp add: swept_db_def gone_of_def)

text \<open>One namespace of the loop: what is noted as emptied and how much was removed.\<close>

lemma sweep_one_swept:
  assumes inv: "db_inv_upto env disk X db" and X: "INTERNAL_SHARD \<in> X" and mem: "fmlookup (db_namespaces db) name = Some ns"
    and rem: "Namespace_remove_expired ns now = (ns', expired)"
    and db2: "db2 = (if expired \<noteq> [] then Database_mark_dirty (put_namespace db name ns') name else put_namespace db name ns')"
    and db3: "db3 = (if counts_towards_consensus name
      then fold (\<lambda>v db. Database_release_consensus env disk now db v) expired db2 else db2)"
  shows "swept_db env disk X now {name} db db3"
    "set expired = gone_of now (contents env disk db) name" "distinct expired"
    "Namespace_is_empty ns' \<longleftrightarrow> unexpired now (values_of (contents env disk db) name) = fmempty"
    "expired \<noteq> [] \<Longrightarrow> shard_of name |\<in>| db_dirty db3"
    "consensus_ok (db_node db) (contents env disk db) \<Longrightarrow> name = ALL_NAMESPACE \<Longrightarrow> expired = []"
proof -
  have "ns_inv ns" using inv mem by (auto simp: db_inv_upto_def ns_sound_def)
  note rc = remove_expired_contents [OF this rem]
  have C: "contents env disk db name \<noteq> None" "values_of (contents env disk db) name = fmmap stored_attr (ns_values ns)"
    using mem by (simp_all add: contents_in_memory values_of_def)
  show vs: "set expired = gone_of now (contents env disk db) name" "distinct expired"
    "Namespace_is_empty ns' \<longleftrightarrow> unexpired now (values_of (contents env disk db) name) = fmempty"
    using rc by (simp_all add: gone_of_def C)
  note one = sweep_one [OF inv X mem rem db2 db3]
  note post = sweep_one_contents [OF C(1) vs(1,2) finite_holders_db, of "contents env disk db3" "db_node db"]
  show "swept_db env disk X now {name} db db3"
    using one post unfolding swept_db_def by simp
  show "expired \<noteq> [] \<Longrightarrow> shard_of name |\<in>| db_dirty db3" using one by simp
  show "consensus_ok (db_node db) (contents env disk db) \<Longrightarrow> name = ALL_NAMESPACE \<Longrightarrow> expired = []"
    using one post(4) by simp
qed

definition loop_outcome :: "'f env \<Rightarrow> 'f disk \<Rightarrow> string set \<Rightarrow> datetime \<Rightarrow> string set \<Rightarrow> database \<Rightarrow> database \<Rightarrow> nat \<Rightarrow> string list \<Rightarrow> bool" where
  "loop_outcome env disk X now S db db' k es \<longleftrightarrow>
     swept_db env disk X now S db db' \<and>
     (consensus_ok (db_node db) (contents env disk db) \<longrightarrow>
        k = (\<Sum>n \<in> S - {ALL_NAMESPACE}. card (gone_of now (contents env disk db) n))) \<and>
     set es \<subseteq> S \<and> (\<forall>n \<in> set es. shard_of n |\<in>| db_dirty db') \<and>
     (\<forall>n. n \<noteq> ALL_NAMESPACE \<longrightarrow> (n \<in> set es \<longleftrightarrow> n \<in> S \<and>
       gone_of now (contents env disk db) n \<noteq> {} \<and> unexpired now (values_of (contents env disk db) n) = fmempty))"

lemma loop_outcome_step:
  assumes one: "swept_db env disk X now {name} db db3" "set expired = gone_of now (contents env disk db) name" "distinct expired"
    "none_left \<longleftrightarrow> unexpired now (values_of (contents env disk db) name) = fmempty"
    "expired \<noteq> [] \<Longrightarrow> shard_of name |\<in>| db_dirty db3"
    "consensus_ok (db_node db) (contents env disk db) \<Longrightarrow> name = ALL_NAMESPACE \<Longrightarrow> expired = []"
    and rest: "loop_outcome env disk X now S db3 db' k es" and new: "name \<notin> S" "finite S"
  shows "loop_outcome env disk X now (insert name S) db db' (length expired + k)
    ((if expired \<noteq> [] \<and> none_left then [name] else []) @ es)"
proof -
  let ?C = "contents env disk db" and ?C3 = "contents env disk db3"
  have swept: "swept_db env disk X now S db3 db'" using rest by (simp add: loop_outcome_def)
  have same: "gone_of now ?C3 n = gone_of now ?C n \<and> unexpired now (values_of ?C3 n) = unexpired now (values_of ?C n)"
    if "n \<noteq> ALL_NAMESPACE" "n \<in> S" for n
    using swept_gone [OF one(1)] that new(1) by blast
  have node: "db_node db3 = db_node db" using one(1) by (simp add: swept_db_def same_setup_def)
  have 1: "swept_db env disk X now (insert name S) db db'"
    using swept_trans [OF one(1) swept] new(1) by simp
  have 2: "length expired + k = (\<Sum>n \<in> insert name S - {ALL_NAMESPACE}. card (gone_of now ?C n))" if ok: "consensus_ok (db_node db) ?C"
  proof -
    have "consensus_ok (db_node db) ?C3" using one(1) ok by (simp add: swept_db_def)
    then have "k = (\<Sum>n \<in> S - {ALL_NAMESPACE}. card (gone_of now ?C3 n))" using rest by (simp add: loop_outcome_def node)
    also have "\<dots> = (\<Sum>n \<in> S - {ALL_NAMESPACE}. card (gone_of now ?C n))" using same by (intro sum.cong) auto
    finally have k: "k = (\<Sum>n \<in> S - {ALL_NAMESPACE}. card (gone_of now ?C n))" .
    have len: "length expired = card (gone_of now ?C name)" using one(2,3) by (metis distinct_card)
    show ?thesis
    proof (cases "name = ALL_NAMESPACE")
      case True
      then show ?thesis using k one(6) [OF ok] new by simp
    next
      case False
      then have "insert name S - {ALL_NAMESPACE} = insert name (S - {ALL_NAMESPACE})" by auto
      then show ?thesis using k len new by simp
    qed
  qed
  have 3: "\<forall>n \<in> set ((if expired \<noteq> [] \<and> none_left then [name] else []) @ es). shard_of n |\<in>| db_dirty db'"
    using rest one(5) swept by (auto simp: loop_outcome_def swept_db_def)
  have 4: "n \<in> set ((if expired \<noteq> [] \<and> none_left then [name] else []) @ es) \<longleftrightarrow> n \<in> insert name S \<and>
      gone_of now ?C n \<noteq> {} \<and> unexpired now (values_of ?C n) = fmempty" if n: "n \<noteq> ALL_NAMESPACE" for n
  proof (cases "n = name")
    case True
    have "name \<notin> set es" using rest new(1) by (auto simp: loop_outcome_def)
    then show ?thesis using True one(2,4) by auto
  next
    case False
    have "n \<in> set es \<longleftrightarrow> n \<in> S \<and> gone_of now ?C3 n \<noteq> {} \<and> unexpired now (values_of ?C3 n) = fmempty"
      using rest n by (simp add: loop_outcome_def)
    also have "\<dots> \<longleftrightarrow> n \<in> S \<and> gone_of now ?C n \<noteq> {} \<and> unexpired now (values_of ?C n) = fmempty"
      using same [OF n] by auto
    finally show ?thesis using False by simp
  qed
  have 5: "set ((if expired \<noteq> [] \<and> none_left then [name] else []) @ es) \<subseteq> insert name S"
    using rest by (auto simp: loop_outcome_def)
  show ?thesis unfolding loop_outcome_def using 1 2 3 4 5 by blast
qed

lemma sweep_loop_effect:
  assumes "db_inv_upto env disk X db" "INTERNAL_SHARD \<in> X" "distinct names" "set names \<subseteq> fmdom' (db_namespaces db)"
    and "sweep_loop env disk now names db removed emptied = (db', removed', emptied')"
  shows "\<exists>k es. removed' = removed + k \<and> emptied' = emptied @ es \<and>
    loop_outcome env disk X now {n \<in> set names. \<not> starts_with n CONFIG_PREFIX} db db' k es"
  using assms
proof (induction names arbitrary: db removed emptied)
  case Nil
  then show ?case by (auto simp: swept_refl loop_outcome_def)
next
  case (Cons name names)
  let ?S = "{n \<in> set names. \<not> starts_with n CONFIG_PREFIX}"
  show ?case
  proof (cases "starts_with name CONFIG_PREFIX")
    case True
    then have "{n \<in> set (name # names). \<not> starts_with n CONFIG_PREFIX} = ?S" by auto
    then show ?thesis using Cons.IH [of db removed emptied] Cons.prems True by simp
  next
    case False
    then have S: "{n \<in> set (name # names). \<not> starts_with n CONFIG_PREFIX} = insert name ?S" by auto
    obtain ns where mem: "fmlookup (db_namespaces db) name = Some ns" using Cons.prems(4) by (auto simp: fmlookup_dom'_iff)
    obtain ns' expired where rem: "Namespace_remove_expired ns now = (ns', expired)" by fastforce
    define db2 where db2: "db2 = (if expired \<noteq> [] then Database_mark_dirty (put_namespace db name ns') name else put_namespace db name ns')"
    define db3 where db3: "db3 = (if counts_towards_consensus name
      then fold (\<lambda>v db. Database_release_consensus env disk now db v) expired db2 else db2)"
    note one = sweep_one_swept [OF Cons.prems(1,2) mem rem db2 db3]
    let ?em = "if expired \<noteq> [] \<and> Namespace_is_empty ns' then emptied @ [name] else emptied"
    have loop: "sweep_loop env disk now names db3 (removed + length expired) ?em = (db', removed', emptied')"
      using Cons.prems(5) False mem rem unfolding db3 db2 by (simp add: Let_def split del: if_split)
    have "db_inv_upto env disk X db3" "set names \<subseteq> fmdom' (db_namespaces db3)" "distinct names"
      using one(1) Cons.prems(3,4) by (auto simp: swept_db_def)
    then obtain k es where es: "removed' = removed + length expired + k" "emptied' = ?em @ es"
      "loop_outcome env disk X now ?S db3 db' k es"
      using Cons.IH [OF _ Cons.prems(2) _ _ loop] by blast
    have "name \<notin> ?S" "finite ?S" using Cons.prems(3) by auto
    note step = loop_outcome_step [OF one es(3) this]
    show ?thesis
      unfolding S
    proof (intro exI conjI)
      show "removed' = removed + (length expired + k)" by (simp add: es(1))
      show "emptied' = emptied @ (if expired \<noteq> [] \<and> Namespace_is_empty ns' then [name] else []) @ es" by (simp add: es(2))
    qed (rule step)
  qed
qed

text \<open>Pruning removes empty namespaces only, so no value is lost with them.\<close>

lemma prune_loop_effect:
  assumes "prune_loop busy names m removed = (m', removed')"
  shows "\<exists>rs. removed' = removed @ rs \<and> m' = fold fmdrop rs m \<and> distinct rs \<and>
    set rs = {n \<in> set names. \<not> starts_with n CONFIG_PREFIX \<and> \<not> busy n \<and> (\<exists>ns. fmlookup m n = Some ns \<and> Namespace_is_empty ns)}"
  using assms
proof (induction names arbitrary: m removed)
  case (Cons name names)
  let ?gone = "\<not> starts_with name CONFIG_PREFIX \<and> \<not> busy name \<and> (\<exists>ns. fmlookup m name = Some ns \<and> Namespace_is_empty ns)"
  show ?case
  proof (cases ?gone)
    case False
    then have "prune_loop busy names m removed = (m', removed')"
      using Cons.prems by (auto split: if_splits option.splits)
    with Cons.IH [of m removed] False show ?thesis by fastforce
  next
    case True
    then have "prune_loop busy names (fmdrop name m) (removed @ [name]) = (m', removed')"
      using Cons.prems by auto
    then obtain rs where rs: "removed' = (removed @ [name]) @ rs" "m' = fold fmdrop rs (fmdrop name m)" "distinct rs"
      "set rs = {n \<in> set names. \<not> starts_with n CONFIG_PREFIX \<and> \<not> busy n \<and> (\<exists>ns. fmlookup (fmdrop name m) n = Some ns \<and> Namespace_is_empty ns)}"
      using Cons.IH by blast
    have "name \<notin> set rs" unfolding rs(4) by simp
    then show ?thesis using rs True by (intro exI [of _ "name # rs"]) auto
  qed
qed auto

lemma uncatalogue_drop:
  "uncatalogue (db\<lparr>db_namespaces := fmdrop n (db_namespaces db)\<rparr>) n = (uncatalogue db n)\<lparr>db_namespaces := fmdrop n (db_namespaces db)\<rparr>"
  "uncatalogue (db\<lparr>db_namespaces := m\<rparr>) n = (uncatalogue db n)\<lparr>db_namespaces := m\<rparr>"
  "db_namespaces (uncatalogue db n) = db_namespaces db"
  by (cases db; simp add: uncatalogue_def split: option.splits)+

lemma consensus_ok_cong: "(\<And>n. values_of C' n = values_of C n) \<Longrightarrow> consensus_ok node C' = consensus_ok node C"
  by (simp add: consensus_ok_def tallied_def holders_def)

lemma forget_list:
  assumes "db_inv_upto env disk X db" "distinct rs"
    and "\<And>n. n \<in> set rs \<Longrightarrow> n \<in> fmdom' (db_namespaces db) \<and> shard_of n |\<in>| db_dirty db"
    and "db' = fold (\<lambda>n db. uncatalogue db n) rs (db\<lparr>db_namespaces := fold fmdrop rs (db_namespaces db)\<rparr>)"
  shows "db_inv_upto env disk X db' \<and> same_setup db' db \<and> db_dirty db' = db_dirty db \<and>
    contents env disk db' = (\<lambda>n. if n \<in> set rs then None else contents env disk db n)"
  using assms
proof (induction rs arbitrary: db)
  case (Cons n rs)
  obtain ns where mem: "fmlookup (db_namespaces db) n = Some ns" using Cons.prems(3) [of n] by (auto simp: fmlookup_dom'_iff)
  define db1 where "db1 = uncatalogue (db\<lparr>db_namespaces := fmdrop n (db_namespaces db)\<rparr>) n"
  have "shard_of n \<in> X \<or> shard_of n |\<in>| db_dirty db" using Cons.prems(3) [of n] by simp
  note f = forget_in_memory [OF Cons.prems(1) mem this db1_def]
  have "db' = fold (\<lambda>n db. uncatalogue db n) rs (db1\<lparr>db_namespaces := fold fmdrop rs (db_namespaces db1)\<rparr>)"
    by (simp add: Cons.prems(4) db1_def uncatalogue_drop)
  then have "db_inv_upto env disk X db' \<and> same_setup db' db1 \<and> db_dirty db' = db_dirty db1 \<and>
    contents env disk db' = (\<lambda>n. if n \<in> set rs then None else contents env disk db1 n)"
    using Cons.prems(2,3) f by (intro Cons.IH) auto
  then show ?case using f(2-4) by (auto intro: same_setup_trans)
qed simp

text \<open>
  C38. A sweep removes exactly what has expired, from every namespace in memory outside \<open>_config/\<close>: every
  other value stays, a namespace it emptied goes unless a writer holds it, and no other namespace goes.
  The tallies of \<open>_all\<close> stay the numbers of namespaces holding each value, and the report counts the
  values removed.
\<close>
theorem sweep_removes_the_expired:
  assumes "db_inv env disk db" and "consensus_ok (db_node db) (contents env disk db)"
    and "Database_sweep busy env disk now db = (db', report)"
  defines "S \<equiv> {n \<in> fmdom' (db_namespaces db). \<not> starts_with n CONFIG_PREFIX \<and> n \<noteq> ALL_NAMESPACE}"
  shows "db_inv env disk db' \<and> consensus_ok (db_node db') (contents env disk db') \<and>
    sr_values_removed report = (\<Sum>n \<in> S. card (gone_of now (contents env disk db) n)) \<and>
    (\<forall>n. n \<noteq> ALL_NAMESPACE \<longrightarrow>
       values_of (contents env disk db') n =
         (if n \<in> S then unexpired now (values_of (contents env disk db) n) else values_of (contents env disk db) n) \<and>
       (contents env disk db' n = None \<longleftrightarrow> contents env disk db n = None \<or>
          n \<in> S \<and> \<not> busy n \<and> gone_of now (contents env disk db) n \<noteq> {} \<and> unexpired now (values_of (contents env disk db) n) = fmempty))"
proof -
  let ?C = "contents env disk db" and ?T = "{n \<in> set (fm_keys (db_namespaces db)). \<not> starts_with n CONFIG_PREFIX}"
  obtain db1 k es where loop: "sweep_loop env disk now (fm_keys (db_namespaces db)) db 0 [] = (db1, k, es)" by (metis prod_cases3)
  have out: "loop_outcome env disk {INTERNAL_SHARD} now ?T db db1 k es"
    using sweep_loop_effect [OF assms(1) _ _ _ loop] by auto
  then have swept: "swept_db env disk {INTERNAL_SHARD} now ?T db db1" by (simp add: loop_outcome_def)
  have TS: "?T - {ALL_NAMESPACE} = S" by (auto simp: S_def)
  have T: "n \<in> ?T \<longleftrightarrow> n \<in> S" if "n \<noteq> ALL_NAMESPACE" for n using that by (auto simp: S_def)
  obtain m rs where prune: "prune_loop busy es (db_namespaces db1) [] = (m, rs)" by fastforce
  have rs: "m = fold fmdrop rs (db_namespaces db1)" "distinct rs"
    "set rs = {n \<in> set es. \<not> starts_with n CONFIG_PREFIX \<and> \<not> busy n \<and> (\<exists>ns. fmlookup (db_namespaces db1) n = Some ns \<and> Namespace_is_empty ns)}"
    using prune_loop_effect [OF prune] by auto
  have db': "db' = fold (\<lambda>n db. uncatalogue db n) rs (db1\<lparr>db_namespaces := fold fmdrop rs (db_namespaces db1)\<rparr>)"
    "sr_values_removed report = k"
    using assms(3) prune rs(1) by (auto simp: Database_sweep_def Database_prune_empty_def loop Let_def split: if_splits)
  have "n \<in> fmdom' (db_namespaces db1) \<and> shard_of n |\<in>| db_dirty db1" if "n \<in> set rs" for n
    using that out by (auto simp: rs(3) loop_outcome_def fmlookup_dom'_iff)
  note fl = forget_list [OF _ rs(2) this db'(1)]
  have fin: "db_inv env disk db'" "same_setup db' db1" "contents env disk db' = (\<lambda>n. if n \<in> set rs then None else contents env disk db1 n)"
    using fl [of env disk "{INTERNAL_SHARD}"] swept by (auto simp: swept_db_def)
  have vals: "values_of (contents env disk db') n = values_of (contents env disk db1) n" for n
    by (auto simp: fin(3) values_of_def rs(3) contents_in_memory Namespace_is_empty_def)
  have node: "db_node db' = db_node db" using fin(2) swept by (simp add: same_setup_def swept_db_def)
  have ok: "consensus_ok (db_node db') (contents env disk db')"
    using consensus_ok_cong [OF vals] swept assms(2) by (simp add: swept_db_def node)
  have removed: "sr_values_removed report = (\<Sum>n \<in> S. card (gone_of now ?C n))"
    using out assms(2) unfolding loop_outcome_def db'(2) TS by blast
  have gone: "n \<in> set rs \<longleftrightarrow> n \<in> S \<and> \<not> busy n \<and> gone_of now ?C n \<noteq> {} \<and> unexpired now (values_of ?C n) = fmempty"
    if n: "n \<noteq> ALL_NAMESPACE" for n
  proof -
    have es: "n \<in> set es \<longleftrightarrow> n \<in> S \<and> gone_of now ?C n \<noteq> {} \<and> unexpired now (values_of ?C n) = fmempty"
      using out n T [OF n] unfolding loop_outcome_def by blast
    have "\<exists>ns. fmlookup (db_namespaces db1) n = Some ns \<and> Namespace_is_empty ns"
      if "n \<in> S" "unexpired now (values_of ?C n) = fmempty"
    proof -
      have "n \<in> fmdom' (db_namespaces db1)" using that(1) swept by (auto simp: S_def swept_db_def)
      then obtain ns where ns: "fmlookup (db_namespaces db1) n = Some ns" by (auto simp: fmlookup_dom'_iff)
      have "values_of (contents env disk db1) n = fmempty" using that n T [OF n] swept unfolding swept_db_def by simp
      then have "fmmap stored_attr (ns_values ns) = fmempty" by (simp add: values_of_def contents_in_memory [OF ns])
      then show ?thesis using ns by (simp add: Namespace_is_empty_def fmmap_is_empty)
    qed
    moreover have "n \<in> S \<Longrightarrow> \<not> starts_with n CONFIG_PREFIX" by (simp add: S_def)
    ultimately show ?thesis unfolding rs(3) using es by blast
  qed
  have "values_of (contents env disk db') n = (if n \<in> S then unexpired now (values_of ?C n) else values_of ?C n) \<and>
      (contents env disk db' n = None \<longleftrightarrow> ?C n = None \<or> n \<in> set rs)" if n: "n \<noteq> ALL_NAMESPACE" for n
    using swept n T [OF n] unfolding vals swept_db_def by (simp add: fin(3))
  then show ?thesis using fin(1) ok removed gone by simp
qed

theorem sweep_removes_the_expired_witness:
  "consensus_ok ''local'' (contents sample_env fmempty (fst sample_write)) \<and>
   (let db' = fst (Database_sweep (\<lambda>_. False) sample_env fmempty (DateTime 200 0) (fst sample_write))
    in db_inv sample_env fmempty db' \<and> consensus_ok (db_node db') (contents sample_env fmempty db'))"
proof -
  have inv: "db_inv sample_env fmempty (fst sample_write)" using sample_write_inv by (rule inv_mono) simp
  obtain db' r where d: "Database_sweep (\<lambda>_. False) sample_env fmempty (DateTime 200 0) (fst sample_write) = (db', r)" by fastforce
  have "db_node (fst sample_write) = ''local''"
    by (simp add: sample_write_value sample_store_db_def Database_attach_store_def Database_with_node_def)
  with sweep_removes_the_expired [OF inv sample_write_ok d] sample_write_ok d show ?thesis by simp
qed

end
