(* ===== verification/Sighting.thy ===== *)
theory Sighting
  imports Consensus
begin

text \<open>
  The entry points of every read and write: \<^verbatim>\<open>src/src/sighting_reader.rs\<close> and \<^verbatim>\<open>src/src/sighting_writer.rs\<close>,
  with the errors of \<^verbatim>\<open>src/src/error.rs\<close>. What a client may write is decided here, once, so that every
  accepted write keeps the database's invariants.
\<close>

section \<open>Errors\<close>

record not_found =
  nf_error :: string
  nf_namespace :: string
  nf_value :: string

definition NotFound_namespace :: "string \<Rightarrow> string \<Rightarrow> not_found" where
  "NotFound_namespace namespace v = \<lparr>nf_error = ''Path not found'', nf_namespace = namespace, nf_value = v\<rparr>"

definition NotFound_value :: "string \<Rightarrow> string \<Rightarrow> not_found" where
  "NotFound_value namespace v = \<lparr>nf_error = ''Value not found'', nf_namespace = namespace, nf_value = v\<rparr>"

datatype api_error =
    ConfigNamespace | InternalNamespace string | NotStored string | NotFound not_found | EmptyValue | InvalidTimestamp int

text \<open>JSON values, as \<open>serde_json::Value\<close>; an object keeps its fields in order. A number is an integer, or
  the text of one with a fraction or an exponent.\<close>

datatype json = JNull | JBool bool | JNum int | JFloat string | JStr string | JArr "json list" | JObj "(string \<times> json) list"

text \<open>Looking into a value: \<open>Value::get\<close>, \<open>as_u64\<close>, \<open>as_i64\<close>, \<open>as_bool\<close>, \<open>as_str\<close> and \<open>as_array\<close>.\<close>

fun json_get :: "json \<Rightarrow> string \<Rightarrow> json option" where
  "json_get (JObj members) name = map_of members name"
| "json_get _ name = None"

definition as_u64 :: "json \<Rightarrow> u64 option" where
  "as_u64 j = (case j of JNum n \<Rightarrow> if 0 \<le> n \<and> n < 2 ^ 64 then Some (word_of_int n) else None | _ \<Rightarrow> None)"

definition as_bool :: "json \<Rightarrow> bool option" where
  "as_bool j = (case j of JBool b \<Rightarrow> Some b | _ \<Rightarrow> None)"

definition as_str :: "json \<Rightarrow> string option" where
  "as_str j = (case j of JStr s \<Rightarrow> Some s | _ \<Rightarrow> None)"

definition as_array :: "json \<Rightarrow> json list option" where
  "as_array j = (case j of JArr items \<Rightarrow> Some items | _ \<Rightarrow> None)"

definition as_i64 :: "json \<Rightarrow> int option" where
  "as_i64 j = (case j of JNum n \<Rightarrow> if i64_min \<le> n \<and> n \<le> i64_max then Some n else None | _ \<Rightarrow> None)"

definition quoted :: "string \<Rightarrow> string" where
  "quoted s = [CHR 0x27] @ s @ [CHR 0x27]"

fun ApiError_to_string :: "api_error \<Rightarrow> string" where
  "ApiError_to_string ConfigNamespace = ''No access to _config namespace from outside!''"
| "ApiError_to_string (InternalNamespace namespace) =
     quoted namespace @ '' is an internal namespace and is not writable from outside.''"
| "ApiError_to_string (NotStored namespace) =
     ''This server does not store '' @ quoted namespace @ ''. Its [storage] namespaces list says what it holds.''"
| "ApiError_to_string (NotFound nf) = nf_error nf"
| "ApiError_to_string EmptyValue = ''Refusing to write an empty value.''"
| "ApiError_to_string (InvalidTimestamp ts) = ''Timestamp out of range: '' @ show_int ts"

fun ApiError_status :: "api_error \<Rightarrow> nat" where
  "ApiError_status ConfigNamespace = 403"
| "ApiError_status (InternalNamespace _) = 403"
| "ApiError_status (NotStored _) = 421"
| "ApiError_status (NotFound _) = 404"
| "ApiError_status EmptyValue = 400"
| "ApiError_status (InvalidTimestamp _) = 400"

definition message_body :: "string \<Rightarrow> json" where
  "message_body message = JObj [(''message'', JStr message)]"

fun ApiError_body :: "api_error \<Rightarrow> json" where
  "ApiError_body (NotFound nf) =
     JObj [(''error'', JStr (nf_error nf)), (''namespace'', JStr (nf_namespace nf)), (''value'', JStr (nf_value nf))]"
| "ApiError_body e = message_body (ApiError_to_string e)"

section \<open>Writing\<close>

definition check :: "database \<Rightarrow> string \<Rightarrow> string \<Rightarrow> api_error + unit" where
  "check db namespace v =
     (if v = [] then Inl EmptyValue
      else if is_internal namespace then Inl (InternalNamespace namespace)
      else if \<not> StoragePolicy_holds (db_stores db) namespace then Inl (NotStored namespace)
      else Inr ())"

definition writer_write_tagged_as ::
  "'f env \<Rightarrow> 'f disk \<Rightarrow> datetime \<Rightarrow> database \<Rightarrow> string option \<Rightarrow> string \<Rightarrow> string \<Rightarrow> datetime option \<Rightarrow> u64 option \<Rightarrow> string
    \<Rightarrow> database \<times> (api_error + written)" where
  "writer_write_tagged_as env disk now db origin namespace v when t given =
     (case check db namespace v of
        Inl e \<Rightarrow> (db, Inl e)
      | Inr _ \<Rightarrow>
          let node = unwrap_or origin (db_node db);
              db = db\<lparr>db_activity := Activity_record_write (db_activity db) namespace (timestamp now)\<rparr>;
              (db, w) = Database_write_tagged_as env disk now db node namespace v (unwrap_or when now)
                 \<lparr>wo_consensus = True, wo_ttl = t\<rparr> given;
              db = db\<lparr>db_latest := Latest_record_at (db_latest db) namespace v (timestamp now)\<rparr>
          in (db, Inr w))"

definition writer_write_tagged ::
  "'f env \<Rightarrow> 'f disk \<Rightarrow> datetime \<Rightarrow> database \<Rightarrow> string \<Rightarrow> string \<Rightarrow> datetime option \<Rightarrow> u64 option \<Rightarrow> string
    \<Rightarrow> database \<times> (api_error + written)" where
  "writer_write_tagged env disk now db namespace v when t given =
     writer_write_tagged_as env disk now db None namespace v when t given"

definition timestamp_to_instant :: "(int \<Rightarrow> datetime option) \<Rightarrow> int \<Rightarrow> api_error + datetime" where
  "timestamp_to_instant from_timestamp ts =
     (case from_timestamp ts of None \<Rightarrow> Inl (InvalidTimestamp ts) | Some t \<Rightarrow> Inr t)"

section \<open>Reading\<close>

definition reader_read ::
  "'f env \<Rightarrow> 'f disk \<Rightarrow> datetime \<Rightarrow> database \<Rightarrow> string \<Rightarrow> string \<Rightarrow> bool \<Rightarrow> bool \<Rightarrow> database \<times> (api_error + attribute_view)" where
  "reader_read env disk now db namespace v with_stats with_shadow =
     (if starts_with namespace CONFIG_PREFIX then (db, Inl ConfigNamespace)
      else let db = db\<lparr>db_activity := Activity_record_read (db_activity db) namespace (timestamp now)\<rparr>;
               (db, consensus) = Database_count env disk now db ALL_NAMESPACE v;
               (db, view) = Database_view env disk now db namespace v consensus with_stats;
               result = (case view of
                           Some view \<Rightarrow> Inr view
                         | None \<Rightarrow> if Database_namespace_exists db namespace
                                   then Inl (NotFound (NotFound_value namespace v))
                                   else Inl (NotFound (NotFound_namespace namespace v)));
               db = (if with_shadow
                     then fst (Database_write env disk now db (SHADOW_PREFIX @ namespace) v now WriteOpts_default) else db)
           in (db, result))"

definition read_namespace ::
  "'f env \<Rightarrow> 'f disk \<Rightarrow> datetime \<Rightarrow> database \<Rightarrow> string \<Rightarrow> database \<times> (api_error + attribute_view list)" where
  "read_namespace env disk now db namespace =
     (if starts_with namespace CONFIG_PREFIX then (db, Inl ConfigNamespace)
      else let db = db\<lparr>db_activity := Activity_record_read (db_activity db) namespace (timestamp now)\<rparr>
           in case Database_namespace_views env disk now db namespace of
                (db, Some attributes) \<Rightarrow> (db, Inr attributes)
              | (db, None) \<Rightarrow> (db, Inl (NotFound (NotFound_namespace namespace []))))"

section \<open>What a write does\<close>

lemma activity_is_apart [simp]:
  "db_inv_upto env disk X (db\<lparr>db_activity := a\<rparr>) = db_inv_upto env disk X db"
  "contents env disk (db\<lparr>db_activity := a\<rparr>) = contents env disk db"
  "same_setup (db\<lparr>db_activity := a\<rparr>) db0 = same_setup db db0"
  "same_setup db0 (db\<lparr>db_activity := a\<rparr>) = same_setup db0 db"
proof -
  have "Database_shard_snapshot (db\<lparr>db_activity := a\<rparr>) = Database_shard_snapshot db"
    by (intro ext snapshot_cong) simp
  then have "shard_sound env disk X (db\<lparr>db_activity := a\<rparr>) = shard_sound env disk X db"
    by (intro ext) (simp add: shard_sound_def)
  then show "db_inv_upto env disk X (db\<lparr>db_activity := a\<rparr>) = db_inv_upto env disk X db"
    by (simp add: db_inv_upto_def shard_resident_def)
  show "contents env disk (db\<lparr>db_activity := a\<rparr>) = contents env disk db"
    by (rule ext, rule contents_cong) (simp_all add: Database_catalogued_def)
qed (simp_all add: same_setup_def)

text \<open>Whatever passes the check takes part in consensus.\<close>

lemma external_counts:
  assumes "\<not> is_internal namespace"
  shows "counts_towards_consensus namespace"
proof -
  have internal: "is_internal (s @ CHR ''/'' # t)" if "CHR ''/'' \<notin> set s" "s \<noteq> []" "hd s = CHR ''_''" for s t
    using that split_on_append [OF that(1), of t] by (cases s) (simp_all add: is_internal_def starts_with_def)
  have "is_internal ALL_NAMESPACE" by code_simp
  moreover have "is_internal namespace" if "starts_with namespace SHADOW_PREFIX"
    using internal [of "''_shadow''"] that by (auto simp: starts_with_iff SHADOW_PREFIX_def)
  moreover have "is_internal namespace" if "starts_with namespace CONFIG_PREFIX"
    using internal [of "''_config''"] that by (auto simp: starts_with_iff CONFIG_PREFIX_def)
  ultimately show ?thesis using assms by (auto simp: counts_towards_consensus_def)
qed

text \<open>A write through the check: refused without effect, or one sighting.\<close>

lemma writer_effect:
  assumes inv: "db_inv_upto env disk X db"
    and wr: "writer_write_tagged_as env disk now db origin namespace v when t given = (db', r)"
  shows "case r of
      Inl e \<Rightarrow> db' = db \<and> check db namespace v = Inl e
    | Inr w \<Rightarrow> check db namespace v = Inr () \<and> db_inv_upto env disk X db' \<and> same_setup db' db \<and>
        contents env disk db' =
          (let C = sighted_by db (contents env disk db) (unwrap_or origin (db_node db)) namespace v (unwrap_or when now)
                 \<lparr>wo_consensus = True, wo_ttl = t\<rparr> given
           in if w_new w then sighted_by db C (db_node db) ALL_NAMESPACE v (unwrap_or when now) WriteOpts_default [] else C) \<and>
        w_count w = Attribute_count (fm_get (Attribute_new v) (values_of (contents env disk db) namespace) v) + 1 \<and>
        (w_new w \<longleftrightarrow> fmlookup (values_of (contents env disk db) namespace) v = None)"
proof (cases "check db namespace v")
  case (Inl e)
  then show ?thesis using wr by (auto simp: writer_write_tagged_as_def)
next
  case (Inr u)
  let ?db = "db\<lparr>db_activity := Activity_record_write (db_activity db) namespace (timestamp now)\<rparr>"
    and ?opts = "\<lparr>wo_consensus = True, wo_ttl = t\<rparr>"
  obtain db1 w where w: "Database_record_write env disk now ?db (unwrap_or origin (db_node db)) namespace v (unwrap_or when now) ?opts given = (db1, w)"
    by fastforce
  have r: "r = Inr w" "db' = db1\<lparr>db_latest := Latest_record_at (db_latest db1) namespace v (timestamp now)\<rparr>"
    using wr Inr w by (auto simp: writer_write_tagged_as_def Database_write_tagged_as_def Let_def)
  have inv1: "db_inv_upto env disk X ?db" using inv by simp
  have "sighted_by ?db = sighted_by db" by (intro ext) (simp add: sighted_by_def)
  then show ?thesis using record_write_effect [OF inv1 w] Inr unfolding r by (simp add: Let_def cong: if_cong)
qed

lemma check_stores: "db_stores db' = db_stores db \<Longrightarrow> check db' namespace v = check db namespace v"
  by (simp add: check_def)

text \<open>
  C6. A client's write is refused with the right error and no effect, or it is a sighting that keeps the
  database consistent: an empty value, an internal namespace and a namespace this server does not store
  are refused, in that order, and everything else is accepted; the count returned is one more than
  before, the namespace counts as holding the value, no other namespace but the tally changes, and the
  tallies stay exact.
\<close>
theorem client_write_is_safe:
  assumes "db_inv env disk db" and "consensus_ok (db_node db) (contents env disk db)"
    and "card (holders (contents env disk db) v) < 2 ^ 64 - 1"
    and "writer_write_tagged_as env disk now db origin namespace v when t given = (db', r)"
  shows "case r of
      Inl e \<Rightarrow> db' = db \<and> e = (if v = [] then EmptyValue else if is_internal namespace then InternalNamespace namespace else NotStored namespace) \<and>
        (v = [] \<or> is_internal namespace \<or> \<not> StoragePolicy_holds (db_stores db) namespace)
    | Inr w \<Rightarrow> v \<noteq> [] \<and> \<not> is_internal namespace \<and> StoragePolicy_holds (db_stores db) namespace \<and>
        db_inv env disk db' \<and> consensus_ok (db_node db') (contents env disk db') \<and>
        w_count w = Attribute_count (fm_get (Attribute_new v) (values_of (contents env disk db) namespace) v) + 1 \<and>
        namespace \<in> holders (contents env disk db') v \<and>
        (\<forall>n. n \<noteq> namespace \<and> n \<noteq> ALL_NAMESPACE \<longrightarrow> contents env disk db' n = contents env disk db n)"
proof (cases "check db namespace v")
  case (Inl e)
  then show ?thesis using assms(4)
    by (auto simp: writer_write_tagged_as_def check_def split: if_splits)
next
  case (Inr u)
  then have ok: "v \<noteq> []" "\<not> is_internal namespace" "StoragePolicy_holds (db_stores db) namespace"
    by (auto simp: check_def split: if_splits)
  let ?db = "db\<lparr>db_activity := Activity_record_write (db_activity db) namespace (timestamp now)\<rparr>"
    and ?opts = "\<lparr>wo_consensus = True, wo_ttl = t\<rparr>"
  obtain db1 w where w: "Database_record_write env disk now ?db (unwrap_or origin (db_node db)) namespace v (unwrap_or when now) ?opts given = (db1, w)"
    by fastforce
  have r: "r = Inr w" "db' = db1\<lparr>db_latest := Latest_record_at (db_latest db1) namespace v (timestamp now)\<rparr>"
    using assms(4) Inr w by (auto simp: writer_write_tagged_as_def Database_write_tagged_as_def Let_def)
  have inv: "db_inv env disk ?db" "consensus_ok (db_node ?db) (contents env disk ?db)"
    "card (holders (contents env disk ?db) v) < 2 ^ 64 - 1" using assms(1-3) by simp_all
  note eff = record_write_effect [OF inv(1) w]
  note cons = write_keeps_consensus [OF inv(1,2) external_counts [OF ok(2)] _ inv(3) w]
  show ?thesis using ok eff cons unfolding r by (auto simp: Let_def sighted_by_def sighted_def)
qed

theorem client_write_is_safe_witness:
  "snd (writer_write_tagged_as sample_env fmempty (DateTime 100 0) sample_store_db None ''_all'' ''v'' None None []) =
     Inl (InternalNamespace ''_all'')"
proof -
  let ?w = "writer_write_tagged_as sample_env fmempty (DateTime 100 0) sample_store_db None ''_all'' ''v'' None None []"
  obtain db' r where w: "?w = (db', r)" by fastforce
  have inv: "db_inv sample_env fmempty sample_store_db" using sample_store_inv by (rule inv_mono) simp
  have bound: "card (holders (contents sample_env fmempty sample_store_db) ''v'') < 2 ^ 64 - 1"
    by (simp add: holders_def values_of_def sample_start)
  have "is_internal ''_all''" by code_simp
  with client_write_is_safe [OF inv sample_start_ok bound w] w show ?thesis by (cases r) auto
qed

section \<open>What a read answers\<close>

lemma shadow_path:
  "\<not> counts_towards_consensus (SHADOW_PREFIX @ n)" "SHADOW_PREFIX @ n \<noteq> ALL_NAMESPACE"
proof -
  show "\<not> counts_towards_consensus (SHADOW_PREFIX @ n)"
    by (simp add: counts_towards_consensus_def starts_with_append)
  show "SHADOW_PREFIX @ n \<noteq> ALL_NAMESPACE"
    by (simp add: SHADOW_PREFIX_def ALL_NAMESPACE_def)
qed

lemma consensus_aside:
  assumes "consensus_ok node C" "\<not> counts_towards_consensus p" "p \<noteq> ALL_NAMESPACE"
  shows "consensus_ok node (C(p := m))"
proof -
  have "holders (C(p := m)) v = holders C v" for v using assms(2) by (auto simp: holders_def values_of_def)
  moreover have "values_of (C(p := m)) ALL_NAMESPACE = values_of C ALL_NAMESPACE" using assms(3) by (simp add: values_of_def)
  ultimately show ?thesis using assms(1) by (simp add: consensus_ok_def tallied_def)
qed

lemma client_read_effect:
  assumes "db_inv env disk db" and "consensus_ok (db_node db) (contents env disk db)"
    and "reader_read env disk now db namespace v with_stats with_shadow = (db', r)"
  shows "db_inv env disk db' \<and> same_setup db' db \<and> consensus_ok (db_node db') (contents env disk db') \<and>
    contents env disk db' =
      (if with_shadow \<and> \<not> starts_with namespace CONFIG_PREFIX
       then sighted_by db (contents env disk db) (db_node db) (SHADOW_PREFIX @ namespace) v now WriteOpts_default []
       else contents env disk db) \<and>
    r = (if starts_with namespace CONFIG_PREFIX then Inl ConfigNamespace
         else case view_in (contents env disk db) namespace v (of_nat (card (holders (contents env disk db) v))) with_stats now of
                Some view \<Rightarrow> Inr view
              | None \<Rightarrow> Inl (NotFound (if contents env disk db namespace \<noteq> None
                                       then NotFound_value namespace v else NotFound_namespace namespace v)))"
proof (cases "starts_with namespace CONFIG_PREFIX")
  case True
  then show ?thesis using assms by (auto simp: reader_read_def)
next
  case False
  let ?C = "contents env disk db"
  let ?db = "db\<lparr>db_activity := Activity_record_read (db_activity db) namespace (timestamp now)\<rparr>"
  obtain db1 c where cnt: "Database_count env disk now ?db ALL_NAMESPACE v = (db1, c)" by fastforce
  obtain db2 view where vw: "Database_view env disk now db1 namespace v c with_stats = (db2, view)" by fastforce
  have inv: "db_inv env disk ?db" "consensus_ok (db_node ?db) (contents env disk ?db)" using assms(1,2) by simp_all
  have c: "c = of_nat (card (holders ?C v))" using consensus_answers [OF inv, of now v] cnt by simp
  have one: "db_inv env disk db1" "contents env disk db1 = ?C" "same_setup db1 db" using count_reads [OF inv(1) cnt] by simp_all
  have two: "db_inv env disk db2" "contents env disk db2 = ?C" "same_setup db2 db" "view = view_in ?C namespace v c with_stats now"
    using view_reads [OF one(1) vw] one(2,3) by (auto intro: same_setup_trans)
  have ex: "Database_namespace_exists db2 namespace \<longleftrightarrow> ?C namespace \<noteq> None" using exists_iff [OF two(1)] two(2) by simp
  have r: "r = (case view of Some view \<Rightarrow> Inr view | None \<Rightarrow> Inl (NotFound (if ?C namespace \<noteq> None
      then NotFound_value namespace v else NotFound_namespace namespace v)))"
    using assms(3) False cnt vw ex by (auto simp: reader_read_def Let_def split: option.splits)
  have node: "db_node db2 = db_node db" using two(3) by (simp add: same_setup_def)
  show ?thesis
  proof (cases with_shadow)
    case shadow: False
    then have "db' = db2" using assms(3) False cnt vw by (auto simp: reader_read_def Let_def)
    then show ?thesis using two r c shadow False assms(2) node by auto
  next
    case True
    obtain db3 w where w: "Database_record_write env disk now db2 (db_node db2) (SHADOW_PREFIX @ namespace) v now WriteOpts_default [] = (db3, w)"
      by fastforce
    have "db' = db3" using assms(3) False cnt vw True w
      by (auto simp: reader_read_def Let_def Database_write_def Database_write_tagged_def split: prod.splits)
    moreover have eff: "db_inv env disk db3 \<and> same_setup db3 db2 \<and>
        contents env disk db3 = sighted_by db2 ?C (db_node db2) (SHADOW_PREFIX @ namespace) v now WriteOpts_default []"
      using record_write_plain [OF two(1) _ w] two(2) by (simp add: WriteOpts_default_def)
    moreover have "sighted_by db2 = sighted_by db" by (rule sighted_by_cong [OF two(3)])
    moreover have "consensus_ok (db_node db) (sighted_by db ?C (db_node db) (SHADOW_PREFIX @ namespace) v now WriteOpts_default [])"
      unfolding sighted_by_def sighted_def by (rule consensus_aside [OF assms(2) shadow_path])
    moreover have "db_node db3 = db_node db" using eff two(3) by (simp add: same_setup_def)
    moreover have "same_setup db3 db" using eff two(3) by (blast intro: same_setup_trans)
    ultimately show ?thesis using two(4) r c True False node by simp
  qed
qed

text \<open>
  C7. A read answers from what is stored and records only the search: it returns the value's view, with
  the number of namespaces holding it as its consensus, when the value is held and has not expired;
  otherwise it says whether the namespace or the value is missing. Configuration is never read. What is
  stored stays as it was, but for one sighting of the value under \<open>_shadow/\<close> when the search is recorded,
  which changes no tally.
\<close>
theorem client_read_answers:
  assumes "db_inv env disk db" and "consensus_ok (db_node db) (contents env disk db)"
    and "reader_read env disk now db namespace v with_stats with_shadow = (db', r)"
  shows "db_inv env disk db' \<and> consensus_ok (db_node db') (contents env disk db') \<and>
    contents env disk db' =
      (if with_shadow \<and> \<not> starts_with namespace CONFIG_PREFIX
       then sighted_by db (contents env disk db) (db_node db) (SHADOW_PREFIX @ namespace) v now WriteOpts_default []
       else contents env disk db) \<and>
    r = (if starts_with namespace CONFIG_PREFIX then Inl ConfigNamespace
         else case view_in (contents env disk db) namespace v (of_nat (card (holders (contents env disk db) v))) with_stats now of
                Some view \<Rightarrow> Inr view
              | None \<Rightarrow> Inl (NotFound (if contents env disk db namespace \<noteq> None
                                       then NotFound_value namespace v else NotFound_namespace namespace v)))"
  using client_read_effect [OF assms] by blast

theorem client_read_answers_witness:
  "snd (reader_read sample_env fmempty (DateTime 100 0) (fst sample_write) ''feeds/b'' ''v'' False True) =
     Inl (NotFound (NotFound_namespace ''feeds/b'' ''v''))"
proof -
  have inv: "db_inv sample_env fmempty (fst sample_write)" using sample_write_inv by (rule inv_mono) simp
  obtain db' r where rd: "reader_read sample_env fmempty (DateTime 100 0) (fst sample_write) ''feeds/b'' ''v'' False True = (db', r)" by fastforce
  have "\<not> starts_with ''feeds/b'' CONFIG_PREFIX" "shard_of ''feeds/b'' = ''feeds''" by code_simp+
  moreover have "contents sample_env fmempty (fst sample_write) ''feeds/b'' = None"
    using calculation(2) by (simp add: contents_def sample_write_value Database_catalogued_def ALL_NAMESPACE_def INTERNAL_SHARD_def)
  ultimately show ?thesis using client_read_answers [OF inv sample_write_ok rd] rd by (simp add: view_in_def values_of_def)
qed

end
