(* ===== verification/Utf8.thy ===== *)
theory Utf8
  imports Prelude
begin

text \<open>
  UTF-8 as the standard library reads it: which byte strings are a \<open>str\<close>, where its characters begin, and
  what \<open>String::from_utf8_lossy\<close> makes of the rest. A string of the model is a list of bytes, so what Rust
  guarantees by the type \<open>str\<close> is the predicate \<open>valid_utf8\<close> here.
\<close>

definition byte_in :: "string \<Rightarrow> nat \<Rightarrow> nat \<Rightarrow> nat \<Rightarrow> bool" where
  "byte_in s i lo hi \<longleftrightarrow> i < length s \<and> lo \<le> (of_char (s ! i) :: nat) \<and> (of_char (s ! i) :: nat) \<le> hi"

text \<open>The second byte after a lead byte: overlong forms, surrogates and code points past the last one are cut off.\<close>

definition second_in :: "string \<Rightarrow> bool" where
  "second_in s \<longleftrightarrow>
     (let b = (of_char (hd s) :: nat)
      in if b = 0xE0 then byte_in s 1 0xA0 0xBF
         else if b = 0xED then byte_in s 1 0x80 0x9F
         else if b = 0xF0 then byte_in s 1 0x90 0xBF
         else if b = 0xF4 then byte_in s 1 0x80 0x8F
         else byte_in s 1 0x80 0xBF)"

text \<open>
  The first character of a non-empty string: how many bytes it takes, and whether they are well formed.
  Ill-formed bytes are taken up to the first one that could not continue them.
\<close>

definition utf8_first :: "string \<Rightarrow> nat \<times> bool" where
  "utf8_first s =
     (let b = (of_char (hd s) :: nat)
      in if b < 0x80 then (1, True)
         else if 0xC2 \<le> b \<and> b \<le> 0xDF then (if second_in s then (2, True) else (1, False))
         else if 0xE0 \<le> b \<and> b \<le> 0xEF then
           (if \<not> second_in s then (1, False)
            else if \<not> byte_in s 2 0x80 0xBF then (2, False) else (3, True))
         else if 0xF0 \<le> b \<and> b \<le> 0xF4 then
           (if \<not> second_in s then (1, False)
            else if \<not> byte_in s 2 0x80 0xBF then (2, False)
            else if \<not> byte_in s 3 0x80 0xBF then (3, False) else (4, True))
         else (1, False))"

lemma utf8_first_pos: "0 < fst (utf8_first s)"
  by (simp add: utf8_first_def Let_def)

function valid_utf8 :: "string \<Rightarrow> bool" where
  "valid_utf8 s \<longleftrightarrow> (if s = [] then True else snd (utf8_first s) \<and> valid_utf8 (drop (fst (utf8_first s)) s))"
  by auto
termination
  by (relation "measure length") (auto simp: utf8_first_pos)

declare valid_utf8.simps [simp del]

text \<open>\<open>String::from_utf8_lossy\<close>: every ill-formed piece becomes one replacement character.\<close>

definition REPLACEMENT :: string where
  "REPLACEMENT = [CHR 0xEF, CHR 0xBF, CHR 0xBD]"

function from_utf8_lossy :: "string \<Rightarrow> string" where
  "from_utf8_lossy s =
     (if s = [] then []
      else (let (n, ok) = utf8_first s in (if ok then take n s else REPLACEMENT))
           @ from_utf8_lossy (drop (fst (utf8_first s)) s))"
  by auto
termination
  by (relation "measure length") (auto simp: utf8_first_pos)

declare from_utf8_lossy.simps [simp del]

text \<open>\<open>str::is_char_boundary\<close>: the ends, and every byte that does not continue a character.\<close>

definition is_cont :: "char \<Rightarrow> bool" where
  "is_cont c \<longleftrightarrow> 0x80 \<le> (of_char c :: nat) \<and> (of_char c :: nat) < 0xC0"

definition is_char_boundary :: "string \<Rightarrow> nat \<Rightarrow> bool" where
  "is_char_boundary s i \<longleftrightarrow> i = 0 \<or> i = length s \<or> i < length s \<and> \<not> is_cont (s ! i)"

definition is_ascii :: "string \<Rightarrow> bool" where
  "is_ascii s \<longleftrightarrow> (\<forall>c \<in> set s. (of_char c :: nat) < 0x80)"

section \<open>Characters of a well-formed string\<close>

lemma valid_Nil [simp]: "valid_utf8 []"
  by (simp add: valid_utf8.simps [of "[]"])

lemma lossy_Nil [simp]: "from_utf8_lossy [] = []"
  by (simp add: from_utf8_lossy.simps [of "[]"])

text \<open>The bytes of the first character: one that does not continue another, then ones that do.\<close>

lemma utf8_first_bytes:
  assumes "snd (utf8_first s)" "s \<noteq> []"
  shows "fst (utf8_first s) \<le> length s \<and> fst (utf8_first s) \<le> 4 \<and> \<not> is_cont (hd s) \<and>
    (\<forall>i. 0 < i \<longrightarrow> i < fst (utf8_first s) \<longrightarrow> is_cont (s ! i))"
proof -
  have second: "second_in s \<Longrightarrow> 2 \<le> length s \<and> is_cont (s ! 1)"
    by (auto simp: second_in_def byte_in_def is_cont_def Let_def split: if_splits)
  have later: "byte_in s i 0x80 0xBF \<Longrightarrow> i < length s \<and> is_cont (s ! i)" for i
    by (simp add: byte_in_def is_cont_def)
  have small: "0 < i \<Longrightarrow> i < 2 \<Longrightarrow> i = Suc 0" "0 < i \<Longrightarrow> i < 3 \<Longrightarrow> i = Suc 0 \<or> i = 2" "0 < i \<Longrightarrow> i < 4 \<Longrightarrow> i = Suc 0 \<or> i = 2 \<or> i = 3" for i :: nat
    by auto
  let ?b = "of_char (hd s) :: nat"
  have ne: "1 \<le> length s" using assms(2) by (cases s) auto
  consider "fst (utf8_first s) = 1" "?b < 0x80"
    | "fst (utf8_first s) = 2" "0xC2 \<le> ?b" "second_in s"
    | "fst (utf8_first s) = 3" "0xC2 \<le> ?b" "second_in s" "byte_in s 2 0x80 0xBF"
    | "fst (utf8_first s) = 4" "0xC2 \<le> ?b" "second_in s" "byte_in s 2 0x80 0xBF" "byte_in s 3 0x80 0xBF"
    using assms(1) by (auto simp: utf8_first_def Let_def split: if_splits)
  then show ?thesis
  proof cases
    case 1
    then show ?thesis using ne by (auto simp: is_cont_def)
  next
    case 2
    then show ?thesis using second by (auto simp: is_cont_def [of "hd s"] dest!: small(1))
  next
    case 3
    then show ?thesis using second later [of 2] by (auto simp: is_cont_def [of "hd s"] dest!: small(2))
  next
    case 4
    then show ?thesis using second later [of 2] later [of 3] by (auto simp: is_cont_def [of "hd s"] dest!: small(3))
  qed
qed

text \<open>A well-formed first character is read the same when the string is cut behind it.\<close>

lemma utf8_first_take:
  assumes "snd (utf8_first s)" "fst (utf8_first s) \<le> j" "j \<le> length s"
  shows "utf8_first (take j s) = utf8_first s"
proof -
  have pos: "0 < j" using assms(2) utf8_first_pos [of s] by linarith
  have hd: "hd (take j s) = hd s" using pos by (cases s) (auto simp: take_Cons')
  have byte: "byte_in (take j s) i lo hi = (i < j \<and> byte_in s i lo hi)" for i lo hi
    using assms(3) by (auto simp: byte_in_def)
  have sec: "second_in (take j s) = (1 < j \<and> second_in s)"
    by (simp add: second_in_def hd byte Let_def)
  show ?thesis
    using assms(1,2) unfolding utf8_first_def Let_def hd byte sec
    by (simp split: if_splits)
qed

lemma valid_cut:
  assumes "valid_utf8 s" "is_char_boundary s j" "j \<le> length s"
  shows "valid_utf8 (take j s) \<and> valid_utf8 (drop j s)"
  using assms
proof (induction s arbitrary: j rule: valid_utf8.induct)
  case (1 s)
  show ?case
  proof (cases "s = [] \<or> j = 0")
    case True
    then show ?thesis using 1 by auto
  next
    case False
    let ?n = "fst (utf8_first s)"
    have ok: "snd (utf8_first s)" "valid_utf8 (drop ?n s)"
      using "1.prems"(1) False by (auto simp: valid_utf8.simps [of s])
    have ne: "s \<noteq> []" using False by simp
    note first = utf8_first_bytes [OF ok(1) ne]
    have le: "?n \<le> j"
    proof (rule ccontr)
      assume "\<not> ?n \<le> j"
      then have "is_cont (s ! j)" "j < length s" using first False by auto
      then show False using "1.prems"(2) False by (simp add: is_char_boundary_def)
    qed
    have bd: "is_char_boundary (drop ?n s) (j - ?n)"
      using "1.prems"(2,3) le by (auto simp: is_char_boundary_def)
    have ih: "valid_utf8 (take (j - ?n) (drop ?n s)) \<and> valid_utf8 (drop (j - ?n) (drop ?n s))"
      using "1.IH" [OF ne ok(2) bd] "1.prems"(3) by simp
    have tk: "utf8_first (take j s) = utf8_first s" by (rule utf8_first_take [OF ok(1) le "1.prems"(3)])
    have "valid_utf8 (take j s)"
      using ih ok(1) le by (simp add: valid_utf8.simps [of "take j s"] tk drop_take)
    then show ?thesis using ih le by simp
  qed
qed

text \<open>Going back at most three bytes from anywhere inside reaches the start of a character.\<close>

lemma boundary_near:
  assumes "valid_utf8 s" "i < length s"
  shows "\<exists>j. j \<le> i \<and> i < j + 4 \<and> is_char_boundary s j"
  using assms
proof (induction s arbitrary: i rule: valid_utf8.induct)
  case (1 s)
  let ?n = "fst (utf8_first s)"
  have ok: "s \<noteq> []" "snd (utf8_first s)" "valid_utf8 (drop ?n s)"
    using "1.prems" by (auto simp: valid_utf8.simps [of s] split: if_splits)
  note first = utf8_first_bytes [OF ok(2,1)]
  show ?case
  proof (cases "i < ?n")
    case True
    then have "i < 0 + 4" using first by linarith
    then show ?thesis by (intro exI [of _ 0]) (simp add: is_char_boundary_def)
  next
    case False
    then have "i - ?n < length (drop ?n s)" using "1.prems"(2) by simp
    then obtain j where j: "j \<le> i - ?n" "i - ?n < j + 4" "is_char_boundary (drop ?n s) j"
      using "1.IH" [OF ok(1,3)] by blast
    have "is_char_boundary s (j + ?n)"
    proof (cases "j = 0")
      case True
      have lt: "?n < length s" using False "1.prems"(2) by simp
      then have "drop ?n s \<noteq> []" by simp
      then have "snd (utf8_first (drop ?n s))" using ok(3) by (auto simp: valid_utf8.simps [of "drop ?n s"])
      then have "\<not> is_cont (hd (drop ?n s))" using utf8_first_bytes \<open>drop ?n s \<noteq> []\<close> by blast
      then show ?thesis using True lt by (simp add: is_char_boundary_def hd_drop_conv_nth)
    next
      case False
      then show ?thesis using j(3) first by (auto simp: is_char_boundary_def add.commute)
    qed
    moreover have "j + ?n \<le> i" "i < j + ?n + 4" using j False by linarith+
    ultimately show ?thesis by blast
  qed
qed

lemma valid_append:
  assumes "valid_utf8 a" "valid_utf8 b"
  shows "valid_utf8 (a @ b)"
  using assms
proof (induction a rule: valid_utf8.induct)
  case (1 s)
  show ?case
  proof (cases "s = []")
    case False
    let ?n = "fst (utf8_first s)"
    have ok: "snd (utf8_first s)" "valid_utf8 (drop ?n s)"
      using "1.prems"(1) False by (auto simp: valid_utf8.simps [of s])
    have hd: "hd (s @ b) = hd s" using False by simp
    have byte: "byte_in s i lo hi \<Longrightarrow> byte_in (s @ b) i lo hi" for i lo hi
      by (simp add: byte_in_def nth_append)
    have sec: "second_in s \<Longrightarrow> second_in (s @ b)"
      unfolding second_in_def hd Let_def by (auto split: if_splits intro: byte)
    have "utf8_first (s @ b) = utf8_first s"
      using ok(1) sec byte unfolding utf8_first_def hd Let_def by (simp split: if_splits)
    moreover have "?n \<le> length s" using utf8_first_bytes [OF ok(1) False] by simp
    ultimately show ?thesis
      using "1.IH" [OF False ok(2) "1.prems"(2)] ok(1) by (simp add: valid_utf8.simps [of "s @ b"])
  qed (use "1.prems" in simp)
qed

lemma valid_ascii: "is_ascii s \<Longrightarrow> valid_utf8 s"
proof (induction s)
  case (Cons c s)
  then have "utf8_first (c # s) = (1, True)" by (simp add: utf8_first_def is_ascii_def)
  moreover have "valid_utf8 s" using Cons by (simp add: is_ascii_def)
  ultimately show ?case by (simp add: valid_utf8.simps [of "c # s"])
qed simp

lemma ascii_append [simp]: "is_ascii (a @ b) \<longleftrightarrow> is_ascii a \<and> is_ascii b"
  by (auto simp: is_ascii_def)

lemma ascii_Cons [simp]: "is_ascii (c # s) \<longleftrightarrow> (of_char c :: nat) < 0x80 \<and> is_ascii s"
  by (auto simp: is_ascii_def)

lemma ascii_Nil [simp]: "is_ascii []"
  by (simp add: is_ascii_def)

lemma ascii_show_nat [simp]: "is_ascii (show_nat n)"
  by (induction n rule: show_nat.induct) (subst show_nat.simps, auto simp: digit_def)

lemma ascii_show_u64 [simp]: "is_ascii (show_u64 w)"
  by (simp add: show_u64_def)

lemma ascii_show_int [simp]: "is_ascii (show_int i)"
  by (simp add: show_int_def)

text \<open>A well-formed string is read as it stands, and whatever is read is well formed.\<close>

lemma from_utf8_lossy_valid: "valid_utf8 s \<Longrightarrow> from_utf8_lossy s = s"
proof (induction s rule: valid_utf8.induct)
  case (1 s)
  show ?case
  proof (cases "s = []")
    case False
    then have "snd (utf8_first s)" "from_utf8_lossy (drop (fst (utf8_first s)) s) = drop (fst (utf8_first s)) s"
      using 1 by (auto simp: valid_utf8.simps [of s])
    then show ?thesis using False by (simp add: from_utf8_lossy.simps [of s] split_beta)
  qed simp
qed

lemma valid_from_utf8_lossy: "valid_utf8 (from_utf8_lossy s)"
proof (induction s rule: from_utf8_lossy.induct)
  case (1 s)
  show ?case
  proof (cases "s = []")
    case False
    let ?n = "fst (utf8_first s)"
    have "valid_utf8 (if snd (utf8_first s) then take ?n s else REPLACEMENT)"
    proof (cases "snd (utf8_first s)")
      case True
      have "?n \<le> length s" using utf8_first_bytes [OF True False] by simp
      then have "utf8_first (take ?n s) = utf8_first s" using utf8_first_take [OF True] by simp
      then show ?thesis using True by (simp add: valid_utf8.simps [of "take ?n s"])
    next
      case no: False
      have "valid_utf8 REPLACEMENT" by code_simp
      then show ?thesis using no by simp
    qed
    then show ?thesis using 1 False by (auto simp: from_utf8_lossy.simps [of s] split_beta intro: valid_append)
  qed simp
qed

end
