(* ===== verification/Dns_Name.thy ===== *)
theory Dns_Name
  imports Utf8 Store
begin

text \<open>
  Query names of the DNS interface, \<^verbatim>\<open>src/src/dns/name.rs\<close>: how \<open><value labels>.<label>.<zone>\<close> names a value of a
  configured namespace. Addresses are written the DNSBL way, reversed octets for IPv4 and reversed nibbles
  for IPv6; anything else is base32. The base32 codec is a parameter; \<open>Ipv4Addr\<close>, \<open>Ipv6Addr\<close> and \<open>u8::from_str\<close>
  of the standard library are modelled here.
\<close>

section \<open>Numbers and addresses\<close>

type_synonym u8 = "8 word"
type_synonym u16 = "16 word"
type_synonym u32 = "32 word"

text \<open>\<open>u8::from_str\<close>: an optional plus sign and decimal digits, refused when empty or out of range.\<close>

fun u8_digits :: "string \<Rightarrow> nat \<Rightarrow> nat option" where
  "u8_digits [] acc = Some acc"
| "u8_digits (c # s) acc =
     (if is_ascii_digit c then
        (let v = acc * 10 + (of_char c - 48) in if v < 256 then u8_digits s v else None)
      else None)"

definition u8_from_str :: "string \<Rightarrow> u8 option" where
  "u8_from_str s =
     map_option of_nat
       (if s = [] \<or> s = ''+'' \<or> s = ''-'' then None
        else if hd s = CHR ''+'' then u8_digits (tl s) 0 else u8_digits s 0)"

definition show_u8 :: "u8 \<Rightarrow> string" where
  "show_u8 w = show_nat (unat w)"

fun show_hex :: "nat \<Rightarrow> string" where
  "show_hex n = (if n < 16 then [hex_lower n] else show_hex (n div 16) @ [hex_lower (n mod 16)])"

declare show_hex.simps [simp del]

definition to_digit16 :: "char \<Rightarrow> nat option" where
  "to_digit16 c =
     (let n = (of_char c :: nat)
      in if 48 \<le> n \<and> n \<le> 57 then Some (n - 48)
         else if 97 \<le> n \<and> n \<le> 102 then Some (n - 87)
         else if 65 \<le> n \<and> n \<le> 70 then Some (n - 55) else None)"

definition ipv4_to_string :: "u8 list \<Rightarrow> string" where
  "ipv4_to_string octets = join ''.'' (map show_u8 octets)"

fun ipv6_segments :: "u8 list \<Rightarrow> nat list" where
  "ipv6_segments (a # b # octets) = (256 * unat a + unat b) # ipv6_segments octets"
| "ipv6_segments _ = []"

text \<open>The longest run of zero segments, the first of them when several are longest: start and length.\<close>

fun zero_span :: "nat list \<Rightarrow> nat \<Rightarrow> nat \<times> nat \<Rightarrow> nat \<times> nat \<Rightarrow> nat \<times> nat" where
  "zero_span [] i current longest = longest"
| "zero_span (s # segs) i (start, len) longest =
     (if s = 0 then
        let current = (if len = 0 then i else start, len + 1)
        in zero_span segs (i + 1) current (if snd current > snd longest then current else longest)
      else zero_span segs (i + 1) (0, 0) longest)"

definition ipv6_to_string :: "u8 list \<Rightarrow> string" where
  "ipv6_to_string octets =
     (if take 12 octets = replicate 10 0 @ [0xFF, 0xFF] then ''::ffff:'' @ ipv4_to_string (drop 12 octets)
      else let segs = ipv6_segments octets; (start, len) = zero_span segs 0 (0, 0) (0, 0)
           in if len > 1 then join '':'' (map show_hex (take start segs)) @ ''::'' @ join '':'' (map show_hex (drop (start + len) segs))
              else join '':'' (map show_hex segs))"

definition to_ascii_uppercase :: "string \<Rightarrow> string" where
  "to_ascii_uppercase s =
     map (\<lambda>c. let n = (of_char c :: nat) in if 97 \<le> n \<and> n \<le> 122 then char_of (n - 32) else c) s"

section \<open>Encodings\<close>

datatype encoding = Ip | Domain | Base32

definition Encoding_parse :: "string \<Rightarrow> string + encoding" where
  "Encoding_parse raw =
     (let other = to_ascii_lowercase (trim raw)
      in if other = ''ip'' then Inr Ip
         else if other = ''domain'' then Inr Domain
         else if other = ''base32'' then Inr Base32
         else Inl (''unknown DNS encoding '' @ [CHR 0x27] @ other @ [CHR 0x27] @ '', expected ip, domain or base32''))"

record exposed =
  ex_label :: string
  ex_namespace :: string
  ex_encoding :: encoding

record lookup =
  lk_exposed :: exposed
  lk_value :: string

section \<open>Reading values back\<close>

definition parse_canonical_u8 :: "string \<Rightarrow> u8 option" where
  "parse_canonical_u8 label =
     (if label = [] \<or> length label > 1 \<and> hd label = CHR ''0'' then None else u8_from_str label)"

definition parse_nibble :: "string \<Rightarrow> u8 option" where
  "parse_nibble label =
     (if length label \<noteq> 1 then None else map_option of_nat (to_digit16 (hd label)))"

fun pack_nibbles :: "u8 list \<Rightarrow> u8 list" where
  "pack_nibbles (hi # lo # nibbles) = (or (push_bit 4 hi) lo) # pack_nibbles nibbles"
| "pack_nibbles _ = []"

definition decode_ip :: "string list \<Rightarrow> string option" where
  "decode_ip labels =
     (if length labels = 4 then map_option ipv4_to_string (those (map parse_canonical_u8 (rev labels)))
      else if length labels = 32 then
        map_option (\<lambda>nibbles. ipv6_to_string (pack_nibbles nibbles)) (those (map parse_nibble (rev labels)))
      else None)"

definition decode_base32 :: "(string \<Rightarrow> string option) \<Rightarrow> string list \<Rightarrow> string option" where
  "decode_base32 base32_nopad labels =
     (case base32_nopad (to_ascii_uppercase (concat labels)) of
        None \<Rightarrow> None
      | Some bytes \<Rightarrow> if valid_utf8 bytes then Some bytes else None)"

fun decode :: "(string \<Rightarrow> string option) \<Rightarrow> string list \<Rightarrow> encoding \<Rightarrow> string option" where
  "decode base32_nopad labels Ip = decode_ip labels"
| "decode base32_nopad labels Domain = Some (join ''.'' labels)"
| "decode base32_nopad labels Base32 = decode_base32 base32_nopad labels"

text \<open>\<open>slice::strip_suffix\<close> and \<open>ends_with\<close> on lists of labels.\<close>

definition labels_end_with :: "string list \<Rightarrow> string list \<Rightarrow> bool" where
  "labels_end_with ls zone \<longleftrightarrow> length zone \<le> length ls \<and> drop (length ls - length zone) ls = zone"

definition strip_suffix :: "string list \<Rightarrow> string list \<Rightarrow> string list option" where
  "strip_suffix ls zone =
     (if labels_end_with ls zone then Some (take (length ls - length zone) ls) else None)"

definition resolve :: "(string \<Rightarrow> string option) \<Rightarrow> string list \<Rightarrow> string list \<Rightarrow> exposed list \<Rightarrow> lookup option" where
  "resolve base32_nopad qlabels zone exposeds =
     (case strip_suffix qlabels zone of
        None \<Rightarrow> None
      | Some rest \<Rightarrow>
          if rest = [] then None
          else let label = List.last rest; value_labels = butlast rest
               in if value_labels = [] then None
                  else case find (\<lambda>e. ex_label e = label) exposeds of
                         None \<Rightarrow> None
                       | Some e \<Rightarrow>
                           (case decode base32_nopad value_labels (ex_encoding e) of
                              None \<Rightarrow> None
                            | Some v \<Rightarrow> Some \<lparr>lk_exposed = e, lk_value = v\<rparr>))"

section \<open>How a client spells a value\<close>

text \<open>The names a DNSBL client asks for: octets, or nibbles, from the last to the first.\<close>

definition ip4_labels :: "u8 list \<Rightarrow> string list" where
  "ip4_labels octets = rev (map show_u8 octets)"

definition ip6_labels :: "u8 list \<Rightarrow> string list" where
  "ip6_labels octets =
     rev (concat (map (\<lambda>w. [[hex_lower (unat w div 16)], [hex_lower (unat w mod 16)]]) octets))"

lemma those_map_eq: "those (map f xs) = Some ys \<longleftrightarrow> map f xs = map Some ys"
proof (induction xs arbitrary: ys)
  case (Cons x xs)
  then show ?case by (cases ys; cases "those (map f xs)") (auto split: option.splits)
qed auto

lemma those_map_roundtrip: "(\<And>x. x \<in> set xs \<Longrightarrow> f (g x) = Some x) \<Longrightarrow> those (map f (map g xs)) = Some xs"
  by (simp add: those_map_eq del: map_map) (simp add: map_eq_conv)

lemma digit_value [simp]: "d < 10 \<Longrightarrow> (of_char (digit d) :: nat) = 48 + d"
  by (simp add: digit_def of_char_of take_bit_eq_mod)

lemma digit_0 [simp]: "digit 0 = CHR ''0''"
  by code_simp

lemma digit_of_value: "is_ascii_digit c \<Longrightarrow> digit (of_char c - 48) = c"
  by (simp add: digit_def is_ascii_digit_def)

lemma digit_bound: "is_ascii_digit c \<Longrightarrow> of_char c - 48 < (10::nat)"
  unfolding is_ascii_digit_def by linarith

lemma show_nat_step: "0 < n \<Longrightarrow> d < 10 \<Longrightarrow> show_nat (n * 10 + d) = show_nat n @ [digit d]"
  by (simp add: show_nat.simps [of "n * 10 + d"])

lemma show_nat_small: "n < 10 \<Longrightarrow> show_nat n = [digit n]"
  by (simp add: show_nat.simps [of n])

text \<open>Reading digits after a non-zero number is appending them to it, and a number is below 256.\<close>

lemma u8_digits_shows: "u8_digits s acc = Some v \<Longrightarrow> 0 < acc \<Longrightarrow> show_nat v = show_nat acc @ s"
proof (induction s arbitrary: acc)
  case (Cons c s)
  let ?v = "acc * 10 + (of_char c - 48)"
  have dig: "is_ascii_digit c" "u8_digits s ?v = Some v" using Cons.prems(1) by (auto simp: Let_def split: if_splits)
  have lt: "of_char c - 48 < (10::nat)" by (rule digit_bound [OF dig(1)])
  have "show_nat v = show_nat ?v @ s" using Cons.IH [OF dig(2)] Cons.prems(2) by simp
  then show ?case using show_nat_step [OF Cons.prems(2) lt] digit_of_value [OF dig(1)] by simp
qed simp

lemma u8_digits_bound: "u8_digits s acc = Some v \<Longrightarrow> acc < 256 \<Longrightarrow> v < 256"
  by (induction s arbitrary: acc) (auto simp: Let_def split: if_splits)

lemma canonical_digits:
  assumes "u8_digits l 0 = Some v" "l \<noteq> []" "length l > 1 \<longrightarrow> hd l \<noteq> CHR ''0''"
  shows "l = show_nat v"
proof -
  obtain c s where l: "l = c # s" using assms(2) by (cases l) auto
  let ?d = "of_char c - 48 :: nat"
  have dig: "is_ascii_digit c" "u8_digits s ?d = Some v" using assms(1) l by (auto simp: Let_def split: if_splits)
  have sm: "show_nat ?d = [c]" using digit_bound [OF dig(1)] digit_of_value [OF dig(1)] by (simp add: show_nat_small)
  show ?thesis
  proof (cases "s = []")
    case True
    then show ?thesis using dig(2) sm l by simp
  next
    case False
    then have "c \<noteq> CHR ''0''" using assms(3) l by simp
    have "?d \<noteq> 0"
    proof
      assume "?d = 0"
      then have "digit 0 = c" using digit_of_value [OF dig(1)] by simp
      then show False using \<open>c \<noteq> CHR ''0''\<close> by simp
    qed
    then show ?thesis using u8_digits_shows [OF dig(2)] sm l by simp
  qed
qed

lemma u8_digits_append:
  "u8_digits (s @ t) acc = (case u8_digits s acc of None \<Rightarrow> None | Some v \<Rightarrow> u8_digits t v)"
  by (induction s arbitrary: acc) (auto simp: Let_def)

lemma digit_is_digit [simp]: "d < 10 \<Longrightarrow> is_ascii_digit (digit d)"
  by (simp add: is_ascii_digit_def)

lemma digits_show_nat: "n < 256 \<Longrightarrow> u8_digits (show_nat n) 0 = Some n"
proof (induction n rule: show_nat.induct)
  case (1 n)
  show ?case
  proof (cases "n < 10")
    case True
    then show ?thesis by (simp add: show_nat_small Let_def)
  next
    case False
    then have "u8_digits (show_nat (n div 10)) 0 = Some (n div 10)" using 1 by simp
    moreover have "show_nat n = show_nat (n div 10) @ [digit (n mod 10)]" using False by (simp add: show_nat.simps [of n])
    moreover have "n div 10 * 10 + n mod 10 = n" by simp
    ultimately show ?thesis using 1(2) by (simp add: u8_digits_append Let_def)
  qed
qed

lemma show_nat_shape:
  "show_nat n \<noteq> [] \<and> (\<forall>c \<in> set (show_nat n). is_ascii_digit c) \<and> (0 < n \<longrightarrow> hd (show_nat n) \<noteq> CHR ''0'')"
proof (induction n rule: show_nat.induct)
  case (1 n)
  show ?case
  proof (cases "n < 10")
    case True
    have "digit n \<noteq> CHR ''0''" if "0 < n"
      using that True digit_value [of n] by (metis add_0_right add_left_cancel digit_0 digit_value less_not_refl2 zero_less_numeral)
    then show ?thesis using True by (simp add: show_nat_small)
  next
    case False
    then have "show_nat n = show_nat (n div 10) @ [digit (n mod 10)]" by (simp add: show_nat.simps [of n])
    then show ?thesis using 1 False by (auto simp: hd_append)
  qed
qed

lemma canonical_u8_iff:
  assumes "\<not> starts_with label ''+''"
  shows "parse_canonical_u8 label = Some w \<longleftrightarrow> label = show_u8 w"
proof
  assume ok: "parse_canonical_u8 label = Some w"
  then have ne: "label \<noteq> []" "length label > 1 \<longrightarrow> hd label \<noteq> CHR ''0''" by (auto simp: parse_canonical_u8_def split: if_splits)
  then have "hd label \<noteq> CHR ''+''" using assms by (cases label) (auto simp: starts_with_def)
  then obtain v where v: "u8_digits label 0 = Some v" "w = of_nat v"
    using ok ne by (auto simp: parse_canonical_u8_def u8_from_str_def split: if_splits)
  moreover have "v < 256" using u8_digits_bound [OF v(1)] by simp
  ultimately show "label = show_u8 w" using canonical_digits [OF v(1) ne] by (simp add: show_u8_def unat_of_nat)
next
  assume l: "label = show_u8 w"
  have lt: "unat w < 256" using unsigned_less [of w] by simp
  have shape: "label \<noteq> []" "\<forall>c \<in> set label. is_ascii_digit c" "0 < unat w \<longrightarrow> hd label \<noteq> CHR ''0''"
    using show_nat_shape [of "unat w"] l by (auto simp: show_u8_def)
  have "is_ascii_digit (hd label)" using shape(1,2) by simp
  then have "hd label \<noteq> CHR ''+''" "hd label \<noteq> CHR ''-''" by (auto simp: is_ascii_digit_def)
  moreover have "length label = 1" if "unat w = 0" using that l by (simp add: show_u8_def show_nat_small)
  ultimately show "parse_canonical_u8 label = Some w"
    using shape digits_show_nat [OF lt] l by (auto simp: parse_canonical_u8_def u8_from_str_def show_u8_def)
qed

lemma show_u8_plain: "\<not> starts_with (show_u8 w) ''+'' \<and> CHR ''.'' \<notin> set (show_u8 w)"
proof -
  have digits: "\<forall>c \<in> set (show_u8 w). is_ascii_digit c" and ne: "show_u8 w \<noteq> []"
    using show_nat_shape [of "unat w"] by (auto simp: show_u8_def)
  have "\<not> is_ascii_digit CHR ''.''" "\<not> is_ascii_digit CHR ''+''" by (simp_all add: is_ascii_digit_def)
  then show ?thesis using digits ne by (cases "show_u8 w") (auto simp: starts_with_def)
qed

lemma ipv4_to_string_inj:
  assumes "ipv4_to_string a = ipv4_to_string b" "a \<noteq> []" "b \<noteq> []"
  shows "a = b"
proof -
  have "split_on CHR ''.'' (ipv4_to_string xs) = map show_u8 xs" if "xs \<noteq> []" for xs
    unfolding ipv4_to_string_def using that show_u8_plain by (intro split_on_join) auto
  then have "map show_u8 a = map show_u8 b" using assms by metis
  moreover have "inj show_u8" using canonical_u8_iff show_u8_plain by (metis injI option.inject)
  ultimately show ?thesis by (simp add: inj_map_eq_map)
qed

lemma to_digit16_hex [simp]: "n < 16 \<Longrightarrow> to_digit16 (hex_lower n) = Some n"
  by (simp add: to_digit16_def hex_digit_codes Let_def)

lemma pack_one: "or (push_bit 4 (of_nat (unat (w :: u8) div 16))) (of_nat (unat w mod 16)) = w"
proof -
  have "of_nat (unat w div 16) = drop_bit 4 w" "of_nat (unat w mod 16) = take_bit 4 w"
    by (simp_all add: drop_bit_eq_div take_bit_eq_mod word_arith_nat_div word_arith_nat_mod)
  moreover have "or (push_bit 4 (drop_bit 4 w)) (take_bit 4 w) = w"
    by (rule bit_eqI) (auto simp: bit_simps)
  ultimately show ?thesis by simp
qed

lemma pack_unpack: "pack_nibbles (concat (map (\<lambda>w. [of_nat (unat w div 16), of_nat (unat w mod 16)]) octets)) = octets"
  by (induction octets) (simp_all add: pack_one)

lemma decode_ip6_labels:
  assumes "length octets = 16"
  shows "decode_ip (ip6_labels octets) = Some (ipv6_to_string octets)"
proof -
  let ?ns = "concat (map (\<lambda>w. [of_nat (unat w div 16), of_nat (unat w mod 16)]) octets) :: u8 list"
  have "length (ip6_labels octets) = 32" using assms by (simp add: ip6_labels_def length_concat comp_def sum_list_triv)
  moreover have hi: "unat (w :: u8) div 16 < 16" for w
  proof -
    have "unat w < 256" using unsigned_less [of w] by simp
    then show ?thesis by (simp add: less_mult_imp_div_less)
  qed
  moreover have nib: "parse_nibble [hex_lower n] = Some (of_nat n)" if "n < 16" for n
    using that by (simp add: parse_nibble_def)
  moreover have "map parse_nibble (rev (ip6_labels octets)) = map Some ?ns"
    using nib hi by (simp add: ip6_labels_def map_concat comp_def)
  then have "those (map parse_nibble (rev (ip6_labels octets))) = Some ?ns" by (simp add: those_map_eq)
  ultimately show ?thesis by (simp add: decode_ip_def pack_unpack)
qed

lemma decode_ip4_labels:
  assumes "length octets = 4"
  shows "decode_ip (ip4_labels octets) = Some (ipv4_to_string octets)"
proof -
  have "parse_canonical_u8 (show_u8 w) = Some w" for w using canonical_u8_iff show_u8_plain by blast
  then show ?thesis
    using those_map_roundtrip [of octets parse_canonical_u8 show_u8] assms by (simp add: decode_ip_def ip4_labels_def)
qed

lemma ip4_reads:
  assumes "length ls = 4" "\<forall>l \<in> set ls. \<not> starts_with l ''+''" "decode_ip ls = Some v"
  shows "\<exists>octets. length octets = 4 \<and> ls = ip4_labels octets \<and> v = ipv4_to_string octets"
proof -
  obtain os where os: "map parse_canonical_u8 (rev ls) = map Some os" "v = ipv4_to_string os"
    using assms(1,3) by (auto simp: decode_ip_def those_map_eq)
  have len: "length os = 4" using os(1) assms(1) by (metis length_map length_rev)
  have "rev ls = map show_u8 os"
  proof (rule nth_equalityI)
    fix i assume "i < length (rev ls)"
    moreover from this have "parse_canonical_u8 (rev ls ! i) = Some (os ! i)"
      using os(1) len assms(1) by (metis length_rev nth_map)
    moreover have "rev ls ! i \<in> set ls" using calculation(1) by (metis nth_mem set_rev)
    ultimately show "rev ls ! i = map show_u8 os ! i" using assms(1,2) len canonical_u8_iff by simp
  qed (use len assms(1) in simp)
  then have "ls = ip4_labels os" by (metis ip4_labels_def rev_rev_ident)
  then show ?thesis using os(2) len by blast
qed

text \<open>
  Addresses are asked for by the names DNSBL clients use, and an IPv4 address by one name only: the
  reversed octets of an address name its dotted form, the reversed nibbles of an IPv6 address its canonical
  form; and of all names of four labels, none of which begins with a plus sign, only the reversed canonical
  octets name an address, and no two name the same one.
\<close>
theorem dns_ip_names:
  "(length octets = 4 \<longrightarrow> decode_ip (ip4_labels octets) = Some (ipv4_to_string octets)) \<and>
   (length octets = 16 \<longrightarrow> decode_ip (ip6_labels octets) = Some (ipv6_to_string octets)) \<and>
   (length labels = 4 \<and> (\<forall>l \<in> set labels. \<not> starts_with l ''+'') \<and> decode_ip labels = Some v \<longrightarrow>
     (\<exists>!octets. length octets = 4 \<and> labels = ip4_labels octets \<and> v = ipv4_to_string octets) \<and>
     (\<forall>other. length other = 4 \<and> (\<forall>l \<in> set other. \<not> starts_with l ''+'') \<and> decode_ip other = Some v \<longrightarrow> other = labels))"
proof (intro conjI impI allI)
  show "decode_ip (ip4_labels octets) = Some (ipv4_to_string octets)" if "length octets = 4"
    by (rule decode_ip4_labels [OF that])
  show "decode_ip (ip6_labels octets) = Some (ipv6_to_string octets)" if "length octets = 16"
    by (rule decode_ip6_labels [OF that])
  assume l: "length labels = 4 \<and> (\<forall>l \<in> set labels. \<not> starts_with l ''+'') \<and> decode_ip labels = Some v"
  show "\<exists>!octets. length octets = 4 \<and> labels = ip4_labels octets \<and> v = ipv4_to_string octets"
    using ip4_reads [of labels v] l ipv4_to_string_inj by (metis list.size(3) zero_neq_numeral)
  show "other = labels" if "length other = 4 \<and> (\<forall>l \<in> set other. \<not> starts_with l ''+'') \<and> decode_ip other = Some v" for other
    using ip4_reads [of labels v] ip4_reads [of other v] l that ipv4_to_string_inj by (metis list.size(3) zero_neq_numeral)
qed

theorem dns_ip_names_witness:
  "decode_ip (ip4_labels [1, 2, 3, 4]) = Some (ipv4_to_string [1, 2, 3, 4])"
  using dns_ip_names [of "[1, 2, 3, 4]"] by simp

text \<open>A plus sign is read by \<open>u8::from_str\<close>, so an address does have other names.\<close>

lemma plus_spellings:
  "decode_ip [''4'', ''3'', ''2'', ''+1''] = Some ''1.2.3.4''"
  "decode_ip [''4'', ''3'', ''2'', ''+01''] = Some ''1.2.3.4''"
  by code_simp+

lemma strip_suffix_iff: "strip_suffix ls zone = Some rest \<longleftrightarrow> ls = rest @ zone"
  by (auto simp: strip_suffix_def labels_end_with_def) (metis append_take_drop_id)

text \<open>
  Whatever the encoding, a client can name any value: the labels of a base32 spelling, cut anywhere and
  in any case, give the value back; and a query name resolves to what its value labels decode to in the
  first namespace whose label stands before the zone, and to nothing when the zone is another one, no such
  label is configured or the value labels are missing or malformed. The hypothesis on the codec: it reads
  what it writes.
\<close>
theorem dns_name_resolves:
  assumes "\<And>v. base32_nopad (encode v) = Some v"
  shows "(valid_utf8 v \<and> to_ascii_uppercase (concat labels) = encode v \<longrightarrow> decode base32_nopad labels Base32 = Some v) \<and>
    (resolve base32_nopad qlabels zone exposeds = Some lk \<longleftrightarrow>
      (\<exists>value_labels. qlabels = value_labels @ [ex_label (lk_exposed lk)] @ zone \<and> value_labels \<noteq> [] \<and>
         find (\<lambda>e. ex_label e = ex_label (lk_exposed lk)) exposeds = Some (lk_exposed lk) \<and>
         decode base32_nopad value_labels (ex_encoding (lk_exposed lk)) = Some (lk_value lk)))"
proof (intro conjI impI iffI)
  show "decode base32_nopad labels Base32 = Some v" if "valid_utf8 v \<and> to_ascii_uppercase (concat labels) = encode v"
    using that assms by (simp add: decode_base32_def)
next
  assume r: "resolve base32_nopad qlabels zone exposeds = Some lk"
  then obtain rest where rest: "qlabels = rest @ zone" "rest \<noteq> []" "butlast rest \<noteq> []"
    and f: "find (\<lambda>e. ex_label e = List.last rest) exposeds = Some (lk_exposed lk)"
    and d: "decode base32_nopad (butlast rest) (ex_encoding (lk_exposed lk)) = Some (lk_value lk)"
    by (auto simp: resolve_def strip_suffix_iff Let_def split: option.splits if_splits)
  have lab: "ex_label (lk_exposed lk) = List.last rest" using f by (auto simp: find_Some_iff)
  show "\<exists>value_labels. qlabels = value_labels @ [ex_label (lk_exposed lk)] @ zone \<and> value_labels \<noteq> [] \<and>
         find (\<lambda>e. ex_label e = ex_label (lk_exposed lk)) exposeds = Some (lk_exposed lk) \<and>
         decode base32_nopad value_labels (ex_encoding (lk_exposed lk)) = Some (lk_value lk)"
    using rest f d lab append_butlast_last_id [OF rest(2)] by (intro exI [of _ "butlast rest"]) (auto simp: lab)
next
  assume "\<exists>value_labels. qlabels = value_labels @ [ex_label (lk_exposed lk)] @ zone \<and> value_labels \<noteq> [] \<and>
         find (\<lambda>e. ex_label e = ex_label (lk_exposed lk)) exposeds = Some (lk_exposed lk) \<and>
         decode base32_nopad value_labels (ex_encoding (lk_exposed lk)) = Some (lk_value lk)"
  then obtain ls where ls: "strip_suffix qlabels zone = Some (ls @ [ex_label (lk_exposed lk)])" "ls \<noteq> []"
    and f: "find (\<lambda>e. ex_label e = ex_label (lk_exposed lk)) exposeds = Some (lk_exposed lk)"
    and d: "decode base32_nopad ls (ex_encoding (lk_exposed lk)) = Some (lk_value lk)"
    by (auto simp: strip_suffix_iff)
  show "resolve base32_nopad qlabels zone exposeds = Some lk"
    using ls f d by (cases lk) (simp add: resolve_def)
qed

theorem dns_name_resolves_witness:
  "resolve (\<lambda>s. Some s) [''4'', ''3'', ''2'', ''1'', ''ip'', ''sight''] [''sight'']
      [\<lparr>ex_label = ''ip'', ex_namespace = ''feeds/ip'', ex_encoding = Ip\<rparr>] =
    Some \<lparr>lk_exposed = \<lparr>ex_label = ''ip'', ex_namespace = ''feeds/ip'', ex_encoding = Ip\<rparr>, lk_value = ''1.2.3.4''\<rparr>"
proof -
  have "decode (\<lambda>s. Some s) [''4'', ''3'', ''2'', ''1''] Ip = Some ''1.2.3.4''" by code_simp
  then show ?thesis
    by (subst dns_name_resolves [where encode = "\<lambda>v. v", THEN conjunct2]) (simp_all add: exI [of _ "[''4'', ''3'', ''2'', ''1'']"])
qed

end
