(* ===== verification/Dns.thy ===== *)
theory Dns
  imports Sighting Dns_Name
begin

text \<open>
  The DNS interface: \<^verbatim>\<open>src/src/dns/answer.rs\<close> turns a query into a reply read from the database, and
  \<^verbatim>\<open>src/src/dns/server.rs\<close> decides which packets are answered and how large a reply may be. The \<open>hickory_proto\<close>
  crate is a parameter (\<open>dns_lib\<close>): names, the wire format, and what a reply takes over from a request; so is
  the base32 codec. The types of messages name the parts of them the code uses. A reply is \<open>None\<close> if the
  code producing it never returns.
\<close>

section \<open>Messages\<close>

datatype op_code = OpQuery | OpOther nat
datatype message_type = MtQuery | MtResponse
datatype response_code = NoError | FormErr | NXDomain | NotImp | Refused | RcodeOther nat
datatype dns_class = ClassIN | ClassOther nat
datatype record_type = TypeA | TypeNS | TypeSOA | TypeTXT | TypeANY | TypeOther nat

record metadata =
  md_id :: u16
  md_message_type :: message_type
  md_op_code :: op_code
  md_authoritative :: bool
  md_response_code :: response_code

record 'n dns_query =
  q_name :: 'n
  q_type :: record_type
  q_class :: dns_class

datatype 'n rdata =
    RD_A "u8 list" | RD_NS 'n | RD_TXT "string list"
  | RD_SOA 'n 'n u32 u32 u32 u32 u32

record 'n dns_record =
  dr_name :: 'n
  dr_ttl :: u32
  dr_data :: "'n rdata"

record 'n message =
  msg_metadata :: metadata
  msg_queries :: "'n dns_query list"
  msg_answers :: "'n dns_record list"
  msg_authorities :: "'n dns_record list"
  msg_edns :: "u16 option"

record 'n dns_lib =
  name_iter :: "'n \<Rightarrow> string list"
  name_from_labels :: "string list \<Rightarrow> 'n option"
  name_root :: 'n
  append_domain :: "'n \<Rightarrow> 'n \<Rightarrow> 'n option"
  response_from_request :: "metadata \<Rightarrow> metadata"
  from_bytes :: "string \<Rightarrow> 'n message option"
  to_vec :: "'n message \<Rightarrow> string option"
  msg_truncate :: "'n message \<Rightarrow> 'n message"
  error_msg :: "u16 \<Rightarrow> op_code \<Rightarrow> response_code \<Rightarrow> 'n message"
  base32_nopad :: "string \<Rightarrow> string option"

section \<open>Answers\<close>

record 'n responder =
  rs_zone :: 'n
  rs_zone_labels :: "string list"
  rs_exposed :: "exposed list"
  rs_ttl :: u32
  rs_shadow :: bool

datatype 'n outcome = Answers "'n dns_record list" | NoData | NxDomain | OutRefused

definition labels_of :: "'n dns_lib \<Rightarrow> 'n \<Rightarrow> string list" where
  "labels_of lib name = map (\<lambda>label. to_ascii_lowercase (from_utf8_lossy label)) (name_iter lib name)"

definition Responder_new :: "'n dns_lib \<Rightarrow> 'n \<Rightarrow> exposed list \<Rightarrow> u32 \<Rightarrow> bool \<Rightarrow> 'n responder" where
  "Responder_new lib zone exposeds t shadow =
     \<lparr>rs_zone = zone, rs_zone_labels = labels_of lib zone, rs_exposed = exposeds, rs_ttl = t, rs_shadow = shadow\<rparr>"

definition magnitude :: "u64 \<Rightarrow> u8" where
  "magnitude count =
     (let n = unat count
      in if n = 0 then 0
         else if n = 1 then 1
         else if n \<le> 9 then 2
         else if n \<le> 99 then 3
         else if n \<le> 999 then 4
         else if n \<le> 9999 then 5
         else if n \<le> 99999 then 6
         else if n \<le> 999999 then 7
         else if n \<le> 9999999 then 8
         else 9)"

definition quote :: "string \<Rightarrow> string" where
  "quote v =
     (let escaped = replace_char CHR 0x22 (CHR 0x5C # dquote) (replace_char CHR 0x5C [CHR 0x5C, CHR 0x5C] v)
      in dquote @ escaped @ dquote)"

text \<open>The loop that cuts a text into character-strings; a cut that makes no progress would repeat forever.\<close>

definition STRING_MAX :: nat where
  "STRING_MAX = 255"

fun step_back :: "string \<Rightarrow> nat \<Rightarrow> nat \<Rightarrow> nat" where
  "step_back text start stop =
     (if stop > start \<and> \<not> is_char_boundary text stop then step_back text start (stop - 1) else stop)"

declare step_back.simps [simp del]

partial_function (option) strings_loop :: "string \<Rightarrow> nat \<Rightarrow> string list \<Rightarrow> string list option" where
  "strings_loop text start parts =
     (if start < length text
      then let stop = step_back text start (min (start + STRING_MAX) (length text))
           in strings_loop text stop (parts @ [take (stop - start) (drop start text)])
      else Some parts)"

definition character_strings :: "string \<Rightarrow> string list option" where
  "character_strings text =
     (if length text \<le> STRING_MAX then Some [text] else strings_loop text 0 [])"

definition a_record :: "'n responder \<Rightarrow> 'n \<Rightarrow> attribute_view \<Rightarrow> 'n dns_record" where
  "a_record r name view =
     \<lparr>dr_name = name, dr_ttl = rs_ttl r, dr_data = RD_A [127, 0, 0, magnitude (v_count view)]\<rparr>"

definition txt_text :: "attribute_view \<Rightarrow> string" where
  "txt_text view =
     ''count='' @ show_u64 (v_count view) @ '' first_seen='' @ show_int (v_first_seen view) @
     '' last_seen='' @ show_int (v_last_seen view) @ '' consensus='' @ show_u64 (v_consensus view) @
     '' ttl='' @ show_u64 (v_ttl view) @ '' tags='' @ quote (v_tags view)"

definition txt_record :: "'n responder \<Rightarrow> 'n \<Rightarrow> attribute_view \<Rightarrow> 'n dns_record option" where
  "txt_record r name view =
     map_option (\<lambda>strings. \<lparr>dr_name = name, dr_ttl = rs_ttl r, dr_data = RD_TXT strings\<rparr>)
       (character_strings (txt_text view))"

definition soa_record :: "'n dns_lib \<Rightarrow> 'n responder \<Rightarrow> 'n dns_record" where
  "soa_record lib r =
     (let hostmaster = unwrap_or (name_from_labels lib [''hostmaster'']) (name_root lib);
          rname = unwrap_or (append_domain lib hostmaster (rs_zone r)) (rs_zone r)
      in \<lparr>dr_name = rs_zone r, dr_ttl = rs_ttl r, dr_data = RD_SOA (rs_zone r) rname 1 3600 600 86400 (rs_ttl r)\<rparr>)"

fun answer_apex :: "'n dns_lib \<Rightarrow> 'n responder \<Rightarrow> record_type \<Rightarrow> 'n outcome" where
  "answer_apex lib r TypeSOA = Answers [soa_record lib r]"
| "answer_apex lib r TypeNS = Answers [\<lparr>dr_name = rs_zone r, dr_ttl = rs_ttl r, dr_data = RD_NS (rs_zone r)\<rparr>]"
| "answer_apex lib r _ = NoData"

fun answer_view :: "'n responder \<Rightarrow> 'n dns_query \<Rightarrow> attribute_view \<Rightarrow> record_type \<Rightarrow> 'n outcome option" where
  "answer_view r q view TypeA = Some (Answers [a_record r (q_name q) view])"
| "answer_view r q view TypeTXT = map_option (\<lambda>t. Answers [t]) (txt_record r (q_name q) view)"
| "answer_view r q view TypeANY =
     map_option (\<lambda>t. Answers [a_record r (q_name q) view, t]) (txt_record r (q_name q) view)"
| "answer_view r q view _ = Some NoData"

definition Responder_answer ::
  "'n dns_lib \<Rightarrow> 'f env \<Rightarrow> 'f disk \<Rightarrow> datetime \<Rightarrow> database \<Rightarrow> 'n responder \<Rightarrow> 'n dns_query \<Rightarrow> database \<times> 'n outcome option" where
  "Responder_answer lib env disk now db r q =
     (let qlabels = labels_of lib (q_name q)
      in if \<not> labels_end_with qlabels (rs_zone_labels r) then (db, Some OutRefused)
         else if length qlabels = length (rs_zone_labels r) then (db, Some (answer_apex lib r (q_type q)))
         else case resolve (base32_nopad lib) qlabels (rs_zone_labels r) (rs_exposed r) of
                None \<Rightarrow> (db, Some NxDomain)
              | Some lk \<Rightarrow>
                  (case reader_read env disk now db (ex_namespace (lk_exposed lk)) (lk_value lk) False (rs_shadow r) of
                     (db, Inr view) \<Rightarrow> (db, answer_view r q view (q_type q))
                   | (db, Inl (NotFound _)) \<Rightarrow> (db, Some NxDomain)
                   | (db, Inl _) \<Rightarrow> (db, Some OutRefused)))"

definition with_code :: "'n message \<Rightarrow> response_code \<Rightarrow> 'n message" where
  "with_code m code = m\<lparr>msg_metadata := (msg_metadata m)\<lparr>md_response_code := code\<rparr>\<rparr>"

fun put_outcome :: "'n dns_lib \<Rightarrow> 'n responder \<Rightarrow> 'n message \<Rightarrow> 'n outcome \<Rightarrow> 'n message" where
  "put_outcome lib r m (Answers records) = (with_code m NoError)\<lparr>msg_answers := records\<rparr>"
| "put_outcome lib r m NoData = (with_code m NoError)\<lparr>msg_authorities := [soa_record lib r]\<rparr>"
| "put_outcome lib r m NxDomain = (with_code m NXDomain)\<lparr>msg_authorities := [soa_record lib r]\<rparr>"
| "put_outcome lib r m OutRefused = with_code m Refused"

definition Responder_respond ::
  "'n dns_lib \<Rightarrow> 'f env \<Rightarrow> 'f disk \<Rightarrow> datetime \<Rightarrow> database \<Rightarrow> 'n responder \<Rightarrow> 'n message \<Rightarrow> database \<times> 'n message option" where
  "Responder_respond lib env disk now db r request =
     (let metadata = (response_from_request lib (msg_metadata request))\<lparr>md_authoritative := True\<rparr>;
          response = \<lparr>msg_metadata = metadata, msg_queries = [], msg_answers = [], msg_authorities = [], msg_edns = None\<rparr>
      in if md_op_code (msg_metadata request) \<noteq> OpQuery then (db, Some (with_code response NotImp))
         else case msg_queries request of
                [] \<Rightarrow> (db, Some (with_code response FormErr))
              | q # _ \<Rightarrow>
                  let response = response\<lparr>msg_queries := [q]\<rparr>
                  in if q_class q \<noteq> ClassIN then (db, Some (with_code response NotImp))
                     else let (db, outcome) = Responder_answer lib env disk now db r q
                          in (db, map_option (put_outcome lib r response) outcome))"

section \<open>Cutting a text into character-strings\<close>

lemma step_back_spec:
  assumes "start \<le> e"
  shows "start \<le> step_back t start e \<and> step_back t start e \<le> e \<and>
    (step_back t start e = start \<or> is_char_boundary t (step_back t start e)) \<and>
    (\<forall>j. step_back t start e < j \<longrightarrow> j \<le> e \<longrightarrow> \<not> is_char_boundary t j)"
  using assms
proof (induction t start e rule: step_back.induct)
  case (1 t start e)
  show ?case
  proof (cases "e > start \<and> \<not> is_char_boundary t e")
    case True
    then have eq: "step_back t start e = step_back t start (e - 1)" by (simp add: step_back.simps [of t start e])
    note ih = 1(1) [OF True]
    have "start \<le> e - 1" using True by linarith
    then have "\<not> is_char_boundary t j" if "step_back t start e < j" "j \<le> e" for j
      using ih that eq True by (cases "j = e") auto
    then show ?thesis using ih eq \<open>start \<le> e - 1\<close> by auto
  next
    case False
    have eq: "step_back t start e = e" unfolding step_back.simps [of t start e] by (rule if_not_P [OF False])
    show ?thesis using 1(2) False unfolding eq by auto
  qed
qed

text \<open>Each cut makes progress: a character has at most four bytes and a piece up to 255.\<close>

lemma step_back_progress:
  assumes "valid_utf8 t" "start < length t"
  defines "e \<equiv> step_back t start (min (start + STRING_MAX) (length t))"
  shows "start < e \<and> e \<le> length t \<and> e - start \<le> STRING_MAX \<and> is_char_boundary t e"
proof -
  let ?m = "min (start + STRING_MAX) (length t)"
  have spec: "start \<le> e \<and> e \<le> ?m \<and> (e = start \<or> is_char_boundary t e) \<and> (\<forall>j. e < j \<longrightarrow> j \<le> ?m \<longrightarrow> \<not> is_char_boundary t j)"
    unfolding e_def by (rule step_back_spec) (use assms(2) in simp)
  have "\<exists>j. start < j \<and> j \<le> ?m \<and> is_char_boundary t j"
  proof (cases "length t \<le> start + STRING_MAX")
    case True
    then show ?thesis using assms(2) by (intro exI [of _ "length t"]) (simp add: is_char_boundary_def)
  next
    case False
    then obtain j where "j \<le> start + STRING_MAX" "start + STRING_MAX < j + 4" "is_char_boundary t j"
      using boundary_near [OF assms(1), of "start + STRING_MAX"] by auto
    then show ?thesis using False by (intro exI [of _ j]) (simp add: STRING_MAX_def)
  qed
  then obtain j where j: "start < j" "j \<le> ?m" "is_char_boundary t j" by blast
  then have "j \<le> e" using spec by (meson not_le)
  then show ?thesis using spec j by auto
qed

lemma strings_loop_cuts:
  assumes "valid_utf8 t" "is_char_boundary t start" "start \<le> length t"
  shows "\<exists>ps. strings_loop t start parts = Some (parts @ ps) \<and> concat ps = drop start t \<and>
    (\<forall>p \<in> set ps. p \<noteq> [] \<and> length p \<le> STRING_MAX \<and> valid_utf8 p)"
  using assms
proof (induction "length t - start" arbitrary: start parts rule: less_induct)
  case less
  show ?case
  proof (cases "start < length t")
    case False
    then show ?thesis using less.prems(3) by (intro exI [of _ "[]"]) (subst strings_loop.simps, simp)
  next
    case True
    define e where "e = step_back t start (min (start + STRING_MAX) (length t))"
    have e: "start < e" "e \<le> length t" "e - start \<le> STRING_MAX" "is_char_boundary t e"
      using step_back_progress [OF less.prems(1) True] by (simp_all add: e_def)
    let ?p = "take (e - start) (drop start t)"
    obtain ps where ps: "strings_loop t e (parts @ [?p]) = Some ((parts @ [?p]) @ ps)" "concat ps = drop e t"
      "\<forall>p \<in> set ps. p \<noteq> [] \<and> length p \<le> STRING_MAX \<and> valid_utf8 p"
      using less.hyps [OF _ less.prems(1) e(4,2), of "parts @ [?p]"] e(1) True by (metis diff_less_mono2)
    have "strings_loop t start parts = Some (parts @ ?p # ps)"
      using True ps(1) by (simp add: strings_loop.simps [of t start] e_def Let_def)
    moreover have "concat (?p # ps) = drop start t"
      using ps(2) e(1) append_take_drop_id [of "e - start" "drop start t"] by simp
    moreover have "valid_utf8 ?p"
    proof -
      have "valid_utf8 (take e t)" using valid_cut [OF less.prems(1) e(4,2)] by simp
      moreover have "is_char_boundary (take e t) start"
        using less.prems(2) e(1,2) by (auto simp: is_char_boundary_def)
      ultimately show ?thesis using valid_cut [of "take e t" start] e(1,2) by (simp add: drop_take)
    qed
    moreover have "?p \<noteq> []" "length ?p \<le> STRING_MAX" using e(1,2,3) by auto
    ultimately show ?thesis using ps(3) by (intro exI [of _ "?p # ps"]) simp
  qed
qed

text \<open>
  Cutting a text into DNS character-strings always ends, and loses nothing: the pieces joined are the
  text, no piece is longer than 255 bytes, and no character is cut in two.
\<close>
theorem character_strings_cut:
  assumes "valid_utf8 t"
  shows "\<exists>ps. character_strings t = Some ps \<and> concat ps = t \<and>
    (\<forall>p \<in> set ps. length p \<le> 255 \<and> valid_utf8 p)"
proof (cases "length t \<le> STRING_MAX")
  case True
  then show ?thesis using assms by (simp add: character_strings_def STRING_MAX_def)
next
  case False
  have "is_char_boundary t 0" by (simp add: is_char_boundary_def)
  then show ?thesis
    using strings_loop_cuts [OF assms, of 0 "[]"] False by (auto simp: character_strings_def STRING_MAX_def)
qed

theorem character_strings_cut_witness:
  "\<exists>ps. character_strings (replicate 300 CHR ''x'') = Some ps \<and> concat ps = replicate 300 CHR ''x'' \<and>
    (\<forall>p \<in> set ps. length p \<le> 255 \<and> valid_utf8 p)"
  by (rule character_strings_cut, rule valid_ascii) (simp add: is_ascii_def)

section \<open>What a query is answered\<close>

text \<open>The tags of every stored value are text, as the type of the field guarantees.\<close>

definition texts_ok :: "(string \<Rightarrow> (string, attribute) fmap option) \<Rightarrow> bool" where
  "texts_ok C \<longleftrightarrow> (\<forall>n m v a. C n = Some m \<longrightarrow> fmlookup m v = Some a \<longrightarrow> valid_utf8 (tags a))"

lemma replace_char_absent: "c \<notin> set s \<Longrightarrow> replace_char c r s = s"
  by (induction s) (auto simp: replace_char_def)

lemma valid_map_plain:
  assumes "valid_utf8 s" "is_ascii r" "(of_char c :: nat) < 0x80"
  shows "valid_utf8 (replace_char c r s)"
  using assms(1)
proof (induction s rule: valid_utf8.induct)
  case (1 s)
  show ?case
  proof (cases "s = []")
    case False
    let ?n = "fst (utf8_first s)"
    have ok: "snd (utf8_first s)" "valid_utf8 (drop ?n s)"
      using "1.prems" False by (auto simp: valid_utf8.simps [of s])
    note first = utf8_first_bytes [OF ok(1) False]
    have "valid_utf8 (replace_char c r (take ?n s))"
    proof (cases "hd s = c")
      case True
      then have "?n = 1" using assms(3) by (simp add: utf8_first_def)
      then have "take ?n s = [c]" using True False by (cases s) auto
      then show ?thesis using assms(2) by (simp add: replace_char_def valid_ascii)
    next
      case no: False
      have "c \<notin> set (take ?n s)"
      proof
        assume "c \<in> set (take ?n s)"
        then obtain i where i: "i < ?n" "i < length s" "s ! i = c" by (auto simp: in_set_conv_nth)
        show False
        proof (cases i)
          case 0
          then show ?thesis using no i(3) False by (simp add: hd_conv_nth)
        next
          case (Suc k)
          then have "is_cont c" using first i(1,3) by auto
          then show ?thesis using assms(3) by (simp add: is_cont_def)
        qed
      qed
      then have "replace_char c r (take ?n s) = take ?n s"
        by (rule replace_char_absent)
      moreover have "valid_utf8 (take ?n s)"
        using utf8_first_take [OF ok(1)] first ok(1) by (simp add: valid_utf8.simps [of "take ?n s"])
      ultimately show ?thesis by simp
    qed
    moreover have "valid_utf8 (replace_char c r (drop ?n s))" using "1.IH" [OF False ok(2)] .
    moreover have "replace_char c r s = replace_char c r (take ?n s) @ replace_char c r (drop ?n s)"
      unfolding replace_char_def by (metis append_take_drop_id concat_append map_append)
    ultimately show ?thesis by (simp add: valid_append)
  qed (simp add: replace_char_def)
qed

lemma valid_txt_text: "valid_utf8 (v_tags view) \<Longrightarrow> valid_utf8 (txt_text view)"
  unfolding txt_text_def quote_def Let_def
  by (intro valid_append) (simp_all add: valid_ascii valid_map_plain dquote_def)

lemma txt_record_ends:
  assumes "valid_utf8 (v_tags view)"
  shows "\<exists>ps. txt_record r name view = Some \<lparr>dr_name = name, dr_ttl = rs_ttl r, dr_data = RD_TXT ps\<rparr> \<and>
    concat ps = txt_text view \<and> (\<forall>p \<in> set ps. length p \<le> 255)"
proof -
  have v: "valid_utf8 (txt_text view)" by (rule valid_txt_text [OF assms])
  show ?thesis
  proof (cases "length (txt_text view) \<le> STRING_MAX")
    case True
    then show ?thesis by (simp add: txt_record_def character_strings_def STRING_MAX_def)
  next
    case False
    have "is_char_boundary (txt_text view) 0" by (simp add: is_char_boundary_def)
    then show ?thesis
      using strings_loop_cuts [OF v, of 0 "[]"] False by (auto simp: txt_record_def character_strings_def STRING_MAX_def)
  qed
qed

lemma view_in_tags: "texts_ok C \<Longrightarrow> view_in C n v c st now = Some view \<Longrightarrow> valid_utf8 (v_tags view)"
  by (auto simp: texts_ok_def view_in_def values_of_def Attribute_view_def split: option.splits if_splits)

text \<open>What a name in the zone stands for, given what the database holds.\<close>

definition asked_for :: "'n dns_lib \<Rightarrow> 'n responder \<Rightarrow> 'n dns_query \<Rightarrow> lookup option" where
  "asked_for lib r q =
     (if length (labels_of lib (q_name q)) = length (rs_zone_labels r) then None
      else resolve (base32_nopad lib) (labels_of lib (q_name q)) (rs_zone_labels r) (rs_exposed r))"

definition sighted_view ::
  "(string \<Rightarrow> (string, attribute) fmap option) \<Rightarrow> datetime \<Rightarrow> lookup \<Rightarrow> attribute_view option" where
  "sighted_view C now lk =
     view_in C (ex_namespace (lk_exposed lk)) (lk_value lk) (of_nat (card (holders C (lk_value lk)))) False now"

text \<open>The records a sighted value is answered with: an address, its details, or both.\<close>

definition records_for :: "'n responder \<Rightarrow> 'n dns_query \<Rightarrow> attribute_view \<Rightarrow> 'n dns_record list \<Rightarrow> bool" where
  "records_for r q view records \<longleftrightarrow>
     (\<exists>ps. concat ps = txt_text view \<and> (\<forall>p \<in> set ps. length p \<le> 255) \<and>
       records =
         (if q_type q \<in> {TypeA, TypeANY}
          then [\<lparr>dr_name = q_name q, dr_ttl = rs_ttl r, dr_data = RD_A [127, 0, 0, magnitude (v_count view)]\<rparr>] else []) @
         (if q_type q \<in> {TypeTXT, TypeANY} then [\<lparr>dr_name = q_name q, dr_ttl = rs_ttl r, dr_data = RD_TXT ps\<rparr>] else []))"

lemma answer_view_records:
  assumes "valid_utf8 (v_tags view)"
  shows "\<exists>out. answer_view r q view (q_type q) = Some out \<and>
    records_for r q view (case out of Answers records \<Rightarrow> records | _ \<Rightarrow> []) \<and> out \<noteq> NxDomain \<and> out \<noteq> OutRefused"
proof -
  obtain ps where ps: "txt_record r (q_name q) view = Some \<lparr>dr_name = q_name q, dr_ttl = rs_ttl r, dr_data = RD_TXT ps\<rparr>"
    "concat ps = txt_text view" "\<forall>p \<in> set ps. length p \<le> 255"
    using txt_record_ends [OF assms, of r "q_name q"] by blast
  let ?a = "\<lparr>dr_name = q_name q, dr_ttl = rs_ttl r, dr_data = RD_A [127, 0, 0, magnitude (v_count view)]\<rparr>"
  let ?t = "\<lparr>dr_name = q_name q, dr_ttl = rs_ttl r, dr_data = RD_TXT ps\<rparr>"
  let ?l = "(if q_type q \<in> {TypeA, TypeANY} then [?a] else []) @ (if q_type q \<in> {TypeTXT, TypeANY} then [?t] else [])"
  have "records_for r q view ?l" unfolding records_for_def using ps(2,3) by blast
  moreover have "answer_view r q view (q_type q) = Some (if ?l = [] then NoData else Answers ?l)"
    using ps(1) by (cases "q_type q") (simp_all add: a_record_def)
  ultimately show ?thesis by (cases "?l = []") auto
qed

definition records_of :: "'n outcome \<Rightarrow> 'n dns_record list" where
  "records_of out = (case out of Answers records \<Rightarrow> records | _ \<Rightarrow> [])"

lemma answer_apex_code: "answer_apex lib r t \<noteq> NxDomain \<and> answer_apex lib r t \<noteq> OutRefused"
  by (cases t) simp_all

lemma put_outcome_fields:
  "msg_queries (put_outcome lib r m out) = msg_queries m"
  "msg_answers m = [] \<Longrightarrow> msg_answers (put_outcome lib r m out) = records_of out"
  "md_response_code (msg_metadata (put_outcome lib r m out)) =
     (if out = OutRefused then Refused else if out = NxDomain then NXDomain else NoError)"
  by (cases out; simp add: with_code_def records_of_def)+

text \<open>A name in the zone that stands for a value is answered by reading it.\<close>

lemma answer_value:
  assumes "db_inv env disk db" "consensus_ok (db_node db) (contents env disk db)" "texts_ok (contents env disk db)"
    and "reader_read env disk now db (ex_namespace (lk_exposed lk)) (lk_value lk) False shadow = (db', res)"
    and "config = starts_with (ex_namespace (lk_exposed lk)) CONFIG_PREFIX"
    and "found = (if config then None else sighted_view (contents env disk db) now lk)"
  shows "db_inv env disk db' \<and> consensus_ok (db_node db') (contents env disk db') \<and>
    contents env disk db' =
      (if shadow \<and> \<not> config
       then sighted_by db (contents env disk db) (db_node db) (SHADOW_PREFIX @ ex_namespace (lk_exposed lk)) (lk_value lk) now WriteOpts_default []
       else contents env disk db) \<and>
    (\<exists>out. (case res of Inr view \<Rightarrow> answer_view r q view (q_type q) | Inl (NotFound _) \<Rightarrow> Some NxDomain | Inl _ \<Rightarrow> Some OutRefused) = Some out \<and>
      (config \<longrightarrow> out = OutRefused) \<and> (\<not> config \<and> found = None \<longrightarrow> out = NxDomain) \<and>
      (\<forall>view. found = Some view \<longrightarrow> out \<noteq> NxDomain \<and> out \<noteq> OutRefused \<and> records_for r q view (records_of out)))"
proof -
  note read = client_read_effect [OF assms(1,2,4)]
  have "\<exists>out. (case res of Inr view \<Rightarrow> answer_view r q view (q_type q) | Inl (NotFound _) \<Rightarrow> Some NxDomain | Inl _ \<Rightarrow> Some OutRefused) = Some out \<and>
      (config \<longrightarrow> out = OutRefused) \<and> (\<not> config \<and> found = None \<longrightarrow> out = NxDomain) \<and>
      (\<forall>view. found = Some view \<longrightarrow> out \<noteq> NxDomain \<and> out \<noteq> OutRefused \<and> records_for r q view (records_of out))"
  proof (cases "config \<or> found = None")
    case True
    then show ?thesis using read assms(5,6) by (auto simp: sighted_view_def split: option.splits)
  next
    case False
    then obtain view where view: "found = Some view" "\<not> config" by auto
    then have sv: "sighted_view (contents env disk db) now lk = Some view" using assms(6) by simp
    then have "res = Inr view" using read view(2) assms(5) by (simp add: sighted_view_def)
    moreover have "valid_utf8 (v_tags view)" using view_in_tags [OF assms(3)] sv by (simp add: sighted_view_def)
    ultimately show ?thesis using answer_view_records [of view r q] view by (auto simp: records_of_def)
  qed
  moreover have "db_inv env disk db' \<and> consensus_ok (db_node db') (contents env disk db') \<and>
    contents env disk db' =
      (if shadow \<and> \<not> config
       then sighted_by db (contents env disk db) (db_node db) (SHADOW_PREFIX @ ex_namespace (lk_exposed lk)) (lk_value lk) now WriteOpts_default []
       else contents env disk db)"
    using read unfolding assms(5) by blast
  ultimately show ?thesis by blast
qed

text \<open>
  C34. A query is answered from what is stored, and changes nothing but the search record: outside the zone it
  is refused; at its apex it is about the zone; a name that stands for no value, or for one that was never
  sighted or has expired, does not exist; and a sighted value is answered with the address whose last octet is
  the magnitude of its count, and with its details, as asked. Every answer carries the question. When searches
  are recorded, the one change is a sighting under \<open>_shadow/\<close>, whether or not the value was found.
\<close>
theorem dns_query_answered:
  assumes "db_inv env disk db" and "consensus_ok (db_node db) (contents env disk db)" and "texts_ok (contents env disk db)"
    and "md_op_code (msg_metadata request) = OpQuery" and "msg_queries request = q # qs" and "q_class q = ClassIN"
    and "Responder_respond lib env disk now db r request = (db', reply)"
    and "asked = (if labels_end_with (labels_of lib (q_name q)) (rs_zone_labels r) then asked_for lib r q else None)"
    and "config = (case asked of None \<Rightarrow> False | Some lk \<Rightarrow> starts_with (ex_namespace (lk_exposed lk)) CONFIG_PREFIX)"
    and "found = (if config then None else Option.bind asked (sighted_view (contents env disk db) now))"
  shows "db_inv env disk db' \<and> consensus_ok (db_node db') (contents env disk db') \<and>
    contents env disk db' =
      (case asked of
         Some lk \<Rightarrow> if rs_shadow r \<and> \<not> config
           then sighted_by db (contents env disk db) (db_node db) (SHADOW_PREFIX @ ex_namespace (lk_exposed lk)) (lk_value lk) now WriteOpts_default []
           else contents env disk db
       | None \<Rightarrow> contents env disk db) \<and>
    (\<exists>m. reply = Some m \<and> msg_queries m = [q] \<and>
      md_response_code (msg_metadata m) =
        (if \<not> labels_end_with (labels_of lib (q_name q)) (rs_zone_labels r) \<or> config then Refused
         else if found \<noteq> None \<or> length (labels_of lib (q_name q)) = length (rs_zone_labels r) then NoError
         else NXDomain) \<and>
      (length (labels_of lib (q_name q)) \<noteq> length (rs_zone_labels r) \<longrightarrow>
        (case found of None \<Rightarrow> msg_answers m = [] | Some view \<Rightarrow> records_for r q view (msg_answers m))))"
proof -
  let ?ls = "labels_of lib (q_name q)"
  obtain db1 out where ans: "Responder_answer lib env disk now db r q = (db1, out)" by fastforce
  let ?m0 = "\<lparr>msg_metadata = (response_from_request lib (msg_metadata request))\<lparr>md_authoritative := True\<rparr>, msg_queries = [q],
    msg_answers = [], msg_authorities = [], msg_edns = None\<rparr>"
  have rep: "db' = db1" "reply = map_option (put_outcome lib r ?m0) out"
    using assms(4-7) ans by (auto simp: Responder_respond_def Let_def)
  have put: "msg_queries (put_outcome lib r ?m0 x) = [q]" "msg_answers (put_outcome lib r ?m0 x) = records_of x" for x
    by (simp_all add: put_outcome_fields)
  consider "\<not> labels_end_with ?ls (rs_zone_labels r)"
    | "labels_end_with ?ls (rs_zone_labels r)" "length ?ls = length (rs_zone_labels r)"
    | "labels_end_with ?ls (rs_zone_labels r)" "length ?ls \<noteq> length (rs_zone_labels r)" "asked = None"
    | lk where "labels_end_with ?ls (rs_zone_labels r)" "length ?ls \<noteq> length (rs_zone_labels r)" "asked = Some lk"
    by (cases asked) auto
  then show ?thesis
  proof cases
    case 1
    then have "db1 = db" "out = Some OutRefused" "asked = None" using ans assms(8) by (simp_all add: Responder_answer_def Let_def)
    then show ?thesis using 1 rep assms(1,2,10) by (simp add: put put_outcome_fields(3) records_of_def del: put_outcome.simps)
  next
    case 2
    then have "db1 = db" "out = Some (answer_apex lib r (q_type q))" "asked = None"
      using ans assms(8) by (simp_all add: Responder_answer_def asked_for_def Let_def)
    then show ?thesis using 2 rep assms(1,2,9) answer_apex_code [of lib r "q_type q"] by (simp add: put put_outcome_fields(3) del: put_outcome.simps)
  next
    case 3
    then have "db1 = db" "out = Some NxDomain"
      using ans assms(8) by (simp_all add: Responder_answer_def asked_for_def Let_def)
    then show ?thesis using 3 rep assms(1,2,9,10) by (simp add: put put_outcome_fields(3) records_of_def del: put_outcome.simps)
  next
    case 4
    obtain db2 res where rd: "reader_read env disk now db (ex_namespace (lk_exposed lk)) (lk_value lk) False (rs_shadow r) = (db2, res)" by fastforce
    have cf: "config = starts_with (ex_namespace (lk_exposed lk)) CONFIG_PREFIX"
      "found = (if config then None else sighted_view (contents env disk db) now lk)" using 4 assms(9,10) by simp_all
    note val = answer_value [OF assms(1-3) rd cf, of r q]
    have "resolve (base32_nopad lib) ?ls (rs_zone_labels r) (rs_exposed r) = Some lk" using 4 assms(8) by (simp add: asked_for_def)
    then have "db1 = db2" "out = (case res of Inr view \<Rightarrow> answer_view r q view (q_type q) | Inl (NotFound _) \<Rightarrow> Some NxDomain | Inl _ \<Rightarrow> Some OutRefused)"
      using ans 4 rd by (auto simp: Responder_answer_def Let_def split: sum.splits api_error.splits)
    then show ?thesis using val 4 rep cf(2) put put_outcome_fields(3) [of lib r ?m0]
      by (auto simp: records_of_def split: option.splits simp del: put_outcome.simps)
  qed
qed

definition sample_lib :: "string list dns_lib" where
  "sample_lib = \<lparr>name_iter = (\<lambda>n. n), name_from_labels = Some, name_root = [], append_domain = (\<lambda>a b. Some (a @ b)),
     response_from_request = (\<lambda>md. md\<lparr>md_message_type := MtResponse\<rparr>), from_bytes = (\<lambda>_. None), to_vec = (\<lambda>_. None),
     msg_truncate = (\<lambda>m. m), error_msg = (\<lambda>i opc code. \<lparr>msg_metadata = \<lparr>md_id = i, md_message_type = MtResponse, md_op_code = opc,
       md_authoritative = False, md_response_code = code\<rparr>, msg_queries = [], msg_answers = [], msg_authorities = [], msg_edns = None\<rparr>),
     base32_nopad = (\<lambda>_. None)\<rparr>"

definition sample_query :: "string list message" where
  "sample_query = \<lparr>msg_metadata = \<lparr>md_id = 7, md_message_type = MtQuery, md_op_code = OpQuery, md_authoritative = False, md_response_code = NoError\<rparr>,
     msg_queries = [\<lparr>q_name = [''V'', ''Feed'', ''sight''], q_type = TypeA, q_class = ClassIN\<rparr>], msg_answers = [], msg_authorities = [], msg_edns = None\<rparr>"

definition sample_responder :: "string list responder" where
  "sample_responder = Responder_new sample_lib [''sight''] [\<lparr>ex_label = ''feed'', ex_namespace = ''feeds/a'', ex_encoding = Domain\<rparr>] 60 False"

lemma sample_contents:
  "contents sample_env fmempty (fst sample_write) n =
     (if n = ALL_NAMESPACE \<or> n = ''feeds/a'' then Some (fmmap stored_attr (ns_values sample_ns)) else None)"
  by (auto simp: contents_def sample_write_value Database_catalogued_def)

lemma sample_texts: "texts_ok (contents sample_env fmempty (fst sample_write))"
proof -
  have "tags (stored_attr (sight (Attribute_new ''v'') ''local'' (DateTime 90 5) None 0 [])) = []" by code_simp
  then show ?thesis by (auto simp: texts_ok_def sample_contents split: if_splits)
qed

theorem dns_query_answered_witness:
  "\<exists>m. snd (Responder_respond sample_lib sample_env fmempty (DateTime 100 0) (fst sample_write) sample_responder sample_query) = Some m \<and>
     map dr_data (msg_answers m) = [RD_A [127, 0, 0, 1]]"
proof -
  let ?q = "\<lparr>q_name = [''V'', ''Feed'', ''sight''], q_type = TypeA, q_class = ClassIN\<rparr> :: string list dns_query"
  let ?lk = "\<lparr>lk_exposed = \<lparr>ex_label = ''feed'', ex_namespace = ''feeds/a'', ex_encoding = Domain\<rparr>, lk_value = ''v''\<rparr>"
  let ?C = "contents sample_env fmempty (fst sample_write)"
  let ?a = "stored_attr (sight (Attribute_new ''v'') ''local'' (DateTime 90 5) None 0 [])"
  let ?view = "Attribute_view ?a (of_nat (card (holders ?C ''v''))) False"
  have inv: "db_inv sample_env fmempty (fst sample_write)" using sample_write_inv by (rule inv_mono) simp
  obtain db' reply where r: "Responder_respond sample_lib sample_env fmempty (DateTime 100 0) (fst sample_write) sample_responder sample_query = (db', reply)"
    by fastforce
  have zone: "labels_end_with (labels_of sample_lib (q_name ?q)) (rs_zone_labels sample_responder)" by code_simp
  have ask: "asked_for sample_lib sample_responder ?q = Some ?lk" by code_simp
  have len: "length (labels_of sample_lib (q_name ?q)) \<noteq> length (rs_zone_labels sample_responder)" by code_simp
  have cfg: "\<not> starts_with ''feeds/a'' CONFIG_PREFIX" by code_simp
  have "\<not> Attribute_is_expired ?a (DateTime 100 0)" "Attribute_count ?a = 1" by code_simp+
  then have view: "sighted_view ?C (DateTime 100 0) ?lk = Some ?view" "v_count ?view = 1"
    by (simp_all add: sighted_view_def view_in_def values_of_def sample_contents Attribute_view_def)
  have one: "magnitude 1 = 1" by code_simp
  have "\<exists>m. reply = Some m \<and> records_for sample_responder ?q ?view (msg_answers m)"
    using dns_query_answered [OF inv sample_write_ok sample_texts _ _ _ r refl refl refl, of ?q "[]"] zone ask len cfg view(1)
    by (auto simp: sample_query_def)
  then show ?thesis using r view(2) one by (auto simp: records_for_def)
qed

end
