(* ===== verification/Dns_Server.thy ===== *)
theory Dns_Server
  imports Dns
begin

text \<open>
  The packets of the DNS interface, \<^verbatim>\<open>src/src/dns/server.rs\<close>: which of them are answered, how often a source
  is answered, and how large a reply may be. Sockets and threads are left out: one packet, or one exchange
  over TCP, is a step.
\<close>

section \<open>The server\<close>

definition DEFAULT_UDP_LIMIT :: nat where
  "DEFAULT_UDP_LIMIT = 512"

definition MAX_UDP_LIMIT :: nat where
  "MAX_UDP_LIMIT = 1232"

definition udp_limit :: "u16 option \<Rightarrow> nat" where
  "udp_limit advertised =
     (case advertised of
        Some payload \<Rightarrow> max DEFAULT_UDP_LIMIT (min (unat payload) MAX_UDP_LIMIT)
      | None \<Rightarrow> DEFAULT_UDP_LIMIT)"

definition encode :: "'n dns_lib \<Rightarrow> 'n message \<Rightarrow> nat option \<Rightarrow> string option" where
  "encode lib message limit =
     (case to_vec lib message of
        None \<Rightarrow> None
      | Some bytes \<Rightarrow> if (case limit of None \<Rightarrow> True | Some limit \<Rightarrow> length bytes \<le> limit) then Some bytes
                      else to_vec lib (msg_truncate lib message))"

definition u16_from_be_bytes :: "char \<Rightarrow> char \<Rightarrow> u16" where
  "u16_from_be_bytes a b = of_nat (256 * of_char a + of_char b)"

text \<open>A reply, with the payload size the request advertised; the inner \<open>None\<close> is a reply that is never finished.\<close>

definition handle ::
  "'n dns_lib \<Rightarrow> 'f env \<Rightarrow> 'f disk \<Rightarrow> datetime \<Rightarrow> database \<Rightarrow> 'n responder \<Rightarrow> string
    \<Rightarrow> database \<times> ('n message option \<times> u16 option) option" where
  "handle lib env disk now db r bytes =
     (case from_bytes lib bytes of
        Some request \<Rightarrow>
          if md_message_type (msg_metadata request) = MtResponse then (db, None)
          else let (db, message) = Responder_respond lib env disk now db r request
               in (db, Some (message, msg_edns request))
      | None \<Rightarrow>
          if length bytes \<ge> 2 then
            (db, Some (Some (error_msg lib (u16_from_be_bytes (bytes ! 0) (bytes ! 1)) OpQuery FormErr), None))
          else (db, None))"

subsection \<open>Rate limiting\<close>

definition SHARDS :: nat where
  "SHARDS = 16"

record 'ip limiter_shard =
  window :: u64
  sources :: "('ip, u32) fmap"

record 'ip rate_limiter =
  rl_limit :: u32
  rl_shards :: "'ip limiter_shard list"
  rl_hash :: "'ip \<Rightarrow> u64"
  rl_dropped :: u64

definition LimiterShard_default :: "'ip limiter_shard" where
  "LimiterShard_default = \<lparr>window = 0, sources = fmempty\<rparr>"

definition RateLimiter_new :: "('ip \<Rightarrow> u64) \<Rightarrow> u32 \<Rightarrow> 'ip rate_limiter" where
  "RateLimiter_new hash limit =
     \<lparr>rl_limit = limit, rl_shards = replicate SHARDS LimiterShard_default, rl_hash = hash, rl_dropped = 0\<rparr>"

definition RateLimiter_allow :: "'ip rate_limiter \<Rightarrow> u64 \<Rightarrow> 'ip \<Rightarrow> 'ip rate_limiter \<times> bool" where
  "RateLimiter_allow rl elapsed source =
     (if rl_limit rl = 0 then (rl, True)
      else let i = unat (rl_hash rl source) mod SHARDS;
               shard = rl_shards rl ! i;
               shard = (if window shard \<noteq> elapsed then \<lparr>window = elapsed, sources = fmempty\<rparr> else shard);
               count = fm_get0 (sources shard) source + 1;
               rl = rl\<lparr>rl_shards := (rl_shards rl)[i := shard\<lparr>sources := fmupd source count (sources shard)\<rparr>]\<rparr>
           in if count > rl_limit rl then (rl\<lparr>rl_dropped := rl_dropped rl + 1\<rparr>, False) else (rl, True))"

subsection \<open>Packets\<close>

text \<open>
  One turn of the UDP loop for a received packet: what is sent back, if anything. The result is \<open>None\<close> when
  the reply is never finished.
\<close>

definition udp_packet ::
  "'n dns_lib \<Rightarrow> 'f env \<Rightarrow> 'f disk \<Rightarrow> datetime \<Rightarrow> database \<Rightarrow> 'n responder \<Rightarrow> 'ip rate_limiter \<Rightarrow> u64 \<Rightarrow> 'ip \<Rightarrow> string
    \<Rightarrow> database \<times> 'ip rate_limiter \<times> string option option" where
  "udp_packet lib env disk now db r rl elapsed from_ip bytes =
     (let (rl, allowed) = RateLimiter_allow rl elapsed from_ip
      in if \<not> allowed then (db, rl, Some None)
         else case handle lib env disk now db r bytes of
                (db, None) \<Rightarrow> (db, rl, Some None)
              | (db, Some (None, _)) \<Rightarrow> (db, rl, None)
              | (db, Some (Some message, payload)) \<Rightarrow>
                  (db, rl, Some (encode lib message (Some (udp_limit payload)))))"

text \<open>
  A DNS exchange over TCP: the bytes a client sends, and the bytes written back. The stream's timeouts and
  errors end the exchange and are not shown; \<open>read_exact\<close> fails when the stream ends early.
\<close>

definition u16_to_be_bytes :: "u16 \<Rightarrow> string" where
  "u16_to_be_bytes w = [char_of (unat w div 256), char_of (unat w mod 256)]"

definition serve_tcp ::
  "'n dns_lib \<Rightarrow> 'f env \<Rightarrow> 'f disk \<Rightarrow> datetime \<Rightarrow> database \<Rightarrow> 'n responder \<Rightarrow> string \<Rightarrow> database \<times> string option" where
  "serve_tcp lib env disk now db r stream =
     (if length stream < 2 then (db, Some [])
      else let len = unat (u16_from_be_bytes (stream ! 0) (stream ! 1))
           in if len = 0 \<or> len > 8192 then (db, Some [])
              else if length stream < 2 + len then (db, Some [])
              else case handle lib env disk now db r (take len (drop 2 stream)) of
                     (db, None) \<Rightarrow> (db, Some [])
                   | (db, Some (None, _)) \<Rightarrow> (db, None)
                   | (db, Some (Some message, _)) \<Rightarrow>
                       (case encode lib message None of
                          None \<Rightarrow> (db, Some [])
                        | Some bytes \<Rightarrow> (db, Some (u16_to_be_bytes (of_nat (length bytes)) @ bytes))))"

section \<open>The limit is exact\<close>

text \<open>A run of the limiter over the queries that arrive, each with the second it arrives in.\<close>

fun limiter_run :: "'ip rate_limiter \<Rightarrow> (u64 \<times> 'ip) list \<Rightarrow> bool list" where
  "limiter_run rl [] = []"
| "limiter_run rl ((w, s) # evs) = snd (RateLimiter_allow rl w s) # limiter_run (fst (RateLimiter_allow rl w s)) evs"

text \<open>The rule: a query is answered while fewer than the limit came from its source in its second.\<close>

fun limiter_rule :: "u32 \<Rightarrow> (u64 \<times> 'ip) list \<Rightarrow> (u64 \<times> 'ip) list \<Rightarrow> bool list" where
  "limiter_rule limit before [] = []"
| "limiter_rule limit before (e # evs) =
     (limit = 0 \<or> count_list before e < unat limit) # limiter_rule limit (before @ [e]) evs"

definition shard_index :: "'ip rate_limiter \<Rightarrow> 'ip \<Rightarrow> nat" where
  "shard_index rl s = unat (rl_hash rl s) mod SHARDS"

definition shard_counts :: "'ip rate_limiter \<Rightarrow> (u64 \<times> 'ip) list \<Rightarrow> nat \<Rightarrow> 'ip limiter_shard \<Rightarrow> bool" where
  "shard_counts rl before i sh \<longleftrightarrow>
     (window sh = 0 \<or> window sh \<in> fst ` set before) \<and>
     (\<forall>(w, s) \<in> set before. shard_index rl s = i \<longrightarrow> w \<le> window sh) \<and>
     (\<forall>s. shard_index rl s = i \<longrightarrow> fm_get0 (sources sh) s = of_nat (count_list before (window sh, s)))"

definition limiter_inv :: "'ip rate_limiter \<Rightarrow> (u64 \<times> 'ip) list \<Rightarrow> bool" where
  "limiter_inv rl before \<longleftrightarrow>
     length (rl_shards rl) = SHARDS \<and> (\<forall>i < SHARDS. shard_counts rl before i (rl_shards rl ! i))"

lemma count_list_append: "count_list (xs @ ys) x = count_list xs x + count_list ys x"
  by (induction xs) auto

lemma allow_counts:
  assumes inv: "limiter_inv rl before" and late: "\<forall>(w', s') \<in> set before. w' \<le> w" and lim: "rl_limit rl \<noteq> 0"
    and small: "length before + 1 < 2 ^ 32"
  shows "snd (RateLimiter_allow rl w s) \<longleftrightarrow> count_list before (w, s) < unat (rl_limit rl)"
    and "limiter_inv (fst (RateLimiter_allow rl w s)) (before @ [(w, s)])"
proof -
  let ?i = "shard_index rl s"
  let ?sh = "rl_shards rl ! ?i"
  let ?new = "if window ?sh \<noteq> w then \<lparr>window = w, sources = fmempty\<rparr> else ?sh"
  let ?c = "count_list before (w, s)"
  have i: "?i < SHARDS" by (simp add: shard_index_def SHARDS_def)
  have sh: "shard_counts rl before ?i ?sh" using inv i by (simp add: limiter_inv_def)
  have win: "window ?sh \<le> w" using sh late by (auto simp: shard_counts_def)
  have none: "count_list before (w, s') = 0" if "window ?sh \<noteq> w" "shard_index rl s' = ?i" for s'
    using sh win that by (fastforce simp: shard_counts_def count_list_0_iff)
  have cnt: "fm_get0 (sources ?new) s' = of_nat (count_list before (w, s'))" if "shard_index rl s' = ?i" for s'
    using that sh none [of s'] by (auto simp: shard_counts_def fm_simps)
  have "?c + 1 < 2 ^ 32" using small count_le_length [of before "(w, s)"] by linarith
  then have "unat (of_nat (?c + 1) :: u32) = ?c + 1" by (simp add: unat_of_nat del: of_nat_add of_nat_Suc)
  then have un: "unat (of_nat ?c + 1 :: u32) = ?c + 1" by (simp add: add.commute)
  define sh' where "sh' = ?new\<lparr>sources := fmupd s (fm_get0 (sources ?new) s + 1) (sources ?new)\<rparr>"
  have al: "RateLimiter_allow rl w s =
      (let rl' = rl\<lparr>rl_shards := (rl_shards rl)[?i := sh']\<rparr>
       in if fm_get0 (sources ?new) s + 1 > rl_limit rl then (rl'\<lparr>rl_dropped := rl_dropped rl + 1\<rparr>, False) else (rl', True))"
    using lim by (simp add: RateLimiter_allow_def shard_index_def sh'_def Let_def)
  show "snd (RateLimiter_allow rl w s) \<longleftrightarrow> ?c < unat (rl_limit rl)"
    unfolding al Let_def using un cnt [of s] by (simp add: word_less_nat_alt not_less Suc_le_eq split: if_splits)
  have w': "window sh' = w" by (simp add: sh'_def)
  have get': "fm_get0 (sources sh') s' = of_nat (count_list (before @ [(w, s)]) (w, s'))" if "shard_index rl s' = ?i" for s'
    using cnt [OF that] cnt [of s] by (auto simp: sh'_def count_list_append fm_simps)
  have here: "shard_counts rl (before @ [(w, s)]) ?i sh'"
    using late get' by (auto simp: shard_counts_def w')
  have there: "shard_counts rl (before @ [(w, s)]) j (rl_shards rl ! j)" if "j < SHARDS" "j \<noteq> ?i" for j
    using inv that by (auto simp: limiter_inv_def shard_counts_def count_list_append)
  have all: "shard_counts rl (before @ [(w, s)]) j ((rl_shards rl)[?i := sh'] ! j)" if "j < SHARDS" for j
    using here there that inv by (cases "j = ?i") (simp_all add: limiter_inv_def)
  have same: "shard_counts (rl\<lparr>rl_shards := x\<rparr>) = shard_counts rl" "shard_counts (rl\<lparr>rl_shards := x, rl_dropped := y\<rparr>) = shard_counts rl" for x y
    by (intro ext, simp add: shard_counts_def shard_index_def)+
  show "limiter_inv (fst (RateLimiter_allow rl w s)) (before @ [(w, s)])"
    unfolding al Let_def using all inv by (simp add: limiter_inv_def same)
qed

lemma allow_frame: "rl_limit (fst (RateLimiter_allow rl w s)) = rl_limit rl"
  by (simp add: RateLimiter_allow_def Let_def)

lemma limiter_follows_rule:
  assumes "limiter_inv rl before" "sorted (map fst (before @ evs))" "length (before @ evs) < 2 ^ 32" "rl_limit rl \<noteq> 0"
  shows "limiter_run rl evs = limiter_rule (rl_limit rl) before evs"
  using assms
proof (induction evs arbitrary: rl before)
  case (Cons e evs)
  obtain w s where e: "e = (w, s)" by fastforce
  have late: "\<forall>(w', s') \<in> set before. w' \<le> w" using Cons.prems(2) e by (fastforce simp: sorted_append)
  have small: "length before + 1 < 2 ^ 32" using Cons.prems(3) by simp
  note step = allow_counts [OF Cons.prems(1) late Cons.prems(4) small, of s]
  have "limiter_run (fst (RateLimiter_allow rl w s)) evs = limiter_rule (rl_limit rl) (before @ [e]) evs"
    using Cons.IH [OF step(2)] Cons.prems(2-4) e by (simp add: allow_frame)
  then show ?case using step(1) Cons.prems(4) e by simp
qed simp

lemma unlimited_run: "rl_limit rl = 0 \<Longrightarrow> limiter_run rl evs = limiter_rule 0 before evs"
proof (induction evs arbitrary: rl before)
  case (Cons e evs)
  then show ?case by (cases e) (simp add: RateLimiter_allow_def)
qed simp

text \<open>
  C35. The rate limiter, with its sixteen tables that forget a second when the next one begins, decides every
  query as the plain rule does: a query is answered exactly when fewer than the limit came from the same source
  in the same second before it, or there is no limit. Other sources, also those that share a table, make no
  difference. Seconds never go back, and fewer than 2^32 queries are considered, the range of a counter.
\<close>
theorem rate_limiter_exact:
  assumes "sorted (map fst evs)" and "length evs < 2 ^ 32"
  shows "limiter_run (RateLimiter_new hash limit) evs = limiter_rule limit [] evs"
proof (cases "limit = 0")
  case True
  then show ?thesis using unlimited_run [of "RateLimiter_new hash limit"] by (simp add: RateLimiter_new_def)
next
  case False
  have "limiter_inv (RateLimiter_new hash limit) []"
    by (simp add: limiter_inv_def shard_counts_def RateLimiter_new_def LimiterShard_default_def fm_simps)
  then show ?thesis using limiter_follows_rule [of "RateLimiter_new hash limit" "[]" evs] assms False
    by (simp add: RateLimiter_new_def)
qed

theorem rate_limiter_exact_witness:
  "limiter_run (RateLimiter_new (\<lambda>_. 0) 2) [(5, ''a''), (5, ''a''), (5, ''b''), (5, ''a''), (6, ''a'')] = [True, True, True, False, True]"
  by (subst rate_limiter_exact) simp_all

section \<open>Which packets are answered\<close>

lemma respond_ends:
  assumes "db_inv env disk db" "consensus_ok (db_node db) (contents env disk db)" "texts_ok (contents env disk db)"
  shows "snd (Responder_respond lib env disk now db r request) \<noteq> None"
proof -
  have "snd (Responder_answer lib env disk now db r q) \<noteq> None" for q
  proof (cases "resolve (base32_nopad lib) (labels_of lib (q_name q)) (rs_zone_labels r) (rs_exposed r)")
    case None
    then show ?thesis by (simp add: Responder_answer_def Let_def)
  next
    case (Some lk)
    obtain db2 res where rd: "reader_read env disk now db (ex_namespace (lk_exposed lk)) (lk_value lk) False (rs_shadow r) = (db2, res)" by fastforce
    have "\<exists>out. (case res of Inr view \<Rightarrow> answer_view r q view (q_type q) | Inl (NotFound _) \<Rightarrow> Some NxDomain | Inl _ \<Rightarrow> Some OutRefused) = Some out"
      using answer_value [OF assms rd refl refl, of r q] by blast
    then show ?thesis using Some rd by (auto simp: Responder_answer_def Let_def split: sum.splits api_error.splits)
  qed
  then show ?thesis
    by (auto simp: Responder_respond_def Let_def split: list.splits prod.splits) (metis snd_conv)
qed

text \<open>
  C36. Every packet is dealt with, and none is amplified: a source over its limit is sent nothing and costs no
  read; a packet that is itself a reply, or too short to carry an id, is never answered, so two servers cannot
  keep each other busy; and what is sent is at most 1232 bytes, or is the truncated form of a reply. Whatever
  arrives, the server is ready for the next packet: producing the reply always ends.
\<close>
theorem dns_packets_bounded:
  assumes "db_inv env disk db" and "consensus_ok (db_node db) (contents env disk db)" and "texts_ok (contents env disk db)"
    and "udp_packet lib env disk now db r rl elapsed source bytes = (db', rl', out)"
  shows "out \<noteq> None \<and>
    (\<not> snd (RateLimiter_allow rl elapsed source) \<longrightarrow> db' = db \<and> out = Some None) \<and>
    (\<forall>request. from_bytes lib bytes = Some request \<and> md_message_type (msg_metadata request) = MtResponse \<longrightarrow> db' = db \<and> out = Some None) \<and>
    (from_bytes lib bytes = None \<longrightarrow> db' = db) \<and> (from_bytes lib bytes = None \<and> length bytes < 2 \<longrightarrow> out = Some None) \<and>
    (\<forall>reply. out = Some (Some reply) \<longrightarrow> length reply \<le> MAX_UDP_LIMIT \<or> (\<exists>m. to_vec lib (msg_truncate lib m) = Some reply))"
proof -
  obtain rl1 ok where al: "RateLimiter_allow rl elapsed source = (rl1, ok)" by fastforce
  obtain db1 h where hd: "handle lib env disk now db r bytes = (db1, h)" by fastforce
  have ends: "h \<noteq> Some (None, p)" for p
    using respond_ends [OF assms(1-3), of lib now r] hd
    by (auto simp: handle_def split: option.splits if_splits prod.splits) (metis option.distinct(1) snd_conv)
  have lim: "udp_limit p \<le> MAX_UDP_LIMIT" for p by (simp add: udp_limit_def DEFAULT_UDP_LIMIT_def MAX_UDP_LIMIT_def split: option.split)
  have small: "length reply \<le> MAX_UDP_LIMIT \<or> (\<exists>m. to_vec lib (msg_truncate lib m) = Some reply)"
    if "encode lib m (Some (udp_limit p)) = Some reply" for m p reply
    using that lim [of p] by (auto simp: encode_def split: option.splits if_splits)
  show ?thesis
  proof (cases ok)
    case False
    then show ?thesis using assms(4) al by (auto simp: udp_packet_def)
  next
    case True
    show ?thesis
    proof (cases h)
      case None
      then have eq: "db' = db1" "out = Some None" using assms(4) al hd True by (simp_all add: udp_packet_def)
      then show ?thesis using hd al True by (auto simp: handle_def split: if_splits)
    next
      case (Some mp)
      then obtain m p where mp: "h = Some (Some m, p)" using ends by (cases mp; cases "fst mp") auto
      then have eq: "db' = db1" "out = Some (encode lib m (Some (udp_limit p)))" using assms(4) al hd True by (simp_all add: udp_packet_def)
      moreover have "\<forall>request. from_bytes lib bytes = Some request \<longrightarrow> md_message_type (msg_metadata request) \<noteq> MtResponse"
        "from_bytes lib bytes = None \<longrightarrow> db1 = db \<and> \<not> length bytes < 2"
        using hd mp by (auto simp: handle_def split: if_splits option.splits)
      ultimately show ?thesis using al True small by auto
    qed
  qed
qed

theorem dns_packets_bounded_witness:
  "udp_packet sample_lib sample_env fmempty (DateTime 100 0) (fst sample_write) sample_responder
     (RateLimiter_new (\<lambda>_. 0) 2) 5 ''a'' [] = (fst sample_write, fst (RateLimiter_allow (RateLimiter_new (\<lambda>_. 0) 2) 5 ''a''), Some None)"
proof -
  have inv: "db_inv sample_env fmempty (fst sample_write)" using sample_write_inv by (rule inv_mono) simp
  obtain db' rl' out where p: "udp_packet sample_lib sample_env fmempty (DateTime 100 0) (fst sample_write) sample_responder
     (RateLimiter_new (\<lambda>_. 0) 2) 5 ''a'' [] = (db', rl', out)" by (metis prod_cases3)
  have none: "from_bytes sample_lib [] = None" by (simp add: sample_lib_def)
  have "rl' = fst (RateLimiter_allow (RateLimiter_new (\<lambda>_. 0) 2) 5 ''a'')"
    using p none by (auto simp: udp_packet_def handle_def split: prod.splits if_splits)
  then show ?thesis using dns_packets_bounded [OF inv sample_write_ok sample_texts p] p none by simp
qed

end
