(* ===== verification/Galaxy.thy ===== *)
theory Galaxy
  imports Sighting Dns_Name Tags
begin

text \<open>
  The other servers: \<^verbatim>\<open>src/src/galaxy.rs\<close>, the peers a server knows, what it knows of their health, and how a
  request is passed on. The HTTP client is a parameter (\<open>network\<close>): it takes a request and answers, or fails
  with a message, and what happens on the other side is the state \<open>'w\<close> it threads. Every request that
  is passed on spends a hop of its budget.
\<close>

section \<open>Peers and their health\<close>

record peer =
  p_url :: string
  p_key :: string
  p_stores :: storage_policy
  p_enabled :: bool

record peer_health =
  ph_url :: string
  ph_online :: bool
  ph_probed :: bool
  ph_last_seen :: int
  ph_latency_ms :: "u64 option"
  ph_version :: "string option"
  ph_error :: "string option"
  ph_failures :: u32
  ph_catching_up :: bool

definition PeerHealth_unprobed :: "string \<Rightarrow> peer_health" where
  "PeerHealth_unprobed url = \<lparr>ph_url = url, ph_online = False, ph_probed = False, ph_last_seen = 0, ph_latency_ms = None,
     ph_version = None, ph_error = None, ph_failures = 0, ph_catching_up = False\<rparr>"

record galaxy =
  g_peers :: "peer list"
  g_max_hops :: u8
  g_verify_tls :: bool
  g_acl_authority :: bool
  g_health :: "(string, peer_health) fmap"
  g_fixed :: "string list"

record galaxy_settings =
  gs_peers :: "peer list"
  gs_fixed :: "string list"
  gs_max_hops :: u8
  gs_acl_authority :: bool
  gs_verify_tls :: bool

definition Galaxy_new :: "galaxy_settings \<Rightarrow> galaxy" where
  "Galaxy_new settings =
     \<lparr>g_peers = gs_peers settings, g_max_hops = gs_max_hops settings, g_verify_tls = gs_verify_tls settings,
      g_acl_authority = gs_acl_authority settings,
      g_health = fold (\<lambda>p m. fmupd (p_url p) (PeerHealth_unprobed (p_url p)) m) (gs_peers settings) fmempty,
      g_fixed = gs_fixed settings\<rparr>"

definition Galaxy_peers :: "galaxy \<Rightarrow> peer list" where
  "Galaxy_peers g = filter p_enabled (g_peers g)"

definition Galaxy_all_peers :: "galaxy \<Rightarrow> peer list" where
  "Galaxy_all_peers g = g_peers g"

definition Galaxy_holders :: "galaxy \<Rightarrow> string \<Rightarrow> peer list" where
  "Galaxy_holders g namespace = filter (\<lambda>p. p_enabled p \<and> StoragePolicy_holds (p_stores p) namespace) (g_peers g)"

definition usable :: "galaxy \<Rightarrow> peer \<Rightarrow> bool" where
  "usable g p = (case fmlookup (g_health g) (p_url p) of None \<Rightarrow> True | Some known \<Rightarrow> ph_online known \<or> \<not> ph_probed known)"

definition Galaxy_live_holders :: "galaxy \<Rightarrow> string \<Rightarrow> peer list" where
  "Galaxy_live_holders g namespace = filter (usable g) (Galaxy_holders g namespace)"

text \<open>The first eight bytes of the digest of value, colon and address, as a big-endian number.\<close>

definition weigh :: "(string \<Rightarrow> string) \<Rightarrow> string \<Rightarrow> string \<Rightarrow> u64" where
  "weigh sha256 v url =
     fold (\<lambda>c acc. acc * 256 + of_nat (of_char c)) (take 8 (sha256 (v @ '':'' @ url))) 0"

definition behind :: "galaxy \<Rightarrow> string list" where
  "behind g = map ph_url (filter ph_catching_up (fm_values (g_health g)))"

definition Galaxy_reader_for :: "(string \<Rightarrow> string) \<Rightarrow> galaxy \<Rightarrow> string \<Rightarrow> string \<Rightarrow> peer option" where
  "Galaxy_reader_for sha256 g namespace v =
     (let live = Galaxy_live_holders g namespace;
          current = filter (\<lambda>p. p_url p \<notin> set (behind g)) live;
          choose_from = (if current = [] then live else current)
      in max_by_key (\<lambda>p. unat (weigh sha256 v (p_url p))) choose_from)"

definition Galaxy_health :: "galaxy \<Rightarrow> peer_health list" where
  "Galaxy_health g = map (\<lambda>p. fm_get (PeerHealth_unprobed (p_url p)) (g_health g) (p_url p)) (Galaxy_all_peers g)"

record probed =
  pr_version :: "string option"
  pr_latency_ms :: u64
  pr_catching_up :: bool

definition saturating_inc_u32 :: "u32 \<Rightarrow> u32" where
  "saturating_inc_u32 n = (if n = - 1 then n else n + 1)"

definition Galaxy_record :: "galaxy \<Rightarrow> int \<Rightarrow> string \<Rightarrow> string + probed \<Rightarrow> galaxy" where
  "Galaxy_record g now url outcome =
     (let known = (fm_get (PeerHealth_unprobed url) (g_health g) url)\<lparr>ph_probed := True\<rparr>;
          known = (case outcome of
              Inr p \<Rightarrow> known\<lparr>ph_online := True, ph_last_seen := now, ph_latency_ms := Some (pr_latency_ms p),
                  ph_version := pr_version p, ph_error := None, ph_failures := 0, ph_catching_up := pr_catching_up p\<rparr>
            | Inl e \<Rightarrow> known\<lparr>ph_online := False, ph_latency_ms := None, ph_error := Some e,
                  ph_failures := saturating_inc_u32 (ph_failures known)\<rparr>)
      in g\<lparr>g_health := fmupd url known (g_health g)\<rparr>)"

section \<open>Editing the peers\<close>

datatype add_peer_error = Invalid string | AlreadyThere string

definition trim_end_matches :: "char \<Rightarrow> string \<Rightarrow> string" where
  "trim_end_matches c s = rev (dropWhile (\<lambda>x. x = c) (rev s))"

text \<open>\<open>str::trim_start_matches\<close> of a text: it goes as often as it stands there.\<close>

function trim_start_matches :: "string \<Rightarrow> string \<Rightarrow> string" where
  "trim_start_matches p s = (if p \<noteq> [] \<and> starts_with s p then trim_start_matches p (drop (length p) s) else s)"
  by auto
termination
  by (relation "measure (\<lambda>(p, s). length s)") (auto simp: starts_with_iff)

declare trim_start_matches.simps [simp del]

definition rsplit_once :: "char \<Rightarrow> string \<Rightarrow> (string \<times> string) option" where
  "rsplit_once c s =
     (case split_once c (rev s) of None \<Rightarrow> None | Some (b, a) \<Rightarrow> Some (rev a, rev b))"

definition is_own_address :: "string \<Rightarrow> string \<Rightarrow> bool" where
  "is_own_address url own_listen =
     (let host_port = trim_end_matches CHR ''/'' (trim_start_matches ''http://'' (trim_start_matches ''https://'' url))
      in if host_port = own_listen then True
         else case rsplit_once CHR '':'' own_listen of
                None \<Rightarrow> False
              | Some (own_host, own_port) \<Rightarrow>
                  (case rsplit_once CHR '':'' host_port of
                     None \<Rightarrow> False
                   | Some (host, port) \<Rightarrow>
                       port = own_port \<and> own_host \<in> {''0.0.0.0'', ''[::]'', ''::''} \<and>
                       host \<in> {''127.0.0.1'', ''localhost'', ''[::1]'', ''::1''}))"

definition clean_url :: "string \<Rightarrow> string" where
  "clean_url url = trim_end_matches CHR ''/'' (trim url)"

definition Galaxy_is_fixed :: "galaxy \<Rightarrow> string \<Rightarrow> bool" where
  "Galaxy_is_fixed g url = list_ex (\<lambda>known. known = clean_url url) (g_fixed g)"

definition Galaxy_editable_peers :: "galaxy \<Rightarrow> peer list" where
  "Galaxy_editable_peers g = filter (\<lambda>p. \<not> Galaxy_is_fixed g (p_url p)) (Galaxy_all_peers g)"

definition Galaxy_add_peer :: "galaxy \<Rightarrow> peer \<Rightarrow> string \<Rightarrow> galaxy \<times> (add_peer_error + peer)" where
  "Galaxy_add_peer g given own_listen =
     (let p = given\<lparr>p_url := clean_url (p_url given), p_key := trim (p_key given)\<rparr>
      in if \<not> (starts_with (p_url p) ''http://'' \<or> starts_with (p_url p) ''https://'')
           then (g, Inl (Invalid ''a peer URL starts with http:// or https://''))
         else if trim_start_matches ''http://'' (trim_start_matches ''https://'' (p_url p)) = []
           then (g, Inl (Invalid ''a peer URL needs a host''))
         else if p_key p = []
           then (g, Inl (Invalid ''a peer needs the key this server will authenticate with there''))
         else if is_own_address (p_url p) own_listen
           then (g, Inl (Invalid (p_url p @ '' is this server'' @ [CHR 0x27] @ ''s own address, which would make it its own mirror'')))
         else if list_ex (\<lambda>known. p_url known = p_url p) (g_peers g)
           then (g, Inl (AlreadyThere (p_url p @ '' is already in this galaxy'')))
         else if Galaxy_is_fixed g (p_url p)
           then (g, Inl (AlreadyThere (p_url p @ '' is declared in the configuration file, so it cannot be changed here'')))
         else (g\<lparr>g_peers := g_peers g @ [p]\<rparr>, Inr p))"

definition Galaxy_remove_peer :: "galaxy \<Rightarrow> string \<Rightarrow> galaxy \<times> bool" where
  "Galaxy_remove_peer g given =
     (let url = clean_url given;
          peers = filter (\<lambda>p. p_url p \<noteq> url) (g_peers g);
          removed = (length peers \<noteq> length (g_peers g));
          g = g\<lparr>g_peers := peers\<rparr>
      in (if removed then g\<lparr>g_health := fmdrop url (g_health g)\<rparr> else g, removed))"

text \<open>\<open>iter_mut().find()\<close>: the first peer with the address is changed.\<close>

fun update_first :: "('a \<Rightarrow> bool) \<Rightarrow> ('a \<Rightarrow> 'a) \<Rightarrow> 'a list \<Rightarrow> ('a list \<times> 'a) option" where
  "update_first P f [] = None"
| "update_first P f (x # xs) =
     (if P x then Some (f x # xs, f x)
      else case update_first P f xs of None \<Rightarrow> None | Some (ys, y) \<Rightarrow> Some (x # ys, y))"

definition Galaxy_set_enabled :: "galaxy \<Rightarrow> string \<Rightarrow> bool \<Rightarrow> galaxy \<times> peer option" where
  "Galaxy_set_enabled g given enabled =
     (let url = clean_url given
      in case update_first (\<lambda>p. p_url p = url) (\<lambda>p. p\<lparr>p_enabled := enabled\<rparr>) (g_peers g) of
           None \<Rightarrow> (g, None)
         | Some (peers, p) \<Rightarrow> (g\<lparr>g_peers := peers, g_health := fmdrop url (g_health g)\<rparr>, Some p))"

definition Galaxy_update_peer :: "galaxy \<Rightarrow> peer \<Rightarrow> galaxy \<times> peer option" where
  "Galaxy_update_peer g given =
     (let p = given\<lparr>p_url := clean_url (p_url given), p_key := trim (p_key given)\<rparr>
      in if p_key p = [] then (g, None)
         else case update_first (\<lambda>known. p_url known = p_url p) (\<lambda>_. p) (g_peers g) of
                None \<Rightarrow> (g, None)
              | Some (peers, p) \<Rightarrow> (g\<lparr>g_peers := peers\<rparr>, Some p))"

section \<open>Passing requests on\<close>

definition HOPS_HEADER :: string where
  "HOPS_HEADER = ''X-SightingDB-Hops''"

definition ORIGIN_HEADER :: string where
  "ORIGIN_HEADER = ''X-SightingDB-Origin''"

datatype forward_error = NoHolder | AllDown string | TooManyHops | Unreachable string

fun ForwardError_to_string :: "forward_error \<Rightarrow> string" where
  "ForwardError_to_string NoHolder = ''no server in this galaxy stores that namespace''"
| "ForwardError_to_string (AllDown namespace) =
     ''every server storing '' @ quoted namespace @ '' is unreachable from here''"
| "ForwardError_to_string TooManyHops =
     ''the hop limit was reached: the galaxy is wired in a loop, or is deeper than max_hops allows''"
| "ForwardError_to_string (Unreachable e) = ''could not reach the server holding it: '' @ e"

datatype http_method = GET | POST | PUT | DELETE

record http_request =
  rq_method :: http_method
  rq_url :: string
  rq_headers :: "(string \<times> string) list"
  rq_body :: "string option"

record forwarded =
  fw_status :: nat
  fw_body :: string
  fw_headers :: "(string \<times> string) list"

record 'w network =
  client_builds :: "bool \<Rightarrow> bool"
  request :: "http_request \<Rightarrow> 'w \<Rightarrow> 'w \<times> (string + forwarded)"

text \<open>\<open>HeaderMap::get\<close>: names are compared without regard to case.\<close>

definition header_of :: "(string \<times> string) list \<Rightarrow> string \<Rightarrow> string option" where
  "header_of headers name =
     map_option snd (find (\<lambda>(n, _). eq_ignore_ascii_case n name) headers)"

text \<open>\<open>HeaderValue::to_str\<close>: visible ASCII and tabs only.\<close>

definition header_text :: "string \<Rightarrow> string option" where
  "header_text s =
     (if list_all (\<lambda>c. let n = (of_char c :: nat) in n = 9 \<or> 32 \<le> n \<and> n < 127) s then Some s else None)"

definition origin_of :: "(string \<times> string) list \<Rightarrow> string option" where
  "origin_of headers =
     (case header_of headers HOPS_HEADER of
        None \<Rightarrow> None
      | Some _ \<Rightarrow>
          (case Option.bind (header_of headers ORIGIN_HEADER) header_text of
             None \<Rightarrow> None
           | Some origin \<Rightarrow> if trim origin = [] then None else Some (trim origin)))"

definition hops_left :: "(string \<times> string) list \<Rightarrow> u8 \<Rightarrow> u8 option" where
  "hops_left headers max_hops =
     (case header_of headers HOPS_HEADER of
        None \<Rightarrow> Some max_hops
      | Some v \<Rightarrow>
          (case Option.bind (header_text v) (\<lambda>s. u8_from_str (trim s)) of
             None \<Rightarrow> None
           | Some left \<Rightarrow> if left > 0 then Some left else None))"

definition worth_passing_back :: "string \<Rightarrow> bool" where
  "worth_passing_back name =
     (let name = to_ascii_lowercase name in name = ''content-type'' \<or> starts_with name ''x-sightingdb-'')"

text \<open>The headers of a request that is passed on: the peer's own key, one hop less, and the origin.\<close>

definition sent_headers :: "string \<Rightarrow> u8 \<Rightarrow> string \<Rightarrow> string option \<Rightarrow> (string \<times> string) list" where
  "sent_headers key hops origin body =
     [(''Authorization'', key), (HOPS_HEADER, show_u8 (hops - 1)), (ORIGIN_HEADER, origin)] @
     (if body = None then [] else [(''Content-Type'', ''application/json'')])"

definition Galaxy_send ::
  "'w network \<Rightarrow> galaxy \<Rightarrow> 'w \<Rightarrow> peer \<Rightarrow> http_method \<Rightarrow> string \<Rightarrow> string option \<Rightarrow> u8 \<Rightarrow> string
    \<Rightarrow> 'w \<times> (forward_error + forwarded)" where
  "Galaxy_send net g w p method path body hops origin =
     (if \<not> client_builds net (g_verify_tls g) then (w, Inl (Unreachable ''no HTTP client could be built''))
      else case request net \<lparr>rq_method = method, rq_url = p_url p @ path,
                       rq_headers = sent_headers (p_key p) hops origin body, rq_body = body\<rparr> w of
             (w, Inl e) \<Rightarrow> (w, Inl (Unreachable e))
           | (w, Inr answer) \<Rightarrow>
               (w, Inr (answer\<lparr>fw_headers := filter (\<lambda>(n, v). worth_passing_back n \<and> header_text v \<noteq> None) (fw_headers answer)\<rparr>)))"

definition Galaxy_forward_read ::
  "(string \<Rightarrow> string) \<Rightarrow> 'w network \<Rightarrow> galaxy \<Rightarrow> 'w \<Rightarrow> string \<Rightarrow> string \<Rightarrow> string \<Rightarrow> u8 \<Rightarrow> string
    \<Rightarrow> 'w \<times> (forward_error + forwarded)" where
  "Galaxy_forward_read sha256 net g w namespace v path hops origin =
     (if hops = 0 then (w, Inl TooManyHops)
      else if Galaxy_holders g namespace = [] then (w, Inl NoHolder)
      else case Galaxy_reader_for sha256 g namespace v of
             None \<Rightarrow> (w, Inl (AllDown namespace))
           | Some p \<Rightarrow> Galaxy_send net g w p GET path None hops origin)"

definition Galaxy_reader_url :: "(string \<Rightarrow> string) \<Rightarrow> galaxy \<Rightarrow> string \<Rightarrow> string \<Rightarrow> forward_error + string" where
  "Galaxy_reader_url sha256 g namespace v =
     (if Galaxy_holders g namespace = [] then Inl NoHolder
      else case Galaxy_reader_for sha256 g namespace v of
             None \<Rightarrow> Inl (AllDown namespace)
           | Some p \<Rightarrow> Inr (p_url p))"

definition Galaxy_forward_to ::
  "'w network \<Rightarrow> galaxy \<Rightarrow> 'w \<Rightarrow> string \<Rightarrow> http_method \<Rightarrow> string \<Rightarrow> string option \<Rightarrow> u8 \<Rightarrow> string
    \<Rightarrow> 'w \<times> (forward_error + forwarded)" where
  "Galaxy_forward_to net g w url method path body hops origin =
     (if hops = 0 then (w, Inl TooManyHops)
      else case find (\<lambda>p. p_url p = url) (Galaxy_peers g) of
             None \<Rightarrow> (w, Inl (Unreachable (url @ '' is not a configured peer'')))
           | Some p \<Rightarrow> Galaxy_send net g w p method path body hops origin)"

text \<open>Sending to every peer of a list in turn: what each answered, and the last failure.\<close>

fun send_each ::
  "'w network \<Rightarrow> galaxy \<Rightarrow> 'w \<Rightarrow> peer list \<Rightarrow> http_method \<Rightarrow> string \<Rightarrow> string option \<Rightarrow> u8 \<Rightarrow> string
    \<Rightarrow> (string \<times> forwarded) list \<Rightarrow> forward_error option \<Rightarrow> 'w \<times> (string \<times> forwarded) list \<times> forward_error option" where
  "send_each net g w [] method path body hops origin answers last_error = (w, answers, last_error)"
| "send_each net g w (p # peers) method path body hops origin answers last_error =
     (case Galaxy_send net g w p method path body hops origin of
        (w, Inr answer) \<Rightarrow> send_each net g w peers method path body hops origin (answers @ [(p_url p, answer)]) last_error
      | (w, Inl e) \<Rightarrow> send_each net g w peers method path body hops origin answers (Some e))"

definition Galaxy_forward_write ::
  "'w network \<Rightarrow> galaxy \<Rightarrow> 'w \<Rightarrow> string \<Rightarrow> http_method \<Rightarrow> string \<Rightarrow> string option \<Rightarrow> u8 \<Rightarrow> string
    \<Rightarrow> 'w \<times> (forward_error + (string \<times> forwarded) list)" where
  "Galaxy_forward_write net g w namespace method path body hops origin =
     (if hops = 0 then (w, Inl TooManyHops)
      else if Galaxy_holders g namespace = [] then (w, Inl NoHolder)
      else let live = Galaxy_live_holders g namespace
           in if live = [] then (w, Inl (AllDown namespace))
              else let (w, answers, last_error) = send_each net g w live method path body hops origin [] None
                   in if answers = [] then (w, Inl (unwrap_or last_error (AllDown namespace))) else (w, Inr answers))"

fun add_wanted :: "peer list \<Rightarrow> peer list \<Rightarrow> peer list" where
  "add_wanted [] wanted = wanted"
| "add_wanted (p # peers) wanted =
     add_wanted peers (if list_ex (\<lambda>known. p_url known = p_url p) wanted then wanted else wanted @ [p])"

definition Galaxy_forward_batch ::
  "'w network \<Rightarrow> galaxy \<Rightarrow> 'w \<Rightarrow> string list \<Rightarrow> string \<Rightarrow> string \<Rightarrow> u8 \<Rightarrow> string
    \<Rightarrow> 'w \<times> (forward_error + (string \<times> forwarded) list)" where
  "Galaxy_forward_batch net g w namespaces path body hops origin =
     (if hops = 0 then (w, Inl TooManyHops)
      else let wanted = fold (\<lambda>namespace. add_wanted (Galaxy_live_holders g namespace)) namespaces []
           in if wanted = [] then (w, Inl NoHolder)
              else let (w, answers, last_error) = send_each net g w wanted POST path (Some body) hops origin [] None
                   in if answers = [] then (w, Inl (unwrap_or last_error NoHolder)) else (w, Inr answers))"

definition is_success :: "nat \<Rightarrow> bool" where
  "is_success status \<longleftrightarrow> 200 \<le> status \<and> status < 300"

text \<open>Key and tier changes are offered to every peer, and counted by how they were received.\<close>

record gossiped =
  go_accepted :: nat
  go_refused :: nat
  go_failed :: nat

definition Gossiped_default :: gossiped where
  "Gossiped_default = \<lparr>go_accepted = 0, go_refused = 0, go_failed = 0\<rparr>"

fun spread_loop ::
  "'w network \<Rightarrow> galaxy \<Rightarrow> 'w \<Rightarrow> peer list \<Rightarrow> http_method \<Rightarrow> string \<Rightarrow> string option \<Rightarrow> u8 \<Rightarrow> gossiped \<Rightarrow> 'w \<times> gossiped" where
  "spread_loop net g w [] method path body hops report = (w, report)"
| "spread_loop net g w (p # peers) method path body hops report =
     (case Galaxy_send net g w p method path body hops [] of
        (w, Inr answer) \<Rightarrow>
          spread_loop net g w peers method path body hops
            (if is_success (fw_status answer) then report\<lparr>go_accepted := go_accepted report + 1\<rparr>
             else if fw_status answer = 403 \<or> fw_status answer = 401 then report\<lparr>go_refused := go_refused report + 1\<rparr>
             else report\<lparr>go_failed := go_failed report + 1\<rparr>)
      | (w, Inl _) \<Rightarrow> spread_loop net g w peers method path body hops (report\<lparr>go_failed := go_failed report + 1\<rparr>))"

definition Galaxy_spread ::
  "'w network \<Rightarrow> galaxy \<Rightarrow> 'w \<Rightarrow> http_method \<Rightarrow> string \<Rightarrow> string option \<Rightarrow> u8 \<Rightarrow> 'w \<times> gossiped" where
  "Galaxy_spread net g w method path body hops =
     (if hops = 0 then (w, Gossiped_default)
      else spread_loop net g w (Galaxy_peers g) method path body hops Gossiped_default)"

definition unreserved :: "char \<Rightarrow> bool" where
  "unreserved c \<longleftrightarrow>
     (let n = (of_char c :: nat)
      in 65 \<le> n \<and> n \<le> 90 \<or> 97 \<le> n \<and> n \<le> 122 \<or> 48 \<le> n \<and> n \<le> 57 \<or> c \<in> {CHR ''-'', CHR ''_'', CHR ''.'', CHR ''~''})"

definition urlencoding_of :: "string \<Rightarrow> string" where
  "urlencoding_of v =
     concat (map (\<lambda>c. if unreserved c then [c]
        else [CHR 0x25, hex_upper ((of_char c :: nat) div 16), hex_upper ((of_char c :: nat) mod 16)]) v)"

definition Galaxy_push_key_removal :: "'w network \<Rightarrow> galaxy \<Rightarrow> 'w \<Rightarrow> string \<Rightarrow> u8 \<Rightarrow> 'w \<times> gossiped" where
  "Galaxy_push_key_removal net g w key hops =
     Galaxy_spread net g w DELETE (''/_management/api/keys/'' @ urlencoding_of key) None hops"

definition Galaxy_push_key :: "(json \<Rightarrow> string) \<Rightarrow> 'w network \<Rightarrow> galaxy \<Rightarrow> 'w \<Rightarrow> json \<Rightarrow> u8 \<Rightarrow> 'w \<times> gossiped" where
  "Galaxy_push_key json_out net g w given hops =
     Galaxy_spread net g w POST ''/_management/api/keys'' (Some (json_out given)) hops"

definition Galaxy_push_key_list :: "(json \<Rightarrow> string) \<Rightarrow> 'w network \<Rightarrow> galaxy \<Rightarrow> 'w \<Rightarrow> json \<Rightarrow> u8 \<Rightarrow> 'w \<times> gossiped" where
  "Galaxy_push_key_list json_out net g w keys hops =
     Galaxy_spread net g w PUT ''/_management/api/keys'' (Some (json_out (JObj [(''keys'', keys)]))) hops"

definition Galaxy_push_tier :: "(json \<Rightarrow> string) \<Rightarrow> 'w network \<Rightarrow> galaxy \<Rightarrow> 'w \<Rightarrow> json \<Rightarrow> u8 \<Rightarrow> 'w \<times> gossiped" where
  "Galaxy_push_tier json_out net g w change hops =
     Galaxy_spread net g w POST ''/_management/api/tier'' (Some (json_out change)) hops"

definition Galaxy_owns_the_acl :: "galaxy \<Rightarrow> bool" where
  "Galaxy_owns_the_acl g = g_acl_authority g"

text \<open>Asking every peer for its own view of the galaxy.\<close>

fun walk_loop ::
  "(string \<Rightarrow> string + json) \<Rightarrow> 'w network \<Rightarrow> galaxy \<Rightarrow> 'w \<Rightarrow> peer list \<Rightarrow> u8 \<Rightarrow> (string \<times> json) list \<Rightarrow> 'w \<times> (string \<times> json) list" where
  "walk_loop json_in net g w [] hops found = (w, found)"
| "walk_loop json_in net g w (p # peers) hops found =
     (case Galaxy_send net g w p GET ''/_management/api/galaxy'' None hops [] of
        (w, Inr answer) \<Rightarrow>
          (case (if is_success (fw_status answer) then json_in (fw_body answer) else Inl []) of
             Inr view \<Rightarrow> walk_loop json_in net g w peers hops (found @ [(p_url p, view)])
           | Inl _ \<Rightarrow> walk_loop json_in net g w peers hops found)
      | (w, Inl _) \<Rightarrow> walk_loop json_in net g w peers hops found)"

definition Galaxy_walk ::
  "(string \<Rightarrow> string + json) \<Rightarrow> 'w network \<Rightarrow> galaxy \<Rightarrow> 'w \<Rightarrow> u8 \<Rightarrow> 'w \<times> (string \<times> json) list" where
  "Galaxy_walk json_in net g w hops =
     (if hops = 0 then (w, []) else walk_loop json_in net g w (Galaxy_peers g) hops [])"

section \<open>Which server answers a read\<close>

lemma max_by_key_filter: "max_by_key f xs = Some x \<Longrightarrow> P x \<Longrightarrow> max_by_key f (filter P xs) = Some x"
proof (induction xs)
  case (Cons a xs)
  show ?case
  proof (cases "max_by_key f xs")
    case None
    then show ?thesis using Cons.prems by (simp add: max_by_key_None)
  next
    case (Some y)
    show ?thesis
    proof (cases "f a \<le> f y")
      case True
      then have "x = y" using Some Cons.prems by simp
      then show ?thesis using Cons.IH Some Cons.prems(2) True by simp
    next
      case False
      then have x: "x = a" using Some Cons.prems by simp
      have "f z \<le> f y" if "max_by_key f (filter P xs) = Some z" for z
        using max_by_key_max [OF that] max_by_key_max [OF Some] by auto
      then show ?thesis using x False Cons.prems(2) by (fastforce split: option.split)
    qed
  qed
qed simp

text \<open>Addresses are unique, and what is known of a peer is filed under its address.\<close>

definition galaxy_inv :: "galaxy \<Rightarrow> bool" where
  "galaxy_inv g \<longleftrightarrow> distinct (map p_url (g_peers g)) \<and>
     (\<forall>u h. fmlookup (g_health g) u = Some h \<longrightarrow> ph_url h = u)"

definition eligible :: "galaxy \<Rightarrow> string \<Rightarrow> peer list" where
  "eligible g namespace =
     (let live = Galaxy_live_holders g namespace; current = filter (\<lambda>p. p_url p \<notin> set (behind g)) live
      in if current = [] then live else current)"

lemma reader_eligible: "Galaxy_reader_for sha256 g ns v = max_by_key (\<lambda>p. unat (weigh sha256 v (p_url p))) (eligible g ns)"
  by (simp add: Galaxy_reader_for_def eligible_def Let_def)

lemma behind_iff:
  assumes "galaxy_inv g"
  shows "u \<in> set (behind g) \<longleftrightarrow> (\<exists>h. fmlookup (g_health g) u = Some h \<and> ph_catching_up h)"
proof -
  have "set (fm_values m) = fmran' m" for m :: "(string, peer_health) fmap"
    by (force simp: fm_values_def fmlookup_ran'_iff fmlookup_dom'_iff sorted_list_of_fmap_keys)
  then show ?thesis using assms by (force simp: behind_def galaxy_inv_def fmlookup_ran'_iff)
qed

text \<open>One server less to choose from: whatever made it so, the others are as they were.\<close>

lemma eligible_without:
  assumes live: "Galaxy_live_holders g' ns = filter (\<lambda>q. p_url q \<noteq> u) (Galaxy_live_holders g ns)"
    and beh: "\<And>x. x \<noteq> u \<Longrightarrow> x \<in> set (behind g') \<longleftrightarrow> x \<in> set (behind g)"
    and p: "p \<in> set (eligible g ns)" "p_url p \<noteq> u"
  shows "eligible g' ns = filter (\<lambda>q. p_url q \<noteq> u) (eligible g ns)"
proof -
  let ?cur = "filter (\<lambda>q. p_url q \<notin> set (behind g)) (Galaxy_live_holders g ns)"
  have cur: "filter (\<lambda>q. p_url q \<notin> set (behind g')) (Galaxy_live_holders g' ns) = filter (\<lambda>q. p_url q \<noteq> u) ?cur"
    unfolding live filter_filter by (rule filter_cong [OF refl]) (auto simp: beh)
  show ?thesis
  proof (cases "?cur = []")
    case True
    then show ?thesis using cur live by (simp add: eligible_def Let_def)
  next
    case False
    then have "p \<in> set (filter (\<lambda>q. p_url q \<noteq> u) ?cur)" using p by (simp add: eligible_def Let_def)
    then have "filter (\<lambda>q. p_url q \<noteq> u) ?cur \<noteq> []" by (metis empty_iff list.set(1))
    then show ?thesis using cur False by (simp add: eligible_def Let_def)
  qed
qed

lemma sticky_without:
  assumes "Galaxy_reader_for sha256 g ns v = Some p" "p_url p \<noteq> u"
    and "Galaxy_live_holders g' ns = filter (\<lambda>q. p_url q \<noteq> u) (Galaxy_live_holders g ns)"
    and "\<And>x. x \<noteq> u \<Longrightarrow> x \<in> set (behind g') \<longleftrightarrow> x \<in> set (behind g)"
  shows "Galaxy_reader_for sha256 g' ns v = Some p"
proof -
  have m: "max_by_key (\<lambda>p. unat (weigh sha256 v (p_url p))) (eligible g ns) = Some p" using assms(1) by (simp add: reader_eligible)
  then have "p \<in> set (eligible g ns)" using max_by_key_max by fast
  then have "eligible g' ns = filter (\<lambda>q. p_url q \<noteq> u) (eligible g ns)"
    using eligible_without [OF assms(3,4)] assms(2) by blast
  then show ?thesis using max_by_key_filter [OF m] assms(2) by (simp add: reader_eligible)
qed

lemma galaxy_inv_record: "galaxy_inv g \<Longrightarrow> galaxy_inv (Galaxy_record g now url outcome)"
  by (auto simp: galaxy_inv_def Galaxy_record_def Let_def PeerHealth_unprobed_def fm_get_def split: sum.splits option.splits if_splits)

lemma galaxy_inv_remove: "galaxy_inv g \<Longrightarrow> galaxy_inv (fst (Galaxy_remove_peer g url))"
  by (auto simp: galaxy_inv_def Galaxy_remove_peer_def Let_def distinct_map_filter split: if_splits)

lemma live_holders_iff:
  "Galaxy_live_holders g ns =
     filter (\<lambda>q. p_enabled q \<and> StoragePolicy_holds (p_stores q) ns \<and> usable g q) (g_peers g)"
  by (simp add: Galaxy_live_holders_def Galaxy_holders_def conj_ac)

lemma record_other:
  assumes "galaxy_inv g"
  shows "Galaxy_live_holders (Galaxy_record g now u (Inl e)) ns = filter (\<lambda>q. p_url q \<noteq> u) (Galaxy_live_holders g ns)"
    and "x \<noteq> u \<Longrightarrow> x \<in> set (behind (Galaxy_record g now u (Inl e))) \<longleftrightarrow> x \<in> set (behind g)"
proof -
  have us: "usable (Galaxy_record g now u (Inl e)) q \<longleftrightarrow> p_url q \<noteq> u \<and> usable g q" for q
    by (auto simp: usable_def Galaxy_record_def Let_def)
  have "g_peers (Galaxy_record g now u (Inl e)) = g_peers g" by (simp add: Galaxy_record_def Let_def)
  then show "Galaxy_live_holders (Galaxy_record g now u (Inl e)) ns = filter (\<lambda>q. p_url q \<noteq> u) (Galaxy_live_holders g ns)"
    by (simp add: live_holders_iff us conj_ac)
  show "x \<in> set (behind (Galaxy_record g now u (Inl e))) \<longleftrightarrow> x \<in> set (behind g)" if "x \<noteq> u"
    using that unfolding behind_iff [OF assms] behind_iff [OF galaxy_inv_record [OF assms]]
    by (simp add: Galaxy_record_def Let_def)
qed

lemma remove_other:
  assumes "galaxy_inv g"
  shows "Galaxy_live_holders (fst (Galaxy_remove_peer g u)) ns = filter (\<lambda>q. p_url q \<noteq> clean_url u) (Galaxy_live_holders g ns)"
    and "x \<noteq> clean_url u \<Longrightarrow> x \<in> set (behind (fst (Galaxy_remove_peer g u))) \<longleftrightarrow> x \<in> set (behind g)"
proof -
  have us: "usable (fst (Galaxy_remove_peer g u)) q \<longleftrightarrow> usable g q" if "p_url q \<noteq> clean_url u" for q
    using that by (simp add: usable_def Galaxy_remove_peer_def Let_def)
  have "g_peers (fst (Galaxy_remove_peer g u)) = filter (\<lambda>q. p_url q \<noteq> clean_url u) (g_peers g)"
    by (simp add: Galaxy_remove_peer_def Let_def)
  then show "Galaxy_live_holders (fst (Galaxy_remove_peer g u)) ns = filter (\<lambda>q. p_url q \<noteq> clean_url u) (Galaxy_live_holders g ns)"
    using us by (auto simp: live_holders_iff intro!: filter_cong)
  show "x \<in> set (behind (fst (Galaxy_remove_peer g u))) \<longleftrightarrow> x \<in> set (behind g)" if "x \<noteq> clean_url u"
    using that unfolding behind_iff [OF assms] behind_iff [OF galaxy_inv_remove [OF assms]]
    by (simp add: Galaxy_remove_peer_def Let_def)
qed

text \<open>
  A value is read from one server, and stays there: the reader is a peer in service that stores the
  namespace and was not found unreachable, one that is not still catching up unless all of them are, and the
  one of greatest weight among those; there is one whenever any such peer is left. While it remains, losing or
  removing another peer does not move the value elsewhere.
\<close>
theorem reader_is_sticky:
  assumes "galaxy_inv g" and "Galaxy_reader_for sha256 g namespace v = r"
  shows "(r = None \<longleftrightarrow> Galaxy_live_holders g namespace = []) \<and>
    (\<forall>p. r = Some p \<longrightarrow>
       p \<in> set (g_peers g) \<and> p_enabled p \<and> StoragePolicy_holds (p_stores p) namespace \<and> usable g p \<and>
       (p_url p \<in> set (behind g) \<longrightarrow> (\<forall>q \<in> set (Galaxy_live_holders g namespace). p_url q \<in> set (behind g))) \<and>
       (\<forall>q \<in> set (Galaxy_live_holders g namespace).
          (p_url q \<in> set (behind g) \<longrightarrow> p_url p \<in> set (behind g)) \<longrightarrow> weigh sha256 v (p_url q) \<le> weigh sha256 v (p_url p)) \<and>
       (\<forall>u. clean_url u \<noteq> p_url p \<longrightarrow> Galaxy_reader_for sha256 (fst (Galaxy_remove_peer g u)) namespace v = Some p) \<and>
       (\<forall>now u e. u \<noteq> p_url p \<longrightarrow> Galaxy_reader_for sha256 (Galaxy_record g now u (Inl e)) namespace v = Some p))"
proof (intro conjI allI impI)
  let ?live = "Galaxy_live_holders g namespace"
  have el: "eligible g namespace = [] \<longleftrightarrow> ?live = []" by (cases "?live = []") (simp_all add: eligible_def Let_def)
  show "r = None \<longleftrightarrow> ?live = []" unfolding assms(2) [symmetric] reader_eligible by (simp add: max_by_key_None el)
  fix p assume "r = Some p"
  then have rd: "Galaxy_reader_for sha256 g namespace v = Some p" using assms(2) by simp
  then have m: "p \<in> set (eligible g namespace)" "\<forall>q \<in> set (eligible g namespace). weigh sha256 v (p_url q) \<le> weigh sha256 v (p_url p)"
    using max_by_key_max by (fastforce simp: reader_eligible word_le_nat_alt)+
  have live: "p \<in> set ?live" using m(1) by (auto simp: eligible_def Let_def split: if_splits)
  then show "p \<in> set (g_peers g)" "p_enabled p" "StoragePolicy_holds (p_stores p) namespace" "usable g p" by (auto simp: live_holders_iff)
  show all: "\<forall>q \<in> set ?live. p_url q \<in> set (behind g)" if "p_url p \<in> set (behind g)"
    using m(1) that by (auto simp: eligible_def Let_def filter_empty_conv split: if_splits)
  show "\<forall>q \<in> set ?live. (p_url q \<in> set (behind g) \<longrightarrow> p_url p \<in> set (behind g)) \<longrightarrow> weigh sha256 v (p_url q) \<le> weigh sha256 v (p_url p)"
  proof (intro ballI impI)
    fix q assume q: "q \<in> set ?live" "p_url q \<in> set (behind g) \<longrightarrow> p_url p \<in> set (behind g)"
    have "q \<in> set (eligible g namespace)"
    proof (cases "filter (\<lambda>p. p_url p \<notin> set (behind g)) ?live = []")
      case True
      then show ?thesis using q(1) by (simp add: eligible_def Let_def)
    next
      case False
      then have "p_url p \<notin> set (behind g)" using m(1) by (simp add: eligible_def Let_def)
      then show ?thesis using q False by (simp add: eligible_def Let_def)
    qed
    then show "weigh sha256 v (p_url q) \<le> weigh sha256 v (p_url p)" using m(2) by blast
  qed
  show "Galaxy_reader_for sha256 (fst (Galaxy_remove_peer g u)) namespace v = Some p" if "clean_url u \<noteq> p_url p" for u
    using sticky_without [OF rd _ remove_other(1) [OF assms(1)]] remove_other(2) [OF assms(1)] that by metis
  show "Galaxy_reader_for sha256 (Galaxy_record g now u (Inl e)) namespace v = Some p" if "u \<noteq> p_url p" for now u e
    using sticky_without [OF rd _ record_other(1) [OF assms(1)]] record_other(2) [OF assms(1)] that by metis
qed

definition sample_settings :: galaxy_settings where
  "sample_settings = \<lparr>gs_peers = [\<lparr>p_url = ''http://a'', p_key = ''k'', p_stores = StoragePolicy_everything, p_enabled = True\<rparr>,
       \<lparr>p_url = ''http://b'', p_key = ''k'', p_stores = StoragePolicy_everything, p_enabled = True\<rparr>],
     gs_fixed = [], gs_max_hops = 4, gs_acl_authority = False, gs_verify_tls = True\<rparr>"

lemma health_of_new:
  "(\<And>u h. fmlookup m u = Some h \<Longrightarrow> ph_url h = u) \<Longrightarrow>
   fmlookup (fold (\<lambda>p. fmupd (p_url p) (PeerHealth_unprobed (p_url p))) (ps :: peer list) m) u = Some h \<Longrightarrow> ph_url h = u"
proof (induction ps arbitrary: m)
  case (Cons p ps)
  have "ph_url h' = u'" if "fmlookup (fmupd (p_url p) (PeerHealth_unprobed (p_url p)) m) u' = Some h'" for u' h'
    using that Cons.prems(1) by (cases "u' = p_url p") (auto simp: PeerHealth_unprobed_def)
  moreover have "fmlookup (fold (\<lambda>p. fmupd (p_url p) (PeerHealth_unprobed (p_url p))) ps (fmupd (p_url p) (PeerHealth_unprobed (p_url p)) m)) u = Some h"
    using Cons.prems(2) by simp
  ultimately show ?case by (rule Cons.IH)
qed simp

lemma galaxy_inv_new: "distinct (map p_url (gs_peers settings)) \<Longrightarrow> galaxy_inv (Galaxy_new settings)"
  unfolding galaxy_inv_def Galaxy_new_def galaxy.select_convs using health_of_new [of fmempty] by (metis fmempty_lookup option.distinct(1))

theorem reader_is_sticky_witness:
  "Galaxy_reader_for (\<lambda>_. []) (fst (Galaxy_remove_peer (Galaxy_new sample_settings) ''http://a/'')) ''feeds'' ''v'' =
     Some \<lparr>p_url = ''http://b'', p_key = ''k'', p_stores = StoragePolicy_everything, p_enabled = True\<rparr>"
proof -
  have inv: "galaxy_inv (Galaxy_new sample_settings)" by (rule galaxy_inv_new) (simp add: sample_settings_def)
  have rd: "Galaxy_reader_for (\<lambda>_. []) (Galaxy_new sample_settings) ''feeds'' ''v'' =
     Some \<lparr>p_url = ''http://b'', p_key = ''k'', p_stores = StoragePolicy_everything, p_enabled = True\<rparr>" by code_simp
  have "clean_url ''http://a/'' \<noteq> ''http://b''" by code_simp
  then show ?thesis using reader_is_sticky [OF inv rd] by simp
qed

section \<open>Passing a request on ends\<close>

lemma show_u8_header: "header_text (show_u8 w) = Some (show_u8 w)" "trim (show_u8 w) = show_u8 w" "u8_from_str (show_u8 w) = Some w"
proof -
  have digits: "\<forall>c \<in> set (show_u8 w). is_ascii_digit c" and ne: "show_u8 w \<noteq> []"
    using show_nat_shape [of "unat w"] by (auto simp: show_u8_def)
  have code: "(of_char c :: nat) = 9 \<or> 32 \<le> (of_char c :: nat) \<and> (of_char c :: nat) < 127" "plain c" if "is_ascii_digit c" for c
    using that by (auto simp: is_ascii_digit_def plain_def)
  show "header_text (show_u8 w) = Some (show_u8 w)" using digits code(1) by (simp add: header_text_def list_all_iff Let_def)
  have "plain (hd (show_u8 w))" "plain (hd (rev (show_u8 w)))"
    using digits ne code(2) by (simp_all add: hd_rev)
  then show "trim (show_u8 w) = show_u8 w"
    using ne by (intro trim_fixed) (metis list.collapse rev_is_Nil_conv ws_len_plain ws_len_rev_plain)+
  have "parse_canonical_u8 (show_u8 w) = Some w" using canonical_u8_iff show_u8_plain by blast
  then show "u8_from_str (show_u8 w) = Some w" by (simp add: parse_canonical_u8_def split: if_splits)
qed

lemma header_names:
  "\<not> eq_ignore_ascii_case ''Authorization'' HOPS_HEADER" "eq_ignore_ascii_case HOPS_HEADER HOPS_HEADER"
  "\<not> eq_ignore_ascii_case ''Authorization'' ORIGIN_HEADER" "\<not> eq_ignore_ascii_case HOPS_HEADER ORIGIN_HEADER"
  "eq_ignore_ascii_case ORIGIN_HEADER ORIGIN_HEADER"
  by code_simp+

lemma hops_left_sent: "hops_left (sent_headers key hops origin body) m = (if hops - 1 > 0 then Some (hops - 1) else None)"
proof -
  have "header_of (sent_headers key hops origin body) HOPS_HEADER = Some (show_u8 (hops - 1))"
    by (simp add: header_of_def sent_headers_def header_names)
  then show ?thesis by (simp add: hops_left_def show_u8_header)
qed

text \<open>
  A request on its way: each server it reaches reads its budget, with its own limit if it came from a client,
  and passes it on if any is left, to any peer and with any key.
\<close>

inductive passed_on :: "u8 list \<Rightarrow> (string \<times> string) list \<Rightarrow> (string \<times> string) list \<Rightarrow> bool" where
  arrived: "passed_on [] headers headers"
| hop: "hops_left headers m = Some hops \<Longrightarrow> hops \<noteq> 0 \<Longrightarrow> passed_on ms (sent_headers key hops origin body) headers'
     \<Longrightarrow> passed_on (m # ms) headers headers'"

inductive_cases passed_onE: "passed_on (m # ms) headers headers'"

lemma budget_bounds: "passed_on ms headers headers' \<Longrightarrow> hops_left headers m = Some hops \<Longrightarrow> ms \<noteq> [] \<Longrightarrow>
    header_of headers HOPS_HEADER \<noteq> None \<or> hd ms = m \<Longrightarrow> length ms \<le> unat hops"
proof (induction arbitrary: m hops rule: passed_on.induct)
  case (hop headers m' k ms key origin body headers')
  have k: "k = hops" using hop.hyps(1) hop.prems(1,3) by (cases "header_of headers HOPS_HEADER") (auto simp: hops_left_def)
  show ?case
  proof (cases "ms = []")
    case True
    then show ?thesis using hop.hyps(2) k by (simp add: Suc_le_eq unat_gt_0)
  next
    case False
    have "hops_left (sent_headers key k origin body) x = Some (k - 1)" for x
      using hop.hyps(3) False by (cases rule: passed_on.cases) (auto simp: hops_left_sent split: if_splits)
    moreover have "header_of (sent_headers key k origin body) HOPS_HEADER \<noteq> None"
      by (simp add: header_of_def sent_headers_def header_names)
    ultimately have "length ms \<le> unat (k - 1)" using hop.IH [of m "k - 1"] False by blast
    moreover have "unat (k - 1) = unat k - 1" using hop.hyps(2) by (simp add: unat_minus_one)
    moreover have "0 < unat k" using hop.hyps(2) by (simp add: unat_gt_0)
    ultimately show ?thesis using k by simp
  qed
qed simp



section \<open>A write reaches every mirror or is refused\<close>

text \<open>The network, with a log of every request that left the server.\<close>

definition logged :: "'w network \<Rightarrow> (http_request list \<times> 'w) network" where
  "logged net = \<lparr>client_builds = client_builds net,
     request = (\<lambda>r (log, w). let (w, answer) = request net r w in ((log @ [r], w), answer))\<rparr>"

definition request_to :: "peer \<Rightarrow> http_method \<Rightarrow> string \<Rightarrow> string option \<Rightarrow> u8 \<Rightarrow> string \<Rightarrow> http_request" where
  "request_to p method path body hops origin =
     \<lparr>rq_method = method, rq_url = p_url p @ path, rq_headers = sent_headers (p_key p) hops origin body, rq_body = body\<rparr>"

lemma send_logs:
  assumes "client_builds net (g_verify_tls g)" "Galaxy_send (logged net) g (log, w) p method path body hops origin = (lw, r)"
  shows "\<exists>w'. lw = (log @ [request_to p method path body hops origin], w')"
  using assms by (auto simp: Galaxy_send_def logged_def request_to_def sent_headers_def Let_def split: prod.splits sum.splits)

lemma send_each_logs:
  assumes "client_builds net (g_verify_tls g)"
    and "send_each (logged net) g (log, w) peers method path body hops origin answers err = (lw, answers', err')"
  shows "(\<exists>w'. lw = (log @ map (\<lambda>p. request_to p method path body hops origin) peers, w')) \<and>
    (\<exists>more. answers' = answers @ more \<and> set (map fst more) \<subseteq> set (map p_url peers)) \<and>
    (answers' = [] \<and> peers \<noteq> [] \<longrightarrow> err' \<noteq> None) \<and> (err \<noteq> None \<longrightarrow> err' \<noteq> None)"
  using assms(2)
proof (induction peers arbitrary: log w answers err)
  case (Cons p peers)
  obtain lw1 r where s: "Galaxy_send (logged net) g (log, w) p method path body hops origin = (lw1, r)" by fastforce
  obtain w1 where lw1: "lw1 = (log @ [request_to p method path body hops origin], w1)" using send_logs [OF assms(1) s] by blast
  show ?case
  proof (cases r)
    case (Inl e)
    then have "send_each (logged net) g (log @ [request_to p method path body hops origin], w1) peers method path body hops origin answers (Some e) = (lw, answers', err')"
      using Cons.prems s lw1 by simp
    from Cons.IH [OF this] show ?thesis by (auto simp: image_subset_iff)
  next
    case (Inr a)
    then have "send_each (logged net) g (log @ [request_to p method path body hops origin], w1) peers method path body hops origin (answers @ [(p_url p, a)]) err = (lw, answers', err')"
      using Cons.prems s lw1 by simp
    from Cons.IH [OF this] show ?thesis by (auto simp: image_subset_iff)
  qed
qed auto

text \<open>
  C33. A write for a namespace stored elsewhere is never acknowledged unless a server storing it answered, and
  it is put to every such server that is in service and not known to be unreachable, once each, with that
  server's own key, one hop less and the origin unchanged. It is refused, and nothing is sent, when the budget
  is spent, when no peer stores the namespace, or when all of those are unreachable, each with its own error.
\<close>
theorem forward_write_is_safe:
  assumes "client_builds net (g_verify_tls g)"
    and "Galaxy_forward_write (logged net) g (log, w) namespace method path body hops origin = ((log', w'), r)"
  shows "(case r of
       Inr answers \<Rightarrow> answers \<noteq> [] \<and> set (map fst answers) \<subseteq> set (map p_url (Galaxy_live_holders g namespace))
     | Inl e \<Rightarrow> e = (if hops = 0 then TooManyHops else if Galaxy_holders g namespace = [] then NoHolder
                     else if Galaxy_live_holders g namespace = [] then AllDown namespace else e)) \<and>
    log' = log @ (if hops = 0 then [] else
      map (\<lambda>p. \<lparr>rq_method = method, rq_url = p_url p @ path, rq_headers = sent_headers (p_key p) hops origin body, rq_body = body\<rparr>)
        (Galaxy_live_holders g namespace))"
proof -
  let ?live = "Galaxy_live_holders g namespace"
  have sub: "Galaxy_holders g namespace = [] \<Longrightarrow> ?live = []" by (simp add: Galaxy_live_holders_def)
  show ?thesis
  proof (cases "hops = 0 \<or> ?live = []")
    case True
    then show ?thesis using assms(2) sub by (auto simp: Galaxy_forward_write_def Let_def split: if_splits)
  next
    case False
    obtain lw answers err where se: "send_each (logged net) g (log, w) ?live method path body hops origin [] None = (lw, answers, err)"
      by (metis prod_cases3)
    note logs = send_each_logs [OF assms(1) se]
    have eq: "(log', w') = lw" "r = (if answers = [] then Inl (unwrap_or err (AllDown namespace)) else Inr answers)"
      using assms(2) False se sub by (auto simp: Galaxy_forward_write_def Let_def split: if_splits)
    then have "log' = log @ map (\<lambda>p. request_to p method path body hops origin) ?live" using logs by auto
    moreover have "case r of Inr answers \<Rightarrow> answers \<noteq> [] \<and> set (map fst answers) \<subseteq> set (map p_url ?live)
      | Inl e \<Rightarrow> e = (if hops = 0 then TooManyHops else if Galaxy_holders g namespace = [] then NoHolder
                     else if ?live = [] then AllDown namespace else e)"
      using eq(2) logs False sub by (auto split: if_splits)
    ultimately show ?thesis using False by (simp add: request_to_def)
  qed
qed

theorem forward_write_is_safe_witness:
  "length (fst (fst (Galaxy_forward_write (logged \<lparr>client_builds = (\<lambda>_. True), request = (\<lambda>_ w. (w, Inl ''down''))\<rparr>)
     (Galaxy_new sample_settings) ([], ()) ''feeds'' GET ''/w/feeds?val=v'' None 4 ''local''))) = 2"
proof -
  let ?net = "\<lparr>client_builds = (\<lambda>_. True), request = (\<lambda>_ w. (w, Inl ''down''))\<rparr> :: unit network"
  obtain l u r where f: "Galaxy_forward_write (logged ?net) (Galaxy_new sample_settings) ([], ()) ''feeds'' GET ''/w/feeds?val=v'' None 4 ''local'' = ((l, u), r)"
    by (metis prod.exhaust)
  have "length (Galaxy_live_holders (Galaxy_new sample_settings) ''feeds'') = 2" by code_simp
  then show ?thesis using forward_write_is_safe [OF _ f] f by simp
qed

section \<open>Editing the peers\<close>

lemma update_first_Some:
  "update_first P f xs = Some (ys, y) \<Longrightarrow> \<exists>a x b. xs = a @ x # b \<and> P x \<and> (\<forall>z \<in> set a. \<not> P z) \<and> ys = a @ f x # b \<and> y = f x"
proof (induction xs arbitrary: ys)
  case (Cons z xs)
  show ?case
  proof (cases "P z")
    case True
    then show ?thesis using Cons.prems by (intro exI [of _ "[]"]) auto
  next
    case False
    then obtain zs where zs: "update_first P f xs = Some (zs, y)" "ys = z # zs" using Cons.prems by (auto split: option.splits)
    obtain a x b where "xs = a @ x # b" "P x" "\<forall>z \<in> set a. \<not> P z" "zs = a @ f x # b" "y = f x" using Cons.IH [OF zs(1)] by blast
    then show ?thesis using zs(2) False by (intro exI [of _ "z # a"]) auto
  qed
qed simp

lemma update_first_None: "update_first P f xs = None \<longleftrightarrow> (\<forall>x \<in> set xs. \<not> P x)"
  by (induction xs) (auto split: option.splits)

lemma filter_others_shorter: "length (filter (\<lambda>p. p_url p \<noteq> u) xs) \<noteq> length xs \<longleftrightarrow> u \<in> p_url ` set xs"
proof (induction xs)
  case (Cons x xs)
  have "length (filter (\<lambda>p. p_url p \<noteq> u) xs) < Suc (length xs)" by (simp add: less_Suc_eq_le)
  then show ?case using Cons.IH by (cases "p_url x = u") auto
qed simp

text \<open>
  Editing the peers keeps every address unique. A peer is added only under a cleaned address that is not
  there yet, not declared in the configuration and not this server's own, and with a key; otherwise nothing
  changes. Removing takes out the peer and what was known of it, and answers whether there was one. Taking a
  peer out of service keeps its place and its settings, and no request is sent to it from then on.
\<close>
theorem peer_edits_keep:
  assumes "galaxy_inv g"
  shows "(case Galaxy_add_peer g given own of
       (g', Inr p) \<Rightarrow> galaxy_inv g' \<and> g_peers g' = g_peers g @ [p] \<and> p_url p = clean_url (p_url given) \<and>
          p_url p \<notin> p_url ` set (g_peers g) \<and> \<not> Galaxy_is_fixed g (p_url p) \<and> \<not> is_own_address (p_url p) own \<and> p_key p \<noteq> []
     | (g', Inl _) \<Rightarrow> g' = g) \<and>
    (case Galaxy_remove_peer g url of (g', removed) \<Rightarrow>
       galaxy_inv g' \<and> (removed \<longleftrightarrow> clean_url url \<in> p_url ` set (g_peers g)) \<and>
       g_peers g' = filter (\<lambda>p. p_url p \<noteq> clean_url url) (g_peers g) \<and> (removed \<longrightarrow> fmlookup (g_health g') (clean_url url) = None)) \<and>
    (case Galaxy_set_enabled g url on of
       (g', Some p) \<Rightarrow> galaxy_inv g' \<and> map p_url (g_peers g') = map p_url (g_peers g) \<and> p_url p = clean_url url \<and>
          (\<forall>q \<in> set (g_peers g'). p_url q = clean_url url \<longrightarrow> q = p \<and> p_enabled q = on) \<and>
          (\<not> on \<longrightarrow> (\<forall>q namespace. q \<in> set (Galaxy_peers g') \<union> set (Galaxy_live_holders g' namespace) \<longrightarrow> p_url q \<noteq> clean_url url))
     | (g', None) \<Rightarrow> g' = g \<and> clean_url url \<notin> p_url ` set (g_peers g))"
proof (intro conjI)
  have tail: "galaxy_inv (g\<lparr>g_peers := g_peers g @ [p]\<rparr>)" if "p_url p \<notin> p_url ` set (g_peers g)" for p
    using that assms by (simp add: galaxy_inv_def)
  show "case Galaxy_add_peer g given own of
       (g', Inr p) \<Rightarrow> galaxy_inv g' \<and> g_peers g' = g_peers g @ [p] \<and> p_url p = clean_url (p_url given) \<and>
          p_url p \<notin> p_url ` set (g_peers g) \<and> \<not> Galaxy_is_fixed g (p_url p) \<and> \<not> is_own_address (p_url p) own \<and> p_key p \<noteq> []
     | (g', Inl _) \<Rightarrow> g' = g"
    by (auto simp: Galaxy_add_peer_def Let_def list_ex_iff intro!: tail)
  note gone = filter_others_shorter [of "clean_url url" "g_peers g"]
  show "case Galaxy_remove_peer g url of (g', removed) \<Rightarrow>
       galaxy_inv g' \<and> (removed \<longleftrightarrow> clean_url url \<in> p_url ` set (g_peers g)) \<and>
       g_peers g' = filter (\<lambda>p. p_url p \<noteq> clean_url url) (g_peers g) \<and> (removed \<longrightarrow> fmlookup (g_health g') (clean_url url) = None)"
    using galaxy_inv_remove [OF assms, of url] gone by (simp add: Galaxy_remove_peer_def Let_def split: if_splits)
  show "case Galaxy_set_enabled g url on of
       (g', Some p) \<Rightarrow> galaxy_inv g' \<and> map p_url (g_peers g') = map p_url (g_peers g) \<and> p_url p = clean_url url \<and>
          (\<forall>q \<in> set (g_peers g'). p_url q = clean_url url \<longrightarrow> q = p \<and> p_enabled q = on) \<and>
          (\<not> on \<longrightarrow> (\<forall>q namespace. q \<in> set (Galaxy_peers g') \<union> set (Galaxy_live_holders g' namespace) \<longrightarrow> p_url q \<noteq> clean_url url))
     | (g', None) \<Rightarrow> g' = g \<and> clean_url url \<notin> p_url ` set (g_peers g)"
  proof (cases "update_first (\<lambda>p. p_url p = clean_url url) (\<lambda>p. p\<lparr>p_enabled := on\<rparr>) (g_peers g)")
    case None
    then have "Galaxy_set_enabled g url on = (g, None)" by (simp add: Galaxy_set_enabled_def Let_def)
    then show ?thesis using None by (auto simp: update_first_None)
  next
    case (Some r)
    then obtain ys y where r: "r = (ys, y)" by fastforce
    then obtain a x b where ab: "g_peers g = a @ x # b" "p_url x = clean_url url" "ys = a @ x\<lparr>p_enabled := on\<rparr> # b" "y = x\<lparr>p_enabled := on\<rparr>"
      using update_first_Some Some by fast
    have se: "Galaxy_set_enabled g url on = (g\<lparr>g_peers := ys, g_health := fmdrop (clean_url url) (g_health g)\<rparr>, Some y)"
      using Some r by (simp add: Galaxy_set_enabled_def Let_def)
    have only: "q = y" if "q \<in> set ys" "p_url q = clean_url url" for q
    proof -
      have "clean_url url \<notin> p_url ` set a" "clean_url url \<notin> p_url ` set b" using ab(1,2) assms by (auto simp: galaxy_inv_def)
      then have "q \<notin> set a" "q \<notin> set b" using that(2) by (metis imageI)+
      then show ?thesis using that(1) ab(3,4) by simp
    qed
    let ?g = "g\<lparr>g_peers := ys, g_health := fmdrop (clean_url url) (g_health g)\<rparr>"
    have urls: "map p_url ys = map p_url (g_peers g)" using ab(1,3) by simp
    have "galaxy_inv ?g" using assms urls unfolding galaxy_inv_def by (simp split: if_splits)
    moreover have "\<forall>q \<in> set (g_peers ?g). p_url q = clean_url url \<longrightarrow> q = y \<and> p_enabled q = on"
    proof (intro ballI impI)
      fix q assume "q \<in> set (g_peers ?g)" "p_url q = clean_url url"
      then have "q = y" using only by simp
      then show "q = y \<and> p_enabled q = on" using ab(4) by simp
    qed
    moreover have "p_url q \<noteq> clean_url url" if "\<not> on" "q \<in> set (Galaxy_peers ?g) \<union> set (Galaxy_live_holders ?g namespace)" for q namespace
    proof
      assume u: "p_url q = clean_url url"
      have "q \<in> set ys" "p_enabled q" using that(2) by (auto simp: Galaxy_peers_def live_holders_iff)
      then show False using only [OF _ u] ab(4) that(1) by simp
    qed
    moreover have "map p_url (g_peers ?g) = map p_url (g_peers g)" "p_url y = clean_url url" using urls ab(2,4) by simp_all
    ultimately show ?thesis unfolding se by simp
  qed
qed

theorem peer_edits_keep_witness:
  "snd (Galaxy_remove_peer (Galaxy_new sample_settings) ''http://a/'')"
proof -
  have inv: "galaxy_inv (Galaxy_new sample_settings)" by (rule galaxy_inv_new) (simp add: sample_settings_def)
  obtain g' removed where r: "Galaxy_remove_peer (Galaxy_new sample_settings) ''http://a/'' = (g', removed)" by fastforce
  have "clean_url ''http://a/'' \<in> p_url ` set (g_peers (Galaxy_new sample_settings))" by code_simp
  then show ?thesis
    using peer_edits_keep [OF inv, THEN conjunct2, THEN conjunct1, of "''http://a/''"] r by simp
qed

end
