(* ===== verification/Sync.thy ===== *)
theory Sync
  imports Galaxy
begin

text \<open>
  Catching up: the part of \<^verbatim>\<open>src/src/galaxy.rs\<close> in which a server asks its peers what it missed and merges
  their copies into its own, and rebuilds its consensus tally from what the galaxy holds. Reading a page of
  offers out of a peer's answer is the parameter \<open>offers_in\<close>, and reading JSON is \<open>json_in\<close>. A pass over a peer
  that keeps offering more is a loop that may run forever, so these operations are optional: \<open>None\<close> is not
  returning.
\<close>

section \<open>Offers\<close>

record merge_offer =
  mo_value :: string
  mo_counts :: "(string, u64) fmap"
  mo_stats :: "(string, (int, u64) fmap) fmap"
  mo_first_seen :: int
  mo_last_seen :: int
  mo_tags :: string
  mo_tags_at :: int
  mo_ttl :: u64

definition MergeOfferItem_state :: "merge_offer \<Rightarrow> merge_data" where
  "MergeOfferItem_state offer = \<lparr>m_counts = mo_counts offer, m_stats = mo_stats offer, m_first_seen = mo_first_seen offer,
     m_last_seen = mo_last_seen offer, m_tags = mo_tags offer, m_tags_at = mo_tags_at offer, m_ttl = mo_ttl offer\<rparr>"

record offer_page =
  op_items :: "merge_offer list"
  op_total :: nat

definition page_path :: "string \<Rightarrow> nat \<Rightarrow> string" where
  "page_path namespace offset = ''/r/'' @ namespace @ ''?for_merge&offset='' @ show_nat offset @ ''&limit=500''"

definition Galaxy_namespaces_of ::
  "(string \<Rightarrow> string + json) \<Rightarrow> 'w network \<Rightarrow> galaxy \<Rightarrow> 'w \<Rightarrow> peer \<Rightarrow> 'w \<times> (forward_error + string list)" where
  "Galaxy_namespaces_of json_in net g w p =
     (case Galaxy_send net g w p GET ''/_api/namespaces'' None 1 [] of
        (w, Inl e) \<Rightarrow> (w, Inl e)
      | (w, Inr answer) \<Rightarrow>
          if \<not> is_success (fw_status answer)
          then (w, Inl (Unreachable (''listing namespaces answered '' @ show_nat (fw_status answer))))
          else case json_in (fw_body answer) of
                 Inl e \<Rightarrow> (w, Inl (Unreachable e))
               | Inr parsed \<Rightarrow>
                   (w, Inr (case json_get parsed ''namespaces'' of
                              Some (JArr items) \<Rightarrow> List.map_filter (\<lambda>x. case x of JStr s \<Rightarrow> Some s | _ \<Rightarrow> None) items
                            | _ \<Rightarrow> [])))"

definition matches_prefix :: "string list \<Rightarrow> string \<Rightarrow> bool" where
  "matches_prefix prefixes name =
     list_ex (\<lambda>given. let prefix = trim_matches CHR ''/'' given
        in prefix = [] \<or> name = prefix \<or>
           (case strip_prefix name prefix of None \<Rightarrow> False | Some rest \<Rightarrow> starts_with rest ''/'')) prefixes"

fun push_names :: "string list \<Rightarrow> string list \<Rightarrow> string list \<Rightarrow> string list" where
  "push_names prefixes [] found = found"
| "push_names prefixes (name # names) found =
     push_names prefixes names
       (if matches_prefix prefixes name \<and> name \<notin> set found then found @ [name] else found)"

fun namespaces_under_loop ::
  "(string \<Rightarrow> string + json) \<Rightarrow> 'w network \<Rightarrow> galaxy \<Rightarrow> 'w \<Rightarrow> peer list \<Rightarrow> string list \<Rightarrow> string list \<Rightarrow> 'w \<times> string list" where
  "namespaces_under_loop json_in net g w [] prefixes found = (w, found)"
| "namespaces_under_loop json_in net g w (p # peers) prefixes found =
     (case Galaxy_namespaces_of json_in net g w p of
        (w, Inl _) \<Rightarrow> namespaces_under_loop json_in net g w peers prefixes found
      | (w, Inr names) \<Rightarrow> namespaces_under_loop json_in net g w peers prefixes (push_names prefixes names found))"

definition Galaxy_namespaces_under ::
  "(string \<Rightarrow> string + json) \<Rightarrow> 'w network \<Rightarrow> galaxy \<Rightarrow> 'w \<Rightarrow> string list \<Rightarrow> 'w \<times> string list" where
  "Galaxy_namespaces_under json_in net g w prefixes =
     namespaces_under_loop json_in net g w (Galaxy_peers g) prefixes []"

section \<open>Catching up\<close>

definition Galaxy_behind_on ::
  "(string \<Rightarrow> string + json) \<Rightarrow> 'w network \<Rightarrow> galaxy \<Rightarrow> 'f env \<Rightarrow> 'f disk \<Rightarrow> datetime \<Rightarrow> 'w \<Rightarrow> database \<Rightarrow> peer \<Rightarrow> string
    \<Rightarrow> 'w \<times> database \<times> bool" where
  "Galaxy_behind_on json_in net g env disk now w db p namespace =
     (case Galaxy_send net g w p GET (''/r/'' @ namespace @ ''?count'') None 1 [] of
        (w, Inl _) \<Rightarrow> (w, db, False)
      | (w, Inr answer) \<Rightarrow>
          (case json_in (fw_body answer) of
             Inl _ \<Rightarrow> (w, db, False)
           | Inr parsed \<Rightarrow>
               let theirs = (case json_get parsed ''values'' of
                               Some (JNum n) \<Rightarrow> if 0 \<le> n \<and> n < 2 ^ 64 then n else 0 | _ \<Rightarrow> 0);
                   (db, count) = Database_value_count env disk now db namespace;
                   mine = (case count of None \<Rightarrow> 0 | Some c \<Rightarrow> int (vc_values c))
               in (w, db, theirs > mine)))"

fun merge_offers ::
  "(int \<Rightarrow> datetime option) \<Rightarrow> 'f env \<Rightarrow> 'f disk \<Rightarrow> datetime \<Rightarrow> database \<Rightarrow> string \<Rightarrow> merge_offer list \<Rightarrow> nat \<Rightarrow> database \<times> nat" where
  "merge_offers ft env disk now db namespace [] merged = (db, merged)"
| "merge_offers ft env disk now db namespace (offer # offers) merged =
     (let (db, outcome) = Database_merge ft env disk now db namespace (mo_value offer) (MergeOfferItem_state offer)
      in merge_offers ft env disk now db namespace offers (if changed outcome then merged + 1 else merged))"

partial_function (option) pull_loop ::
  "(string \<Rightarrow> string + offer_page) \<Rightarrow> (int \<Rightarrow> datetime option) \<Rightarrow> 'w network \<Rightarrow> galaxy \<Rightarrow> 'f env \<Rightarrow> 'f disk \<Rightarrow> datetime \<Rightarrow> peer \<Rightarrow> string
    \<Rightarrow> 'w \<Rightarrow> database \<Rightarrow> nat \<Rightarrow> nat \<Rightarrow> ('w \<times> database \<times> nat) option" where
  "pull_loop offers_in ft net g env disk now p namespace w db offset merged =
     (let (w, answer) = Galaxy_send net g w p GET (page_path namespace offset) None 1 []
      in case (case answer of Inr a \<Rightarrow> if is_success (fw_status a) then offers_in (fw_body a) else Inl [] | Inl _ \<Rightarrow> Inl []) of
           Inl _ \<Rightarrow> Some (w, db, merged)
         | Inr page \<Rightarrow>
             let (db, merged) = merge_offers ft env disk now db namespace (op_items page) merged;
                 taken = length (op_items page)
             in if taken = 0 \<or> offset + taken \<ge> op_total page then Some (w, db, merged)
                else pull_loop offers_in ft net g env disk now p namespace w db (offset + taken) merged)"

definition Galaxy_pull_namespace ::
  "(string \<Rightarrow> string + offer_page) \<Rightarrow> (int \<Rightarrow> datetime option) \<Rightarrow> 'w network \<Rightarrow> galaxy \<Rightarrow> 'f env \<Rightarrow> 'f disk \<Rightarrow> datetime \<Rightarrow> 'w \<Rightarrow> database
    \<Rightarrow> peer \<Rightarrow> string \<Rightarrow> ('w \<times> database \<times> nat) option" where
  "Galaxy_pull_namespace offers_in ft net g env disk now w db p namespace =
     pull_loop offers_in ft net g env disk now p namespace w db 0 0"

record caught_up =
  cu_namespaces :: nat
  cu_merged :: nat

fun catch_up_names ::
  "(string \<Rightarrow> string + json) \<Rightarrow> (string \<Rightarrow> string + offer_page) \<Rightarrow> (int \<Rightarrow> datetime option) \<Rightarrow> 'w network \<Rightarrow> galaxy \<Rightarrow> 'f env \<Rightarrow> 'f disk
    \<Rightarrow> datetime \<Rightarrow> bool \<Rightarrow> peer \<Rightarrow> string list \<Rightarrow> 'w \<Rightarrow> database \<Rightarrow> caught_up \<Rightarrow> ('w \<times> database \<times> caught_up) option" where
  "catch_up_names json_in offers_in ft net g env disk now full p [] w db report = Some (w, db, report)"
| "catch_up_names json_in offers_in ft net g env disk now full p (namespace # names) w db report =
     (if \<not> StoragePolicy_holds (db_stores db) namespace \<or> is_internal namespace
      then catch_up_names json_in offers_in ft net g env disk now full p names w db report
      else let report = report\<lparr>cu_namespaces := cu_namespaces report + 1\<rparr>;
               (w, db, go) = (if full then (w, db, True) else Galaxy_behind_on json_in net g env disk now w db p namespace)
           in if \<not> go then catch_up_names json_in offers_in ft net g env disk now full p names w db report
              else case Galaxy_pull_namespace offers_in ft net g env disk now w db p namespace of
                     None \<Rightarrow> None
                   | Some (w, db, n) \<Rightarrow>
                       catch_up_names json_in offers_in ft net g env disk now full p names w db
                         (report\<lparr>cu_merged := cu_merged report + n\<rparr>))"

fun catch_up_peers ::
  "(string \<Rightarrow> string + json) \<Rightarrow> (string \<Rightarrow> string + offer_page) \<Rightarrow> (int \<Rightarrow> datetime option) \<Rightarrow> 'w network \<Rightarrow> galaxy \<Rightarrow> 'f env \<Rightarrow> 'f disk
    \<Rightarrow> datetime \<Rightarrow> bool \<Rightarrow> peer list \<Rightarrow> 'w \<Rightarrow> database \<Rightarrow> caught_up \<Rightarrow> ('w \<times> database \<times> caught_up) option" where
  "catch_up_peers json_in offers_in ft net g env disk now full [] w db report = Some (w, db, report)"
| "catch_up_peers json_in offers_in ft net g env disk now full (p # peers) w db report =
     (case Galaxy_namespaces_of json_in net g w p of
        (w, Inl _) \<Rightarrow> catch_up_peers json_in offers_in ft net g env disk now full peers w db report
      | (w, Inr names) \<Rightarrow>
          (case catch_up_names json_in offers_in ft net g env disk now full p names w db report of
             None \<Rightarrow> None
           | Some (w, db, report) \<Rightarrow> catch_up_peers json_in offers_in ft net g env disk now full peers w db report))"

definition Galaxy_catch_up ::
  "(string \<Rightarrow> string + json) \<Rightarrow> (string \<Rightarrow> string + offer_page) \<Rightarrow> (int \<Rightarrow> datetime option) \<Rightarrow> 'w network \<Rightarrow> galaxy \<Rightarrow> 'f env \<Rightarrow> 'f disk
    \<Rightarrow> datetime \<Rightarrow> bool \<Rightarrow> 'w \<Rightarrow> database \<Rightarrow> ('w \<times> database \<times> caught_up) option" where
  "Galaxy_catch_up json_in offers_in ft net g env disk now full w db =
     catch_up_peers json_in offers_in ft net g env disk now full (Galaxy_peers g) w db \<lparr>cu_namespaces = 0, cu_merged = 0\<rparr>"

section \<open>Rebuilding the consensus tally\<close>

record reconciled =
  rc_namespaces :: nat
  rc_values :: nat
  rc_corrected :: nat

fun note_holders :: "string \<Rightarrow> merge_offer list \<Rightarrow> (string, string fset) fmap \<Rightarrow> (string, string fset) fmap" where
  "note_holders namespace [] held = held"
| "note_holders namespace (offer # offers) held =
     note_holders namespace offers
       (fmupd (mo_value offer) (finsert namespace (fm_get {||} held (mo_value offer))) held)"

text \<open>The pages of one namespace. A failure ends the whole rebuild; a refusal ends the namespace.\<close>

partial_function (option) holders_loop ::
  "(string \<Rightarrow> string + offer_page) \<Rightarrow> 'w network \<Rightarrow> galaxy \<Rightarrow> peer \<Rightarrow> string \<Rightarrow> 'w \<Rightarrow> nat \<Rightarrow> (string, string fset) fmap
    \<Rightarrow> ('w \<times> (forward_error + (string, string fset) fmap)) option" where
  "holders_loop offers_in net g p namespace w offset held =
     (let (w, answer) = Galaxy_send net g w p GET (page_path namespace offset) None 1 []
      in case answer of
           Inl e \<Rightarrow> Some (w, Inl e)
         | Inr a \<Rightarrow>
             if \<not> is_success (fw_status a) then Some (w, Inr held)
             else (case offers_in (fw_body a) of
                     Inl e \<Rightarrow> Some (w, Inl (Unreachable e))
                   | Inr page \<Rightarrow>
                       let taken = length (op_items page); held = note_holders namespace (op_items page) held
                       in if taken = 0 \<or> offset + taken \<ge> op_total page then Some (w, Inr held)
                          else holders_loop offers_in net g p namespace w (offset + taken) held))"

fun rebuild_names ::
  "(string \<Rightarrow> string + offer_page) \<Rightarrow> 'w network \<Rightarrow> galaxy \<Rightarrow> peer \<Rightarrow> string list \<Rightarrow> 'w \<Rightarrow> (string, string fset) fmap \<Rightarrow> string fset
    \<Rightarrow> ('w \<times> (forward_error + (string, string fset) fmap \<times> string fset)) option" where
  "rebuild_names offers_in net g p [] w held seen = Some (w, Inr (held, seen))"
| "rebuild_names offers_in net g p (namespace # names) w held seen =
     (if \<not> counts_towards_consensus namespace \<or> namespace |\<in>| seen
      then rebuild_names offers_in net g p names w held seen
      else case holders_loop offers_in net g p namespace w 0 held of
             None \<Rightarrow> None
           | Some (w, Inl e) \<Rightarrow> Some (w, Inl e)
           | Some (w, Inr held) \<Rightarrow> rebuild_names offers_in net g p names w held (finsert namespace seen))"

fun rebuild_peers ::
  "(string \<Rightarrow> string + json) \<Rightarrow> (string \<Rightarrow> string + offer_page) \<Rightarrow> 'w network \<Rightarrow> galaxy \<Rightarrow> peer list \<Rightarrow> 'w \<Rightarrow> (string, string fset) fmap
    \<Rightarrow> string fset \<Rightarrow> ('w \<times> (forward_error + (string, string fset) fmap \<times> string fset)) option" where
  "rebuild_peers json_in offers_in net g [] w held seen = Some (w, Inr (held, seen))"
| "rebuild_peers json_in offers_in net g (p # peers) w held seen =
     (case Galaxy_namespaces_of json_in net g w p of
        (w, Inl e) \<Rightarrow> Some (w, Inl e)
      | (w, Inr names) \<Rightarrow>
          (case rebuild_names offers_in net g p names w held seen of
             None \<Rightarrow> None
           | Some (w, Inl e) \<Rightarrow> Some (w, Inl e)
           | Some (w, Inr (held, seen)) \<Rightarrow> rebuild_peers json_in offers_in net g peers w held seen))"

definition Galaxy_rebuild_consensus ::
  "(string \<Rightarrow> string + json) \<Rightarrow> (string \<Rightarrow> string + offer_page) \<Rightarrow> 'w network \<Rightarrow> galaxy \<Rightarrow> 'f env \<Rightarrow> 'f disk \<Rightarrow> datetime \<Rightarrow> 'w \<Rightarrow> database
    \<Rightarrow> ('w \<times> database \<times> (forward_error + reconciled)) option" where
  "Galaxy_rebuild_consensus json_in offers_in net g env disk now w db =
     (case rebuild_peers json_in offers_in net g (Galaxy_peers g) w fmempty {||} of
        None \<Rightarrow> None
      | Some (w, Inl e) \<Rightarrow> Some (w, db, Inl e)
      | Some (w, Inr (held, seen)) \<Rightarrow>
          let (db, corrected) = Database_set_consensus env disk now db held
          in Some (w, db, Inr \<lparr>rc_namespaces = fcard seen, rc_values = fm_size held, rc_corrected = corrected\<rparr>))"

section \<open>What a merge does\<close>

text \<open>A merge of a peer's copy, on the logical contents: the copy in memory may be finer than a second.\<close>

definition merged_in :: "logical \<Rightarrow> string \<Rightarrow> string \<Rightarrow> attribute \<Rightarrow> logical" where
  "merged_in C path v a = C(path := Some (fmupd v (stored_attr a) (values_of C path)))"

lemma merge_sound: "ns_sound ns \<Longrightarrow> ns_sound (fst (Namespace_merge ft ns node v m))"
  using ns_inv_merge [of ns ft node v m]
  by (auto simp: ns_sound_def Namespace_merge_fst merge_fields fm_get_def Attribute_new_def split: option.splits if_splits)

lemma merge_effect:
  assumes inv: "db_inv_upto env disk X db" and eq: "Database_merge ft env disk now db path v m = (db', out)"
  shows "\<exists>a. stored_attr a = fm_get (Attribute_new v) (values_of (contents env disk db) path) v \<and>
    contents env disk db' =
      (let C1 = merged_in (contents env disk db) path v (merge_into ft (db_node db) a m)
       in if fmlookup (values_of (contents env disk db) path) v = None \<and> counts_towards_consensus path
          then sighted_by db C1 (db_node db) ALL_NAMESPACE v now WriteOpts_default [] else C1) \<and>
    same_setup db' db \<and> db_inv_upto env disk (insert (shard_of path) X) db' \<and> (changed out \<longrightarrow> db_inv_upto env disk X db')"
proof -
  let ?C = "contents env disk db"
  obtain db1 ns where noc: "Database_namespace_or_create env disk now db path = (db1, ns)" by fastforce
  obtain ns' out' is_new where mg: "Namespace_merge ft ns (db_node db1) v m = (ns', out', is_new)" by (metis prod_cases3)
  note n = namespace_or_create [OF inv noc]
  let ?a = "fm_get (Attribute_new v) (ns_values ns) v"
  have vals: "fmmap stored_attr (ns_values ns) = values_of ?C path" using n by (simp add: values_of_def)
  have node: "db_node db1 = db_node db" using n by (simp add: same_setup_def)
  have a: "stored_attr ?a = fm_get (Attribute_new v) (values_of ?C path) v" unfolding vals [symmetric] fm_get_stored ..
  have ns': "fst (Namespace_merge ft ns (db_node db1) v m) = ns'" using mg by simp
  have val': "ns_values ns' = fmupd v (merge_into ft (db_node db) ?a m) (ns_values ns)"
    unfolding ns' [symmetric] by (simp add: Namespace_merge_fst node)
  have new: "is_new \<longleftrightarrow> fmlookup (values_of ?C path) v = None"
    using mg unfolding vals [symmetric] by (auto simp: Namespace_merge_def Let_def fm_contains_def split: prod.splits if_splits)
  have snd: "ns_sound ns'" using merge_sound [of ns ft "db_node db1" v m] n ns' by simp
  let ?db2 = "put_namespace db1 path ns'"
  have inv1: "db_inv_upto env disk (insert (shard_of path) X) db1" and mem: "fmlookup (db_namespaces db1) path = Some ns" using n by simp_all
  have two: "db_inv_upto env disk (insert (shard_of path) X) ?db2"
    "contents env disk ?db2 = (contents env disk db1)(path := Some (fmmap stored_attr (ns_values ns')))" "same_setup ?db2 db1"
    using put_in_memory [OF inv1 mem snd] by simp_all
  have "fmmap stored_attr (ns_values ns') = fmupd v (stored_attr (merge_into ft (db_node db) ?a m)) (values_of ?C path)"
    unfolding val' vals [symmetric] by (rule fmap_ext) simp
  then have C2: "contents env disk ?db2 = merged_in ?C path v (merge_into ft (db_node db) ?a m)"
    using two(2) n by (simp add: merged_in_def)
  have set2: "same_setup ?db2 db" using two(3) n by (auto intro: same_setup_trans)
  obtain db3 w where wr: "Database_record_write env disk now ?db2 (db_node ?db2) ALL_NAMESPACE v now WriteOpts_default [] = (db3, w)" by fastforce
  have three: "db_inv_upto env disk (insert (shard_of path) X) db3" "same_setup db3 ?db2"
    "contents env disk db3 = sighted_by ?db2 (contents env disk ?db2) (db_node ?db2) ALL_NAMESPACE v now WriteOpts_default []"
    using record_write_plain [OF two(1) _ wr] by (simp_all add: WriteOpts_default_def)
  define db4 where "db4 = (if is_new \<and> counts_towards_consensus path then db3 else ?db2)"
  have four: "db_inv_upto env disk (insert (shard_of path) X) db4" "same_setup db4 db"
    using two three set2 by (auto simp: db4_def intro: same_setup_trans)
  have "sighted_by ?db2 = sighted_by db" "db_node ?db2 = db_node db" using sighted_by_cong [OF set2] set2 by (simp_all add: same_setup_def)
  then have C4: "contents env disk db4 = (let C1 = merged_in ?C path v (merge_into ft (db_node db) ?a m)
       in if fmlookup (values_of ?C path) v = None \<and> counts_towards_consensus path
          then sighted_by db C1 (db_node db) ALL_NAMESPACE v now WriteOpts_default [] else C1)"
    using three(3) C2 new by (simp add: db4_def Let_def)
  have res: "db' = (if changed out' then Database_mark_dirty db4 path else db4)" "out = out'"
    using eq noc mg wr by (auto simp: Database_merge_def Let_def Database_write_def Database_write_tagged_def db4_def split: prod.splits if_splits)
  note md = mark_dirty [OF four(1)]
  show ?thesis
  proof (cases "changed out'")
    case True
    then show ?thesis using a C4 md four res
      by (intro exI [of _ ?a]) (auto intro: same_setup_trans inv_mono)
  next
    case False
    then show ?thesis using a C4 four res by (intro exI [of _ ?a]) auto
  qed
qed

lemma consensus_ok_same:
  assumes "\<And>v. holders C' v = holders C v" "values_of C' ALL_NAMESPACE = values_of C ALL_NAMESPACE"
  shows "consensus_ok node C' = consensus_ok node C"
  using assms by (simp add: consensus_ok_def tallied_def)

lemma holders_merged:
  assumes "counts_towards_consensus path"
  shows "holders (merged_in C path v a) w = (if w = v then insert path (holders C v) else holders C w)"
  using assms by (auto simp: holders_def merged_in_def values_of_upd)

lemma merged_all: "counts_towards_consensus path \<Longrightarrow> values_of (merged_in C path v a) ALL_NAMESPACE = values_of C ALL_NAMESPACE"
  by (auto simp: merged_in_def)

text \<open>A merged value is tallied like a written one.\<close>

lemma merge_keeps_consensus:
  assumes ok: "consensus_ok node C" and p: "counts_towards_consensus path" and fin: "finite (holders C v)"
    and bound: "card (holders C v) < 2 ^ 64 - 1"
  shows "consensus_ok node (let C1 = merged_in C path v a
       in if fmlookup (values_of C path) v = None \<and> counts_towards_consensus path
          then sighted_by db C1 node ALL_NAMESPACE v now WriteOpts_default [] else C1)"
proof (cases "fmlookup (values_of C path) v = None")
  case True
  let ?S = "sighted C node path v now None 0 []"
  let ?k = "stats_retention (db_policy_of db)"
  have all: "values_of ?S ALL_NAMESPACE = values_of C ALL_NAMESPACE" using p by (auto simp: sighted_def)
  have vals: "values_of (sighted (merged_in C path v a) node ALL_NAMESPACE v now None ?k []) ALL_NAMESPACE =
      values_of (sighted ?S node ALL_NAMESPACE v now None ?k []) ALL_NAMESPACE"
    using all merged_all [OF p, of C v a] unfolding sighted_def [of "merged_in C path v a"] sighted_def [of ?S] by simp
  have hold: "holders (sighted (merged_in C path v a) node ALL_NAMESPACE v now None ?k []) u =
      holders (sighted ?S node ALL_NAMESPACE v now None ?k []) u" for u
    by (simp add: holders_all holders_merged [OF p] holders_sighted [OF p])
  have "consensus_ok node (sighted (merged_in C path v a) node ALL_NAMESPACE v now None ?k [])"
    using consensus_first [OF ok p fin True bound, of node now None 0 "[]" ?k] consensus_ok_same [OF hold vals] by simp
  then show ?thesis using True p by (simp add: sighted_by_def all_ttl Let_def)
next
  case False
  then have "path \<in> holders C v" using p by (auto simp: holders_def fmlookup_dom'_iff)
  then have "holders (merged_in C path v a) u = holders C u" for u using holders_merged [OF p, of C v a u] by auto
  then have "consensus_ok node (merged_in C path v a)"
    using ok consensus_ok_same [of "merged_in C path v a" C node] merged_all [OF p, of C v a] by simp
  then show ?thesis unfolding Let_def using False by (simp only: False simp_thms if_False)
qed

section \<open>Taking in a peer's namespace\<close>

lemma merge_offers_append:
  "merge_offers ft env disk now db namespace (xs @ ys) n =
     (case merge_offers ft env disk now db namespace xs n of (db, n) \<Rightarrow> merge_offers ft env disk now db namespace ys n)"
  by (induction xs arbitrary: db n) (auto split: prod.split)

text \<open>An offer, as a peer's page carries it.\<close>

definition offer_of :: "string \<times> merge_data \<Rightarrow> merge_offer" where
  "offer_of = (\<lambda>(v, m). \<lparr>mo_value = v, mo_counts = m_counts m, mo_stats = m_stats m, mo_first_seen = m_first_seen m,
     mo_last_seen = m_last_seen m, mo_tags = m_tags m, mo_tags_at = m_tags_at m, mo_ttl = m_ttl m\<rparr>)"

lemma offer_state [simp]: "MergeOfferItem_state (offer_of (v, m)) = m" "mo_value (offer_of (v, m)) = v"
  by (simp_all add: MergeOfferItem_state_def offer_of_def)

text \<open>A peer that answers every page of a namespace out of what it holds of it.\<close>

definition serves ::
  "(string \<Rightarrow> string + offer_page) \<Rightarrow> 'w network \<Rightarrow> galaxy \<Rightarrow> peer \<Rightarrow> string \<Rightarrow> datetime \<Rightarrow> namespace \<Rightarrow> bool" where
  "serves offers_in net g p namespace at theirs \<longleftrightarrow>
     (\<forall>w offset. \<exists>w' a. Galaxy_send net g w p GET (page_path namespace offset) None 1 [] = (w', Inr a) \<and> is_success (fw_status a) \<and>
        offers_in (fw_body a) = Inr \<lparr>op_items = map offer_of (pg_items (Namespace_merge_page theirs offset 500 at)),
          op_total = pg_total (Namespace_merge_page theirs offset 500 at)\<rparr>)"

definition offered :: "namespace \<Rightarrow> datetime \<Rightarrow> merge_offer list" where
  "offered theirs at = map (\<lambda>(v, b). offer_of (v, Attribute_as_merge b))
     (filter (\<lambda>(_, b). \<not> Attribute_is_expired b at) (sorted_list_of_fmap (ns_values theirs)))"

lemma page_offers:
  "map offer_of (pg_items (Namespace_merge_page theirs offset 500 at)) = take 500 (drop offset (offered theirs at))"
  "pg_total (Namespace_merge_page theirs offset 500 at) = length (offered theirs at)"
  by (simp_all add: Namespace_merge_page_def offered_def Let_def take_map drop_map comp_def split_beta)

lemma pull_loop_ends:
  assumes "serves offers_in net g p namespace at theirs" "offset \<le> length (offered theirs at)"
  shows "\<exists>w'. pull_loop offers_in ft net g env disk now p namespace w db offset merged =
    Some (w', merge_offers ft env disk now db namespace (drop offset (offered theirs at)) merged)"
  using assms(2)
proof (induction "length (offered theirs at) - offset" arbitrary: offset w db merged rule: less_induct)
  case less
  let ?L = "offered theirs at"
  let ?items = "take 500 (drop offset ?L)"
  obtain w1 a where s: "Galaxy_send net g w p GET (page_path namespace offset) None 1 [] = (w1, Inr a)" "is_success (fw_status a)"
    "offers_in (fw_body a) = Inr \<lparr>op_items = ?items, op_total = length ?L\<rparr>"
    using assms(1) unfolding serves_def page_offers by blast
  obtain db1 n1 where m: "merge_offers ft env disk now db namespace ?items merged = (db1, n1)" by fastforce
  have step: "pull_loop offers_in ft net g env disk now p namespace w db offset merged =
      (if length ?items = 0 \<or> offset + length ?items \<ge> length ?L then Some (w1, db1, n1)
       else pull_loop offers_in ft net g env disk now p namespace w1 db1 (offset + length ?items) n1)"
    unfolding pull_loop.simps [of offers_in ft net g env disk now p namespace w db offset] s(1) by (simp only: Let_def split s(2,3) m sum.case if_True offer_page.select_convs)
  have split: "merge_offers ft env disk now db namespace (drop offset ?L) merged =
      merge_offers ft env disk now db1 namespace (drop 500 (drop offset ?L)) n1"
    using merge_offers_append [of ft env disk now db namespace ?items "drop 500 (drop offset ?L)" merged] m
    unfolding append_take_drop_id by simp
  show ?case
  proof (cases "length ?L \<le> offset + 500")
    case True
    then have "drop 500 (drop offset ?L) = []" "offset + length ?items \<ge> length ?L" by simp_all
    then show ?thesis using step split by simp
  next
    case False
    then have len: "length ?items = 500" by simp
    then show ?thesis
      using less.hyps [of "offset + 500" w1 db1 n1] False step split by (simp add: add.commute)
  qed
qed

text \<open>The counts a value has after taking in a copy, and everything a list of offers leaves alone.\<close>

definition counts_in :: "logical \<Rightarrow> string \<Rightarrow> string \<Rightarrow> (string, u64) fmap" where
  "counts_in C namespace v = counts (fm_get (Attribute_new v) (values_of C namespace) v)"

definition taken_in :: "string \<Rightarrow> string \<Rightarrow> merge_offer list \<Rightarrow> logical \<Rightarrow> logical \<Rightarrow> bool" where
  "taken_in mine namespace offers C C' \<longleftrightarrow>
     (\<forall>n. n \<noteq> namespace \<longrightarrow> n \<noteq> ALL_NAMESPACE \<longrightarrow> C' n = C n) \<and>
     (\<forall>v. v \<notin> mo_value ` set offers \<longrightarrow> fmlookup (values_of C' namespace) v = fmlookup (values_of C namespace) v) \<and>
     (\<forall>x \<in> set offers. mo_value x \<in> fmdom' (values_of C' namespace) \<and>
        counts_in C' namespace (mo_value x) = fm_max (counts_in C namespace (mo_value x)) (fmdrop mine (mo_counts x)))"

lemma counts_in_merged: "counts_in (merged_in C p v a) p v = counts a"
  by (simp add: counts_in_def merged_in_def fm_get_def stored_attr_def)

lemma merge_one_taken:
  assumes inv: "db_inv_upto env disk X db" and ok: "consensus_ok (db_node db) (contents env disk db)"
    and p: "counts_towards_consensus namespace" and bound: "card (holders (contents env disk db) (mo_value x)) < 2 ^ 64 - 1"
    and eq: "Database_merge ft env disk now db namespace (mo_value x) (MergeOfferItem_state x) = (db', out)"
  shows "db_inv_upto env disk (insert (shard_of namespace) X) db' \<and> consensus_ok (db_node db') (contents env disk db') \<and>
    same_setup db' db \<and> db_node db' = db_node db \<and> taken_in (db_node db) namespace [x] (contents env disk db) (contents env disk db') \<and>
    (\<forall>v. v \<noteq> mo_value x \<longrightarrow> holders (contents env disk db') v = holders (contents env disk db) v) \<and>
    holders (contents env disk db') (mo_value x) = insert namespace (holders (contents env disk db) (mo_value x))"
proof -
  let ?C = "contents env disk db" and ?v = "mo_value x"
  obtain a where a: "stored_attr a = fm_get (Attribute_new ?v) (values_of ?C namespace) ?v"
    and C': "contents env disk db' = (let C1 = merged_in ?C namespace ?v (merge_into ft (db_node db) a (MergeOfferItem_state x))
       in if fmlookup (values_of ?C namespace) ?v = None \<and> counts_towards_consensus namespace
          then sighted_by db C1 (db_node db) ALL_NAMESPACE ?v now WriteOpts_default [] else C1)"
    and rest: "same_setup db' db" "db_inv_upto env disk (insert (shard_of namespace) X) db'"
    using merge_effect [OF inv eq] by auto
  let ?C1 = "merged_in ?C namespace ?v (merge_into ft (db_node db) a (MergeOfferItem_state x))"
  have ne: "namespace \<noteq> ALL_NAMESPACE" using p by auto
  have same: "values_of (contents env disk db') n = values_of ?C1 n" "n \<noteq> ALL_NAMESPACE \<longrightarrow> contents env disk db' n = ?C1 n"
    if "n \<noteq> ALL_NAMESPACE" for n using that C' by (simp_all add: Let_def sighted_by_def sighted_def values_of_def)
  have "counts a = counts_in ?C namespace ?v" using arg_cong [OF a, of counts] by (simp add: counts_in_def stored_attr_def)
  then have cnt: "counts_in (contents env disk db') namespace ?v = fm_max (counts_in ?C namespace ?v) (fmdrop (db_node db) (mo_counts x))"
    using same(1) [OF ne] counts_in_merged [of ?C namespace ?v] by (simp add: counts_in_def merge_fields MergeOfferItem_state_def)
  have hold: "holders (contents env disk db') v = holders ?C1 v" for v
    using C' by (simp add: Let_def sighted_by_def holders_all)
  have "consensus_ok (db_node db) (contents env disk db')"
    unfolding C' by (rule merge_keeps_consensus [OF ok p finite_holders_db bound])
  moreover have "taken_in (db_node db) namespace [x] ?C (contents env disk db')"
    using same(1) [OF ne] same(2) cnt by (auto simp: taken_in_def merged_in_def)
  moreover have "db_node db' = db_node db" using rest(1) by (simp add: same_setup_def)
  ultimately show ?thesis using rest hold holders_merged [OF p] by simp
qed

lemma taken_in_step:
  assumes "taken_in mine namespace [x] C C1" "taken_in mine namespace xs C1 C2" "mo_value x \<notin> mo_value ` set xs"
  shows "taken_in mine namespace (x # xs) C C2"
proof -
  have x: "fmlookup (values_of C2 namespace) (mo_value x) = fmlookup (values_of C1 namespace) (mo_value x)"
    using assms(2,3) by (simp add: taken_in_def)
  have others: "fmlookup (values_of C1 namespace) (mo_value y) = fmlookup (values_of C namespace) (mo_value y)" if "y \<in> set xs" for y
    using assms(1,3) that by (auto simp: taken_in_def) (metis imageI)
  have cx: "counts_in C2 namespace (mo_value x) = counts_in C1 namespace (mo_value x)" using x by (simp add: counts_in_def fm_get_def)
  have cy: "counts_in C1 namespace (mo_value y) = counts_in C namespace (mo_value y)" if "y \<in> set xs" for y
    using others [OF that] by (simp add: counts_in_def fm_get_def)
  show ?thesis using assms(1,2) cx cy x by (auto simp: taken_in_def fmlookup_dom'_iff)
qed

lemma merge_offers_taken:
  assumes "db_inv_upto env disk X db" "shard_of namespace \<in> X" "consensus_ok (db_node db) (contents env disk db)"
    and "counts_towards_consensus namespace" "distinct (map mo_value offers)"
    and "\<forall>x \<in> set offers. card (holders (contents env disk db) (mo_value x)) < 2 ^ 64 - 1"
    and "merge_offers ft env disk now db namespace offers n = (db', n')"
  shows "db_inv_upto env disk X db' \<and> consensus_ok (db_node db') (contents env disk db') \<and> db_node db' = db_node db \<and>
    taken_in (db_node db) namespace offers (contents env disk db) (contents env disk db')"
  using assms
proof (induction offers arbitrary: db n)
  case Nil
  then show ?case by (simp add: taken_in_def)
next
  case (Cons x xs)
  obtain db1 out where m: "Database_merge ft env disk now db namespace (mo_value x) (MergeOfferItem_state x) = (db1, out)" by fastforce
  have bound: "card (holders (contents env disk db) (mo_value x)) < 2 ^ 64 - 1" using Cons.prems(6) by simp
  note one = merge_one_taken [OF Cons.prems(1,3,4) bound m]
  have X: "insert (shard_of namespace) X = X" using Cons.prems(2) by auto
  have dis: "mo_value x \<notin> mo_value ` set xs" "distinct (map mo_value xs)" using Cons.prems(5) by auto
  have more: "\<forall>y \<in> set xs. card (holders (contents env disk db1) (mo_value y)) < 2 ^ 64 - 1"
    using Cons.prems(6) one dis(1) by (metis imageI list.set_intros(2))
  have rest: "merge_offers ft env disk now db1 namespace xs (if changed out then n + 1 else n) = (db', n')"
    using Cons.prems(7) m by (simp add: Let_def)
  have "db_inv_upto env disk X db1" "consensus_ok (db_node db1) (contents env disk db1)" using one X by metis+
  note ih = Cons.IH [OF this(1) Cons.prems(2) this(2) Cons.prems(4) dis(2) more rest]
  show ?case using ih one taken_in_step [OF _ _ dis(1)] by auto
qed

text \<open>
  C31. Catching up on a namespace from a peer that holds it ends, and takes in all of it: whatever the number of
  pages, every value of the peer's that has not expired is held afterwards, with the larger count for every
  server but this one, whose own counts no peer can change. Values the peer does not have, and every other
  namespace, stay as they were; the tallies of \<open>_all\<close> count the new values, each once.
\<close>
theorem catch_up_takes_everything:
  assumes "db_inv env disk db" and "consensus_ok (db_node db) (contents env disk db)"
    and "\<And>v. card (holders (contents env disk db) v) < 2 ^ 64 - 1"
    and "\<not> is_internal namespace" and "serves offers_in net g p namespace at theirs"
  shows "\<exists>w' db' n. Galaxy_pull_namespace offers_in ft net g env disk now w db p namespace = Some (w', db', n) \<and>
    db_inv_upto env disk {shard_of namespace, INTERNAL_SHARD} db' \<and> consensus_ok (db_node db') (contents env disk db') \<and>
    (\<forall>v b. fmlookup (ns_values theirs) v = Some b \<and> \<not> Attribute_is_expired b at \<longrightarrow>
       v \<in> fmdom' (values_of (contents env disk db') namespace) \<and>
       counts_in (contents env disk db') namespace v = fm_max (counts_in (contents env disk db) namespace v) (fmdrop (db_node db) (counts b))) \<and>
    (\<forall>v. (\<forall>b. fmlookup (ns_values theirs) v = Some b \<longrightarrow> Attribute_is_expired b at) \<longrightarrow>
       fmlookup (values_of (contents env disk db') namespace) v = fmlookup (values_of (contents env disk db) namespace) v) \<and>
    (\<forall>m. m \<noteq> namespace \<longrightarrow> m \<noteq> ALL_NAMESPACE \<longrightarrow> contents env disk db' m = contents env disk db m)"
proof -
  let ?L = "offered theirs at"
  obtain w' where pull: "Galaxy_pull_namespace offers_in ft net g env disk now w db p namespace =
      Some (w', merge_offers ft env disk now db namespace ?L 0)"
    using pull_loop_ends [OF assms(5), of 0 ft env disk now w db 0] unfolding Galaxy_pull_namespace_def by auto
  obtain db' n where m: "merge_offers ft env disk now db namespace ?L 0 = (db', n)" by fastforce
  have inv: "db_inv_upto env disk {shard_of namespace, INTERNAL_SHARD} db" using assms(1) by (rule inv_mono) simp
  have vals: "map mo_value ?L = map fst (filter (\<lambda>(_, b). \<not> Attribute_is_expired b at) (sorted_list_of_fmap (ns_values theirs)))"
    by (auto simp: offered_def offer_of_def)
  then have dis: "distinct (map mo_value ?L)" by (simp add: distinct_map_filter)
  have mem: "x \<in> set ?L \<longleftrightarrow> (\<exists>v b. fmlookup (ns_values theirs) v = Some b \<and> \<not> Attribute_is_expired b at \<and> x = offer_of (v, Attribute_as_merge b))" for x
    unfolding offered_def by force
  note taken = merge_offers_taken [OF inv _ assms(2) external_counts [OF assms(4)] dis _ m]
  have t: "taken_in (db_node db) namespace ?L (contents env disk db) (contents env disk db')"
    and good: "db_inv_upto env disk {shard_of namespace, INTERNAL_SHARD} db'" "consensus_ok (db_node db') (contents env disk db')"
    using taken assms(3) by auto
  have "v \<in> fmdom' (values_of (contents env disk db') namespace) \<and>
       counts_in (contents env disk db') namespace v = fm_max (counts_in (contents env disk db) namespace v) (fmdrop (db_node db) (counts b))"
    if "fmlookup (ns_values theirs) v = Some b" "\<not> Attribute_is_expired b at" for v b
  proof -
    have "offer_of (v, Attribute_as_merge b) \<in> set ?L" using mem that by blast
    moreover have "mo_counts (offer_of (v, Attribute_as_merge b)) = counts b" by (simp add: offer_of_def Attribute_as_merge_def)
    ultimately show ?thesis using t by (fastforce simp: taken_in_def)
  qed
  moreover have "fmlookup (values_of (contents env disk db') namespace) v = fmlookup (values_of (contents env disk db) namespace) v"
    if "\<forall>b. fmlookup (ns_values theirs) v = Some b \<longrightarrow> Attribute_is_expired b at" for v
  proof -
    have "v \<notin> mo_value ` set ?L" using that mem by (auto simp: offer_of_def)
    then show ?thesis using t by (simp add: taken_in_def)
  qed
  moreover have "\<forall>n. n \<noteq> namespace \<longrightarrow> n \<noteq> ALL_NAMESPACE \<longrightarrow> contents env disk db' n = contents env disk db n"
    using t by (simp add: taken_in_def)
  ultimately show ?thesis using pull m good by auto
qed

text \<open>A peer that serves its copy, for a network that answers with the path asked for.\<close>

definition sample_theirs :: namespace where
  "sample_theirs = fst (Namespace_record Namespace_default ''paris'' ''v'' (DateTime 90 0) None 0 [])"

definition sample_net :: "unit network" where
  "sample_net = \<lparr>client_builds = (\<lambda>_. True), request = (\<lambda>r w. (w, Inr \<lparr>fw_status = 200, fw_body = rq_url r, fw_headers = []\<rparr>))\<rparr>"

definition sample_peer :: peer where
  "sample_peer = \<lparr>p_url = [], p_key = ''k'', p_stores = StoragePolicy_everything, p_enabled = True\<rparr>"

text \<open>Its codec: one page holds everything, so any offset but the first is past the end.\<close>

definition sample_offers_in :: "string \<Rightarrow> string + offer_page" where
  "sample_offers_in path =
     (let offset = (if path = page_path ''feeds/a'' 0 then 0 else 1)
      in Inr \<lparr>op_items = map offer_of (pg_items (Namespace_merge_page sample_theirs offset 500 (DateTime 100 0))),
           op_total = pg_total (Namespace_merge_page sample_theirs offset 500 (DateTime 100 0))\<rparr>)"

lemma sample_serves: "serves sample_offers_in sample_net g sample_peer ''feeds/a'' (DateTime 100 0) sample_theirs"
proof -
  have zero: "page_path ''feeds/a'' offset = page_path ''feeds/a'' 0 \<longleftrightarrow> offset = 0" for offset
    using show_nat_shape [of offset] by (auto simp: page_path_def show_nat_small [of 0])
  have one: "length (offered sample_theirs (DateTime 100 0)) = 1" by code_simp
  have past: "drop offset (offered sample_theirs (DateTime 100 0)) = []" if "offset \<noteq> 0" for offset
    using one that by simp
  have "sample_offers_in (page_path ''feeds/a'' offset) =
      Inr \<lparr>op_items = take 500 (drop offset (offered sample_theirs (DateTime 100 0))), op_total = length (offered sample_theirs (DateTime 100 0))\<rparr>" for offset
    unfolding sample_offers_in_def Let_def page_offers zero using past [of offset] past [of 1] by simp
  moreover have "Galaxy_send sample_net g w sample_peer GET (page_path ''feeds/a'' offset) None 1 [] =
      (w, Inr \<lparr>fw_status = 200, fw_body = page_path ''feeds/a'' offset, fw_headers = []\<rparr>)" for w offset
    by (simp add: Galaxy_send_def sample_net_def sample_peer_def Let_def)
  ultimately show ?thesis unfolding serves_def page_offers by (simp add: is_success_def)
qed

theorem catch_up_takes_everything_witness:
  "\<exists>w' db' n. Galaxy_pull_namespace sample_offers_in sample_chrono sample_net (Galaxy_new sample_settings) sample_env fmempty (DateTime 100 0) ()
      sample_store_db sample_peer ''feeds/a'' = Some (w', db', n) \<and>
    counts_in (contents sample_env fmempty db') ''feeds/a'' ''v'' = fm_max fmempty (fmdrop ''local'' (fmupd ''paris'' 1 fmempty))"
proof -
  have inv: "db_inv sample_env fmempty sample_store_db" using sample_store_inv by (rule inv_mono) simp
  have bound: "card (holders (contents sample_env fmempty sample_store_db) v) < 2 ^ 64 - 1" for v
    by (simp add: holders_def values_of_def sample_start)
  have ext: "\<not> is_internal ''feeds/a''" by code_simp
  have node: "db_node sample_store_db = ''local''" by (simp add: sample_defs)
  obtain b where b: "fmlookup (ns_values sample_theirs) ''v'' = Some b" "\<not> Attribute_is_expired b (DateTime 100 0)" "counts b = fmupd ''paris'' 1 fmempty"
  proof -
    let ?b = "sight (Attribute_new ''v'') ''paris'' (DateTime 90 0) None 0 []"
    have "fmlookup (ns_values sample_theirs) ''v'' = Some ?b"
      by (simp add: sample_theirs_def Namespace_record_simp Namespace_default_def fm_simps Let_def)
    moreover have "\<not> Attribute_is_expired ?b (DateTime 100 0)" by code_simp
    moreover have "counts ?b = fmupd ''paris'' 1 fmempty" by code_simp
    ultimately show ?thesis using that by blast
  qed
  have start: "counts_in (contents sample_env fmempty sample_store_db) ''feeds/a'' ''v'' = fmempty"
    by (simp add: counts_in_def values_of_def sample_start fm_get_def Attribute_new_def)
  show ?thesis
    using catch_up_takes_everything [OF inv sample_start_ok bound ext sample_serves, where ft = sample_chrono and now = "DateTime 100 0" and w = "()"] b
    unfolding node by (metis start)
qed

end
