(* ===== verification/Acl.thy ===== *)
theory Acl
  imports Paths
begin

text \<open>
  \<^verbatim>\<open>src/src/acl.rs\<close>: the grants an API key holds, the table of keys, the access decisions, and the
  syntax in which grants are written to and read from the configuration.
\<close>

section \<open>Grants\<close>

record grant =
  g_prefix :: string
  g_read :: bool
  g_write :: bool
  g_admin :: bool

definition Grant_all_data :: grant where
  "Grant_all_data = \<lparr>g_prefix = [], g_read = True, g_write = True, g_admin = False\<rparr>"

definition Grant_admin :: grant where
  "Grant_admin = \<lparr>g_prefix = [], g_read = False, g_write = False, g_admin = True\<rparr>"

text \<open>The loop of \<open>covers\<close>: the wanted segments against the actual ones.\<close>

fun covers_loop :: "string list \<Rightarrow> string list \<Rightarrow> bool" where
  "covers_loop actual [] = True"
| "covers_loop [] (w # ws) = False"
| "covers_loop (a # as) (w # ws) = (if a = w then covers_loop as ws else False)"

definition Grant_covers :: "grant \<Rightarrow> string \<Rightarrow> bool" where
  "Grant_covers g namespace = covers_loop (segments namespace) (segments (g_prefix g))"

definition Grant_to_spec :: "grant \<Rightarrow> string" where
  "Grant_to_spec g =
     (if g_admin g then ''admin''
      else if \<not> g_read g \<and> \<not> g_write g then []
      else let letters = (if g_read g then (if g_write g then ''rw'' else ''r'') else ''w'')
           in if g_prefix g = [] then letters else letters @ '':'' @ g_prefix g)"

section \<open>Validation\<close>

datatype acl_error =
    EmptyKey | KeyTooLong | KeyBadChar
  | NamespaceTooLong | NamespaceBadChar | NamespaceInternal
  | UnknownPermission string | NoGrants

definition key_bad_char :: "char \<Rightarrow> bool" where
  "key_bad_char c \<longleftrightarrow> c \<in> {CHR ''='', CHR '':'', CHR '','', CHR ''['', CHR '']'', CHR '';'', CHR ''#'',
     CHR 0x5C, CHR 0x22, CHR 0x27}"

definition validate_key :: "string \<Rightarrow> acl_error + unit" where
  "validate_key key =
     (if key = [] then Inl EmptyKey
      else if length key > 256 then Inl KeyTooLong
      else if has_whitespace key \<or> list_ex key_bad_char key then Inl KeyBadChar
      else Inr ())"

definition namespace_bad_char :: "char \<Rightarrow> bool" where
  "namespace_bad_char c \<longleftrightarrow> c \<in> {CHR ''='', CHR '':'', CHR '','', CHR ''['', CHR '']'', CHR '';'', CHR ''#''}"

definition validate_namespace :: "string \<Rightarrow> acl_error + unit" where
  "validate_namespace namespace =
     (if length namespace > 512 then Inl NamespaceTooLong
      else if has_whitespace namespace \<or> list_ex namespace_bad_char namespace then Inl NamespaceBadChar
      else if starts_with namespace ''_'' then Inl NamespaceInternal
      else Inr ())"

section \<open>The table of keys\<close>

type_synonym acl = "(string, grant list) fmap"

definition Acl_new :: acl where
  "Acl_new = fmempty"

definition Acl_grant_full :: "acl \<Rightarrow> string \<Rightarrow> acl" where
  "Acl_grant_full acl key = fmupd key [Grant_all_data, Grant_admin] acl"

definition Acl_set :: "acl \<Rightarrow> string \<Rightarrow> grant list \<Rightarrow> acl" where
  "Acl_set acl key grants = fmupd key grants acl"

definition Acl_remove :: "acl \<Rightarrow> string \<Rightarrow> acl \<times> bool" where
  "Acl_remove acl key = (fmdrop key acl, fm_contains acl key)"

definition Acl_is_empty :: "acl \<Rightarrow> bool" where
  "Acl_is_empty acl \<longleftrightarrow> fm_size acl = 0"

definition Acl_len :: "acl \<Rightarrow> nat" where
  "Acl_len acl = fm_size acl"

definition Acl_entries :: "acl \<Rightarrow> (string \<times> grant list) list" where
  "Acl_entries acl = sorted_list_of_fmap acl"

definition Acl_contains :: "acl \<Rightarrow> string \<Rightarrow> bool" where
  "Acl_contains acl key = fm_contains acl key"

definition Acl_admin_count :: "acl \<Rightarrow> nat" where
  "Acl_admin_count acl = length (filter (list_ex g_admin) (fm_values acl))"

definition Acl_toml_header :: string where
  "Acl_toml_header =
     ''# Written by the SightingDB management interface. Comments added'' @ nl @
     ''# here are replaced the next time a key is saved.'' @ nl @
     ''#'' @ nl @
     ''# '' @ dquote @ ''<apikey>'' @ dquote @ '' = '' @ dquote @ ''<grant>[, <grant>...]'' @ dquote @ nl @
     ''# grant: r | w | rw [:<namespace>]  |  admin'' @ nl @
     nl @ ''[acl]'' @ nl"

definition Acl_to_toml :: "acl \<Rightarrow> string" where
  "Acl_to_toml acl = Acl_toml_header @ concat (map (\<lambda>(key, grants).
     let specs = filter (\<lambda>s. s \<noteq> []) (map Grant_to_spec grants)
     in if specs = [] then []
        else dquote @ key @ dquote @ '' = '' @ dquote @ join '', '' specs @ dquote @ nl)
     (Acl_entries acl))"

definition Acl_allows :: "acl \<Rightarrow> string \<Rightarrow> string \<Rightarrow> (grant \<Rightarrow> bool) \<Rightarrow> bool" where
  "Acl_allows acl key namespace permitted =
     (case fmlookup acl key of
        None \<Rightarrow> False
      | Some grants \<Rightarrow> list_ex (\<lambda>g. permitted g \<and> Grant_covers g namespace) grants)"

definition Acl_can_read :: "acl \<Rightarrow> string \<Rightarrow> string \<Rightarrow> bool" where
  "Acl_can_read acl key namespace = Acl_allows acl key namespace g_read"

definition Acl_can_write :: "acl \<Rightarrow> string \<Rightarrow> string \<Rightarrow> bool" where
  "Acl_can_write acl key namespace = Acl_allows acl key namespace g_write"

definition Acl_is_admin :: "acl \<Rightarrow> string \<Rightarrow> bool" where
  "Acl_is_admin acl key =
     (case fmlookup acl key of None \<Rightarrow> False | Some grants \<Rightarrow> list_ex g_admin grants)"

section \<open>Parsing grants\<close>

definition parse_permissions :: "string \<Rightarrow> (bool \<times> bool) option" where
  "parse_permissions p =
     (if p = ''r'' then Some (True, False)
      else if p = ''w'' then Some (False, True)
      else if p = ''rw'' \<or> p = ''wr'' then Some (True, True)
      else None)"

fun parse_grants_loop :: "string list \<Rightarrow> grant list \<Rightarrow> acl_error + grant list" where
  "parse_grants_loop [] grants = Inr grants"
| "parse_grants_loop (part # parts) grants =
     (let part = trim part
      in if part = [] then parse_grants_loop parts grants
         else let (permissions, prefix) =
                    (case split_once CHR '':'' part of
                       Some (a, b) \<Rightarrow> (trim a, trim b)
                     | None \<Rightarrow> (part, []))
              in if permissions = ''admin'' then parse_grants_loop parts (grants @ [Grant_admin])
                 else (case parse_permissions permissions of
                         None \<Rightarrow> Inl (UnknownPermission permissions)
                       | Some (r, w) \<Rightarrow>
                           parse_grants_loop parts
                             (grants @ [\<lparr>g_prefix = prefix, g_read = r, g_write = w, g_admin = False\<rparr>])))"

definition parse_grants :: "string \<Rightarrow> acl_error + grant list" where
  "parse_grants spec =
     (case parse_grants_loop (split_on CHR '','' spec) [] of
        Inl e \<Rightarrow> Inl e
      | Inr grants \<Rightarrow> if grants = [] then Inl NoGrants else Inr grants)"

section \<open>Lemmas\<close>

subsection \<open>Decisions\<close>

lemma covers_loop_prefix: "covers_loop actual wanted \<longleftrightarrow> (\<exists>rest. actual = wanted @ rest)"
  by (induction actual wanted rule: covers_loop.induct) auto

interpretation grants: path_rule "\<lambda>p ns. Grant_covers \<lparr>g_prefix = p, g_read = r, g_write = w, g_admin = ad\<rparr> ns" "\<lambda>_. True"
  by unfold_locales (simp add: Grant_covers_def covers_loop_prefix)

lemma allows_iff:
  "Acl_allows acl key ns permitted \<longleftrightarrow>
     (\<exists>gs g rest. fmlookup acl key = Some gs \<and> g \<in> set gs \<and> permitted g \<and>
        segments ns = segments (g_prefix g) @ rest)"
  by (auto simp: Acl_allows_def list_ex_iff Grant_covers_def covers_loop_prefix split: option.splits)

text \<open>
  Access is denied by default and granted by segments: a key may read a namespace exactly when it
  is in the table with a read grant whose prefix is, segment by segment, the beginning of the
  namespace; the same for writing. So a grant on \<open>/feeds\<close> says nothing about \<open>/feeds2\<close>, reading
  gives no right to write, and administering gives neither.
\<close>
theorem acl_decisions:
  "(Acl_can_read acl key ns \<longleftrightarrow>
      (\<exists>gs g rest. fmlookup acl key = Some gs \<and> g \<in> set gs \<and> g_read g \<and>
         segments ns = segments (g_prefix g) @ rest)) \<and>
   (Acl_can_write acl key ns \<longleftrightarrow>
      (\<exists>gs g rest. fmlookup acl key = Some gs \<and> g \<in> set gs \<and> g_write g \<and>
         segments ns = segments (g_prefix g) @ rest)) \<and>
   (Acl_is_admin acl key \<longleftrightarrow> (\<exists>gs g. fmlookup acl key = Some gs \<and> g \<in> set gs \<and> g_admin g))"
  by (auto simp: Acl_can_read_def Acl_can_write_def allows_iff Acl_is_admin_def list_ex_iff
      split: option.splits)

lemma allows_set:
  "Acl_allows (Acl_set acl k gs) key ns permitted =
     (if key = k then list_ex (\<lambda>g. permitted g \<and> Grant_covers g ns) gs
      else Acl_allows acl key ns permitted)"
  by (simp add: Acl_allows_def Acl_set_def)

lemma allows_remove:
  "Acl_allows (fst (Acl_remove acl k)) key ns permitted \<longleftrightarrow>
     key \<noteq> k \<and> Acl_allows acl key ns permitted"
  by (simp add: Acl_allows_def Acl_remove_def)

text \<open>
  The table of keys: setting or removing one key decides that key alone. A removed key can do
  nothing, a key given the full grants can do everything in the data tree, and no other key's
  rights change.
\<close>
theorem acl_table_is_per_key:
  "\<not> Acl_can_read (fst (Acl_remove acl key)) key ns \<and>
   \<not> Acl_can_write (fst (Acl_remove acl key)) key ns \<and>
   \<not> Acl_is_admin (fst (Acl_remove acl key)) key \<and>
   (snd (Acl_remove acl key) \<longleftrightarrow> Acl_contains acl key) \<and>
   Acl_can_read (Acl_grant_full acl key) key ns \<and> Acl_can_write (Acl_grant_full acl key) key ns \<and>
   Acl_is_admin (Acl_grant_full acl key) key \<and>
   (other \<noteq> key \<longrightarrow>
     Acl_can_read (Acl_set acl key gs) other ns = Acl_can_read acl other ns \<and>
     Acl_can_write (Acl_set acl key gs) other ns = Acl_can_write acl other ns \<and>
     Acl_can_read (fst (Acl_remove acl key)) other ns = Acl_can_read acl other ns \<and>
     Acl_can_write (fst (Acl_remove acl key)) other ns = Acl_can_write acl other ns)"
proof -
  have "segments [] = []" by (simp add: segments_def)
  then have "Acl_allows (Acl_grant_full acl key) key ns g_read"
    and "Acl_allows (Acl_grant_full acl key) key ns g_write"
    by (simp_all add: Acl_allows_def Acl_grant_full_def Grant_covers_def Grant_all_data_def)
  then show ?thesis
    by (simp add: Acl_can_read_def Acl_can_write_def allows_set allows_remove)
       (simp add: Acl_is_admin_def Acl_remove_def Acl_grant_full_def Grant_admin_def
          Grant_all_data_def Acl_contains_def)
qed

theorem acl_table_is_per_key_witness:
  "Acl_can_read (fst (Acl_remove (Acl_grant_full (Acl_grant_full Acl_new ''a'') ''b'') ''a'')) ''b'' ''/x'' \<and>
   \<not> Acl_can_read (fst (Acl_remove (Acl_grant_full (Acl_grant_full Acl_new ''a'') ''b'') ''a'')) ''a'' ''/x''"
  using acl_table_is_per_key [of "Acl_grant_full (Acl_grant_full Acl_new ''a'') ''b''" "''a''" "''/x''" "''b''"]
    acl_table_is_per_key [of "Acl_grant_full Acl_new ''a''" "''b''" "''/x''"]
  by simp

subsection \<open>Writing and reading grants\<close>

text \<open>The grants the syntax can express.\<close>

definition grant_wf :: "grant \<Rightarrow> bool" where
  "grant_wf g \<longleftrightarrow> g = Grant_admin \<or>
     \<not> g_admin g \<and> (g_read g \<or> g_write g) \<and> trim (g_prefix g) = g_prefix g \<and>
     CHR '','' \<notin> set (g_prefix g)"

definition letters_of :: "grant \<Rightarrow> string" where
  "letters_of g = (if g_read g then (if g_write g then ''rw'' else ''r'') else ''w'')"

lemma trim_letters: "trim ''r'' = ''r''" "trim ''w'' = ''w''" "trim ''rw'' = ''rw''" "trim ''admin'' = ''admin''"
  by code_simp+

lemma letters_parse:
  "g_read g \<or> g_write g \<Longrightarrow> parse_permissions (letters_of g) = Some (g_read g, g_write g)"
  "letters_of g \<noteq> ''admin''" "trim (letters_of g) = letters_of g" "letters_of g \<noteq> []"
  "CHR '':'' \<notin> set (letters_of g)" "plain (hd (letters_of g))" "split_once CHR '':'' (letters_of g) = None"
  by (auto simp: letters_of_def parse_permissions_def trim_letters plain_def)

lemma parse_spec:
  assumes "grant_wf g" "trim part = Grant_to_spec g"
  shows "parse_grants_loop (part # parts) gs = parse_grants_loop parts (gs @ [g])"
proof (cases "g = Grant_admin")
  case True
  then have "Grant_to_spec g = ''admin''" by (simp add: Grant_to_spec_def Grant_admin_def)
  with True assms show ?thesis by (simp add: Let_def)
next
  case False
  with assms(1) have wf: "\<not> g_admin g" "g_read g \<or> g_write g" "trim (g_prefix g) = g_prefix g"
    by (auto simp: grant_wf_def)
  then have spec: "Grant_to_spec g =
      (if g_prefix g = [] then letters_of g else letters_of g @ CHR '':'' # g_prefix g)"
    by (auto simp: Grant_to_spec_def letters_of_def)
  have g: "g = \<lparr>g_prefix = g_prefix g, g_read = g_read g, g_write = g_write g, g_admin = False\<rparr>"
    using wf by simp
  show ?thesis
  proof (cases "g_prefix g = []")
    case True
    have "parse_grants_loop (part # parts) gs =
        parse_grants_loop parts (gs @ [\<lparr>g_prefix = g_prefix g, g_read = g_read g, g_write = g_write g, g_admin = False\<rparr>])"
      using assms(2) spec wf True letters_parse [of g] by (simp add: Let_def)
    with g show ?thesis by argo
  next
    case False
    then have "split_once CHR '':'' (Grant_to_spec g) = Some (letters_of g, g_prefix g)"
      using spec letters_parse(5) by (simp add: split_once_append)
    then have "parse_grants_loop (part # parts) gs =
        parse_grants_loop parts (gs @ [\<lparr>g_prefix = g_prefix g, g_read = g_read g, g_write = g_write g, g_admin = False\<rparr>])"
      using assms(2) spec wf letters_parse [of g] False by (simp add: Let_def)
    with g show ?thesis by argo
  qed
qed

lemma Grant_to_spec_shape:
  assumes "grant_wf g"
  shows "trim (Grant_to_spec g) = Grant_to_spec g" "Grant_to_spec g \<noteq> []" "CHR '','' \<notin> set (Grant_to_spec g)"
proof -
  have "trim (Grant_to_spec g) = Grant_to_spec g \<and> Grant_to_spec g \<noteq> [] \<and> CHR '','' \<notin> set (Grant_to_spec g)"
  proof (cases "g = Grant_admin")
    case True
    then have "Grant_to_spec g = ''admin''" by (simp add: Grant_to_spec_def Grant_admin_def)
    then show ?thesis by (simp add: trim_letters)
  next
    case False
    then have "Grant_to_spec g =
      (if g_prefix g = [] then letters_of g else letters_of g @ CHR '':'' # g_prefix g)"
      using assms by (auto simp: grant_wf_def Grant_to_spec_def letters_of_def)
    moreover have "trim (letters_of g @ CHR '':'' # g_prefix g) = letters_of g @ CHR '':'' # g_prefix g"
      if "g_prefix g \<noteq> []"
      using assms that False letters_parse(6) [of g]
      by (intro trim_guarded) (auto simp: grant_wf_def plain_def)
    moreover have "CHR '','' \<notin> set (letters_of g)" "CHR '','' \<notin> set (g_prefix g)"
      using assms False by (auto simp: letters_of_def grant_wf_def)
    ultimately show ?thesis using letters_parse(3,4) [of g] by simp
  qed
  then show "trim (Grant_to_spec g) = Grant_to_spec g" "Grant_to_spec g \<noteq> []"
    "CHR '','' \<notin> set (Grant_to_spec g)" by auto
qed

lemma split_on_join_comma:
  assumes "\<forall>x \<in> set xs. CHR '','' \<notin> set x" "CHR '','' \<notin> set x"
  shows "split_on CHR '','' (join '', '' (x # xs)) = x # map (\<lambda>s. CHR '' '' # s) xs"
  using assms
proof (induction xs arbitrary: x)
  case (Cons y ys)
  have "split_on CHR '','' (CHR '' '' # join '', '' (y # ys)) = (CHR '' '' # y) # map (\<lambda>s. CHR '' '' # s) ys"
    using Cons by simp
  then show ?case using Cons.prems by (simp add: split_on_append del: split_on.simps)
qed (simp add: split_on_no_sep)

lemma parse_specs:
  assumes "\<forall>g \<in> set gs. grant_wf g" "list_all2 (\<lambda>p g. trim p = Grant_to_spec g) parts gs"
  shows "parse_grants_loop parts acc = Inr (acc @ gs)"
  using assms(2,1)
proof (induction parts gs arbitrary: acc rule: list_all2_induct)
  case (Cons x xs y ys)
  then show ?case using parse_spec [of y x xs acc] by (simp del: parse_grants_loop.simps(2))
qed simp

lemma parse_print:
  assumes "gs \<noteq> []" "\<forall>g \<in> set gs. grant_wf g"
  shows "parse_grants (join '', '' (map Grant_to_spec gs)) = Inr gs"
proof -
  obtain h hs where gs: "gs = h # hs" using assms(1) by (cases gs) auto
  have "split_on CHR '','' (join '', '' (map Grant_to_spec gs)) =
      Grant_to_spec h # map (\<lambda>s. CHR '' '' # s) (map Grant_to_spec hs)"
    using assms gs by (simp add: split_on_join_comma Grant_to_spec_shape del: join.simps map_map)
  moreover have "list_all2 (\<lambda>p g. trim p = Grant_to_spec g)
      (Grant_to_spec h # map (\<lambda>s. CHR '' '' # s) (map Grant_to_spec hs)) gs"
    using assms gs by (auto simp: list_all2_conv_all_nth Grant_to_spec_shape nth_Cons split: nat.splits)
  ultimately have "parse_grants_loop (split_on CHR '','' (join '', '' (map Grant_to_spec gs))) [] = Inr gs"
    using parse_specs [OF assms(2), of _ "[]"] by (metis append_Nil)
  then show ?thesis using assms(1) by (simp add: parse_grants_def)
qed

lemma split_once_set: "split_once c s = Some (a, b) \<Longrightarrow> set a \<union> set b \<subseteq> set s"
  by (induction s arbitrary: a b) (auto split: if_splits)

lemma parse_grants_loop_wf:
  assumes "\<forall>p \<in> set parts. CHR '','' \<notin> set p" "\<forall>g \<in> set acc. grant_wf g"
    and "parse_grants_loop parts acc = Inr gs"
  shows "\<forall>g \<in> set gs. grant_wf g"
  using assms
proof (induction parts arbitrary: acc)
  case (Cons part parts)
  have nc: "CHR '','' \<notin> set (trim part)" using Cons.prems(1) set_trim [of part] by auto
  obtain perm prefix where pp: "(case split_once CHR '':'' (trim part) of
      Some (a, b) \<Rightarrow> (trim a, trim b) | None \<Rightarrow> (trim part, [])) = (perm, prefix)" by fastforce
  then have "trim prefix = prefix" "CHR '','' \<notin> set prefix"
    using nc set_trim split_once_set [of "CHR '':''" "trim part"]
    by (fastforce split: option.splits prod.splits)+
  then have wf: "grant_wf \<lparr>g_prefix = prefix, g_read = r, g_write = w, g_admin = False\<rparr>"
    if "parse_permissions perm = Some (r, w)" for r w
    using that by (auto simp: grant_wf_def parse_permissions_def split: if_splits)
  have adm: "grant_wf Grant_admin" by (simp add: grant_wf_def)
  have step: "\<exists>new. (\<forall>g \<in> set new. grant_wf g) \<and> parse_grants_loop parts (acc @ new) = Inr gs"
    using Cons.prems(3) pp wf adm
    by (force simp: Let_def intro: exI [of _ "[]"] exI [of _ "[Grant_admin]"] split: if_splits option.splits)
  then show ?case using Cons.IH Cons.prems(1,2) by (metis Un_iff list.set_intros(2) set_append)
qed simp

text \<open>
  Grants survive being written to the configuration and read back: whatever \<open>parse_grants\<close>
  accepted, the specification \<open>Acl::to_toml\<close> writes for it reads back as the same grants in the same
  order. So saving the table of keys neither widens nor narrows what any key may do.
\<close>
theorem acl_grants_roundtrip:
  assumes "parse_grants spec = Inr gs"
  shows "parse_grants (join '', '' (filter (\<lambda>s. s \<noteq> []) (map Grant_to_spec gs))) = Inr gs"
proof -
  from assms have ne: "gs \<noteq> []" and loop: "parse_grants_loop (split_on CHR '','' spec) [] = Inr gs"
    by (auto simp: parse_grants_def split: sum.splits if_splits)
  have wf: "\<forall>g \<in> set gs. grant_wf g"
    by (rule parse_grants_loop_wf [OF _ _ loop]) (auto dest: split_on_pieces)
  then have "filter (\<lambda>s. s \<noteq> []) (map Grant_to_spec gs) = map Grant_to_spec gs"
    by (simp add: filter_id_conv Grant_to_spec_shape)
  with ne wf show ?thesis by (simp add: parse_print)
qed

theorem acl_grants_roundtrip_witness:
  "parse_grants (join '', '' (filter (\<lambda>s. s \<noteq> []) (map Grant_to_spec
     [\<lparr>g_prefix = ''/feeds'', g_read = True, g_write = False, g_admin = False\<rparr>, Grant_admin]))) =
   Inr [\<lparr>g_prefix = ''/feeds'', g_read = True, g_write = False, g_admin = False\<rparr>, Grant_admin]"
proof -
  have "parse_grants '' r : /feeds,, admin'' =
    Inr [\<lparr>g_prefix = ''/feeds'', g_read = True, g_write = False, g_admin = False\<rparr>, Grant_admin]"
    by code_simp
  then show ?thesis by (rule acl_grants_roundtrip)
qed

end
