(* ===== verification/Rejections.thy ===== *)
theory Rejections
  imports Paths
begin

text \<open>
  \<^verbatim>\<open>src/src/rejections.rs\<close>: the bounded record of values that were not written. The mutex is not
  modelled: every operation takes it for its whole body. The clock of \<open>record\<close> is an argument.
\<close>

definition DEFAULT_CAPACITY :: nat where
  "DEFAULT_CAPACITY = 1000"

datatype source = SourceWrite | SourceBulkWrite | SourceManagement | SourceIngest

record rejection =
  rj_when :: int
  rj_namespace :: string
  rj_value :: string
  rj_reason :: string
  rj_source :: source

record rejections =
  rj_entries :: "rejection list"
  rj_capacity :: nat

definition Rejections_new :: "nat \<Rightarrow> rejections" where
  "Rejections_new capacity = \<lparr>rj_entries = [], rj_capacity = capacity\<rparr>"

definition Rejections_enabled :: "rejections \<Rightarrow> bool" where
  "Rejections_enabled r \<longleftrightarrow> rj_capacity r > 0"

text \<open>The loop that makes room: \<open>while entries.len() >= capacity { pop_front }\<close>, for a capacity
  that is not 0.\<close>

fun make_room :: "nat \<Rightarrow> rejection list \<Rightarrow> rejection list" where
  "make_room capacity [] = []"
| "make_room capacity (x # xs) = (if length (x # xs) \<ge> capacity then make_room capacity xs else x # xs)"

definition Rejections_record :: "rejections \<Rightarrow> int \<Rightarrow> string \<Rightarrow> string \<Rightarrow> string \<Rightarrow> source \<Rightarrow> rejections" where
  "Rejections_record r now namespace v reason src =
     (if \<not> Rejections_enabled r then r
      else let entries = make_room (rj_capacity r) (rj_entries r)
           in r\<lparr>rj_entries := entries @ [\<lparr>rj_when = now, rj_namespace = namespace, rj_value = v,
                  rj_reason = reason, rj_source = src\<rparr>]\<rparr>)"

definition rejection_matches :: "string option \<Rightarrow> rejection \<Rightarrow> bool" where
  "rejection_matches namespace entry =
     (case namespace of
        Some wanted \<Rightarrow>
          rj_namespace entry = wanted \<or>
          (case strip_prefix (rj_namespace entry) wanted of
             None \<Rightarrow> False | Some rest \<Rightarrow> starts_with rest ''/'')
      | None \<Rightarrow> True)"

definition Rejections_recent :: "rejections \<Rightarrow> string option \<Rightarrow> nat \<Rightarrow> rejection list" where
  "Rejections_recent r namespace limit =
     take limit (filter (rejection_matches namespace) (rev (rj_entries r)))"

definition Rejections_len :: "rejections \<Rightarrow> nat" where
  "Rejections_len r = length (rj_entries r)"

definition Rejections_clear :: "rejections \<Rightarrow> rejections" where
  "Rejections_clear r = r\<lparr>rj_entries := []\<rparr>"

section \<open>Lemmas\<close>

lemma make_room_drop: "0 < c \<Longrightarrow> make_room c xs = drop (Suc (length xs) - c) xs"
proof (induction c xs rule: make_room.induct)
  case (2 c x xs)
  then show ?case by (cases "length (x # xs) \<ge> c") (auto simp: Suc_diff_le drop_Cons split: nat.splits)
qed simp

lemma record_eq:
  assumes "0 < rj_capacity r"
  shows "Rejections_record r (rj_when e) (rj_namespace e) (rj_value e) (rj_reason e) (rj_source e) =
     r\<lparr>rj_entries := drop (Suc (length (rj_entries r)) - rj_capacity r) (rj_entries r @ [e])\<rparr>"
proof -
  have "Suc (length (rj_entries r)) - rj_capacity r \<le> length (rj_entries r)" using assms by linarith
  then show ?thesis using assms
    by (simp add: Rejections_record_def Rejections_enabled_def make_room_drop Let_def)
qed

definition record_all :: "rejections \<Rightarrow> rejection list \<Rightarrow> rejections" where
  "record_all r es = fold (\<lambda>e r. Rejections_record r (rj_when e) (rj_namespace e) (rj_value e) (rj_reason e) (rj_source e)) es r"

lemma record_all_entries:
  assumes "0 < rj_capacity r" "length (rj_entries r) \<le> rj_capacity r"
  shows "rj_entries (record_all r es) =
      drop (length (rj_entries r @ es) - rj_capacity r) (rj_entries r @ es) \<and>
     rj_capacity (record_all r es) = rj_capacity r"
  using assms
proof (induction es arbitrary: r)
  case Nil
  then show ?case by (simp add: record_all_def)
next
  case (Cons e es)
  let ?r = "Rejections_record r (rj_when e) (rj_namespace e) (rj_value e) (rj_reason e) (rj_source e)"
  let ?xs = "rj_entries r"
  have r: "?r = r\<lparr>rj_entries := drop (Suc (length ?xs) - rj_capacity r) (?xs @ [e])\<rparr>"
    using Cons.prems(1) by (rule record_eq)
  have len: "length (rj_entries ?r) \<le> rj_capacity ?r" "0 < rj_capacity ?r"
    using Cons.prems r by auto
  have "record_all r (e # es) = record_all ?r es" by (simp add: record_all_def)
  then have "rj_entries (record_all r (e # es)) =
      drop (length (rj_entries ?r @ es) - rj_capacity r) (rj_entries ?r @ es)"
    "rj_capacity (record_all r (e # es)) = rj_capacity r"
    using Cons.IH [of ?r] len r by auto
  moreover have "drop (length (rj_entries ?r @ es) - rj_capacity r) (rj_entries ?r @ es) =
      drop (length (?xs @ e # es) - rj_capacity r) (?xs @ e # es)"
  proof -
    let ?k = "Suc (length ?xs) - rj_capacity r"
    have "rj_entries ?r @ es = drop ?k (?xs @ e # es)" using r Cons.prems by simp
    moreover have "length (drop ?k (?xs @ e # es)) - rj_capacity r + ?k = length (?xs @ e # es) - rj_capacity r"
      using Cons.prems by auto
    ultimately show ?thesis by (simp only: drop_drop)
  qed
  ultimately show ?case by simp
qed

text \<open>
  The record of rejections is bounded and loses only the oldest: after any number of rejections
  it holds exactly the last \<open>capacity\<close> of them in order, and \<open>recent\<close> answers with the newest first,
  only those under the namespace asked for, and no more than the limit. With capacity 0 nothing is
  kept.
\<close>
theorem rejections_keep_the_newest:
  "rj_entries (record_all (Rejections_new capacity) es) = drop (length es - capacity) es \<and>
   Rejections_len (record_all (Rejections_new capacity) es) \<le> capacity \<and>
   Rejections_recent (record_all (Rejections_new capacity) es) (Some prefix) limit =
     take limit (filter (\<lambda>e. rj_namespace e = prefix \<or> (\<exists>rest. rj_namespace e = prefix @ CHR ''/'' # rest))
       (rev (drop (length es - capacity) es)))"
proof (cases "capacity = 0")
  case True
  have none: "record_all \<lparr>rj_entries = [], rj_capacity = 0\<rparr> es = \<lparr>rj_entries = [], rj_capacity = 0\<rparr>"
    by (induction es) (simp_all add: record_all_def Rejections_record_def Rejections_enabled_def)
  with True show ?thesis by (simp add: Rejections_new_def Rejections_len_def Rejections_recent_def)
next
  case False
  have "rejection_matches (Some prefix) =
      (\<lambda>e. rj_namespace e = prefix \<or> (\<exists>rest. rj_namespace e = prefix @ CHR ''/'' # rest))"
    by (rule ext) (auto simp: rejection_matches_def strip_prefix_Some starts_with_iff split: option.splits)
  with False show ?thesis
    using record_all_entries [of "Rejections_new capacity" es]
    by (simp add: Rejections_new_def Rejections_len_def Rejections_recent_def)
qed

end
