(* ===== verification/Listing.thy ===== *)
theory Listing
  imports Consensus
begin

text \<open>
  The listings of \<^verbatim>\<open>src/src/db.rs\<close>: the namespaces a key may see, flat or one level of the tree at a time,
  where a value was sighted, and the tags in use. They read the catalogue, so that an evicted namespace is
  listed like any other, and the code keeps them from reading the disk where it can.
\<close>

section \<open>Definitions\<close>

text \<open>\<open>shards.values().flat_map(|meta| meta.namespaces.iter())\<close>. The code's order is that of its hash maps;
  every use sorts.\<close>

definition all_names :: "database \<Rightarrow> string list" where
  "all_names db = concat (map (\<lambda>(_, meta). sorted_list_of_fset (sm_namespaces meta)) (sorted_list_of_fmap (db_shards db)))"

definition Database_namespace_count :: "database \<Rightarrow> nat" where
  "Database_namespace_count db = sum_list (map (\<lambda>(_, meta). fcard (sm_namespaces meta)) (sorted_list_of_fmap (db_shards db)))"

definition Database_residency :: "database \<Rightarrow> nat \<times> nat" where
  "Database_residency db =
     (length (filter (\<lambda>(_, meta). sm_resident meta) (sorted_list_of_fmap (db_shards db))), fm_size (db_shards db))"

definition count_tags :: "string list \<Rightarrow> (string, u64) fmap \<Rightarrow> (string, u64) fmap" where
  "count_tags found usage = fold (\<lambda>t m. fmupd t (fm_get0 m t + 1) m) found usage"

definition Database_tag_usage :: "datetime \<Rightarrow> database \<Rightarrow> (string, u64) fmap \<times> nat \<times> nat" where
  "Database_tag_usage now db =
     (let total_names = length (filter (\<lambda>n. \<not> is_internal n) (all_names db));
          resident = filter (\<lambda>(n, _). \<not> is_internal n) (sorted_list_of_fmap (db_namespaces db));
          attrs = concat (map (\<lambda>(_, ns). filter (\<lambda>a. \<not> Attribute_is_expired a now) (fm_values (ns_values ns))) resident)
      in (fold (\<lambda>a. count_tags (tags_split (tags a))) attrs fmempty, length resident, total_names))"

definition StorageView_of :: "tier_policy \<Rightarrow> string \<Rightarrow> string \<times> storage_view" where
  "StorageView_of policy shard =
     (let r = TierPolicy_resolve policy shard
      in (Tier_as_str (r_tier r),
          \<lparr>sv_warm_idle = r_warm_idle r, sv_own_tier = (own_tier r \<noteq> None), sv_own_warm_idle = (own_warm_idle r \<noteq> None)\<rparr>))"

definition browsable :: "string \<Rightarrow> bool" where
  "browsable name \<longleftrightarrow> \<not> starts_with name CONFIG_PREFIX \<and> name \<noteq> ALL_NAMESPACE"

definition name_matches :: "string \<Rightarrow> string \<Rightarrow> bool" where
  "name_matches wanted name \<longleftrightarrow> wanted = [] \<or> contains_str (to_ascii_lowercase name) wanted"

definition sort_dedup :: "string list \<Rightarrow> string list" where
  "sort_dedup names = remdups_adj (sort names)"

definition Database_namespace_page ::
  "database \<Rightarrow> string \<Rightarrow> nat \<Rightarrow> nat \<Rightarrow> (string \<Rightarrow> bool) \<Rightarrow> namespace_entry page" where
  "Database_namespace_page db wanted offset limit allowed =
     (let wanted = to_ascii_lowercase wanted;
          names = sort_dedup (filter (\<lambda>n. browsable n \<and> name_matches wanted n \<and> allowed n) (all_names db));
          items = map (\<lambda>n. let shard = shard_of n; (tier, storage) = StorageView_of (db_tiers db) shard
                     in \<lparr>ne_namespace = n, ne_shard = shard, ne_tier = tier, ne_resident = shard_resident db shard,
                         ne_storage = storage\<rparr>)
                   (take limit (drop offset names))
      in \<lparr>pg_items = items, pg_total = length names, pg_offset = offset\<rparr>)"

definition Database_namespaces_under :: "database \<Rightarrow> string \<Rightarrow> (string \<Rightarrow> bool) \<Rightarrow> string list" where
  "Database_namespaces_under db prefix allowed =
     (let prefix = trim_matches CHR ''/'' prefix
      in sort_dedup (filter (\<lambda>n. \<not> is_internal n \<and> under n prefix \<and> allowed n) (all_names db)))"

text \<open>What follows the prefix in a name, when the name is below it.\<close>

definition below :: "string \<Rightarrow> string \<Rightarrow> string option" where
  "below prefix name =
     (if prefix = [] then Some name
      else case strip_prefix name prefix of None \<Rightarrow> None | Some rest \<Rightarrow> strip_prefix rest ''/'')"

definition first_segment :: "string \<Rightarrow> string" where
  "first_segment rest = takeWhile (\<lambda>c. c \<noteq> CHR ''/'') rest"

definition note_child :: "string \<Rightarrow> string \<Rightarrow> (string, bool \<times> nat) fmap \<Rightarrow> (string, bool \<times> nat) fmap" where
  "note_child prefix name children =
     (case below prefix name of
        None \<Rightarrow> children
      | Some rest \<Rightarrow>
          let segment = first_segment rest
          in if segment = [] then children
             else let (is_ns, n) = fm_get (False, 0) children segment
                  in fmupd segment (if length segment = length rest then (True, n) else (is_ns, n + 1)) children)"

definition Database_namespace_children ::
  "database \<Rightarrow> string \<Rightarrow> string \<Rightarrow> nat \<Rightarrow> nat \<Rightarrow> (string \<Rightarrow> bool) \<Rightarrow> tree_entry page" where
  "Database_namespace_children db prefix wanted offset limit allowed =
     (let prefix = trim_matches CHR ''/'' prefix; wanted = to_ascii_lowercase wanted;
          children = fold (note_child prefix) (filter (\<lambda>n. browsable n \<and> allowed n) (all_names db)) fmempty;
          names = filter (name_matches wanted) (fm_keys children);
          items = map (\<lambda>n. let path = (if prefix = [] then n else prefix @ ''/'' @ n);
                               (is_ns, below_it) = fm_get (False, 0) children n;
                               shard = shard_of path; (tier, storage) = StorageView_of (db_tiers db) shard
                     in \<lparr>te_name = n, te_path = path, te_is_namespace = is_ns, te_descendants = below_it, te_shard = shard,
                         te_tier = tier, te_resident = shard_resident db shard, te_storage = storage\<rparr>)
                   (take limit (drop offset names))
      in \<lparr>pg_items = items, pg_total = length names, pg_offset = offset\<rparr>)"

text \<open>The search for a value: the state is the database, which pages in, how many holders were seen and
  what was found; the flag says that the search is over.\<close>

fun search_loop ::
  "'f env \<Rightarrow> 'f disk \<Rightarrow> datetime \<Rightarrow> string \<Rightarrow> nat \<Rightarrow> (string \<Rightarrow> bool) \<Rightarrow> u64 \<Rightarrow> (string \<times> bool) list \<Rightarrow> database \<Rightarrow> u64 \<Rightarrow> sightings
    \<Rightarrow> database \<times> sightings" where
  "search_loop env disk now v limit allowed target [] db seen found = (db, found)"
| "search_loop env disk now v limit allowed target ((name, from_disk) # names) db seen found =
     (if target > 0 \<and> seen \<ge> target then (db, found)
      else case Database_view env disk now db name v 0 False of
             (db, None) \<Rightarrow> search_loop env disk now v limit allowed target names db seen found
           | (db, Some view) \<Rightarrow>
               let found = (if from_disk then found\<lparr>ss_paged_in := True\<rparr> else found); seen = seen + 1
               in if \<not> allowed name then search_loop env disk now v limit allowed target names db seen found
                  else if length (ss_items found) \<ge> limit then (db, found\<lparr>ss_truncated := True\<rparr>)
                  else search_loop env disk now v limit allowed target names db seen
                         (found\<lparr>ss_items := ss_items found @
                            [\<lparr>s_namespace = name, s_shard = shard_of name, s_count = v_count view,
                              s_first_seen = v_first_seen view, s_last_seen = v_last_seen view\<rparr>]\<rparr>))"

definition search_order :: "database \<Rightarrow> (string \<times> bool) list" where
  "search_order db =
     (let metas = map snd (sorted_list_of_fmap (db_shards db));
          names = (\<lambda>res. filter counts_towards_consensus (concat (map (\<lambda>m. sorted_list_of_fset (sm_namespaces m))
                     (filter (\<lambda>m. sm_resident m = res) metas))))
      in map (\<lambda>n. (n, False)) (names True) @ map (\<lambda>n. (n, True)) (names False))"

definition Database_sightings_of ::
  "'f env \<Rightarrow> 'f disk \<Rightarrow> datetime \<Rightarrow> database \<Rightarrow> string \<Rightarrow> nat \<Rightarrow> (string \<Rightarrow> bool) \<Rightarrow> database \<times> sightings" where
  "Database_sightings_of env disk now db v limit allowed =
     (let (db, target) = Database_count env disk now db ALL_NAMESPACE v;
          (db, found) = search_loop env disk now v limit allowed target (search_order db) db 0
             \<lparr>ss_items = [], ss_truncated = False, ss_paged_in = False\<rparr>
      in (db, found\<lparr>ss_items := sort_key s_namespace (ss_items found)\<rparr>))"

definition Database_set_policy :: "database \<Rightarrow> string \<Rightarrow> tier_entry \<Rightarrow> database" where
  "Database_set_policy db shard entry = db\<lparr>db_tiers := TierPolicy_set (db_tiers db) shard entry\<rparr>"

definition Database_resolved_policy :: "database \<Rightarrow> string \<Rightarrow> resolved" where
  "Database_resolved_policy db shard = TierPolicy_resolve (db_tiers db) shard"

definition Database_shard_effect :: "database \<Rightarrow> string \<Rightarrow> string" where
  "Database_shard_effect db shard =
     (case Resolved_idle_allowance (Database_resolved_policy db shard) of
        None \<Rightarrow> [CHR 0x27] @ shard @ [CHR 0x27] @ '' and everything under it stays in memory''
      | Some window \<Rightarrow>
          if window = 0 then [CHR 0x27] @ shard @ [CHR 0x27] @ '' and everything under it is dropped at the next sweep once idle''
          else [CHR 0x27] @ shard @ [CHR 0x27] @ '' and everything under it is dropped after '' @ show_u64 window @ ''s untouched'')"

definition Database_tier_overrides :: "database \<Rightarrow> (string \<times> string option \<times> u64 option) list" where
  "Database_tier_overrides db =
     map (\<lambda>(shard, e). (shard, map_option Tier_as_str (e_tier e), e_warm_idle e)) (sorted_list_of_fmap (tp_entries (db_tiers db)))"

section \<open>Lemmas\<close>

lemma inv_names:
  assumes "db_inv_upto env disk X db" "fmlookup (db_shards db) s = Some m" "n |\<in>| sm_namespaces m"
  shows "shard_of n = s"
proof -
  have "shard_sound env disk X db s m" using assms(1,2) by (simp add: db_inv_upto_def)
  then show ?thesis using assms(3) by (rule shard_sound_names)
qed

lemma set_all_names: "set (all_names db) = {n. \<exists>s meta. fmlookup (db_shards db) s = Some meta \<and> n |\<in>| sm_namespaces meta}"
  by (force simp: all_names_def)

lemma catalogue_is_contents:
  assumes inv: "db_inv_upto env disk X db"
  shows "n \<in> set (all_names db) \<longleftrightarrow> contents env disk db n \<noteq> None"
proof
  assume "n \<in> set (all_names db)"
  then obtain s meta where m: "fmlookup (db_shards db) s = Some meta" "n |\<in>| sm_namespaces meta" by (auto simp: set_all_names)
  then have "shard_of n = s" by (rule inv_names [OF inv])
  then show "contents env disk db n \<noteq> None" using catalogued_held [OF inv, of n meta] m by simp
next
  assume c: "contents env disk db n \<noteq> None"
  then have "fmlookup (db_shards db) (shard_of n) \<noteq> None"
    using not_resident_not_in_memory [OF inv, of n]
    by (cases "fmlookup (db_shards db) (shard_of n)") (auto simp: contents_def Database_catalogued_def shard_resident_def)
  then obtain meta where m: "fmlookup (db_shards db) (shard_of n) = Some meta" by auto
  then show "n \<in> set (all_names db)" using catalogued_held [OF inv m] c by (auto simp: set_all_names)
qed

lemma sort_dedup_set [simp]: "set (sort_dedup xs) = set xs" "sorted (sort_dedup xs)" "distinct (sort_dedup xs)"
proof -
  show "set (sort_dedup xs) = set xs" "sorted (sort_dedup xs)"
    by (simp_all add: sort_dedup_def sorted_remdups_adj)
  have "distinct (remdups_adj ys)" if "sorted ys" for ys :: "string list"
    using that by (induction ys rule: remdups_adj.induct) (auto simp: dual_order.antisym)
  then show "distinct (sort_dedup xs)" by (simp add: sort_dedup_def)
qed

text \<open>
  What a key may list, and only that: the namespaces at or under a prefix are listed in order and
  without repetition, and they are exactly those the database holds, in memory or evicted, that are not
  its own bookkeeping, that lie under the prefix segment by segment, and that the key is allowed to see.
\<close>
theorem namespaces_under_lists_exactly:
  assumes "db_inv env disk db"
  shows "set (Database_namespaces_under db prefix allowed) =
      {n. contents env disk db n \<noteq> None \<and> \<not> is_internal n \<and> under n (trim_matches CHR ''/'' prefix) \<and> allowed n} \<and>
    sorted (Database_namespaces_under db prefix allowed) \<and> distinct (Database_namespaces_under db prefix allowed)"
  using catalogue_is_contents [OF assms] by (auto simp: Database_namespaces_under_def Let_def)

theorem namespaces_under_lists_exactly_witness:
  "set (Database_namespaces_under (fst sample_write) ''/'' (\<lambda>_. True)) \<subseteq> {n. \<not> is_internal n}"
proof -
  have inv: "db_inv sample_env fmempty (fst sample_write)" using sample_write_inv by (rule inv_mono) simp
  show ?thesis using namespaces_under_lists_exactly [OF inv, of "''/''" "\<lambda>_. True"] by auto
qed

section \<open>Finding every sighting\<close>

definition live :: "logical \<Rightarrow> datetime \<Rightarrow> string \<Rightarrow> string \<Rightarrow> attribute option" where
  "live C now v n =
     (case fmlookup (values_of C n) v of None \<Rightarrow> None | Some a \<Rightarrow> if Attribute_is_expired a now then None else Some a)"

lemma view_live: "view_in C n v c b now = map_option (\<lambda>a. Attribute_view a c b) (live C now v n)"
  by (simp add: view_in_def live_def split: option.split)

lemma live_holds: "counts_towards_consensus n \<Longrightarrow> live C now v n \<noteq> None \<Longrightarrow> n \<in> holders C v"
  by (auto simp: live_def holders_def fmlookup_dom'_iff split: option.splits)

definition names_with :: "database \<Rightarrow> bool \<Rightarrow> string list" where
  "names_with db res = concat (map (\<lambda>m. sorted_list_of_fset (sm_namespaces m))
     (filter (\<lambda>m. sm_resident m = res) (map snd (sorted_list_of_fmap (db_shards db)))))"

lemma search_order_eq:
  "search_order db = map (\<lambda>n. (n, False)) (filter counts_towards_consensus (names_with db True)) @
     map (\<lambda>n. (n, True)) (filter counts_towards_consensus (names_with db False))"
  by (simp add: search_order_def names_with_def Let_def)

lemma set_names_with:
  "set (names_with db res) = {n. \<exists>s m. fmlookup (db_shards db) s = Some m \<and> sm_resident m = res \<and> n |\<in>| sm_namespaces m}"
proof -
  have A: "m \<in> set (map snd (sorted_list_of_fmap (db_shards db))) \<longleftrightarrow> (\<exists>s. fmlookup (db_shards db) s = Some m)" for m
    by (auto simp: image_iff) (metis set_sorted_list_of_fmap snd_conv)
  have B: "set (concat (map (\<lambda>m. sorted_list_of_fset (sm_namespaces m)) (filter P ms))) =
      {n. \<exists>m \<in> set ms. P m \<and> n |\<in>| sm_namespaces m}" for P ms by auto
  show ?thesis unfolding names_with_def B Bex_def A by blast
qed

lemma distinct_names_with:
  assumes inv: "db_inv_upto env disk X db"
  shows "distinct (names_with db res)"
proof -
  have "distinct (concat (map (\<lambda>m. sorted_list_of_fset (sm_namespaces m)) (filter (\<lambda>m. sm_resident m = res) (map snd L))))"
    if "distinct (map fst L)" "\<forall>(s, m) \<in> set L. \<forall>n. n |\<in>| sm_namespaces m \<longrightarrow> shard_of n = s" for L
    using that
  proof (induction L)
    case (Cons x L)
    obtain s m where x: "x = (s, m)" by fastforce
    have "n |\<notin>| sm_namespaces m'" if "(s', m') \<in> set L" "n |\<in>| sm_namespaces m" for s' m' n
    proof -
      have "s' \<noteq> s" using Cons.prems(1) that x by force
      then show ?thesis using Cons.prems(2) that x by fastforce
    qed
    then show ?case using Cons x by (auto simp: sorted_list_of_fset.rep_eq)
  qed simp
  moreover have "\<forall>(s, m) \<in> set (sorted_list_of_fmap (db_shards db)). \<forall>n. n |\<in>| sm_namespaces m \<longrightarrow> shard_of n = s"
    by (auto intro: inv_names [OF inv])
  moreover have "distinct (map fst (sorted_list_of_fmap (db_shards db)))" by (simp add: fm_keys_def [symmetric])
  ultimately show ?thesis unfolding names_with_def by blast
qed

lemma search_order_names:
  assumes inv: "db_inv_upto env disk X db"
  shows "set (map fst (search_order db)) = {n. counts_towards_consensus n \<and> contents env disk db n \<noteq> None}"
    "distinct (map fst (search_order db))"
proof -
  have "set (names_with db True) \<union> set (names_with db False) = set (all_names db)" by (auto simp: set_all_names set_names_with)
  then show "set (map fst (search_order db)) = {n. counts_towards_consensus n \<and> contents env disk db n \<noteq> None}"
    using catalogue_is_contents [OF inv] by (auto simp: search_order_eq)
  have "set (names_with db True) \<inter> set (names_with db False) = {}"
  proof -
    have False if both: "n \<in> set (names_with db True)" "n \<in> set (names_with db False)" for n
    proof -
      obtain s m s' m' where m: "fmlookup (db_shards db) s = Some m" "sm_resident m" "n |\<in>| sm_namespaces m"
        "fmlookup (db_shards db) s' = Some m'" "\<not> sm_resident m'" "n |\<in>| sm_namespaces m'"
        using both by (auto simp: set_names_with)
      then show False using inv_names [OF inv m(1,3)] inv_names [OF inv m(4,6)] by simp
    qed
    then show ?thesis by blast
  qed
  then show "distinct (map fst (search_order db))"
    using distinct_names_with [OF inv] by (auto simp: search_order_eq comp_def)
qed

text \<open>What the search has when it stops, for a value held by the namespaces \<open>H\<close> of which \<open>L\<close> have it live.\<close>

definition good_item :: "logical \<Rightarrow> datetime \<Rightarrow> string \<Rightarrow> sighting \<Rightarrow> bool" where
  "good_item C now v item \<longleftrightarrow> s_shard item = shard_of (s_namespace item) \<and>
     (\<exists>a. live C now v (s_namespace item) = Some a \<and> s_count item = Attribute_count a \<and>
       s_first_seen item = timestamp (first_seen a) \<and> s_last_seen item = timestamp (last_seen a))"

definition found_ok :: "logical \<Rightarrow> datetime \<Rightarrow> string \<Rightarrow> nat \<Rightarrow> string set \<Rightarrow> sightings \<Rightarrow> bool" where
  "found_ok C now v limit wanted found \<longleftrightarrow>
     distinct (map s_namespace (ss_items found)) \<and> set (map s_namespace (ss_items found)) \<subseteq> wanted \<and>
     (\<forall>item \<in> set (ss_items found). good_item C now v item) \<and>
     (if ss_truncated found then length (ss_items found) = limit else set (map s_namespace (ss_items found)) = wanted)"

lemma found_ok_paged [simp]: "found_ok C now v limit W (found\<lparr>ss_paged_in := b\<rparr>) = found_ok C now v limit W found"
  by (simp add: found_ok_def)

lemma found_ok_sort: "found_ok C now v limit W (found\<lparr>ss_items := sort_key f (ss_items found)\<rparr>) = found_ok C now v limit W found"
  by (simp add: found_ok_def distinct_map)

lemma found_ok_truncate:
  "found_ok C now v limit W found \<Longrightarrow> \<not> ss_truncated found \<Longrightarrow> length (ss_items found) = limit \<Longrightarrow> W \<subseteq> W' \<Longrightarrow>
   found_ok C now v limit W' (found\<lparr>ss_truncated := True\<rparr>)"
  by (auto simp: found_ok_def)

lemma found_ok_push:
  "found_ok C now v limit W found \<Longrightarrow> \<not> ss_truncated found \<Longrightarrow> good_item C now v item \<Longrightarrow> s_namespace item \<notin> W \<Longrightarrow>
   found_ok C now v limit (insert (s_namespace item) W) (found\<lparr>ss_items := ss_items found @ [item]\<rparr>)"
  by (auto simp: found_ok_def)

lemma u64_of_nat_le: "a < 2 ^ 64 \<Longrightarrow> b < 2 ^ 64 \<Longrightarrow> (of_nat a :: u64) \<le> of_nat b \<longleftrightarrow> a \<le> b"
  by (simp add: word_le_nat_alt unsigned_of_nat take_bit_nat_eq_self)

lemma search_loop_finds:
  assumes "db_inv_upto env disk X db" "contents env disk db = C"
    and "distinct (map fst names)" "D \<inter> set (map fst names) = {}" "finite H" "card H < 2 ^ 64" "target = of_nat (card H)"
    and "D \<subseteq> H" "\<And>n. n \<in> set (map fst names) \<Longrightarrow> live C now v n \<noteq> None \<Longrightarrow> n \<in> H"
    and "seen = of_nat (card D)" "length (ss_items found) \<le> limit"
    and "found_ok C now v limit {n \<in> D. allowed n} found" "\<not> ss_truncated found"
    and "search_loop env disk now v limit allowed target names db seen found = (db', found')"
  shows "db_inv_upto env disk X db' \<and> contents env disk db' = C \<and>
    found_ok C now v limit {n \<in> D \<union> {n \<in> set (map fst names). live C now v n \<noteq> None}. allowed n} found'"
  using assms
proof (induction names arbitrary: db seen found D)
  case (Cons x names)
  obtain name from_disk where x: "x = (name, from_disk)" by fastforce
  let ?live = "{n \<in> set (map fst (x # names)). live C now v n \<noteq> None}" and ?rest = "{n \<in> set (map fst names). live C now v n \<noteq> None}"
  show ?case
  proof (cases "target > 0 \<and> seen \<ge> target")
    case True
    have "finite D" using Cons.prems(5,8) finite_subset by blast
    have "card D \<le> card H" by (rule card_mono [OF Cons.prems(5,8)])
    moreover have "card H \<le> card D"
      using True Cons.prems(6,7,10) \<open>card D \<le> card H\<close> by (simp add: u64_of_nat_le)
    ultimately have "D = H" using Cons.prems(5,8) by (metis card_subset_eq le_antisym)
    then have "?live = {}" using Cons.prems(4,9) by auto
    then have "{n \<in> D \<union> ?live. allowed n} = {n \<in> D. allowed n}" by blast
    moreover have "db' = db" "found' = found" using Cons.prems(14) True x by auto
    ultimately show ?thesis using Cons.prems(1,2,12) by (simp only: simp_thms)
  next
    case False
    obtain db1 r where view: "Database_view env disk now db name v 0 False = (db1, r)" by fastforce
    have rd: "db_inv_upto env disk X db1" "contents env disk db1 = C" "r = map_option (\<lambda>a. Attribute_view a 0 False) (live C now v name)"
      using view_reads [OF Cons.prems(1) view] Cons.prems(2) by (simp_all add: view_live)
    have D: "D \<inter> set (map fst names) = {}" "distinct (map fst names)" "name \<notin> set (map fst names)" "name \<notin> D"
      using Cons.prems(3,4) x by auto
    have H: "\<And>n. n \<in> set (map fst names) \<Longrightarrow> live C now v n \<noteq> None \<Longrightarrow> n \<in> H" using Cons.prems(9) by simp
    show ?thesis
    proof (cases "live C now v name")
      case None
      then have "search_loop env disk now v limit allowed target names db1 seen found = (db', found')"
        using Cons.prems(14) False view rd(3) by (simp add: x)
      note ih = Cons.IH [OF rd(1,2) D(2,1) Cons.prems(5-8) H Cons.prems(10-13) this]
      have "?live = ?rest" using None x by auto
      then show ?thesis using ih by (simp only: simp_thms)
    next
      case (Some a)
      let ?D = "insert name D" and ?found = "if from_disk then found\<lparr>ss_paged_in := True\<rparr> else found"
      let ?item = "\<lparr>s_namespace = name, s_shard = shard_of name, s_count = v_count (Attribute_view a 0 False),
        s_first_seen = v_first_seen (Attribute_view a 0 False), s_last_seen = v_last_seen (Attribute_view a 0 False)\<rparr>"
      have live: "D \<union> ?live = ?D \<union> ?rest" using Some x by auto
      have "finite D" using Cons.prems(5,8) finite_subset by blast
      have D': "?D \<inter> set (map fst names) = {}" "?D \<subseteq> H" "seen + 1 = of_nat (card ?D)"
        using D Cons.prems(8,9,10) Some x \<open>finite D\<close> by auto
      have items: "ss_items ?found = ss_items found" "ss_truncated ?found = ss_truncated found" by simp_all
      have good: "good_item C now v ?item" using Some by (simp add: good_item_def Attribute_view_def)
      have step: "search_loop env disk now v limit allowed target (x # names) db seen found =
        (if \<not> allowed name then search_loop env disk now v limit allowed target names db1 (seen + 1) ?found
         else if length (ss_items ?found) \<ge> limit then (db1, ?found\<lparr>ss_truncated := True\<rparr>)
         else search_loop env disk now v limit allowed target names db1 (seen + 1) (?found\<lparr>ss_items := ss_items ?found @ [?item]\<rparr>))"
        using view rd(3) Some unfolding x search_loop.simps if_not_P [OF False] by (simp add: Let_def split del: if_split)
      have old: "found_ok C now v limit {n \<in> D. allowed n} ?found" using Cons.prems(12) by simp
      consider "\<not> allowed name" | "allowed name" "length (ss_items ?found) \<ge> limit" | "allowed name" "length (ss_items ?found) < limit" by linarith
      then show ?thesis
      proof cases
        case 1
        then have same: "{n \<in> ?D. allowed n} = {n \<in> D. allowed n}" by auto
        have ok: "found_ok C now v limit {n \<in> ?D. allowed n} ?found" unfolding same by (rule old)
        have "search_loop env disk now v limit allowed target names db1 (seen + 1) ?found = (db', found')"
          using step Cons.prems(14) 1 by simp
        from Cons.IH [OF rd(1,2) D(2) D'(1) Cons.prems(5-7) D'(2) H D'(3) _ ok _ this] show ?thesis
          unfolding live using Cons.prems(11,13) by simp
      next
        case 2
        then have res: "db' = db1" "found' = ?found\<lparr>ss_truncated := True\<rparr>" using step Cons.prems(14) by auto
        have "found_ok C now v limit {n \<in> ?D \<union> ?rest. allowed n} found'"
          unfolding res(2) using 2 [unfolded items] Cons.prems(11,13) by (intro found_ok_truncate [OF old]) (auto simp: items)
        then show ?thesis using rd(1,2) res(1) unfolding live by simp
      next
        case 3
        let ?next = "?found\<lparr>ss_items := ss_items ?found @ [?item]\<rparr>"
        have "insert (s_namespace ?item) {n \<in> D. allowed n} = {n \<in> ?D. allowed n}" using 3(1) by auto
        then have ok: "found_ok C now v limit {n \<in> ?D. allowed n} ?next"
          using found_ok_push [OF old _ good] Cons.prems(13) D(4) by simp
        have "search_loop env disk now v limit allowed target names db1 (seen + 1) ?next = (db', found')"
          using step Cons.prems(14) 3 by simp
        from Cons.IH [OF rd(1,2) D(2) D'(1) Cons.prems(5-7) D'(2) H D'(3) _ ok _ this] show ?thesis
          unfolding live using 3(2) Cons.prems(13) by simp
      qed
    qed
  qed
qed auto

text \<open>
  C39. Asking where a value was sighted finds every place: the search, which uses the consensus tally to
  stop early and reads evicted shards only when it has to, answers the namespaces the key may see in
  which the value is held and has not expired, each once, in order, with its count and times; when the
  answer is marked truncated it is a full page of them. It changes nothing that is stored.
\<close>
theorem sightings_of_complete:
  assumes "db_inv env disk db" and "consensus_ok (db_node db) (contents env disk db)"
    and "Database_sightings_of env disk now db v limit allowed = (db', found)"
  shows "db_inv env disk db' \<and> contents env disk db' = contents env disk db \<and>
    sorted (map s_namespace (ss_items found)) \<and>
    found_ok (contents env disk db) now v limit
      {n. counts_towards_consensus n \<and> live (contents env disk db) now v n \<noteq> None \<and> allowed n} found"
proof -
  let ?C = "contents env disk db" and ?H = "holders (contents env disk db) v"
  obtain db1 target where cnt: "Database_count env disk now db ALL_NAMESPACE v = (db1, target)" by fastforce
  note rd = count_reads [OF assms(1) cnt]
  have target: "target = of_nat (card ?H)"
    using consensus_answers [OF assms(1,2), of now v] cnt by simp
  have bound: "card ?H < 2 ^ 64"
    using tallied_at [OF assms(2) [unfolded consensus_ok_def], of v]
    by (cases "fmlookup (values_of ?C ALL_NAMESPACE) v") auto
  obtain found0 where loop: "search_loop env disk now v limit allowed target (search_order db1) db1 0
      \<lparr>ss_items = [], ss_truncated = False, ss_paged_in = False\<rparr> = (db', found0)"
    and found: "found = found0\<lparr>ss_items := sort_key s_namespace (ss_items found0)\<rparr>"
    using assms(3) cnt by (auto simp: Database_sightings_of_def split: prod.splits)
  have inv1: "db_inv env disk db1" and c1: "contents env disk db1 = ?C" using rd by simp_all
  note names = search_order_names [OF inv1]
  have "db_inv env disk db' \<and> contents env disk db' = ?C \<and>
    found_ok ?C now v limit {n \<in> {} \<union> {n \<in> set (map fst (search_order db1)). live ?C now v n \<noteq> None}. allowed n} found0"
  proof (rule search_loop_finds [OF inv1 c1 names(2) _ finite_holders_db bound target _ _ _ _ _ _ loop])
    show "n \<in> ?H" if "n \<in> set (map fst (search_order db1))" "live ?C now v n \<noteq> None" for n
      using that live_holds names(1) by blast
  qed (simp_all add: found_ok_def)
  moreover have "{n \<in> {} \<union> {n \<in> set (map fst (search_order db1)). live ?C now v n \<noteq> None}. allowed n} =
      {n. counts_towards_consensus n \<and> live ?C now v n \<noteq> None \<and> allowed n}"
    unfolding names(1) c1 by (auto simp: live_def values_of_def split: option.splits)
  ultimately show ?thesis unfolding found found_ok_sort by simp
qed

theorem sightings_of_complete_witness:
  "contents sample_env fmempty (fst (Database_sightings_of sample_env fmempty (DateTime 100 0) (fst sample_write) ''v'' 10 (\<lambda>_. True))) =
   contents sample_env fmempty (fst sample_write)"
proof -
  have inv: "db_inv sample_env fmempty (fst sample_write)" using sample_write_inv by (rule inv_mono) simp
  obtain db' found where f: "Database_sightings_of sample_env fmempty (DateTime 100 0) (fst sample_write) ''v'' 10 (\<lambda>_. True) = (db', found)"
    by fastforce
  show ?thesis using sightings_of_complete [OF inv sample_write_ok f] f by simp
qed

end
