(* ===== verification/Handlers.thy ===== *)
theory Handlers
  imports Sync Acl Rejections Listing
begin

text \<open>
  The HTTP interface: \<^verbatim>\<open>src/src/handlers.rs\<close>, the part that answers one request at a time: who may do what,
  which requests are passed on to another server, reading, writing, deleting and listing. A handler takes the
  state of the server and the state \<open>'w\<close> of the network and returns both with the response. What the web
  framework decodes (path, query, body) arrives as records with the fields of the source's structs, and a
  response body is a value of the datatype \<open>body\<close>, one constructor for each struct that is serialised.
  Logging is not modelled.
\<close>

section \<open>The state of the server\<close>

text \<open>Of the description of the server (\<open>info\<close>) only the address it listens on is used by what is modelled.\<close>

record shared_state =
  sh_db :: database
  sh_authenticate :: bool
  sh_acl :: acl
  sh_listen :: string
  sh_acl_file :: "string option"
  sh_tiers_file :: "string option"
  sh_tags :: vocabulary
  sh_tags_file :: "string option"
  sh_rejections :: rejections
  sh_galaxy :: "galaxy option"
  sh_galaxy_peers_file :: "string option"
  sh_revoked :: "(string, int) fmap"
  sh_acl_replaceable :: bool
  sh_joining :: bool

text \<open>\<open>Iterator::min_by_key\<close>: the first of the least.\<close>

fun min_by_key :: "('a \<Rightarrow> int) \<Rightarrow> 'a list \<Rightarrow> 'a option" where
  "min_by_key f [] = None"
| "min_by_key f (x # xs) = (case min_by_key f xs of None \<Rightarrow> Some x | Some y \<Rightarrow> Some (if f x \<le> f y then x else y))"

lemma min_by_key_None: "min_by_key f xs = None \<longleftrightarrow> xs = []"
  by (cases xs) (auto split: option.splits)

lemma min_by_key_least: "min_by_key f xs = Some x \<Longrightarrow> x \<in> set xs \<and> (\<forall>y \<in> set xs. f x \<le> f y)"
proof (induction xs arbitrary: x)
  case (Cons a xs)
  show ?case
  proof (cases "min_by_key f xs")
    case None
    then show ?thesis using Cons.prems by (simp add: min_by_key_None)
  next
    case (Some y)
    then show ?thesis using Cons.prems Cons.IH [OF Some] by (auto split: if_splits)
  qed
qed simp

definition REVOKED_KEEP :: nat where
  "REVOKED_KEEP = 1000"

function forget_oldest :: "nat \<Rightarrow> (string, int) fmap \<Rightarrow> (string, int) fmap" where
  "forget_oldest keep revoked =
     (if fm_size revoked > keep
      then case min_by_key snd (sorted_list_of_fmap revoked) of
             Some (oldest, _) \<Rightarrow> forget_oldest keep (fmdrop oldest revoked)
           | None \<Rightarrow> revoked
      else revoked)"
  by auto
termination
proof (relation "measure (\<lambda>(keep, revoked). fm_size revoked)")
  fix keep :: nat and revoked :: "(string, int) fmap" and p oldest t
  assume "min_by_key snd (sorted_list_of_fmap revoked) = Some p" "(oldest, t) = p"
  then have "oldest \<in> fmdom' revoked"
    using min_by_key_least [of snd "sorted_list_of_fmap revoked" p] by (auto simp: sorted_list_of_fmap_keys)
  then show "((keep, fmdrop oldest revoked), keep, revoked) \<in> measure (\<lambda>(keep, revoked). fm_size revoked)"
    by (simp add: fm_size_alt card_Diff1_less del: card_Diff_insert)
qed simp

declare forget_oldest.simps [simp del]

definition note_revoked :: "int \<Rightarrow> shared_state \<Rightarrow> string \<Rightarrow> shared_state" where
  "note_revoked now sh key = sh\<lparr>sh_revoked := forget_oldest REVOKED_KEEP (fmupd key now (sh_revoked sh))\<rparr>"

definition note_unrevoked :: "shared_state \<Rightarrow> string \<Rightarrow> shared_state" where
  "note_unrevoked sh key = sh\<lparr>sh_revoked := fmdrop key (sh_revoked sh)\<rparr>"

definition revoked_keys :: "shared_state \<Rightarrow> string list" where
  "revoked_keys sh = map fst (sort_key (\<lambda>(_, t). - t) (sorted_list_of_fmap (sh_revoked sh)))"

definition catching_up :: "shared_state \<Rightarrow> bool" where
  "catching_up sh = sh_joining sh"

definition set_catching_up :: "shared_state \<Rightarrow> bool \<Rightarrow> shared_state" where
  "set_catching_up sh b = sh\<lparr>sh_joining := b\<rparr>"

section \<open>Requests and responses\<close>

record http_in =
  hr_headers :: "(string \<times> string) list"
  hr_path :: string
  hr_query :: "string option"

definition path_and_query :: "http_in \<Rightarrow> string" where
  "path_and_query req = hr_path req @ (case hr_query req of None \<Rightarrow> [] | Some q \<Rightarrow> ''?'' @ q)"

record read_query =
  q_val :: "string option"
  q_noshadow :: "string option"
  q_count :: "string option"
  q_for_merge :: "string option"
  q_offset :: "nat option"
  q_limit :: "nat option"

definition clamp :: "nat \<Rightarrow> nat \<Rightarrow> nat \<Rightarrow> nat" where
  "clamp lo hi n = min hi (max lo n)"

definition ReadQuery_limit :: "read_query \<Rightarrow> nat" where
  "ReadQuery_limit q = clamp 1 5000 (unwrap_or (q_limit q) 500)"

record write_query =
  wq_val :: "string option"
  wq_timestamp :: "int option"
  wq_ttl :: "u64 option"
  wq_tags :: "string option"

record bulk_sighting =
  bs_namespace :: string
  bs_value :: string
  bs_timestamp :: "int option"
  bs_ttl :: "u64 option"
  bs_tags :: string
  bs_noshadow :: bool

record write_response =
  wr_message :: string
  wr_count :: u64
  wr_new :: bool

datatype bulk_read_item = Found attribute_view | ReadError json | Relayed json

record bulk_write_item =
  bw_index :: nat
  bw_namespace :: string
  bw_value :: string
  bw_status :: string
  bw_count :: "u64 option"
  bw_new :: "bool option"
  bw_error :: "string option"

record bulk_write_error =
  be_namespace :: string
  be_value :: string
  be_error :: string

record bulk_write_response =
  br_message :: string
  br_written :: nat
  br_items :: "bulk_write_item list"
  br_errors :: "bulk_write_error list"

record merge_item =
  mi_namespace :: string
  mi_value :: string
  mi_counts :: "(string, u64) fmap"
  mi_stats :: "(string, (int, u64) fmap) fmap"
  mi_first_seen :: int
  mi_last_seen :: int
  mi_tags :: string
  mi_tags_at :: int
  mi_ttl :: u64

definition MergeItem_state :: "merge_item \<Rightarrow> merge_data" where
  "MergeItem_state item = \<lparr>m_counts = mi_counts item, m_stats = mi_stats item, m_first_seen = mi_first_seen item,
     m_last_seen = mi_last_seen item, m_tags = mi_tags item, m_tags_at = mi_tags_at item, m_ttl = mi_ttl item\<rparr>"

record merge_result =
  mr_index :: nat
  mr_namespace :: string
  mr_value :: string
  mr_status :: string
  mr_changed :: "bool option"
  mr_count :: "u64 option"
  mr_ignored_self :: "nat option"
  mr_error :: "string option"

record merge_response =
  ms_message :: string
  ms_changed :: nat
  ms_items :: "merge_result list"
  ms_errors :: "bulk_write_error list"

record health_data =
  hd_status :: string
  hd_version :: string
  hd_uptime_seconds :: u64
  hd_resident_shards :: nat
  hd_shards :: nat
  hd_catching_up :: bool

datatype body =
    Json json
  | Bytes string
  | CountOf string value_count
  | MergePage string "(string \<times> merge_data) list" nat nat
  | MergePayload merge_data
  | View attribute_view
  | Views "attribute_view list"
  | Wrote write_response
  | BulkRead "bulk_read_item list"
  | BulkWrite bulk_write_response
  | BulkValidate bulk_write_response
  | Merged merge_response
  | Names "string list"
  | LatestOf "entry list" nat nat
  | Health health_data

record response =
  rs_status :: nat
  rs_headers :: "(string \<times> string) list"
  rs_body :: body

text \<open>\<open>HttpResponseBuilder::insert_header\<close> replaces what has the name already.\<close>

definition insert_header :: "string \<times> string \<Rightarrow> (string \<times> string) list \<Rightarrow> (string \<times> string) list" where
  "insert_header h headers = filter (\<lambda>(n, _). \<not> eq_ignore_ascii_case n (fst h)) headers @ [h]"

definition json_response :: "nat \<Rightarrow> body \<Rightarrow> response" where
  "json_response status b = \<lparr>rs_status = status, rs_headers = [(''content-type'', ''application/json'')], rs_body = b\<rparr>"

definition message_response :: "nat \<Rightarrow> string \<Rightarrow> response" where
  "message_response status message = json_response status (Json (message_body message))"

definition error_response :: "api_error \<Rightarrow> response" where
  "error_response err = json_response (ApiError_status err) (Json (ApiError_body err))"

text \<open>
  What the server runs on: the files, the clock, the conversion of timestamps, the hash, the network, and
  reading and printing JSON (a bulk request can fail to serialise).
\<close>

record ('f, 'w) runtime =
  rt_env :: "'f env"
  rt_disk :: "'f disk"
  rt_now :: datetime
  rt_from_timestamp :: "int \<Rightarrow> datetime option"
  rt_sha256 :: "string \<Rightarrow> string"
  rt_net :: "'w network"
  rt_json_in :: "string \<Rightarrow> string + json"
  rt_batch_out :: "bulk_sighting list \<Rightarrow> string + string"

section \<open>Authorization\<close>

datatype access = Read | Write

definition api_key :: "shared_state \<Rightarrow> http_in \<Rightarrow> response + string option" where
  "api_key sh req =
     (if \<not> sh_authenticate sh then Inr None
      else case header_of (hr_headers req) ''Authorization'' of
             None \<Rightarrow> Inl (message_response 401 ''Please add the API key in the Authorization headers.'')
           | Some header \<Rightarrow>
               (case header_text header of
                  None \<Rightarrow> Inl (message_response 400 ''Authorization header is not valid UTF-8.'')
                | Some apikey \<Rightarrow> Inr (Some apikey)))"

definition refusal_for :: "shared_state \<Rightarrow> string option \<Rightarrow> string \<Rightarrow> access \<Rightarrow> string option" where
  "refusal_for sh key namespace acc =
     (case key of
        None \<Rightarrow> None
      | Some apikey \<Rightarrow>
          let (allowed, verb) = (case acc of
                 Read \<Rightarrow> (Acl_can_read (sh_acl sh) apikey namespace, ''read'')
               | Write \<Rightarrow> (Acl_can_write (sh_acl sh) apikey namespace, ''write''))
          in if allowed then None else Some (''API key is not permitted to '' @ verb @ '' this namespace.''))"

definition authorize :: "shared_state \<Rightarrow> http_in \<Rightarrow> string \<Rightarrow> access \<Rightarrow> response + unit" where
  "authorize sh req namespace acc =
     (case api_key sh req of
        Inl resp \<Rightarrow> Inl resp
      | Inr apikey \<Rightarrow>
          (case refusal_for sh apikey namespace acc of
             None \<Rightarrow> Inr ()
           | Some message \<Rightarrow> Inl (message_response 403 message)))"

section \<open>Passing on\<close>

definition forward_failed :: "forward_error \<Rightarrow> response" where
  "forward_failed e =
     message_response (case e of NoHolder \<Rightarrow> 421 | TooManyHops \<Rightarrow> 508 | _ \<Rightarrow> 502) (ForwardError_to_string e)"

definition should_forward :: "shared_state \<Rightarrow> http_in \<Rightarrow> string \<Rightarrow> (response + u8) option" where
  "should_forward sh req namespace =
     (if StoragePolicy_holds (db_stores (sh_db sh)) namespace then None
      else case sh_galaxy sh of
             None \<Rightarrow> None
           | Some g \<Rightarrow>
               if is_internal namespace then None
               else Some (case hops_left (hr_headers req) (g_max_hops g) of
                            Some hops \<Rightarrow> Inr hops
                          | None \<Rightarrow> Inl (forward_failed TooManyHops)))"

definition origin_to_send :: "shared_state \<Rightarrow> http_in \<Rightarrow> string" where
  "origin_to_send sh req = unwrap_or (origin_of (hr_headers req)) (db_node (sh_db sh))"

fun pass_headers :: "(string \<times> string) list \<Rightarrow> bool \<Rightarrow> (string \<times> string) list \<Rightarrow> (string \<times> string) list" where
  "pass_headers [] typed headers =
     (if typed then headers else insert_header (''content-type'', ''application/json'') headers)"
| "pass_headers ((name, v) # rest) typed headers =
     (if eq_ignore_ascii_case name ''content-type'' then pass_headers rest True (insert_header (''content-type'', v) headers)
      else pass_headers rest typed (insert_header (name, v) headers))"

definition relayed :: "forwarded \<Rightarrow> response" where
  "relayed answer =
     \<lparr>rs_status = (if 100 \<le> fw_status answer \<and> fw_status answer < 1000 then fw_status answer else 502),
      rs_headers = pass_headers (fw_headers answer) False [(''X-SightingDB-Forwarded'', ''1'')],
      rs_body = Bytes (fw_body answer)\<rparr>"

definition suppressing_shadow :: "http_in \<Rightarrow> string" where
  "suppressing_shadow req =
     (let query = unwrap_or (hr_query req) []
      in if query = [] then hr_path req @ ''?noshadow''
         else if list_ex (\<lambda>part. part = ''noshadow'' \<or> starts_with part ''noshadow='') (split_on CHR ''&'' query)
              then hr_path req @ ''?'' @ query
         else hr_path req @ ''?'' @ query @ ''&noshadow'')"

definition own_write :: "('f, 'w) runtime \<Rightarrow> shared_state \<Rightarrow> string \<Rightarrow> string \<Rightarrow> shared_state" where
  "own_write rt sh path v =
     sh\<lparr>sh_db := fst (Database_write (rt_env rt) (rt_disk rt) (rt_now rt) (sh_db sh) path v (rt_now rt) WriteOpts_default)\<rparr>"

definition said_new :: "json \<Rightarrow> bool" where
  "said_new answer \<longleftrightarrow> json_get answer ''new'' = Some (JBool True)"

definition note_consensus :: "('f, 'w) runtime \<Rightarrow> shared_state \<Rightarrow> string \<Rightarrow> string \<Rightarrow> string \<Rightarrow> shared_state" where
  "note_consensus rt sh namespace v b =
     (if \<not> counts_towards_consensus namespace then sh
      else case rt_json_in rt b of
             Inl _ \<Rightarrow> sh
           | Inr answer \<Rightarrow> if \<not> said_new answer then sh else own_write rt sh ALL_NAMESPACE v)"

fun note_consensus_batch :: "('f, 'w) runtime \<Rightarrow> shared_state \<Rightarrow> json list \<Rightarrow> shared_state" where
  "note_consensus_batch rt sh [] = sh"
| "note_consensus_batch rt sh (answer # items) =
     note_consensus_batch rt
       (if \<not> said_new answer then sh
        else case json_get answer ''namespace'' of
               Some (JStr namespace) \<Rightarrow>
                 (case json_get answer ''value'' of
                    Some (JStr v) \<Rightarrow> if \<not> counts_towards_consensus namespace then sh else own_write rt sh ALL_NAMESPACE v
                  | _ \<Rightarrow> sh)
             | _ \<Rightarrow> sh) items"

section \<open>Reading\<close>

definition forwarded_read ::
  "('f, 'w) runtime \<Rightarrow> 'w \<Rightarrow> shared_state \<Rightarrow> http_in \<Rightarrow> string \<Rightarrow> read_query \<Rightarrow> 'w \<times> shared_state \<times> response option" where
  "forwarded_read rt w sh req namespace q =
     (case authorize sh req namespace Read of
        Inl resp \<Rightarrow> (w, sh, Some resp)
      | Inr _ \<Rightarrow>
          (case should_forward sh req namespace of
             None \<Rightarrow> (w, sh, None)
           | Some (Inl resp) \<Rightarrow> (w, sh, Some resp)
           | Some (Inr hops) \<Rightarrow>
               (case sh_galaxy sh of
                  None \<Rightarrow> (w, sh, None)
                | Some g \<Rightarrow>
                    let sh = (case (q_noshadow q, q_val q) of
                                (None, Some v) \<Rightarrow> own_write rt sh (SHADOW_PREFIX @ namespace) v
                              | _ \<Rightarrow> sh);
                        (w, answer) = Galaxy_forward_read (rt_sha256 rt) (rt_net rt) g w namespace (unwrap_or (q_val q) [])
                           (suppressing_shadow req) hops []
                    in (w, sh, Some (case answer of Inr answer \<Rightarrow> relayed answer | Inl e \<Rightarrow> forward_failed e)))))"

definition read_count :: "('f, 'w) runtime \<Rightarrow> shared_state \<Rightarrow> string \<Rightarrow> shared_state \<times> response" where
  "read_count rt sh namespace =
     (let (db, count) = Database_value_count (rt_env rt) (rt_disk rt) (rt_now rt) (sh_db sh) namespace
      in (sh\<lparr>sh_db := db\<rparr>, case count of
             Some c \<Rightarrow> json_response 200 (CountOf namespace c)
           | None \<Rightarrow> error_response (NotFound (NotFound_namespace namespace []))))"

definition read_for_merge :: "('f, 'w) runtime \<Rightarrow> shared_state \<Rightarrow> string \<Rightarrow> read_query \<Rightarrow> shared_state \<times> response" where
  "read_for_merge rt sh namespace q =
     (case q_val q of
        None \<Rightarrow>
          let (db, page) = Database_merge_page (rt_env rt) (rt_disk rt) (rt_now rt) (sh_db sh) namespace
                             (unwrap_or (q_offset q) 0) (ReadQuery_limit q)
          in (sh\<lparr>sh_db := db\<rparr>, case page of
                None \<Rightarrow> error_response (NotFound (NotFound_namespace namespace []))
              | Some page \<Rightarrow> json_response 200 (MergePage namespace (pg_items page) (pg_total page) (pg_offset page)))
      | Some v \<Rightarrow>
          let (db, payload) = Database_merge_payload (rt_env rt) (rt_disk rt) (rt_now rt) (sh_db sh) namespace v
          in (sh\<lparr>sh_db := db\<rparr>, case payload of
                Some payload \<Rightarrow> json_response 200 (MergePayload payload)
              | None \<Rightarrow> error_response (NotFound (NotFound_value namespace v))))"

definition do_read ::
  "('f, 'w) runtime \<Rightarrow> shared_state \<Rightarrow> http_in \<Rightarrow> string \<Rightarrow> read_query \<Rightarrow> bool \<Rightarrow> shared_state \<times> response" where
  "do_read rt sh req namespace q with_stats =
     (case authorize sh req namespace Read of
        Inl resp \<Rightarrow> (sh, resp)
      | Inr _ \<Rightarrow>
          if q_count q \<noteq> None
          then if q_val q \<noteq> None
               then (sh, message_response 400 (''count applies to a namespace, not to one value. Drop val= to count, '' @
                       ''or drop count to read the value.''))
               else read_count rt sh namespace
          else if q_for_merge q \<noteq> None then read_for_merge rt sh namespace q
          else case q_val q of
                 Some v \<Rightarrow>
                   let (db, r) = reader_read (rt_env rt) (rt_disk rt) (rt_now rt) (sh_db sh) namespace v with_stats (q_noshadow q = None)
                   in (sh\<lparr>sh_db := db\<rparr>, case r of Inr view \<Rightarrow> json_response 200 (View view) | Inl e \<Rightarrow> error_response e)
               | None \<Rightarrow>
                   if with_stats
                   then (sh, message_response 400 ''Error: val= not found! Use /r/<namespace> to list a whole namespace.'')
                   else let (db, r) = read_namespace (rt_env rt) (rt_disk rt) (rt_now rt) (sh_db sh) namespace
                        in (sh\<lparr>sh_db := db\<rparr>, case r of Inr views \<Rightarrow> json_response 200 (Views views) | Inl e \<Rightarrow> error_response e))"

definition read_either ::
  "('f, 'w) runtime \<Rightarrow> 'w \<Rightarrow> shared_state \<Rightarrow> http_in \<Rightarrow> string \<Rightarrow> read_query \<Rightarrow> bool \<Rightarrow> 'w \<times> shared_state \<times> response" where
  "read_either rt w sh req namespace q with_stats =
     (case forwarded_read rt w sh req namespace q of
        (w, sh, Some resp) \<Rightarrow> (w, sh, resp)
      | (w, sh, None) \<Rightarrow> (w, do_read rt sh req namespace q with_stats))"

definition handle_read ::
  "('f, 'w) runtime \<Rightarrow> 'w \<Rightarrow> shared_state \<Rightarrow> http_in \<Rightarrow> string \<Rightarrow> read_query \<Rightarrow> 'w \<times> shared_state \<times> response" where
  "handle_read rt w sh req namespace q = read_either rt w sh req namespace q False"

definition handle_read_with_stats ::
  "('f, 'w) runtime \<Rightarrow> 'w \<Rightarrow> shared_state \<Rightarrow> http_in \<Rightarrow> string \<Rightarrow> read_query \<Rightarrow> 'w \<times> shared_state \<times> response" where
  "handle_read_with_stats rt w sh req namespace q = read_either rt w sh req namespace q True"

section \<open>Writing and deleting\<close>

definition reject :: "('f, 'w) runtime \<Rightarrow> shared_state \<Rightarrow> string \<Rightarrow> string \<Rightarrow> string \<Rightarrow> source \<Rightarrow> shared_state" where
  "reject rt sh namespace v reason src =
     sh\<lparr>sh_rejections := Rejections_record (sh_rejections sh) (timestamp (rt_now rt)) namespace v reason src\<rparr>"

definition forwarded_write ::
  "('f, 'w) runtime \<Rightarrow> 'w \<Rightarrow> shared_state \<Rightarrow> http_in \<Rightarrow> galaxy \<Rightarrow> u8 \<Rightarrow> string \<Rightarrow> string \<Rightarrow> 'w \<times> shared_state \<times> response" where
  "forwarded_write rt w sh req g hops namespace v =
     (case Galaxy_forward_write (rt_net rt) g w namespace GET (path_and_query req) None hops (origin_to_send sh req) of
        (w, Inl e) \<Rightarrow> (w, sh, forward_failed e)
      | (w, Inr answers) \<Rightarrow>
          (case find (\<lambda>(_, answer). is_success (fw_status answer)) answers of
             Some (_, answer) \<Rightarrow> (w, note_consensus rt sh namespace v (fw_body answer), relayed answer)
           | None \<Rightarrow> (w, sh, forward_failed (AllDown namespace))))"

definition instant_of :: "('f, 'w) runtime \<Rightarrow> int option \<Rightarrow> api_error + datetime option" where
  "instant_of rt ts =
     (case ts of
        None \<Rightarrow> Inr None
      | Some t \<Rightarrow> (case timestamp_to_instant (rt_from_timestamp rt) t of Inl e \<Rightarrow> Inl e | Inr when \<Rightarrow> Inr (Some when)))"

definition write_here ::
  "('f, 'w) runtime \<Rightarrow> shared_state \<Rightarrow> http_in \<Rightarrow> string \<Rightarrow> string \<Rightarrow> write_query \<Rightarrow> shared_state \<times> response" where
  "write_here rt sh req namespace v q =
     (case instant_of rt (wq_timestamp q) of
        Inl e \<Rightarrow> (reject rt sh namespace v (ApiError_to_string e) SourceWrite, error_response e)
      | Inr when \<Rightarrow>
          (case writer_write_tagged_as (rt_env rt) (rt_disk rt) (rt_now rt) (sh_db sh) (origin_of (hr_headers req))
                  namespace v when (wq_ttl q) (unwrap_or (wq_tags q) []) of
             (db, Inr written) \<Rightarrow>
               (sh\<lparr>sh_db := db\<rparr>,
                json_response 200 (Wrote \<lparr>wr_message = ''ok'', wr_count = w_count written, wr_new = w_new written\<rparr>))
           | (db, Inl e) \<Rightarrow>
               (reject rt (sh\<lparr>sh_db := db\<rparr>) namespace v (ApiError_to_string e) SourceWrite, error_response e)))"

definition handle_write ::
  "('f, 'w) runtime \<Rightarrow> 'w \<Rightarrow> shared_state \<Rightarrow> http_in \<Rightarrow> string \<Rightarrow> write_query \<Rightarrow> 'w \<times> shared_state \<times> response" where
  "handle_write rt w sh req namespace q =
     (case authorize sh req namespace Write of
        Inl resp \<Rightarrow> (w, sh, resp)
      | Inr _ \<Rightarrow>
          (case wq_val q of
             None \<Rightarrow> (w, sh, message_response 400 ''Did not receive a val= argument in the query string.'')
           | Some v \<Rightarrow>
               (case should_forward sh req namespace of
                  Some (Inl resp) \<Rightarrow> (w, sh, resp)
                | Some (Inr hops) \<Rightarrow> forwarded_write rt w sh req (the (sh_galaxy sh)) hops namespace v
                | None \<Rightarrow> (w, write_here rt sh req namespace v q))))"

definition handle_delete :: "('f, 'w) runtime \<Rightarrow> shared_state \<Rightarrow> http_in \<Rightarrow> string \<Rightarrow> shared_state \<times> response" where
  "handle_delete rt sh req namespace =
     (case authorize sh req namespace Write of
        Inl resp \<Rightarrow> (sh, resp)
      | Inr _ \<Rightarrow>
          if is_internal namespace then (sh, error_response (InternalNamespace namespace))
          else let (db, there) = Database_delete (rt_env rt) (rt_disk rt) (rt_now rt) (sh_db sh) namespace
               in (sh\<lparr>sh_db := db\<rparr>,
                   if there then message_response 200 ''ok'' else error_response (NotFound (NotFound_namespace namespace []))))"

section \<open>Listing\<close>

definition readable :: "shared_state \<Rightarrow> string option \<Rightarrow> string \<Rightarrow> bool" where
  "readable sh apikey name = (case apikey of None \<Rightarrow> True | Some key \<Rightarrow> Acl_can_read (sh_acl sh) key name)"

definition handle_namespaces :: "shared_state \<Rightarrow> http_in \<Rightarrow> string option \<Rightarrow> response" where
  "handle_namespaces sh req prefix =
     (case api_key sh req of
        Inl resp \<Rightarrow> resp
      | Inr apikey \<Rightarrow>
          json_response 200 (Names (Database_namespaces_under (sh_db sh) (unwrap_or prefix []) (readable sh apikey))))"

definition handle_latest :: "shared_state \<Rightarrow> http_in \<Rightarrow> nat option \<Rightarrow> int option \<Rightarrow> string option \<Rightarrow> response" where
  "handle_latest sh req given since namespace =
     (case api_key sh req of
        Inl resp \<Rightarrow> resp
      | Inr apikey \<Rightarrow>
          let limit = clamp 1 MAX_LIMIT (unwrap_or given DEFAULT_LIMIT);
              items = Latest_recent (db_latest (sh_db sh)) limit since (unwrap_or namespace []) (readable sh apikey)
          in json_response 200 (LatestOf items limit (l_capacity (db_latest (sh_db sh)))))"

definition handle_health :: "shared_state \<Rightarrow> string \<Rightarrow> u64 \<Rightarrow> response" where
  "handle_health sh version uptime =
     (let (resident, shards) = Database_residency (sh_db sh)
      in json_response 200 (Health \<lparr>hd_status = ''ok'', hd_version = version, hd_uptime_seconds = uptime,
           hd_resident_shards = resident, hd_shards = shards, hd_catching_up = catching_up sh\<rparr>))"

text \<open>A namespace and everything below it that the key may read, here and in the galaxy.\<close>

definition expand_subtrees :: "shared_state \<Rightarrow> http_in \<Rightarrow> string list \<Rightarrow> string list" where
  "expand_subtrees sh req wanted =
     (case api_key sh req of
        Inl _ \<Rightarrow> wanted
      | Inr apikey \<Rightarrow>
          fold (\<lambda>namespace found.
             fold (\<lambda>name found. if name \<in> set found then found else found @ [name])
               (Database_namespaces_under (sh_db sh) namespace (readable sh apikey)) found) wanted [])"

definition reachable_subtrees ::
  "('f, 'w) runtime \<Rightarrow> 'w \<Rightarrow> shared_state \<Rightarrow> http_in \<Rightarrow> string list \<Rightarrow> 'w \<times> string list" where
  "reachable_subtrees rt w sh req wanted =
     (let found = expand_subtrees sh req wanted
      in case sh_galaxy sh of
           None \<Rightarrow> (w, found)
         | Some g \<Rightarrow>
             (case api_key sh req of
                Inl _ \<Rightarrow> (w, found)
              | Inr apikey \<Rightarrow>
                  let (w, reachable) = Galaxy_namespaces_under (rt_json_in rt) (rt_net rt) g w wanted;
                      found = fold (\<lambda>name found. if is_internal name \<or> \<not> readable sh apikey name \<or> name \<in> set found
                                then found else found @ [name]) reachable found
                  in (w, sort found)))"

section \<open>Nothing without a grant\<close>

text \<open>What a request may do: everything when keys are not asked for, and otherwise what a grant of its key says.\<close>

fun may :: "acl \<Rightarrow> string \<Rightarrow> string \<Rightarrow> access \<Rightarrow> bool" where
  "may acl key namespace Read = Acl_can_read acl key namespace"
| "may acl key namespace Write = Acl_can_write acl key namespace"

definition granted :: "shared_state \<Rightarrow> http_in \<Rightarrow> string \<Rightarrow> access \<Rightarrow> bool" where
  "granted sh req namespace acc \<longleftrightarrow> \<not> sh_authenticate sh \<or>
     (\<exists>key. Option.bind (header_of (hr_headers req) ''Authorization'') header_text = Some key \<and> may (sh_acl sh) key namespace acc)"

lemma refusal_for_iff:
  "refusal_for sh key namespace acc =
     (case key of None \<Rightarrow> None
      | Some k \<Rightarrow> if may (sh_acl sh) k namespace acc then None
                  else Some (''API key is not permitted to '' @ (case acc of Read \<Rightarrow> ''read'' | Write \<Rightarrow> ''write'') @ '' this namespace.''))"
  by (cases acc) (auto simp: refusal_for_def split: option.splits)

lemma authorize_iff: "authorize sh req namespace acc = Inr u \<longleftrightarrow> granted sh req namespace acc"
  by (auto simp: authorize_def api_key_def granted_def refusal_for_iff split: option.splits sum.splits if_splits)

lemma authorize_status: "authorize sh req namespace acc = Inl resp \<Longrightarrow> rs_status resp \<in> {400, 401, 403}"
  by (auto simp: authorize_def api_key_def message_response_def json_response_def split: option.splits sum.splits if_splits)

lemma not_granted: "\<not> granted sh req namespace acc \<Longrightarrow> \<exists>resp. authorize sh req namespace acc = Inl resp"
  by (metis authorize_iff sum.exhaust)

text \<open>
  C8. No request reads or changes anything without a grant: a key is accepted exactly when keys are not asked
  for or one of its grants gives the access asked for, and otherwise reading, reading with statistics, writing
  and deleting leave the server as it was, send nothing to another server and answer 400, 401 or 403. What the
  answer says does not depend on the keys there are, so it does not tell an unknown key from one that may not.
\<close>
theorem nothing_without_a_grant:
  "(authorize sh req namespace acc = Inr () \<longleftrightarrow> granted sh req namespace acc) \<and>
   (\<not> granted sh req namespace Read \<longrightarrow> (\<exists>resp. rs_status resp \<in> {400, 401, 403} \<and>
      handle_read rt w sh req namespace q = (w, sh, resp) \<and> handle_read_with_stats rt w sh req namespace q = (w, sh, resp))) \<and>
   (\<not> granted sh req namespace Write \<longrightarrow> (\<exists>resp. rs_status resp \<in> {400, 401, 403} \<and>
      handle_write rt w sh req namespace wq = (w, sh, resp) \<and> handle_delete rt sh req namespace = (sh, resp))) \<and>
   (\<forall>acl. \<not> granted sh req namespace acc \<and> \<not> granted (sh\<lparr>sh_acl := acl\<rparr>) req namespace acc \<longrightarrow>
      authorize (sh\<lparr>sh_acl := acl\<rparr>) req namespace acc = authorize sh req namespace acc)"
proof (intro conjI impI allI)
  show "authorize sh req namespace acc = Inr () \<longleftrightarrow> granted sh req namespace acc" by (rule authorize_iff)
  show "\<exists>resp. rs_status resp \<in> {400, 401, 403} \<and>
      handle_read rt w sh req namespace q = (w, sh, resp) \<and> handle_read_with_stats rt w sh req namespace q = (w, sh, resp)"
    if no: "\<not> granted sh req namespace Read"
  proof -
    obtain resp where "authorize sh req namespace Read = Inl resp" using not_granted [OF no] by blast
    moreover note authorize_status [OF this]
    ultimately show ?thesis
      by (simp add: handle_read_def handle_read_with_stats_def read_either_def forwarded_read_def)
  qed
  show "\<exists>resp. rs_status resp \<in> {400, 401, 403} \<and>
      handle_write rt w sh req namespace wq = (w, sh, resp) \<and> handle_delete rt sh req namespace = (sh, resp)"
    if no: "\<not> granted sh req namespace Write"
  proof -
    obtain resp where "authorize sh req namespace Write = Inl resp" using not_granted [OF no] by blast
    moreover note authorize_status [OF this]
    ultimately show ?thesis by (simp add: handle_write_def handle_delete_def)
  qed
  show "authorize (sh\<lparr>sh_acl := acl\<rparr>) req namespace acc = authorize sh req namespace acc"
    if "\<not> granted sh req namespace acc \<and> \<not> granted (sh\<lparr>sh_acl := acl\<rparr>) req namespace acc" for acl
    using that by (auto simp: granted_def authorize_def api_key_def refusal_for_iff split: option.splits)
qed

definition sample_state :: shared_state where
  "sample_state = \<lparr>sh_db = sample_store_db, sh_authenticate = True,
     sh_acl = Acl_set Acl_new ''k'' [\<lparr>g_prefix = ''feeds'', g_read = True, g_write = True, g_admin = False\<rparr>],
     sh_listen = ''127.0.0.1:9999'', sh_acl_file = None, sh_tiers_file = None, sh_tags = fmempty, sh_tags_file = None,
     sh_rejections = Rejections_new 10, sh_galaxy = None, sh_galaxy_peers_file = None, sh_revoked = fmempty, sh_acl_replaceable = False, sh_joining = False\<rparr>"

definition sample_request :: http_in where
  "sample_request = \<lparr>hr_headers = [(''authorization'', ''k'')], hr_path = ''/w/feeds/a'', hr_query = Some ''val=v''\<rparr>"

lemma sample_granted:
  "granted sample_state sample_request ''feeds/a'' acc" "\<not> granted sample_state sample_request ''other'' acc"
proof -
  have h: "Option.bind (header_of (hr_headers sample_request) ''Authorization'') header_text = Some ''k''" by code_simp
  let ?g = "\<lparr>g_prefix = ''feeds'', g_read = True, g_write = True, g_admin = False\<rparr>"
  have "Grant_covers ?g ''feeds/a''" "\<not> Grant_covers ?g ''other''" by code_simp+
  then have "may (sh_acl sample_state) ''k'' ''feeds/a'' acc" "\<not> may (sh_acl sample_state) ''k'' ''other'' acc"
    by (cases acc; simp add: sample_state_def Acl_can_read_def Acl_can_write_def Acl_allows_def Acl_set_def)+
  then show "granted sample_state sample_request ''feeds/a'' acc" "\<not> granted sample_state sample_request ''other'' acc"
    using h by (auto simp: granted_def sample_state_def)
qed

definition sample_runtime :: "(sample_file, unit) runtime" where
  "sample_runtime = \<lparr>rt_env = sample_env, rt_disk = fmempty, rt_now = DateTime 100 0, rt_from_timestamp = sample_chrono,
     rt_sha256 = (\<lambda>_. []), rt_net = sample_net, rt_json_in = (\<lambda>s. Inr (JStr s)), rt_batch_out = (\<lambda>_. Inr [])\<rparr>"

definition sample_write_query :: write_query where
  "sample_write_query = \<lparr>wq_val = Some ''v'', wq_timestamp = None, wq_ttl = None, wq_tags = None\<rparr>"

theorem nothing_without_a_grant_witness:
  "\<exists>resp. handle_write sample_runtime () sample_state sample_request ''other'' sample_write_query = ((), sample_state, resp) \<and>
     rs_status resp \<in> {400, 401, 403}"
  using nothing_without_a_grant [where sh = sample_state and req = sample_request and namespace = "''other''" and rt = sample_runtime
      and w = "()" and wq = sample_write_query, THEN conjunct2, THEN conjunct2, THEN conjunct1, THEN mp, OF sample_granted(2)] by metis

section \<open>Where a write lands\<close>

abbreviation stored :: "('f, 'w) runtime \<Rightarrow> shared_state \<Rightarrow> logical" where
  "stored rt sh \<equiv> contents (rt_env rt) (rt_disk rt) (sh_db sh)"

abbreviation state_inv :: "('f, 'w) runtime \<Rightarrow> shared_state \<Rightarrow> bool" where
  "state_inv rt sh \<equiv> db_inv (rt_env rt) (rt_disk rt) (sh_db sh)"

abbreviation tallies_ok :: "('f, 'w) runtime \<Rightarrow> shared_state \<Rightarrow> bool" where
  "tallies_ok rt sh \<equiv> consensus_ok (db_node (sh_db sh)) (stored rt sh)"

lemma own_write_effect:
  assumes "state_inv rt sh"
  shows "state_inv rt (own_write rt sh path v) \<and> same_setup (sh_db (own_write rt sh path v)) (sh_db sh) \<and>
    stored rt (own_write rt sh path v) =
      sighted_by (sh_db sh) (stored rt sh) (db_node (sh_db sh)) path v (rt_now rt) WriteOpts_default [] \<and>
    own_write rt sh path v = sh\<lparr>sh_db := sh_db (own_write rt sh path v)\<rparr>"
proof -
  obtain db w where w: "Database_record_write (rt_env rt) (rt_disk rt) (rt_now rt) (sh_db sh) (db_node (sh_db sh)) path v (rt_now rt)
      WriteOpts_default [] = (db, w)" by fastforce
  then have "sh_db (own_write rt sh path v) = db"
    by (simp add: own_write_def Database_write_def Database_write_tagged_def)
  then show ?thesis using record_write_plain [OF assms _ w]
    by (simp add: WriteOpts_default_def own_write_def)
qed

lemma sighted_other: "n \<noteq> path \<Longrightarrow> sighted_by db C node path v when opts given n = C n"
  by (simp add: sighted_by_def sighted_def)

lemma note_consensus_effect:
  assumes "state_inv rt sh" "note_consensus rt sh namespace v b = sh'"
  shows "state_inv rt sh' \<and> same_setup (sh_db sh') (sh_db sh) \<and> sh' = sh\<lparr>sh_db := sh_db sh'\<rparr> \<and>
    (\<forall>n. n \<noteq> ALL_NAMESPACE \<longrightarrow> stored rt sh' n = stored rt sh n)"
  using own_write_effect [OF assms(1), of ALL_NAMESPACE v] assms sighted_other
  by (auto simp: note_consensus_def split: sum.splits if_splits)

lemma error_not_ok: "\<not> is_success (rs_status (error_response e))" "\<not> is_success (rs_status (forward_failed f))"
  by (cases e; simp add: error_response_def json_response_def is_success_def)
    (cases f; simp add: forward_failed_def message_response_def json_response_def is_success_def)

lemma relayed_ok: "is_success (fw_status answer) \<Longrightarrow> rs_status (relayed answer) = fw_status answer"
  by (simp add: relayed_def is_success_def)

lemma write_here_effect:
  assumes inv: "state_inv rt sh" and wr: "write_here rt sh req namespace v q = (sh', resp)"
  shows "state_inv rt sh' \<and>
    (if is_success (rs_status resp)
     then check (sh_db sh) namespace v = Inr () \<and> sh' = sh\<lparr>sh_db := sh_db sh'\<rparr> \<and>
       (\<exists>wr when. instant_of rt (wq_timestamp q) = Inr when \<and> rs_body resp = Wrote wr \<and>
          wr_count wr = Attribute_count (fm_get (Attribute_new v) (values_of (stored rt sh) namespace) v) + 1 \<and>
          (wr_new wr \<longleftrightarrow> fmlookup (values_of (stored rt sh) namespace) v = None) \<and>
          stored rt sh' =
            (let C = sighted_by (sh_db sh) (stored rt sh) (unwrap_or (origin_of (hr_headers req)) (db_node (sh_db sh))) namespace v
                   (unwrap_or when (rt_now rt)) \<lparr>wo_consensus = True, wo_ttl = wq_ttl q\<rparr> (unwrap_or (wq_tags q) [])
             in if wr_new wr then sighted_by (sh_db sh) C (db_node (sh_db sh)) ALL_NAMESPACE v (unwrap_or when (rt_now rt)) WriteOpts_default []
                else C))
     else sh_db sh' = sh_db sh \<and> (\<exists>reason. sh' = reject rt sh namespace v reason SourceWrite))"
proof (cases "instant_of rt (wq_timestamp q)")
  case (Inl e)
  then show ?thesis using inv wr by (auto simp: write_here_def reject_def error_not_ok)
next
  case (Inr at)
  obtain db r where w: "writer_write_tagged_as (rt_env rt) (rt_disk rt) (rt_now rt) (sh_db sh) (origin_of (hr_headers req))
      namespace v at (wq_ttl q) (unwrap_or (wq_tags q) []) = (db, r)" by fastforce
  note eff = writer_effect [OF inv w]
  show ?thesis
  proof (cases r)
    case (Inl e)
    then show ?thesis using inv wr Inr w eff by (auto simp: write_here_def reject_def error_not_ok)
  next
    case (Inr wn)
    then have "sh' = sh\<lparr>sh_db := db\<rparr>" "resp = json_response 200 (Wrote \<lparr>wr_message = ''ok'', wr_count = w_count wn, wr_new = w_new wn\<rparr>)"
      using wr w \<open>instant_of rt (wq_timestamp q) = Inr at\<close> by (simp_all add: write_here_def)
    then show ?thesis using eff Inr \<open>instant_of rt (wq_timestamp q) = Inr at\<close>
      by (simp add: json_response_def is_success_def cong: if_cong)
  qed
qed

lemma forwarded_write_effect:
  assumes inv: "state_inv rt sh" and go: "forwarded_write rt w sh req g hops namespace v = (w', sh', resp)"
  shows "state_inv rt sh' \<and>
    (\<exists>answer. Galaxy_forward_write (rt_net rt) g w namespace GET (path_and_query req) None hops (origin_to_send sh req) = (w', answer) \<and>
       (is_success (rs_status resp) \<longleftrightarrow> (\<exists>answers. answer = Inr answers \<and> (\<exists>(u, a) \<in> set answers. is_success (fw_status a))))) \<and>
    (if is_success (rs_status resp) then sh' = sh\<lparr>sh_db := sh_db sh'\<rparr> \<and> (\<forall>n. n \<noteq> ALL_NAMESPACE \<longrightarrow> stored rt sh' n = stored rt sh n)
     else sh' = sh)"
proof -
  obtain w1 answer where fw: "Galaxy_forward_write (rt_net rt) g w namespace GET (path_and_query req) None hops (origin_to_send sh req) = (w1, answer)"
    by fastforce
  show ?thesis
  proof (cases answer)
    case (Inl e)
    then have "w' = w1" "sh' = sh" "resp = forward_failed e" using go fw by (simp_all add: forwarded_write_def)
    then show ?thesis using fw inv Inl by (simp add: error_not_ok)
  next
    case ans: (Inr answers)
    show ?thesis
    proof (cases "find (\<lambda>(_, answer). is_success (fw_status answer)) answers")
      case None
      then have "w' = w1" "sh' = sh" "resp = forward_failed (AllDown namespace)"
        using go fw ans by (simp_all add: forwarded_write_def)
      moreover have "\<not> (\<exists>(u, a) \<in> set answers. is_success (fw_status a))" using None by (auto simp: find_None_iff)
      ultimately show ?thesis using fw inv ans by (simp add: error_not_ok)
    next
      case (Some hit)
      obtain u a where hit: "hit = (u, a)" by fastforce
      then have ok: "is_success (fw_status a)" "(u, a) \<in> set answers" using Some by (auto simp: find_Some_iff in_set_conv_nth)
      have res: "w' = w1" "sh' = note_consensus rt sh namespace v (fw_body a)" "resp = relayed a"
        using go fw ans Some hit by (simp_all add: forwarded_write_def)
      then have "is_success (rs_status resp)" using ok by (simp add: relayed_ok)
      moreover have "\<exists>(u, a) \<in> set answers. is_success (fw_status a)" using ok by blast
      ultimately show ?thesis using fw ans res(1) note_consensus_effect [OF inv res(2) [symmetric]] by simp
    qed
  qed
qed

text \<open>
  C9. A permitted write is stored in one place or refused. A namespace this server stores, or cannot pass on, is
  written here: nothing is sent, and the answer is a success exactly for one more sighting of the value, counted
  for the server the client spoke to; a refused write changes nothing stored and is put on record. Any other
  namespace is passed on: the client is told of success exactly when some server storing it accepted the write,
  and here at most the tally of the value changes.
\<close>
theorem write_lands_once:
  assumes "state_inv rt sh" and "granted sh req namespace Write" and "wq_val q = Some v"
    and "handle_write rt w sh req namespace q = (w', sh', resp)"
  shows "state_inv rt sh' \<and>
    (case should_forward sh req namespace of
       None \<Rightarrow> w' = w \<and>
         (if is_success (rs_status resp)
          then check (sh_db sh) namespace v = Inr () \<and> sh' = sh\<lparr>sh_db := sh_db sh'\<rparr> \<and>
            (\<exists>wr when. instant_of rt (wq_timestamp q) = Inr when \<and> rs_body resp = Wrote wr \<and>
               wr_count wr = Attribute_count (fm_get (Attribute_new v) (values_of (stored rt sh) namespace) v) + 1 \<and>
               (wr_new wr \<longleftrightarrow> fmlookup (values_of (stored rt sh) namespace) v = None) \<and>
               stored rt sh' =
                 (let C = sighted_by (sh_db sh) (stored rt sh) (unwrap_or (origin_of (hr_headers req)) (db_node (sh_db sh))) namespace v
                        (unwrap_or when (rt_now rt)) \<lparr>wo_consensus = True, wo_ttl = wq_ttl q\<rparr> (unwrap_or (wq_tags q) [])
                  in if wr_new wr then sighted_by (sh_db sh) C (db_node (sh_db sh)) ALL_NAMESPACE v (unwrap_or when (rt_now rt)) WriteOpts_default []
                     else C))
          else sh_db sh' = sh_db sh \<and> (\<exists>reason. sh' = reject rt sh namespace v reason SourceWrite))
     | Some (Inl limit) \<Rightarrow> w' = w \<and> sh' = sh \<and> resp = limit
     | Some (Inr hops) \<Rightarrow>
         (\<exists>g answer. sh_galaxy sh = Some g \<and>
            Galaxy_forward_write (rt_net rt) g w namespace GET (path_and_query req) None hops (origin_to_send sh req) = (w', answer) \<and>
            (is_success (rs_status resp) \<longleftrightarrow> (\<exists>answers. answer = Inr answers \<and> (\<exists>(u, a) \<in> set answers. is_success (fw_status a))))) \<and>
         (if is_success (rs_status resp) then sh' = sh\<lparr>sh_db := sh_db sh'\<rparr> \<and> (\<forall>n. n \<noteq> ALL_NAMESPACE \<longrightarrow> stored rt sh' n = stored rt sh n)
          else sh' = sh))"
proof -
  have auth: "authorize sh req namespace Write = Inr ()" using assms(2) by (simp add: authorize_iff)
  show ?thesis
  proof (cases "should_forward sh req namespace")
    case None
    then have "w' = w" "write_here rt sh req namespace v q = (sh', resp)"
      using assms(3,4) auth by (simp_all add: handle_write_def)
    then show ?thesis using None write_here_effect [OF assms(1)] by simp
  next
    case (Some way)
    show ?thesis
    proof (cases way)
      case (Inl limit)
      then show ?thesis using Some assms auth by (simp add: handle_write_def)
    next
      case (Inr hops)
      obtain g where g: "sh_galaxy sh = Some g" using Some by (auto simp: should_forward_def split: if_splits option.splits)
      then have "forwarded_write rt w sh req g hops namespace v = (w', sh', resp)"
        using Some Inr assms(3,4) auth by (simp add: handle_write_def)
      then show ?thesis using Some Inr g forwarded_write_effect [OF assms(1)] by simp
    qed
  qed
qed

lemma sample_state_inv: "state_inv sample_runtime sample_state"
  using inv_mono [OF sample_store_inv] by (simp add: sample_runtime_def sample_state_def)

theorem write_lands_once_witness:
  "\<exists>w' sh' resp. handle_write sample_runtime () sample_state sample_request ''feeds/a'' sample_write_query = (w', sh', resp) \<and>
     state_inv sample_runtime sh'"
proof -
  obtain w' sh' resp where h: "handle_write sample_runtime () sample_state sample_request ''feeds/a'' sample_write_query = (w', sh', resp)"
    by (metis prod_cases3)
  have "wq_val sample_write_query = Some ''v''" by (simp add: sample_write_query_def)
  from write_lands_once [OF sample_state_inv sample_granted(1) this h] h show ?thesis by blast
qed

end
