(* ===== verification/Bulk.thy ===== *)
theory Bulk
  imports Handlers
begin

text \<open>
  The batches of writes of the HTTP interface: the part of \<^verbatim>\<open>src/src/handlers.rs\<close> behind \<^verbatim>\<open>/wb\<close> and
  \<^verbatim>\<open>/vwb\<close>. A loop over the items of a batch is a recursion that threads the state of the
  server and what was answered so far.
\<close>

section \<open>Writing a batch\<close>

datatype item_check = CheckOk "datetime option" | Refused string | ItemInvalid string

definition check_item :: "('f, 'w) runtime \<Rightarrow> shared_state \<Rightarrow> string option \<Rightarrow> bulk_sighting \<Rightarrow> item_check" where
  "check_item rt sh apikey item =
     (case refusal_for sh apikey (bs_namespace item) Write of
        Some message \<Rightarrow> Refused message
      | None \<Rightarrow>
          (case check (sh_db sh) (bs_namespace item) (bs_value item) of
             Inl e \<Rightarrow> ItemInvalid (ApiError_to_string e)
           | Inr _ \<Rightarrow>
               (case instant_of rt (bs_timestamp item) of
                  Inr when \<Rightarrow> CheckOk when
                | Inl e \<Rightarrow> ItemInvalid (ApiError_to_string e))))"

text \<open>What a pass over a batch has gathered.\<close>

record progress =
  pr_items :: "bulk_write_item list"
  pr_errors :: "bulk_write_error list"
  pr_done :: nat
  pr_refusals :: nat

definition progress_start :: progress where
  "progress_start = \<lparr>pr_items = [], pr_errors = [], pr_done = 0, pr_refusals = 0\<rparr>"

definition item_ok :: "nat \<Rightarrow> bulk_sighting \<Rightarrow> u64 option \<Rightarrow> bool option \<Rightarrow> progress \<Rightarrow> progress" where
  "item_ok index item count new p = p\<lparr>pr_done := pr_done p + 1, pr_items := pr_items p @
     [\<lparr>bw_index = index, bw_namespace = bs_namespace item, bw_value = bs_value item, bw_status = ''ok'',
       bw_count = count, bw_new = new, bw_error = None\<rparr>]\<rparr>"

definition item_failed :: "nat \<Rightarrow> bulk_sighting \<Rightarrow> string \<Rightarrow> progress \<Rightarrow> progress" where
  "item_failed index item message p = p\<lparr>
     pr_errors := pr_errors p @ [\<lparr>be_namespace = bs_namespace item, be_value = bs_value item, be_error = message\<rparr>],
     pr_items := pr_items p @
     [\<lparr>bw_index = index, bw_namespace = bs_namespace item, bw_value = bs_value item, bw_status = ''error'',
       bw_count = None, bw_new = None, bw_error = Some message\<rparr>]\<rparr>"

definition refused :: "item_check \<Rightarrow> progress \<Rightarrow> progress" where
  "refused c p = (case c of Refused _ \<Rightarrow> p\<lparr>pr_refusals := pr_refusals p + 1\<rparr> | _ \<Rightarrow> p)"

text \<open>One item that this server stores.\<close>

definition write_outcome ::
  "('f, 'w) runtime \<Rightarrow> shared_state \<Rightarrow> http_in \<Rightarrow> bulk_sighting \<Rightarrow> item_check \<Rightarrow> shared_state \<times> (string + written)" where
  "write_outcome rt sh req item c =
     (case c of
        CheckOk when \<Rightarrow>
          (case writer_write_tagged_as (rt_env rt) (rt_disk rt) (rt_now rt) (sh_db sh) (origin_of (hr_headers req))
                  (bs_namespace item) (bs_value item) when (bs_ttl item) (bs_tags item) of
             (db, Inr written) \<Rightarrow> (sh\<lparr>sh_db := db\<rparr>, Inr written)
           | (db, Inl e) \<Rightarrow> (sh\<lparr>sh_db := db\<rparr>, Inl (ApiError_to_string e)))
      | Refused message \<Rightarrow> (sh, Inl message)
      | ItemInvalid message \<Rightarrow> (sh, Inl message))"

definition write_item ::
  "('f, 'w) runtime \<Rightarrow> http_in \<Rightarrow> string option \<Rightarrow> nat \<Rightarrow> bulk_sighting \<Rightarrow> shared_state \<times> progress \<Rightarrow> shared_state \<times> progress" where
  "write_item rt req apikey index item st =
     (let (sh, p) = st; c = check_item rt sh apikey item;
          (sh, outcome) = write_outcome rt sh req item c; p = refused c p
      in case outcome of
           Inr written \<Rightarrow> (sh, item_ok index item (Some (w_count written)) (Some (w_new written)) p)
         | Inl message \<Rightarrow>
             (reject rt sh (bs_namespace item) (bs_value item) message SourceBulkWrite, item_failed index item message p))"

fun write_items ::
  "('f, 'w) runtime \<Rightarrow> http_in \<Rightarrow> string option \<Rightarrow> nat \<Rightarrow> bulk_sighting list \<Rightarrow> shared_state \<times> progress \<Rightarrow> shared_state \<times> progress" where
  "write_items rt req apikey index [] st = st"
| "write_items rt req apikey index (item # items) st =
     write_items rt req apikey (index + 1) items (write_item rt req apikey index item st)"

text \<open>The verdict on a batch: a batch that was refused all the way through is forbidden.\<close>

definition verdict :: "progress \<Rightarrow> nat \<times> string" where
  "verdict p =
     (if pr_errors p = [] then (200, ''ok'')
      else if pr_done p > 0 then (200, ''partial'')
      else if pr_refusals p = length (pr_errors p) then (403, ''failed'')
      else (400, ''failed''))"

definition bulk_response :: "string \<Rightarrow> progress \<Rightarrow> bulk_write_response" where
  "bulk_response message p =
     \<lparr>br_message = message, br_written = pr_done p, br_items = pr_items p, br_errors = pr_errors p\<rparr>"

subsection \<open>Items stored elsewhere\<close>

definition items_in :: "('f, 'w) runtime \<Rightarrow> string \<Rightarrow> json list option" where
  "items_in rt b = (case rt_json_in rt b of Inl _ \<Rightarrow> None | Inr parsed \<Rightarrow> Option.bind (json_get parsed ''items'') as_array)"

definition nth_entry :: "nat \<Rightarrow> 'a list \<Rightarrow> 'a option" where
  "nth_entry i xs = (if i < length xs then Some (xs ! i) else None)"

definition stored_elsewhere :: "shared_state \<Rightarrow> string \<Rightarrow> bool" where
  "stored_elsewhere sh namespace \<longleftrightarrow> \<not> StoragePolicy_holds (db_stores (sh_db sh)) namespace \<and> \<not> is_internal namespace"

definition merged_item ::
  "('f, 'w) runtime \<Rightarrow> json list list \<Rightarrow> nat \<Rightarrow> bulk_sighting \<Rightarrow> shared_state \<times> progress \<Rightarrow> shared_state \<times> progress" where
  "merged_item rt peer_items index item st =
     (let (sh, p) = st; entries = List.map_filter (nth_entry index) peer_items
      in case find (\<lambda>entry. json_get entry ''status'' = Some (JStr ''ok'')) entries of
           Some entry \<Rightarrow>
             (note_consensus_batch rt sh [entry],
              item_ok index item (Option.bind (json_get entry ''count'') as_u64) (Option.bind (json_get entry ''new'') as_bool) p)
         | None \<Rightarrow>
             let message =
               (if (case sh_galaxy sh of None \<Rightarrow> False | Some g \<Rightarrow> Galaxy_holders g (bs_namespace item) = [])
                then ForwardError_to_string NoHolder
                else case List.map_filter (\<lambda>entry. Option.bind (json_get entry ''error'') as_str) entries of
                       e # _ \<Rightarrow> e
                     | [] \<Rightarrow> ''no server holding this namespace accepted it'')
             in (sh, item_failed index item message p))"

definition own_item ::
  "('f, 'w) runtime \<Rightarrow> http_in \<Rightarrow> string option \<Rightarrow> nat \<Rightarrow> bulk_sighting \<Rightarrow> shared_state \<times> progress \<Rightarrow> shared_state \<times> progress" where
  "own_item rt req apikey index item st =
     (let (sh, p) = st; (sh, outcome) = write_outcome rt sh req item (check_item rt sh apikey item)
      in case outcome of
           Inr written \<Rightarrow> (sh, item_ok index item (Some (w_count written)) (Some (w_new written)) p)
         | Inl message \<Rightarrow>
             (reject rt sh (bs_namespace item) (bs_value item) message SourceBulkWrite, item_failed index item message p))"

fun merged_items ::
  "('f, 'w) runtime \<Rightarrow> http_in \<Rightarrow> string option \<Rightarrow> json list list \<Rightarrow> nat \<Rightarrow> bulk_sighting list
    \<Rightarrow> shared_state \<times> progress \<Rightarrow> shared_state \<times> progress" where
  "merged_items rt req apikey peer_items index [] st = st"
| "merged_items rt req apikey peer_items index (item # items) st =
     merged_items rt req apikey peer_items (index + 1) items
       (if \<not> stored_elsewhere (fst st) (bs_namespace item) then own_item rt req apikey index item st
        else merged_item rt peer_items index item st)"

definition merged_batch ::
  "('f, 'w) runtime \<Rightarrow> shared_state \<Rightarrow> http_in \<Rightarrow> string option \<Rightarrow> bulk_sighting list \<Rightarrow> (string \<times> forwarded) list
    \<Rightarrow> shared_state \<times> response" where
  "merged_batch rt sh req apikey items answers =
     (let peer_items = List.map_filter (\<lambda>(_, answer). items_in rt (fw_body answer)) answers;
          (sh, p) = merged_items rt req apikey peer_items 0 items (sh, progress_start);
          (status, message) =
            (if pr_errors p = [] then (200, ''ok'') else if pr_done p > 0 then (200, ''partial'') else (400, ''failed''));
          resp = json_response status (BulkWrite (bulk_response message p))
      in (sh, resp\<lparr>rs_headers := insert_header (''X-SightingDB-Forwarded'', ''1'') (rs_headers resp)\<rparr>))"

definition write_batch_here ::
  "('f, 'w) runtime \<Rightarrow> shared_state \<Rightarrow> http_in \<Rightarrow> string option \<Rightarrow> bulk_sighting list \<Rightarrow> shared_state \<times> response" where
  "write_batch_here rt sh req apikey items =
     (let (sh, p) = write_items rt req apikey 0 items (sh, progress_start); (status, message) = verdict p
      in (sh, json_response status (BulkWrite (bulk_response message p))))"

definition could_not_forward :: "string \<Rightarrow> response" where
  "could_not_forward e = message_response 500 (''could not forward the batch: '' @ e)"

definition forward_batch ::
  "('f, 'w) runtime \<Rightarrow> 'w \<Rightarrow> shared_state \<Rightarrow> http_in \<Rightarrow> string option \<Rightarrow> bulk_sighting list \<Rightarrow> galaxy \<Rightarrow> string list
    \<Rightarrow> 'w \<times> shared_state \<times> response" where
  "forward_batch rt w sh req apikey items g elsewhere =
     (case hops_left (hr_headers req) (g_max_hops g) of
        None \<Rightarrow> (w, sh, forward_failed TooManyHops)
      | Some hops \<Rightarrow>
          (case rt_batch_out rt items of
             Inl e \<Rightarrow> (w, sh, could_not_forward e)
           | Inr payload \<Rightarrow>
               (case Galaxy_forward_batch (rt_net rt) g w elsewhere ''/wb'' payload hops (origin_to_send sh req) of
                  (w, Inl e) \<Rightarrow> (w, sh, forward_failed e)
                | (w, Inr answers) \<Rightarrow> (w, merged_batch rt sh req apikey items answers))))"

definition write_bulk ::
  "('f, 'w) runtime \<Rightarrow> 'w \<Rightarrow> shared_state \<Rightarrow> http_in \<Rightarrow> bulk_sighting list \<Rightarrow> 'w \<times> shared_state \<times> response" where
  "write_bulk rt w sh req items =
     (case api_key sh req of
        Inl resp \<Rightarrow> (w, sh, resp)
      | Inr apikey \<Rightarrow>
          let elsewhere = filter (stored_elsewhere sh) (map bs_namespace items)
          in case sh_galaxy sh of
               Some g \<Rightarrow>
                 if elsewhere \<noteq> [] then forward_batch rt w sh req apikey items g elsewhere
                 else (w, write_batch_here rt sh req apikey items)
             | None \<Rightarrow> (w, write_batch_here rt sh req apikey items))"

section \<open>Checking a batch without writing it\<close>

definition validate_item ::
  "('f, 'w) runtime \<Rightarrow> shared_state \<Rightarrow> string option \<Rightarrow> nat \<Rightarrow> bulk_sighting \<Rightarrow> progress \<Rightarrow> progress" where
  "validate_item rt sh apikey index item p =
     (let c = check_item rt sh apikey item; p = refused c p
      in case c of
           CheckOk _ \<Rightarrow> item_ok index item None None p
         | Refused message \<Rightarrow> item_failed index item message p
         | ItemInvalid message \<Rightarrow> item_failed index item message p)"

fun validate_items ::
  "('f, 'w) runtime \<Rightarrow> shared_state \<Rightarrow> string option \<Rightarrow> nat \<Rightarrow> bulk_sighting list \<Rightarrow> progress \<Rightarrow> progress" where
  "validate_items rt sh apikey index [] p = p"
| "validate_items rt sh apikey index (item # items) p =
     validate_items rt sh apikey (index + 1) items (validate_item rt sh apikey index item p)"

definition validate_bulk :: "('f, 'w) runtime \<Rightarrow> shared_state \<Rightarrow> http_in \<Rightarrow> bulk_sighting list \<Rightarrow> response" where
  "validate_bulk rt sh req items =
     (case api_key sh req of
        Inl resp \<Rightarrow> resp
      | Inr apikey \<Rightarrow>
          let p = validate_items rt sh apikey 0 items progress_start; (status, message) = verdict p
          in json_response status (BulkValidate (bulk_response message p)))"

section \<open>What a batch of writes does\<close>

lemma check_item_same:
  assumes "sh_acl sh' = sh_acl sh" "db_stores (sh_db sh') = db_stores (sh_db sh)"
  shows "check_item rt sh' apikey item = check_item rt sh apikey item"
proof -
  have "refusal_for sh' apikey (bs_namespace item) Write = refusal_for sh apikey (bs_namespace item) Write"
    unfolding refusal_for_def assms(1) ..
  then show ?thesis unfolding check_item_def check_stores [OF assms(2)] by simp
qed

lemma check_item_ok:
  "check_item rt sh apikey item = CheckOk when \<Longrightarrow> check (sh_db sh) (bs_namespace item) (bs_value item) = Inr () \<and>
     instant_of rt (bs_timestamp item) = Inr when \<and> refusal_for sh apikey (bs_namespace item) Write = None"
  by (auto simp: check_item_def split: option.splits sum.splits)

text \<open>An item on the logical contents: one sighting, and one of the tally when it is the first.\<close>

definition item_sighted ::
  "('f, 'w) runtime \<Rightarrow> database \<Rightarrow> http_in \<Rightarrow> bulk_sighting \<Rightarrow> datetime option \<Rightarrow> logical \<Rightarrow> logical" where
  "item_sighted rt db req item when C =
     (let C1 = sighted_by db C (unwrap_or (origin_of (hr_headers req)) (db_node db)) (bs_namespace item) (bs_value item)
                 (unwrap_or when (rt_now rt)) \<lparr>wo_consensus = True, wo_ttl = bs_ttl item\<rparr> (bs_tags item)
      in if fmlookup (values_of C (bs_namespace item)) (bs_value item) = None
         then sighted_by db C1 (db_node db) ALL_NAMESPACE (bs_value item) (unwrap_or when (rt_now rt)) WriteOpts_default [] else C1)"

definition item_stored :: "('f, 'w) runtime \<Rightarrow> shared_state \<Rightarrow> http_in \<Rightarrow> string option \<Rightarrow> bulk_sighting \<Rightarrow> logical \<Rightarrow> logical" where
  "item_stored rt sh req apikey item C =
     (case check_item rt sh apikey item of CheckOk when \<Rightarrow> item_sighted rt (sh_db sh) req item when C | _ \<Rightarrow> C)"

definition item_recorded :: "('f, 'w) runtime \<Rightarrow> shared_state \<Rightarrow> string option \<Rightarrow> bulk_sighting \<Rightarrow> rejections \<Rightarrow> rejections" where
  "item_recorded rt sh apikey item r =
     (case check_item rt sh apikey item of
        CheckOk _ \<Rightarrow> r
      | Refused message \<Rightarrow> Rejections_record r (timestamp (rt_now rt)) (bs_namespace item) (bs_value item) message SourceBulkWrite
      | ItemInvalid message \<Rightarrow> Rejections_record r (timestamp (rt_now rt)) (bs_namespace item) (bs_value item) message SourceBulkWrite)"

definition blank :: "bulk_write_item \<Rightarrow> bulk_write_item" where
  "blank b = b\<lparr>bw_count := None, bw_new := None\<rparr>"

definition same_progress :: "progress \<Rightarrow> progress \<Rightarrow> bool" where
  "same_progress p p' \<longleftrightarrow> pr_done p = pr_done p' \<and> pr_errors p = pr_errors p' \<and> pr_refusals p = pr_refusals p' \<and>
     map blank (pr_items p) = map blank (pr_items p')"

lemma progress_steps:
  "same_progress p p' \<Longrightarrow> same_progress (item_ok i item c n (refused k p)) (item_ok i item None None (refused k p'))"
  "same_progress p p' \<Longrightarrow> same_progress (item_failed i item m (refused k p)) (item_failed i item m (refused k p'))"
  by (cases k; simp add: same_progress_def item_ok_def item_failed_def refused_def blank_def)+

text \<open>What of the state a batch leaves alone.\<close>

definition same_rules :: "shared_state \<Rightarrow> shared_state \<Rightarrow> bool" where
  "same_rules sh' sh \<longleftrightarrow> sh' = sh\<lparr>sh_db := sh_db sh', sh_rejections := sh_rejections sh'\<rparr> \<and> same_setup (sh_db sh') (sh_db sh)"

lemma same_rules_refl [simp]: "same_rules sh sh"
  by (simp add: same_rules_def)

lemma same_rules_trans: "same_rules a b \<Longrightarrow> same_rules b c \<Longrightarrow> same_rules a c"
  by (cases a; cases b; cases c) (auto simp: same_rules_def intro: same_setup_trans)

lemma same_rules_fields:
  assumes "same_rules sh' sh"
  shows "sh_acl sh' = sh_acl sh" "sh_galaxy sh' = sh_galaxy sh" "db_stores (sh_db sh') = db_stores (sh_db sh)"
    "sh_authenticate sh' = sh_authenticate sh"
proof -
  have e: "sh' = sh\<lparr>sh_db := sh_db sh', sh_rejections := sh_rejections sh'\<rparr>" using assms by (simp add: same_rules_def)
  show "sh_acl sh' = sh_acl sh" using arg_cong [OF e, of sh_acl] by simp
  show "sh_galaxy sh' = sh_galaxy sh" using arg_cong [OF e, of sh_galaxy] by simp
  show "sh_authenticate sh' = sh_authenticate sh" using arg_cong [OF e, of sh_authenticate] by simp
  show "db_stores (sh_db sh') = db_stores (sh_db sh)" using assms by (simp add: same_rules_def same_setup_def)
qed

lemma same_rules_keeps:
  assumes "same_rules sh' sh"
  shows "check_item rt sh' apikey item = check_item rt sh apikey item"
    and "item_stored rt sh' req apikey item = item_stored rt sh req apikey item"
    and "item_recorded rt sh' apikey item = item_recorded rt sh apikey item"
proof -
  show c: "check_item rt sh' apikey item = check_item rt sh apikey item"
    by (rule check_item_same [OF same_rules_fields(1,3) [OF assms]])
  have "same_setup (sh_db sh') (sh_db sh)" using assms by (simp add: same_rules_def)
  then have "sighted_by (sh_db sh') = sighted_by (sh_db sh)" "db_node (sh_db sh') = db_node (sh_db sh)"
    by (rule sighted_by_cong) (use \<open>same_setup (sh_db sh') (sh_db sh)\<close> in \<open>simp add: same_setup_def\<close>)
  then have "item_sighted rt (sh_db sh') = item_sighted rt (sh_db sh)" by (intro ext) (simp add: item_sighted_def Let_def cong: if_cong)
  then show "item_stored rt sh' req apikey item = item_stored rt sh req apikey item" by (intro ext) (simp add: item_stored_def c split: item_check.split)
  show "item_recorded rt sh' apikey item = item_recorded rt sh apikey item" by (intro ext) (simp add: item_recorded_def c)
qed

lemma write_item_effect:
  assumes inv: "state_inv rt sh" and wr: "write_item rt req apikey i item (sh, p) = (sh', p')"
  shows "state_inv rt sh' \<and> same_rules sh' sh \<and> stored rt sh' = item_stored rt sh req apikey item (stored rt sh) \<and>
    sh_rejections sh' = item_recorded rt sh apikey item (sh_rejections sh) \<and>
    (same_progress p q \<longrightarrow> same_progress p' (validate_item rt sh apikey i item q))"
proof (cases "check_item rt sh apikey item")
  case (CheckOk at)
  obtain db r where w: "writer_write_tagged_as (rt_env rt) (rt_disk rt) (rt_now rt) (sh_db sh) (origin_of (hr_headers req))
      (bs_namespace item) (bs_value item) at (bs_ttl item) (bs_tags item) = (db, r)" by fastforce
  note eff = writer_effect [OF inv w]
  obtain wn where r: "r = Inr wn" using eff check_item_ok [OF CheckOk] by (cases r) auto
  have res: "sh' = sh\<lparr>sh_db := db\<rparr>" "p' = item_ok i item (Some (w_count wn)) (Some (w_new wn)) (refused (CheckOk at) p)"
    using wr CheckOk w r by (simp_all add: write_item_def write_outcome_def)
  have "stored rt sh' = item_stored rt sh req apikey item (stored rt sh)"
    using eff r CheckOk res(1) by (simp add: item_stored_def item_sighted_def cong: if_cong)
  then show ?thesis using eff r CheckOk res
    by (simp add: same_rules_def item_recorded_def validate_item_def progress_steps)
next
  case (Refused m)
  then have "sh' = reject rt sh (bs_namespace item) (bs_value item) m SourceBulkWrite" "p' = item_failed i item m (refused (Refused m) p)"
    using wr by (simp_all add: write_item_def write_outcome_def)
  then show ?thesis using inv Refused
    by (simp add: same_rules_def reject_def item_stored_def item_recorded_def validate_item_def progress_steps)
next
  case (ItemInvalid m)
  then have "sh' = reject rt sh (bs_namespace item) (bs_value item) m SourceBulkWrite" "p' = item_failed i item m (refused (ItemInvalid m) p)"
    using wr by (simp_all add: write_item_def write_outcome_def)
  then show ?thesis using inv ItemInvalid
    by (simp add: same_rules_def reject_def item_stored_def item_recorded_def validate_item_def progress_steps)
qed

lemma validate_item_same: "same_rules sh' sh \<Longrightarrow> validate_item rt sh' apikey i item q = validate_item rt sh apikey i item q"
  by (simp add: validate_item_def same_rules_keeps)

lemma validate_items_same: "same_rules sh' sh \<Longrightarrow> validate_items rt sh' apikey i items q = validate_items rt sh apikey i items q"
  by (induction items arbitrary: i q) (simp_all add: validate_item_same)

lemma write_items_effect:
  assumes "state_inv rt sh" "write_items rt req apikey i items (sh, p) = (sh', p')"
  shows "state_inv rt sh' \<and> same_rules sh' sh \<and> stored rt sh' = fold (item_stored rt sh req apikey) items (stored rt sh) \<and>
    sh_rejections sh' = fold (item_recorded rt sh apikey) items (sh_rejections sh) \<and>
    (same_progress p q \<longrightarrow> same_progress p' (validate_items rt sh apikey i items q))"
  using assms
proof (induction items arbitrary: i sh p q)
  case (Cons item items)
  obtain sh1 p1 where one: "write_item rt req apikey i item (sh, p) = (sh1, p1)" by fastforce
  note eff = write_item_effect [OF Cons.prems(1) one, where q = q]
  have rules: "same_rules sh1 sh" and inv1: "state_inv rt sh1" using eff by simp_all
  have "write_items rt req apikey (i + 1) items (sh1, p1) = (sh', p')" using Cons.prems(2) one by simp
  note rest = Cons.IH [OF inv1 this, of "validate_item rt sh apikey i item q"]
  have keep: "item_stored rt sh1 req apikey = item_stored rt sh req apikey" "item_recorded rt sh1 apikey = item_recorded rt sh apikey"
    by (intro ext, simp add: same_rules_keeps [OF rules])+
  have "same_rules sh' sh" using rest rules same_rules_trans by blast
  moreover have "validate_items rt sh1 apikey (i + 1) items (validate_item rt sh apikey i item q) = validate_items rt sh apikey i (item # items) q"
    by (simp add: validate_items_same [OF rules])
  ultimately show ?case using rest eff by (simp add: keep)
qed simp

lemma validate_item_blank:
  "map blank (pr_items q) = pr_items q \<Longrightarrow>
   map blank (pr_items (validate_item rt sh apikey i item q)) = pr_items (validate_item rt sh apikey i item q)"
  by (cases "check_item rt sh apikey item")
    (simp_all add: validate_item_def item_ok_def item_failed_def refused_def blank_def)

lemma validate_items_blank:
  "map blank (pr_items q) = pr_items q \<Longrightarrow>
   map blank (pr_items (validate_items rt sh apikey i items q)) = pr_items (validate_items rt sh apikey i items q)"
  by (induction items arbitrary: i q) (simp_all add: validate_item_blank)

text \<open>
  C10. Checking a batch answers what writing it would: on a server that stores every namespace of the batch, or
  that knows no others, \<^verbatim>\<open>/vwb\<close> and \<^verbatim>\<open>/wb\<close> answer with the same status, message, number of accepted items and
  errors, and item by item with the same status and reason; only the counts of what was written are left out.
\<close>
theorem dry_run_agrees:
  assumes "state_inv rt sh" and "api_key sh req = Inr apikey"
    and "sh_galaxy sh = None \<or> (\<forall>item \<in> set items. \<not> stored_elsewhere sh (bs_namespace item))"
    and "write_bulk rt w sh req items = (w', sh', resp)"
  shows "rs_status resp = rs_status (validate_bulk rt sh req items) \<and>
    (\<exists>b b'. rs_body resp = BulkWrite b \<and> rs_body (validate_bulk rt sh req items) = BulkValidate b' \<and>
       br_message b = br_message b' \<and> br_written b = br_written b' \<and> br_errors b = br_errors b' \<and>
       map blank (br_items b) = br_items b')"
proof -
  have none: "filter (stored_elsewhere sh) (map bs_namespace items) = []" if "sh_galaxy sh \<noteq> None"
    using assms(3) that by (auto simp: filter_empty_conv)
  then have here: "write_batch_here rt sh req apikey items = (sh', resp)"
    using assms(2,4) by (auto simp: write_bulk_def Let_def split: option.splits if_splits)
  obtain p where p: "write_items rt req apikey 0 items (sh, progress_start) = (sh', p)"
    using here by (auto simp: write_batch_here_def split: prod.splits)
  let ?q = "validate_items rt sh apikey 0 items progress_start"
  have same: "same_progress p ?q"
    using write_items_effect [OF assms(1) p, of progress_start] by (simp add: same_progress_def)
  have v: "verdict p = verdict ?q" using same by (simp add: verdict_def same_progress_def)
  have items: "map blank (pr_items p) = pr_items ?q" using same validate_items_blank [of progress_start] by (simp add: same_progress_def progress_start_def)
  obtain st m where vq: "verdict ?q = (st, m)" by fastforce
  have "resp = json_response st (BulkWrite (bulk_response m p))" using here p v vq by (simp add: write_batch_here_def)
  moreover have "validate_bulk rt sh req items = json_response st (BulkValidate (bulk_response m ?q))"
    using assms(2) vq by (simp add: validate_bulk_def Let_def)
  ultimately show ?thesis using same items by (simp add: json_response_def bulk_response_def same_progress_def)
qed

definition sample_item :: "string \<Rightarrow> bulk_sighting" where
  "sample_item namespace = \<lparr>bs_namespace = namespace, bs_value = ''v'', bs_timestamp = None, bs_ttl = None, bs_tags = [], bs_noshadow = False\<rparr>"

lemma sample_key: "api_key sample_state sample_request = Inr (Some ''k'')"
  by code_simp

theorem dry_run_agrees_witness:
  "\<exists>w' sh' resp. write_bulk sample_runtime () sample_state sample_request [sample_item ''other'', sample_item ''feeds/a''] = (w', sh', resp) \<and>
     rs_status resp = rs_status (validate_bulk sample_runtime sample_state sample_request [sample_item ''other'', sample_item ''feeds/a''])"
proof -
  let ?items = "[sample_item ''other'', sample_item ''feeds/a'']"
  obtain w' sh' resp where h: "write_bulk sample_runtime () sample_state sample_request ?items = (w', sh', resp)" by (metis prod_cases3)
  have "sh_galaxy sample_state = None \<or> (\<forall>item \<in> set ?items. \<not> stored_elsewhere sample_state (bs_namespace item))"
    by (simp add: sample_state_def)
  from dry_run_agrees [OF sample_state_inv sample_key this h] h show ?thesis by blast
qed

lemma item_stored_other:
  assumes "n \<noteq> ALL_NAMESPACE" "n = bs_namespace item \<longrightarrow> refusal_for sh apikey n Write \<noteq> None \<or> check (sh_db sh) n (bs_value item) \<noteq> Inr ()"
  shows "item_stored rt sh req apikey item C n = C n"
proof (cases "check_item rt sh apikey item")
  case (CheckOk at)
  then have "n \<noteq> bs_namespace item" using assms(2) check_item_ok [OF CheckOk] by auto
  then show ?thesis using assms(1) CheckOk by (simp add: item_stored_def item_sighted_def sighted_other Let_def)
qed (simp_all add: item_stored_def)

text \<open>The entries of the answer, in the order of the batch.\<close>

lemma write_item_entries:
  assumes "write_item rt req apikey i item (sh, p) = (sh', p')"
  shows "map (\<lambda>e. (bw_index e, bw_namespace e, bw_value e)) (pr_items p') =
    map (\<lambda>e. (bw_index e, bw_namespace e, bw_value e)) (pr_items p) @ [(i, bs_namespace item, bs_value item)]"
  using assms
  by (auto simp: write_item_def Let_def item_ok_def item_failed_def refused_def split: prod.splits sum.splits item_check.splits)

lemma write_items_entries:
  assumes "write_items rt req apikey i items (sh, p) = (sh', p')"
  shows "map (\<lambda>e. (bw_index e, bw_namespace e, bw_value e)) (pr_items p') =
    map (\<lambda>e. (bw_index e, bw_namespace e, bw_value e)) (pr_items p) @
    map (\<lambda>j. (i + j, bs_namespace (items ! j), bs_value (items ! j))) [0..<length items]"
  using assms
proof (induction items arbitrary: i sh p)
  case (Cons item items)
  obtain sh1 p1 where one: "write_item rt req apikey i item (sh, p) = (sh1, p1)" by fastforce
  have "[0..<length (item # items)] = 0 # map Suc [0..<length items]" by (simp add: upt_conv_Cons map_Suc_upt del: upt_Suc)
  then show ?case using Cons.IH [of "i + 1" sh1 p1] Cons.prems one write_item_entries [OF one] by (simp add: comp_def)
qed simp

text \<open>
  C11. A batch written here is its items, one after the other: each item that the key may write and that is
  writable is one sighting, every other changes nothing and is put on record with its reason, in the order of
  the batch. So a namespace that the key may not write, an internal one or one this server does not store is as
  it was, but for the tally. The answer has one entry for each item, in order.
\<close>
theorem bulk_write_exact:
  assumes "state_inv rt sh" and "api_key sh req = Inr apikey"
    and "sh_galaxy sh = None \<or> (\<forall>item \<in> set items. \<not> stored_elsewhere sh (bs_namespace item))"
    and "write_bulk rt w sh req items = (w', sh', resp)"
  shows "w' = w \<and> state_inv rt sh' \<and> same_rules sh' sh \<and>
    stored rt sh' = fold (item_stored rt sh req apikey) items (stored rt sh) \<and>
    sh_rejections sh' = fold (item_recorded rt sh apikey) items (sh_rejections sh) \<and>
    (\<forall>n. n \<noteq> ALL_NAMESPACE \<and> (refusal_for sh apikey n Write \<noteq> None \<or> is_internal n \<or> \<not> StoragePolicy_holds (db_stores (sh_db sh)) n) \<longrightarrow>
       stored rt sh' n = stored rt sh n) \<and>
    (\<exists>b. rs_body resp = BulkWrite b \<and>
       map (\<lambda>e. (bw_index e, bw_namespace e, bw_value e)) (br_items b) =
         map (\<lambda>i. (i, bs_namespace (items ! i), bs_value (items ! i))) [0..<length items])"
proof -
  have none: "filter (stored_elsewhere sh) (map bs_namespace items) = []" if "sh_galaxy sh \<noteq> None"
    using assms(3) that by (auto simp: filter_empty_conv)
  then have w: "w' = w" and here: "write_batch_here rt sh req apikey items = (sh', resp)"
    using assms(2,4) by (auto simp: write_bulk_def Let_def split: option.splits if_splits)
  obtain p where p: "write_items rt req apikey 0 items (sh, progress_start) = (sh', p)"
    using here by (auto simp: write_batch_here_def split: prod.splits)
  note eff = write_items_effect [OF assms(1) p, of progress_start]
  have other: "fold (item_stored rt sh req apikey) its C n = C n"
    if "n \<noteq> ALL_NAMESPACE" "refusal_for sh apikey n Write \<noteq> None \<or> is_internal n \<or> \<not> StoragePolicy_holds (db_stores (sh_db sh)) n" for its C n
  proof -
    have "item_stored rt sh req apikey item C n = C n" for item C
      using that by (intro item_stored_other) (auto simp: check_def)
    then show ?thesis by (induction its arbitrary: C) simp_all
  qed
  obtain st m where v: "verdict p = (st, m)" by fastforce
  have body: "rs_body resp = BulkWrite (bulk_response m p)" using here p v by (auto simp: write_batch_here_def json_response_def)
  have entries: "map (\<lambda>e. (bw_index e, bw_namespace e, bw_value e)) (pr_items p) =
      map (\<lambda>i. (i, bs_namespace (items ! i), bs_value (items ! i))) [0..<length items]"
    using write_items_entries [OF p] by (simp add: progress_start_def)
  show ?thesis
    using w eff other body entries by (auto simp: bulk_response_def)
qed

theorem bulk_write_exact_witness:
  "\<exists>w' sh' resp. write_bulk sample_runtime () sample_state sample_request [sample_item ''other'', sample_item ''feeds/a''] = (w', sh', resp) \<and>
     stored sample_runtime sh' ''other'' = stored sample_runtime sample_state ''other''"
proof -
  let ?items = "[sample_item ''other'', sample_item ''feeds/a'']"
  obtain w' sh' resp where h: "write_bulk sample_runtime () sample_state sample_request ?items = (w', sh', resp)" by (metis prod_cases3)
  have g: "sh_galaxy sample_state = None \<or> (\<forall>item \<in> set ?items. \<not> stored_elsewhere sample_state (bs_namespace item))"
    by (simp add: sample_state_def)
  have "refusal_for sample_state (Some ''k'') ''other'' Write \<noteq> None"
    using sample_granted(2) [of Write] sample_key authorize_iff [of sample_state sample_request "''other''" Write "()"]
    by (auto simp: authorize_def split: option.splits)
  moreover have "''other'' \<noteq> ALL_NAMESPACE" by (simp add: ALL_NAMESPACE_def)
  ultimately show ?thesis using bulk_write_exact [OF sample_state_inv sample_key g h] h by blast
qed

section \<open>What is passed on is not checked\<close>


text \<open>A server that stores nothing, in front of two that store everything, and a key that may do nothing.\<close>

definition sample_router :: shared_state where
  "sample_router = sample_state\<lparr>sh_db := Database_with_node \<lparr>stats_retention = 0, shadow_ttl = 0\<rparr> (StoragePolicy_from_prefixes []) ''r'',
     sh_galaxy := Some (Galaxy_new sample_settings)\<rparr>"

definition logging_runtime :: "(sample_file, http_request list \<times> unit) runtime" where
  "logging_runtime = \<lparr>rt_env = sample_env, rt_disk = fmempty, rt_now = DateTime 100 0, rt_from_timestamp = sample_chrono,
     rt_sha256 = (\<lambda>_. []), rt_net = logged sample_net, rt_json_in = (\<lambda>s. Inr (JStr s)), rt_batch_out = (\<lambda>_. Inr [])\<rparr>"


text \<open>On a server that stores nothing of the batch the check refuses what a write passes on.\<close>

theorem dry_run_differs_on_a_router:
  assumes "api_key sh req = Inr apikey" and "items \<noteq> []"
    and "\<forall>item \<in> set items. stored_elsewhere sh (bs_namespace item)"
  shows "rs_status (validate_bulk rt sh req items) \<in> {400, 403}"
proof -
  have "\<exists>m. check_item rt sh apikey item = Refused m \<or> check_item rt sh apikey item = ItemInvalid m" if "item \<in> set items" for item
    using assms(3) that by (auto simp: check_item_def check_def stored_elsewhere_def split: option.splits)
  then have "pr_done (validate_items rt sh apikey i items q) = pr_done q \<and>
      length (pr_errors (validate_items rt sh apikey i items q)) = length (pr_errors q) + length items" for i q
  proof (induction items arbitrary: i q)
    case (Cons item items)
    have "pr_done (validate_item rt sh apikey i item q) = pr_done q"
      "length (pr_errors (validate_item rt sh apikey i item q)) = length (pr_errors q) + 1"
      using Cons.prems [of item] by (auto simp: validate_item_def item_failed_def refused_def)
    then show ?case using Cons.IH [of "i + 1" "validate_item rt sh apikey i item q"] Cons.prems by simp
  qed simp
  from this [of 0 progress_start]
  have "pr_errors (validate_items rt sh apikey 0 items progress_start) \<noteq> []" "pr_done (validate_items rt sh apikey 0 items progress_start) = 0"
    using assms(2) by (auto simp: progress_start_def)
  then have "fst (verdict (validate_items rt sh apikey 0 items progress_start)) \<in> {400, 403}" by (simp add: verdict_def)
  then show ?thesis using assms(1) by (auto simp: validate_bulk_def Let_def json_response_def split: prod.splits)
qed

end
