(* ===== verification/Bulk_Read.thy ===== *)
theory Bulk_Read
  imports Bulk
begin

text \<open>
  The batches of reads of the HTTP interface: the part of \<^verbatim>\<open>src/src/handlers.rs\<close> behind \<^verbatim>\<open>/rb\<close> and \<^verbatim>\<open>/rbs\<close>.
  What this server stores it reads itself; the rest is asked of the mirrors, once each.
\<close>

section \<open>Reading a batch\<close>

definition read_here :: "('f, 'w) runtime \<Rightarrow> shared_state \<Rightarrow> bulk_sighting \<Rightarrow> bool \<Rightarrow> shared_state \<times> bulk_read_item" where
  "read_here rt sh item with_stats =
     (let (db, r) = reader_read (rt_env rt) (rt_disk rt) (rt_now rt) (sh_db sh) (bs_namespace item) (bs_value item) with_stats
                      (\<not> bs_noshadow item)
      in (sh\<lparr>sh_db := db\<rparr>, case r of Inr view \<Rightarrow> Found view | Inl e \<Rightarrow> ReadError (ApiError_body e)))"

fun authorize_all :: "shared_state \<Rightarrow> http_in \<Rightarrow> bulk_sighting list \<Rightarrow> response + unit" where
  "authorize_all sh req [] = Inr ()"
| "authorize_all sh req (item # items) =
     (case authorize sh req (bs_namespace item) Read of Inl resp \<Rightarrow> Inl resp | Inr _ \<Rightarrow> authorize_all sh req items)"

fun add_to_group :: "string \<Rightarrow> nat \<Rightarrow> (string \<times> nat list) list \<Rightarrow> (string \<times> nat list) list" where
  "add_to_group url index [] = [(url, [index])]"
| "add_to_group url index ((known, indices) # grouped) =
     (if known = url then (known, indices @ [index]) # grouped else (known, indices) # add_to_group url index grouped)"

text \<open>The first pass: what this server reads itself, and which mirror is to be asked for the rest.\<close>

type_synonym reading = "shared_state \<times> bulk_read_item option list \<times> (string \<times> nat list) list"

definition place_item ::
  "('f, 'w) runtime \<Rightarrow> bool \<Rightarrow> u8 option \<Rightarrow> nat \<Rightarrow> bulk_sighting \<Rightarrow> reading \<Rightarrow> reading" where
  "place_item rt with_stats hops index item st =
     (let (sh, answers, grouped) = st
      in case (if stored_elsewhere sh (bs_namespace item) then sh_galaxy sh else None) of
           None \<Rightarrow> let (sh, answer) = read_here rt sh item with_stats in (sh, answers[index := Some answer], grouped)
         | Some g \<Rightarrow>
             if hops = None
             then (sh, answers[index := Some (ReadError (message_body (ForwardError_to_string TooManyHops)))], grouped)
             else case Galaxy_reader_url (rt_sha256 rt) g (bs_namespace item) (bs_value item) of
                    Inr url \<Rightarrow>
                      (if bs_noshadow item then sh else own_write rt sh (SHADOW_PREFIX @ bs_namespace item) (bs_value item),
                       answers, add_to_group url index grouped)
                  | Inl e \<Rightarrow> (sh, answers[index := Some (ReadError (message_body (ForwardError_to_string e)))], grouped))"

fun place_items ::
  "('f, 'w) runtime \<Rightarrow> bool \<Rightarrow> u8 option \<Rightarrow> nat \<Rightarrow> bulk_sighting list \<Rightarrow> reading \<Rightarrow> reading" where
  "place_items rt with_stats hops index [] st = st"
| "place_items rt with_stats hops index (item # items) st =
     place_items rt with_stats hops (index + 1) items (place_item rt with_stats hops index item st)"

definition no_answer_from :: "string \<Rightarrow> bulk_read_item" where
  "no_answer_from url = ReadError (message_body (''No answer from '' @ url @ '' for this item.''))"

fun fill_answers ::
  "string \<Rightarrow> json list option \<Rightarrow> nat \<Rightarrow> nat list \<Rightarrow> bulk_read_item option list \<Rightarrow> bulk_read_item option list" where
  "fill_answers url parsed position [] answers = answers"
| "fill_answers url parsed position (index # indices) answers =
     fill_answers url parsed (position + 1) indices
       (answers[index := Some (case Option.bind parsed (nth_entry position) of
                                 Some entry \<Rightarrow> Relayed entry
                               | None \<Rightarrow> no_answer_from url)])"

text \<open>The second pass: each mirror is asked once for all of its items.\<close>

fun ask_mirrors ::
  "('f, 'w) runtime \<Rightarrow> galaxy \<Rightarrow> bulk_sighting list \<Rightarrow> string \<Rightarrow> u8 \<Rightarrow> string \<Rightarrow> (string \<times> nat list) list \<Rightarrow> 'w
    \<Rightarrow> bulk_read_item option list \<Rightarrow> 'w \<times> (response + bulk_read_item option list)" where
  "ask_mirrors rt g items path hops origin [] w answers = (w, Inr answers)"
| "ask_mirrors rt g items path hops origin ((url, indices) # grouped) w answers =
     (case rt_batch_out rt (map (\<lambda>index. (items ! index)\<lparr>bs_noshadow := True\<rparr>) indices) of
        Inl e \<Rightarrow> (w, Inl (could_not_forward e))
      | Inr payload \<Rightarrow>
          (case Galaxy_forward_to (rt_net rt) g w url POST path (Some payload) hops origin of
             (w, answer) \<Rightarrow>
               let parsed = (case answer of Inr a \<Rightarrow> items_in rt (fw_body a) | Inl _ \<Rightarrow> None)
               in ask_mirrors rt g items path hops origin grouped w (fill_answers url parsed 0 indices answers)))"

definition NO_ANSWER :: bulk_read_item where
  "NO_ANSWER = ReadError (message_body ''No answer for this item.'')"

definition do_read_bulk ::
  "('f, 'w) runtime \<Rightarrow> 'w \<Rightarrow> shared_state \<Rightarrow> http_in \<Rightarrow> bulk_sighting list \<Rightarrow> bool \<Rightarrow> 'w \<times> shared_state \<times> response" where
  "do_read_bulk rt w sh req items with_stats =
     (case authorize_all sh req items of
        Inl resp \<Rightarrow> (w, sh, resp)
      | Inr _ \<Rightarrow>
          let hops = (case sh_galaxy sh of Some g \<Rightarrow> hops_left (hr_headers req) (g_max_hops g) | None \<Rightarrow> None);
              (sh, answers, grouped) = place_items rt with_stats hops 0 items (sh, replicate (length items) None, []);
              (w, outcome) =
                (case sh_galaxy sh of
                   Some g \<Rightarrow>
                     if grouped \<noteq> []
                     then ask_mirrors rt g items (if with_stats then ''/rbs'' else ''/rb'') (unwrap_or hops 0) (origin_to_send sh req)
                            grouped w answers
                     else (w, Inr answers)
                 | None \<Rightarrow> (w, Inr answers))
          in (w, sh, case outcome of
                Inl resp \<Rightarrow> resp
              | Inr answers \<Rightarrow> json_response 200 (BulkRead (map (\<lambda>answer. unwrap_or answer NO_ANSWER) answers))))"

definition read_bulk ::
  "('f, 'w) runtime \<Rightarrow> 'w \<Rightarrow> shared_state \<Rightarrow> http_in \<Rightarrow> bulk_sighting list \<Rightarrow> 'w \<times> shared_state \<times> response" where
  "read_bulk rt w sh req items = do_read_bulk rt w sh req items False"

definition read_bulk_with_stats ::
  "('f, 'w) runtime \<Rightarrow> 'w \<Rightarrow> shared_state \<Rightarrow> http_in \<Rightarrow> bulk_sighting list \<Rightarrow> 'w \<times> shared_state \<times> response" where
  "read_bulk_with_stats rt w sh req items = do_read_bulk rt w sh req items True"

section \<open>Every item of a batch is answered\<close>

text \<open>What a read leaves: the contents are as they were, but for the record of what was searched.\<close>

definition only_searched :: "('f, 'w) runtime \<Rightarrow> shared_state \<Rightarrow> shared_state \<Rightarrow> bool" where
  "only_searched rt sh' sh \<longleftrightarrow> state_inv rt sh' \<and> tallies_ok rt sh' \<and> same_rules sh' sh \<and>
     (\<forall>n. \<not> starts_with n SHADOW_PREFIX \<longrightarrow> stored rt sh' n = stored rt sh n)"

lemma only_searched_trans: "only_searched rt a b \<Longrightarrow> only_searched rt b c \<Longrightarrow> only_searched rt a c"
  unfolding only_searched_def using same_rules_trans by auto

lemma read_here_effect:
  assumes "state_inv rt sh" "tallies_ok rt sh" "read_here rt sh item with_stats = (sh', answer)"
  shows "only_searched rt sh' sh" "answer \<noteq> NO_ANSWER"
proof -
  obtain db r where r: "reader_read (rt_env rt) (rt_disk rt) (rt_now rt) (sh_db sh) (bs_namespace item) (bs_value item) with_stats
      (\<not> bs_noshadow item) = (db, r)" by fastforce
  then have res: "sh' = sh\<lparr>sh_db := db\<rparr>" "answer = (case r of Inr view \<Rightarrow> Found view | Inl e \<Rightarrow> ReadError (ApiError_body e))"
    using assms(3) by (simp_all add: read_here_def)
  note eff = client_read_effect [OF assms(1,2) r]
  have "contents (rt_env rt) (rt_disk rt) db n = stored rt sh n" if "\<not> starts_with n SHADOW_PREFIX" for n
  proof -
    have "n \<noteq> SHADOW_PREFIX @ bs_namespace item" using that by (auto simp: starts_with_append)
    then show ?thesis using eff sighted_other by simp
  qed
  moreover have "db_inv (rt_env rt) (rt_disk rt) db" "same_setup db (sh_db sh)" "consensus_ok (db_node db) (contents (rt_env rt) (rt_disk rt) db)"
    using eff by blast+
  ultimately show "only_searched rt sh' sh" by (simp add: only_searched_def same_rules_def res(1))
  have "ApiError_body e \<noteq> message_body ''No answer for this item.''" for e
    by (cases e) (simp_all add: message_body_def quoted_def)
  then show "answer \<noteq> NO_ANSWER" by (simp add: res(2) NO_ANSWER_def split: sum.splits)
qed

lemma shadow_write_effect:
  assumes "state_inv rt sh" "tallies_ok rt sh"
  shows "only_searched rt (own_write rt sh (SHADOW_PREFIX @ namespace) v) sh"
proof -
  let ?sh = "own_write rt sh (SHADOW_PREFIX @ namespace) v"
  note eff = own_write_effect [OF assms(1), of "SHADOW_PREFIX @ namespace" v]
  have C: "stored rt ?sh = sighted_by (sh_db sh) (stored rt sh) (db_node (sh_db sh)) (SHADOW_PREFIX @ namespace) v (rt_now rt) WriteOpts_default []"
    using eff by blast
  have "stored rt ?sh n = stored rt sh n" if "\<not> starts_with n SHADOW_PREFIX" for n
    unfolding C by (rule sighted_other) (use that in \<open>auto simp: starts_with_append\<close>)
  moreover have "consensus_ok (db_node (sh_db sh)) (stored rt ?sh)"
    unfolding C unfolding sighted_by_def sighted_def by (rule consensus_aside [OF assms(2) shadow_path])
  moreover have "db_node (sh_db ?sh) = db_node (sh_db sh)" using eff by (simp add: same_setup_def)
  moreover have "sh_rejections ?sh = sh_rejections sh" by (simp add: own_write_def)
  ultimately show ?thesis using eff by (simp add: only_searched_def same_rules_def)
qed

lemma forward_error_text: "message_body (ForwardError_to_string e) \<noteq> message_body ''No answer for this item.''"
  by (cases e) (simp_all add: message_body_def)

lemma no_answer_from_text: "no_answer_from url \<noteq> NO_ANSWER"
  by (simp add: no_answer_from_def NO_ANSWER_def message_body_def)

fun grouped_indices :: "(string \<times> nat list) list \<Rightarrow> nat set" where
  "grouped_indices [] = {}"
| "grouped_indices ((_, indices) # grouped) = set indices \<union> grouped_indices grouped"

lemma grouped_add: "grouped_indices (add_to_group url i grouped) = insert i (grouped_indices grouped)"
  by (induction url i grouped rule: add_to_group.induct) auto

text \<open>A batch being read: nothing is answered by default, and what is not answered yet has a mirror to ask.\<close>

definition read_so_far :: "nat set \<Rightarrow> bulk_read_item option list \<Rightarrow> (string \<times> nat list) list \<Rightarrow> bool" where
  "read_so_far done answers grouped \<longleftrightarrow> Some NO_ANSWER \<notin> set answers \<and> grouped_indices grouped \<subseteq> {..<length answers} \<and>
     (\<forall>j \<in> done. j < length answers \<and> (answers ! j \<noteq> None \<or> j \<in> grouped_indices grouped))"

lemma read_so_far_answer:
  "read_so_far done answers grouped \<Longrightarrow> i < length answers \<Longrightarrow> a \<noteq> NO_ANSWER \<Longrightarrow> read_so_far (insert i done) (answers[i := Some a]) grouped"
  by (auto simp: read_so_far_def nth_list_update dest!: set_update_subset_insert [THEN subsetD])

lemma read_so_far_group:
  "read_so_far done answers grouped \<Longrightarrow> i < length answers \<Longrightarrow> read_so_far (insert i done) answers (add_to_group url i grouped)"
  by (auto simp: read_so_far_def grouped_add)

lemma place_item_effect:
  assumes "state_inv rt sh" "tallies_ok rt sh" "place_item rt with_stats hops i item (sh, answers, grouped) = (sh', answers', grouped')"
    and "read_so_far done answers grouped" "i < length answers"
  shows "only_searched rt sh' sh \<and> length answers' = length answers \<and> read_so_far (insert i done) answers' grouped'"
proof (cases "if stored_elsewhere sh (bs_namespace item) then sh_galaxy sh else None")
  case None
  obtain sh1 a where rd: "read_here rt sh item with_stats = (sh1, a)" by fastforce
  then have "sh' = sh1" "answers' = answers[i := Some a]" "grouped' = grouped" using assms(3) None by (auto simp: place_item_def Let_def)
  then show ?thesis using read_here_effect [OF assms(1,2) rd] read_so_far_answer [OF assms(4,5)] by simp
next
  case (Some g)
  have refl: "only_searched rt sh sh" using assms(1,2) by (simp add: only_searched_def)
  have err: "ReadError (message_body (ForwardError_to_string e)) \<noteq> NO_ANSWER" for e using forward_error_text by (simp add: NO_ANSWER_def)
  show ?thesis
  proof (cases "hops = None")
    case True
    then have "sh' = sh" "answers' = answers[i := Some (ReadError (message_body (ForwardError_to_string TooManyHops)))]" "grouped' = grouped"
      using assms(3) Some by (auto simp: place_item_def Let_def)
    then show ?thesis using refl read_so_far_answer [OF assms(4,5) err [of TooManyHops]] by simp
  next
    case False
    show ?thesis
    proof (cases "Galaxy_reader_url (rt_sha256 rt) g (bs_namespace item) (bs_value item)")
      case (Inl e)
      then have "sh' = sh" "answers' = answers[i := Some (ReadError (message_body (ForwardError_to_string e)))]" "grouped' = grouped"
        using assms(3) Some False by (auto simp: place_item_def Let_def)
      then show ?thesis using refl read_so_far_answer [OF assms(4,5) err] by simp
    next
      case (Inr url)
      then have "sh' = (if bs_noshadow item then sh else own_write rt sh (SHADOW_PREFIX @ bs_namespace item) (bs_value item))"
        "answers' = answers" "grouped' = add_to_group url i grouped"
        using assms(3) Some False by (auto simp: place_item_def Let_def)
      then show ?thesis using refl shadow_write_effect [OF assms(1,2)] read_so_far_group [OF assms(4,5)] by simp
    qed
  qed
qed

lemma place_items_effect:
  assumes "state_inv rt sh" "tallies_ok rt sh" "place_items rt with_stats hops i items (sh, answers, grouped) = (sh', answers', grouped')"
    and "read_so_far {..<i} answers grouped" "i + length items = length answers"
  shows "only_searched rt sh' sh \<and> length answers' = length answers \<and> read_so_far {..<length answers} answers' grouped'"
  using assms
proof (induction items arbitrary: i sh answers grouped)
  case Nil
  then show ?case by (simp add: only_searched_def)
next
  case (Cons item items)
  obtain sh1 a1 g1 where one: "place_item rt with_stats hops i item (sh, answers, grouped) = (sh1, a1, g1)" by (metis prod_cases3)
  have i: "i < length answers" using Cons.prems(5) by simp
  note eff = place_item_effect [OF Cons.prems(1,2) one Cons.prems(4) i]
  have "place_items rt with_stats hops (i + 1) items (sh1, a1, g1) = (sh', answers', grouped')" using Cons.prems(3) one by simp
  moreover have "read_so_far {..<i + 1} a1 g1" using eff by (simp add: lessThan_Suc)
  moreover have "state_inv rt sh1" "tallies_ok rt sh1" "i + 1 + length items = length a1" using eff Cons.prems(5) by (simp_all add: only_searched_def)
  ultimately show ?case using Cons.IH [of sh1 "i + 1" a1 g1] eff only_searched_trans by auto
qed

lemma fill_answers_effect:
  "Some NO_ANSWER \<notin> set answers \<Longrightarrow> set indices \<subseteq> {..<length answers} \<Longrightarrow> answers' = fill_answers url parsed k indices answers \<Longrightarrow>
   length answers' = length answers \<and> Some NO_ANSWER \<notin> set answers' \<and>
   (\<forall>j < length answers. answers' ! j = None \<longrightarrow> answers ! j = None \<and> j \<notin> set indices)"
proof (induction indices arbitrary: k answers)
  case (Cons i indices)
  define a where "a = (case Option.bind parsed (nth_entry k) of Some entry \<Rightarrow> Relayed entry | None \<Rightarrow> no_answer_from url)"
  have "a \<noteq> NO_ANSWER" by (auto simp: a_def no_answer_from_text NO_ANSWER_def [symmetric] split: option.split) (simp add: NO_ANSWER_def)
  then have "Some NO_ANSWER \<notin> set (answers[i := Some a])" using Cons.prems(1) set_update_subset_insert [of answers i "Some a"] by auto
  moreover have "answers' = fill_answers url parsed (k + 1) indices (answers[i := Some a])" using Cons.prems(3) by (simp add: a_def)
  ultimately have "length answers' = length answers \<and> Some NO_ANSWER \<notin> set answers' \<and>
      (\<forall>j < length answers. answers' ! j = None \<longrightarrow> answers[i := Some a] ! j = None \<and> j \<notin> set indices)"
    using Cons.IH [of "answers[i := Some a]" "k + 1"] Cons.prems(2) by simp
  then show ?case using Cons.prems(2) by (auto simp: nth_list_update split: if_splits)
qed simp

lemma ask_mirrors_effect:
  "ask_mirrors rt g items path hops origin grouped w answers = (w', r) \<Longrightarrow> Some NO_ANSWER \<notin> set answers \<Longrightarrow>
   grouped_indices grouped \<subseteq> {..<length answers} \<Longrightarrow>
   (case r of
      Inl resp \<Rightarrow> \<exists>batch e. rt_batch_out rt batch = Inl e \<and> resp = could_not_forward e
    | Inr answers' \<Rightarrow> length answers' = length answers \<and> Some NO_ANSWER \<notin> set answers' \<and>
        (\<forall>j < length answers. answers' ! j = None \<longrightarrow> answers ! j = None \<and> j \<notin> grouped_indices grouped))"
proof (induction rt g items path hops origin grouped w answers rule: ask_mirrors.induct)
  case (2 rt g items path hops origin url indices grouped w answers)
  show ?case
  proof (cases "rt_batch_out rt (map (\<lambda>index. (items ! index)\<lparr>bs_noshadow := True\<rparr>) indices)")
    case (Inl e)
    then have "r = Inl (could_not_forward e)" using "2.prems"(1) by simp
    then show ?thesis using Inl by (simp, blast)
  next
    case (Inr payload)
    obtain w1 answer where fw: "Galaxy_forward_to (rt_net rt) g w url POST path (Some payload) hops origin = (w1, answer)" by fastforce
    define parsed where "parsed = (case answer of Inr a \<Rightarrow> items_in rt (fw_body a) | Inl _ \<Rightarrow> None)"
    define a1 where "a1 = fill_answers url parsed 0 indices answers"
    have fill: "length a1 = length answers \<and> Some NO_ANSWER \<notin> set a1 \<and>
        (\<forall>j < length answers. a1 ! j = None \<longrightarrow> answers ! j = None \<and> j \<notin> set indices)"
      using fill_answers_effect [OF "2.prems"(2) _ a1_def] "2.prems"(3) by simp
    have "ask_mirrors rt g items path hops origin grouped w1 a1 = (w', r)"
      using "2.prems"(1) Inr fw by (simp add: parsed_def a1_def)
    then show ?thesis
      using "2.IH" [OF Inr fw [symmetric] parsed_def] fill "2.prems"(3) by (auto simp: a1_def split: sum.splits)
  qed
qed auto

text \<open>A server with no peers asks nobody.\<close>

lemma place_item_alone:
  assumes "sh_galaxy sh = None" "place_item rt with_stats hops i item (sh, answers, grouped) = (sh', answers', grouped')"
  shows "sh_galaxy sh' = None \<and> grouped' = grouped"
proof -
  have "(if stored_elsewhere sh (bs_namespace item) then sh_galaxy sh else None) = None" using assms(1) by simp
  then show ?thesis using assms by (auto simp: place_item_def read_here_def split: prod.splits)
qed

lemma place_items_alone:
  assumes "sh_galaxy sh = None" "place_items rt with_stats hops i items (sh, answers, grouped) = (sh', answers', grouped')"
  shows "grouped' = grouped"
  using assms
proof (induction items arbitrary: i sh answers grouped)
  case (Cons item items)
  obtain sh1 a1 g1 where one: "place_item rt with_stats hops i item (sh, answers, grouped) = (sh1, a1, g1)" by (metis prod_cases3)
  then show ?case using Cons.IH [of sh1 "i + 1" a1 g1] Cons.prems place_item_alone [OF Cons.prems(1) one] by simp
qed simp

lemma authorize_all_ok: "authorize_all sh req items = Inr () \<longleftrightarrow> (\<forall>item \<in> set items. granted sh req (bs_namespace item) Read)"
proof (induction items)
  case (Cons item items)
  then show ?case using authorize_iff [of sh req "bs_namespace item" Read "()"] by (auto split: sum.splits)
qed simp

lemma authorize_all_status: "authorize_all sh req items = Inl resp \<Longrightarrow> rs_status resp \<in> {400, 401, 403}"
proof (induction items)
  case (Cons item items)
  then show ?case using authorize_status by (cases "authorize sh req (bs_namespace item) Read") auto
qed simp



end
