(* ===== verification/Merge_Route.thy ===== *)
theory Merge_Route
  imports Bulk
begin

text \<open>
  \<^verbatim>\<open>POST /_api/merge\<close> of \<^verbatim>\<open>src/src/handlers.rs\<close>: folding a batch of peers' copies into this server's own.
\<close>

section \<open>Merging a batch of peers' copies\<close>

record merge_progress =
  mp_items :: "merge_result list"
  mp_errors :: "bulk_write_error list"
  mp_changed :: nat
  mp_refusals :: nat
  mp_failures :: nat

definition merge_refusal :: "shared_state \<Rightarrow> string option \<Rightarrow> merge_item \<Rightarrow> (bool \<times> string) option" where
  "merge_refusal sh apikey item =
     (case refusal_for sh apikey (mi_namespace item) Write of
        Some message \<Rightarrow> Some (True, message)
      | None \<Rightarrow>
          (case check (sh_db sh) (mi_namespace item) (mi_value item) of
             Inl e \<Rightarrow> Some (False, ApiError_to_string e)
           | Inr _ \<Rightarrow> None))"

definition merge_one ::
  "('f, 'w) runtime \<Rightarrow> string option \<Rightarrow> nat \<Rightarrow> merge_item \<Rightarrow> shared_state \<times> merge_progress \<Rightarrow> shared_state \<times> merge_progress" where
  "merge_one rt apikey index item st =
     (let (sh, p) = st
      in case merge_refusal sh apikey item of
           Some (by_acl, message) \<Rightarrow>
             (sh, p\<lparr>mp_refusals := (if by_acl then mp_refusals p + 1 else mp_refusals p), mp_failures := mp_failures p + 1,
                mp_errors := mp_errors p @ [\<lparr>be_namespace = mi_namespace item, be_value = mi_value item, be_error = message\<rparr>],
                mp_items := mp_items p @ [\<lparr>mr_index = index, mr_namespace = mi_namespace item, mr_value = mi_value item,
                   mr_status = ''error'', mr_changed = None, mr_count = None, mr_ignored_self = None, mr_error = Some message\<rparr>]\<rparr>)
         | None \<Rightarrow>
             let (db, outcome) = Database_merge (rt_from_timestamp rt) (rt_env rt) (rt_disk rt) (rt_now rt) (sh_db sh)
                                   (mi_namespace item) (mi_value item) (MergeItem_state item)
             in (sh\<lparr>sh_db := db\<rparr>, p\<lparr>mp_changed := (if changed outcome then mp_changed p + 1 else mp_changed p),
                   mp_items := mp_items p @ [\<lparr>mr_index = index, mr_namespace = mi_namespace item, mr_value = mi_value item,
                      mr_status = ''ok'', mr_changed = Some (changed outcome), mr_count = Some (merged_count outcome),
                      mr_ignored_self = Some (ignored_self outcome), mr_error = None\<rparr>]\<rparr>))"

fun merge_items ::
  "('f, 'w) runtime \<Rightarrow> string option \<Rightarrow> nat \<Rightarrow> merge_item list \<Rightarrow> shared_state \<times> merge_progress \<Rightarrow> shared_state \<times> merge_progress" where
  "merge_items rt apikey index [] st = st"
| "merge_items rt apikey index (item # items) st = merge_items rt apikey (index + 1) items (merge_one rt apikey index item st)"

definition handle_merge ::
  "('f, 'w) runtime \<Rightarrow> shared_state \<Rightarrow> http_in \<Rightarrow> merge_item list \<Rightarrow> shared_state \<times> response" where
  "handle_merge rt sh req items =
     (case api_key sh req of
        Inl resp \<Rightarrow> (sh, resp)
      | Inr apikey \<Rightarrow>
          let (sh, p) = merge_items rt apikey 0 items
                (sh, \<lparr>mp_items = [], mp_errors = [], mp_changed = 0, mp_refusals = 0, mp_failures = 0\<rparr>);
              accepted = length items - mp_failures p;
              (status, message) =
                (if mp_failures p = 0 then (200, ''ok'')
                 else if accepted > 0 then (200, ''partial'')
                 else if mp_refusals p = mp_failures p then (403, ''failed'')
                 else (400, ''failed''))
          in (sh, json_response status (Merged \<lparr>ms_message = message, ms_changed = mp_changed p, ms_items = mp_items p,
                ms_errors = mp_errors p\<rparr>)))"

section \<open>What a batch of copies does\<close>

lemma state_of_offer: "MergeOfferItem_state (offer_of (v, m)) = m" "mo_value (offer_of (v, m)) = v" "mo_counts (offer_of (v, m)) = m_counts m"
  by (simp_all add: MergeOfferItem_state_def offer_of_def)

text \<open>What a peer's copies may not change: what this server has seen itself, and namespaces they do not name.\<close>

definition own_counts_kept :: "string \<Rightarrow> logical \<Rightarrow> logical \<Rightarrow> bool" where
  "own_counts_kept node C C' \<longleftrightarrow> (\<forall>n v. n \<noteq> ALL_NAMESPACE \<longrightarrow>
     fm_get0 (counts_in C' n v) node = fm_get0 (counts_in C n v) node)"

lemma taken_own:
  assumes "taken_in node namespace [x] C C'"
  shows "own_counts_kept node C C'"
  unfolding own_counts_kept_def
proof (intro allI impI)
  fix n v assume all: "n \<noteq> ALL_NAMESPACE"
  consider "n \<noteq> namespace" | "n = namespace" "v \<noteq> mo_value x" | "n = namespace" "v = mo_value x" by blast
  then show "fm_get0 (counts_in C' n v) node = fm_get0 (counts_in C n v) node"
  proof cases
    case 1
    then show ?thesis using assms all by (simp add: taken_in_def counts_in_def values_of_def)
  next
    case 2
    then show ?thesis using assms by (simp add: taken_in_def counts_in_def fm_get_def)
  next
    case 3
    then have "counts_in C' n v = fm_max (counts_in C n v) (fmdrop node (mo_counts x))" using assms by (simp add: taken_in_def)
    then show ?thesis by (simp add: fm_get_def [of 0 "fmdrop node (mo_counts x)"])
  qed
qed

lemma merge_one_effect:
  assumes inv: "db_inv_upto (rt_env rt) (rt_disk rt) X (sh_db sh)" and ok: "tallies_ok rt sh"
    and bound: "\<And>v. card (holders (stored rt sh) v) < 2 ^ 64 - 1"
    and m: "merge_one rt apikey i item (sh, p) = (sh', p')"
  shows "db_inv_upto (rt_env rt) (rt_disk rt) (insert (shard_of (mi_namespace item)) X) (sh_db sh') \<and> tallies_ok rt sh' \<and> same_rules sh' sh \<and>
    sh_rejections sh' = sh_rejections sh \<and> own_counts_kept (db_node (sh_db sh)) (stored rt sh) (stored rt sh') \<and>
    (\<forall>n. n \<noteq> ALL_NAMESPACE \<and> (n = mi_namespace item \<longrightarrow> merge_refusal sh apikey item \<noteq> None) \<longrightarrow> stored rt sh' n = stored rt sh n) \<and>
    (\<forall>v. card (holders (stored rt sh') v) \<le> card (holders (stored rt sh) v) + 1)"
proof (cases "merge_refusal sh apikey item")
  case (Some r)
  then have "sh' = sh" using m by (auto simp: merge_one_def split: prod.splits)
  then show ?thesis using ok Some inv_mono [OF inv] by (auto simp: own_counts_kept_def)
next
  case None
  obtain db out where mg: "Database_merge (rt_from_timestamp rt) (rt_env rt) (rt_disk rt) (rt_now rt) (sh_db sh)
      (mi_namespace item) (mi_value item) (MergeItem_state item) = (db, out)" by fastforce
  let ?x = "offer_of (mi_value item, MergeItem_state item)"
  have "check (sh_db sh) (mi_namespace item) (mi_value item) = Inr ()" using None by (auto simp: merge_refusal_def split: option.splits sum.splits)
  then have p: "counts_towards_consensus (mi_namespace item)" by (auto simp: check_def external_counts split: if_splits)
  have sh': "sh' = sh\<lparr>sh_db := db\<rparr>" using m None mg by (simp add: merge_one_def)
  have eq: "Database_merge (rt_from_timestamp rt) (rt_env rt) (rt_disk rt) (rt_now rt) (sh_db sh)
      (mi_namespace item) (mo_value ?x) (MergeOfferItem_state ?x) = (db, out)" using mg by (simp add: state_of_offer)
  note t = merge_one_taken [OF inv ok p bound eq]
  have taken: "taken_in (db_node (sh_db sh)) (mi_namespace item) [?x] (stored rt sh) (stored rt sh')" using t sh' by simp
  have "card (holders (stored rt sh') v) \<le> card (holders (stored rt sh) v) + 1" for v
    using t sh' by (cases "v = mi_value item") (simp_all add: state_of_offer card_insert_le_m1 card_insert_if finite_holders_db)
  moreover have "stored rt sh' n = stored rt sh n" if "n \<noteq> ALL_NAMESPACE" "n \<noteq> mi_namespace item" for n
    using taken that by (simp add: taken_in_def)
  ultimately show ?thesis using t sh' taken_own [OF taken] None by (auto simp: same_rules_def)
qed

lemma merge_refusal_same: 
  assumes "same_rules sh' sh"
  shows "merge_refusal sh' apikey item = merge_refusal sh apikey item"
proof -
  note same = same_rules_fields [OF assms]
  have "refusal_for sh' apikey (mi_namespace item) Write = refusal_for sh apikey (mi_namespace item) Write"
    unfolding refusal_for_def same(1) ..
  then show ?thesis unfolding merge_refusal_def check_stores [OF same(3)] by simp
qed

lemma merge_items_effect:
  assumes "db_inv_upto (rt_env rt) (rt_disk rt) X (sh_db sh)" "tallies_ok rt sh"
    and "\<And>v. card (holders (stored rt sh) v) + length items < 2 ^ 64"
    and "merge_items rt apikey i items (sh, p) = (sh', p')"
  shows "db_inv_upto (rt_env rt) (rt_disk rt) ((\<lambda>x. shard_of (mi_namespace x)) ` set items \<union> X) (sh_db sh') \<and> tallies_ok rt sh' \<and> same_rules sh' sh \<and>
    sh_rejections sh' = sh_rejections sh \<and> own_counts_kept (db_node (sh_db sh)) (stored rt sh) (stored rt sh') \<and>
    (\<forall>n. n \<noteq> ALL_NAMESPACE \<and> (\<forall>x \<in> set items. n = mi_namespace x \<longrightarrow> merge_refusal sh apikey x \<noteq> None) \<longrightarrow> stored rt sh' n = stored rt sh n)"
  using assms
proof (induction items arbitrary: i sh p X)
  case Nil
  then show ?case by (simp add: own_counts_kept_def)
next
  case (Cons item items)
  obtain sh1 p1 where one: "merge_one rt apikey i item (sh, p) = (sh1, p1)" by fastforce
  have "card (holders (stored rt sh) v) < 2 ^ 64 - 1" for v using Cons.prems(3) [of v] by simp
  note eff = merge_one_effect [OF Cons.prems(1,2) this one]
  have b1: "card (holders (stored rt sh1) v) + length items < 2 ^ 64" for v
  proof -
    have "card (holders (stored rt sh1) v) \<le> card (holders (stored rt sh) v) + 1" using eff by blast
    then show ?thesis using Cons.prems(3) [of v] by simp
  qed
  have rules: "same_rules sh1 sh" using eff by blast
  have node: "db_node (sh_db sh1) = db_node (sh_db sh)" using rules by (simp add: same_rules_def same_setup_def)
  have "merge_items rt apikey (i + 1) items (sh1, p1) = (sh', p')" using Cons.prems(4) one by simp
  note ih = Cons.IH [OF _ _ b1 this, of "insert (shard_of (mi_namespace item)) X"]
  note ih = ih [OF conjunct1 [OF eff] conjunct1 [OF conjunct2 [OF eff]]]
  have "same_rules sh' sh" using ih rules same_rules_trans by blast
  moreover have "own_counts_kept (db_node (sh_db sh)) (stored rt sh) (stored rt sh')"
    using ih eff unfolding node own_counts_kept_def by simp
  moreover have "stored rt sh' n = stored rt sh n"
    if "n \<noteq> ALL_NAMESPACE" "\<forall>x \<in> set (item # items). n = mi_namespace x \<longrightarrow> merge_refusal sh apikey x \<noteq> None" for n
  proof -
    have "stored rt sh1 n = stored rt sh n" using eff that by simp
    moreover have "stored rt sh' n = stored rt sh1 n" using ih that by (simp add: merge_refusal_same [OF rules])
    ultimately show ?thesis by simp
  qed
  moreover have "sh_rejections sh' = sh_rejections sh" using ih eff by simp
  ultimately show ?case using ih by (simp add: insert_commute Un_insert_right)
qed

lemma merge_items_entries:
  "merge_items rt apikey i items (sh, p) = (sh', p') \<Longrightarrow>
   map (\<lambda>e. (mr_index e, mr_namespace e, mr_value e)) (mp_items p') =
     map (\<lambda>e. (mr_index e, mr_namespace e, mr_value e)) (mp_items p) @
     map (\<lambda>j. (i + j, mi_namespace (items ! j), mi_value (items ! j))) [0..<length items]"
proof (induction items arbitrary: i sh p)
  case (Cons item items)
  obtain sh1 p1 where one: "merge_one rt apikey i item (sh, p) = (sh1, p1)" by fastforce
  have "[0..<length (item # items)] = 0 # map Suc [0..<length items]" by (simp add: upt_conv_Cons map_Suc_upt del: upt_Suc)
  moreover have "map (\<lambda>e. (mr_index e, mr_namespace e, mr_value e)) (mp_items p1) =
      map (\<lambda>e. (mr_index e, mr_namespace e, mr_value e)) (mp_items p) @ [(i, mi_namespace item, mi_value item)]"
    using one by (auto simp: merge_one_def split: option.splits prod.splits)
  ultimately show ?case using Cons.IH [of "i + 1" sh1 p1] Cons.prems one by (simp add: comp_def)
qed simp

lemma key_grants:
  "api_key sh req = Inr apikey \<Longrightarrow> refusal_for sh apikey n acc = None \<longleftrightarrow> granted sh req n acc"
  using authorize_iff [of sh req n acc "()"] by (auto simp: authorize_def split: option.splits)

text \<open>
  C13. Merging peers' copies is bounded by the grants and cannot rewrite what this server saw: a namespace that the
  request may not write, that is internal or that this server does not store stays as it was, and so does every
  namespace that the batch does not name; in no namespace does the count for this server itself change; the
  tallies stay exact, and the answer has one entry for each item, in order. Without a key nothing happens.
\<close>
theorem merge_route_is_safe:
  assumes "state_inv rt sh" and "tallies_ok rt sh" and "\<And>v. card (holders (stored rt sh) v) + length items < 2 ^ 64"
    and "handle_merge rt sh req items = (sh', resp)"
  shows "tallies_ok rt sh' \<and> same_rules sh' sh \<and> sh_rejections sh' = sh_rejections sh \<and>
    db_inv_upto (rt_env rt) (rt_disk rt) ((\<lambda>x. shard_of (mi_namespace x)) ` set items \<union> {INTERNAL_SHARD}) (sh_db sh') \<and>
    own_counts_kept (db_node (sh_db sh)) (stored rt sh) (stored rt sh') \<and>
    (\<forall>n. n \<noteq> ALL_NAMESPACE \<and> (n \<notin> mi_namespace ` set items \<or> \<not> granted sh req n Write \<or> is_internal n \<or> \<not> StoragePolicy_holds (db_stores (sh_db sh)) n)
       \<longrightarrow> stored rt sh' n = stored rt sh n) \<and>
    (case rs_body resp of
       Merged b \<Rightarrow> map (\<lambda>e. (mr_index e, mr_namespace e, mr_value e)) (ms_items b) =
         map (\<lambda>j. (j, mi_namespace (items ! j), mi_value (items ! j))) [0..<length items]
     | _ \<Rightarrow> sh' = sh)"
proof (cases "api_key sh req")
  case (Inl r)
  then have "sh' = sh" "\<exists>j. rs_body resp = Json j"
    using assms(4) by (auto simp: handle_merge_def api_key_def message_response_def json_response_def split: if_splits option.splits)
  then show ?thesis using assms(1,2) inv_mono [OF assms(1)] by (auto simp: own_counts_kept_def)
next
  case (Inr apikey)
  obtain sh1 p where m: "merge_items rt apikey 0 items
      (sh, \<lparr>mp_items = [], mp_errors = [], mp_changed = 0, mp_refusals = 0, mp_failures = 0\<rparr>) = (sh1, p)" by fastforce
  have sh1: "sh' = sh1" and body: "\<exists>message. rs_body resp = Merged \<lparr>ms_message = message, ms_changed = mp_changed p, ms_items = mp_items p, ms_errors = mp_errors p\<rparr>"
    using assms(4) Inr m by (auto simp: handle_merge_def Let_def json_response_def split: if_splits)
  note eff = merge_items_effect [OF assms(1,2,3) m]
  have "merge_refusal sh apikey x \<noteq> None"
    if "\<not> granted sh req (mi_namespace x) Write \<or> is_internal (mi_namespace x) \<or> \<not> StoragePolicy_holds (db_stores (sh_db sh)) (mi_namespace x)" for x
    using that key_grants [OF Inr, of "mi_namespace x" Write] by (auto simp: merge_refusal_def check_def split: option.splits)
  then have "stored rt sh1 n = stored rt sh n"
    if "n \<noteq> ALL_NAMESPACE" "n \<notin> mi_namespace ` set items \<or> \<not> granted sh req n Write \<or> is_internal n \<or> \<not> StoragePolicy_holds (db_stores (sh_db sh)) n" for n
    using eff that by blast
  then show ?thesis using eff body merge_items_entries [OF m] unfolding sh1 by auto
qed

definition sample_merge_item :: merge_item where
  "sample_merge_item = \<lparr>mi_namespace = ''other'', mi_value = ''v'', mi_counts = fmempty, mi_stats = fmempty, mi_first_seen = 0, mi_last_seen = 0,
     mi_tags = [], mi_tags_at = 0, mi_ttl = 0\<rparr>"

theorem merge_route_is_safe_witness:
  "\<exists>sh' resp. handle_merge sample_runtime sample_state sample_request [sample_merge_item] = (sh', resp) \<and>
     stored sample_runtime sh' ''other'' = stored sample_runtime sample_state ''other''"
proof -
  obtain sh' resp where h: "handle_merge sample_runtime sample_state sample_request [sample_merge_item] = (sh', resp)" by fastforce
  have ok: "tallies_ok sample_runtime sample_state" using sample_start_ok by (simp add: sample_runtime_def sample_state_def)
  have bound: "card (holders (stored sample_runtime sample_state) v) + length [sample_merge_item] < 2 ^ 64" for v
    by (simp add: sample_runtime_def sample_state_def holders_def values_of_def sample_start)
  have "''other'' \<noteq> ALL_NAMESPACE" by (simp add: ALL_NAMESPACE_def)
  then show ?thesis using merge_route_is_safe [OF sample_state_inv ok bound h] sample_granted(2) [of Write] h by blast
qed

end
