(* ===== verification/Peers_File.thy ===== *)
theory Peers_File
  imports Galaxy Acl
begin

text \<open>
  The peers of a server as configured, from \<^verbatim>\<open>src/src/config.rs\<close>: checking one peer (\<open>validated_peer\<close>), the file of
  peers the management interface writes and the next start reads (\<open>PeersFile_to_toml\<close>, \<open>load_file_peers\<close>), and
  putting both lists together (\<open>RawGalaxy_into_settings\<close>). Parsing TOML is the parameter \<open>toml_in\<close>.
\<close>

section \<open>Definitions\<close>

datatype peer_error =
    PeerNoUrl | PeerUrlScheme string | PeerNoKey string | PeerNamespace string acl_error | PeerEmptyNamespaces string

fun validate_stores :: "string \<Rightarrow> string list \<Rightarrow> peer_error + unit" where
  "validate_stores url [] = Inr ()"
| "validate_stores url (prefix # prefixes) =
     (case validate_namespace prefix of
        Inl e \<Rightarrow> Inl (PeerNamespace url e)
      | Inr _ \<Rightarrow> validate_stores url prefixes)"

definition validated_peer :: "string \<Rightarrow> string \<Rightarrow> string list option \<Rightarrow> bool \<Rightarrow> peer_error + peer" where
  "validated_peer given_url given_key namespaces enabled =
     (let url = clean_url given_url; key = trim given_key
      in if url = [] then Inl PeerNoUrl
         else if \<not> starts_with url ''http://'' \<and> \<not> starts_with url ''https://'' then Inl (PeerUrlScheme url)
         else if key = [] then Inl (PeerNoKey url)
         else let stores = (case namespaces of Some list \<Rightarrow> StoragePolicy_from_prefixes list | None \<Rightarrow> StoragePolicy_everything)
              in case validate_stores url (sp_prefixes stores) of
                   Inl e \<Rightarrow> Inl e
                 | Inr _ \<Rightarrow>
                     if StoragePolicy_is_router stores then Inl (PeerEmptyNamespaces url)
                     else Inr \<lparr>p_url = url, p_key = key, p_stores = stores, p_enabled = enabled\<rparr>)"

record raw_peer =
  fp_url :: string
  fp_key :: string
  fp_namespaces :: "string list option"
  fp_enabled :: "bool option"

definition raw_validated :: "raw_peer \<Rightarrow> peer_error + peer" where
  "raw_validated raw = validated_peer (fp_url raw) (fp_key raw) (fp_namespaces raw) (unwrap_or (fp_enabled raw) True)"

definition PeersFile_header :: string where
  "PeersFile_header =
     ''# Written by the SightingDB management interface. Comments added'' @ nl @
     ''# here are replaced the next time a peer is saved.'' @ nl @
     ''#'' @ nl @
     ''# Peers listed in [galaxy] peers in the main configuration are not'' @ nl @
     ''# here and are not editable from the interface.'' @ nl @ nl"

definition peer_toml :: "peer \<Rightarrow> string" where
  "peer_toml p =
     ''[[peers]]'' @ nl @ ''url = '' @ dquote @ p_url p @ dquote @ nl @ ''key = '' @ dquote @ p_key p @ dquote @ nl @
     (if StoragePolicy_stores_everything (p_stores p) then []
      else ''namespaces = ['' @ join '', '' (map (\<lambda>prefix. dquote @ prefix @ dquote) (sp_prefixes (p_stores p))) @ '']'' @ nl) @
     (if p_enabled p then [] else ''enabled = false'' @ nl) @ nl"

definition PeersFile_to_toml :: "peer list \<Rightarrow> string" where
  "PeersFile_to_toml peers = PeersFile_header @ concat (map peer_toml peers)"

text \<open>What the file holds: \<open>None\<close> when it is not there or cannot be read, which the code treats alike.\<close>

definition load_file_peers :: "(string \<Rightarrow> string + raw_peer list) \<Rightarrow> string option \<Rightarrow> peer list" where
  "load_file_peers toml_in held =
     (case held of
        None \<Rightarrow> []
      | Some body \<Rightarrow>
          (case toml_in body of
             Inl _ \<Rightarrow> []
           | Inr entries \<Rightarrow> List.map_filter (\<lambda>raw. case raw_validated raw of Inr p \<Rightarrow> Some p | Inl _ \<Rightarrow> None) entries))"

record raw_galaxy =
  rg_peers :: "raw_peer list"
  rg_peers_file :: "string option"
  rg_max_hops :: u8
  rg_health_interval :: u64
  rg_sync_interval :: u64
  rg_reconcile_interval :: u64
  rg_gossip_interval :: u64
  rg_acl_authority :: bool
  rg_acl_replaceable :: bool
  rg_verify_tls :: bool

record galaxy_config = galaxy_settings +
  gc_peers_file :: "string option"
  gc_health_interval :: u64
  gc_sync_interval :: u64
  gc_reconcile_interval :: u64
  gc_gossip_interval :: u64
  gc_acl_replaceable :: bool

datatype galaxy_error = BadPeerEntry peer_error | PeerTwice string | NoHops | AuthorityAndReplaceable | NoHealthInterval

fun fixed_peers :: "raw_peer list \<Rightarrow> peer list \<Rightarrow> galaxy_error + peer list" where
  "fixed_peers [] peers = Inr peers"
| "fixed_peers (raw # raws) peers =
     (case raw_validated raw of
        Inl e \<Rightarrow> Inl (BadPeerEntry e)
      | Inr p \<Rightarrow>
          if list_ex (\<lambda>known. p_url known = p_url p) peers then Inl (PeerTwice (p_url p))
          else fixed_peers raws (peers @ [p]))"

fun add_file_peers :: "peer list \<Rightarrow> peer list \<Rightarrow> peer list" where
  "add_file_peers [] peers = peers"
| "add_file_peers (p # ps) peers =
     (if list_ex (\<lambda>known. p_url known = p_url p) peers then add_file_peers ps peers else add_file_peers ps (peers @ [p]))"

text \<open>\<open>resolved\<close> is the path of the peers file taken relative to the configuration file, and \<open>held\<close> what it holds.\<close>

definition RawGalaxy_into_settings ::
  "(string \<Rightarrow> string + raw_peer list) \<Rightarrow> string option \<Rightarrow> string option \<Rightarrow> raw_galaxy \<Rightarrow> galaxy_error + galaxy_config" where
  "RawGalaxy_into_settings toml_in resolved held raw =
     (case fixed_peers (rg_peers raw) [] of
        Inl e \<Rightarrow> Inl e
      | Inr peers \<Rightarrow>
          let fixed = map p_url peers;
              peers = add_file_peers (load_file_peers toml_in held) peers
          in if rg_max_hops raw = 0 then Inl NoHops
             else if rg_acl_authority raw \<and> rg_acl_replaceable raw then Inl AuthorityAndReplaceable
             else if rg_health_interval raw = 0 then Inl NoHealthInterval
             else Inr \<lparr>gs_peers = peers, gs_fixed = fixed, gs_max_hops = rg_max_hops raw, gs_acl_authority = rg_acl_authority raw,
                        gs_verify_tls = rg_verify_tls raw, gc_peers_file = resolved, gc_health_interval = rg_health_interval raw,
                        gc_sync_interval = rg_sync_interval raw, gc_reconcile_interval = rg_reconcile_interval raw,
                        gc_gossip_interval = rg_gossip_interval raw, gc_acl_replaceable = rg_acl_replaceable raw\<rparr>)"

section \<open>A peer that was checked stays as it is\<close>

lemma has_whitespace_append: "has_whitespace t \<Longrightarrow> has_whitespace (u @ t)"
  by (induction u) auto

lemma no_whitespace_trim:
  assumes "\<not> has_whitespace s"
  shows "trim s = s"
proof (rule trim_fixed)
  show "ws_len s = 0" using assms by (cases s) auto
  show "ws_len_rev (rev s) = 0"
  proof (rule ccontr)
    assume "ws_len_rev (rev s) \<noteq> 0"
    then consider c r where "rev s = c # r" "is_ws1 c" | c b r where "rev s = c # b # r" "is_ws2 b c" "\<not> is_ws1 c"
      | c b a r where "rev s = c # b # a # r" "is_ws3 a b c" "\<not> is_ws1 c" "\<not> is_ws2 b c"
      by (cases "rev s" rule: ws_len_rev.cases) (auto split: if_splits)
    then obtain u t where "s = u @ t" "has_whitespace t"
    proof cases
      case (1 c r)
      then have "s = rev r @ [c]" by (metis rev.simps(2) rev_rev_ident)
      then show thesis using that 1 by auto
    next
      case (2 c b r)
      then have "s = rev r @ [b, c]" by (metis append.assoc append_Cons append_Nil rev.simps(2) rev_rev_ident)
      moreover have "has_whitespace [b, c]" using 2 by auto
      ultimately show thesis using that by blast
    next
      case (3 c b a r)
      then have "s = rev r @ [a, b, c]" by (metis append.assoc append_Cons append_Nil rev.simps(2) rev_rev_ident)
      moreover have "has_whitespace [a, b, c]" using 3 by auto
      ultimately show thesis using that by blast
    qed
    then show False using assms has_whitespace_append by blast
  qed
qed

lemma trim_matches_idem: "trim_matches c (trim_matches c s) = trim_matches c s"
proof -
  let ?d = "dropWhile (\<lambda>x. x = c)"
  have d: "?d (?d t) = ?d t" for t by (induction t) auto
  have e: "?d (rev (?d (rev t))) = rev (?d (rev t))" if "?d t = t" for t
  proof (cases "rev (?d (rev t))")
    case (Cons x xs)
    have "rev t = takeWhile (\<lambda>x. x = c) (rev t) @ ?d (rev t)" by simp
    then have "t = rev (?d (rev t)) @ rev (takeWhile (\<lambda>x. x = c) (rev t))" by (metis rev_append rev_rev_ident)
    then have "t = x # xs @ rev (takeWhile (\<lambda>x. x = c) (rev t))" unfolding Cons by simp
    then have "hd t = x" "t \<noteq> []" by (metis list.sel(1), blast)
    then have "x \<noteq> c" using hd_dropWhile [of "\<lambda>x. x = c" t] that by simp
    then show ?thesis using Cons by simp
  next
    case Nil
    then show ?thesis by (simp only: dropWhile.simps)
  qed
  show ?thesis unfolding trim_matches_def using e [OF d, of s] d by simp
qed

definition settled_prefix :: "string \<Rightarrow> bool" where
  "settled_prefix p \<longleftrightarrow> p \<noteq> [] \<and> trim_matches CHR ''/'' (trim p) = p"

lemma from_prefixes_settled:
  "\<forall>p \<in> set ps. settled_prefix p \<Longrightarrow> distinct (held @ ps) \<Longrightarrow>
   from_prefixes_loop held ps = \<lparr>sp_prefixes = held @ ps, sp_everything = False\<rparr>"
  by (induction ps arbitrary: held) (auto simp: settled_prefix_def Let_def)

lemma from_prefixes_gives:
  assumes "distinct held"
  shows "from_prefixes_loop held ps = StoragePolicy_everything \<or>
    (\<exists>qs. from_prefixes_loop held ps = \<lparr>sp_prefixes = held @ qs, sp_everything = False\<rparr> \<and> distinct (held @ qs) \<and>
      (\<forall>q \<in> set qs. q \<noteq> [] \<and> trim_matches CHR ''/'' q = q))"
  using assms
proof (induction ps arbitrary: held)
  case (Cons p ps)
  let ?q = "trim_matches CHR ''/'' (trim p)"
  show ?case
  proof (cases "?q = [] \<or> ?q \<in> set held")
    case True
    then show ?thesis using Cons by (auto simp: Let_def)
  next
    case False
    then have d: "distinct (held @ [?q])" using Cons.prems by simp
    have "(\<exists>qs. from_prefixes_loop (held @ [?q]) ps = \<lparr>sp_prefixes = held @ qs, sp_everything = False\<rparr> \<and> distinct (held @ qs) \<and>
        (\<forall>q \<in> set qs. q \<noteq> [] \<and> trim_matches CHR ''/'' q = q))"
      if ne: "from_prefixes_loop (held @ [?q]) ps \<noteq> StoragePolicy_everything"
    proof -
      obtain qs where qs: "from_prefixes_loop (held @ [?q]) ps = \<lparr>sp_prefixes = (held @ [?q]) @ qs, sp_everything = False\<rparr>"
          "distinct ((held @ [?q]) @ qs)" "\<forall>q \<in> set qs. q \<noteq> [] \<and> trim_matches CHR ''/'' q = q"
        using Cons.IH [OF d] ne by blast
      show ?thesis by (rule exI [of _ "?q # qs"]) (use qs False trim_matches_idem in auto)
    qed
    then show ?thesis using False by (auto simp: Let_def)
  qed
qed simp

lemma validate_stores_iff: "validate_stores url ps = Inr () \<longleftrightarrow> (\<forall>p \<in> set ps. validate_namespace p = Inr ())"
  by (induction ps) (auto split: sum.splits)

text \<open>Cleaning an address twice is cleaning it once, unless it ends in a slash after a blank.\<close>

definition settled_url :: "string \<Rightarrow> bool" where
  "settled_url url \<longleftrightarrow> clean_url url = url"

text \<open>A peer as \<open>validated_peer\<close> makes them, with an address that stays put.\<close>

definition peer_ok :: "peer \<Rightarrow> bool" where
  "peer_ok p \<longleftrightarrow> settled_url (p_url p) \<and>
     validated_peer (p_url p) (p_key p) (if sp_everything (p_stores p) then None else Some (sp_prefixes (p_stores p))) (p_enabled p) = Inr p"

lemma validated_peer_ok:
  assumes v: "validated_peer url key namespaces enabled = Inr p" and s: "settled_url (clean_url url)"
  shows "peer_ok p" "p_url p = clean_url url" "p_enabled p = enabled"
proof -
  define st where "st = (case namespaces of Some list \<Rightarrow> StoragePolicy_from_prefixes list | None \<Rightarrow> StoragePolicy_everything)"
  have p: "p = \<lparr>p_url = clean_url url, p_key = trim key, p_stores = st, p_enabled = enabled\<rparr>"
    and c: "clean_url url \<noteq> []" "starts_with (clean_url url) ''http://'' \<or> starts_with (clean_url url) ''https://''" "trim key \<noteq> []"
      "validate_stores (clean_url url) (sp_prefixes st) = Inr ()" "\<not> StoragePolicy_is_router st"
    using v by (auto simp: validated_peer_def st_def Let_def split: if_splits sum.splits)
  then show "p_url p = clean_url url" "p_enabled p = enabled" by simp_all
  have shape: "st = StoragePolicy_everything \<or> (\<exists>qs. st = \<lparr>sp_prefixes = qs, sp_everything = False\<rparr> \<and> distinct qs \<and>
      (\<forall>q \<in> set qs. q \<noteq> [] \<and> trim_matches CHR ''/'' q = q))"
  proof (cases namespaces)
    case (Some l)
    then show ?thesis using from_prefixes_gives [of "[]" l] by (simp add: st_def StoragePolicy_from_prefixes_def)
  qed (simp add: st_def)
  have again: "(case (if sp_everything st then None else Some (sp_prefixes st)) of
      Some list \<Rightarrow> StoragePolicy_from_prefixes list | None \<Rightarrow> StoragePolicy_everything) = st"
  proof (cases "sp_everything st")
    case True
    then have "st = StoragePolicy_everything" using shape by auto
    then show ?thesis by (simp add: StoragePolicy_everything_def)
  next
    case False
    then obtain qs where qs: "st = \<lparr>sp_prefixes = qs, sp_everything = False\<rparr>" "distinct qs" "\<forall>q \<in> set qs. q \<noteq> [] \<and> trim_matches CHR ''/'' q = q"
      using shape by (auto simp: StoragePolicy_everything_def)
    have "settled_prefix q" if "q \<in> set qs" for q
    proof -
      have "validate_namespace q = Inr ()" using c(4) that qs(1) by (simp add: validate_stores_iff)
      then have "\<not> has_whitespace q" by (auto simp: validate_namespace_def split: if_splits)
      then show ?thesis using qs(3) that by (simp add: settled_prefix_def no_whitespace_trim)
    qed
    then show ?thesis using from_prefixes_settled [of qs "[]"] qs by (simp add: StoragePolicy_from_prefixes_def)
  qed
  show "peer_ok p"
    unfolding peer_ok_def p peer.select_convs validated_peer_def again Let_def using s c by (simp add: settled_url_def)
qed

section \<open>Reading the file back\<close>

text \<open>A peer as its entry in the file says it.\<close>

definition raw_of :: "peer \<Rightarrow> raw_peer" where
  "raw_of p = \<lparr>fp_url = p_url p, fp_key = p_key p,
     fp_namespaces = (if sp_everything (p_stores p) then None else Some (sp_prefixes (p_stores p))),
     fp_enabled = (if p_enabled p then None else Some False)\<rparr>"

lemma raw_of_ok: "peer_ok p \<Longrightarrow> raw_validated (raw_of p) = Inr p"
  by (cases "p_enabled p") (simp_all add: raw_validated_def raw_of_def peer_ok_def unwrap_or_def)

lemma load_back:
  assumes "\<forall>p \<in> set peers. peer_ok p" "toml_in (PeersFile_to_toml peers) = Inr (map raw_of peers)"
  shows "load_file_peers toml_in (Some (PeersFile_to_toml peers)) = peers"
proof -
  have "List.map_filter (\<lambda>raw. case raw_validated raw of Inr p \<Rightarrow> Some p | Inl _ \<Rightarrow> None) (map raw_of peers) = peers"
    using assms(1) by (induction peers) (simp_all add: List.map_filter_simps raw_of_ok)
  then show ?thesis using assms(2) by (simp add: load_file_peers_def)
qed

lemma add_file_peers_gives:
  "\<exists>E. add_file_peers ps peers = peers @ E \<and> set E \<subseteq> set ps \<and> (distinct (map p_url peers) \<longrightarrow> distinct (map p_url (peers @ E)))"
proof (induction ps arbitrary: peers)
  case (Cons p ps)
  show ?case
  proof (cases "list_ex (\<lambda>known. p_url known = p_url p) peers")
    case True
    then show ?thesis using Cons.IH [of peers] by auto
  next
    case False
    then have new: "p_url p \<notin> p_url ` set peers" by (auto simp: list_ex_iff)
    obtain E where E: "add_file_peers ps (peers @ [p]) = (peers @ [p]) @ E" "set E \<subseteq> set ps"
        "distinct (map p_url (peers @ [p])) \<longrightarrow> distinct (map p_url ((peers @ [p]) @ E))" using Cons.IH by blast
    show ?thesis by (rule exI [of _ "p # E"]) (use False E new in auto)
  qed
qed simp

lemma add_file_peers_new:
  "distinct (map p_url (peers @ ps)) \<Longrightarrow> add_file_peers ps peers = peers @ ps"
proof (induction ps arbitrary: peers)
  case (Cons p ps)
  have "p_url p \<notin> p_url ` set peers" using Cons.prems by simp
  then have "\<not> list_ex (\<lambda>known. p_url known = p_url p) peers" unfolding list_ex_iff by (metis (mono_tags, lifting) image_eqI)
  then show ?case using Cons by simp
qed simp

lemma fixed_peers_gives:
  assumes "fixed_peers raws peers = Inr F" "distinct (map p_url peers)" "\<forall>raw \<in> set raws. settled_url (clean_url (fp_url raw))"
    "\<forall>p \<in> set peers. peer_ok p"
  shows "distinct (map p_url F) \<and> (\<forall>p \<in> set F. peer_ok p)"
  using assms
proof (induction raws arbitrary: peers)
  case (Cons raw raws)
  obtain p where p: "raw_validated raw = Inr p" "\<not> list_ex (\<lambda>known. p_url known = p_url p) peers" "fixed_peers raws (peers @ [p]) = Inr F"
    using Cons.prems(1) by (auto split: sum.splits if_splits)
  have "peer_ok p" using validated_peer_ok(1) p(1) Cons.prems(3) by (simp add: raw_validated_def)
  moreover have "distinct (map p_url (peers @ [p]))" using Cons.prems(2) p(2) by (auto simp: list_ex_iff)
  ultimately show ?case using Cons.IH [OF p(3)] Cons.prems by simp
qed simp

lemma loaded_ok:
  assumes "\<And>body raws. held = Some body \<Longrightarrow> toml_in body = Inr raws \<Longrightarrow> \<forall>raw \<in> set raws. settled_url (clean_url (fp_url raw))"
    and "p \<in> set (load_file_peers toml_in held)"
  shows "peer_ok p"
proof -
  obtain body where b: "held = Some body" using assms(2) by (cases held) (auto simp: load_file_peers_def)
  obtain raws where r: "toml_in body = Inr raws" using assms(2) b by (cases "toml_in body") (auto simp: load_file_peers_def)
  obtain raw where w: "raw \<in> set raws" "raw_validated raw = Inr p"
    using assms(2) b r by (auto simp: load_file_peers_def List.map_filter_def split: sum.splits)
  then show ?thesis using assms(1) [OF b r] validated_peer_ok(1) [of "fp_url raw"] by (simp add: raw_validated_def)
qed

end
