(* ===== verification/Admin.thy ===== *)
theory Admin
  imports Handlers Peers_File
begin

text \<open>
  The management interface, \<^verbatim>\<open>src/src/admin/mod.rs\<close>: what its parts share. Who may use it (\<open>require_admin\<close> and the
  rules beside it), what it answers, and how a settings file is replaced. A settings file is a text under a path;
  whether the operating system creates directories, writes and renames is the parameter \<open>file_io\<close>, with the
  message of a failure. A reply is a status and a body, one constructor for each struct that is serialised.
\<close>

section \<open>Settings files\<close>

type_synonym texts = "(string, string) fmap"

record file_io =
  io_create_dir :: "string \<Rightarrow> string option"
  io_write :: "string \<Rightarrow> string option"
  io_rename :: "string \<Rightarrow> string option"

text \<open>\<open>Path::file_name\<close> and \<open>Path::with_extension\<close>: the extension is what follows the last dot, unless that is the first character.\<close>

definition file_name_of :: "string \<Rightarrow> string" where
  "file_name_of path = rev (takeWhile (\<lambda>c. c \<noteq> CHR ''/'') (rev path))"

definition set_extension :: "string \<Rightarrow> string \<Rightarrow> string" where
  "set_extension path ext =
     (let name = file_name_of path; dir = take (length path - length name) path
      in if name = [] \<or> name = ''..'' then path
         else dir @ (case rsplit_once CHR ''.'' name of
                       Some (stem, _) \<Rightarrow> if stem = [] then name else stem
                     | None \<Rightarrow> name) @ ''.'' @ ext)"

text \<open>The directory, a temporary file, and a rename over the old one. The argument of \<open>io_create_dir\<close> is the file whose directory is meant.\<close>

definition replace_file :: "file_io \<Rightarrow> texts \<Rightarrow> string \<Rightarrow> string \<Rightarrow> texts \<times> string option" where
  "replace_file io files path body =
     (case io_create_dir io path of
        Some e \<Rightarrow> (files, Some e)
      | None \<Rightarrow>
          let temp = set_extension path ''tmp''
          in case io_write io temp of
               Some e \<Rightarrow> (files, Some e)
             | None \<Rightarrow>
                 let files = fmupd temp body files
                 in case io_rename io path of
                      Some e \<Rightarrow> (files, Some e)
                    | None \<Rightarrow> (fmupd path body (fmdrop temp files), None))"

text \<open>\<open>TierPolicy::save\<close> of \<^verbatim>\<open>src/src/tier.rs\<close> takes the same steps, with its own words for the one that failed.\<close>

definition parent_dir :: "string \<Rightarrow> string" where
  "parent_dir path =
     (let dir = take (length path - length (file_name_of path)) path; cut = trim_end_matches CHR ''/'' dir
      in if dir \<noteq> [] \<and> cut = [] then ''/'' else cut)"

definition replace_file_saying :: "file_io \<Rightarrow> texts \<Rightarrow> string \<Rightarrow> string \<Rightarrow> texts \<times> string option" where
  "replace_file_saying io files path body =
     (let temp = set_extension path ''tmp''
      in case io_create_dir io path of
           Some e \<Rightarrow> (files, Some (''creating '' @ parent_dir path))
         | None \<Rightarrow>
             (case io_write io temp of
                Some e \<Rightarrow> (files, Some (''writing '' @ temp))
              | None \<Rightarrow>
                  let files = fmupd temp body files
                  in case io_rename io path of
                       Some e \<Rightarrow> (files, Some (''renaming '' @ temp @ '' to '' @ path))
                     | None \<Rightarrow> (fmupd path body (fmdrop temp files), None)))"

text \<open>What the settings that are kept in a file rely on: a write that succeeds is there, and one that fails leaves the file as it was.\<close>

locale settings_file =
  fixes put :: "texts \<Rightarrow> string \<Rightarrow> string \<Rightarrow> texts \<times> string option"
  assumes put_done: "put files path body = (files', None) \<Longrightarrow> fmlookup files' path = Some body"
    and put_failed: "put files path body = (files', Some e) \<Longrightarrow> path \<noteq> set_extension path ''tmp'' \<Longrightarrow> fmlookup files' path = fmlookup files path"
    and put_apart: "put files path body = (files', r) \<Longrightarrow> p \<noteq> path \<Longrightarrow> p \<noteq> set_extension path ''tmp'' \<Longrightarrow> fmlookup files' p = fmlookup files p"
begin

lemma file_result:
  assumes "put files path body = (files', r)" "path \<noteq> set_extension path ''tmp''"
  shows "fmlookup files' path = (if r = None then Some body else fmlookup files path)"
  using assms put_done put_failed by (cases r) auto

text \<open>Settings that are adopted when the write succeeded, and only then, stay in step with their file.\<close>

lemma in_step:
  assumes "put files path (shown new) = (files', r)" "path \<noteq> set_extension path ''tmp''" "fmlookup files path = Some (shown old)"
  shows "fmlookup files' path = Some (shown (if r = None then new else old))"
  using file_result [OF assms(1,2)] assms(3) by simp

lemma two_files:
  assumes "put files path body = (files', r)" "put files' path' body' = (files'', r')" "path \<noteq> path'" "path \<noteq> set_extension path' ''tmp''"
  shows "fmlookup files'' path = fmlookup files' path"
  using put_apart [OF assms(2)] assms(3,4) by simp

end

interpretation whole: settings_file "replace_file io"
  by unfold_locales (auto simp: replace_file_def Let_def split: option.splits)

interpretation saying: settings_file "replace_file_saying io"
  by unfold_locales (auto simp: replace_file_saying_def Let_def split: option.splits)

section \<open>Replies\<close>

record key_entry =
  ke_key :: string
  ke_admin :: bool
  ke_read :: "string list"
  ke_write :: "string list"

record drift_row =
  dr_url :: string
  dr_readable :: bool
  dr_error :: "string option"
  dr_revoked_but_present :: "string list"
  dr_only_on_peer :: "string list"
  dr_missing :: "string list"
  dr_agrees :: bool

record rejection_page =
  rp_rejections :: "rejection list"
  rp_total :: nat
  rp_capacity :: nat

record value_counted =
  vn_value :: string
  vn_count :: u64
  vn_new :: bool

record write_report =
  wp_namespace :: string
  wp_written :: nat
  wp_counts :: "value_counted list"
  wp_errors :: "(string \<times> string) list"

record mirror_outcome =
  mo_url :: string
  mo_ok :: bool
  mo_error :: "string option"

record tag_row =
  tr_name :: string
  tr_colour :: string
  tr_description :: string
  tr_family :: bool
  tr_used :: "u64 option"
  tr_defined :: bool
  tr_variants :: "nat option"

record tags_view =
  tv_tags :: "tag_row list"
  tv_unknown_colour :: string
  tv_editable :: bool
  tv_counted_namespaces :: nat
  tv_total_namespaces :: nat
  tv_scope :: "string option"

record peer_row =
  pw_url :: string
  pw_namespaces :: "string list option"
  pw_fixed :: bool
  pw_enabled :: bool
  pw_health :: peer_health

record peers_view =
  pv_peers :: "peer_row list"
  pv_editable :: bool
  pv_note :: "string option"

record tier_set =
  ts_shard :: string
  ts_tier :: string
  ts_warm_idle :: u64
  ts_own_tier :: bool
  ts_own_warm_idle :: bool
  ts_effect :: string

datatype tier_change_error = TierUnknown tier_error | WarmIdleNegative | WarmIdleText string | WarmIdleShape json

datatype admin_body =
    Message string
  | BadPeer peer_error
  | BadTierChange tier_change_error
  | BadAcl acl_error
  | BadTag tag_error
  | Passed string
  | KeySaved key_entry
  | Keys "key_entry list"
  | KeysHeld nat "string list"
  | KeyDrift "drift_row list"
  | NamespacePage "namespace_entry page"
  | TreePage "tree_entry page"
  | ValuePage "attribute_view page"
  | OneValue attribute_view
  | TaggedAcross attribute_view "mirror_outcome list"
  | Sightings string u64 sightings
  | Rejected rejection_page
  | Activities report
  | Created string
  | Written write_report
  | Tags tags_view
  | Peers peers_view
  | TierSet tier_set

record reply =
  re_status :: nat
  re_body :: admin_body

definition say :: "nat \<Rightarrow> string \<Rightarrow> reply" where
  "say status message = \<lparr>re_status = status, re_body = Message message\<rparr>"

definition ok :: "admin_body \<Rightarrow> reply" where
  "ok b = \<lparr>re_status = 200, re_body = b\<rparr>"

section \<open>Who may\<close>

definition presented_key :: "http_in \<Rightarrow> string \<Rightarrow> reply + string" where
  "presented_key req missing =
     (case header_of (hr_headers req) ''Authorization'' of
        None \<Rightarrow> Inl (say 401 missing)
      | Some header \<Rightarrow>
          (case header_text header of
             None \<Rightarrow> Inl (say 400 ''Authorization header is not valid UTF-8.'')
           | Some key \<Rightarrow> Inr key))"

definition require_admin :: "shared_state \<Rightarrow> http_in \<Rightarrow> reply + string" where
  "require_admin sh req =
     (case presented_key req ''An admin API key is required.'' of
        Inl r \<Rightarrow> Inl r
      | Inr key \<Rightarrow> if Acl_is_admin (sh_acl sh) key then Inr key else Inl (say 403 ''That key is not an admin key.''))"

definition require_vocabulary_reader :: "shared_state \<Rightarrow> http_in \<Rightarrow> reply + string" where
  "require_vocabulary_reader sh req =
     (case presented_key req ''An API key is required.'' of
        Inl r \<Rightarrow> Inl r
      | Inr key \<Rightarrow>
          if Acl_is_admin (sh_acl sh) key \<or> Acl_can_read (sh_acl sh) key ''/'' then Inr key
          else Inl (say 403 ''Seeing how tags are shown needs an admin key, or read across all namespaces.''))"

definition require_vocabulary_editor :: "shared_state \<Rightarrow> http_in \<Rightarrow> reply + string" where
  "require_vocabulary_editor sh req =
     (case presented_key req ''An API key is required.'' of
        Inl r \<Rightarrow> Inl r
      | Inr key \<Rightarrow>
          if Acl_is_admin (sh_acl sh) key \<or> (Acl_can_read (sh_acl sh) key ''/'' \<and> Acl_can_write (sh_acl sh) key ''/'') then Inr key
          else Inl (say 403 (''Changing how tags are shown needs an admin key, or read and write '' @
                 ''across all namespaces: the vocabulary is server-wide, so a key scoped '' @ ''to one subtree would be reaching past it.'')))"

definition require_read :: "shared_state \<Rightarrow> string \<Rightarrow> string \<Rightarrow> reply + unit" where
  "require_read sh key namespace =
     (if Acl_can_read (sh_acl sh) key namespace then Inr () else Inl (say 404 ''No such namespace.''))"

definition require_write :: "shared_state \<Rightarrow> string \<Rightarrow> string \<Rightarrow> reply + unit" where
  "require_write sh key namespace =
     (if Acl_can_write (sh_acl sh) key namespace then Inr ()
      else Inl (say 403 (''That key is not permitted to write to '' @ quoted namespace @ ''.'')))"

definition clean_namespace :: "string \<Rightarrow> reply + string" where
  "clean_namespace namespace =
     (let cleaned = join ''/'' (filter (\<lambda>s. s \<noteq> []) (map trim (split_on CHR ''/'' namespace)))
      in if cleaned = [] then Inl (say 400 ''A namespace needs a name.'')
         else case validate_namespace cleaned of
                Inl e \<Rightarrow> Inl \<lparr>re_status = 400, re_body = BadAcl e\<rparr>
              | Inr _ \<Rightarrow> Inr cleaned)"

text \<open>An admin key is one with an admin grant, whether or not the sighting interface asks for keys.\<close>

definition admin_caller :: "shared_state \<Rightarrow> http_in \<Rightarrow> string \<Rightarrow> bool" where
  "admin_caller sh req key \<longleftrightarrow>
     Option.bind (header_of (hr_headers req) ''Authorization'') header_text = Some key \<and> Acl_is_admin (sh_acl sh) key"

lemma require_admin_iff: "require_admin sh req = Inr key \<longleftrightarrow> admin_caller sh req key"
  by (auto simp: require_admin_def presented_key_def admin_caller_def split: option.splits sum.splits)

lemma require_admin_status: "require_admin sh req = Inl r \<Longrightarrow> re_status r \<in> {400, 401, 403}"
  by (auto simp: require_admin_def presented_key_def say_def split: option.splits sum.splits if_splits)

lemma no_admin: "(\<And>key. \<not> admin_caller sh req key) \<Longrightarrow> \<exists>r. require_admin sh req = Inl r \<and> re_status r \<in> {400, 401, 403}"
  by (metis require_admin_iff require_admin_status sum.exhaust)

text \<open>A name that was cleaned is never internal, so no management operation reaches an internal namespace.\<close>

lemma cleaned_namespace:
  assumes "clean_namespace given = Inr namespace"
  shows "namespace \<noteq> []" "validate_namespace namespace = Inr ()" "\<not> starts_with namespace ''_''"
  using assms by (auto simp: clean_namespace_def validate_namespace_def Let_def split: if_splits sum.splits)

section \<open>A server to try things on\<close>

definition sample_admin_state :: shared_state where
  "sample_admin_state = sample_state\<lparr>sh_acl := Acl_set (sh_acl sample_state) ''root''
     [Grant_admin, \<lparr>g_prefix = ''feeds'', g_read = True, g_write = True, g_admin = False\<rparr>], sh_acl_file := Some ''keys.toml''\<rparr>"

definition sample_io :: file_io where
  "sample_io = \<lparr>io_create_dir = (\<lambda>_. None), io_write = (\<lambda>_. None), io_rename = (\<lambda>_. None)\<rparr>"

definition sample_admin_request :: http_in where
  "sample_admin_request = \<lparr>hr_headers = [(''authorization'', ''root'')], hr_path = ''/_management/api/keys'', hr_query = None\<rparr>"

lemma sample_admin_header:
  "Option.bind (header_of (hr_headers sample_admin_request) ''Authorization'') header_text = Some ''root''"
  by code_simp

lemma sample_admin:
  "Acl_is_admin (sh_acl sample_admin_state) ''root''" "admin_caller sample_admin_state sample_admin_request ''root''"
proof -
  show "Acl_is_admin (sh_acl sample_admin_state) ''root''"
    by (simp add: sample_admin_state_def Acl_is_admin_def Acl_set_def Grant_admin_def)
  then show "admin_caller sample_admin_state sample_admin_request ''root''"
    unfolding admin_caller_def by (simp add: sample_admin_header)
qed

lemma sample_admin_writes: "Acl_can_write (sh_acl sample_admin_state) ''root'' ''feeds/a''"
proof -
  have "Grant_covers \<lparr>g_prefix = ''feeds'', g_read = True, g_write = True, g_admin = False\<rparr> ''feeds/a''" by code_simp
  then show ?thesis by (simp add: sample_admin_state_def Acl_can_write_def Acl_allows_def Acl_set_def)
qed

end
