(* ===== verification/Admin_Keys.thy ===== *)
theory Admin_Keys
  imports Admin
begin

text \<open>
  Key management, the part of \<^verbatim>\<open>src/src/admin/mod.rs\<close> behind \<^verbatim>\<open>/_management/api/keys\<close>: listing, saving, revoking and
  replacing keys, telling the peers, and comparing with what the peers hold (\<open>Galaxy_peer_keys\<close> of
  \<^verbatim>\<open>src/src/galaxy.rs\<close>). A change is written to the file of keys first and takes effect only when that succeeded.
  Printing JSON is the parameter \<open>json_out\<close>.
\<close>

section \<open>Keys as the interface shows them\<close>

fun add_grant :: "grant \<Rightarrow> key_entry \<Rightarrow> key_entry" where
  "add_grant g e = (let e = (if g_admin g then e\<lparr>ke_admin := True\<rparr> else e);
       e = (if g_read g then e\<lparr>ke_read := ke_read e @ [g_prefix g]\<rparr> else e)
     in (if g_write g then e\<lparr>ke_write := ke_write e @ [g_prefix g]\<rparr> else e))"

definition KeyEntry_from_grants :: "string \<Rightarrow> grant list \<Rightarrow> key_entry" where
  "KeyEntry_from_grants key grants =
     fold add_grant grants \<lparr>ke_key = key, ke_admin = False, ke_read = [], ke_write = []\<rparr>"

definition KeyEntry_to_grants :: "key_entry \<Rightarrow> grant list" where
  "KeyEntry_to_grants e =
     map (\<lambda>p. \<lparr>g_prefix = p, g_read = True, g_write = p \<in> set (ke_write e), g_admin = False\<rparr>) (ke_read e) @
     map (\<lambda>p. \<lparr>g_prefix = p, g_read = False, g_write = True, g_admin = False\<rparr>) (filter (\<lambda>p. p \<notin> set (ke_read e)) (ke_write e)) @
     (if ke_admin e then [Grant_admin] else [])"

fun validate_prefixes :: "string list \<Rightarrow> acl_error + unit" where
  "validate_prefixes [] = Inr ()"
| "validate_prefixes (p # ps) = (case validate_namespace p of Inl e \<Rightarrow> Inl e | Inr _ \<Rightarrow> validate_prefixes ps)"

definition KeyEntry_validate :: "key_entry \<Rightarrow> admin_body + unit" where
  "KeyEntry_validate e =
     (case validate_key (ke_key e) of
        Inl err \<Rightarrow> Inl (BadAcl err)
      | Inr _ \<Rightarrow>
          (case validate_prefixes (ke_read e @ ke_write e) of
             Inl err \<Rightarrow> Inl (BadAcl err)
           | Inr _ \<Rightarrow>
               if \<not> ke_admin e \<and> ke_read e = [] \<and> ke_write e = [] then Inl (Message ''a key with no grants at all cannot do anything'')
               else Inr ()))"

section \<open>Changing the keys\<close>

definition acl_file :: "shared_state \<Rightarrow> reply + string" where
  "acl_file sh =
     (case sh_acl_file sh of
        Some path \<Rightarrow> Inr path
      | None \<Rightarrow> Inl (say 409 (''No acl_file is configured, so keys cannot be edited here. Set acl_file in '' @ ''[daemon] and restart.'')))"

definition save_acl :: "file_io \<Rightarrow> texts \<Rightarrow> shared_state \<Rightarrow> acl \<Rightarrow> texts \<times> shared_state \<times> reply option" where
  "save_acl io files sh acl =
     (case acl_file sh of
        Inl r \<Rightarrow> (files, sh, Some r)
      | Inr path \<Rightarrow>
          (case replace_file io files path (Acl_to_toml acl) of
             (files, Some e) \<Rightarrow> (files, sh, Some (say 500 (''Could not write the ACL file: '' @ e)))
           | (files, None) \<Rightarrow> (files, sh\<lparr>sh_acl := acl\<rparr>, None)))"

definition key_json :: "key_entry \<Rightarrow> json" where
  "key_json e = JObj [(''key'', JStr (ke_key e)), (''admin'', JBool (ke_admin e)),
     (''read'', JArr (map JStr (ke_read e))), (''write'', JArr (map JStr (ke_write e)))]"

definition gossip_key :: "(json \<Rightarrow> string) \<Rightarrow> 'w network \<Rightarrow> 'w \<Rightarrow> shared_state \<Rightarrow> http_in \<Rightarrow> key_entry \<Rightarrow> 'w" where
  "gossip_key json_out net w sh req e =
     (case sh_galaxy sh of
        None \<Rightarrow> w
      | Some g \<Rightarrow>
          (case hops_left (hr_headers req) (g_max_hops g) of
             None \<Rightarrow> w
           | Some hops \<Rightarrow> fst (Galaxy_push_key json_out net g w (key_json e) hops)))"

definition list_keys :: "shared_state \<Rightarrow> http_in \<Rightarrow> reply" where
  "list_keys sh req =
     (case require_admin sh req of
        Inl r \<Rightarrow> r
      | Inr _ \<Rightarrow> ok (Keys (map (\<lambda>(key, grants). KeyEntry_from_grants key grants) (Acl_entries (sh_acl sh)))))"

definition save_key ::
  "(json \<Rightarrow> string) \<Rightarrow> file_io \<Rightarrow> 'w network \<Rightarrow> 'w \<Rightarrow> texts \<Rightarrow> shared_state \<Rightarrow> http_in \<Rightarrow> key_entry \<Rightarrow> 'w \<times> texts \<times> shared_state \<times> reply" where
  "save_key json_out io net w files sh req e =
     (case require_admin sh req of
        Inl r \<Rightarrow> (w, files, sh, r)
      | Inr caller \<Rightarrow>
          (case KeyEntry_validate e of
             Inl b \<Rightarrow> (w, files, sh, \<lparr>re_status = 400, re_body = b\<rparr>)
           | Inr _ \<Rightarrow>
               let was_admin = Acl_is_admin (sh_acl sh) (ke_key e);
                   acl = Acl_set (sh_acl sh) (ke_key e) (KeyEntry_to_grants e)
               in if was_admin \<and> \<not> ke_admin e \<and> Acl_admin_count acl = 0
                  then (w, files, sh, say 409 ''That would leave no admin key. Grant admin to another key first.'')
                  else case save_acl io files sh acl of
                         (files, sh, Some r) \<Rightarrow> (w, files, sh, r)
                       | (files, sh, None) \<Rightarrow>
                           let sh = note_unrevoked sh (ke_key e)
                           in (gossip_key json_out net w sh req e, files, sh, ok (KeySaved e))))"

definition delete_key ::
  "file_io \<Rightarrow> 'w network \<Rightarrow> int \<Rightarrow> 'w \<Rightarrow> texts \<Rightarrow> shared_state \<Rightarrow> http_in \<Rightarrow> string \<Rightarrow> 'w \<times> texts \<times> shared_state \<times> reply" where
  "delete_key io net now w files sh req key =
     (case require_admin sh req of
        Inl r \<Rightarrow> (w, files, sh, r)
      | Inr caller \<Rightarrow>
          if \<not> Acl_contains (sh_acl sh) key then (w, files, sh, say 404 ''No such key.'')
          else let acl = fst (Acl_remove (sh_acl sh) key)
               in if Acl_admin_count acl = 0
                  then (w, files, sh, say 409 ''That would revoke the last admin key. Grant admin to another key first.'')
                  else case save_acl io files sh acl of
                         (files, sh, Some r) \<Rightarrow> (w, files, sh, r)
                       | (files, sh, None) \<Rightarrow>
                           let sh = note_revoked now sh key;
                               w = (case sh_galaxy sh of
                                      None \<Rightarrow> w
                                    | Some g \<Rightarrow>
                                        (case hops_left (hr_headers req) (g_max_hops g) of
                                           None \<Rightarrow> w
                                         | Some hops \<Rightarrow> fst (Galaxy_push_key_removal net g w key hops)))
                           in (w, files, sh, say 200 ''ok''))"

fun validate_entries :: "key_entry list \<Rightarrow> admin_body + unit" where
  "validate_entries [] = Inr ()"
| "validate_entries (e # es) = (case KeyEntry_validate e of Inl b \<Rightarrow> Inl b | Inr _ \<Rightarrow> validate_entries es)"

definition replace_keys ::
  "file_io \<Rightarrow> int \<Rightarrow> texts \<Rightarrow> shared_state \<Rightarrow> http_in \<Rightarrow> key_entry list \<Rightarrow> texts \<times> shared_state \<times> reply" where
  "replace_keys io now files sh req wanted =
     (case require_admin sh req of
        Inl r \<Rightarrow> (files, sh, r)
      | Inr caller \<Rightarrow>
          if \<not> sh_acl_replaceable sh
          then (files, sh, say 403 (''This server does not let another replace its keys. Set '' @ ''acl_replaceable in [galaxy] if it should.''))
          else case validate_entries wanted of
                 Inl b \<Rightarrow> (files, sh, \<lparr>re_status = 400, re_body = b\<rparr>)
               | Inr _ \<Rightarrow>
                   let acl = fold (\<lambda>e acl. Acl_set acl (ke_key e) (KeyEntry_to_grants e)) wanted Acl_new
                   in if Acl_admin_count acl = 0
                      then (files, sh, say 409 ''That set has no admin key, and would lock everyone out of this interface.'')
                      else if \<not> Acl_contains acl caller
                      then (files, sh, say 409 (''That set does not include the key making this request, which would '' @
                              ''lock the caller out of the server it is replacing.''))
                      else let going = filter (\<lambda>key. \<not> Acl_contains acl key) (map fst (Acl_entries (sh_acl sh)))
                           in case save_acl io files sh acl of
                                (files, sh, Some r) \<Rightarrow> (files, sh, r)
                              | (files, sh, None) \<Rightarrow>
                                  let sh = fold (\<lambda>key sh. note_revoked now sh key) going sh;
                                      sh = fold (\<lambda>e sh. note_unrevoked sh (ke_key e)) wanted sh
                                  in (files, sh, ok (KeysHeld (length wanted) going)))"

section \<open>Where the peers disagree\<close>

record peer_keys =
  pk_url :: string
  pk_keys :: "string list"
  pk_readable :: bool
  pk_error :: "string option"

definition keys_in :: "json \<Rightarrow> string list" where
  "keys_in j = (case j of
      JArr items \<Rightarrow> List.map_filter (\<lambda>k. case json_get k ''key'' of Some (JStr s) \<Rightarrow> Some s | _ \<Rightarrow> None) items
    | _ \<Rightarrow> [])"

fun peer_keys_loop ::
  "(string \<Rightarrow> string + json) \<Rightarrow> 'w network \<Rightarrow> galaxy \<Rightarrow> 'w \<Rightarrow> peer list \<Rightarrow> 'w \<times> peer_keys list" where
  "peer_keys_loop json_in net g w [] = (w, [])"
| "peer_keys_loop json_in net g w (p # peers) =
     (let (w, answer) = Galaxy_send net g w p GET ''/_management/api/keys'' None 1 [];
          row = \<lparr>pk_url = p_url p, pk_keys = [], pk_readable = False, pk_error = None\<rparr>;
          row = (case answer of
              Inr a \<Rightarrow>
                if is_success (fw_status a)
                then row\<lparr>pk_readable := True, pk_keys := (case json_in (fw_body a) of Inr j \<Rightarrow> keys_in j | Inl _ \<Rightarrow> [])\<rparr>
                else if fw_status a = 401 \<or> fw_status a = 403
                then row\<lparr>pk_error := Some ''this server does not administer that peer''\<rparr>
                else row\<lparr>pk_error := Some (''answered '' @ show_nat (fw_status a))\<rparr>
            | Inl e \<Rightarrow> row\<lparr>pk_error := Some (ForwardError_to_string e)\<rparr>);
          (w, rows) = peer_keys_loop json_in net g w peers
      in (w, row # rows))"

definition Galaxy_peer_keys :: "(string \<Rightarrow> string + json) \<Rightarrow> 'w network \<Rightarrow> galaxy \<Rightarrow> 'w \<Rightarrow> 'w \<times> peer_keys list" where
  "Galaxy_peer_keys json_in net g w = peer_keys_loop json_in net g w (Galaxy_peers g)"

text \<open>\<open>BTreeSet::difference\<close>, in order.\<close>

definition keys_minus :: "string list \<Rightarrow> string list \<Rightarrow> string list" where
  "keys_minus xs ys = filter (\<lambda>k. k \<notin> set ys) (sort_dedup xs)"

definition drift_of :: "string list \<Rightarrow> string list \<Rightarrow> peer_keys \<Rightarrow> drift_row" where
  "drift_of mine revoked p =
     (let unknown = keys_minus (pk_keys p) mine;
          stale = filter (\<lambda>k. k \<in> set revoked) unknown;
          missing = keys_minus mine (pk_keys p)
      in \<lparr>dr_url = pk_url p, dr_readable = pk_readable p, dr_error = pk_error p, dr_revoked_but_present = stale,
          dr_only_on_peer = filter (\<lambda>k. k \<notin> set revoked) unknown, dr_missing = missing,
          dr_agrees = (pk_readable p \<and> stale = [] \<and> missing = [])\<rparr>)"

definition key_drift :: "(string \<Rightarrow> string + json) \<Rightarrow> 'w network \<Rightarrow> 'w \<Rightarrow> shared_state \<Rightarrow> http_in \<Rightarrow> 'w \<times> reply" where
  "key_drift json_in net w sh req =
     (case require_admin sh req of
        Inl r \<Rightarrow> (w, r)
      | Inr _ \<Rightarrow>
          (case sh_galaxy sh of
             None \<Rightarrow> (w, ok (KeyDrift []))
           | Some g \<Rightarrow>
               let mine = map fst (Acl_entries (sh_acl sh));
                   (w, rows) = Galaxy_peer_keys json_in net g w
               in (w, ok (KeyDrift (map (drift_of mine (revoked_keys sh)) rows)))))"

section \<open>An entry stands for its grants\<close>

lemma fold_add_grant:
  "ke_key (fold add_grant gs e) = ke_key e"
  "ke_admin (fold add_grant gs e) \<longleftrightarrow> ke_admin e \<or> list_ex g_admin gs"
  "ke_read (fold add_grant gs e) = ke_read e @ map g_prefix (filter g_read gs)"
  "ke_write (fold add_grant gs e) = ke_write e @ map g_prefix (filter g_write gs)"
  by (induction gs arbitrary: e) (auto simp: Let_def)

lemma from_grants_fields:
  "ke_key (KeyEntry_from_grants key gs) = key" "ke_admin (KeyEntry_from_grants key gs) = list_ex g_admin gs"
  "ke_read (KeyEntry_from_grants key gs) = map g_prefix (filter g_read gs)"
  "ke_write (KeyEntry_from_grants key gs) = map g_prefix (filter g_write gs)"
  by (simp_all add: KeyEntry_from_grants_def fold_add_grant)

lemma grants_by_prefix:
  "list_ex (\<lambda>g. P g \<and> Grant_covers g n) gs \<longleftrightarrow> (\<exists>p \<in> set (map g_prefix (filter P gs)). covers_loop (segments n) (segments p))"
  by (auto simp: list_ex_iff Grant_covers_def)

lemma to_grants_prefixes:
  "map g_prefix (filter g_read (KeyEntry_to_grants e)) = ke_read e"
  "set (map g_prefix (filter g_write (KeyEntry_to_grants e))) = set (ke_write e)"
proof -
  show "map g_prefix (filter g_read (KeyEntry_to_grants e)) = ke_read e"
    by (simp add: KeyEntry_to_grants_def Grant_admin_def comp_def filter_map)
  have "map g_prefix (filter g_write (KeyEntry_to_grants e)) =
      filter (\<lambda>p. p \<in> set (ke_write e)) (ke_read e) @ filter (\<lambda>p. p \<notin> set (ke_read e)) (ke_write e)"
    by (simp add: KeyEntry_to_grants_def Grant_admin_def comp_def filter_map)
  then show "set (map g_prefix (filter g_write (KeyEntry_to_grants e))) = set (ke_write e)" by auto
qed

lemma to_grants_admin: "list_ex g_admin (KeyEntry_to_grants e) \<longleftrightarrow> ke_admin e"
  by (auto simp: KeyEntry_to_grants_def list_ex_iff Grant_admin_def)

text \<open>
  Editing a key through the interface changes nothing that was not edited: the entry shown for a key, turned
  back into grants, decides every request for every namespace as the key's own grants did, and keeps its admin
  grant; and an entry saved and shown again names the same key with the same prefixes.
\<close>
theorem key_entry_roundtrip:
  "Acl_can_read (Acl_set acl key (KeyEntry_to_grants (KeyEntry_from_grants key gs))) key namespace =
     Acl_can_read (Acl_set acl key gs) key namespace \<and>
   Acl_can_write (Acl_set acl key (KeyEntry_to_grants (KeyEntry_from_grants key gs))) key namespace =
     Acl_can_write (Acl_set acl key gs) key namespace \<and>
   Acl_is_admin (Acl_set acl key (KeyEntry_to_grants (KeyEntry_from_grants key gs))) key = Acl_is_admin (Acl_set acl key gs) key \<and>
   (let e' = KeyEntry_from_grants (ke_key e) (KeyEntry_to_grants e)
    in ke_key e' = ke_key e \<and> ke_admin e' = ke_admin e \<and> ke_read e' = ke_read e \<and> set (ke_write e') = set (ke_write e))"
  using to_grants_prefixes [of "KeyEntry_from_grants key gs"] to_grants_prefixes [of e]
  by (simp add: Acl_can_read_def Acl_can_write_def Acl_is_admin_def Acl_allows_def Acl_set_def grants_by_prefix
      from_grants_fields to_grants_admin del: set_map)

section \<open>The interface never locks itself\<close>

definition someone_admin :: "shared_state \<Rightarrow> bool" where
  "someone_admin sh \<longleftrightarrow> (\<exists>key. Acl_is_admin (sh_acl sh) key)"

lemma admin_count_iff: "0 < Acl_admin_count acl \<longleftrightarrow> (\<exists>key. Acl_is_admin acl key)"
  by (force simp: Acl_admin_count_def Acl_is_admin_def fm_values_def filter_empty_conv sorted_list_of_fmap_keys fmlookup_dom'_iff
      split: option.splits)

text \<open>The file of keys holds what the memory does.\<close>

definition file_agrees :: "texts \<Rightarrow> shared_state \<Rightarrow> bool" where
  "file_agrees files sh \<longleftrightarrow>
     (case sh_acl_file sh of
        None \<Rightarrow> False
      | Some path \<Rightarrow> path \<noteq> set_extension path ''tmp'' \<and> fmlookup files path = Some (Acl_to_toml (sh_acl sh)))"

text \<open>What a change of the keys keeps: everything but the keys, an admin key, and the agreement of the file with the memory.\<close>

definition keys_changed :: "texts \<Rightarrow> shared_state \<Rightarrow> texts \<Rightarrow> shared_state \<Rightarrow> reply \<Rightarrow> bool" where
  "keys_changed files sh files' sh' r \<longleftrightarrow>
     sh' = sh\<lparr>sh_acl := sh_acl sh', sh_revoked := sh_revoked sh'\<rparr> \<and>
     (someone_admin sh \<longrightarrow> someone_admin sh') \<and> (file_agrees files sh \<longrightarrow> file_agrees files' sh') \<and>
     (re_status r \<noteq> 200 \<longrightarrow> sh' = sh)"

lemma keys_changed_refl: "re_status r \<noteq> 200 \<Longrightarrow> keys_changed files sh files sh r"
  by (simp add: keys_changed_def)

lemma keys_changed_say [simp]: "n \<noteq> 200 \<Longrightarrow> keys_changed files sh files sh (say n m)"
  by (simp add: keys_changed_refl say_def)

lemma keys_changed_refused: "require_admin sh req = Inl r \<Longrightarrow> keys_changed files sh files sh r"
  using require_admin_status by (fastforce intro: keys_changed_refl)

lemma save_acl_result:
  assumes "save_acl io files sh acl = (files', sh', o')"
  shows "case o' of
      None \<Rightarrow> sh' = sh\<lparr>sh_acl := acl\<rparr> \<and> (file_agrees files sh \<longrightarrow> file_agrees files' sh')
    | Some e \<Rightarrow> keys_changed files sh files' sh' e"
proof (cases "sh_acl_file sh")
  case None
  then show ?thesis using assms by (auto simp: save_acl_def acl_file_def)
next
  case (Some path)
  obtain f e where w: "replace_file io files path (Acl_to_toml acl) = (f, e)" by fastforce
  show ?thesis using assms Some w whole.in_step [of io files path Acl_to_toml acl f e "sh_acl sh"]
    by (cases e) (auto simp: save_acl_def acl_file_def say_def keys_changed_def file_agrees_def)
qed

lemma note_revoked_fields: "\<exists>m. note_revoked now sh key = sh\<lparr>sh_revoked := m\<rparr>" "\<exists>m. note_unrevoked sh key = sh\<lparr>sh_revoked := m\<rparr>"
  unfolding note_revoked_def note_unrevoked_def by blast+

lemma fold_fields:
  assumes "\<And>x sh. \<exists>m. f x sh = sh\<lparr>sh_revoked := m\<rparr>"
  shows "\<exists>m. fold f xs sh = sh\<lparr>sh_revoked := m\<rparr>"
proof (induction xs arbitrary: sh)
  case Nil
  show ?case by (rule exI [of _ "sh_revoked sh"]) simp
next
  case (Cons x xs)
  obtain m where "f x sh = sh\<lparr>sh_revoked := m\<rparr>" using assms by blast
  then show ?case using Cons.IH [of "f x sh"] by auto
qed

lemma keys_changed_saved:
  assumes "save_acl io files sh acl = (files', sh1, None)" "0 < Acl_admin_count acl" "re_status r = 200"
    and "\<exists>m. sh' = sh1\<lparr>sh_revoked := m\<rparr>"
  shows "keys_changed files sh files' sh' r \<and> sh_acl sh' = acl"
  using save_acl_result [OF assms(1)] assms(2-4)
  by (auto simp: keys_changed_def someone_admin_def file_agrees_def admin_count_iff split: option.splits)

lemma save_key_keeps:
  assumes "save_key json_out io net w files sh req e = (w', files', sh', r)"
  shows "keys_changed files sh files' sh' r"
proof (cases "require_admin sh req")
  case (Inl r')
  then show ?thesis using assms keys_changed_refused [OF Inl] by (simp add: save_key_def)
next
  case (Inr caller)
  let ?acl = "Acl_set (sh_acl sh) (ke_key e) (KeyEntry_to_grants e)"
  have caller: "Acl_is_admin (sh_acl sh) caller" using Inr by (simp add: require_admin_iff admin_caller_def)
  obtain f sh1 o1 where sv: "save_acl io files sh ?acl = (f, sh1, o1)" by (rule prod_cases3)
  consider b where "KeyEntry_validate e = Inl b"
    | "KeyEntry_validate e = Inr ()" "Acl_is_admin (sh_acl sh) (ke_key e) \<and> \<not> ke_admin e \<and> Acl_admin_count ?acl = 0"
    | "KeyEntry_validate e = Inr ()" "\<not> (Acl_is_admin (sh_acl sh) (ke_key e) \<and> \<not> ke_admin e \<and> Acl_admin_count ?acl = 0)"
    by (metis (full_types) old.unit.exhaust sum.exhaust)
  then show ?thesis
  proof cases
    case 3
    have "0 < Acl_admin_count ?acl"
    proof (cases "ke_key e = caller \<and> \<not> ke_admin e")
      case True
      then show ?thesis using 3(2) caller by simp
    next
      case False
      then have "Acl_is_admin ?acl (if ke_key e = caller then ke_key e else caller)"
        using caller to_grants_admin by (auto simp: Acl_is_admin_def Acl_set_def)
      then show ?thesis unfolding admin_count_iff by blast
    qed
    then show ?thesis
      using assms Inr 3 sv save_acl_result [OF sv] keys_changed_saved [OF _ _ _ note_revoked_fields(2)]
      by (cases o1) (auto simp: save_key_def Let_def Admin.ok_def split: if_splits)
  qed (use assms Inr in \<open>auto simp: save_key_def say_def intro!: keys_changed_refl\<close>)
qed

lemma delete_key_keeps:
  assumes "delete_key io net now w files sh req key = (w', files', sh', r)"
  shows "keys_changed files sh files' sh' r"
proof (cases "require_admin sh req")
  case (Inl r')
  then show ?thesis using assms keys_changed_refused [OF Inl] by (simp add: delete_key_def)
next
  case (Inr caller)
  let ?acl = "fst (Acl_remove (sh_acl sh) key)"
  obtain f sh1 o1 where sv: "save_acl io files sh ?acl = (f, sh1, o1)" by (rule prod_cases3)
  show ?thesis
  proof (cases "Acl_contains (sh_acl sh) key \<and> Acl_admin_count ?acl \<noteq> 0")
    case True
    show ?thesis
    proof (cases o1)
      case None
      then have "sh' = note_revoked now sh1 key" "files' = f" "re_status r = 200"
        using assms Inr True sv by (auto simp: delete_key_def Let_def say_def)
      then show ?thesis using keys_changed_saved [OF sv [unfolded None]] True note_revoked_fields(1) by simp
    next
      case (Some e)
      then show ?thesis using assms Inr True sv save_acl_result [OF sv] by (simp add: delete_key_def Let_def)
    qed
  qed (use assms Inr in \<open>auto simp: delete_key_def Let_def say_def intro!: keys_changed_refl split: if_splits\<close>)
qed

lemma replace_keys_keeps:
  assumes "replace_keys io now files sh req wanted = (files', sh', r)"
  shows "keys_changed files sh files' sh' r"
proof (cases "require_admin sh req")
  case (Inl r')
  then show ?thesis using assms keys_changed_refused [OF Inl] by (simp add: replace_keys_def)
next
  case (Inr caller)
  let ?acl = "fold (\<lambda>e acl. Acl_set acl (ke_key e) (KeyEntry_to_grants e)) wanted Acl_new"
  obtain f sh1 o1 where sv: "save_acl io files sh ?acl = (f, sh1, o1)" by (rule prod_cases3)
  let ?going = "filter (\<lambda>key. \<not> Acl_contains ?acl key) (map fst (Acl_entries (sh_acl sh)))"
  have m: "\<exists>m. fold (\<lambda>e sh. note_unrevoked sh (ke_key e)) wanted (fold (\<lambda>key sh. note_revoked now sh key) ?going sh1) =
      sh1\<lparr>sh_revoked := m\<rparr>"
  proof -
    obtain m1 where "fold (\<lambda>key sh. note_revoked now sh key) ?going sh1 = sh1\<lparr>sh_revoked := m1\<rparr>"
      using fold_fields [of "\<lambda>key sh. note_revoked now sh key" ?going sh1, OF note_revoked_fields(1)] by auto
    then show ?thesis using fold_fields [of "\<lambda>e sh. note_unrevoked sh (ke_key e)" wanted "sh1\<lparr>sh_revoked := m1\<rparr>", OF note_revoked_fields(2)]
      by auto
  qed
  show ?thesis
  proof (cases "sh_acl_replaceable sh \<and> validate_entries wanted = Inr () \<and> Acl_admin_count ?acl \<noteq> 0 \<and> Acl_contains ?acl caller")
    case True
    show ?thesis
    proof (cases o1)
      case None
      then have "\<exists>m. sh' = sh1\<lparr>sh_revoked := m\<rparr>" "files' = f" "re_status r = 200"
        using assms Inr True sv m by (auto simp: replace_keys_def Let_def Admin.ok_def)
      then show ?thesis using keys_changed_saved [OF sv [unfolded None]] True by simp
    next
      case (Some e)
      then show ?thesis using assms Inr True sv save_acl_result [OF sv] by (simp add: replace_keys_def Let_def)
    qed
  qed (use assms Inr in \<open>auto simp: replace_keys_def Let_def say_def intro!: keys_changed_refl split: if_splits sum.splits\<close>)
qed

text \<open>Any sequence of requests to the key interface, whoever sends them and whatever the file system answers.\<close>

inductive keys_step :: "(json \<Rightarrow> string) \<Rightarrow> 'w network \<Rightarrow> texts \<times> shared_state \<Rightarrow> texts \<times> shared_state \<Rightarrow> bool"
  for json_out net where
  saved: "save_key json_out io net w files sh req e = (w', files', sh', r) \<Longrightarrow> keys_step json_out net (files, sh) (files', sh')"
| revoked: "delete_key io net now w files sh req key = (w', files', sh', r) \<Longrightarrow> keys_step json_out net (files, sh) (files', sh')"
| replaced: "replace_keys io now files sh req wanted = (files', sh', r) \<Longrightarrow> keys_step json_out net (files, sh) (files', sh')"

lemma keys_step_keeps:
  assumes "keys_step json_out net (files, sh) (files', sh')"
  shows "\<exists>r. keys_changed files sh files' sh' r"
  using assms
  by (cases rule: keys_step.cases) (auto dest: save_key_keeps delete_key_keeps replace_keys_keeps)

lemma keys_steps_keep:
  assumes "(keys_step json_out net)\<^sup>*\<^sup>* (files, sh) (files', sh')"
  shows "\<exists>acl m. sh' = sh\<lparr>sh_acl := acl, sh_revoked := m\<rparr>"
    and "(someone_admin sh \<longrightarrow> someone_admin sh') \<and> (file_agrees files sh \<longrightarrow> file_agrees files' sh')"
proof -
  have "(\<exists>acl m. sh' = sh\<lparr>sh_acl := acl, sh_revoked := m\<rparr>) \<and>
    (someone_admin sh \<longrightarrow> someone_admin sh') \<and> (file_agrees files sh \<longrightarrow> file_agrees files' sh')"
    using assms
  proof (induction "(files', sh')" arbitrary: files' sh' rule: rtranclp_induct)
    case base
    show ?case by (auto intro!: exI [of _ "sh_acl sh"] exI [of _ "sh_revoked sh"])
  next
    case (step y)
    obtain f1 sh1 where y: "y = (f1, sh1)" by fastforce
    obtain r where "keys_changed f1 sh1 files' sh' r" using step(2) keys_step_keeps unfolding y by blast
    then show ?case using step(3) [OF y] by (auto simp: keys_changed_def)
  qed
  then show "\<exists>acl m. sh' = sh\<lparr>sh_acl := acl, sh_revoked := m\<rparr>"
    and "(someone_admin sh \<longrightarrow> someone_admin sh') \<and> (file_agrees files sh \<longrightarrow> file_agrees files' sh')" by blast+
qed

text \<open>
  C22. The interface for keys never locks everyone out, whoever calls it, whatever the file system and the peers
  answer, and however many requests are made one after the other: as long as some key administered the server at
  the start, one does at the end; the file of keys keeps holding exactly the keys in memory; and nothing but the
  keys and the note of revoked keys has changed.
\<close>
theorem keys_never_lock_out:
  assumes "(keys_step json_out net)\<^sup>*\<^sup>* (files, sh) (files', sh')"
    and "\<exists>key. Acl_is_admin (sh_acl sh) key" "file_agrees files sh"
  shows "(\<exists>key. Acl_is_admin (sh_acl sh') key) \<and> file_agrees files' sh' \<and>
    (\<exists>acl m. sh' = sh\<lparr>sh_acl := acl, sh_revoked := m\<rparr>)"
  using keys_steps_keep [OF assms(1)] assms(2,3) unfolding someone_admin_def by blast

definition sample_files :: texts where
  "sample_files = fmupd ''keys.toml'' (Acl_to_toml (sh_acl sample_admin_state)) fmempty"

lemma sample_file_agrees: "file_agrees sample_files sample_admin_state"
proof -
  have "set_extension ''keys.toml'' ''tmp'' = ''keys.tmp''" by code_simp
  then show ?thesis by (simp add: file_agrees_def sample_files_def sample_admin_state_def)
qed

theorem keys_never_lock_out_witness:
  "\<exists>files' sh' r. delete_key sample_io sample_net 0 () sample_files sample_admin_state sample_admin_request ''k'' = ((), files', sh', r) \<and>
     (\<exists>key. Acl_is_admin (sh_acl sh') key) \<and> file_agrees files' sh'"
proof -
  obtain w' files' sh' r where
    d: "delete_key sample_io sample_net 0 () sample_files sample_admin_state sample_admin_request ''k'' = (w', files', sh', r)"
    by (rule prod_cases4)
  have "(keys_step (\<lambda>_. []) sample_net)\<^sup>*\<^sup>* (sample_files, sample_admin_state) (files', sh')"
    using keys_step.revoked [OF d] by blast
  from keys_never_lock_out [OF this] have "(\<exists>key. Acl_is_admin (sh_acl sh') key) \<and> file_agrees files' sh'"
    using sample_admin(1) sample_file_agrees by blast
  then show ?thesis using d by simp
qed

end
