(* ===== verification/Admin_Data.thy ===== *)
theory Admin_Data
  imports Admin Utf8
begin

text \<open>
  The part of \<^verbatim>\<open>src/src/admin/mod.rs\<close> that browses and edits what is stored: namespaces, flat and as a tree, values,
  where a value was seen, the rejected writes, activity, creating a namespace, adding values, and replacing a
  value's tags on this server or on the mirrors that hold it (\<open>Galaxy_push_value\<close> of \<^verbatim>\<open>src/src/galaxy.rs\<close>). Every
  handler here asks for an admin key, and for the grant of the namespace it touches.
\<close>

section \<open>Browsing\<close>

definition MAX_LIMIT :: nat where
  "MAX_LIMIT = 500"

definition DEFAULT_LIMIT :: nat where
  "DEFAULT_LIMIT = 50"

record browse_query =
  bq_q :: string
  bq_offset :: nat
  bq_limit :: "nat option"

record values_query = browse_query +
  vq_namespace :: string

record tree_query = browse_query +
  tq_path :: string

definition BrowseQuery_limit :: "'a browse_query_scheme \<Rightarrow> nat" where
  "BrowseQuery_limit q = clamp 1 MAX_LIMIT (unwrap_or (bq_limit q) DEFAULT_LIMIT)"

definition RejectionsQuery_limit :: "nat option \<Rightarrow> nat" where
  "RejectionsQuery_limit limit = clamp 1 MAX_LIMIT (unwrap_or limit DEFAULT_LIMIT)"

definition SightingsQuery_limit :: "nat option \<Rightarrow> nat" where
  "SightingsQuery_limit limit = clamp 1 MAX_LIMIT (unwrap_or limit 200)"

definition admin_namespaces :: "shared_state \<Rightarrow> http_in \<Rightarrow> browse_query \<Rightarrow> reply" where
  "admin_namespaces sh req q =
     (case require_admin sh req of
        Inl r \<Rightarrow> r
      | Inr key \<Rightarrow>
          ok (NamespacePage (Database_namespace_page (sh_db sh) (bq_q q) (bq_offset q) (BrowseQuery_limit q) (Acl_can_read (sh_acl sh) key))))"

definition admin_tree :: "shared_state \<Rightarrow> http_in \<Rightarrow> tree_query \<Rightarrow> reply" where
  "admin_tree sh req q =
     (case require_admin sh req of
        Inl r \<Rightarrow> r
      | Inr key \<Rightarrow>
          ok (TreePage (Database_namespace_children (sh_db sh) (tq_path q) (bq_q q) (bq_offset q) (BrowseQuery_limit q)
                (Acl_can_read (sh_acl sh) key))))"

definition admin_rejections :: "shared_state \<Rightarrow> http_in \<Rightarrow> string option \<Rightarrow> nat option \<Rightarrow> reply" where
  "admin_rejections sh req namespace limit =
     (case require_admin sh req of
        Inl r \<Rightarrow> r
      | Inr key \<Rightarrow>
          (case (case namespace of None \<Rightarrow> Inr () | Some n \<Rightarrow> require_read sh key n) of
             Inl r \<Rightarrow> r
           | Inr _ \<Rightarrow>
               let found = filter (\<lambda>e. Acl_can_read (sh_acl sh) key (rj_namespace e))
                             (Rejections_recent (sh_rejections sh) namespace MAX_LIMIT)
               in ok (Rejected \<lparr>rp_rejections = take (RejectionsQuery_limit limit) found,
                    rp_total = Rejections_len (sh_rejections sh), rp_capacity = rj_capacity (sh_rejections sh)\<rparr>)))"

definition clear_rejections :: "shared_state \<Rightarrow> http_in \<Rightarrow> shared_state \<times> reply" where
  "clear_rejections sh req =
     (case require_admin sh req of
        Inl r \<Rightarrow> (sh, r)
      | Inr key \<Rightarrow>
          if \<not> Acl_can_read (sh_acl sh) key []
          then (sh, say 403 ''Clearing the rejection log needs a key with unscoped read access.'')
          else (sh\<lparr>sh_rejections := Rejections_clear (sh_rejections sh)\<rparr>, say 200 ''ok''))"

definition admin_values :: "('f, 'w) runtime \<Rightarrow> shared_state \<Rightarrow> http_in \<Rightarrow> values_query \<Rightarrow> shared_state \<times> reply" where
  "admin_values rt sh req q =
     (case require_admin sh req of
        Inl r \<Rightarrow> (sh, r)
      | Inr key \<Rightarrow>
          (case require_read sh key (vq_namespace q) of
             Inl r \<Rightarrow> (sh, r)
           | Inr _ \<Rightarrow>
               (case Database_value_page (rt_env rt) (rt_disk rt) (rt_now rt) (sh_db sh) (vq_namespace q) (bq_q q)
                       (bq_offset q) (BrowseQuery_limit q) False of
                  (db, Some p) \<Rightarrow> (sh\<lparr>sh_db := db\<rparr>, ok (ValuePage p))
                | (db, None) \<Rightarrow> (sh\<lparr>sh_db := db\<rparr>, say 404 ''No such namespace.''))))"

definition default_granularity :: granularity where
  "default_granularity = Day"

definition default_buckets :: "granularity \<Rightarrow> nat" where
  "default_buckets g = (case g of Hour \<Rightarrow> 48 | Day \<Rightarrow> 90)"

definition admin_activity ::
  "('f, 'w) runtime \<Rightarrow> shared_state \<Rightarrow> http_in \<Rightarrow> granularity option \<Rightarrow> int option \<Rightarrow> nat option \<Rightarrow> reply" where
  "admin_activity rt sh req granularity until buckets =
     (case require_admin sh req of
        Inl r \<Rightarrow> r
      | Inr key \<Rightarrow>
          let granularity = unwrap_or granularity default_granularity
          in ok (Activities (Activity_report (db_activity (sh_db sh)) granularity (unwrap_or until (timestamp (rt_now rt)))
                (unwrap_or buckets (default_buckets granularity)) (Acl_can_read (sh_acl sh) key) (timestamp (rt_now rt)))))"

definition admin_value :: "('f, 'w) runtime \<Rightarrow> shared_state \<Rightarrow> http_in \<Rightarrow> string \<Rightarrow> string \<Rightarrow> shared_state \<times> reply" where
  "admin_value rt sh req namespace v =
     (case require_admin sh req of
        Inl r \<Rightarrow> (sh, r)
      | Inr key \<Rightarrow>
          (case require_read sh key namespace of
             Inl r \<Rightarrow> (sh, r)
           | Inr _ \<Rightarrow>
               let (db, consensus) = Database_count (rt_env rt) (rt_disk rt) (rt_now rt) (sh_db sh) ALL_NAMESPACE v
               in case Database_view (rt_env rt) (rt_disk rt) (rt_now rt) db namespace v consensus True of
                    (db, Some view) \<Rightarrow> (sh\<lparr>sh_db := db\<rparr>, ok (OneValue view))
                  | (db, None) \<Rightarrow> (sh\<lparr>sh_db := db\<rparr>, say 404 ''No such value.'')))"

definition admin_sightings :: "('f, 'w) runtime \<Rightarrow> shared_state \<Rightarrow> http_in \<Rightarrow> string \<Rightarrow> nat option \<Rightarrow> shared_state \<times> reply" where
  "admin_sightings rt sh req v limit =
     (case require_admin sh req of
        Inl r \<Rightarrow> (sh, r)
      | Inr key \<Rightarrow>
          if v = [] then (sh, say 400 ''No value to look for.'')
          else let (db, found) = Database_sightings_of (rt_env rt) (rt_disk rt) (rt_now rt) (sh_db sh) v (SightingsQuery_limit limit)
                       (Acl_can_read (sh_acl sh) key);
                   (db, consensus) = Database_count (rt_env rt) (rt_disk rt) (rt_now rt) db ALL_NAMESPACE v
               in (sh\<lparr>sh_db := db\<rparr>, ok (Sightings v consensus found)))"

section \<open>Editing\<close>

definition create_namespace :: "('f, 'w) runtime \<Rightarrow> shared_state \<Rightarrow> http_in \<Rightarrow> string \<Rightarrow> shared_state \<times> reply" where
  "create_namespace rt sh req given =
     (case require_admin sh req of
        Inl r \<Rightarrow> (sh, r)
      | Inr caller \<Rightarrow>
          (case clean_namespace given of
             Inl r \<Rightarrow> (sh, r)
           | Inr namespace \<Rightarrow>
               (case require_write sh caller namespace of
                  Inl r \<Rightarrow> (sh, r)
                | Inr _ \<Rightarrow>
                    (case Database_create_namespace (rt_env rt) (rt_disk rt) (rt_now rt) (sh_db sh) namespace of
                       (db, True) \<Rightarrow> (sh\<lparr>sh_db := db\<rparr>, ok (Created namespace))
                     | (db, False) \<Rightarrow> (sh\<lparr>sh_db := db\<rparr>, say 409 (quoted namespace @ '' already exists.''))))))"

record new_values =
  nv_namespace :: string
  nv_values :: "string list"
  nv_timestamp :: "int option"
  nv_ttl :: "u64 option"
  nv_tags :: string

text \<open>What is left of a paste once its lines are trimmed.\<close>

definition pasted :: "string list \<Rightarrow> string list" where
  "pasted values = filter (\<lambda>v. v \<noteq> []) (map trim values)"

fun add_loop ::
  "('f, 'w) runtime \<Rightarrow> string \<Rightarrow> datetime option \<Rightarrow> u64 option \<Rightarrow> string \<Rightarrow> string list \<Rightarrow> shared_state \<Rightarrow> write_report
    \<Rightarrow> shared_state \<times> write_report" where
  "add_loop rt namespace when t given [] sh report = (sh, report)"
| "add_loop rt namespace when t given (v # vs) sh report =
     (case writer_write_tagged (rt_env rt) (rt_disk rt) (rt_now rt) (sh_db sh) namespace v when t given of
        (db, Inr written) \<Rightarrow>
          add_loop rt namespace when t given vs (sh\<lparr>sh_db := db\<rparr>)
            (report\<lparr>wp_written := wp_written report + 1,
               wp_counts := wp_counts report @ [\<lparr>vn_value = v, vn_count = w_count written, vn_new = w_new written\<rparr>]\<rparr>)
      | (db, Inl e) \<Rightarrow>
          add_loop rt namespace when t given vs (reject rt (sh\<lparr>sh_db := db\<rparr>) namespace v (ApiError_to_string e) SourceManagement)
            (report\<lparr>wp_errors := wp_errors report @ [(v, ApiError_to_string e)]\<rparr>))"

definition add_values :: "('f, 'w) runtime \<Rightarrow> shared_state \<Rightarrow> http_in \<Rightarrow> new_values \<Rightarrow> shared_state \<times> reply" where
  "add_values rt sh req given =
     (case require_admin sh req of
        Inl r \<Rightarrow> (sh, r)
      | Inr caller \<Rightarrow>
          (case clean_namespace (nv_namespace given) of
             Inl r \<Rightarrow> (sh, r)
           | Inr namespace \<Rightarrow>
               (case require_write sh caller namespace of
                  Inl r \<Rightarrow> (sh, r)
                | Inr _ \<Rightarrow>
                    (case instant_of rt (nv_timestamp given) of
                       Inl e \<Rightarrow> (sh, say 400 (ApiError_to_string e))
                     | Inr when \<Rightarrow>
                         let values = pasted (nv_values given)
                         in if values = [] then (sh, say 400 ''No values to add.'')
                            else let (sh, report) = add_loop rt namespace when (nv_ttl given) (nv_tags given) values sh
                                       \<lparr>wp_namespace = namespace, wp_written = 0, wp_counts = [], wp_errors = []\<rparr>
                                 in (sh, \<lparr>re_status = (if wp_written report = 0 then 400 else 200), re_body = Written report\<rparr>)))))"

section \<open>Replacing tags\<close>

definition counts_json :: "('a::linorder, u64) fmap \<Rightarrow> ('a \<Rightarrow> string) \<Rightarrow> json" where
  "counts_json m shown = JObj (map (\<lambda>(k, n). (shown k, JNum (uint n))) (sorted_list_of_fmap m))"

definition offer_json :: "string \<Rightarrow> string \<Rightarrow> merge_data \<Rightarrow> json" where
  "offer_json namespace v m = JObj [(''items'', JArr [JObj [
     (''counts'', counts_json (m_counts m) id), (''first_seen'', JNum (m_first_seen m)), (''last_seen'', JNum (m_last_seen m)),
     (''namespace'', JStr namespace),
     (''stats'', JObj (map (\<lambda>(node, hours). (node, counts_json hours show_int)) (sorted_list_of_fmap (m_stats m)))),
     (''tags'', JStr (m_tags m)), (''tags_at'', JNum (m_tags_at m)), (''ttl'', JNum (uint (m_ttl m))), (''value'', JStr v)]])]"

definition answer_outcome :: "forward_error + forwarded \<Rightarrow> string + nat" where
  "answer_outcome sent =
     (case sent of
        Inr a \<Rightarrow> if is_success (fw_status a) then Inr (fw_status a)
                  else Inl (''answered '' @ show_nat (fw_status a) @ '': '' @ from_utf8_lossy (fw_body a))
      | Inl e \<Rightarrow> Inl (ForwardError_to_string e))"

fun push_loop ::
  "'w network \<Rightarrow> galaxy \<Rightarrow> 'w \<Rightarrow> string \<Rightarrow> u8 \<Rightarrow> peer list \<Rightarrow> 'w \<times> (string \<times> (string + nat)) list" where
  "push_loop net g w sent_body hops [] = (w, [])"
| "push_loop net g w sent_body hops (p # peers) =
     (let (w, sent) = Galaxy_send net g w p POST ''/_api/merge'' (Some sent_body) hops [];
          (w, rest) = push_loop net g w sent_body hops peers
      in (w, (p_url p, answer_outcome sent) # rest))"

definition Galaxy_push_value ::
  "(json \<Rightarrow> string) \<Rightarrow> 'w network \<Rightarrow> galaxy \<Rightarrow> 'w \<Rightarrow> string \<Rightarrow> string \<Rightarrow> merge_data \<Rightarrow> u8 \<Rightarrow> 'w \<times> (string \<times> (string + nat)) list" where
  "Galaxy_push_value json_out net g w namespace v m hops =
     push_loop net g w (json_out (offer_json namespace v m)) hops (Galaxy_live_holders g namespace)"

definition spread_tags ::
  "(json \<Rightarrow> string) \<Rightarrow> 'w network \<Rightarrow> 'w \<Rightarrow> shared_state \<Rightarrow> string \<Rightarrow> string \<Rightarrow> merge_data \<Rightarrow> 'w \<times> mirror_outcome list option" where
  "spread_tags json_out net w sh namespace v m =
     (case sh_galaxy sh of
        None \<Rightarrow> (w, None)
      | Some g \<Rightarrow>
          let (w, outcomes) = Galaxy_push_value json_out net g w namespace v m (g_max_hops g)
          in (w, if outcomes = [] then None
                 else Some (map (\<lambda>(url, outcome). case outcome of
                              Inr _ \<Rightarrow> \<lparr>mo_url = url, mo_ok = True, mo_error = None\<rparr>
                            | Inl e \<Rightarrow> \<lparr>mo_url = url, mo_ok = False, mo_error = Some e\<rparr>) outcomes)))"

text \<open>Reading a mirror's copy of a value is the parameter \<open>merge_in\<close>.\<close>

definition retagged_elsewhere ::
  "(string \<Rightarrow> string + merge_data) \<Rightarrow> ('f, 'w) runtime \<Rightarrow> 'w \<Rightarrow> shared_state \<Rightarrow> string \<Rightarrow> string \<Rightarrow> string \<Rightarrow> 'w \<times> (reply + merge_data)" where
  "retagged_elsewhere merge_in rt w sh namespace v given =
     (case sh_galaxy sh of
        None \<Rightarrow> (w, Inl (say 404 ''No such value.''))
      | Some g \<Rightarrow>
          (case Galaxy_forward_read (rt_sha256 rt) (rt_net rt) g w namespace v
                  (''/r/'' @ namespace @ ''?val='' @ urlencoding_of v @ ''&noshadow&for_merge'') (g_max_hops g) [] of
             (w, Inl e) \<Rightarrow>
               (w, Inl (say 502 (''Could not reach a mirror holding '' @ quoted namespace @ '': '' @ ForwardError_to_string e)))
           | (w, Inr answer) \<Rightarrow>
               if \<not> is_success (fw_status answer)
               then (w, Inl \<lparr>re_status = (if 100 \<le> fw_status answer \<and> fw_status answer < 1000 then fw_status answer else 502),
                            re_body = Passed (fw_body answer)\<rparr>)
               else case merge_in (fw_body answer) of
                      Inl e \<Rightarrow> (w, Inl (say 502 (''A mirror answered unreadably: '' @ e)))
                    | Inr m \<Rightarrow> (w, Inr (m\<lparr>m_tags := given, m_tags_at := timestamp_millis (rt_now rt)\<rparr>))))"

definition view_of :: "string \<Rightarrow> merge_data \<Rightarrow> u64 \<Rightarrow> attribute_view" where
  "view_of v m consensus =
     \<lparr>v_value = v, v_first_seen = m_first_seen m, v_last_seen = m_last_seen m, v_count = fm_sum (m_counts m), v_tags = m_tags m,
      v_ttl = m_ttl m, v_consensus = consensus, v_stats = None\<rparr>"

definition retagged_here ::
  "('f, 'w) runtime \<Rightarrow> shared_state \<Rightarrow> string \<Rightarrow> string \<Rightarrow> string \<Rightarrow> shared_state \<times> (reply + merge_data)" where
  "retagged_here rt sh namespace v given =
     (case Database_set_tags (rt_env rt) (rt_disk rt) (rt_now rt) (sh_db sh) namespace v given of
        (db, False) \<Rightarrow> (sh\<lparr>sh_db := db\<rparr>, Inl (say 404 ''No such value.''))
      | (db, True) \<Rightarrow>
          (case Database_merge_payload (rt_env rt) (rt_disk rt) (rt_now rt) db namespace v of
             (db, Some m) \<Rightarrow> (sh\<lparr>sh_db := db\<rparr>, Inr m)
           | (db, None) \<Rightarrow> (sh\<lparr>sh_db := db\<rparr>, Inl (say 500 ''The value disappeared while being retagged.''))))"

definition admin_set_tags ::
  "(json \<Rightarrow> string) \<Rightarrow> (string \<Rightarrow> string + merge_data) \<Rightarrow> ('f, 'w) runtime \<Rightarrow> 'w \<Rightarrow> shared_state \<Rightarrow> http_in \<Rightarrow> string \<Rightarrow> string \<Rightarrow> string
    \<Rightarrow> 'w \<times> shared_state \<times> reply" where
  "admin_set_tags json_out merge_in rt w sh req namespace_given v given =
     (case require_admin sh req of
        Inl r \<Rightarrow> (w, sh, r)
      | Inr caller \<Rightarrow>
          (case clean_namespace namespace_given of
             Inl r \<Rightarrow> (w, sh, r)
           | Inr namespace \<Rightarrow>
               (case require_write sh caller namespace of
                  Inl r \<Rightarrow> (w, sh, r)
                | Inr _ \<Rightarrow>
                    let (w, sh, payload) =
                          (if StoragePolicy_holds (db_stores (sh_db sh)) namespace
                           then (let (sh, p) = retagged_here rt sh namespace v given in (w, sh, p))
                           else (let (w, p) = retagged_elsewhere merge_in rt w sh namespace v given in (w, sh, p)))
                    in case payload of
                         Inl r \<Rightarrow> (w, sh, r)
                       | Inr m \<Rightarrow>
                           let (w, spread) = spread_tags json_out (rt_net rt) w sh namespace v m;
                               (db, consensus) = Database_count (rt_env rt) (rt_disk rt) (rt_now rt) (sh_db sh) ALL_NAMESPACE v;
                               (db, view) = Database_view (rt_env rt) (rt_disk rt) (rt_now rt) db namespace v consensus False;
                               view = unwrap_or view (view_of v m consensus)
                           in (w, sh\<lparr>sh_db := db\<rparr>, (case spread of None \<Rightarrow> ok (OneValue view) | Some report \<Rightarrow> ok (TaggedAcross view report))))))"

section \<open>What the operations do\<close>

definition retagged :: "logical \<Rightarrow> datetime \<Rightarrow> string \<Rightarrow> string \<Rightarrow> string \<Rightarrow> logical" where
  "retagged C now path v given =
     (case live C now v path of
        None \<Rightarrow> C
      | Some a \<Rightarrow> C(path := Some (fmupd v (Attribute_set_tags a given (timestamp_millis now)) (values_of C path))))"

lemma set_tags_stored: "Attribute_set_tags (stored_attr a) given at = stored_attr (Attribute_set_tags a given at)"
  by (simp add: Attribute_set_tags_def stored_attr_def)

lemma live_in: "live C now v n = (case C n of None \<Rightarrow> None | Some m \<Rightarrow>
    (case fmlookup m v of None \<Rightarrow> None | Some a \<Rightarrow> if Attribute_is_expired a now then None else Some a))"
  by (auto simp: live_def values_of_def split: option.splits)

lemma retag_sound: "ns_sound ns \<Longrightarrow> ns_sound (fst (Namespace_retag ns v given now))"
  unfolding ns_sound_def by (auto simp: ns_inv_retag) (auto simp: Namespace_retag_def Attribute_set_tags_def split: option.splits if_splits)

lemma set_tags_effect:
  assumes inv: "db_inv_upto env disk X db" and eq: "Database_set_tags env disk now db path v given = (db', b)"
  defines "C \<equiv> contents env disk db"
  shows "db_inv_upto env disk X db' \<and> same_setup db' db \<and> contents env disk db' = retagged C now path v given \<and>
    (b \<longleftrightarrow> live C now v path \<noteq> None)"
proof -
  obtain db1 r where found: "Database_namespace env disk now db path = (db1, r)" by fastforce
  note n = namespace_finds [OF inv found]
  have C1: "contents env disk db1 = C" using n(2) by (auto simp: C_def)
  show ?thesis
  proof (cases r)
    case None
    then have "live C now v path = None" using n(4) by (simp add: live_in C_def)
    then show ?thesis using eq found None n C1 by (simp add: Database_set_tags_def retagged_def)
  next
    case (Some ns)
    have mem: "fmlookup (db_namespaces db1) path = Some ns" using n(3) Some by simp
    then have sound: "ns_sound ns" using n(1) by (auto simp: db_inv_upto_def)
    have C: "C path = Some (fmmap stored_attr (ns_values ns))" using n(4) Some by (simp add: C_def)
    obtain ns' t where rt: "Namespace_retag ns v given now = (ns', t)" by fastforce
    have db': "db' = (if t then Database_mark_dirty (put_namespace db1 path ns') path else put_namespace db1 path ns')" "b = t"
      using eq found Some rt by (auto simp: Database_set_tags_def Let_def)
    show ?thesis
    proof (cases t)
      case False
      then have "ns' = ns" "live C now v path = None"
        using rt by (auto simp: Namespace_retag_def live_in C split: option.splits if_splits)
      then show ?thesis using db' False put_same [OF mem] n(1,5) C1 by (simp add: retagged_def)
    next
      case True
      obtain a where a: "fmlookup (ns_values ns) v = Some a" "\<not> Attribute_is_expired a now"
          "ns_values ns' = fmupd v (Attribute_set_tags a given (timestamp_millis now)) (ns_values ns)"
        using rt True by (auto simp: Namespace_retag_def split: option.splits if_splits)
      have s': "ns_sound ns'" using retag_sound [OF sound, of v given now] rt by simp
      have inv1: "db_inv_upto env disk (insert (shard_of path) X) db1" using n(1) by (rule inv_mono) auto
      note put = put_in_memory [OF inv1 mem s' disjI1 [OF insertI1]]
      have l: "live C now v path = Some (stored_attr a)" using a by (simp add: live_in C)
      have vals: "fmmap stored_attr (ns_values ns') =
          fmupd v (Attribute_set_tags (stored_attr a) given (timestamp_millis now)) (fmmap stored_attr (ns_values ns))"
        by (rule fmap_ext) (simp add: a(3) set_tags_stored)
      show ?thesis using db' True mark_dirty [OF put(1)] put(2,3) n(5) C1 l C
        by (auto simp: retagged_def vals values_of_def intro: same_setup_trans)
    qed
  qed
qed

lemma payload_reads:
  assumes inv: "db_inv_upto env disk X db" and eq: "Database_merge_payload env disk now db path v = (db', r)"
  shows "db_inv_upto env disk X db' \<and> contents env disk db' = contents env disk db \<and> same_setup db' db \<and>
    r = map_option Attribute_as_merge (live (contents env disk db) now v path)"
proof -
  obtain db1 ns where found: "Database_namespace env disk now db path = (db1, ns)" by fastforce
  note n = namespace_finds [OF inv found]
  have "Attribute_as_merge (stored_attr a) = Attribute_as_merge a" for a
    by (simp add: Attribute_as_merge_def stored_attr_def whole_seconds_def)
  then show ?thesis using eq found n
    by (auto simp: Database_merge_payload_def Namespace_merge_payload_def live_in split: option.splits)
qed

lemma set_tags_expiry [simp]: "Attribute_is_expired (Attribute_set_tags a given at) now = Attribute_is_expired a now"
  by (simp add: Attribute_set_tags_def Attribute_is_expired_def Attribute_expires_at_def)

lemma retagged_live:
  "live C now v path = Some a \<Longrightarrow> live (retagged C now path v given) now v path = Some (Attribute_set_tags a given (timestamp_millis now))"
  by (auto simp: retagged_def live_def set_tags_expiry split: option.splits if_splits)

lemma retagged_keeps:
  assumes "counts_towards_consensus path"
  shows "holders (retagged C now path v given) x = holders C x" "values_of (retagged C now path v given) ALL_NAMESPACE = values_of C ALL_NAMESPACE"
proof -
  have "path \<noteq> ALL_NAMESPACE" using assms by auto
  then show "values_of (retagged C now path v given) ALL_NAMESPACE = values_of C ALL_NAMESPACE"
    by (simp add: retagged_def split: option.split)
  show "holders (retagged C now path v given) x = holders C x"
    by (auto simp: holders_def retagged_def live_def fmlookup_dom'_iff split: option.splits if_splits)
qed

lemma retagged_here_effect:
  assumes inv: "state_inv rt sh" and eq: "retagged_here rt sh namespace v given = (sh', p)"
  shows "state_inv rt sh' \<and> same_setup (sh_db sh') (sh_db sh) \<and> sh' = sh\<lparr>sh_db := sh_db sh'\<rparr> \<and>
    stored rt sh' = retagged (stored rt sh) (rt_now rt) namespace v given \<and>
    (case live (stored rt sh) (rt_now rt) v namespace of
       None \<Rightarrow> p = Inl (say 404 ''No such value.'')
     | Some a \<Rightarrow> p = Inr (Attribute_as_merge (Attribute_set_tags a given (timestamp_millis (rt_now rt)))))"
proof -
  obtain db1 b where st: "Database_set_tags (rt_env rt) (rt_disk rt) (rt_now rt) (sh_db sh) namespace v given = (db1, b)" by fastforce
  note e1 = set_tags_effect [OF inv st]
  obtain db2 m where mp: "Database_merge_payload (rt_env rt) (rt_disk rt) (rt_now rt) db1 namespace v = (db2, m)" by fastforce
  have "db_inv (rt_env rt) (rt_disk rt) db1" using e1 by simp
  note e2 = payload_reads [OF this mp]
  show ?thesis
  proof (cases "live (stored rt sh) (rt_now rt) v namespace")
    case None
    then show ?thesis using eq st e1 by (auto simp: retagged_here_def)
  next
    case (Some a)
    then show ?thesis using eq st mp e1 e2 retagged_live [OF Some, of given]
      by (auto simp: retagged_here_def intro: same_setup_trans)
  qed
qed

section \<open>Replacing tags changes tags\<close>

lemma cleaned_segments:
  assumes "clean_namespace given = Inr namespace"
  shows "\<exists>x xs. split_on CHR ''/'' namespace = x # xs \<and> x \<noteq> [] \<and> namespace = join ''/'' (x # xs)"
proof -
  let ?xs = "filter (\<lambda>s. s \<noteq> []) (map trim (split_on CHR ''/'' given))"
  have n: "namespace = join ''/'' ?xs" "namespace \<noteq> []"
    using assms by (auto simp: clean_namespace_def Let_def split: if_splits sum.splits)
  then obtain x xs where xs: "?xs = x # xs" by (cases ?xs) auto
  have "CHR ''/'' \<notin> set (trim s)" if "s \<in> set (split_on CHR ''/'' given)" for s
    using split_on_pieces [OF that] set_trim [of s] by blast
  then have "\<forall>s \<in> set ?xs. CHR ''/'' \<notin> set s" by auto
  moreover have "x \<noteq> []"
  proof -
    have "x \<in> set ?xs" unfolding xs by simp
    then show ?thesis by simp
  qed
  ultimately have "split_on CHR ''/'' namespace = x # xs" "x \<noteq> []" "namespace = join ''/'' (x # xs)"
    using n(1) split_on_join [of "x # xs" "CHR ''/''"] unfolding xs by simp_all
  then show ?thesis by blast
qed

lemma cleaned_counts:
  assumes "clean_namespace given = Inr namespace"
  shows "counts_towards_consensus namespace" "\<not> is_internal namespace" "namespace \<noteq> ALL_NAMESPACE"
proof -
  obtain x xs where x: "split_on CHR ''/'' namespace = x # xs" "x \<noteq> []" "namespace = join ''/'' (x # xs)"
    using cleaned_segments [OF assms] by blast
  then obtain c cs where c: "x = c # cs" by (cases x) auto
  then have "starts_with namespace ''_'' \<longleftrightarrow> c = CHR ''_''" using x(3) by (cases xs) (auto simp: starts_with_def)
  then show i: "\<not> is_internal namespace" using cleaned_namespace(3) [OF assms] x c by (simp add: is_internal_def starts_with_def)
  then show "counts_towards_consensus namespace" using not_counted_internal by blast
  then show "namespace \<noteq> ALL_NAMESPACE" by auto
qed

lemma push_loop_urls: "push_loop net g w b hops peers = (w', outcomes) \<Longrightarrow> map fst outcomes = map p_url peers"
  by (induction peers arbitrary: w outcomes) (auto simp: Let_def split: prod.splits)

lemma spread_tags_reports:
  assumes "spread_tags json_out net w sh namespace v m = (w', report)"
  shows "map mo_url (unwrap_or report []) = (case sh_galaxy sh of None \<Rightarrow> [] | Some g \<Rightarrow> map p_url (Galaxy_live_holders g namespace))"
proof (cases "sh_galaxy sh")
  case None
  then show ?thesis using assms by (auto simp: spread_tags_def unwrap_or_def)
next
  case (Some g)
  obtain w1 outcomes where p: "Galaxy_push_value json_out net g w namespace v m (g_max_hops g) = (w1, outcomes)" by fastforce
  have urls: "map fst outcomes = map p_url (Galaxy_live_holders g namespace)"
    using push_loop_urls p by (simp add: Galaxy_push_value_def)
  have "map mo_url (map (\<lambda>(url, outcome). case outcome of
      Inr x \<Rightarrow> \<lparr>mo_url = url, mo_ok = True, mo_error = None\<rparr> | Inl e \<Rightarrow> \<lparr>mo_url = url, mo_ok = False, mo_error = Some e\<rparr>) outcomes) =
      map fst outcomes" by (auto split: sum.split)
  then show ?thesis using assms Some p urls by (auto simp: spread_tags_def unwrap_or_def split: if_splits)
qed

definition tags_reply :: "reply \<Rightarrow> (attribute_view \<times> string list) option" where
  "tags_reply r = (case re_body r of
      OneValue view \<Rightarrow> Some (view, []) | TaggedAcross view report \<Rightarrow> Some (view, map mo_url report) | _ \<Rightarrow> None)"

text \<open>The namespace a request may edit: what its name is cleaned to, when the caller is an admin who may write there.\<close>

definition editable :: "shared_state \<Rightarrow> http_in \<Rightarrow> string \<Rightarrow> string option" where
  "editable sh req given =
     (case clean_namespace given of
        Inl _ \<Rightarrow> None
      | Inr namespace \<Rightarrow> if \<exists>caller. admin_caller sh req caller \<and> Acl_can_write (sh_acl sh) caller namespace then Some namespace else None)"

lemma editable_Some:
  assumes "editable sh req given = Some namespace"
  obtains caller where "require_admin sh req = Inr caller" "clean_namespace given = Inr namespace" "Acl_can_write (sh_acl sh) caller namespace"
  using assms that by (auto simp: editable_def require_admin_iff split: sum.splits if_splits)

lemma editable_None:
  assumes "editable sh req given = None"
  obtains r where "require_admin sh req = Inl r" "re_status r \<in> {400, 401, 403}"
  | caller r where "require_admin sh req = Inr caller" "clean_namespace given = Inl r" "re_status r = 400"
  | caller n where "require_admin sh req = Inr caller" "clean_namespace given = Inr n" "\<not> Acl_can_write (sh_acl sh) caller n"
proof (cases "require_admin sh req")
  case (Inl r)
  then show thesis using that(1) require_admin_status by blast
next
  case (Inr caller)
  show thesis
  proof (cases "clean_namespace given")
    case c: (Inl r)
    then have "re_status r = 400" by (auto simp: clean_namespace_def say_def Let_def split: if_splits sum.splits)
    then show thesis using that(2) Inr c by blast
  next
    case c: (Inr n)
    then have "\<not> Acl_can_write (sh_acl sh) caller n" using assms Inr by (auto simp: editable_def require_admin_iff split: if_splits)
    then show thesis using that(3) Inr c by blast
  qed
qed

lemma set_tags_refused:
  assumes "admin_set_tags json_out merge_in rt w sh req given_namespace v given = (w', sh', r)" "editable sh req given_namespace = None"
  shows "w' = w \<and> sh' = sh \<and> re_status r \<in> {400, 401, 403}"
  using assms(2) by (rule editable_None) (use assms(1) in \<open>auto simp: admin_set_tags_def require_write_def say_def\<close>)

text \<open>The view and the report that a change which went through answers with.\<close>

lemma tags_answered:
  assumes inv: "state_inv rt sh" and sp: "spread_tags json_out net w sh namespace v m = (w', spread)"
    and cn: "Database_count (rt_env rt) (rt_disk rt) (rt_now rt) (sh_db sh) ALL_NAMESPACE v = (db1, consensus)"
    and vw: "Database_view (rt_env rt) (rt_disk rt) (rt_now rt) db1 namespace v consensus False = (db2, view)"
  shows "db_inv (rt_env rt) (rt_disk rt) db2 \<and> contents (rt_env rt) (rt_disk rt) db2 = stored rt sh \<and> same_setup db2 (sh_db sh) \<and>
    tags_reply (case spread of None \<Rightarrow> ok (OneValue (unwrap_or view (view_of v m consensus)))
      | Some report \<Rightarrow> ok (TaggedAcross (unwrap_or view (view_of v m consensus)) report)) =
    Some (unwrap_or (view_in (stored rt sh) namespace v (count_in (stored rt sh) ALL_NAMESPACE v (rt_now rt)) False (rt_now rt))
            (view_of v m (count_in (stored rt sh) ALL_NAMESPACE v (rt_now rt))),
          case sh_galaxy sh of None \<Rightarrow> [] | Some g \<Rightarrow> map p_url (Galaxy_live_holders g namespace))"
proof -
  note e1 = count_reads [OF inv cn]
  have "db_inv (rt_env rt) (rt_disk rt) db1" using e1 by blast
  note e2 = view_reads [OF this vw]
  have "map mo_url (unwrap_or spread []) = (case sh_galaxy sh of None \<Rightarrow> [] | Some g \<Rightarrow> map p_url (Galaxy_live_holders g namespace))"
    by (rule spread_tags_reports [OF sp])
  then show ?thesis using e1 e2
    by (cases spread) (auto simp: tags_reply_def Admin.ok_def unwrap_or_def intro: same_setup_trans)
qed

definition mirrors_of :: "shared_state \<Rightarrow> string \<Rightarrow> string list" where
  "mirrors_of sh namespace = (case sh_galaxy sh of None \<Rightarrow> [] | Some g \<Rightarrow> map p_url (Galaxy_live_holders g namespace))"

lemma retagged_view:
  assumes "live C now v path = Some a"
  shows "view_in (retagged C now path v given) path v c b now = Some (Attribute_view (Attribute_set_tags a given (timestamp_millis now)) c b)"
  using retagged_live [OF assms] by (simp add: view_live)

lemma retagged_count:
  assumes "counts_towards_consensus path"
  shows "count_in (retagged C now path v given) ALL_NAMESPACE x now = count_in C ALL_NAMESPACE x now"
  by (simp add: count_in_def retagged_keeps [OF assms])

lemma set_tags_held:
  assumes inv: "state_inv rt sh" and ns: "require_admin sh req = Inr caller" "clean_namespace given_namespace = Inr namespace"
      "Acl_can_write (sh_acl sh) caller namespace" and held: "StoragePolicy_holds (db_stores (sh_db sh)) namespace"
    and eq: "admin_set_tags json_out merge_in rt w sh req given_namespace v given = (w', sh', r)"
  shows "state_inv rt sh' \<and> same_setup (sh_db sh') (sh_db sh) \<and> sh' = sh\<lparr>sh_db := sh_db sh'\<rparr> \<and>
    stored rt sh' = retagged (stored rt sh) (rt_now rt) namespace v given \<and>
    (case live (stored rt sh) (rt_now rt) v namespace of
       None \<Rightarrow> w' = w \<and> re_status r = 404
     | Some a \<Rightarrow> re_status r = 200 \<and>
         tags_reply r = Some (Attribute_view (Attribute_set_tags a given (timestamp_millis (rt_now rt)))
             (count_in (stored rt sh) ALL_NAMESPACE v (rt_now rt)) False, mirrors_of sh namespace))"
proof -
  obtain sh1 p where h: "retagged_here rt sh namespace v given = (sh1, p)" by fastforce
  note e = retagged_here_effect [OF inv h]
  show ?thesis
  proof (cases "live (stored rt sh) (rt_now rt) v namespace")
    case None
    then show ?thesis using eq ns held h e by (auto simp: admin_set_tags_def require_write_def say_def)
  next
    case (Some a)
    let ?m = "Attribute_as_merge (Attribute_set_tags a given (timestamp_millis (rt_now rt)))"
    obtain w1 spread where sp: "spread_tags json_out (rt_net rt) w sh1 namespace v ?m = (w1, spread)" by fastforce
    obtain db1 consensus where cn: "Database_count (rt_env rt) (rt_disk rt) (rt_now rt) (sh_db sh1) ALL_NAMESPACE v = (db1, consensus)" by fastforce
    obtain db2 view where vw: "Database_view (rt_env rt) (rt_disk rt) (rt_now rt) db1 namespace v consensus False = (db2, view)" by fastforce
    have inv1: "state_inv rt sh1" using e by blast
    note an = tags_answered [OF inv1 sp cn vw]
    have out: "sh' = sh1\<lparr>sh_db := db2\<rparr>" "r = (case spread of None \<Rightarrow> ok (OneValue (unwrap_or view (view_of v ?m consensus)))
        | Some report \<Rightarrow> ok (TaggedAcross (unwrap_or view (view_of v ?m consensus)) report))"
      using eq ns held h e Some sp cn vw by (auto simp: admin_set_tags_def require_write_def Let_def)
    have sh1: "sh1 = sh\<lparr>sh_db := sh_db sh1\<rparr>" using e by blast
    then have g: "sh_galaxy sh1 = sh_galaxy sh" by (metis shared_state.ext_inject shared_state.surjective shared_state.update_convs(1))
    have st: "stored rt sh' = retagged (stored rt sh) (rt_now rt) namespace v given" using an e unfolding out(1) by simp
    have "sh' = sh\<lparr>sh_db := sh_db sh'\<rparr>" using sh1 unfolding out(1) by (metis shared_state.update_convs(1) shared_state.surjective shared_state.select_convs(1))
    moreover have "state_inv rt sh'" "same_setup (sh_db sh') (sh_db sh)" using an e unfolding out(1) by (auto intro: same_setup_trans)
    moreover have "re_status r = 200" unfolding out(2) by (simp add: Admin.ok_def split: option.split)
    moreover have "tags_reply r = Some (Attribute_view (Attribute_set_tags a given (timestamp_millis (rt_now rt)))
        (count_in (stored rt sh) ALL_NAMESPACE v (rt_now rt)) False, mirrors_of sh namespace)"
    proof -
      have e': "stored rt sh1 = retagged (stored rt sh) (rt_now rt) namespace v given" using e by blast
      show ?thesis using an unfolding out(2) e' retagged_count [OF cleaned_counts(1) [OF ns(2)]] retagged_view [OF Some] g
        by (simp add: mirrors_of_def unwrap_or_def)
    qed
    ultimately show ?thesis using st Some by simp
  qed
qed

lemma set_tags_not_held:
  assumes inv: "state_inv rt sh" and ns: "require_admin sh req = Inr caller" "clean_namespace given_namespace = Inr namespace"
      "Acl_can_write (sh_acl sh) caller namespace" and held: "\<not> StoragePolicy_holds (db_stores (sh_db sh)) namespace"
    and eq: "admin_set_tags json_out merge_in rt w sh req given_namespace v given = (w', sh', r)"
  shows "state_inv rt sh' \<and> same_setup (sh_db sh') (sh_db sh) \<and> sh' = sh\<lparr>sh_db := sh_db sh'\<rparr> \<and> stored rt sh' = stored rt sh"
proof -
  obtain w0 p where h: "retagged_elsewhere merge_in rt w sh namespace v given = (w0, p)" by fastforce
  show ?thesis
  proof (cases p)
    case (Inl r')
    then show ?thesis using eq ns held h inv by (auto simp: admin_set_tags_def require_write_def)
  next
    case (Inr m)
    obtain w1 spread where sp: "spread_tags json_out (rt_net rt) w0 sh namespace v m = (w1, spread)" by fastforce
    obtain db1 consensus where cn: "Database_count (rt_env rt) (rt_disk rt) (rt_now rt) (sh_db sh) ALL_NAMESPACE v = (db1, consensus)" by fastforce
    obtain db2 view where vw: "Database_view (rt_env rt) (rt_disk rt) (rt_now rt) db1 namespace v consensus False = (db2, view)" by fastforce
    have "sh' = sh\<lparr>sh_db := db2\<rparr>" using eq ns held h Inr sp cn vw by (auto simp: admin_set_tags_def require_write_def Let_def)
    then show ?thesis using tags_answered [OF inv sp cn vw] by simp
  qed
qed


definition sample_stocked :: shared_state where
  "sample_stocked = sample_admin_state\<lparr>sh_db := fst sample_write\<rparr>"

lemma sample_stocked_ok: "state_inv sample_runtime sample_stocked" "tallies_ok sample_runtime sample_stocked"
proof -
  have "db_inv sample_env fmempty (fst sample_write)" using sample_write_inv by (rule inv_mono) simp
  then show "state_inv sample_runtime sample_stocked" by (simp add: sample_runtime_def sample_stocked_def)
  show "tallies_ok sample_runtime sample_stocked" using sample_write_ok by (simp add: sample_runtime_def sample_stocked_def)
qed

lemma sample_editable: "editable sample_stocked sample_admin_request ''feeds//a'' = Some ''feeds/a''"
proof -
  have "clean_namespace ''feeds//a'' = Inr ''feeds/a''" by code_simp
  moreover have "admin_caller sample_stocked sample_admin_request ''root''" "Acl_can_write (sh_acl sample_stocked) ''root'' ''feeds/a''"
    using sample_admin(2) sample_admin_writes by (simp_all add: sample_stocked_def admin_caller_def)
  ultimately show ?thesis by (auto simp: editable_def)
qed


section \<open>A paste is recorded or refused as one\<close>

definition paste_one :: "database \<Rightarrow> string \<Rightarrow> datetime \<Rightarrow> u64 option \<Rightarrow> string \<Rightarrow> string \<Rightarrow> logical \<Rightarrow> logical" where
  "paste_one db namespace at t given v C =
     (let C' = sighted_by db C (db_node db) namespace v at \<lparr>wo_consensus = True, wo_ttl = t\<rparr> given
      in if fmlookup (values_of C namespace) v = None then sighted_by db C' (db_node db) ALL_NAMESPACE v at WriteOpts_default [] else C')"

definition seen_in :: "logical \<Rightarrow> string \<Rightarrow> string \<Rightarrow> u64" where
  "seen_in C namespace v = Attribute_count (fm_get (Attribute_new v) (values_of C namespace) v)"

lemma sighted_at:
  "values_of (sighted_by db C node path v at opts given) path =
     fmupd v (stored_attr (sight (fm_get (Attribute_new v) (values_of C path) v) node at (write_ttl (db_policy_of db) path opts)
       (stats_retention (db_policy_of db)) given)) (values_of C path)"
  by (simp add: sighted_by_def sighted_def)

lemma values_of_other: "n \<noteq> path \<Longrightarrow> values_of (sighted_by db C node path v at opts given) n = values_of C n"
  by (simp add: sighted_by_def sighted_def)

lemma paste_seen:
  assumes "namespace \<noteq> ALL_NAMESPACE"
  shows "seen_in (paste_one db namespace at t given v C) namespace x = seen_in C namespace x + (if x = v then 1 else 0)"
  using assms by (auto simp: paste_one_def seen_in_def Let_def values_of_other sighted_at fm_get_def)

lemma paste_all_seen:
  assumes "namespace \<noteq> ALL_NAMESPACE"
  shows "seen_in (fold (paste_one db namespace at t given) vs C) namespace x = seen_in C namespace x + of_nat (count_list vs x)"
  by (induction vs arbitrary: C) (simp_all add: paste_seen [OF assms])

lemma paste_other:
  assumes "n \<noteq> namespace" "n \<noteq> ALL_NAMESPACE"
  shows "fold (paste_one db namespace at t given) vs C n = C n"
proof (induction vs arbitrary: C)
  case (Cons v vs)
  have "paste_one db namespace at t given v C n = C n" using assms by (simp add: paste_one_def Let_def sighted_other)
  then show ?case using Cons by simp
qed simp

lemma add_loop_recorded:
  assumes "state_inv rt sh" "\<not> is_internal namespace" "StoragePolicy_holds (db_stores (sh_db sh)) namespace" "\<forall>v \<in> set vs. v \<noteq> []"
    and "add_loop rt namespace when t given vs sh report = (sh', report')"
  shows "state_inv rt sh' \<and> same_setup (sh_db sh') (sh_db sh) \<and> sh' = sh\<lparr>sh_db := sh_db sh'\<rparr> \<and>
    stored rt sh' = fold (paste_one (sh_db sh) namespace (unwrap_or when (rt_now rt)) t given) vs (stored rt sh) \<and>
    wp_written report' = wp_written report + length vs \<and> wp_errors report' = wp_errors report \<and>
    map vn_value (wp_counts report') = map vn_value (wp_counts report) @ vs"
  using assms
proof (induction vs arbitrary: sh report)
  case (Cons v vs)
  obtain db r where w: "writer_write_tagged_as (rt_env rt) (rt_disk rt) (rt_now rt) (sh_db sh) None namespace v when t given = (db, r)"
    by fastforce
  note e = writer_effect [OF Cons.prems(1) w]
  have "check (sh_db sh) namespace v = Inr ()" using Cons.prems(2-4) by (simp add: check_def)
  then obtain wn where wn: "r = Inr wn" using e by (cases r) auto
  let ?r = "report\<lparr>wp_written := wp_written report + 1,
      wp_counts := wp_counts report @ [\<lparr>vn_value = v, vn_count = w_count wn, vn_new = w_new wn\<rparr>]\<rparr>"
  have stp: "same_setup db (sh_db sh)" and inv: "state_inv rt (sh\<lparr>sh_db := db\<rparr>)" using e wn by simp_all
  have st: "stored rt (sh\<lparr>sh_db := db\<rparr>) = paste_one (sh_db sh) namespace (unwrap_or when (rt_now rt)) t given v (stored rt sh)"
    using e wn by (simp add: paste_one_def unwrap_or_def Let_def)
  have same: "paste_one db = paste_one (sh_db sh)"
    using sighted_by_cong [OF stp] stp by (intro ext) (simp add: paste_one_def same_setup_def Let_def)
  have hold: "StoragePolicy_holds (db_stores (sh_db (sh\<lparr>sh_db := db\<rparr>))) namespace" using stp Cons.prems(3) by (simp add: same_setup_def)
  have loop: "add_loop rt namespace when t given vs (sh\<lparr>sh_db := db\<rparr>) ?r = (sh', report')"
    using Cons.prems(5) w wn by (simp add: writer_write_tagged_def)
  have "\<forall>v \<in> set vs. v \<noteq> []" using Cons.prems(4) by simp
  from Cons.IH [OF inv Cons.prems(2) hold this loop] st same stp show ?case by (auto intro: same_setup_trans)
qed simp

lemma add_loop_refused:
  assumes "\<not> is_internal namespace" "\<not> StoragePolicy_holds (db_stores (sh_db sh)) namespace" "\<forall>v \<in> set vs. v \<noteq> []"
    and "add_loop rt namespace when t given vs sh report = (sh', report')"
  shows "sh_db sh' = sh_db sh \<and> wp_written report' = wp_written report \<and> map fst (wp_errors report') = map fst (wp_errors report) @ vs"
  using assms
proof (induction vs arbitrary: sh report)
  case (Cons v vs)
  have c: "check (sh_db sh) namespace v = Inl (NotStored namespace)" using Cons.prems(1-3) by (simp add: check_def)
  let ?sh = "reject rt sh namespace v (ApiError_to_string (NotStored namespace)) SourceManagement"
  let ?r = "report\<lparr>wp_errors := wp_errors report @ [(v, ApiError_to_string (NotStored namespace))]\<rparr>"
  have loop: "add_loop rt namespace when t given vs ?sh ?r = (sh', report')"
    using Cons.prems(4) c by (simp add: writer_write_tagged_def writer_write_tagged_as_def)
  have db: "sh_db ?sh = sh_db sh" by (simp add: reject_def)
  have "\<not> StoragePolicy_holds (db_stores (sh_db ?sh)) namespace" "\<forall>v \<in> set vs. v \<noteq> []" using Cons.prems(2,3) db by simp_all
  from Cons.IH [OF Cons.prems(1) this loop] db show ?case by simp
qed simp

text \<open>
  C30. Values pasted into the management interface are recorded all together or not at all. When the answer is a
  success, every line that is not blank has been counted once more in the cleaned namespace for each time it occurs,
  the report lists them in order and no error, and no other namespace but the tally of all values has changed; any
  other answer leaves everything stored as it was. Only an admin key that may write the namespace gets so far.
\<close>
theorem paste_is_all_or_nothing:
  assumes "state_inv rt sh" and "add_values rt sh req given = (sh', r)"
  shows "state_inv rt sh' \<and>
    (if re_status r = 200
     then \<exists>namespace report. editable sh req (nv_namespace given) = Some namespace \<and> re_body r = Written report \<and>
       sh' = sh\<lparr>sh_db := sh_db sh'\<rparr> \<and>
       wp_written report = length (pasted (nv_values given)) \<and> wp_errors report = [] \<and>
       map vn_value (wp_counts report) = pasted (nv_values given) \<and>
       (\<forall>v. seen_in (stored rt sh') namespace v = seen_in (stored rt sh) namespace v + of_nat (count_list (pasted (nv_values given)) v)) \<and>
       (\<forall>n. n \<noteq> namespace \<and> n \<noteq> ALL_NAMESPACE \<longrightarrow> stored rt sh' n = stored rt sh n)
     else sh_db sh' = sh_db sh)"
proof (cases "editable sh req (nv_namespace given)")
  case None
  then have "sh' = sh \<and> re_status r \<in> {400, 401, 403}"
    by (rule editable_None) (use assms(2) in \<open>auto simp: add_values_def require_write_def say_def\<close>)
  then show ?thesis using assms(1) by auto
next
  case (Some namespace)
  then obtain caller where c: "require_admin sh req = Inr caller" "clean_namespace (nv_namespace given) = Inr namespace"
      "Acl_can_write (sh_acl sh) caller namespace" by (rule editable_Some)
  note n = cleaned_counts [OF c(2)]
  let ?vs = "pasted (nv_values given)" let ?r0 = "\<lparr>wp_namespace = namespace, wp_written = 0, wp_counts = [], wp_errors = []\<rparr>"
  have ne: "\<forall>v \<in> set ?vs. v \<noteq> []" by (simp add: pasted_def)
  consider e where "instant_of rt (nv_timestamp given) = Inl e" | "?vs = []"
    | at where "instant_of rt (nv_timestamp given) = Inr at" "?vs \<noteq> []" by (metis sum.exhaust)
  then show ?thesis
  proof cases
    case (3 at)
    obtain sh1 report where l: "add_loop rt namespace at (nv_ttl given) (nv_tags given) ?vs sh ?r0 = (sh1, report)" by fastforce
    have out: "sh' = sh1" "r = \<lparr>re_status = (if wp_written report = 0 then 400 else 200), re_body = Written report\<rparr>"
      using assms(2) c 3 l by (auto simp: add_values_def require_write_def Let_def)
    show ?thesis
    proof (cases "StoragePolicy_holds (db_stores (sh_db sh)) namespace")
      case True
      note e = add_loop_recorded [OF assms(1) n(2) True ne l]
      have written: "wp_written report = length ?vs" "length ?vs > 0" using e 3 by simp_all
      show ?thesis using e written n(3) Some paste_all_seen paste_other unfolding out by simp
    next
      case False
      then show ?thesis using add_loop_refused [OF n(2) False ne l] assms(1) out by simp
    qed
  qed (use assms c in \<open>auto simp: add_values_def require_write_def say_def Let_def split: sum.splits\<close>)
qed

definition sample_paste :: new_values where
  "sample_paste = \<lparr>nv_namespace = ''feeds//a'', nv_values = ['' v '', [], ''w'', ''v''], nv_timestamp = None, nv_ttl = None, nv_tags = []\<rparr>"

theorem paste_is_all_or_nothing_witness:
  "\<exists>sh' r. add_values sample_runtime sample_stocked sample_admin_request sample_paste = (sh', r) \<and> state_inv sample_runtime sh' \<and>
     (re_status r = 200 \<longrightarrow> seen_in (stored sample_runtime sh') ''feeds/a'' ''v'' = seen_in (stored sample_runtime sample_stocked) ''feeds/a'' ''v'' + 2)"
proof -
  obtain sh' r where h: "add_values sample_runtime sample_stocked sample_admin_request sample_paste = (sh', r)" by fastforce
  have n: "nv_namespace sample_paste = ''feeds//a''" "count_list (pasted (nv_values sample_paste)) ''v'' = 2" by code_simp+
  note t = paste_is_all_or_nothing [OF sample_stocked_ok(1) h, unfolded n(1) sample_editable]
  then have "re_status r = 200 \<longrightarrow> seen_in (stored sample_runtime sh') ''feeds/a'' ''v'' = seen_in (stored sample_runtime sample_stocked) ''feeds/a'' ''v'' + 2"
    using n(2) by auto
  then show ?thesis using t h by blast
qed

end
