(* ===== verification/Admin_Peers.thy ===== *)
theory Admin_Peers
  imports Admin
begin

text \<open>
  The part of \<^verbatim>\<open>src/src/admin/mod.rs\<close> behind \<^verbatim>\<open>/_management/api/galaxy/peers\<close> and \<^verbatim>\<open>/_management/api/tier\<close>: listing, adding,
  changing, removing, enabling and disabling peers, which are in effect before they are written to the file of
  peers, and changing how a shard is kept in memory.
\<close>

section \<open>Peers\<close>

definition list_peers :: "shared_state \<Rightarrow> http_in \<Rightarrow> reply" where
  "list_peers sh req =
     (case require_admin sh req of
        Inl r \<Rightarrow> r
      | Inr _ \<Rightarrow>
          (case sh_galaxy sh of
             None \<Rightarrow>
               ok (Peers \<lparr>pv_peers = [], pv_editable = False,
                 pv_note = Some (''This server has no [galaxy] section, so it has no peers to manage. Add '' @
                   ''one with a peers_file and restart; `sightingdb --setup` writes both.'')\<rparr>)
           | Some g \<Rightarrow>
               let health = fold (\<lambda>h m. fmupd (ph_url h) h m) (Galaxy_health g) fmempty;
                   rows = map (\<lambda>p. \<lparr>pw_url = p_url p,
                        pw_namespaces = (if StoragePolicy_stores_everything (p_stores p) then None else Some (sp_prefixes (p_stores p))),
                        pw_fixed = Galaxy_is_fixed g (p_url p), pw_enabled = p_enabled p,
                        pw_health = fm_get (PeerHealth_unprobed (p_url p)) health (p_url p)\<rparr>) (Galaxy_all_peers g);
                   can_edit = (sh_galaxy_peers_file sh \<noteq> None)
               in ok (Peers \<lparr>pv_peers = rows, pv_editable = can_edit,
                    pv_note = (if can_edit then None
                               else Some (''No peers_file is configured, so peers cannot be edited here. Set '' @
                                 ''peers_file in [galaxy] and restart.''))\<rparr>)))"

definition peers_file :: "shared_state \<Rightarrow> reply + string" where
  "peers_file sh =
     (if sh_galaxy sh = None
      then Inl (say 409 (''This server has no [galaxy] section, so it has no galaxy to add to. Add one '' @ ''with a peers_file and restart.''))
      else case sh_galaxy_peers_file sh of
             None \<Rightarrow> Inl (say 409 (''No peers_file is configured, so peers cannot be edited here. Set peers_file '' @ ''in [galaxy] and restart.''))
           | Some path \<Rightarrow> Inr path)"

definition save_peers :: "file_io \<Rightarrow> texts \<Rightarrow> shared_state \<Rightarrow> texts \<times> reply option" where
  "save_peers io files sh =
     (case peers_file sh of
        Inl r \<Rightarrow> (files, Some r)
      | Inr path \<Rightarrow>
          (case sh_galaxy sh of
             None \<Rightarrow> (files, None)
           | Some g \<Rightarrow>
               (case replace_file io files path (PeersFile_to_toml (Galaxy_editable_peers g)) of
                  (files, Some e) \<Rightarrow>
                    (files, Some (say 500 (''The galaxy was changed and is in effect now, but '' @ path @ '' could not be written, '' @
                       ''so the change will be lost on restart: '' @ e)))
                | (files, None) \<Rightarrow> (files, None))))"

text \<open>Writing the file, then answering with the list: how every change ends.\<close>

definition saved_peers :: "file_io \<Rightarrow> texts \<Rightarrow> shared_state \<Rightarrow> http_in \<Rightarrow> texts \<times> shared_state \<times> reply" where
  "saved_peers io files sh req =
     (case save_peers io files sh of
        (files, Some r) \<Rightarrow> (files, sh, r)
      | (files, None) \<Rightarrow> (files, sh, list_peers sh req))"

record peer_change =
  pc_url :: string
  pc_key :: string
  pc_namespaces :: "string list option"

definition save_peer ::
  "file_io \<Rightarrow> texts \<Rightarrow> shared_state \<Rightarrow> http_in \<Rightarrow> peer_change \<Rightarrow> bool \<Rightarrow> texts \<times> shared_state \<times> reply" where
  "save_peer io files sh req change replacing =
     (case require_admin sh req of
        Inl r \<Rightarrow> (files, sh, r)
      | Inr caller \<Rightarrow>
          (case peers_file sh of
             Inl r \<Rightarrow> (files, sh, r)
           | Inr _ \<Rightarrow>
               (case sh_galaxy sh of
                  None \<Rightarrow> (files, sh, say 409 ''This server has no galaxy.'')
                | Some g \<Rightarrow>
                    let namespaces = (case pc_namespaces change of Some [] \<Rightarrow> None | n \<Rightarrow> n);
                        enabled = (case find (\<lambda>known. p_url known = clean_url (pc_url change)) (Galaxy_all_peers g) of
                                     None \<Rightarrow> True | Some known \<Rightarrow> p_enabled known)
                    in case validated_peer (pc_url change) (pc_key change) namespaces enabled of
                         Inl e \<Rightarrow> (files, sh, \<lparr>re_status = 400, re_body = BadPeer e\<rparr>)
                       | Inr p \<Rightarrow>
                           if Galaxy_is_fixed g (p_url p)
                           then (files, sh, say 409 (p_url p @ '' is declared in the configuration file. Change it there, or remove it '' @
                                  ''from [galaxy] peers to manage it here.''))
                           else if replacing
                           then (case Galaxy_update_peer g p of
                                   (g, None) \<Rightarrow> (files, sh\<lparr>sh_galaxy := Some g\<rparr>, say 404 (p_url p @ '' is not in this galaxy. Add it instead.''))
                                 | (g, Some _) \<Rightarrow> saved_peers io files (sh\<lparr>sh_galaxy := Some g\<rparr>) req)
                           else (case Galaxy_add_peer g p (sh_listen sh) of
                                   (g, Inl (Invalid m)) \<Rightarrow> (files, sh\<lparr>sh_galaxy := Some g\<rparr>, say 400 m)
                                 | (g, Inl (AlreadyThere m)) \<Rightarrow> (files, sh\<lparr>sh_galaxy := Some g\<rparr>, say 409 m)
                                 | (g, Inr _) \<Rightarrow> saved_peers io files (sh\<lparr>sh_galaxy := Some g\<rparr>) req))))"

definition add_peer :: "file_io \<Rightarrow> texts \<Rightarrow> shared_state \<Rightarrow> http_in \<Rightarrow> peer_change \<Rightarrow> texts \<times> shared_state \<times> reply" where
  "add_peer io files sh req change = save_peer io files sh req change False"

definition update_peer :: "file_io \<Rightarrow> texts \<Rightarrow> shared_state \<Rightarrow> http_in \<Rightarrow> peer_change \<Rightarrow> texts \<times> shared_state \<times> reply" where
  "update_peer io files sh req change = save_peer io files sh req change True"

definition delete_peer :: "file_io \<Rightarrow> texts \<Rightarrow> shared_state \<Rightarrow> http_in \<Rightarrow> string \<Rightarrow> texts \<times> shared_state \<times> reply" where
  "delete_peer io files sh req url =
     (case require_admin sh req of
        Inl r \<Rightarrow> (files, sh, r)
      | Inr caller \<Rightarrow>
          (case peers_file sh of
             Inl r \<Rightarrow> (files, sh, r)
           | Inr _ \<Rightarrow>
               (case sh_galaxy sh of
                  None \<Rightarrow> (files, sh, say 409 ''This server has no galaxy.'')
                | Some g \<Rightarrow>
                    if Galaxy_is_fixed g url
                    then (files, sh, say 409 (url @ '' is declared in the configuration file, so removing it here would not '' @
                           ''last: it would come back at the next restart. Remove it from [galaxy] '' @ ''peers instead.''))
                    else case Galaxy_remove_peer g url of
                           (g, False) \<Rightarrow> (files, sh\<lparr>sh_galaxy := Some g\<rparr>, say 404 ''No such peer.'')
                         | (g, True) \<Rightarrow> saved_peers io files (sh\<lparr>sh_galaxy := Some g\<rparr>) req)))"

definition set_peer_enabled :: "file_io \<Rightarrow> texts \<Rightarrow> shared_state \<Rightarrow> http_in \<Rightarrow> string \<Rightarrow> bool \<Rightarrow> texts \<times> shared_state \<times> reply" where
  "set_peer_enabled io files sh req url enabled =
     (case require_admin sh req of
        Inl r \<Rightarrow> (files, sh, r)
      | Inr caller \<Rightarrow>
          (case peers_file sh of
             Inl r \<Rightarrow> (files, sh, r)
           | Inr _ \<Rightarrow>
               (case sh_galaxy sh of
                  None \<Rightarrow> (files, sh, say 409 ''This server has no galaxy.'')
                | Some g \<Rightarrow>
                    if Galaxy_is_fixed g url
                    then (files, sh, say 409 (url @ '' is declared in the configuration file, so disabling it here would '' @
                           ''not last: it would come back at the next restart. Set enabled = false '' @ ''on it in [galaxy] peers instead.''))
                    else case Galaxy_set_enabled g url enabled of
                           (g, None) \<Rightarrow> (files, sh\<lparr>sh_galaxy := Some g\<rparr>, say 404 ''No such peer.'')
                         | (g, Some _) \<Rightarrow> saved_peers io files (sh\<lparr>sh_galaxy := Some g\<rparr>) req)))"

section \<open>Tiers\<close>

record tier_change =
  tc_namespace :: string
  tc_tier :: "string option"
  tc_warm_idle :: "json option"

definition says_nothing :: "string \<Rightarrow> bool" where
  "says_nothing s \<longleftrightarrow> s = [] \<or> s = ''default'' \<or> s = ''inherit''"

definition TierChange_tier :: "tier_change \<Rightarrow> tier_change_error + tier option" where
  "TierChange_tier c =
     (case map_option trim (tc_tier c) of
        None \<Rightarrow> Inr None
      | Some s \<Rightarrow>
          if says_nothing s then Inr None
          else case Tier_parse s of Inl e \<Rightarrow> Inl (TierUnknown e) | Inr t \<Rightarrow> Inr (Some t))"

definition TierChange_warm_idle :: "tier_change \<Rightarrow> tier_change_error + u64 option" where
  "TierChange_warm_idle c =
     (case tc_warm_idle c of
        None \<Rightarrow> Inr None
      | Some JNull \<Rightarrow> Inr None
      | Some (JNum i) \<Rightarrow> if 0 \<le> i \<and> i < 2 ^ 64 then Inr (Some (of_int i)) else Inl WarmIdleNegative
      | Some (JFloat _) \<Rightarrow> Inl WarmIdleNegative
      | Some (JStr s) \<Rightarrow>
          let s = trim s
          in if says_nothing s then Inr None
             else (case u64_from_str s of Some n \<Rightarrow> Inr (Some n) | None \<Rightarrow> Inl (WarmIdleText s))
      | Some other \<Rightarrow> Inl (WarmIdleShape other))"

definition TierChange_entry :: "tier_change \<Rightarrow> tier_change_error + tier_entry" where
  "TierChange_entry c =
     (case TierChange_tier c of
        Inl e \<Rightarrow> Inl e
      | Inr t \<Rightarrow> (case TierChange_warm_idle c of Inl e \<Rightarrow> Inl e | Inr w \<Rightarrow> Inr \<lparr>e_tier = t, e_warm_idle = w\<rparr>))"

definition TierPolicy_save :: "file_io \<Rightarrow> texts \<Rightarrow> string \<Rightarrow> tier_policy \<Rightarrow> texts \<times> string option" where
  "TierPolicy_save io files path p = replace_file_saying io files path (TierPolicy_body p)"

definition tier_json :: "string \<Rightarrow> resolved \<Rightarrow> json" where
  "tier_json shard r =
     JObj [(''namespace'', JStr shard), (''tier'', JStr (Tier_as_str (r_tier r))), (''warm_idle'', JNum (uint (r_warm_idle r)))]"

definition gossip_tier :: "(json \<Rightarrow> string) \<Rightarrow> 'w network \<Rightarrow> 'w \<Rightarrow> shared_state \<Rightarrow> http_in \<Rightarrow> json \<Rightarrow> 'w" where
  "gossip_tier json_out net w sh req change =
     (case sh_galaxy sh of
        None \<Rightarrow> w
      | Some g \<Rightarrow>
          (case hops_left (hr_headers req) (g_max_hops g) of
             None \<Rightarrow> w
           | Some hops \<Rightarrow> fst (Galaxy_push_tier json_out net g w change hops)))"

definition set_tier ::
  "(json \<Rightarrow> string) \<Rightarrow> file_io \<Rightarrow> 'w network \<Rightarrow> 'w \<Rightarrow> texts \<Rightarrow> shared_state \<Rightarrow> http_in \<Rightarrow> tier_change \<Rightarrow> 'w \<times> texts \<times> shared_state \<times> reply" where
  "set_tier json_out io net w files sh req change =
     (case require_admin sh req of
        Inl r \<Rightarrow> (w, files, sh, r)
      | Inr caller \<Rightarrow>
          let namespace = trim_matches CHR ''/'' (trim (tc_namespace change))
          in if namespace = [] then (w, files, sh, say 400 ''Name the namespace to change.'')
             else if starts_with namespace ''_'' then (w, files, sh, say 400 ''Internal namespaces are always hot and cannot be retiered.'')
             else case TierChange_entry change of
                    Inl e \<Rightarrow> (w, files, sh, \<lparr>re_status = 400, re_body = BadTierChange e\<rparr>)
                  | Inr entry \<Rightarrow>
                      (case require_write sh caller namespace of
                         Inl r \<Rightarrow> (w, files, sh, r)
                       | Inr _ \<Rightarrow>
                           (case sh_tiers_file sh of
                              None \<Rightarrow> (w, files, sh, say 409 (''No tiers_file is configured, so tiers cannot be changed here. Set tiers_file in '' @
                                        ''[storage] and restart.''))
                            | Some path \<Rightarrow>
                                let shard = shard_of namespace;
                                    sh = sh\<lparr>sh_db := Database_set_policy (sh_db sh) shard entry\<rparr>
                                in case TierPolicy_save io files path (db_tiers (sh_db sh)) of
                                     (files, Some e) \<Rightarrow> (w, files, sh, say 500 (''Could not write the tier file: '' @ e))
                                   | (files, None) \<Rightarrow>
                                       let r = Database_resolved_policy (sh_db sh) shard
                                       in (gossip_tier json_out net w sh req (tier_json shard r), files, sh,
                                           ok (TierSet \<lparr>ts_shard = shard, ts_tier = Tier_as_str (r_tier r), ts_warm_idle = r_warm_idle r,
                                             ts_own_tier = (own_tier r \<noteq> None), ts_own_warm_idle = (own_warm_idle r \<noteq> None),
                                             ts_effect = Database_shard_effect (sh_db sh) shard\<rparr>)))))"

section \<open>What a change of the peers does\<close>

text \<open>The peers of the configuration file come first and never change; those of the interface follow.\<close>

definition kept :: "peer list \<Rightarrow> peer list \<Rightarrow> galaxy \<Rightarrow> bool" where
  "kept F E g \<longleftrightarrow> g_peers g = F @ E \<and> g_fixed g = map p_url F \<and> distinct (map p_url (F @ E)) \<and> (\<forall>p \<in> set (F @ E). peer_ok p)"

lemma kept_fixed: "kept F E g \<Longrightarrow> Galaxy_is_fixed g url \<longleftrightarrow> clean_url url \<in> p_url ` set F"
  by (auto simp: kept_def Galaxy_is_fixed_def list_ex_iff)

lemma peer_ok_url: "peer_ok p \<Longrightarrow> clean_url (p_url p) = p_url p"
  by (simp add: peer_ok_def settled_url_def)

lemma peer_ok_key: "peer_ok p \<Longrightarrow> trim (p_key p) = p_key p \<and> p_key p \<noteq> []"
proof -
  assume "peer_ok p"
  then have v: "validated_peer (p_url p) (p_key p) (if sp_everything (p_stores p) then None else Some (sp_prefixes (p_stores p)))
      (p_enabled p) = Inr p" by (simp add: peer_ok_def)
  have "p_key q = trim k \<and> trim k \<noteq> []" if "validated_peer u k n b = Inr q" for u k n b q
    using that by (auto simp: validated_peer_def Let_def split: if_splits sum.splits)
  from this [OF v] show ?thesis by metis
qed

lemma kept_editable:
  assumes "kept F E g"
  shows "Galaxy_editable_peers g = E"
proof -
  have disj: "p_url ` set F \<inter> p_url ` set E = {}" using assms by (simp add: kept_def)
  have fixed: "Galaxy_is_fixed g (p_url p) \<longleftrightarrow> p_url p \<in> p_url ` set F" if "p \<in> set (F @ E)" for p
  proof -
    have "clean_url (p_url p) = p_url p" using assms that peer_ok_url by (auto simp: kept_def)
    then show ?thesis by (simp add: kept_fixed [OF assms])
  qed
  have "filter (\<lambda>p. \<not> Galaxy_is_fixed g (p_url p)) F = []" "filter (\<lambda>p. \<not> Galaxy_is_fixed g (p_url p)) E = E"
    using fixed disj by (auto simp: filter_empty_conv filter_id_conv)
  then show ?thesis using assms by (simp add: Galaxy_editable_peers_def Galaxy_all_peers_def kept_def)
qed

lemma update_first_tail:
  "\<forall>x \<in> set F. \<not> P x \<Longrightarrow> update_first P f (F @ E) = Some (ys, y) \<Longrightarrow>
   \<exists>E1 x E2. E = E1 @ x # E2 \<and> P x \<and> ys = F @ E1 @ f x # E2"
proof (induction F arbitrary: ys)
  case Nil
  have "update_first P f E = Some (ys, y) \<Longrightarrow> \<exists>E1 x E2. E = E1 @ x # E2 \<and> P x \<and> ys = E1 @ f x # E2"
  proof (induction E arbitrary: ys)
    case (Cons e E)
    show ?case
    proof (cases "P e")
      case True
      then show ?thesis using Cons.prems by (intro exI [of _ "[]"]) auto
    next
      case False
      then obtain zs where zs: "update_first P f E = Some (zs, y)" "ys = e # zs" using Cons.prems by (auto split: option.splits)
      then obtain E1 x E2 where "E = E1 @ x # E2" "P x" "zs = E1 @ f x # E2" using Cons.IH by blast
      then show ?thesis using zs by (intro exI [of _ "e # E1"]) auto
    qed
  qed simp
  then show ?case using Nil by simp
next
  case (Cons a F)
  then show ?case by (auto split: option.splits)
qed

lemma kept_update:
  assumes k: "kept F E g" and u: "update_first (\<lambda>x. p_url x = url) f (g_peers g) = Some (peers, y)"
    and url: "url \<notin> p_url ` set F" and f: "\<And>x. p_url x = url \<Longrightarrow> peer_ok x \<Longrightarrow> p_url (f x) = url \<and> peer_ok (f x)"
  shows "\<exists>E'. kept F E' (g\<lparr>g_peers := peers, g_health := h\<rparr>)"
proof -
  have F: "g_peers g = F @ E" "\<forall>x \<in> set F. p_url x \<noteq> url" using k url by (auto simp: kept_def)
  obtain E1 x E2 where E: "E = E1 @ x # E2" "p_url x = url" "peers = F @ E1 @ f x # E2"
    using update_first_tail [OF F(2), of f E peers y] u F(1) by auto
  have "peer_ok x" using k E by (simp add: kept_def)
  then have fx: "p_url (f x) = p_url x" "peer_ok (f x)" using f E(2) by auto
  have "kept F (E1 @ f x # E2) (g\<lparr>g_peers := peers, g_health := h\<rparr>)" using k E fx by (auto simp: kept_def)
  then show ?thesis by blast
qed

lemma kept_cong: "g_peers g' = g_peers g \<Longrightarrow> g_fixed g' = g_fixed g \<Longrightarrow> kept F E g' = kept F E g"
  by (simp add: kept_def)

lemma add_peer_kept:
  assumes "kept F E g" "peer_ok p" "Galaxy_add_peer g p own = (g', r)"
  shows "case r of Inl _ \<Rightarrow> g' = g | Inr _ \<Rightarrow> kept F (E @ [p]) g'"
proof -
  have p: "p\<lparr>p_url := clean_url (p_url p), p_key := trim (p_key p)\<rparr> = p" using peer_ok_url peer_ok_key assms(2) by simp
  show ?thesis
  proof (cases r)
    case (Inr q)
    have out: "g' = g\<lparr>g_peers := g_peers g @ [p]\<rparr>" "\<not> list_ex (\<lambda>known. p_url known = p_url p) (g_peers g)"
      using assms(3) Inr unfolding Galaxy_add_peer_def p Let_def by (auto split: if_splits)
    then have "p_url p \<notin> p_url ` set (F @ E)" using assms(1) unfolding kept_def list_ex_iff by (metis (no_types, lifting) imageE)
    then show ?thesis using assms(1,2) Inr out(1) by (auto simp: kept_def)
  qed (use assms(3) in \<open>auto simp: Galaxy_add_peer_def Let_def split: if_splits\<close>)
qed

lemma update_peer_kept:
  assumes "kept F E g" "peer_ok p" "Galaxy_update_peer g p = (g', r)" "p_url p \<notin> p_url ` set F"
  shows "case r of None \<Rightarrow> g' = g | Some _ \<Rightarrow> \<exists>E'. kept F E' g'"
proof -
  have p: "p\<lparr>p_url := clean_url (p_url p), p_key := trim (p_key p)\<rparr> = p" "p_key p \<noteq> []" using peer_ok_url peer_ok_key assms(2) by simp_all
  show ?thesis
  proof (cases "update_first (\<lambda>known. p_url known = p_url p) (\<lambda>_. p) (g_peers g)")
    case None
    then show ?thesis using assms(3) p unfolding Galaxy_update_peer_def p Let_def by auto
  next
    case (Some yy)
    obtain peers y where y: "yy = (peers, y)" by fastforce
    have out: "g' = g\<lparr>g_peers := peers\<rparr>" "r = Some y" using assms(3) p Some y unfolding Galaxy_update_peer_def p Let_def by auto
    obtain E' where "kept F E' (g\<lparr>g_peers := peers, g_health := g_health g\<rparr>)"
      using kept_update [OF assms(1) Some [unfolded y] assms(4)] assms(2) by blast
    then show ?thesis using out by (auto simp: kept_def)
  qed
qed

lemma validated_enabled:
  "validated_peer u k n b = Inr q \<Longrightarrow> validated_peer u k n b' = Inr (q\<lparr>p_enabled := b'\<rparr>)"
  by (auto simp: validated_peer_def Let_def split: if_splits sum.splits)

lemma set_enabled_kept:
  assumes "kept F E g" "Galaxy_set_enabled g url b = (g', r)" "clean_url url \<notin> p_url ` set F"
  shows "case r of None \<Rightarrow> g' = g | Some _ \<Rightarrow> \<exists>E'. kept F E' g'"
proof (cases "update_first (\<lambda>p. p_url p = clean_url url) (\<lambda>p. p\<lparr>p_enabled := b\<rparr>) (g_peers g)")
  case None
  then show ?thesis using assms(2) by (auto simp: Galaxy_set_enabled_def Let_def)
next
  case (Some yy)
  obtain peers y where y: "yy = (peers, y)" by fastforce
  have out: "g' = g\<lparr>g_peers := peers, g_health := fmdrop (clean_url url) (g_health g)\<rparr>" "r = Some y"
    using assms(2) Some y by (auto simp: Galaxy_set_enabled_def Let_def)
  have "peer_ok (x\<lparr>p_enabled := b\<rparr>)" if "peer_ok x" for x
    using that validated_enabled by (auto simp: peer_ok_def)
  then have "\<exists>E'. kept F E' (g\<lparr>g_peers := peers, g_health := fmdrop (clean_url url) (g_health g)\<rparr>)"
    by (intro kept_update [OF assms(1) Some [unfolded y] assms(3)]) simp
  then show ?thesis using out by simp
qed

lemma remove_peer_kept:
  assumes "kept F E g" "Galaxy_remove_peer g url = (g', b)" "clean_url url \<notin> p_url ` set F"
  shows "(\<exists>E'. kept F E' g') \<and> (\<not> b \<longrightarrow> g' = g)"
proof -
  have F: "filter (\<lambda>p. p_url p \<noteq> clean_url url) F = F" using assms(3) by (metis (mono_tags, lifting) filter_True image_eqI)
  let ?E = "filter (\<lambda>p. p_url p \<noteq> clean_url url) E"
  have "kept F ?E g'" using assms(1,2) F by (auto simp: kept_def Galaxy_remove_peer_def Let_def distinct_map_filter split: if_splits)
  moreover have "g' = g" if "\<not> b"
  proof -
    have "length (filter (\<lambda>p. p_url p \<noteq> clean_url url) (g_peers g)) = length (g_peers g)"
      using assms(2) that by (auto simp: Galaxy_remove_peer_def Let_def split: if_splits)
    then have "filter (\<lambda>p. p_url p \<noteq> clean_url url) (g_peers g) = g_peers g" by (metis filter_True length_filter_less nat_neq_iff)
    then show ?thesis using assms(2) that by (auto simp: Galaxy_remove_peer_def Let_def split: if_splits)
  qed
  ultimately show ?thesis by blast
qed

section \<open>The galaxy survives a restart\<close>

text \<open>The file holds the peers of the interface, or still what the server started from.\<close>

definition peers_inv :: "peer list \<Rightarrow> string \<Rightarrow> string option \<Rightarrow> peer list \<Rightarrow> texts \<Rightarrow> shared_state \<Rightarrow> bool" where
  "peers_inv F path held started files sh \<longleftrightarrow> sh_galaxy_peers_file sh = Some path \<and>
     (\<exists>g E. sh_galaxy sh = Some g \<and> kept F E g \<and>
        (fmlookup files path = Some (PeersFile_to_toml E) \<or> fmlookup files path = held \<and> F @ E = started))"

lemma saved_peers_result:
  assumes "saved_peers io files sh req = (files', sh', r)" "sh_galaxy sh = Some g" "sh_galaxy_peers_file sh = Some path" "re_status r \<noteq> 500"
  shows "sh' = sh \<and> fmlookup files' path = Some (PeersFile_to_toml (Galaxy_editable_peers g))"
proof -
  obtain f e where w: "replace_file io files path (PeersFile_to_toml (Galaxy_editable_peers g)) = (f, e)" by fastforce
  show ?thesis
  proof (cases e)
    case None
    then show ?thesis using assms w whole.put_done by (auto simp: saved_peers_def save_peers_def peers_file_def)
  next
    case (Some m)
    then show ?thesis using assms w by (auto simp: saved_peers_def save_peers_def peers_file_def say_def)
  qed
qed

lemma peers_inv_saved:
  assumes "peers_inv F path held started files sh" "kept F E' g'"
    and "saved_peers io files (sh\<lparr>sh_galaxy := Some g'\<rparr>) req = (files', sh', r)" "re_status r \<noteq> 500"
  shows "peers_inv F path held started files' sh'"
proof -
  have "sh_galaxy_peers_file sh = Some path" using assms(1) by (simp add: peers_inv_def)
  then have "sh' = sh\<lparr>sh_galaxy := Some g'\<rparr> \<and> fmlookup files' path = Some (PeersFile_to_toml E')"
    using saved_peers_result [OF assms(3)] assms(4) kept_editable [OF assms(2)] by simp
  then show ?thesis using assms(1,2) by (auto simp: peers_inv_def)
qed

lemma save_peer_keeps:
  assumes inv: "peers_inv F path held started files sh" and eq: "save_peer io files sh req change replacing = (files', sh', r)"
    and ok: "re_status r \<noteq> 500" and s: "settled_url (clean_url (pc_url change))"
  shows "peers_inv F path held started files' sh'"
proof (cases "require_admin sh req")
  case (Inl e)
  then show ?thesis using inv eq by (auto simp: save_peer_def)
next
  case (Inr caller)
  obtain g E where g: "sh_galaxy sh = Some g" "kept F E g" and pf: "peers_file sh = Inr path"
    using inv by (auto simp: peers_inv_def peers_file_def)
  define ns where "ns = (case pc_namespaces change of Some [] \<Rightarrow> None | n \<Rightarrow> n)"
  define en where "en = (case find (\<lambda>known. p_url known = clean_url (pc_url change)) (Galaxy_all_peers g) of None \<Rightarrow> True | Some known \<Rightarrow> p_enabled known)"
  have same: "sh\<lparr>sh_galaxy := Some g\<rparr> = sh" using g(1) by simp
  show ?thesis
  proof (cases "validated_peer (pc_url change) (pc_key change) ns en")
    case v: (Inl e)
    then show ?thesis using inv eq Inr g pf by (auto simp: save_peer_def ns_def [symmetric] en_def [symmetric] Let_def)
  next
    case v: (Inr p)
    note p = validated_peer_ok [OF v s]
    note eq' = eq [unfolded save_peer_def Inr pf g(1) sum.case option.case ns_def [symmetric] en_def [symmetric] Let_def v]
    show ?thesis
    proof (cases "Galaxy_is_fixed g (p_url p)")
      case True
      then show ?thesis using inv eq' by auto
    next
      case fixed: False
      then have new: "p_url p \<notin> p_url ` set F" using kept_fixed [OF g(2)] peer_ok_url [OF p(1)] by simp
      show ?thesis
      proof (cases replacing)
        case True
        obtain g' u where u: "Galaxy_update_peer g p = (g', u)" by fastforce
        note k = update_peer_kept [OF g(2) p(1) u new]
        show ?thesis
        proof (cases u)
          case None
          then have "sh' = sh" "files' = files" using eq' fixed True u k same by auto
          then show ?thesis using inv by simp
        next
          case (Some y)
          then show ?thesis using eq' fixed True u k peers_inv_saved [OF inv _ _ ok] by auto
        qed
      next
        case False
        obtain g' a where a: "Galaxy_add_peer g p (sh_listen sh) = (g', a)" by fastforce
        note k = add_peer_kept [OF g(2) p(1) a]
        show ?thesis
        proof (cases a)
          case (Inl e)
          then have "g' = g" using k by simp
          then have "sh' = sh \<and> files' = files" using eq' fixed False a Inl same by (cases e) simp_all
          then show ?thesis using inv by simp
        next
          case (Inr q)
          then have "saved_peers io files (sh\<lparr>sh_galaxy := Some g'\<rparr>) req = (files', sh', r)" using eq' fixed False a by simp
          then show ?thesis using peers_inv_saved [OF inv _ _ ok] k Inr by simp
        qed
      qed
    qed
  qed
qed

lemma delete_peer_keeps:
  assumes inv: "peers_inv F path held started files sh" and eq: "delete_peer io files sh req url = (files', sh', r)" and ok: "re_status r \<noteq> 500"
  shows "peers_inv F path held started files' sh'"
proof (cases "require_admin sh req")
  case (Inl e)
  then show ?thesis using inv eq by (auto simp: delete_peer_def)
next
  case (Inr caller)
  obtain g E where g: "sh_galaxy sh = Some g" "kept F E g" and pf: "peers_file sh = Inr path"
    using inv by (auto simp: peers_inv_def peers_file_def)
  obtain g' b where b: "Galaxy_remove_peer g url = (g', b)" by fastforce
  have same: "sh\<lparr>sh_galaxy := Some g\<rparr> = sh" using g(1) by simp
  note eq' = eq [unfolded delete_peer_def Inr pf g(1) sum.case option.case b prod.case]
  show ?thesis
  proof (cases "Galaxy_is_fixed g url")
    case False
    then have "clean_url url \<notin> p_url ` set F" using kept_fixed [OF g(2)] by simp
    note k = remove_peer_kept [OF g(2) b this]
    then show ?thesis using eq' False inv same peers_inv_saved [OF inv _ _ ok] by (cases b) auto
  qed (use inv eq' in auto)
qed

lemma set_peer_enabled_keeps:
  assumes inv: "peers_inv F path held started files sh" and eq: "set_peer_enabled io files sh req url on = (files', sh', r)"
    and ok: "re_status r \<noteq> 500"
  shows "peers_inv F path held started files' sh'"
proof (cases "require_admin sh req")
  case (Inl e)
  then show ?thesis using inv eq by (auto simp: set_peer_enabled_def)
next
  case (Inr caller)
  obtain g E where g: "sh_galaxy sh = Some g" "kept F E g" and pf: "peers_file sh = Inr path"
    using inv by (auto simp: peers_inv_def peers_file_def)
  obtain g' u where u: "Galaxy_set_enabled g url on = (g', u)" by fastforce
  have same: "sh\<lparr>sh_galaxy := Some g\<rparr> = sh" using g(1) by simp
  note eq' = eq [unfolded set_peer_enabled_def Inr pf g(1) sum.case option.case u prod.case]
  show ?thesis
  proof (cases "Galaxy_is_fixed g url")
    case False
    then have "clean_url url \<notin> p_url ` set F" using kept_fixed [OF g(2)] by simp
    note k = set_enabled_kept [OF g(2) u this]
    then show ?thesis using eq' False inv same peers_inv_saved [OF inv _ _ ok] by (cases u) auto
  qed (use inv eq' in auto)
qed

text \<open>Requests to the peer interface, one after the other, by anyone. A request whose file could not be written says so with a 500.\<close>

inductive peers_step :: "texts \<times> shared_state \<Rightarrow> texts \<times> shared_state \<Rightarrow> bool" where
  added: "add_peer io files sh req change = (files', sh', r) \<Longrightarrow> re_status r \<noteq> 500 \<Longrightarrow> settled_url (clean_url (pc_url change)) \<Longrightarrow>
    peers_step (files, sh) (files', sh')"
| updated: "update_peer io files sh req change = (files', sh', r) \<Longrightarrow> re_status r \<noteq> 500 \<Longrightarrow> settled_url (clean_url (pc_url change)) \<Longrightarrow>
    peers_step (files, sh) (files', sh')"
| deleted: "delete_peer io files sh req url = (files', sh', r) \<Longrightarrow> re_status r \<noteq> 500 \<Longrightarrow> peers_step (files, sh) (files', sh')"
| switched: "set_peer_enabled io files sh req url on = (files', sh', r) \<Longrightarrow> re_status r \<noteq> 500 \<Longrightarrow> peers_step (files, sh) (files', sh')"

inductive_cases peers_stepE: "peers_step (files, sh) (files', sh')"

lemma peers_steps_keep:
  assumes "peers_step\<^sup>*\<^sup>* (files, sh) (files', sh')" "peers_inv F path held started files sh"
  shows "peers_inv F path held started files' sh'"
  using assms
proof (induction "(files', sh')" arbitrary: files' sh' rule: rtranclp_induct)
  case (step y)
  obtain f1 sh1 where y: "y = (f1, sh1)" by fastforce
  have inv: "peers_inv F path held started f1 sh1" using step(3) [OF y step(4)] .
  show ?case using step(2) [unfolded y]
  proof (rule peers_stepE)
    show ?case if "add_peer io f1 sh1 req change = (files', sh', r)" "re_status r \<noteq> 500" "settled_url (clean_url (pc_url change))"
      for io req change r by (rule save_peer_keeps [OF inv that(1) [unfolded add_peer_def] that(2,3)])
    show ?case if "update_peer io f1 sh1 req change = (files', sh', r)" "re_status r \<noteq> 500" "settled_url (clean_url (pc_url change))"
      for io req change r by (rule save_peer_keeps [OF inv that(1) [unfolded update_peer_def] that(2,3)])
    show ?case if "delete_peer io f1 sh1 req url = (files', sh', r)" "re_status r \<noteq> 500" for io req url r
      by (rule delete_peer_keeps [OF inv that])
    show ?case if "set_peer_enabled io f1 sh1 req url on = (files', sh', r)" "re_status r \<noteq> 500" for io req url on r
      by (rule set_peer_enabled_keeps [OF inv that])
  qed
qed simp

lemma settings_need: "RawGalaxy_into_settings toml_in resolved held raw = Inr settings \<Longrightarrow> \<exists>F. fixed_peers (rg_peers raw) [] = Inr F"
  by (cases "fixed_peers (rg_peers raw) []") (simp_all add: RawGalaxy_into_settings_def)

lemma settings_made:
  assumes "RawGalaxy_into_settings toml_in resolved held raw = Inr settings" "fixed_peers (rg_peers raw) [] = Inr F"
  shows "gs_fixed settings = map p_url F" "gs_peers settings = add_file_peers (load_file_peers toml_in held) F"
    "\<exists>settings'. RawGalaxy_into_settings toml_in resolved held' raw = Inr settings' \<and>
       gs_fixed settings' = map p_url F \<and> gs_peers settings' = add_file_peers (load_file_peers toml_in held') F"
proof -
  let ?made = "\<lambda>held. RawGalaxy_into_settings toml_in resolved held raw"
  have c: "rg_max_hops raw \<noteq> 0 \<and> \<not> (rg_acl_authority raw \<and> rg_acl_replaceable raw) \<and> rg_health_interval raw \<noteq> 0"
    using assms by (auto simp: RawGalaxy_into_settings_def Let_def split: if_splits)
  have "\<exists>settings'. ?made held' = Inr settings' \<and> gs_fixed settings' = map p_url F \<and>
      gs_peers settings' = add_file_peers (load_file_peers toml_in held') F" for held'
    using assms(2) c by (auto simp: RawGalaxy_into_settings_def Let_def)
  then show "\<exists>settings'. ?made held' = Inr settings' \<and> gs_fixed settings' = map p_url F \<and>
      gs_peers settings' = add_file_peers (load_file_peers toml_in held') F"
    and "gs_fixed settings = map p_url F" "gs_peers settings = add_file_peers (load_file_peers toml_in held) F"
    using assms(1) by (metis sum.inject(2))+
qed


definition sample_raw_galaxy :: raw_galaxy where
  "sample_raw_galaxy = \<lparr>rg_peers = [\<lparr>fp_url = ''http://a/'', fp_key = ''k'', fp_namespaces = None, fp_enabled = None\<rparr>],
     rg_peers_file = Some ''peers.toml'', rg_max_hops = 4, rg_health_interval = 30, rg_sync_interval = 300,
     rg_reconcile_interval = 3600, rg_gossip_interval = 600, rg_acl_authority = False, rg_acl_replaceable = False, rg_verify_tls = True\<rparr>"

definition sample_fixed :: peer where
  "sample_fixed = \<lparr>p_url = ''http://a'', p_key = ''k'', p_stores = StoragePolicy_everything, p_enabled = True\<rparr>"

definition sample_galaxy :: galaxy where
  "sample_galaxy = \<lparr>g_peers = [sample_fixed], g_max_hops = 4, g_verify_tls = True, g_acl_authority = False, g_health = fmempty,
     g_fixed = [''http://a'']\<rparr>"

definition sample_galaxy_state :: shared_state where
  "sample_galaxy_state = sample_admin_state\<lparr>sh_galaxy := Some sample_galaxy, sh_galaxy_peers_file := Some ''peers.toml''\<rparr>"

definition sample_addition :: "texts \<times> shared_state \<times> reply" where
  "sample_addition = add_peer sample_io fmempty sample_galaxy_state sample_admin_request
     \<lparr>pc_url = ''http://b/'', pc_key = ''s'', pc_namespaces = Some [''feeds'']\<rparr>"

definition sample_added :: peer where
  "sample_added = \<lparr>p_url = ''http://b'', p_key = ''s'', p_stores = \<lparr>sp_prefixes = [''feeds''], sp_everything = False\<rparr>, p_enabled = True\<rparr>"

lemma sample_adding:
  "find (\<lambda>known. p_url known = clean_url ''http://b/'') (Galaxy_all_peers sample_galaxy) = None"
  "validated_peer ''http://b/'' ''s'' (Some [''feeds'']) True = Inr sample_added"
  "Galaxy_is_fixed sample_galaxy (p_url sample_added) = False"
  "Galaxy_add_peer sample_galaxy sample_added ''127.0.0.1:9999'' = (sample_galaxy\<lparr>g_peers := [sample_fixed, sample_added]\<rparr>, Inr sample_added)"
  by code_simp+

lemma sample_addition_done:
  "\<exists>files' r. sample_addition = (files', sample_galaxy_state\<lparr>sh_galaxy := Some (sample_galaxy\<lparr>g_peers := [sample_fixed, sample_added]\<rparr>)\<rparr>, r) \<and>
     re_status r \<noteq> 500"
proof -
  let ?sh = "sample_galaxy_state\<lparr>sh_galaxy := Some (sample_galaxy\<lparr>g_peers := [sample_fixed, sample_added]\<rparr>)\<rparr>"
  have a: "require_admin sample_galaxy_state sample_admin_request = Inr ''root''" "require_admin ?sh sample_admin_request = Inr ''root''"
    using sample_admin(2) by (simp_all add: require_admin_iff admin_caller_def sample_galaxy_state_def)
  have f: "peers_file sample_galaxy_state = Inr ''peers.toml''" "sh_galaxy sample_galaxy_state = Some sample_galaxy"
      "sh_listen sample_galaxy_state = ''127.0.0.1:9999''"
    by (simp_all add: peers_file_def sample_galaxy_state_def sample_admin_state_def sample_state_def)
  have r: "re_status (list_peers ?sh sample_admin_request) = 200" by (simp add: list_peers_def a Admin.ok_def Let_def)
  have w: "\<exists>f. save_peers sample_io fmempty ?sh = (f, None)"
    by (simp add: save_peers_def peers_file_def sample_io_def replace_file_def Let_def sample_galaxy_state_def)
  have "sample_addition = saved_peers sample_io fmempty ?sh sample_admin_request"
    by (simp add: sample_addition_def add_peer_def save_peer_def a f Let_def sample_adding)
  moreover obtain f where "save_peers sample_io fmempty ?sh = (f, None)" using w by blast
  ultimately have "sample_addition = (f, ?sh, list_peers ?sh sample_admin_request)" by (simp add: saved_peers_def)
  then show ?thesis using r by (intro exI [of _ f] exI [of _ "list_peers ?sh sample_admin_request"]) simp
qed

definition sample_toml_in :: "string \<Rightarrow> string + raw_peer list" where
  "sample_toml_in body = (if body = PeersFile_to_toml [sample_added] then Inr [raw_of sample_added] else Inl ''not this text'')"


section \<open>A change of tier\<close>

lemma resolved_after:
  "Database_resolved_policy (Database_set_policy db shard entry) s =
     (if s \<noteq> INTERNAL_SHARD \<and> shard_key s = shard_key shard
      then \<lparr>r_tier = unwrap_or (e_tier entry) (default_tier (db_tiers db)), r_warm_idle = unwrap_or (e_warm_idle entry) (tp_warm_idle (db_tiers db)),
            own_tier = e_tier entry, own_warm_idle = e_warm_idle entry\<rparr>
      else Database_resolved_policy db s)"
  by (simp add: Database_resolved_policy_def Database_set_policy_def TierPolicy_resolve_def entry_set Let_def)

lemma policy_is_apart: "contents env disk (Database_set_policy db shard entry) = contents env disk db"
  by (intro ext contents_cong) (simp_all add: Database_set_policy_def Database_catalogued_def)

text \<open>
  A change of tier made through the interface. When it succeeds the caller is an admin who may write the namespace
  named; every namespace of its top-level shard is kept in memory by the new settings, each half given or back to the
  configured default; no other shard's settings move, nothing stored changes, and the file holds exactly the settings
  in memory. A request that is refused changes nothing. When the file cannot be written the answer is a 500 and the
  new settings are nevertheless in effect, while the file keeps the old ones.
\<close>
theorem tier_change_covers_the_shard:
  assumes "set_tier json_out io net w files sh req change = (w', files', sh', r)"
    and "sh_tiers_file sh = Some path" "path \<noteq> set_extension path ''tmp''"
  shows "contents env disk (sh_db sh') = contents env disk (sh_db sh) \<and>
    (if re_status r = 200 \<or> re_status r = 500
     then \<exists>caller namespace entry. admin_caller sh req caller \<and> namespace = shard_key (tc_namespace change) \<and>
       Acl_can_write (sh_acl sh) caller namespace \<and> TierChange_entry change = Inr entry \<and>
       sh' = sh\<lparr>sh_db := Database_set_policy (sh_db sh) (shard_of namespace) entry\<rparr> \<and>
       fmlookup files' path = (if re_status r = 200 then Some (TierPolicy_body (db_tiers (sh_db sh'))) else fmlookup files path) \<and>
       (\<forall>n. Database_resolved_policy (sh_db sh') (shard_of n) =
          (if shard_of n \<noteq> INTERNAL_SHARD \<and> shard_key (shard_of n) = shard_key (shard_of namespace)
           then \<lparr>r_tier = unwrap_or (e_tier entry) (default_tier (db_tiers (sh_db sh))),
                 r_warm_idle = unwrap_or (e_warm_idle entry) (tp_warm_idle (db_tiers (sh_db sh))),
                 own_tier = e_tier entry, own_warm_idle = e_warm_idle entry\<rparr>
           else Database_resolved_policy (sh_db sh) (shard_of n)))
     else w' = w \<and> files' = files \<and> sh' = sh)"
proof (cases "require_admin sh req")
  case (Inl e)
  then show ?thesis using assms(1) require_admin_status [OF Inl] by (auto simp: set_tier_def)
next
  case (Inr caller)
  let ?n = "shard_key (tc_namespace change)"
  have key: "trim_matches CHR ''/'' (trim (tc_namespace change)) = ?n" by (simp add: shard_key_def)
  note eq = assms(1) [unfolded set_tier_def Inr sum.case key Let_def assms(2) option.case]
  consider "?n = [] \<or> starts_with ?n ''_'' \<or> \<not> Acl_can_write (sh_acl sh) caller ?n" | e where "TierChange_entry change = Inl e"
    | entry where "TierChange_entry change = Inr entry" "?n \<noteq> []" "\<not> starts_with ?n ''_''" "Acl_can_write (sh_acl sh) caller ?n"
    by (metis sum.exhaust)
  then show ?thesis
  proof cases
    case (3 entry)
    let ?db = "Database_set_policy (sh_db sh) (shard_of ?n) entry"
    obtain f e where sv: "TierPolicy_save io files path (db_tiers ?db) = (f, e)" by fastforce
    have out: "sh' = sh\<lparr>sh_db := ?db\<rparr>" "files' = f" "re_status r = (if e = None then 200 else 500)"
      using eq 3 sv by (auto simp: require_write_def say_def Admin.ok_def split: option.splits)
    have "admin_caller sh req caller" using Inr by (simp add: require_admin_iff)
    then show ?thesis using 3 out saying.file_result [OF sv [unfolded TierPolicy_save_def] assms(3)] assms(3)
      by (auto simp: policy_is_apart resolved_after)
  qed (use eq in \<open>auto simp: require_write_def say_def split: if_splits sum.splits\<close>)
qed

text \<open>An admin key that may write under \<^verbatim>\<open>feeds/a\<close> alone, and its change to that namespace.\<close>

definition sample_narrow :: shared_state where
  "sample_narrow = sample_state\<lparr>sh_acl := Acl_set (sh_acl sample_state) ''root''
     [Grant_admin, \<lparr>g_prefix = ''feeds/a'', g_read = True, g_write = True, g_admin = False\<rparr>], sh_tiers_file := Some ''tiers.toml''\<rparr>"

definition sample_tier_change :: tier_change where
  "sample_tier_change = \<lparr>tc_namespace = ''feeds/a'', tc_tier = Some ''hot'', tc_warm_idle = None\<rparr>"

lemma sample_narrow_grants: "Acl_can_write (sh_acl sample_narrow) ''root'' n \<longleftrightarrow> covers_loop (segments n) [''feeds'', ''a'']"
proof -
  have "segments ''feeds/a'' = [''feeds'', ''a'']" by code_simp
  then show ?thesis by (simp add: sample_narrow_def Acl_can_write_def Acl_allows_def Acl_set_def Grant_covers_def Grant_admin_def)
qed

lemma sample_tier_done:
  "\<exists>files' sh' r. set_tier (\<lambda>_. []) sample_io sample_net () fmempty sample_narrow sample_admin_request sample_tier_change = ((), files', sh', r) \<and>
     re_status r = 200"
proof -
  have a: "require_admin sample_narrow sample_admin_request = Inr ''root''"
    using sample_admin_header by (simp add: require_admin_iff admin_caller_def sample_narrow_def Acl_is_admin_def Acl_set_def Grant_admin_def)
  have n: "trim_matches CHR ''/'' (trim (tc_namespace sample_tier_change)) = ''feeds/a''"
      "TierChange_entry sample_tier_change = Inr \<lparr>e_tier = Some Hot, e_warm_idle = None\<rparr>" "\<not> starts_with ''feeds/a'' ''_''"
      "covers_loop (segments ''feeds/a'') [''feeds'', ''a'']" by code_simp+
  have g: "sh_galaxy sample_narrow = None" "sh_tiers_file sample_narrow = Some ''tiers.toml''" by (simp_all add: sample_narrow_def sample_state_def)
  show ?thesis
    by (simp add: set_tier_def a n g Let_def require_write_def sample_narrow_grants TierPolicy_save_def replace_file_saying_def sample_io_def gossip_tier_def Admin.ok_def)
qed

text \<open>The change reaches \<^verbatim>\<open>feeds/b\<close>, which the key may not write.\<close>

theorem tier_change_covers_the_shard_witness:
  "\<exists>files' sh' r. set_tier (\<lambda>_. []) sample_io sample_net () fmempty sample_narrow sample_admin_request sample_tier_change = ((), files', sh', r) \<and>
     re_status r = 200 \<and> \<not> Acl_can_write (sh_acl sample_narrow) ''root'' ''feeds/b'' \<and>
     r_tier (Database_resolved_policy (sh_db sample_narrow) (shard_of ''feeds/b'')) = Cold \<and>
     r_tier (Database_resolved_policy (sh_db sh') (shard_of ''feeds/b'')) = Hot"
proof -
  obtain files' sh' r where d: "set_tier (\<lambda>_. []) sample_io sample_net () fmempty sample_narrow sample_admin_request sample_tier_change =
      ((), files', sh', r)" "re_status r = 200" using sample_tier_done by blast
  have f: "sh_tiers_file sample_narrow = Some ''tiers.toml''" by (simp add: sample_narrow_def)
  have t: "''tiers.toml'' \<noteq> set_extension ''tiers.toml'' ''tmp''" by code_simp
  have n: "shard_key (tc_namespace sample_tier_change) = ''feeds/a''" "TierChange_entry sample_tier_change = Inr \<lparr>e_tier = Some Hot, e_warm_idle = None\<rparr>"
      "shard_of ''feeds/b'' = shard_of ''feeds/a''" "shard_of ''feeds/b'' \<noteq> INTERNAL_SHARD"
      "\<not> covers_loop (segments ''feeds/b'') [''feeds'', ''a'']" by code_simp+
  have before: "r_tier (Database_resolved_policy (sh_db sample_narrow) (shard_of ''feeds/b'')) = Cold"
    using n(4) by (simp add: Database_resolved_policy_def sample_narrow_def sample_state_def sample_store_db_def Database_attach_store_def
        Database_with_node_def TierPolicy_resolve_def TierPolicy_entry_def TierPolicy_default_def Entry_default_def unwrap_or_def fm_simps Let_def)
  have "r_tier (Database_resolved_policy (sh_db sh') (shard_of ''feeds/b'')) = Hot"
    using tier_change_covers_the_shard [OF d(1) f t, of sample_env fmempty] d(2) n by (auto simp: unwrap_or_def)
  then show ?thesis using d before n(5) sample_narrow_grants by auto
qed

end
