(* ===== verification/Admin_Tags.thy ===== *)
theory Admin_Tags
  imports Admin
begin

text \<open>
  The tag vocabulary in the management interface, the part of \<^verbatim>\<open>src/src/admin/mod.rs\<close> behind \<^verbatim>\<open>/_management/api/tags\<close>: the
  table of tags, defined and in use, and defining and undefining one.
\<close>

section \<open>Definitions\<close>

definition FREE_TEXT_ABOVE :: nat where
  "FREE_TEXT_ABOVE = 3"

definition defined_row :: "(string, u64) fmap \<Rightarrow> string \<times> tag \<Rightarrow> tag_row" where
  "defined_row usage entry =
     (let (name, t) = entry; family = ends_with name '':'';
          used = (if family then sum_list (map snd (filter (\<lambda>(found, _). starts_with found name) (sorted_list_of_fmap usage)))
                  else fm_get0 usage name)
      in \<lparr>tr_name = name, tr_colour = t_colour t, tr_description = t_description t, tr_family = family,
          tr_used = (if used > 0 then Some used else None), tr_defined = True, tr_variants = None\<rparr>)"

text \<open>The key of a tag found on values, with its colon; the empty string stands for a bare label (\<open>None\<close> in the code, which sorts first).\<close>

definition tag_key :: "string \<Rightarrow> string" where
  "tag_key name = (case split_once CHR '':'' name of Some (key, _) \<Rightarrow> if key \<noteq> [] then key @ '':'' else [] | None \<Rightarrow> [])"

definition unaccounted :: "vocabulary \<Rightarrow> string \<Rightarrow> bool" where
  "unaccounted voc name \<longleftrightarrow> Vocabulary_get voc name = None \<and> Vocabulary_colour_of voc name = None"

fun note_tag :: "vocabulary \<Rightarrow> string \<times> u64 \<Rightarrow> (string, (string \<times> u64) list) fmap \<Rightarrow> (string, (string \<times> u64) list) fmap" where
  "note_tag voc (name, n) m =
     (if unaccounted voc name then fmupd (tag_key name) (fm_get [] m (tag_key name) @ [(name, n)]) m else m)"

definition by_key :: "vocabulary \<Rightarrow> (string, u64) fmap \<Rightarrow> (string, (string \<times> u64) list) fmap" where
  "by_key voc usage = fold (note_tag voc) (sorted_list_of_fmap usage) fmempty"

definition found_row :: "string \<Rightarrow> bool \<Rightarrow> u64 \<Rightarrow> nat option \<Rightarrow> tag_row" where
  "found_row name family used variants =
     \<lparr>tr_name = name, tr_colour = UNKNOWN_COLOUR, tr_description = [], tr_family = family, tr_used = Some used, tr_defined = False,
      tr_variants = variants\<rparr>"

definition found_rows :: "string \<times> (string \<times> u64) list \<Rightarrow> tag_row list" where
  "found_rows entry =
     (let (key, found) = entry
      in if key \<noteq> [] \<and> length found > FREE_TEXT_ABOVE then [found_row key True (sum_list (map snd found)) (Some (length found))]
         else map (\<lambda>(name, n). found_row name False n None) found)"

definition tag_rows :: "vocabulary \<Rightarrow> (string, u64) fmap \<Rightarrow> tag_row list" where
  "tag_rows voc usage =
     sort_key tr_name (map (defined_row usage) (Vocabulary_entries voc) @ concat (map found_rows (sorted_list_of_fmap (by_key voc usage))))"

definition tags_scope :: "shared_state \<Rightarrow> bool \<Rightarrow> string option" where
  "tags_scope sh everywhere =
     (if \<not> everywhere
      then Some (''Counts are hidden because this key cannot read every namespace. '' @ ''The vocabulary itself is not scoped.'')
      else if StoragePolicy_is_router (db_stores (sh_db sh))
      then Some (''This server stores nothing of its own, so these counts cover only '' @
                 ''what it has locally '' @ [CHR 0xE2, CHR 0x80, CHR 0x94] @ '' which on a router is next to nothing. The tags '' @
                 ''in use are on the nodes; open a node'' @ [CHR 0x27] @ ''s interface to count them there.'')
      else if \<not> StoragePolicy_stores_everything (db_stores (sh_db sh))
      then Some (''Counts cover the namespaces this server stores ('' @ join '', '' (sp_prefixes (db_stores (sh_db sh))) @
                 ''). Tags in '' @ ''namespaces held elsewhere in the galaxy are not counted here.'')
      else None)"

definition list_tags :: "('f, 'w) runtime \<Rightarrow> shared_state \<Rightarrow> http_in \<Rightarrow> reply" where
  "list_tags rt sh req =
     (case require_vocabulary_reader sh req of
        Inl r \<Rightarrow> r
      | Inr caller \<Rightarrow>
          let (usage, counted, all) = Database_tag_usage (rt_now rt) (sh_db sh);
              everywhere = Acl_can_read (sh_acl sh) caller ''/'';
              usage = (if everywhere then usage else fmempty)
          in ok (Tags \<lparr>tv_tags = tag_rows (sh_tags sh) usage, tv_unknown_colour = UNKNOWN_COLOUR, tv_editable = (sh_tags_file sh \<noteq> None),
               tv_counted_namespaces = counted, tv_total_namespaces = all, tv_scope = tags_scope sh everywhere\<rparr>))"

definition tags_file :: "shared_state \<Rightarrow> reply + string" where
  "tags_file sh =
     (case sh_tags_file sh of
        Some path \<Rightarrow> Inr path
      | None \<Rightarrow> Inl (say 409 (''No tags_file is configured, so tag colours cannot be edited here. Set '' @ ''tags_file in [daemon] and restart.'')))"

definition save_tags :: "file_io \<Rightarrow> texts \<Rightarrow> shared_state \<Rightarrow> vocabulary \<Rightarrow> texts \<times> shared_state \<times> reply option" where
  "save_tags io files sh voc =
     (case tags_file sh of
        Inl r \<Rightarrow> (files, sh, Some r)
      | Inr path \<Rightarrow>
          (case replace_file io files path (Vocabulary_to_toml voc) of
             (files, Some e) \<Rightarrow> (files, sh, Some (say 500 (''Could not write the tag vocabulary: '' @ e)))
           | (files, None) \<Rightarrow> (files, sh\<lparr>sh_tags := voc\<rparr>, None)))"

text \<open>Defining and undefining end alike: the new vocabulary is saved, and the table is the answer.\<close>

definition adopt_tags ::
  "('f, 'w) runtime \<Rightarrow> file_io \<Rightarrow> texts \<Rightarrow> shared_state \<Rightarrow> http_in \<Rightarrow> vocabulary \<Rightarrow> texts \<times> shared_state \<times> reply" where
  "adopt_tags rt io files sh req voc =
     (case save_tags io files sh voc of
        (files, sh, Some r) \<Rightarrow> (files, sh, r)
      | (files, sh, None) \<Rightarrow> (files, sh, list_tags rt sh req))"

definition define_tag ::
  "('f, 'w) runtime \<Rightarrow> file_io \<Rightarrow> texts \<Rightarrow> shared_state \<Rightarrow> http_in \<Rightarrow> string \<Rightarrow> string \<Rightarrow> string \<Rightarrow> texts \<times> shared_state \<times> reply" where
  "define_tag rt io files sh req name colour description =
     (case require_vocabulary_editor sh req of
        Inl r \<Rightarrow> (files, sh, r)
      | Inr caller \<Rightarrow>
          (case tags_file sh of
             Inl r \<Rightarrow> (files, sh, r)
           | Inr _ \<Rightarrow>
               (case Vocabulary_set (sh_tags sh) name colour description of
                  Inl e \<Rightarrow> (files, sh, \<lparr>re_status = 400, re_body = BadTag e\<rparr>)
                | Inr voc \<Rightarrow> adopt_tags rt io files sh req voc)))"

definition undefine_tag ::
  "('f, 'w) runtime \<Rightarrow> file_io \<Rightarrow> texts \<Rightarrow> shared_state \<Rightarrow> http_in \<Rightarrow> string \<Rightarrow> texts \<times> shared_state \<times> reply" where
  "undefine_tag rt io files sh req name =
     (case require_vocabulary_editor sh req of
        Inl r \<Rightarrow> (files, sh, r)
      | Inr caller \<Rightarrow>
          (case tags_file sh of
             Inl r \<Rightarrow> (files, sh, r)
           | Inr _ \<Rightarrow>
               (case Vocabulary_remove (sh_tags sh) name of
                  Inl e \<Rightarrow> (files, sh, \<lparr>re_status = 404, re_body = BadTag e\<rparr>)
                | Inr voc \<Rightarrow> adopt_tags rt io files sh req voc)))"

section \<open>Every tag in use is in the table\<close>

lemma by_key_fold:
  "fm_get [] (fold (note_tag voc) xs start) key = fm_get [] start key @ filter (\<lambda>(name, _). unaccounted voc name \<and> tag_key name = key) xs"
proof (induction xs arbitrary: start)
  case (Cons x xs)
  obtain name n where x: "x = (name, n)" by fastforce
  have "fm_get [] (note_tag voc x start) key = fm_get [] start key @ (if unaccounted voc name \<and> tag_key name = key then [(name, n)] else [])"
    by (simp add: x fm_get_def)
  then show ?case using Cons.IH [of "note_tag voc x start"] x by simp
qed simp

lemma by_key_get:
  "fm_get [] (by_key voc usage) key = filter (\<lambda>(name, _). unaccounted voc name \<and> tag_key name = key) (sorted_list_of_fmap usage)"
  by (simp add: by_key_def by_key_fold fm_get_def [of "[]" fmempty])

lemma colour_of_defined:
  assumes "Vocabulary_colour_of voc name \<noteq> None" "Vocabulary_get voc name = None"
  shows "\<exists>family t. fmlookup voc family = Some t \<and> ends_with family '':'' \<and> starts_with name family"
proof -
  let ?fs = "filter (\<lambda>(f, _). ends_with f '':'' \<and> starts_with name f) (sorted_list_of_fmap voc)"
  have "max_by_key (\<lambda>(f, _). length f) ?fs \<noteq> None"
    using assms by (auto simp: Vocabulary_colour_of_def Vocabulary_get_def split: option.splits)
  then have "?fs \<noteq> []" by auto
  then obtain f t where "(f, t) \<in> set ?fs" by (metis list.set_intros(1) neq_Nil_conv surj_pair)
  then show ?thesis by auto
qed

lemma tag_key_prefix: "tag_key name \<noteq> [] \<Longrightarrow> starts_with name (tag_key name) \<and> ends_with (tag_key name) '':''"
proof -
  assume ne: "tag_key name \<noteq> []"
  obtain key rest where s: "split_once CHR '':'' name = Some (key, rest)" "tag_key name = key @ '':''"
    using ne by (auto simp: tag_key_def split: option.splits if_splits)
  have "split_once c s = Some (a, b) \<Longrightarrow> s = a @ c # b" for c s a b
    by (induction s arbitrary: a) (auto split: if_splits)
  from this [OF s(1)] show ?thesis using s(2) by (simp add: starts_with_def ends_with_def)
qed

text \<open>A row stands for a tag when it is the tag's own or the row of a family over it.\<close>

definition stands_for :: "tag_row \<Rightarrow> string \<Rightarrow> bool" where
  "stands_for row name \<longleftrightarrow> tr_name row = name \<or> tr_family row \<and> starts_with name (tr_name row)"

lemma tag_rows_set: "set (tag_rows voc usage) = defined_row usage ` set (sorted_list_of_fmap voc) \<union>
    (\<Union>entry \<in> set (sorted_list_of_fmap (by_key voc usage)). set (found_rows entry))"
  by (simp add: tag_rows_def Vocabulary_entries_def)

lemma defined_row_name: "tr_name (defined_row usage (name, t)) = name" "tr_family (defined_row usage (name, t)) = ends_with name '':''"
  by (simp_all add: defined_row_def Let_def)

text \<open>
  The table of tags leaves nothing out. Every tag the vocabulary defines has its row, with its colour and
  description; and every tag found on a value is shown, by a row of its own, by the row of a family that colours it,
  or, when its key is used like free text, by one row for the key. A row that is not defined stands only for tags
  that no definition accounts for.
\<close>
theorem tag_table_is_complete:
  "(\<forall>name t. fmlookup voc name = Some t \<longrightarrow>
      (\<exists>row \<in> set (tag_rows voc usage). tr_name row = name \<and> tr_defined row \<and> tr_colour row = t_colour t \<and> tr_description row = t_description t)) \<and>
   (\<forall>name \<in> fmdom' usage. \<exists>row \<in> set (tag_rows voc usage). stands_for row name) \<and>
   (\<forall>row \<in> set (tag_rows voc usage). \<not> tr_defined row \<longrightarrow> (\<exists>name \<in> fmdom' usage. unaccounted voc name \<and> stands_for row name))"
proof (intro conjI allI impI ballI)
  fix name t assume "fmlookup voc name = Some t"
  then have "defined_row usage (name, t) \<in> set (tag_rows voc usage)" by (force simp: tag_rows_set)
  then show "\<exists>row \<in> set (tag_rows voc usage). tr_name row = name \<and> tr_defined row \<and> tr_colour row = t_colour t \<and> tr_description row = t_description t"
    by (rule bexI [rotated]) (simp add: defined_row_def Let_def)
next
  fix name assume u: "name \<in> fmdom' usage"
  then obtain n where n: "(name, n) \<in> set (sorted_list_of_fmap usage)" by (auto simp: fmlookup_dom'_iff)
  show "\<exists>row \<in> set (tag_rows voc usage). stands_for row name"
  proof (cases "unaccounted voc name")
    case True
    let ?found = "fm_get [] (by_key voc usage) (tag_key name)"
    have "(name, n) \<in> set ?found" using n True by (simp add: by_key_get)
    then have e: "(tag_key name, ?found) \<in> set (sorted_list_of_fmap (by_key voc usage))"
      by (cases "fmlookup (by_key voc usage) (tag_key name)") (auto simp: fm_get_def)
    have "\<exists>row \<in> set (found_rows (tag_key name, ?found)). stands_for row name"
    proof (cases "tag_key name \<noteq> [] \<and> length ?found > FREE_TEXT_ABOVE")
      case True
      then show ?thesis using tag_key_prefix by (auto simp: found_rows_def found_row_def stands_for_def)
    next
      case False
      then show ?thesis using \<open>(name, n) \<in> set ?found\<close> by (force simp: found_rows_def found_row_def stands_for_def)
    qed
    then show ?thesis using e unfolding tag_rows_set by blast
  next
    case False
    obtain own t where t: "fmlookup voc own = Some t" "own = name \<or> ends_with own '':'' \<and> starts_with name own"
    proof (cases "Vocabulary_get voc name")
      case None
      then show thesis using that colour_of_defined [of voc name] False by (auto simp: unaccounted_def)
    next
      case (Some t)
      then show thesis using that by (simp add: Vocabulary_get_def)
    qed
    have "(own, t) \<in> set (sorted_list_of_fmap voc)" using t(1) by simp
    then have "defined_row usage (own, t) \<in> set (tag_rows voc usage)" unfolding tag_rows_set by blast
    moreover have "stands_for (defined_row usage (own, t)) name" using t(2) by (auto simp: stands_for_def defined_row_name)
    ultimately show ?thesis by blast
  qed
next
  fix row assume r: "row \<in> set (tag_rows voc usage)" "\<not> tr_defined row"
  have "tr_defined (defined_row usage e)" for e by (cases e) (simp add: defined_row_def Let_def)
  then obtain key found where e: "(key, found) \<in> set (sorted_list_of_fmap (by_key voc usage))" "row \<in> set (found_rows (key, found))"
    using r unfolding tag_rows_set by auto
  have found: "found = filter (\<lambda>(name, _). unaccounted voc name \<and> tag_key name = key) (sorted_list_of_fmap usage)"
    using e(1) by_key_get [of voc usage key] by (simp add: fm_get_def)
  then have each: "name \<in> fmdom' usage \<and> unaccounted voc name \<and> tag_key name = key" if "(name, n) \<in> set found" for name n
    using that by (auto intro: fmdom'I)
  show "\<exists>name \<in> fmdom' usage. unaccounted voc name \<and> stands_for row name"
  proof (cases "key \<noteq> [] \<and> length found > FREE_TEXT_ABOVE")
    case True
    then obtain name n where "(name, n) \<in> set found" by (cases found) auto
    then show ?thesis using each [of name n] True e(2) tag_key_prefix [of name]
      by (intro bexI [of _ name]) (auto simp: found_rows_def found_row_def stands_for_def)
  next
    case False
    then obtain name n where "(name, n) \<in> set found" "row = found_row name False n None" using e(2) by (auto simp: found_rows_def)
    then show ?thesis using each [of name n] by (intro bexI [of _ name]) (auto simp: found_row_def stands_for_def)
  qed
qed

definition sample_usage :: "(string, u64) fmap" where
  "sample_usage = fmupd ''tlp:green'' 2 (fmupd ''seen'' 1 fmempty)"

theorem tag_table_is_complete_witness:
  "\<exists>row \<in> set (tag_rows (fmupd ''tlp:'' \<lparr>t_colour = ''#00ff00'', t_description = []\<rparr> fmempty) sample_usage). stands_for row ''tlp:green''"
proof -
  have "''tlp:green'' \<in> fmdom' sample_usage" by (simp add: sample_usage_def)
  then show ?thesis
    using tag_table_is_complete [of "fmupd ''tlp:'' \<lparr>t_colour = ''#00ff00'', t_description = []\<rparr> fmempty" sample_usage] by blast
qed

section \<open>What a change of the vocabulary changes\<close>

lemma adopt_tags_scope:
  assumes "adopt_tags rt io files sh req voc = (files', sh', r)"
  shows "sh' = sh \<or> sh' = sh\<lparr>sh_tags := voc\<rparr> \<and> (\<exists>path. sh_tags_file sh = Some path \<and> fmlookup files' path = Some (Vocabulary_to_toml voc))"
proof (cases "sh_tags_file sh")
  case None
  then show ?thesis using assms by (simp add: adopt_tags_def save_tags_def tags_file_def)
next
  case (Some path)
  obtain f e where w: "replace_file io files path (Vocabulary_to_toml voc) = (f, e)" by fastforce
  show ?thesis using assms Some w whole.put_done
    by (cases e) (auto simp: adopt_tags_def save_tags_def tags_file_def)
qed

text \<open>
  Editing how tags are shown touches no value: defining or undefining one changes the vocabulary and nothing else of
  the server, and only when the file of the vocabulary holds the new one.
\<close>
theorem vocabulary_edits_touch_no_value:
  "(let (files', sh', r) = define_tag rt io files sh req name colour description
    in sh' = sh \<or> (\<exists>voc path. sh' = sh\<lparr>sh_tags := voc\<rparr> \<and> Vocabulary_set (sh_tags sh) name colour description = Inr voc \<and>
         sh_tags_file sh = Some path \<and> fmlookup files' path = Some (Vocabulary_to_toml voc))) \<and>
   (let (files', sh', r) = undefine_tag rt io files sh req name
    in sh' = sh \<or> (\<exists>voc path. sh' = sh\<lparr>sh_tags := voc\<rparr> \<and> Vocabulary_remove (sh_tags sh) name = Inr voc \<and>
         sh_tags_file sh = Some path \<and> fmlookup files' path = Some (Vocabulary_to_toml voc)))"
proof -
  define edit where "edit = (\<lambda>v :: tag_error + vocabulary. \<lambda>status. case require_vocabulary_editor sh req of
      Inl r \<Rightarrow> (files, sh, r)
    | Inr caller \<Rightarrow> (case tags_file sh of Inl r \<Rightarrow> (files, sh, r)
        | Inr _ \<Rightarrow> (case v of Inl e \<Rightarrow> (files, sh, \<lparr>re_status = status, re_body = BadTag e\<rparr>) | Inr voc \<Rightarrow> adopt_tags rt io files sh req voc)))"
  have one: "sh' = sh \<or> (\<exists>voc path. sh' = sh\<lparr>sh_tags := voc\<rparr> \<and> v = Inr voc \<and>
      sh_tags_file sh = Some path \<and> fmlookup files' path = Some (Vocabulary_to_toml voc))"
    if "edit v status = (files', sh', r)" for v status files' sh' r
    using that adopt_tags_scope [of rt io files sh req _ files' sh' r] unfolding edit_def by (auto split: sum.splits)
  have d: "define_tag rt io files sh req name colour description = edit (Vocabulary_set (sh_tags sh) name colour description) 400"
    "undefine_tag rt io files sh req name = edit (Vocabulary_remove (sh_tags sh) name) 404"
    by (simp_all add: define_tag_def undefine_tag_def edit_def)
  show ?thesis unfolding d Let_def using one by (auto split: prod.splits)
qed

end
