(* ===== verification/Stix.thy ===== *)
theory Stix
  imports Listing Dns_Name Sighting
begin

text \<open>
  \<^verbatim>\<open>src/src/stix.rs\<close>: values written out as a STIX 2.1 bundle, with the part of \<^verbatim>\<open>src/src/config.rs\<close> that says
  which observable a namespace holds.

  Three third-party crates are used, and are the record \<open>stix_lib\<close>: uuid (\<open>Uuid::new_v5\<close> as it prints, and
  whether \<open>Uuid::parse_str\<close> accepts a text) and chrono (reading and printing RFC 3339, and the instants a
  number of seconds can denote). The address parsers of the standard library are written out.
\<close>

record stix_lib =
  uuid_v5 :: "128 word \<Rightarrow> string \<Rightarrow> string"
  uuid_parses :: "string \<Rightarrow> bool"
  parse_rfc3339 :: "string \<Rightarrow> int option"
  instant_of :: "int \<Rightarrow> datetime option"
  to_rfc3339 :: "datetime \<Rightarrow> string"

section \<open>Addresses\<close>

text \<open>
  \<open>Ipv4Addr::from_str\<close> and \<open>Ipv6Addr::from_str\<close>: a parser takes what it reads off the front of the text and
  gives what is left. A number has at least one and at most \<open>maxd\<close> digits of the radix.
\<close>

definition radix_digit :: "nat \<Rightarrow> char \<Rightarrow> nat option" where
  "radix_digit radix c = (case to_digit16 c of Some d \<Rightarrow> if d < radix then Some d else None | None \<Rightarrow> None)"

definition digit_run :: "nat \<Rightarrow> string \<Rightarrow> string" where
  "digit_run radix s = takeWhile (\<lambda>c. radix_digit radix c \<noteq> None) s"

definition run_value :: "nat \<Rightarrow> string \<Rightarrow> nat" where
  "run_value radix ds = foldl (\<lambda>acc c. acc * radix + the (radix_digit radix c)) 0 ds"

definition read_number :: "nat \<Rightarrow> nat \<Rightarrow> bool \<Rightarrow> nat \<Rightarrow> string \<Rightarrow> (nat \<times> string) option" where
  "read_number radix maxd allow_zero_prefix bound s =
     (let ds = digit_run radix s
      in if ds = [] \<or> length ds > maxd \<or> (\<not> allow_zero_prefix \<and> hd ds = CHR ''0'' \<and> length ds > 1) \<or> run_value radix ds \<ge> bound then None
         else Some (run_value radix ds, drop (length ds) s))"

definition read_given_char :: "char \<Rightarrow> string \<Rightarrow> string option" where
  "read_given_char c s = (case s of [] \<Rightarrow> None | x # rest \<Rightarrow> if x = c then Some rest else None)"

definition read_separator :: "char \<Rightarrow> nat \<Rightarrow> string \<Rightarrow> string option" where
  "read_separator c i s = (if i > 0 then read_given_char c s else Some s)"

fun read_octets :: "nat \<Rightarrow> nat \<Rightarrow> string \<Rightarrow> string option" where
  "read_octets i 0 s = Some s"
| "read_octets i (Suc n) s =
     (case read_separator CHR ''.'' i s of
        None \<Rightarrow> None
      | Some s \<Rightarrow> (case read_number 10 3 False 256 s of None \<Rightarrow> None | Some (_, s) \<Rightarrow> read_octets (Suc i) n s))"

definition ipv4_from_str :: "string \<Rightarrow> bool" where
  "ipv4_from_str s \<longleftrightarrow> length s \<le> 15 \<and> read_octets 0 4 s = Some []"

text \<open>\<open>read_groups\<close> with \<open>n\<close> slots left of \<open>i + n\<close>: how many groups were read, whether the last were an
  embedded IPv4 address, and what is left.\<close>

fun read_groups :: "nat \<Rightarrow> nat \<Rightarrow> string \<Rightarrow> nat \<times> bool \<times> string" where
  "read_groups i 0 s = (i, False, s)"
| "read_groups i (Suc n) s =
     (case (if n > 0 then Option.bind (read_separator CHR '':'' i s) (read_octets 0 4) else None) of
        Some rest \<Rightarrow> (i + 2, True, rest)
      | None \<Rightarrow>
          (case Option.bind (read_separator CHR '':'' i s) (read_number 16 4 True 65536) of
             Some (_, rest) \<Rightarrow> read_groups (Suc i) n rest
           | None \<Rightarrow> (i, False, s)))"

definition read_ipv6 :: "string \<Rightarrow> string option" where
  "read_ipv6 s =
     (case read_groups 0 8 s of
        (head_size, head_ipv4, rest) \<Rightarrow>
          if head_size = 8 then Some rest
          else if head_ipv4 then None
          else (case Option.bind (read_given_char CHR '':'' rest) (read_given_char CHR '':'') of
                  None \<Rightarrow> None
                | Some rest \<Rightarrow> (case read_groups 0 (8 - (head_size + 1)) rest of (_, _, rest) \<Rightarrow> Some rest)))"

definition ipv6_from_str :: "string \<Rightarrow> bool" where
  "ipv6_from_str s \<longleftrightarrow> read_ipv6 s = Some []"

section \<open>Data\<close>

definition SIGHTINGDB :: "128 word" where
  "SIGHTINGDB = 0x3ef117756174471892bf16705b732650"

record stix_publisher =
  sp_identity :: string
  sp_identity_class :: string

definition stix_Settings_default :: stix_publisher where
  "stix_Settings_default = \<lparr>sp_identity = ''SightingDB'', sp_identity_class = ''system''\<rparr>"

datatype untyped = UntypedSkip | UntypedInclude

definition UNTYPED_TYPE :: string where
  "UNTYPED_TYPE = ''x-sightingdb-value''"

record typing =
  ty_observable :: string
  ty_fallback :: bool

record stix_export =
  sx_bundle :: json
  sx_exported :: nat
  sx_skipped :: "string list"
  sx_untyped :: nat
  sx_truncated :: bool
  sx_missing :: "string list"
  sx_namespaces :: nat

record stix_part =
  part_namespace :: string
  part_values :: "attribute_view list"
  part_type :: "string option"

text \<open>Which observables are imported, and where they land; and the \<open>[stix]\<close> section.\<close>

record stix_mapping =
  smap_types :: "(string, string) fmap"
  smap_default :: "string option"

record stix_settings =
  stx_mapping :: stix_mapping
  stx_ttl :: u64
  stx_export :: stix_publisher

section \<open>Markings\<close>

definition TLP :: "(string \<times> string) list" where
  "TLP =
     [(''white'', ''marking-definition--613f2e26-407d-48c7-9eca-b8e91df99dc9''),
      (''green'', ''marking-definition--34098fce-860f-48ae-8e50-ebd3cc5e41da''),
      (''amber'', ''marking-definition--f88d31f6-486f-44da-b317-01333bde0b82''),
      (''red'', ''marking-definition--5e57c739-391a-4eb3-b6be-7d15ca92d5ed'')]"

definition TLP_CREATED :: string where
  "TLP_CREATED = ''2017-01-20T00:00:00.000Z''"

definition tlp_of_id :: "string \<Rightarrow> string option" where
  "tlp_of_id ident = map_option fst (find (\<lambda>(_, marking). marking = ident) TLP)"

definition tlp_id :: "string \<Rightarrow> string option" where
  "tlp_id level =
     (let level = to_ascii_lowercase (trim level);
          level = unwrap_or (strip_prefix level ''tlp:'') level
      in map_option snd (find (\<lambda>(name, _). name = level) TLP))"

section \<open>What a namespace holds\<close>

definition config_covers :: "string \<Rightarrow> string \<Rightarrow> bool" where
  "config_covers mapped namespace =
     (let mapped = trim_matches CHR ''/'' mapped
      in namespace = mapped \<or>
         (case strip_prefix namespace mapped of None \<Rightarrow> False | Some rest \<Rightarrow> starts_with rest ''/''))"

text \<open>The entries of the mapping in the order they are met.\<close>

definition type_among :: "(string \<times> string) list \<Rightarrow> string \<Rightarrow> string option" where
  "type_among entries namespace =
     map_option fst (max_by_key (\<lambda>(_, mapped). length mapped) (filter (\<lambda>(_, mapped). config_covers mapped namespace) entries))"

definition StixSettings_type_of_namespace :: "stix_settings \<Rightarrow> string \<Rightarrow> string option" where
  "StixSettings_type_of_namespace s namespace = type_among (sorted_list_of_fmap (smap_types (stx_mapping s))) namespace"

section \<open>What a value is\<close>

definition is_ascii_alphabetic :: "char \<Rightarrow> bool" where
  "is_ascii_alphabetic c \<longleftrightarrow> 65 \<le> (of_char c :: nat) \<and> (of_char c :: nat) \<le> 90 \<or>
     97 \<le> (of_char c :: nat) \<and> (of_char c :: nat) \<le> 122"

definition infer_type :: "string \<Rightarrow> string option" where
  "infer_type text =
     (let v = trim text;
          cidr = (case split_once CHR ''/'' v of
                    Some (address, prefix) \<Rightarrow>
                      if u8_from_str prefix \<noteq> None then
                        (if ipv4_from_str address then Some ''ipv4-addr''
                         else if ipv6_from_str address then Some ''ipv6-addr'' else None)
                      else None
                  | None \<Rightarrow> None);
          hex = list_all is_ascii_hexdigit v
      in if v = [] then None
         else if contains_str v ''://'' then Some ''url''
         else if ipv4_from_str v then Some ''ipv4-addr''
         else if ipv6_from_str v then Some ''ipv6-addr''
         else if cidr \<noteq> None then cidr
         else if CHR ''@'' \<in> set v \<and> length (split_on CHR ''@'' v) = 2 \<and> \<not> starts_with v ''@'' then Some ''email-addr''
         else if hex \<and> length v = 32 then Some ''file.MD5''
         else if hex \<and> length v = 40 then Some ''file.SHA-1''
         else if hex \<and> length v = 64 then Some ''file.SHA-256''
         else if hex \<and> length v = 128 then Some ''file.SHA-512''
         else if CHR ''.'' \<in> set v \<and> CHR '' '' \<notin> set v \<and>
                 (let tld = List.last (split_on CHR ''.'' v) in length tld \<ge> 2 \<and> list_all is_ascii_alphabetic tld)
              then Some ''domain-name''
         else None)"

definition observable_type :: "attribute_view \<Rightarrow> string option \<Rightarrow> untyped \<Rightarrow> typing option" where
  "observable_type view default_type untyped =
     (let known = (\<lambda>observable. \<lparr>ty_observable = observable, ty_fallback = False\<rparr>)
      in case tag_value (v_tags view) ''stix-type'' of
           Some tagged \<Rightarrow> Some (known tagged)
         | None \<Rightarrow>
             (case default_type of
                Some configured \<Rightarrow> Some (known configured)
              | None \<Rightarrow>
                  (case infer_type (v_value view) of
                     Some inferred \<Rightarrow> Some (known inferred)
                   | None \<Rightarrow>
                       (case untyped of
                          UntypedSkip \<Rightarrow> None
                        | UntypedInclude \<Rightarrow> Some \<lparr>ty_observable = UNTYPED_TYPE, ty_fallback = True\<rparr>))))"

definition stix_escape :: "string \<Rightarrow> string" where
  "stix_escape v = replace_char CHR 0x27 [CHR 0x5C, CHR 0x27] (replace_char CHR 0x5C [CHR 0x5C, CHR 0x5C] v)"

definition pattern_property :: "string \<Rightarrow> string option" where
  "pattern_property observable =
     (if observable = ''file'' \<or> observable = ''mutex'' then Some ''name''
      else if observable = ''windows-registry-key'' then Some ''key''
      else if observable = ''process'' then Some ''command_line''
      else if observable = ''user-account'' then Some ''user_id''
      else if observable = ''autonomous-system'' then Some ''number''
      else if observable = [] then None
      else Some ''value'')"

definition pattern_for :: "string \<Rightarrow> string \<Rightarrow> string option" where
  "pattern_for observable v =
     (case strip_prefix observable ''file.'' of
        Some algorithm \<Rightarrow> Some (''[file:hashes.'' @ quoted algorithm @ '' = '' @ quoted (stix_escape v) @ '']'')
      | None \<Rightarrow>
          map_option (\<lambda>property. ''['' @ observable @ '':'' @ property @ '' = '' @ quoted (stix_escape v) @ '']'')
            (pattern_property observable))"

section \<open>Objects\<close>

definition uuid_for :: "stix_lib \<Rightarrow> string \<Rightarrow> string" where
  "uuid_for lib key = uuid_v5 lib SIGHTINGDB key"

definition rfc3339 :: "stix_lib \<Rightarrow> int \<Rightarrow> string" where
  "rfc3339 lib seconds = to_rfc3339 lib (unwrap_or (instant_of lib seconds) UNIX_EPOCH)"

definition stix_confidence :: "attribute_view \<Rightarrow> u64 option" where
  "stix_confidence view =
     (case Option.bind (tag_value (v_tags view) ''confidence'') u64_from_str of
        Some n \<Rightarrow> if n \<le> 100 then Some n else None
      | None \<Rightarrow> None)"

definition valid_until :: "stix_lib \<Rightarrow> attribute_view \<Rightarrow> string option" where
  "valid_until lib view =
     (case tag_value (v_tags view) ''valid-until'' of
        Some tagged \<Rightarrow>
          (case parse_rfc3339 lib tagged of
             Some seconds \<Rightarrow> Some (rfc3339 lib seconds)
           | None \<Rightarrow> map_option (rfc3339 lib) (i64_from_str tagged))
      | None \<Rightarrow>
          if v_ttl view > 0
          then Some (rfc3339 lib (saturating_i64 (v_last_seen view + unwrap_or (i64_try_from (v_ttl view)) i64_max)))
          else None)"

definition trim_start_text :: "string \<Rightarrow> string \<Rightarrow> string" where
  "trim_start_text p s = trim_by (\<lambda>s. if starts_with s p then length p else 0) s"

definition stix_indicator_id :: "stix_lib \<Rightarrow> attribute_view \<Rightarrow> string \<Rightarrow> string" where
  "stix_indicator_id lib view observable =
     (let minted = ''indicator--'' @ uuid_for lib (''indicator:'' @ observable @ '':'' @ v_value view)
      in case tag_value (v_tags view) ''stix-id'' of
           Some given \<Rightarrow>
             if starts_with given ''indicator--'' \<and> uuid_parses lib (trim_start_text ''indicator--'' given) then given else minted
         | None \<Rightarrow> minted)"

definition optional_field :: "string \<Rightarrow> json option \<Rightarrow> (string \<times> json) list" where
  "optional_field name v = (case v of None \<Rightarrow> [] | Some j \<Rightarrow> [(name, j)])"

definition nonempty_array :: "json list \<Rightarrow> json option" where
  "nonempty_array xs = (if xs = [] then None else Some (JArr xs))"

definition stix_indicator :: "stix_lib \<Rightarrow> string \<Rightarrow> attribute_view \<Rightarrow> string \<Rightarrow> string \<Rightarrow> json list \<Rightarrow> bool \<Rightarrow> json" where
  "stix_indicator lib ident view pattern author markings fallback =
     JObj ([(''type'', JStr ''indicator''), (''spec_version'', JStr ''2.1''), (''id'', JStr ident), (''created_by_ref'', JStr author),
            (''created'', JStr (rfc3339 lib (v_first_seen view))), (''modified'', JStr (rfc3339 lib (v_last_seen view)))] @
       optional_field ''name'' (map_option JStr (tag_value (v_tags view) ''name'')) @
       optional_field ''description'' (map_option JStr (tag_value (v_tags view) ''description'')) @
       optional_field ''indicator_types'' (nonempty_array (map JStr (tag_values (v_tags view) ''indicator-type''))) @
       [(''pattern'', JStr pattern), (''pattern_type'', JStr ''stix'')] @
       optional_field ''x_sightingdb_untyped'' (if fallback then Some (JBool True) else None) @
       [(''valid_from'', JStr (rfc3339 lib (v_first_seen view)))] @
       optional_field ''valid_until'' (map_option JStr (valid_until lib view)) @
       optional_field ''confidence'' (map_option (\<lambda>n. JNum (uint n)) (stix_confidence view)) @
       optional_field ''object_marking_refs'' (nonempty_array markings))"

definition clamp_count :: "u64 \<Rightarrow> u64" where
  "clamp_count n = (if n < 1 then 1 else if n > 999999999 then 999999999 else n)"

definition stix_sighting ::
  "stix_lib \<Rightarrow> string \<Rightarrow> string \<Rightarrow> attribute_view \<Rightarrow> string \<Rightarrow> string \<Rightarrow> json list \<Rightarrow> json list \<Rightarrow> json" where
  "stix_sighting lib namespace observable view indicator_id author seen_by markings =
     JObj ([(''type'', JStr ''sighting''), (''spec_version'', JStr ''2.1''),
            (''id'', JStr (''sighting--'' @ uuid_for lib (''sighting:'' @ namespace @ '':'' @ observable @ '':'' @ v_value view))),
            (''created_by_ref'', JStr author),
            (''created'', JStr (rfc3339 lib (v_first_seen view))), (''modified'', JStr (rfc3339 lib (v_last_seen view))),
            (''first_seen'', JStr (rfc3339 lib (v_first_seen view))), (''last_seen'', JStr (rfc3339 lib (v_last_seen view))),
            (''count'', JNum (uint (clamp_count (v_count view)))), (''sighting_of_ref'', JStr indicator_id),
            (''where_sighted_refs'', JArr seen_by), (''x_sightingdb_namespace'', JStr namespace)] @
       optional_field ''confidence'' (map_option (\<lambda>n. JNum (uint n)) (stix_confidence view)) @
       optional_field ''object_marking_refs'' (nonempty_array markings))"

definition stix_identity :: "stix_lib \<Rightarrow> string \<Rightarrow> string \<Rightarrow> json" where
  "stix_identity lib name class =
     JObj [(''type'', JStr ''identity''), (''spec_version'', JStr ''2.1''),
           (''id'', JStr (''identity--'' @ uuid_for lib (''identity:'' @ name))),
           (''created'', JStr TLP_CREATED), (''modified'', JStr TLP_CREATED),
           (''name'', JStr name), (''identity_class'', JStr class)]"

definition stix_marking :: "string \<Rightarrow> string \<Rightarrow> json" where
  "stix_marking level ident =
     JObj [(''type'', JStr ''marking-definition''), (''spec_version'', JStr ''2.1''), (''id'', JStr ident),
           (''created'', JStr TLP_CREATED), (''definition_type'', JStr ''tlp''),
           (''name'', JStr (''TLP:'' @ to_ascii_uppercase level)), (''definition'', JObj [(''tlp'', JStr level)])]"

section \<open>Bundles\<close>

definition object_id :: "json \<Rightarrow> string option" where
  "object_id object = Option.bind (json_get object ''id'') as_str"

definition id_of :: "json \<Rightarrow> string" where
  "id_of object = unwrap_or (object_id object) []"

record bundling =
  bo_objects :: "json list"
  bo_identities :: "(string \<times> json) list"
  bo_markings :: "string list"
  bo_skipped :: "string list"
  bo_exported :: nat
  bo_untyped :: nat

text \<open>The two loops over the tags of a value: the markings met so far and those of the value; the
  identities met so far and those that saw the value.\<close>

fun collect_markings :: "string list \<Rightarrow> string list \<times> json list \<Rightarrow> string list \<times> json list" where
  "collect_markings [] acc = acc"
| "collect_markings (level # levels) (markings, refs) =
     collect_markings levels
       (case tlp_id level of
          None \<Rightarrow> (markings, refs)
        | Some ident \<Rightarrow> (if ident \<in> set markings then markings else markings @ [ident],
                      if JStr ident \<in> set refs then refs else refs @ [JStr ident]))"

fun collect_identities ::
  "stix_lib \<Rightarrow> string list \<Rightarrow> (string \<times> json) list \<times> json list \<Rightarrow> (string \<times> json) list \<times> json list" where
  "collect_identities lib [] acc = acc"
| "collect_identities lib (name # names) (identities, seen_by) =
     (let object = stix_identity lib name ''organization''; ident = id_of object
      in collect_identities lib names
           (if list_ex (\<lambda>(known, _). known = ident) identities then identities else identities @ [(ident, object)],
            if JStr ident \<in> set seen_by then seen_by else seen_by @ [JStr ident]))"

text \<open>One round of the loop of \<open>bundle_of\<close>.\<close>

definition bundle_value ::
  "stix_lib \<Rightarrow> string \<Rightarrow> untyped \<Rightarrow> string \<Rightarrow> string option \<Rightarrow> attribute_view \<Rightarrow> bundling \<Rightarrow> bundling" where
  "bundle_value lib author_id untyped namespace default_type view b =
     (let skip = b\<lparr>bo_skipped := bo_skipped b @ [v_value view]\<rparr>
      in case observable_type view default_type untyped of
           None \<Rightarrow> skip
         | Some typing \<Rightarrow>
             (case pattern_for (ty_observable typing) (v_value view) of
                None \<Rightarrow> skip
              | Some pattern \<Rightarrow>
                  let observable = ty_observable typing;
                      (markings, refs) = collect_markings (tag_values (v_tags view) ''tlp'') (bo_markings b, []);
                      (identities, seen_by) = collect_identities lib (tag_values (v_tags view) ''identity'') (bo_identities b, []);
                      seen_by = (if seen_by = [] then [JStr author_id] else seen_by);
                      indicator_id = stix_indicator_id lib view observable
                  in b\<lparr>bo_objects := bo_objects b @
                          [stix_indicator lib indicator_id view pattern author_id refs (ty_fallback typing),
                           stix_sighting lib namespace observable view indicator_id author_id seen_by refs],
                       bo_identities := identities, bo_markings := markings,
                       bo_exported := bo_exported b + 1,
                       bo_untyped := (if ty_fallback typing then bo_untyped b + 1 else bo_untyped b)\<rparr>))"

fun bundle_values ::
  "stix_lib \<Rightarrow> string \<Rightarrow> untyped \<Rightarrow> string \<Rightarrow> string option \<Rightarrow> attribute_view list \<Rightarrow> bundling \<Rightarrow> bundling" where
  "bundle_values lib author_id untyped namespace default_type [] b = b"
| "bundle_values lib author_id untyped namespace default_type (view # views) b =
     bundle_values lib author_id untyped namespace default_type views
       (bundle_value lib author_id untyped namespace default_type view b)"

fun bundle_parts :: "stix_lib \<Rightarrow> string \<Rightarrow> untyped \<Rightarrow> stix_part list \<Rightarrow> bundling \<Rightarrow> bundling" where
  "bundle_parts lib author_id untyped [] b = b"
| "bundle_parts lib author_id untyped (part # parts) b =
     bundle_parts lib author_id untyped parts
       (bundle_values lib author_id untyped (part_namespace part) (part_type part) (part_values part) b)"

text \<open>\<open>retain\<close>: the first object of each id; one without an id stays.\<close>

fun first_by_id :: "string list \<Rightarrow> json list \<Rightarrow> json list" where
  "first_by_id seen [] = []"
| "first_by_id seen (object # objects) =
     (case object_id object of
        None \<Rightarrow> object # first_by_id seen objects
      | Some ident \<Rightarrow>
          if ident \<in> set seen then first_by_id seen objects else object # first_by_id (seen @ [ident]) objects)"

definition bundle_json :: "stix_lib \<Rightarrow> string \<Rightarrow> json list \<Rightarrow> json" where
  "bundle_json lib key objects =
     JObj [(''type'', JStr ''bundle''), (''id'', JStr (''bundle--'' @ uuid_for lib (''bundle:'' @ key))), (''objects'', JArr objects)]"

definition bundle_of :: "stix_lib \<Rightarrow> stix_part list \<Rightarrow> stix_publisher \<Rightarrow> untyped \<Rightarrow> stix_export" where
  "bundle_of lib parts settings untyped =
     (let author = stix_identity lib (sp_identity settings) (sp_identity_class settings);
          b = bundle_parts lib (id_of author) untyped parts
                \<lparr>bo_objects = [author], bo_identities = [], bo_markings = [], bo_skipped = [], bo_exported = 0, bo_untyped = 0\<rparr>;
          objects = bo_objects b @ map snd (bo_identities b) @
            map (\<lambda>(level, ident). stix_marking level ident) (filter (\<lambda>(_, ident). ident \<in> set (bo_markings b)) TLP)
      in \<lparr>sx_bundle = bundle_json lib (join '','' (map part_namespace parts)) (first_by_id [] objects),
          sx_exported = bo_exported b, sx_skipped = bo_skipped b, sx_untyped = bo_untyped b, sx_truncated = False,
          sx_missing = [], sx_namespaces = length parts\<rparr>)"

record merging =
  me_objects :: "json list"
  me_seen :: "string list"
  me_exported :: nat
  me_untyped :: nat
  me_namespaces :: nat
  me_truncated :: bool
  me_skipped :: "string list"
  me_missing :: "string list"

fun merge_objects :: "json list \<Rightarrow> json list \<times> string list \<Rightarrow> json list \<times> string list" where
  "merge_objects [] acc = acc"
| "merge_objects (object # found) (objects, seen) =
     (case object_id object of
        None \<Rightarrow> merge_objects found (objects @ [object], seen)
      | Some ident \<Rightarrow>
          if ident \<in> set seen then merge_objects found (objects, seen)
          else merge_objects found (objects @ [object], seen @ [ident]))"

definition bundle_objects :: "json \<Rightarrow> json list option" where
  "bundle_objects bundle = Option.bind (json_get bundle ''objects'') as_array"

definition merge_part :: "stix_export \<Rightarrow> merging \<Rightarrow> merging" where
  "merge_part part m =
     (let m = m\<lparr>me_exported := me_exported m + sx_exported part, me_untyped := me_untyped m + sx_untyped part,
                me_namespaces := me_namespaces m + sx_namespaces part, me_truncated := (me_truncated m \<or> sx_truncated part),
                me_skipped := me_skipped m @ sx_skipped part, me_missing := push_missing (me_missing m) (sx_missing part)\<rparr>
      in case bundle_objects (sx_bundle part) of
           None \<Rightarrow> m
         | Some found \<Rightarrow>
             let (objects, seen) = merge_objects found (me_objects m, me_seen m)
             in m\<lparr>me_objects := objects, me_seen := seen\<rparr>)"

definition merge_exports :: "stix_lib \<Rightarrow> string list \<Rightarrow> stix_export list \<Rightarrow> stix_export" where
  "merge_exports lib namespaces parts =
     (let m = fold merge_part parts
                \<lparr>me_objects = [], me_seen = [], me_exported = 0, me_untyped = 0, me_namespaces = 0, me_truncated = False,
                 me_skipped = [], me_missing = []\<rparr>
      in \<lparr>sx_bundle = bundle_json lib (join '','' namespaces) (me_objects m), sx_exported = me_exported m,
          sx_skipped = me_skipped m, sx_untyped = me_untyped m, sx_truncated = me_truncated m, sx_missing = me_missing m,
          sx_namespaces = me_namespaces m\<rparr>)"

section \<open>From the database\<close>

fun export_pages ::
  "'f env \<Rightarrow> 'f disk \<Rightarrow> datetime \<Rightarrow> database \<Rightarrow> string list \<Rightarrow> string \<Rightarrow> nat
    \<Rightarrow> database \<times> (string \<times> attribute_view list) list \<times> string list \<times> bool" where
  "export_pages env disk now db [] wanted budget = (db, [], [], False)"
| "export_pages env disk now db (namespace # namespaces) wanted budget =
     (if budget = 0 then (db, [], [], True)
      else case Database_value_page env disk now db namespace wanted 0 budget False of
             (db, Some page) \<Rightarrow>
               (case export_pages env disk now db namespaces wanted (budget - length (pg_items page)) of
                  (db, pages, missing, truncated) \<Rightarrow>
                    (db, (namespace, pg_items page) # pages, missing, pg_total page > length (pg_items page) \<or> truncated))
           | (db, None) \<Rightarrow>
               (case export_pages env disk now db namespaces wanted budget of
                  (db, pages, missing, truncated) \<Rightarrow> (db, pages, namespace # missing, truncated)))"

definition part_of :: "stix_settings \<Rightarrow> string \<times> attribute_view list \<Rightarrow> stix_part" where
  "part_of settings page =
     \<lparr>part_namespace = fst page, part_values = snd page, part_type = StixSettings_type_of_namespace settings (fst page)\<rparr>"

definition export_namespaces ::
  "stix_lib \<Rightarrow> 'f env \<Rightarrow> 'f disk \<Rightarrow> datetime \<Rightarrow> database \<Rightarrow> stix_settings \<Rightarrow> string list \<Rightarrow> string \<Rightarrow> nat \<Rightarrow> untyped
    \<Rightarrow> database \<times> stix_export" where
  "export_namespaces lib env disk now db settings namespaces wanted limit untyped =
     (case export_pages env disk now db namespaces wanted limit of
        (db, pages, missing, truncated) \<Rightarrow>
          (db, (bundle_of lib (map (part_of settings) pages) (stx_export settings) untyped)
                 \<lparr>sx_truncated := truncated, sx_missing := missing\<rparr>))"

definition export_namespace ::
  "stix_lib \<Rightarrow> 'f env \<Rightarrow> 'f disk \<Rightarrow> datetime \<Rightarrow> database \<Rightarrow> stix_settings \<Rightarrow> string \<Rightarrow> nat \<Rightarrow> untyped
    \<Rightarrow> database \<times> stix_export option" where
  "export_namespace lib env disk now db settings namespace limit untyped =
     (case export_namespaces lib env disk now db settings [namespace] [] limit untyped of
        (db, export) \<Rightarrow> (db, if sx_missing export = [] then Some (export\<lparr>sx_missing := []\<rparr>) else None))"

fun with_bundle_id :: "json \<Rightarrow> string \<Rightarrow> json" where
  "with_bundle_id (JObj members) ident = JObj (map (\<lambda>(k, v). if k = ''id'' then (k, JStr ident) else (k, v)) members)"
| "with_bundle_id other ident = other"

definition export_value ::
  "stix_lib \<Rightarrow> 'f env \<Rightarrow> 'f disk \<Rightarrow> datetime \<Rightarrow> database \<Rightarrow> stix_settings \<Rightarrow> string \<Rightarrow> string \<Rightarrow> untyped
    \<Rightarrow> database \<times> stix_export option" where
  "export_value lib env disk now db settings namespace v untyped =
     (case Database_view env disk now db namespace v 0 False of
        (db, None) \<Rightarrow> (db, None)
      | (db, Some view) \<Rightarrow>
          let export = bundle_of lib [part_of settings (namespace, [view])] (stx_export settings) untyped
          in (db, Some (export\<lparr>sx_bundle :=
                with_bundle_id (sx_bundle export) (''bundle--'' @ uuid_for lib (''bundle:'' @ namespace @ '':'' @ v))\<rparr>)))"

end
