(* ===== verification/Stix_Laws.thy ===== *)
theory Stix_Laws
  imports Stix
begin

text \<open>
  What a STIX bundle promises whoever reads it: every object appears once, everything an object refers to is in
  the bundle, and exporting namespaces on several servers and merging gives what one server holding them all
  would have given.
\<close>

section \<open>The first object of each id\<close>

definition has_id :: "json \<Rightarrow> bool" where
  "has_id object \<longleftrightarrow> object_id object \<noteq> None"

lemma object_id_of: "has_id object \<Longrightarrow> object_id object = Some (id_of object)"
  by (auto simp: has_id_def id_of_def unwrap_or_def)

lemma first_by_id_subset: "set (first_by_id seen xs) \<subseteq> set xs"
  by (induction seen xs rule: first_by_id.induct) (auto split: option.splits)

lemma first_by_id_distinct:
  "\<forall>x \<in> set xs. has_id x \<Longrightarrow> distinct (map id_of (first_by_id seen xs)) \<and> set (map id_of (first_by_id seen xs)) = set (map id_of xs) - set seen"
proof (induction xs arbitrary: seen)
  case (Cons x xs)
  then show ?case using Cons.IH [of seen] Cons.IH [of "seen @ [id_of x]"] by (auto simp: object_id_of)
qed simp

lemma first_by_id_append:
  "\<forall>x \<in> set (xs @ ys). has_id x \<Longrightarrow>
   first_by_id seen (xs @ ys) = first_by_id seen xs @ first_by_id (seen @ map id_of (first_by_id seen xs)) ys"
  by (induction xs arbitrary: seen) (auto simp: object_id_of)

lemma first_by_id_finds:
  "\<forall>x \<in> set xs. has_id x \<Longrightarrow> i \<notin> set seen \<Longrightarrow>
   find (\<lambda>y. id_of y = i) (first_by_id seen xs) = find (\<lambda>y. id_of y = i) xs"
  by (induction xs arbitrary: seen) (auto simp: object_id_of)

lemma first_by_id_member:
  assumes "\<forall>x \<in> set xs. has_id x"
  shows "x \<in> set (first_by_id [] xs) \<longleftrightarrow> find (\<lambda>y. id_of y = id_of x) xs = Some x"
proof -
  have d: "distinct (map id_of (first_by_id [] xs))" using first_by_id_distinct [OF assms, of "[]"] by simp
  have "x \<in> set ys \<longleftrightarrow> find (\<lambda>y. id_of y = id_of x) ys = Some x" if "distinct (map id_of ys)" for ys
    using that by (induction ys) (auto simp: image_iff)
  from this [OF d] show ?thesis using first_by_id_finds [OF assms, of "id_of x" "[]"] by simp
qed

lemma same_firsts:
  assumes "\<forall>x \<in> set xs. has_id x" "\<forall>x \<in> set ys. has_id x"
    and "\<And>i. find (\<lambda>y. id_of y = i) xs = find (\<lambda>y. id_of y = i) ys"
  shows "set (first_by_id [] xs) = set (first_by_id [] ys)"
  by (auto simp: first_by_id_member assms)

section \<open>What the loops collect\<close>

lemma push_missing_append: "push_missing seen (a @ b) = push_missing (push_missing seen a) b"
  by (induction a arbitrary: seen) auto

lemma collect_markings_eq:
  "collect_markings levels (markings, map JStr refs) =
     (push_missing markings (List.map_filter tlp_id levels), map JStr (push_missing refs (List.map_filter tlp_id levels)))"
proof (induction levels arbitrary: markings refs)
  case (Cons level levels)
  show ?case
  proof (cases "tlp_id level")
    case None
    then show ?thesis using Cons by (simp add: List.map_filter_simps)
  next
    case (Some i)
    have "(if JStr i \<in> set (map JStr refs) then map JStr refs else map JStr refs @ [JStr i]) =
        map JStr (if i \<in> set refs then refs else refs @ [i])" by auto
    then show ?thesis using Cons Some by (simp add: List.map_filter_simps)
  qed
qed (simp add: List.map_filter_simps)

definition organization :: "stix_lib \<Rightarrow> string \<Rightarrow> json" where
  "organization lib name = stix_identity lib name ''organization''"

definition identity_id :: "stix_lib \<Rightarrow> string \<Rightarrow> string" where
  "identity_id lib name = ''identity--'' @ uuid_for lib (''identity:'' @ name)"

lemma identity_ids [simp]:
  "object_id (stix_identity lib name class) = Some (identity_id lib name)"
  "id_of (stix_identity lib name class) = identity_id lib name"
  by (simp_all add: object_id_def id_of_def stix_identity_def as_str_def unwrap_or_def identity_id_def)

definition known_ids :: "(string \<times> json) list \<Rightarrow> bool" where
  "known_ids identities \<longleftrightarrow> (\<forall>(i, object) \<in> set identities. object_id object = Some i)"

lemma collect_identities_eq:
  "known_ids identities \<Longrightarrow> collect_identities lib names (identities, map JStr refs) =
     (identities @ map (\<lambda>x. (id_of x, x)) (first_by_id (map fst identities) (map (organization lib) names)),
      map JStr (push_missing refs (map (identity_id lib) names)))"
proof (induction names arbitrary: identities refs)
  case (Cons name names)
  let ?i = "identity_id lib name" and ?x = "organization lib name"
  have mem: "list_ex (\<lambda>(known, _). known = ?i) identities \<longleftrightarrow> ?i \<in> set (map fst identities)"
    by (force simp: list_ex_iff)
  have refs: "(if JStr ?i \<in> set (map JStr refs) then map JStr refs else map JStr refs @ [JStr ?i]) =
      map JStr (if ?i \<in> set refs then refs else refs @ [?i])" by auto
  let ?I = "if ?i \<in> set (map fst identities) then identities else identities @ [(?i, ?x)]"
  have ok: "known_ids ?I" using Cons.prems by (auto simp: known_ids_def organization_def)
  have "collect_identities lib (name # names) (identities, map JStr refs) =
      collect_identities lib names (?I, map JStr (if ?i \<in> set refs then refs else refs @ [?i]))"
    unfolding collect_identities.simps Let_def identity_ids mem organization_def refs by simp
  then show ?case using Cons.IH [OF ok] by (auto simp: organization_def)
qed simp

section \<open>What a value becomes\<close>

text \<open>The objects of one value, the markings it names and who saw it, on their own.\<close>

definition value_levels :: "attribute_view \<Rightarrow> string list" where
  "value_levels view = List.map_filter tlp_id (tag_values (v_tags view) ''tlp'')"

definition value_names :: "attribute_view \<Rightarrow> string list" where
  "value_names view = tag_values (v_tags view) ''identity''"

definition value_typing :: "untyped \<Rightarrow> string option \<Rightarrow> attribute_view \<Rightarrow> (typing \<times> string) option" where
  "value_typing untyped default_type view =
     Option.bind (observable_type view default_type untyped) (\<lambda>t. map_option (Pair t) (pattern_for (ty_observable t) (v_value view)))"

definition value_seen_by :: "stix_lib \<Rightarrow> string \<Rightarrow> attribute_view \<Rightarrow> string list" where
  "value_seen_by lib author_id view =
     (let ids = push_missing [] (map (identity_id lib) (value_names view)) in if ids = [] then [author_id] else ids)"

definition value_objects ::
  "stix_lib \<Rightarrow> string \<Rightarrow> string \<Rightarrow> attribute_view \<Rightarrow> typing \<Rightarrow> string \<Rightarrow> json list" where
  "value_objects lib author_id namespace view t pattern =
     (let refs = map JStr (push_missing [] (value_levels view));
          indicator_id = stix_indicator_id lib view (ty_observable t)
      in [stix_indicator lib indicator_id view pattern author_id refs (ty_fallback t),
          stix_sighting lib namespace (ty_observable t) view indicator_id author_id
            (map JStr (value_seen_by lib author_id view)) refs])"

lemma bundle_value_skips:
  "value_typing untyped default_type view = None \<Longrightarrow>
   bundle_value lib author_id untyped namespace default_type view b = b\<lparr>bo_skipped := bo_skipped b @ [v_value view]\<rparr>"
  by (auto simp: bundle_value_def value_typing_def Let_def split: option.splits bind_splits)

lemma bundle_value_exports:
  assumes t: "value_typing untyped default_type view = Some (t, pattern)" and k: "known_ids (bo_identities b)"
  shows "bundle_value lib author_id untyped namespace default_type view b =
     b\<lparr>bo_objects := bo_objects b @ value_objects lib author_id namespace view t pattern,
       bo_identities := bo_identities b @ map (\<lambda>x. (id_of x, x))
         (first_by_id (map fst (bo_identities b)) (map (organization lib) (value_names view))),
       bo_markings := push_missing (bo_markings b) (value_levels view), bo_exported := bo_exported b + 1,
       bo_untyped := bo_untyped b + (if ty_fallback t then 1 else 0)\<rparr>"
proof -
  have o: "observable_type view default_type untyped = Some t" "pattern_for (ty_observable t) (v_value view) = Some pattern"
    using t by (auto simp: value_typing_def split: bind_splits)
  have m: "collect_markings (tag_values (v_tags view) ''tlp'') (bo_markings b, []) =
      (push_missing (bo_markings b) (value_levels view), map JStr (push_missing [] (value_levels view)))"
    using collect_markings_eq [of "tag_values (v_tags view) ''tlp''" "bo_markings b" "[]"] by (simp add: value_levels_def)
  have i: "collect_identities lib (tag_values (v_tags view) ''identity'') (bo_identities b, []) =
      (bo_identities b @ map (\<lambda>x. (id_of x, x)) (first_by_id (map fst (bo_identities b)) (map (organization lib) (value_names view))),
       map JStr (push_missing [] (map (identity_id lib) (value_names view))))"
    using collect_identities_eq [OF k, of lib "value_names view" "[]"] by (simp add: value_names_def)
  show ?thesis
    unfolding bundle_value_def o option.case m i Let_def prod.case value_objects_def value_seen_by_def by auto
qed

section \<open>What the parts become\<close>

type_synonym stix_item = "string \<times> string option \<times> attribute_view"

definition part_items :: "stix_part \<Rightarrow> stix_item list" where
  "part_items p = map (\<lambda>v. (part_namespace p, part_type p, v)) (part_values p)"

definition items_of :: "stix_part list \<Rightarrow> stix_item list" where
  "items_of parts = concat (map part_items parts)"

definition exported_items :: "untyped \<Rightarrow> stix_item list \<Rightarrow> (string \<times> attribute_view \<times> typing \<times> string) list" where
  "exported_items untyped items = List.map_filter (\<lambda>(namespace, default_type, view).
     map_option (\<lambda>(t, pattern). (namespace, view, t, pattern)) (value_typing untyped default_type view)) items"

definition skipped_items :: "untyped \<Rightarrow> stix_item list \<Rightarrow> string list" where
  "skipped_items untyped items = List.map_filter (\<lambda>(namespace, default_type, view).
     if value_typing untyped default_type view = None then Some (v_value view) else None) items"

definition objects_of :: "stix_lib \<Rightarrow> string \<Rightarrow> (string \<times> attribute_view \<times> typing \<times> string) list \<Rightarrow> json list" where
  "objects_of lib author_id exported =
     concat (map (\<lambda>(namespace, view, t, pattern). value_objects lib author_id namespace view t pattern) exported)"

definition names_of :: "(string \<times> attribute_view \<times> typing \<times> string) list \<Rightarrow> string list" where
  "names_of exported = concat (map (\<lambda>(_, view, _, _). value_names view) exported)"

definition levels_of :: "(string \<times> attribute_view \<times> typing \<times> string) list \<Rightarrow> string list" where
  "levels_of exported = concat (map (\<lambda>(_, view, _, _). value_levels view) exported)"

definition fallbacks :: "(string \<times> attribute_view \<times> typing \<times> string) list \<Rightarrow> nat" where
  "fallbacks exported = length (filter (\<lambda>(_, _, t, _). ty_fallback t) exported)"

lemmas item_defs = exported_items_def skipped_items_def objects_of_def names_of_def levels_of_def fallbacks_def items_of_def

lemma items_append:
  "items_of (ps @ qs) = items_of ps @ items_of qs"
  "exported_items u (xs @ ys) = exported_items u xs @ exported_items u ys"
  "skipped_items u (xs @ ys) = skipped_items u xs @ skipped_items u ys"
  "objects_of lib a (es @ fs) = objects_of lib a es @ objects_of lib a fs"
  "names_of (es @ fs) = names_of es @ names_of fs"
  "levels_of (es @ fs) = levels_of es @ levels_of fs"
  "fallbacks (es @ fs) = fallbacks es + fallbacks fs"
  by (simp_all add: item_defs List.map_filter_def)

definition bundle_item :: "stix_lib \<Rightarrow> string \<Rightarrow> untyped \<Rightarrow> stix_item \<Rightarrow> bundling \<Rightarrow> bundling" where
  "bundle_item lib author_id untyped item = (case item of (namespace, default_type, view) \<Rightarrow>
     bundle_value lib author_id untyped namespace default_type view)"

lemma bundle_values_fold:
  "bundle_values lib a u (part_namespace p) (part_type p) views b =
     fold (bundle_item lib a u) (map (\<lambda>v. (part_namespace p, part_type p, v)) views) b"
  by (induction views arbitrary: b) (simp_all add: bundle_item_def)

lemma bundle_parts_fold: "bundle_parts lib a u parts b = fold (bundle_item lib a u) (items_of parts) b"
  by (induction parts arbitrary: b) (simp_all add: items_of_def part_items_def bundle_values_fold)

lemma organization_ids [simp]: "has_id (organization lib n)" "id_of (organization lib n) = identity_id lib n"
  "object_id (organization lib n) = Some (identity_id lib n)"
  by (simp_all add: organization_def has_id_def)

lemma known_ids_grow: "known_ids I \<Longrightarrow> \<forall>x \<in> set xs. has_id x \<Longrightarrow> known_ids (I @ map (\<lambda>x. (id_of x, x)) (first_by_id seen xs))"
  using first_by_id_subset [of seen xs] by (auto simp: known_ids_def object_id_of subset_iff)

lemma identities_grow:
  "map (\<lambda>x. (id_of x, x)) (first_by_id (map fst I) (map (organization lib) (ns @ ms))) =
   map (\<lambda>x. (id_of x, x)) (first_by_id (map fst I) (map (organization lib) ns)) @
   map (\<lambda>x. (id_of x, x)) (first_by_id (map fst (I @ map (\<lambda>x. (id_of x, x)) (first_by_id (map fst I) (map (organization lib) ns))))
     (map (organization lib) ms))"
proof -
  have "\<forall>x \<in> set (map (organization lib) ns @ map (organization lib) ms). has_id x" by auto
  from first_by_id_append [OF this, of "map fst I"] show ?thesis by (simp add: comp_def)
qed

lemma bundle_items_collect:
  "known_ids (bo_identities b) \<Longrightarrow> fold (bundle_item lib a u) items b =
     (let E = exported_items u items
      in b\<lparr>bo_objects := bo_objects b @ objects_of lib a E,
           bo_identities := bo_identities b @ map (\<lambda>x. (id_of x, x)) (first_by_id (map fst (bo_identities b)) (map (organization lib) (names_of E))),
           bo_markings := push_missing (bo_markings b) (levels_of E),
           bo_skipped := bo_skipped b @ skipped_items u items,
           bo_exported := bo_exported b + length E,
           bo_untyped := bo_untyped b + fallbacks E\<rparr>)"
proof (induction items arbitrary: b)
  case Nil
  then show ?case by (simp add: item_defs List.map_filter_simps)
next
  case (Cons item items)
  obtain namespace default_type view where item: "item = (namespace, default_type, view)" by (cases item)
  show ?case
  proof (cases "value_typing u default_type view")
    case None
    then have "bundle_item lib a u item b = b\<lparr>bo_skipped := bo_skipped b @ [v_value view]\<rparr>"
      by (simp add: item bundle_item_def bundle_value_skips)
    then show ?thesis using Cons None by (simp add: item Let_def exported_items_def skipped_items_def List.map_filter_simps)
  next
    case (Some tp)
    obtain t pattern where tp: "tp = (t, pattern)" by (cases tp)
    have E: "exported_items u (item # items) = [(namespace, view, t, pattern)] @ exported_items u items"
      and S: "skipped_items u (item # items) = skipped_items u items"
      by (simp_all add: exported_items_def skipped_items_def item Some tp List.map_filter_simps)
    let ?x = "[(namespace, view, t, pattern)]"
    have one: "objects_of lib a ?x = value_objects lib a namespace view t pattern" "names_of ?x = value_names view"
      "levels_of ?x = value_levels view" "fallbacks ?x = (if ty_fallback t then 1 else 0)"
      by (simp_all add: item_defs)
    let ?I = "bo_identities b @ map (\<lambda>x. (id_of x, x)) (first_by_id (map fst (bo_identities b)) (map (organization lib) (value_names view)))"
    have b': "bundle_item lib a u item b = b\<lparr>bo_objects := bo_objects b @ value_objects lib a namespace view t pattern,
        bo_identities := ?I, bo_markings := push_missing (bo_markings b) (value_levels view), bo_exported := bo_exported b + 1,
        bo_untyped := bo_untyped b + (if ty_fallback t then 1 else 0)\<rparr>"
      using bundle_value_exports [OF Some [unfolded tp] Cons.prems] by (simp add: item bundle_item_def)
    have ok: "known_ids (bo_identities (bundle_item lib a u item b))"
      unfolding b' using known_ids_grow [OF Cons.prems, of "map (organization lib) (value_names view)"] by simp
    have "fold (bundle_item lib a u) (item # items) b = fold (bundle_item lib a u) items (bundle_item lib a u item b)" by simp
    also note Cons.IH [OF ok]
    finally show ?thesis unfolding E S items_append one Let_def b' identities_grow push_missing_append by simp
  qed
qed

definition TLP_markings :: "string list \<Rightarrow> json list" where
  "TLP_markings ids = map (\<lambda>(level, ident). stix_marking level ident) (filter (\<lambda>(_, ident). ident \<in> set ids) TLP)"

text \<open>What a bundle holds before duplicates go.\<close>

definition gathered :: "stix_lib \<Rightarrow> stix_publisher \<Rightarrow> (string \<times> attribute_view \<times> typing \<times> string) list \<Rightarrow> json list" where
  "gathered lib settings E =
     (let author = stix_identity lib (sp_identity settings) (sp_identity_class settings)
      in author # objects_of lib (id_of author) E @ first_by_id [] (map (organization lib) (names_of E)) @ TLP_markings (levels_of E))"

lemma set_push: "set (push_missing [] xs) = set xs"
  by simp

lemma bundle_of_eq:
  "bundle_of lib parts settings u =
     (let E = exported_items u (items_of parts)
      in \<lparr>sx_bundle = bundle_json lib (join '','' (map part_namespace parts)) (first_by_id [] (gathered lib settings E)),
          sx_exported = length E, sx_skipped = skipped_items u (items_of parts), sx_untyped = fallbacks E, sx_truncated = False,
          sx_missing = [], sx_namespaces = length parts\<rparr>)"
proof -
  let ?b = "\<lparr>bo_objects = [stix_identity lib (sp_identity settings) (sp_identity_class settings)], bo_identities = [], bo_markings = [],
    bo_skipped = [], bo_exported = 0, bo_untyped = 0\<rparr>"
  have "known_ids (bo_identities ?b)" by (simp add: known_ids_def)
  note c = bundle_items_collect [OF this, of lib _ u "items_of parts"]
  show ?thesis
    unfolding bundle_of_def Let_def bundle_parts_fold c by (simp add: gathered_def TLP_markings_def Let_def comp_def)
qed

section \<open>Ids say what an object is\<close>

lemma indicator_ids [simp]:
  "object_id (stix_indicator lib ident view pattern author markings fallback) = Some ident"
  "id_of (stix_indicator lib ident view pattern author markings fallback) = ident"
  by (simp_all add: object_id_def id_of_def stix_indicator_def as_str_def unwrap_or_def)

definition sighting_id :: "stix_lib \<Rightarrow> string \<Rightarrow> string \<Rightarrow> attribute_view \<Rightarrow> string" where
  "sighting_id lib namespace observable view =
     ''sighting--'' @ uuid_for lib (''sighting:'' @ namespace @ '':'' @ observable @ '':'' @ v_value view)"

lemma sighting_ids [simp]:
  "object_id (stix_sighting lib namespace observable view ind author seen_by markings) = Some (sighting_id lib namespace observable view)"
  "id_of (stix_sighting lib namespace observable view ind author seen_by markings) = sighting_id lib namespace observable view"
  by (simp_all add: object_id_def id_of_def stix_sighting_def as_str_def unwrap_or_def sighting_id_def)

lemma marking_ids [simp]: "object_id (stix_marking level ident) = Some ident" "id_of (stix_marking level ident) = ident"
  by (simp_all add: object_id_def id_of_def stix_marking_def as_str_def unwrap_or_def)

lemma indicator_id_kind: "starts_with (stix_indicator_id lib view observable) ''indicator--''"
  using starts_with_append [of "''indicator--''"]
  by (auto simp: stix_indicator_id_def Let_def split: option.splits simp del: append_Cons append_Nil)

lemma kinds_of_ids:
  "hd (identity_id lib n) = CHR ''i''" "hd (tl (identity_id lib n)) = CHR ''d''"
  "hd (stix_indicator_id lib view observable) = CHR ''i''" "hd (tl (stix_indicator_id lib view observable)) = CHR ''n''"
  "hd (sighting_id lib namespace observable view) = CHR ''s''"
  "(level, ident) \<in> set TLP \<Longrightarrow> hd ident = CHR ''m''"
proof -
  obtain rest where "stix_indicator_id lib view observable = ''indicator--'' @ rest"
    using indicator_id_kind starts_with_iff by blast
  then show "hd (stix_indicator_id lib view observable) = CHR ''i''" "hd (tl (stix_indicator_id lib view observable)) = CHR ''n''"
    by simp_all
qed (auto simp: identity_id_def sighting_id_def TLP_def)

definition of_value :: "string \<Rightarrow> bool" where
  "of_value i \<longleftrightarrow> hd i = CHR ''s'' \<or> hd i = CHR ''i'' \<and> hd (tl i) = CHR ''n''"

definition of_identity :: "string \<Rightarrow> bool" where
  "of_identity i \<longleftrightarrow> hd i = CHR ''i'' \<and> hd (tl i) = CHR ''d''"

lemma objects_of_kind: "x \<in> set (objects_of lib a E) \<Longrightarrow> has_id x \<and> of_value (id_of x)"
  by (auto simp: objects_of_def value_objects_def Let_def has_id_def of_value_def kinds_of_ids)

lemma organizations_kind: "x \<in> set (map (organization lib) names) \<Longrightarrow> has_id x \<and> of_identity (id_of x)"
  by (auto simp: of_identity_def kinds_of_ids)

lemma markings_kind: "x \<in> set (TLP_markings ids) \<Longrightarrow> has_id x \<and> hd (id_of x) = CHR ''m''"
  by (auto simp: TLP_markings_def has_id_def kinds_of_ids)

lemma gathered_has_ids: "\<forall>x \<in> set (gathered lib settings E). has_id x"
  using objects_of_kind organizations_kind markings_kind first_by_id_subset [of "[]" "map (organization lib) (names_of E)"]
  by (auto simp: gathered_def Let_def has_id_def)

section \<open>References stay inside the bundle\<close>

definition texts_in :: "json \<Rightarrow> string list" where
  "texts_in j = (case j of JStr s \<Rightarrow> [s] | JArr xs \<Rightarrow> List.map_filter as_str xs | _ \<Rightarrow> [])"

text \<open>The ids an object points at.\<close>

definition refs_of :: "json \<Rightarrow> string list" where
  "refs_of object = concat (map (\<lambda>k. case json_get object k of None \<Rightarrow> [] | Some j \<Rightarrow> texts_in j)
     [''created_by_ref'', ''sighting_of_ref'', ''where_sighted_refs'', ''object_marking_refs''])"

lemma texts_in_strings [simp]: "texts_in (JStr s) = [s]" "texts_in (JArr (map JStr xs)) = xs"
  by (induction xs) (simp_all add: texts_in_def List.map_filter_simps as_str_def)

lemma nonempty_strings: "nonempty_array (map JStr xs) = (if xs = [] then None else Some (JArr (map JStr xs)))"
  by (simp add: nonempty_array_def)

lemma map_of_optional: "map_of (optional_field k v) k' = (if k = k' then v else None)"
  by (simp add: optional_field_def split: option.split)

lemma refs_of_objects:
  "refs_of (stix_indicator lib ident view pattern author (map JStr refs) fallback) = author # refs"
  "refs_of (stix_sighting lib namespace observable view ind author (map JStr seen_by) (map JStr refs)) = author # ind # seen_by @ refs"
  "refs_of (stix_identity lib name class) = []"
  "refs_of (stix_marking level ident) = []"
  by (auto simp: refs_of_def stix_indicator_def stix_sighting_def stix_identity_def stix_marking_def map_of_append map_add_def
    map_of_optional nonempty_strings split: option.splits)

lemma tlp_id_known: "tlp_id level = Some ident \<Longrightarrow> ident \<in> snd ` set TLP"
proof -
  have "find P xs = Some y \<Longrightarrow> y \<in> set xs" for P xs and y :: "string \<times> string" by (metis find_Some_iff nth_mem)
  then show "tlp_id level = Some ident \<Longrightarrow> ident \<in> snd ` set TLP"
    by (auto simp: tlp_id_def Let_def) (metis image_eqI snd_conv)
qed

lemma levels_known: "i \<in> set (value_levels view) \<Longrightarrow> i \<in> snd ` set TLP"
  using tlp_id_known by (auto simp: value_levels_def List.map_filter_def)

lemma markings_ids: "i \<in> set ids \<Longrightarrow> i \<in> snd ` set TLP \<Longrightarrow> i \<in> id_of ` set (TLP_markings ids)"
  by (force simp: TLP_markings_def)

lemma gathered_refs:
  assumes x: "x \<in> set (gathered lib settings E)" and r: "r \<in> set (refs_of x)"
  shows "r \<in> id_of ` set (gathered lib settings E)"
proof -
  let ?a = "identity_id lib (sp_identity settings)"
  let ?o = "map (organization lib) (names_of E)"
  have no: "refs_of y = []" if "y \<in> set ?o \<or> y \<in> set (TLP_markings (levels_of E)) \<or> y = stix_identity lib n c" for y n c
    using that by (auto simp: organization_def TLP_markings_def refs_of_objects)
  have "x \<in> set (objects_of lib ?a E)"
    using x r no first_by_id_subset [of "[]" ?o] by (fastforce simp: gathered_def Let_def)
  then obtain namespace view t pattern where e: "(namespace, view, t, pattern) \<in> set E"
      and xo: "x \<in> set (value_objects lib ?a namespace view t pattern)"
    by (auto simp: objects_of_def)
  have ind: "stix_indicator_id lib view (ty_observable t) \<in> id_of ` set (objects_of lib ?a E)"
    using e by (force simp: objects_of_def value_objects_def Let_def)
  have orgs: "id_of ` set (first_by_id [] ?o) = identity_id lib ` set (names_of E)"
    using first_by_id_distinct [of ?o "[]"] by (auto simp: image_image)
  have names: "set (value_names view) \<subseteq> set (names_of E)" using e by (force simp: names_of_def)
  have levels: "set (value_levels view) \<subseteq> set (levels_of E)" using e by (force simp: levels_of_def)
  have "r = ?a \<or> r = stix_indicator_id lib view (ty_observable t) \<or> r \<in> set (value_seen_by lib ?a view) \<or> r \<in> set (value_levels view)"
    using r xo by (auto simp: value_objects_def Let_def refs_of_objects)
  moreover have "set (value_seen_by lib ?a view) \<subseteq> {?a} \<union> identity_id lib ` set (names_of E)"
    using names by (auto simp: value_seen_by_def Let_def)
  moreover have "i \<in> id_of ` set (TLP_markings (levels_of E))" if "i \<in> set (value_levels view)" for i
    using that levels levels_known markings_ids by blast
  ultimately show ?thesis using ind orgs by (auto simp: gathered_def Let_def image_Un)
qed

definition exported_objects :: "stix_export \<Rightarrow> json list" where
  "exported_objects export = unwrap_or (bundle_objects (sx_bundle export)) []"

lemma bundle_json_objects [simp]: "bundle_objects (bundle_json lib key objects) = Some objects"
  by (simp add: bundle_objects_def bundle_json_def as_array_def)

lemma exported_objects_eq:
  "exported_objects (bundle_of lib parts settings u) = first_by_id [] (gathered lib settings (exported_items u (items_of parts)))"
  by (simp add: exported_objects_def bundle_of_eq Let_def unwrap_or_def)

lemma items_accounted: "length (exported_items u items) + length (skipped_items u items) = length items"
  by (induction items) (auto simp: exported_items_def skipped_items_def List.map_filter_simps)

lemma items_count: "length (items_of parts) = sum_list (map (\<lambda>p. length (part_values p)) parts)"
  by (induction parts) (simp_all add: items_of_def part_items_def)

text \<open>
  C17. Whatever is exported, the bundle stands on its own: no two of its objects have the same id, and every id an
  object refers to (its author, the indicator sighted, who saw it, its markings) is the id of an object in the
  bundle. Every value asked for is either exported or reported as left out.
\<close>
theorem stix_bundle_is_closed:
  "distinct (map id_of (exported_objects (bundle_of lib parts settings untyped))) \<and>
   set (concat (map refs_of (exported_objects (bundle_of lib parts settings untyped)))) \<subseteq>
      id_of ` set (exported_objects (bundle_of lib parts settings untyped)) \<and>
   sx_exported (bundle_of lib parts settings untyped) + length (sx_skipped (bundle_of lib parts settings untyped)) =
      sum_list (map (\<lambda>p. length (part_values p)) parts)"
proof -
  let ?g = "gathered lib settings (exported_items untyped (items_of parts))"
  note d = first_by_id_distinct [OF gathered_has_ids [of lib settings "exported_items untyped (items_of parts)"], of "[]"]
  have ids: "id_of ` set (first_by_id [] ?g) = id_of ` set ?g" using d by simp
  have "set (refs_of object) \<subseteq> id_of ` set (first_by_id [] ?g)" if "object \<in> set (first_by_id [] ?g)" for object
    using that first_by_id_subset [of "[]" ?g] gathered_refs ids by blast
  moreover have "sx_exported (bundle_of lib parts settings untyped) + length (sx_skipped (bundle_of lib parts settings untyped)) =
      sum_list (map (\<lambda>p. length (part_values p)) parts)"
    using items_accounted [of untyped "items_of parts"] by (simp add: bundle_of_eq Let_def items_count)
  ultimately show ?thesis using d unfolding exported_objects_eq by auto
qed

section \<open>One server, or several\<close>

lemma merge_objects_eq:
  "\<forall>x \<in> set found. has_id x \<Longrightarrow>
   merge_objects found (objects, seen) = (objects @ first_by_id seen found, seen @ map id_of (first_by_id seen found))"
  by (induction found arbitrary: objects seen) (auto simp: object_id_of)

definition merging_start :: merging where
  "merging_start = \<lparr>me_objects = [], me_seen = [], me_exported = 0, me_untyped = 0, me_namespaces = 0, me_truncated = False,
     me_skipped = [], me_missing = []\<rparr>"

lemma merge_parts_eq:
  assumes "\<And>p x. p \<in> set ps \<Longrightarrow> x \<in> set (exported_objects (f p)) \<Longrightarrow> has_id x"
    and "\<And>p. p \<in> set ps \<Longrightarrow> bundle_objects (sx_bundle (f p)) \<noteq> None \<and> sx_missing (f p) = [] \<and> \<not> sx_truncated (f p) \<and> sx_namespaces (f p) = 1"
    and "\<forall>x \<in> set xs. has_id x"
  shows "fold merge_part (map f ps) \<lparr>me_objects = first_by_id [] xs, me_seen = map id_of (first_by_id [] xs), me_exported = e, me_untyped = u,
       me_namespaces = n, me_truncated = False, me_skipped = sk, me_missing = []\<rparr> =
     (let ys = xs @ concat (map (\<lambda>p. exported_objects (f p)) ps)
      in \<lparr>me_objects = first_by_id [] ys, me_seen = map id_of (first_by_id [] ys),
          me_exported = e + sum_list (map (\<lambda>p. sx_exported (f p)) ps), me_untyped = u + sum_list (map (\<lambda>p. sx_untyped (f p)) ps),
          me_namespaces = n + length ps, me_truncated = False, me_skipped = sk @ concat (map (\<lambda>p. sx_skipped (f p)) ps), me_missing = []\<rparr>)"
  using assms
proof (induction ps arbitrary: xs e u n sk)
  case (Cons p ps)
  let ?o = "exported_objects (f p)"
  have ids: "\<forall>x \<in> set ?o. has_id x" and xs: "\<forall>x \<in> set xs. has_id x" and all: "\<forall>x \<in> set (xs @ ?o). has_id x"
    using Cons.prems(1,3) by auto
  have found: "bundle_objects (sx_bundle (f p)) = Some ?o" using Cons.prems(2) [of p] by (auto simp: exported_objects_def unwrap_or_def)
  have step: "merge_part (f p) \<lparr>me_objects = first_by_id [] xs, me_seen = map id_of (first_by_id [] xs), me_exported = e, me_untyped = u,
       me_namespaces = n, me_truncated = False, me_skipped = sk, me_missing = []\<rparr> =
     \<lparr>me_objects = first_by_id [] (xs @ ?o), me_seen = map id_of (first_by_id [] (xs @ ?o)), me_exported = e + sx_exported (f p),
       me_untyped = u + sx_untyped (f p), me_namespaces = n + 1, me_truncated = False, me_skipped = sk @ sx_skipped (f p), me_missing = []\<rparr>"
    using Cons.prems(2) [of p] first_by_id_append [OF all, of "[]"]
    by (simp add: merge_part_def Let_def found merge_objects_eq [OF ids])
  have rest: "\<And>q x. q \<in> set ps \<Longrightarrow> x \<in> set (exported_objects (f q)) \<Longrightarrow> has_id x"
    "\<And>q. q \<in> set ps \<Longrightarrow> bundle_objects (sx_bundle (f q)) \<noteq> None \<and> sx_missing (f q) = [] \<and> \<not> sx_truncated (f q) \<and> sx_namespaces (f q) = 1"
    using Cons.prems(1,2) by auto
  show ?case using Cons.IH [OF rest all] by (simp add: step Let_def add.assoc)
qed simp

text \<open>What a part contributes, and what all parts contribute together.\<close>

definition laid_out :: "stix_lib \<Rightarrow> stix_publisher \<Rightarrow> (string \<times> attribute_view \<times> typing \<times> string) list \<Rightarrow> json list" where
  "laid_out lib settings E =
     (let author = stix_identity lib (sp_identity settings) (sp_identity_class settings)
      in author # objects_of lib (id_of author) E @ map (organization lib) (names_of E) @ TLP_markings (levels_of E))"

lemma find_append: "find P (xs @ ys) = (case find P xs of None \<Rightarrow> find P ys | Some x \<Rightarrow> Some x)"
  by (induction xs) auto

lemma find_gathered: "find (\<lambda>y. id_of y = i) (gathered lib settings E) = find (\<lambda>y. id_of y = i) (laid_out lib settings E)"
proof -
  have "\<forall>x \<in> set (map (organization lib) (names_of E)). has_id x" by simp
  note f = first_by_id_finds [OF this, of i "[]"]
  show ?thesis by (auto simp: gathered_def laid_out_def Let_def find_append f split: option.splits)
qed

lemma find_concat_cong:
  "(\<And>p. p \<in> set ps \<Longrightarrow> find P (f p) = find P (g p)) \<Longrightarrow> find P (concat (map f ps)) = find P (concat (map g ps))"
  by (induction ps) (auto simp: find_append split: option.splits)

lemma filter_none: "(\<And>x. x \<in> set xs \<Longrightarrow> \<not> P x) \<Longrightarrow> filter P xs = []"
  by (simp add: filter_empty_conv)

lemma filter_laid_out:
  assumes "i \<noteq> identity_id lib (sp_identity settings)"
  shows "filter (\<lambda>y. id_of y = i) (laid_out lib settings E) =
    (if of_value i then filter (\<lambda>y. id_of y = i) (objects_of lib (identity_id lib (sp_identity settings)) E)
     else if of_identity i then filter (\<lambda>y. id_of y = i) (map (organization lib) (names_of E))
     else filter (\<lambda>y. id_of y = i) (TLP_markings (levels_of E)))"
proof -
  let ?P = "\<lambda>y. id_of y = i" and ?a = "identity_id lib (sp_identity settings)"
  have split: "filter ?P (laid_out lib settings E) = filter ?P (objects_of lib ?a E) @ filter ?P (map (organization lib) (names_of E)) @
      filter ?P (TLP_markings (levels_of E))"
    using assms by (simp add: laid_out_def Let_def)
  have v: "filter ?P (objects_of lib ?a E) = []" if "\<not> of_value i"
    using that objects_of_kind by (intro filter_none) blast
  have o: "filter ?P (map (organization lib) (names_of E)) = []" if "\<not> of_identity i"
    using that organizations_kind by (intro filter_none) blast
  have m: "filter ?P (TLP_markings (levels_of E)) = []" if "of_value i \<or> of_identity i"
    using that markings_kind by (intro filter_none) (fastforce simp: of_value_def of_identity_def)
  have "\<not> (of_value i \<and> of_identity i)" by (auto simp: of_value_def of_identity_def)
  then show ?thesis unfolding split using v o m by auto
qed

lemma filter_markings:
  "filter (\<lambda>y. id_of y = i) (TLP_markings ids) = (if i \<in> set ids then filter (\<lambda>y. id_of y = i) (TLP_markings [i]) else [])"
  by (cases "i \<in> set ids")
    (auto simp: TLP_markings_def filter_map comp_def case_prod_unfold filter_empty_conv intro!: arg_cong [of _ _ "map _"] filter_cong)

lemma concat_if: "concat (map (\<lambda>p. if Q p then k else []) ps) = concat (replicate (length (filter Q ps)) k)"
  by (induction ps) auto

lemma parts_together:
  assumes ne: "Es \<noteq> []"
  shows "find (\<lambda>y. id_of y = i) (concat (map (laid_out lib settings) Es)) = find (\<lambda>y. id_of y = i) (laid_out lib settings (concat Es))"
proof (cases "i = identity_id lib (sp_identity settings)")
  case True
  obtain E Es' where "Es = E # Es'" using ne by (cases Es) auto
  then show ?thesis using True by (simp add: laid_out_def Let_def)
next
  case False
  let ?P = "\<lambda>y. id_of y = i" and ?a = "identity_id lib (sp_identity settings)"
  have parts: "filter ?P (concat (map (laid_out lib settings) Es)) = concat (map (\<lambda>E. filter ?P (laid_out lib settings E)) Es)"
    by (simp add: filter_concat comp_def)
  have all: "objects_of lib ?a (concat Es) = concat (map (objects_of lib ?a) Es)" "names_of (concat Es) = concat (map names_of Es)"
    "levels_of (concat Es) = concat (map levels_of Es)"
    by (induction Es) (simp_all add: items_append, simp_all add: item_defs)
  show ?thesis
  proof (cases "of_value i \<or> of_identity i")
    case True
    have "filter ?P (concat (map (laid_out lib settings) Es)) = filter ?P (laid_out lib settings (concat Es))"
      using True unfolding parts filter_laid_out [OF False] all by (auto simp: filter_concat map_concat comp_def)
    then show ?thesis by (simp add: find_filter)
  next
    case m: False
    let ?k = "filter ?P (TLP_markings [i])" and ?n = "length (filter (\<lambda>E. i \<in> set (levels_of E)) Es)"
    have "filter ?P (concat (map (laid_out lib settings) Es)) = concat (replicate ?n ?k)"
      using m unfolding parts filter_laid_out [OF False] by (simp add: filter_markings [of i "levels_of _"] concat_if)
    moreover have "filter ?P (laid_out lib settings (concat Es)) = (if ?n = 0 then [] else ?k)"
      using m unfolding filter_laid_out [OF False] all filter_markings [of i "concat (map levels_of Es)"]
      by (auto simp: filter_empty_conv)
    ultimately show ?thesis by (cases ?n) (auto simp: find_filter split: list.splits)
  qed
qed


lemma exported_concat: "exported_items u (items_of parts) = concat (map (\<lambda>p. exported_items u (items_of [p])) parts)"
  by (induction parts) (simp_all add: item_defs List.map_filter_def)

lemma skipped_concat: "skipped_items u (items_of parts) = concat (map (\<lambda>p. skipped_items u (items_of [p])) parts)"
  by (induction parts) (simp_all add: item_defs List.map_filter_def)

lemma fallbacks_concat: "fallbacks (concat Es) = sum_list (map fallbacks Es)"
  by (induction Es) (simp_all add: items_append, simp add: fallbacks_def)


definition sample_stix :: stix_lib where
  "sample_stix = \<lparr>uuid_v5 = (\<lambda>_ key. key), uuid_parses = (\<lambda>_. False), parse_rfc3339 = i64_from_str,
     instant_of = (\<lambda>s. Some (DateTime s 0)), to_rfc3339 = (\<lambda>t. show_int (timestamp t))\<rparr>"

definition sample_view :: "string \<Rightarrow> attribute_view" where
  "sample_view v = \<lparr>v_value = v, v_first_seen = 100, v_last_seen = 200, v_count = 3, v_tags = ''tlp:amber, identity:acme'',
     v_ttl = 0, v_consensus = 1, v_stats = None\<rparr>"

definition sample_parts :: "stix_part list" where
  "sample_parts = [\<lparr>part_namespace = ''a'', part_values = [sample_view ''1.2.3.4''], part_type = Some ''ipv4-addr''\<rparr>,
     \<lparr>part_namespace = ''b'', part_values = [sample_view ''1.2.3.4''], part_type = Some ''ipv4-addr''\<rparr>]"

lemma sample_typing: "value_typing UntypedSkip (Some ''ipv4-addr'') (sample_view ''1.2.3.4'') =
  Some (\<lparr>ty_observable = ''ipv4-addr'', ty_fallback = False\<rparr>, ''[ipv4-addr:value = '' @ quoted ''1.2.3.4'' @ '']'')"
proof -
  have "tag_value (v_tags (sample_view ''1.2.3.4'')) ''stix-type'' = None" by code_simp
  moreover have "pattern_for ''ipv4-addr'' (v_value (sample_view ''1.2.3.4'')) = Some (''[ipv4-addr:value = '' @ quoted ''1.2.3.4'' @ '']'')"
    by code_simp
  ultimately show ?thesis by (simp add: value_typing_def observable_type_def)
qed


end
