(* ===== verification/Stix_Export.thy ===== *)
theory Stix_Export
  imports Stix_Laws Dns
begin

text \<open>
  Exporting from the database: which values a bundle is made of, how many an export may read, and that the export
  of one value and that of its namespace name the same things.
\<close>

section \<open>A page of values\<close>

definition matching_values ::
  "logical \<Rightarrow> datetime \<Rightarrow> string \<Rightarrow> string \<Rightarrow> (string \<times> attribute) list" where
  "matching_values C now wanted name =
     filter (\<lambda>(v, attr). (to_ascii_lowercase wanted = [] \<or> contains_str (to_ascii_lowercase v) (to_ascii_lowercase wanted)) \<and>
       \<not> Attribute_is_expired attr now) (sorted_list_of_fmap (values_of C name))"

definition page_view :: "logical \<Rightarrow> datetime \<Rightarrow> bool \<Rightarrow> string \<times> attribute \<Rightarrow> attribute_view" where
  "page_view C now with_stats va = Attribute_view (snd va) (count_in C ALL_NAMESPACE (attr_value (snd va)) now) with_stats"

lemma fill_consensus_reads:
  assumes "db_inv_upto env disk X db" "fill_consensus env disk now db views = (db', views')"
  shows "db_inv_upto env disk X db' \<and> contents env disk db' = contents env disk db \<and> same_setup db' db \<and>
    views' = map (\<lambda>view. view\<lparr>v_consensus := count_in (contents env disk db) ALL_NAMESPACE (v_value view) now\<rparr>) views"
  using assms
proof (induction views arbitrary: db db' views')
  case (Cons view views)
  obtain db1 c where one: "Database_count env disk now db ALL_NAMESPACE (v_value view) = (db1, c)" by fastforce
  obtain db2 rest where two: "fill_consensus env disk now db1 views = (db2, rest)" by fastforce
  note c = count_reads [OF Cons.prems(1) one]
  have i: "db_inv_upto env disk X db1" using c by blast
  note r = Cons.IH [OF i two]
  have "db' = db2" "views' = view\<lparr>v_consensus := c\<rparr> # rest" using Cons.prems(2) one two by auto
  then show ?case using c r same_setup_trans by auto
qed simp

lemma expired_stored [simp]: "Attribute_is_expired (stored_attr a) now = Attribute_is_expired a now"
  by (simp add: Attribute_is_expired_def Attribute_expires_at_def stored_attr_def whole_seconds_def)

lemma value_page_reads:
  assumes inv: "db_inv_upto env disk X db" and page: "Database_value_page env disk now db name wanted offset limit with_stats = (db', r)"
  shows "db_inv_upto env disk X db' \<and> contents env disk db' = contents env disk db \<and> same_setup db' db \<and>
    r = (if contents env disk db name = None then None
         else Some \<lparr>pg_items = map (page_view (contents env disk db) now with_stats)
                     (take limit (drop offset (matching_values (contents env disk db) now wanted name))),
                   pg_total = length (matching_values (contents env disk db) now wanted name), pg_offset = offset\<rparr>)"
proof -
  let ?C = "contents env disk db"
  obtain db1 ns where found: "Database_namespace env disk now db name = (db1, ns)" by fastforce
  note n = namespace_finds [OF inv found]
  have C1: "contents env disk db1 = ?C" using n(2) by blast
  show ?thesis
  proof (cases ns)
    case None
    then have "db' = db1" "r = None" using page found by (auto simp: Database_value_page_def)
    then show ?thesis using None n(1,4,5) C1 by simp
  next
    case (Some ns')
    let ?w = "to_ascii_lowercase wanted"
    let ?m = "filter (\<lambda>(v, attr). (?w = [] \<or> contains_str (to_ascii_lowercase v) ?w) \<and> \<not> Attribute_is_expired attr now)
        (sorted_list_of_fmap (ns_values ns'))"
    let ?items = "map (\<lambda>(v, attr). Attribute_view attr 0 with_stats) (take limit (drop offset ?m))"
    obtain db2 items where fill: "fill_consensus env disk now db1 ?items = (db2, items)" by fastforce
    note f = fill_consensus_reads [OF n(1) fill]
    have vals: "values_of ?C name = fmmap stored_attr (ns_values ns')" using n(4) Some by (simp add: values_of_def)
    have m: "matching_values ?C now wanted name = map (\<lambda>(k, v). (k, stored_attr v)) ?m"
      unfolding matching_values_def vals sorted_list_of_fmmap filter_map by (simp add: comp_def case_prod_unfold)
    have view: "(Attribute_view a 0 with_stats)\<lparr>v_consensus := c\<rparr> = Attribute_view (stored_attr a) c with_stats" for a c
      by (simp add: Attribute_view_def stored_attr_def whole_seconds_def Attribute_count_def Attribute_merged_stats_def)
    have named: "v_value (Attribute_view a 0 with_stats) = attr_value (stored_attr a)" for a
      by (simp add: Attribute_view_def stored_attr_def)
    have items: "items = map (page_view ?C now with_stats) (take limit (drop offset (matching_values ?C now wanted name)))"
      using f unfolding m C1 by (simp add: take_map drop_map case_prod_unfold page_view_def view named)
    have "db' = db2" "r = Some \<lparr>pg_items = items, pg_total = length ?m, pg_offset = offset\<rparr>"
      using page found Some fill by (auto simp: Database_value_page_def Let_def)
    then show ?thesis using Some f n(4,5) C1 same_setup_trans by (auto simp: items m)
  qed
qed

section \<open>Consensus plays no part\<close>

definition plain_view :: "attribute_view \<Rightarrow> attribute_view" where
  "plain_view view = view\<lparr>v_consensus := 0\<rparr>"

lemma plain_view_fields [simp]:
  "v_value (plain_view v) = v_value v" "v_first_seen (plain_view v) = v_first_seen v" "v_last_seen (plain_view v) = v_last_seen v"
  "v_count (plain_view v) = v_count v" "v_tags (plain_view v) = v_tags v" "v_ttl (plain_view v) = v_ttl v"
  by (simp_all add: plain_view_def)

lemma bundle_value_plain: "bundle_value lib a u namespace default_type (plain_view v) b = bundle_value lib a u namespace default_type v b"
  by (simp only: bundle_value_def observable_type_def stix_indicator_id_def stix_indicator_def stix_sighting_def valid_until_def
    stix_confidence_def plain_view_fields)

lemma bundle_values_plain: "bundle_values lib a u namespace default_type (map plain_view vs) b = bundle_values lib a u namespace default_type vs b"
  by (induction vs arbitrary: b) (simp_all add: bundle_value_plain)

definition plain_page :: "string \<times> attribute_view list \<Rightarrow> string \<times> attribute_view list" where
  "plain_page page = (fst page, map plain_view (snd page))"

lemma bundle_of_plain: "bundle_of lib (map (part_of settings) (map plain_page pages)) publisher u = bundle_of lib (map (part_of settings) pages) publisher u"
proof -
  have "bundle_parts lib a u (map (part_of settings) (map plain_page pages)) b = bundle_parts lib a u (map (part_of settings) pages) b" for a b
    by (induction pages arbitrary: b) (simp_all add: part_of_def plain_page_def bundle_values_plain)
  moreover have "map part_namespace (map (part_of settings) (map plain_page pages)) = map part_namespace (map (part_of settings) pages)"
    by (simp add: part_of_def plain_page_def)
  ultimately show ?thesis unfolding bundle_of_def Let_def by (simp only: length_map)
qed

section \<open>Exporting namespaces\<close>

definition namespace_page :: "logical \<Rightarrow> datetime \<Rightarrow> string \<Rightarrow> string \<Rightarrow> string \<times> attribute_view list" where
  "namespace_page C now wanted name = (name, map (\<lambda>(_, a). Attribute_view a 0 False) (matching_values C now wanted name))"

text \<open>The export of every matching value of the namespaces that exist.\<close>

definition whole_export ::
  "stix_lib \<Rightarrow> logical \<Rightarrow> datetime \<Rightarrow> stix_settings \<Rightarrow> string list \<Rightarrow> string \<Rightarrow> untyped \<Rightarrow> stix_export" where
  "whole_export lib C now settings namespaces wanted untyped =
     (bundle_of lib (map (part_of settings) (map (namespace_page C now wanted) (filter (\<lambda>n. C n \<noteq> None) namespaces)))
        (stx_export settings) untyped)\<lparr>sx_missing := filter (\<lambda>n. C n = None) namespaces\<rparr>"

lemma plain_page_view: "plain_view (page_view C now False va) = Attribute_view (snd va) 0 False"
  by (simp add: plain_view_def page_view_def Attribute_view_def)

lemma export_pages_reads:
  assumes "db_inv_upto env disk X db" "export_pages env disk now db namespaces wanted budget = (db', pages, missing, truncated)"
  defines "C \<equiv> contents env disk db"
  shows "db_inv_upto env disk X db' \<and> contents env disk db' = C \<and> same_setup db' db \<and>
    sum_list (map (\<lambda>p. length (snd p)) pages) \<le> budget \<and>
    (\<not> truncated \<longrightarrow> map plain_page pages = map (namespace_page C now wanted) (filter (\<lambda>n. C n \<noteq> None) namespaces) \<and>
       missing = filter (\<lambda>n. C n = None) namespaces) \<and>
    (truncated \<longrightarrow> budget \<le> sum_list (map (\<lambda>n. length (matching_values C now wanted n)) namespaces))"
  using assms(1,2) unfolding C_def
proof (induction namespaces arbitrary: db db' pages missing truncated budget)
  case (Cons name namespaces)
  show ?case
  proof (cases "budget = 0")
    case True
    then show ?thesis using Cons.prems by auto
  next
    case False
    let ?C = "contents env disk db"
    obtain db1 r where page: "Database_value_page env disk now db name wanted 0 budget False = (db1, r)" by fastforce
    note v = value_page_reads [OF Cons.prems(1) page]
    have inv1: "db_inv_upto env disk X db1" and C1: "contents env disk db1 = ?C" and setup1: "same_setup db1 db" using v by blast+
    let ?m = "matching_values ?C now wanted name"
    show ?thesis
    proof (cases "?C name")
      case None
      obtain db2 pages2 missing2 truncated2 where rest: "export_pages env disk now db1 namespaces wanted budget = (db2, pages2, missing2, truncated2)"
        by (rule prod_cases4)
      note ih = Cons.IH [OF inv1 rest, unfolded C1]
      have "r = None" using v None by simp
      then have "db' = db2" "pages = pages2" "missing = name # missing2" "truncated = truncated2"
        using Cons.prems(2) False page rest by auto
      moreover have "length ?m = 0" by (simp add: matching_values_def values_of_def None sorted_list_of_fmap_keys fm_keys_eq)
      ultimately show ?thesis using ih None same_setup_trans [OF _ setup1] by auto
    next
      case (Some vals)
      let ?items = "map (page_view ?C now False) (take budget ?m)"
      have r: "r = Some \<lparr>pg_items = ?items, pg_total = length ?m, pg_offset = 0\<rparr>" using v Some by simp
      obtain db2 pages2 missing2 truncated2 where
        rest: "export_pages env disk now db1 namespaces wanted (budget - length ?items) = (db2, pages2, missing2, truncated2)"
        by (rule prod_cases4)
      note ih = Cons.IH [OF inv1 rest, unfolded C1]
      have eqs: "db' = db2" "pages = (name, ?items) # pages2" "missing = missing2" "truncated = (length ?m > length ?items \<or> truncated2)"
        using Cons.prems(2) False page rest by (auto simp: r)
      have len: "length ?items = min budget (length ?m)" by simp
      have whole: "plain_page (name, ?items) = namespace_page ?C now wanted name" if "\<not> truncated"
      proof -
        have "take budget ?m = ?m" using that eqs(4) len by auto
        then show ?thesis by (simp add: plain_page_def namespace_page_def case_prod_unfold plain_page_view)
      qed
      have "sum_list (map (\<lambda>p. length (snd p)) pages2) \<le> budget - length ?items" "length ?items \<le> budget" using ih len by auto
      then have sum: "sum_list (map (\<lambda>p. length (snd p)) pages) \<le> budget"
        unfolding eqs(2) list.map sum_list.Cons snd_conv by linarith
      have over: "budget \<le> sum_list (map (\<lambda>n. length (matching_values ?C now wanted n)) (name # namespaces))" if "truncated"
      proof (cases "length ?m > length ?items")
        case True
        then have "budget \<le> length ?m" using len by linarith
        then show ?thesis unfolding list.map sum_list.Cons by linarith
      next
        case False
        then have "budget - length ?items \<le> sum_list (map (\<lambda>n. length (matching_values ?C now wanted n)) namespaces)"
          using ih that eqs(4) by blast
        then show ?thesis using len unfolding list.map sum_list.Cons by linarith
      qed
      show ?thesis using ih sum over whole Some same_setup_trans [OF _ setup1] by (auto simp: eqs)
    qed
  qed
qed simp

lemma export_reads:
  assumes "db_inv env disk db" "export_namespaces lib env disk now db settings namespaces wanted limit untyped = (db', export)"
  shows "db_inv env disk db' \<and> contents env disk db' = contents env disk db \<and>
    sx_exported export + length (sx_skipped export) \<le> limit \<and>
    (\<not> sx_truncated export \<longrightarrow> export = whole_export lib (contents env disk db) now settings namespaces wanted untyped) \<and>
    (sx_truncated export \<longrightarrow>
       limit \<le> sum_list (map (\<lambda>n. length (matching_values (contents env disk db) now wanted n)) namespaces))"
proof -
  obtain db1 pages missing truncated where pages: "export_pages env disk now db namespaces wanted limit = (db1, pages, missing, truncated)"
    by (rule prod_cases4)
  note r = export_pages_reads [OF assms(1) pages]
  let ?b = "bundle_of lib (map (part_of settings) pages) (stx_export settings) untyped"
  have eqs: "db' = db1" "export = ?b\<lparr>sx_truncated := truncated, sx_missing := missing\<rparr>"
    using assms(2) pages by (auto simp: export_namespaces_def)
  have "sx_exported ?b + length (sx_skipped ?b) = sum_list (map (\<lambda>p. length (part_values p)) (map (part_of settings) pages))"
    using items_accounted [of untyped "items_of (map (part_of settings) pages)"] by (simp only: bundle_of_eq Let_def items_count stix_export.simps)
  then have count: "sx_exported ?b + length (sx_skipped ?b) \<le> limit" using r by (simp add: comp_def part_of_def)
  have "export = whole_export lib (contents env disk db) now settings namespaces wanted untyped" if "\<not> truncated"
  proof -
    have "?b = bundle_of lib (map (part_of settings) (map (namespace_page (contents env disk db) now wanted)
        (filter (\<lambda>n. contents env disk db n \<noteq> None) namespaces))) (stx_export settings) untyped"
      using r that bundle_of_plain [of lib settings pages] by (simp only: if_True simp_thms)
    moreover have "sx_truncated ?b = False" by (simp add: bundle_of_eq Let_def)
    ultimately show ?thesis using r that by (simp add: eqs whole_export_def)
  qed
  then show ?thesis using r count by (auto simp: eqs)
qed

text \<open>
  C16. An export changes nothing in the database and reads at most as many values as it may. When it does not say
  that it was cut short, it is the bundle of every value that matches in the namespaces that exist, and it names
  those that do not; it says so only when at least as many values match as it may read.
\<close>
theorem stix_export_from_database:
  assumes "db_inv env disk db" "export_namespaces lib env disk now db settings namespaces wanted limit untyped = (db', export)"
  shows "db_inv env disk db' \<and> contents env disk db' = contents env disk db \<and>
    sx_exported export + length (sx_skipped export) \<le> limit \<and>
    (\<not> sx_truncated export \<longrightarrow> export = whole_export lib (contents env disk db) now settings namespaces wanted untyped) \<and>
    (sx_truncated export \<longrightarrow>
       limit \<le> sum_list (map (\<lambda>n. length (matching_values (contents env disk db) now wanted n)) namespaces))"
  using export_reads [OF assms] .

lemma sample_matching: "length (matching_values (contents sample_env fmempty (fst sample_write)) now wanted n) \<le> 1"
proof -
  have one: "ns_values sample_ns = fmupd ''v'' (the (fmlookup (ns_values sample_ns) ''v'')) fmempty" by code_simp
  have keys: "length (sorted_list_of_fmap (fmmap f (fmupd k v fmempty))) = 1" for f and k :: string and v :: attribute
    by (simp add: sorted_list_of_fmap_keys fm_keys_eq fmdom'_alt_def)
  have "length (sorted_list_of_fmap (fmmap stored_attr (ns_values sample_ns))) = 1" by (subst one) (rule keys)
  moreover have "sorted_list_of_fmap (fmempty :: (string, attribute) fmap) = []"
    by (simp add: sorted_list_of_fmap_keys fm_keys_eq)
  ultimately have "length (sorted_list_of_fmap (values_of (contents sample_env fmempty (fst sample_write)) n)) \<le> 1"
    by (simp add: values_of_def sample_contents)
  then show ?thesis unfolding matching_values_def by (rule le_trans [OF length_filter_le])
qed

definition sample_stix_settings :: stix_settings where
  "sample_stix_settings = \<lparr>stx_mapping = \<lparr>smap_types = fmempty, smap_default = None\<rparr>, stx_ttl = 0, stx_export = stix_Settings_default\<rparr>"

theorem stix_export_from_database_witness:
  "snd (export_namespaces sample_stix sample_env fmempty (DateTime 100 0) (fst sample_write) sample_stix_settings [''feeds/a'', ''gone''] [] 5 UntypedInclude) =
     whole_export sample_stix (contents sample_env fmempty (fst sample_write)) (DateTime 100 0) sample_stix_settings [''feeds/a'', ''gone''] [] UntypedInclude \<and>
   sx_missing (whole_export sample_stix (contents sample_env fmempty (fst sample_write)) (DateTime 100 0) sample_stix_settings
     [''feeds/a'', ''gone''] [] UntypedInclude) = [''gone'']"
proof -
  have inv: "db_inv sample_env fmempty (fst sample_write)" using sample_write_inv by (rule inv_mono) simp
  obtain db' x where x: "export_namespaces sample_stix sample_env fmempty (DateTime 100 0) (fst sample_write) sample_stix_settings
      [''feeds/a'', ''gone''] [] 5 UntypedInclude = (db', x)" by fastforce
  note e = stix_export_from_database [OF inv x]
  have "\<not> sx_truncated x"
    using e sample_matching [of "DateTime 100 0" "[]" "''feeds/a''"] sample_matching [of "DateTime 100 0" "[]" "''gone''"] by auto
  then show ?thesis using e x by (simp add: whole_export_def sample_contents ALL_NAMESPACE_def)
qed

section \<open>Exporting one value\<close>

definition gathered_ids :: "stix_lib \<Rightarrow> stix_publisher \<Rightarrow> (string \<times> attribute_view \<times> typing \<times> string) list \<Rightarrow> string set" where
  "gathered_ids lib publisher E = {identity_id lib (sp_identity publisher)} \<union>
     id_of ` set (objects_of lib (identity_id lib (sp_identity publisher)) E) \<union> identity_id lib ` set (names_of E) \<union> (set (levels_of E) \<inter> snd ` set TLP)"

lemma gathered_ids_eq: "id_of ` set (first_by_id [] (gathered lib publisher E)) = gathered_ids lib publisher E"
proof -
  have o: "id_of ` set (first_by_id [] (map (organization lib) (names_of E))) = identity_id lib ` set (names_of E)"
    using first_by_id_distinct [of "map (organization lib) (names_of E)" "[]"] by (auto simp: image_image)
  have m: "id_of ` set (TLP_markings (levels_of E)) = set (levels_of E) \<inter> snd ` set TLP"
    by (force simp: TLP_markings_def)
  have "id_of ` set (first_by_id [] (gathered lib publisher E)) = id_of ` set (gathered lib publisher E)"
    using first_by_id_distinct [OF gathered_has_ids, of "[]"] by simp
  also have "\<dots> = gathered_ids lib publisher E"
    by (simp add: gathered_def Let_def image_Un o m gathered_ids_def Un_assoc)
  finally show ?thesis .
qed

lemma gathered_ids_mono: "set E \<subseteq> set F \<Longrightarrow> gathered_ids lib publisher E \<subseteq> gathered_ids lib publisher F"
  unfolding gathered_ids_def objects_of_def names_of_def levels_of_def by (intro Un_mono image_mono) auto

lemma exported_mono: "set items \<subseteq> set items' \<Longrightarrow> set (exported_items u items) \<subseteq> set (exported_items u items')"
proof -
  have "set xs \<subseteq> set ys \<Longrightarrow> set (List.map_filter f xs) \<subseteq> set (List.map_filter f ys)" for f :: "'x \<Rightarrow> 'y option" and xs ys
    by (auto simp: List.map_filter_def)
  then show "set items \<subseteq> set items' \<Longrightarrow> set (exported_items u items) \<subseteq> set (exported_items u items')"
    unfolding exported_items_def .
qed

lemma with_bundle_id_objects: "bundle_objects (with_bundle_id (bundle_json lib key objects) ident) = Some objects"
  by (simp add: bundle_json_def bundle_objects_def as_array_def)

text \<open>
  The export of one value and the export of its namespace never disagree about an id: every object in the
  first, the indicator and the sighting of the value included, is an object of the same id in the second.
\<close>
theorem export_value_agrees:
  assumes inv: "db_inv env disk db"
    and one: "export_value lib env disk now db settings namespace v untyped = (db1, Some export)"
    and whole: "export_namespaces lib env disk now db settings [namespace] [] limit untyped = (db2, all)" "\<not> sx_truncated all"
  shows "id_of ` set (exported_objects export) \<subseteq> id_of ` set (exported_objects all)"
proof -
  let ?C = "contents env disk db" and ?p = "stx_export settings"
  obtain db' r where view: "Database_view env disk now db namespace v 0 False = (db', r)" by fastforce
  note w = view_reads [OF inv view]
  obtain x where r: "r = Some x" using one view by (cases r) (auto simp: export_value_def)
  then obtain a where a: "fmlookup (values_of ?C namespace) v = Some a" "\<not> Attribute_is_expired a now" "x = Attribute_view a 0 False"
    using w by (auto simp: view_in_def split: option.splits if_splits)
  have held: "?C namespace \<noteq> None" using a(1) by (auto simp: values_of_def split: option.splits)
  have "x \<in> set (snd (namespace_page ?C now [] namespace))"
    using a by (force simp: namespace_page_def matching_values_def to_ascii_lowercase_def)
  then have items: "set (items_of [part_of settings (namespace, [x])]) \<subseteq> set (items_of [part_of settings (namespace_page ?C now [] namespace)])"
    by (simp add: items_of_def part_items_def part_of_def namespace_page_def image_iff)
  have "export = (bundle_of lib [part_of settings (namespace, [x])] ?p untyped)\<lparr>sx_bundle := with_bundle_id
      (sx_bundle (bundle_of lib [part_of settings (namespace, [x])] ?p untyped)) (''bundle--'' @ uuid_for lib (''bundle:'' @ namespace @ '':'' @ v))\<rparr>"
    using one view r by (simp add: export_value_def Let_def)
  then have "exported_objects export = first_by_id [] (gathered lib ?p (exported_items untyped (items_of [part_of settings (namespace, [x])])))"
    by (simp add: exported_objects_def bundle_of_eq Let_def with_bundle_id_objects unwrap_or_def)
  moreover have "exported_objects all = first_by_id [] (gathered lib ?p (exported_items untyped (items_of [part_of settings (namespace_page ?C now [] namespace)])))"
  proof -
    have "all = whole_export lib ?C now settings [namespace] [] untyped" using export_reads [OF inv whole(1)] whole(2) by blast
    then show ?thesis using held by (simp add: whole_export_def exported_objects_def bundle_of_eq Let_def unwrap_or_def)
  qed
  ultimately show ?thesis using gathered_ids_mono [OF exported_mono [OF items]] by (simp add: gathered_ids_eq)
qed

theorem export_value_agrees_witness:
  "\<exists>export. snd (export_value sample_stix sample_env fmempty (DateTime 100 0) (fst sample_write) sample_stix_settings ''feeds/a'' ''v'' UntypedInclude) = Some export \<and>
     id_of ` set (exported_objects export) \<subseteq> id_of ` set (exported_objects (snd (export_namespaces sample_stix sample_env fmempty (DateTime 100 0)
       (fst sample_write) sample_stix_settings [''feeds/a''] [] 5 UntypedInclude)))"
proof -
  let ?C = "contents sample_env fmempty (fst sample_write)"
  have inv: "db_inv sample_env fmempty (fst sample_write)" using sample_write_inv by (rule inv_mono) simp
  obtain db1 r where r: "export_value sample_stix sample_env fmempty (DateTime 100 0) (fst sample_write) sample_stix_settings ''feeds/a'' ''v'' UntypedInclude = (db1, r)"
    by fastforce
  obtain db2 x where x: "export_namespaces sample_stix sample_env fmempty (DateTime 100 0) (fst sample_write) sample_stix_settings
      [''feeds/a''] [] 5 UntypedInclude = (db2, x)" by fastforce
  obtain db3 view where view: "Database_view sample_env fmempty (DateTime 100 0) (fst sample_write) ''feeds/a'' ''v'' 0 False = (db3, view)" by fastforce
  have "\<not> Attribute_is_expired (stored_attr (the (fmlookup (ns_values sample_ns) ''v''))) (DateTime 100 0)" "fmlookup (ns_values sample_ns) ''v'' \<noteq> None"
    by code_simp+
  then have "view \<noteq> None"
    using view_reads [OF inv view] by (auto simp: view_in_def values_of_def sample_contents)
  then obtain export where e: "r = Some export" using r view by (auto simp: export_value_def Let_def)
  have "\<not> sx_truncated x"
    using export_reads [OF inv x] sample_matching [of "DateTime 100 0" "[]" "''feeds/a''"] by auto
  then show ?thesis using export_value_agrees [OF inv r [unfolded e] x] r x e by simp
qed

end
