(* ===== verification/Misp.thy ===== *)
theory Misp
  imports Sighting
begin

text \<open>
  \<^verbatim>\<open>src/src/ingest/misp.rs\<close>: what a MISP publication says, as observations ready to be written, and the format
  SightingDB itself publishes in.

  Parsing JSON belongs to serde: \<open>json_in\<close> reads a text as a value and \<open>native_in\<close> as the items of a batch. The
  digest of the sha2 crate is the parameter \<open>sha256\<close>, the bytes of the digest of a text.
\<close>

section \<open>Observations\<close>

record observation =
  ob_namespace :: string
  ob_value :: string
  ob_timestamp :: "int option"
  ob_last_timestamp :: "int option"
  ob_count :: u64
  ob_tags :: "string list"

definition Sighting_once :: "string \<Rightarrow> string \<Rightarrow> int option \<Rightarrow> observation" where
  "Sighting_once namespace v ts =
     \<lparr>ob_namespace = namespace, ob_value = v, ob_timestamp = ts, ob_last_timestamp = None, ob_count = 1, ob_tags = []\<rparr>"

definition Sighting_with_tags :: "observation \<Rightarrow> string list \<Rightarrow> observation" where
  "Sighting_with_tags s ts = s\<lparr>ob_tags := ts\<rparr>"

definition sanitize_tag :: "string \<Rightarrow> string" where
  "sanitize_tag tag = replace_char CHR '','' '';'' (trim tag)"

section \<open>What is ingested\<close>

record misp_mapping =
  mm_types :: "(string, string) fmap"
  mm_default_namespace :: "string option"
  mm_require_to_ids :: bool
  mm_hashed_namespace :: "string option"
  mm_store_values :: bool

definition misp_Mapping_default :: misp_mapping where
  "misp_Mapping_default = \<lparr>mm_types = fmempty, mm_default_namespace = None, mm_require_to_ids = False, mm_hashed_namespace = None,
     mm_store_values = True\<rparr>"

definition misp_namespace_for :: "misp_mapping \<Rightarrow> string \<Rightarrow> string option" where
  "misp_namespace_for m misp_type =
     (case fmlookup (mm_types m) misp_type of Some namespace \<Rightarrow> Some namespace | None \<Rightarrow> mm_default_namespace m)"

record native_item =
  ni_namespace :: string
  ni_value :: string
  ni_timestamp :: "int option"

section \<open>Reading attributes\<close>

definition get_str :: "json \<Rightarrow> string \<Rightarrow> string option" where
  "get_str object key = Option.bind (json_get object key) as_str"

text \<open>The names in an array of tags.\<close>

definition tag_names :: "json option \<Rightarrow> string list" where
  "tag_names j = (case j of Some (JArr ts) \<Rightarrow> List.map_filter (\<lambda>tag. get_str tag ''name'') ts | _ \<Rightarrow> [])"

fun id_like :: "json \<Rightarrow> string option" where
  "id_like (JStr s) = (if s \<noteq> [] then Some s else None)"
| "id_like (JNum n) = Some (show_int n)"
| "id_like (JFloat s) = Some s"
| "id_like _ = None"

definition timestamp_of :: "json \<Rightarrow> int option" where
  "timestamp_of attribute =
     (case json_get attribute ''timestamp'' of
        Some (JStr s) \<Rightarrow> i64_from_str s
      | Some (JNum n) \<Rightarrow> as_i64 (JNum n)
      | _ \<Rightarrow> None)"

definition truthy :: "json option \<Rightarrow> bool" where
  "truthy v =
     (case v of
        Some (JBool flag) \<Rightarrow> flag
      | Some (JStr s) \<Rightarrow> s = ''1'' \<or> eq_ignore_ascii_case s ''true''
      | Some (JNum n) \<Rightarrow> (case as_i64 (JNum n) of Some i \<Rightarrow> i \<noteq> 0 | None \<Rightarrow> False)
      | _ \<Rightarrow> False)"

definition stix_type_for_misp :: "string \<Rightarrow> string option" where
  "stix_type_for_misp misp_type =
     (if misp_type \<in> {''ip-src'', ''ip-dst'', ''ip-src|port'', ''ip-dst|port''} then Some ''ipv4-addr''
      else if misp_type \<in> {''domain'', ''hostname'', ''domain|ip''} then Some ''domain-name''
      else if misp_type \<in> {''url'', ''uri''} then Some ''url''
      else if misp_type \<in> {''email'', ''email-src'', ''email-dst'', ''email-reply-to''} then Some ''email-addr''
      else if misp_type \<in> {''md5'', ''filename|md5''} then Some ''file.MD5''
      else if misp_type \<in> {''sha1'', ''filename|sha1''} then Some ''file.SHA-1''
      else if misp_type \<in> {''sha256'', ''filename|sha256''} then Some ''file.SHA-256''
      else if misp_type = ''filename'' then Some ''file''
      else if misp_type = ''mutex'' then Some ''mutex''
      else if misp_type = ''regkey'' then Some ''windows-registry-key''
      else if misp_type = ''mac-address'' then Some ''mac-addr''
      else if misp_type = ''AS'' then Some ''autonomous-system''
      else None)"

section \<open>Tags\<close>

record event_context =
  ec_tags :: "string list"
  ec_id :: "string option"

definition EventContext_default :: event_context where
  "EventContext_default = \<lparr>ec_tags = [], ec_id = None\<rparr>"

definition EventContext_of :: "json \<Rightarrow> event_context" where
  "EventContext_of event =
     \<lparr>ec_tags = map sanitize_tag (tag_names (json_get event ''Tag'')),
      ec_id = (case Option.bind (json_get event ''uuid'') id_like of
                 Some i \<Rightarrow> Some i
               | None \<Rightarrow> Option.bind (json_get event ''id'') id_like)\<rparr>"

definition SINGLE_VALUED :: "string list" where
  "SINGLE_VALUED = [''tlp'']"

definition family_of :: "string \<Rightarrow> string option" where
  "family_of tag = map_option fst (split_once CHR '':'' tag)"

definition conflicts :: "string list \<Rightarrow> string \<Rightarrow> bool" where
  "conflicts ts candidate =
     (case family_of candidate of
        None \<Rightarrow> False
      | Some namespace \<Rightarrow> namespace \<in> set SINGLE_VALUED \<and> list_ex (\<lambda>tag. family_of tag = Some namespace) ts)"

fun inherit_tags :: "string list \<Rightarrow> string list \<Rightarrow> string list" where
  "inherit_tags ts [] = ts"
| "inherit_tags ts (tag # event) = inherit_tags (if conflicts ts tag then ts else ts @ [tag]) event"

definition own_tags :: "json \<Rightarrow> string \<Rightarrow> event_context \<Rightarrow> string list" where
  "own_tags attribute misp_type context =
     [''misp-type:'' @ misp_type] @
     (case stix_type_for_misp misp_type of Some t \<Rightarrow> [''stix-type:'' @ t] | None \<Rightarrow> []) @
     (case get_str attribute ''category'' of Some c \<Rightarrow> [''misp-category:'' @ sanitize_tag c] | None \<Rightarrow> []) @
     (case (case Option.bind (json_get attribute ''event_id'') id_like of Some e \<Rightarrow> Some e | None \<Rightarrow> ec_id context) of
        Some e \<Rightarrow> [''misp-event:'' @ e] | None \<Rightarrow> []) @
     (case get_str attribute ''comment'' of
        Some c \<Rightarrow> if trim c \<noteq> [] then [''description:'' @ sanitize_tag c] else [] | None \<Rightarrow> []) @
     map sanitize_tag (tag_names (json_get attribute ''Tag''))"

definition tags_of :: "json \<Rightarrow> string \<Rightarrow> event_context \<Rightarrow> string list" where
  "tags_of attribute misp_type context =
     push_missing [] (remdups_adj (inherit_tags (own_tags attribute misp_type context) (ec_tags context)))"

definition VALUE_REVEALING_TAGS :: "string list" where
  "VALUE_REVEALING_TAGS = [''description:'', ''misp-event:'', ''stix-type:'']"

definition hashed_tags :: "string list \<Rightarrow> string list" where
  "hashed_tags ts = filter (\<lambda>tag. \<not> list_ex (\<lambda>family. starts_with tag family) VALUE_REVEALING_TAGS) ts"

definition sha256_hex :: "(string \<Rightarrow> string) \<Rightarrow> string \<Rightarrow> string" where
  "sha256_hex sha256 v = concat (map (\<lambda>byte. [hex_lower (of_char byte div 16), hex_lower (of_char byte mod 16)]) (sha256 v))"

section \<open>Observations of a publication\<close>

definition attribute_value :: "json \<Rightarrow> string option" where
  "attribute_value attribute =
     (case (case get_str attribute ''value'' of Some v \<Rightarrow> Some v | None \<Rightarrow> get_str attribute ''value1'') of
        Some v \<Rightarrow> if v \<noteq> [] then Some v else None
      | None \<Rightarrow> None)"

definition attribute_to_sightings :: "(string \<Rightarrow> string) \<Rightarrow> json \<Rightarrow> misp_mapping \<Rightarrow> event_context \<Rightarrow> observation list" where
  "attribute_to_sightings sha256 attribute mapping context =
     (if mm_require_to_ids mapping \<and> \<not> truthy (json_get attribute ''to_ids'') then []
      else case get_str attribute ''type'' of
             None \<Rightarrow> []
           | Some misp_type \<Rightarrow>
               (case attribute_value attribute of
                  None \<Rightarrow> []
                | Some v \<Rightarrow>
                    let plain = (if mm_store_values mapping then misp_namespace_for mapping misp_type else None);
                        hashed_namespace = mm_hashed_namespace mapping
                    in if plain = None \<and> hashed_namespace = None then []
                       else let ts = timestamp_of attribute; tags = tags_of attribute misp_type context
                            in (case plain of
                                  Some namespace \<Rightarrow> [Sighting_with_tags (Sighting_once namespace v ts) tags] | None \<Rightarrow> []) @
                               (case hashed_namespace of
                                  Some namespace \<Rightarrow>
                                    [Sighting_with_tags (Sighting_once namespace (sha256_hex sha256 v) ts) (hashed_tags tags)]
                                | None \<Rightarrow> [])))"

text \<open>What \<open>collect\<close> pushes for a node: one attribute object, or arrays of them to any depth.\<close>

fun misp_collect :: "(string \<Rightarrow> string) \<Rightarrow> misp_mapping \<Rightarrow> event_context \<Rightarrow> json \<Rightarrow> observation list" where
  "misp_collect sha256 mapping context (JArr items) = concat (map (misp_collect sha256 mapping context) items)"
| "misp_collect sha256 mapping context (JObj members) = attribute_to_sightings sha256 (JObj members) mapping context"
| "misp_collect sha256 mapping context _ = []"

definition collect_in :: "(string \<Rightarrow> string) \<Rightarrow> misp_mapping \<Rightarrow> event_context \<Rightarrow> json \<Rightarrow> observation list" where
  "collect_in sha256 mapping context node =
     (case json_get node ''Attribute'' of Some attributes \<Rightarrow> misp_collect sha256 mapping context attributes | None \<Rightarrow> [])"

definition misp_parse ::
  "(string \<Rightarrow> string) \<Rightarrow> (string \<Rightarrow> 'e + json) \<Rightarrow> string \<Rightarrow> misp_mapping \<Rightarrow> 'e + observation list" where
  "misp_parse sha256 json_in body mapping =
     (case json_in body of
        Inl e \<Rightarrow> Inl e
      | Inr v \<Rightarrow>
          let event = json_get v ''Event'';
              context = (case event of Some e \<Rightarrow> EventContext_of e | None \<Rightarrow> EventContext_default)
          in Inr (collect_in sha256 mapping context v @
                  (case event of
                     None \<Rightarrow> []
                   | Some event \<Rightarrow>
                       collect_in sha256 mapping context event @
                       (case json_get event ''Object'' of
                          Some (JArr objects) \<Rightarrow> concat (map (collect_in sha256 mapping context) objects)
                        | _ \<Rightarrow> []))))"

definition parse_native :: "(string \<Rightarrow> 'e + native_item list) \<Rightarrow> string \<Rightarrow> 'e + observation list" where
  "parse_native native_in body =
     (case native_in body of
        Inl e \<Rightarrow> Inl e
      | Inr items \<Rightarrow> Inr (map (\<lambda>item. Sighting_once (ni_namespace item) (ni_value item) (ni_timestamp item)) items))"

definition strip_topic :: "string \<Rightarrow> string" where
  "strip_topic body =
     (let trimmed = trim_by ws_len body
      in if starts_with trimmed ''{'' \<or> starts_with trimmed ''['' then trimmed
         else if CHR '' '' \<in> set trimmed then trim_by ws_len (tl (dropWhile (\<lambda>c. c \<noteq> CHR '' '') trimmed))
         else trimmed)"

section \<open>A digest says nothing of its value\<close>

definition reveals :: "string \<Rightarrow> bool" where
  "reveals tag \<longleftrightarrow> starts_with tag ''description:'' \<or> starts_with tag ''misp-event:'' \<or> starts_with tag ''stix-type:''"

text \<open>An observation of a digest in the namespace of digests, and one of a value where its type is mapped to.\<close>

definition digest_observation :: "(string \<Rightarrow> string) \<Rightarrow> misp_mapping \<Rightarrow> observation \<Rightarrow> bool" where
  "digest_observation sha256 mapping ob \<longleftrightarrow>
     mm_hashed_namespace mapping = Some (ob_namespace ob) \<and> ob_value ob \<in> range (sha256_hex sha256) \<and> \<not> list_ex reveals (ob_tags ob)"

definition plain_observation :: "misp_mapping \<Rightarrow> observation \<Rightarrow> bool" where
  "plain_observation mapping ob \<longleftrightarrow>
     mm_store_values mapping \<and> Some (ob_namespace ob) \<in> range (misp_namespace_for mapping) \<and> ob_value ob \<noteq> []"

definition allowed :: "(string \<Rightarrow> string) \<Rightarrow> misp_mapping \<Rightarrow> observation \<Rightarrow> bool" where
  "allowed sha256 mapping ob \<longleftrightarrow> (digest_observation sha256 mapping ob \<or> plain_observation mapping ob) \<and> ob_count ob = 1"

lemma hashed_tags_reveal: "\<not> list_ex reveals (hashed_tags ts)"
  by (auto simp: hashed_tags_def reveals_def VALUE_REVEALING_TAGS_def list_ex_iff)

lemma attribute_allowed:
  assumes "ob \<in> set (attribute_to_sightings sha256 attribute mapping context)"
  shows "allowed sha256 mapping ob"
proof -
  have v: "v \<noteq> []" if "Some v = attribute_value attribute" for v
    using that by (auto simp: attribute_value_def split: option.splits if_splits)
  have r: "Some y \<in> range (misp_namespace_for mapping)" if "misp_namespace_for mapping t = Some y" for t y
    using that by (metis rangeI)
  have h: "[] \<in> range (sha256_hex sha256)" if "sha256_hex sha256 v = []" for v
    using that by (metis rangeI)
  show ?thesis
    using assms hashed_tags_reveal
    by (auto dest: v r h simp: attribute_to_sightings_def allowed_def digest_observation_def plain_observation_def Sighting_once_def
        Sighting_with_tags_def Let_def split: if_splits option.splits intro: rangeI)
qed

lemma collect_allowed: "ob \<in> set (misp_collect sha256 mapping context node) \<Longrightarrow> allowed sha256 mapping ob"
  by (induction sha256 mapping "context" node rule: misp_collect.induct) (auto intro: attribute_allowed)

lemma collect_in_allowed: "ob \<in> set (collect_in sha256 mapping context node) \<Longrightarrow> allowed sha256 mapping ob"
  by (auto simp: collect_in_def intro: collect_allowed split: option.splits)

lemma parse_allowed:
  assumes "misp_parse sha256 json_in body mapping = Inr obs" "ob \<in> set obs"
  shows "allowed sha256 mapping ob"
  using assms collect_in_allowed
  by (auto simp: misp_parse_def Let_def split: sum.splits option.splits json.splits)

text \<open>
  Whatever MISP publishes, what is ingested is either a value stored where its type is mapped to, or the
  digest of a value in the namespace of digests without a tag that says what the value was; and when values are
  not to be stored there are only digests, so no text of a publication reaches the database as a value.
\<close>
theorem misp_ingest_keeps_to_its_mapping:
  assumes "misp_parse sha256 json_in body mapping = Inr obs"
  shows "list_all (\<lambda>ob. digest_observation sha256 mapping ob \<or> plain_observation mapping ob) obs \<and>
    (\<not> mm_store_values mapping \<longrightarrow> list_all (digest_observation sha256 mapping) obs)"
  using parse_allowed [OF assms] by (auto simp: list_all_iff allowed_def plain_observation_def)

section \<open>The more specific marking\<close>

abbreviation of_family :: "string \<Rightarrow> string \<Rightarrow> bool" where
  "of_family family tag \<equiv> family_of tag = Some family"

lemma conflicts_iff: "conflicts ts tag \<longleftrightarrow> of_family ''tlp'' tag \<and> list_ex (of_family ''tlp'') ts"
  by (auto simp: conflicts_def SINGLE_VALUED_def split: option.splits)

lemma inherit_markings:
  "filter (of_family ''tlp'') (inherit_tags ts event) =
     (if list_ex (of_family ''tlp'') ts then filter (of_family ''tlp'') ts else take 1 (filter (of_family ''tlp'') event))"
proof (induction event arbitrary: ts)
  case Nil
  then show ?case by (auto simp: filter_empty_conv list_ex_iff)
next
  case (Cons tag event)
  have "filter (of_family ''tlp'') ts = []" if "\<not> list_ex (of_family ''tlp'') ts"
    using that by (auto simp: filter_empty_conv list_ex_iff)
  then show ?case using Cons by (auto simp: conflicts_iff)
qed

lemma inherit_others: "\<not> of_family ''tlp'' tag \<Longrightarrow> tag \<in> set (inherit_tags ts event) \<longleftrightarrow> tag \<in> set ts \<or> tag \<in> set event"
  by (induction event arbitrary: ts) (auto simp: conflicts_iff)

lemma set_tags_of: "set (tags_of attribute misp_type context) = set (inherit_tags (own_tags attribute misp_type context) (ec_tags context))"
  by (simp add: tags_of_def)

lemma set_filter_eq: "{t \<in> set xs. P t} = set (filter P xs)"
  by auto


text \<open>
  The rule compares families letter by letter, where the export reads them without regard to case: an event
  marked \<open>TLP:RED\<close> adds its marking to an attribute marked \<open>tlp:white\<close>.
\<close>

lemma marking_case_slips:
  "inherit_tags [''tlp:white''] [''TLP:RED''] = [''tlp:white'', ''TLP:RED'']"
  "tag_values ''tlp:white,TLP:RED'' ''tlp'' = [''white'', ''RED'']"
  by code_simp+

text \<open>
  The type of an attribute and the id of an event go into a tag as they came: with a comma there, one tag becomes
  two, the second of the sender's choosing, as an exemption from a marking.
\<close>

lemma type_tag_splits:
  "split_tags (join '','' (tags_of (JObj []) ''x,tlp:white'' EventContext_default)) = [''misp-type:x'', ''tlp:white'']"
  by code_simp

definition sample_publication :: json where
  "sample_publication = JObj [(''Event'', JObj [(''Tag'', JArr [JObj [(''name'', JStr ''tlp:amber'')]]),
     (''Attribute'', JArr [JObj [(''type'', JStr ''md5''), (''value'', JStr ''cafe''), (''comment'', JStr ''seen as cafe'')]])])]"

definition sample_hashing :: misp_mapping where
  "sample_hashing = \<lparr>mm_types = fmempty, mm_default_namespace = None, mm_require_to_ids = False, mm_hashed_namespace = Some ''hashes'',
     mm_store_values = False\<rparr>"

theorem misp_ingest_keeps_to_its_mapping_witness:
  "misp_parse id (\<lambda>_. Inr sample_publication :: string + json) [] sample_hashing =
     Inr [\<lparr>ob_namespace = ''hashes'', ob_value = ''63616665'', ob_timestamp = None, ob_last_timestamp = None, ob_count = 1,
           ob_tags = [''misp-type:md5'', ''tlp:amber'']\<rparr>] \<and>
   list_all (digest_observation id sample_hashing)
     [\<lparr>ob_namespace = ''hashes'', ob_value = ''63616665'', ob_timestamp = None, ob_last_timestamp = None, ob_count = 1,
       ob_tags = [''misp-type:md5'', ''tlp:amber'']\<rparr>]"
proof -
  have p: "misp_parse id (\<lambda>_. Inr sample_publication :: string + json) [] sample_hashing =
     Inr [\<lparr>ob_namespace = ''hashes'', ob_value = ''63616665'', ob_timestamp = None, ob_last_timestamp = None, ob_count = 1,
           ob_tags = [''misp-type:md5'', ''tlp:amber'']\<rparr>]"
    by code_simp
  have "\<not> mm_store_values sample_hashing" by (simp add: sample_hashing_def)
  then show ?thesis using misp_ingest_keeps_to_its_mapping [OF p] p by blast
qed

end
