(* ===== verification/Ingest_Stix.thy ===== *)
theory Ingest_Stix
  imports Misp Stix_Laws
begin

text \<open>
  \<^verbatim>\<open>src/src/ingest/stix.rs\<close>: the observations in a STIX 2.1 bundle.

  The regular expression that finds the comparisons in a pattern belongs to the regex crate: \<open>comparisons\<close> gives the
  three groups of every match, in order. Reading RFC 3339 is \<open>parse_rfc3339\<close> of \<open>stix_lib\<close>, and reading JSON the
  parameter \<open>json_in\<close>.
\<close>

record observable =
  os_type :: string
  os_value :: string

definition stix_namespace_for :: "stix_mapping \<Rightarrow> string \<Rightarrow> string option" where
  "stix_namespace_for m stix_type =
     (case fmlookup (smap_types m) stix_type of Some namespace \<Rightarrow> Some namespace | None \<Rightarrow> smap_default m)"

section \<open>Looking things up\<close>

type_synonym by_id = "string \<Rightarrow> json option"

definition index_of :: "json list \<Rightarrow> by_id" where
  "index_of objects = map_of (rev (List.map_filter (\<lambda>object. map_option (\<lambda>i. (i, object)) (get_str object ''id'')) objects))"

definition refs_in :: "json \<Rightarrow> string \<Rightarrow> string list" where
  "refs_in object key = (case json_get object key of Some (JArr refs) \<Rightarrow> List.map_filter as_str refs | _ \<Rightarrow> [])"

definition stix_timestamp :: "stix_lib \<Rightarrow> json \<Rightarrow> string \<Rightarrow> int option" where
  "stix_timestamp lib object key = Option.bind (get_str object key) (parse_rfc3339 lib)"

definition count_in_object :: "json \<Rightarrow> string \<Rightarrow> u64" where
  "count_in_object object key = max (unwrap_or (Option.bind (json_get object key) as_u64) 1) 1"

definition identity_name :: "json \<Rightarrow> string option" where
  "identity_name object =
     (if get_str object ''type'' = Some ''identity'' then map_option sanitize_tag (get_str object ''name'') else None)"

definition tlp_level :: "string \<Rightarrow> by_id \<Rightarrow> string option" where
  "tlp_level ident index =
     (case tlp_of_id ident of
        Some level \<Rightarrow> Some level
      | None \<Rightarrow>
          (case index ident of
             None \<Rightarrow> None
           | Some marking \<Rightarrow>
               if get_str marking ''definition_type'' \<noteq> Some ''tlp'' then None
               else map_option to_ascii_lowercase (Option.bind (json_get marking ''definition'') (\<lambda>d. get_str d ''tlp''))))"

section \<open>What is said of an object\<close>

definition optional_tag :: "string \<Rightarrow> string option \<Rightarrow> string list" where
  "optional_tag family v = (case v of None \<Rightarrow> [] | Some s \<Rightarrow> [family @ s])"

definition describe :: "json \<Rightarrow> by_id \<Rightarrow> string list" where
  "describe object index =
     optional_tag ''identity:'' (Option.bind (Option.bind (get_str object ''created_by_ref'') index) identity_name) @
     optional_tag ''confidence:'' (map_option show_u64 (Option.bind (json_get object ''confidence'') as_u64)) @
     concat (map (\<lambda>i. optional_tag ''tlp:'' (tlp_level i index)) (refs_in object ''object_marking_refs''))"

definition describe_indicator :: "json \<Rightarrow> by_id \<Rightarrow> string list" where
  "describe_indicator indicator index =
     describe indicator index @
     optional_tag ''stix-id:'' (get_str indicator ''id'') @
     map (\<lambda>kind. ''indicator-type:'' @ sanitize_tag kind) (refs_in indicator ''indicator_types'') @
     (case get_str indicator ''name'' of
        Some name \<Rightarrow> if trim name \<noteq> [] then [''name:'' @ sanitize_tag name] else []
      | None \<Rightarrow> []) @
     optional_tag ''valid-until:'' (map_option sanitize_tag (get_str indicator ''valid_until''))"

definition dedupe :: "string list \<Rightarrow> string list" where
  "dedupe ts = push_missing [] ts"

section \<open>Observables\<close>

definition collect_observable :: "json \<Rightarrow> observable list" where
  "collect_observable object =
     (case get_str object ''type'' of
        None \<Rightarrow> []
      | Some stix_type \<Rightarrow>
          if stix_type = ''file'' then
            (case json_get object ''hashes'' of
               Some (JObj hashes) \<Rightarrow>
                 List.map_filter (\<lambda>(algorithm, digest).
                   case as_str digest of
                     Some d \<Rightarrow> if d \<noteq> [] then Some \<lparr>os_type = ''file.'' @ algorithm, os_value = d\<rparr> else None
                   | None \<Rightarrow> None) hashes
             | _ \<Rightarrow> [])
          else
            (case Option.bind (if stix_type = ''mutex'' \<or> stix_type = ''windows-registry-key''
                               then (case json_get object ''key'' of Some v \<Rightarrow> Some v | None \<Rightarrow> json_get object ''name'')
                               else json_get object ''value'') as_str of
               Some v \<Rightarrow> if v \<noteq> [] then [\<lparr>os_type = stix_type, os_value = v\<rparr>] else []
             | None \<Rightarrow> []))"

definition observables_of :: "json \<Rightarrow> by_id \<Rightarrow> observable list" where
  "observables_of observed index =
     concat (map (\<lambda>i. case index i of Some object \<Rightarrow> collect_observable object | None \<Rightarrow> []) (refs_in observed ''object_refs'')) @
     (case json_get observed ''objects'' of
        Some (JObj embedded) \<Rightarrow> concat (map (\<lambda>(_, object). collect_observable object) embedded)
      | _ \<Rightarrow> [])"

text \<open>\<open>str::replace\<close> of a backslash and a quote by the quote.\<close>

fun unescape_quotes :: "string \<Rightarrow> string" where
  "unescape_quotes (c # d # s) =
     (if c = CHR 0x5C \<and> d = CHR 0x27 then CHR 0x27 # unescape_quotes s else c # unescape_quotes (d # s))"
| "unescape_quotes s = s"

definition trim_chars :: "(char \<Rightarrow> bool) \<Rightarrow> string \<Rightarrow> string" where
  "trim_chars P s = rev (dropWhile P (rev (dropWhile P s)))"

definition edge_char :: "char \<Rightarrow> bool" where
  "edge_char c \<longleftrightarrow> c \<in> {CHR ''.'', CHR 0x27, CHR ''['', CHR '']''}"

definition comparison_observable :: "string \<times> string \<times> string \<Rightarrow> observable option" where
  "comparison_observable captures =
     (case captures of
        (stix_type, path, literal) \<Rightarrow>
          let v = unescape_quotes literal
          in if v = [] then None
             else Some \<lparr>os_type =
                          (if stix_type = ''file'' \<and> starts_with path ''hashes''
                           then ''file.'' @ trim_chars edge_char (trim_start_text ''hashes'' path)
                           else stix_type),
                        os_value = v\<rparr>)"

definition from_pattern :: "(string \<Rightarrow> (string \<times> string \<times> string) list) \<Rightarrow> string \<Rightarrow> observable list" where
  "from_pattern comparisons pattern = List.map_filter comparison_observable (comparisons pattern)"

section \<open>Observations\<close>

definition emit ::
  "observable list \<Rightarrow> stix_mapping \<Rightarrow> int option \<Rightarrow> int option \<Rightarrow> u64 \<Rightarrow> string list \<Rightarrow> observation list" where
  "emit observables mapping first final count said =
     List.map_filter (\<lambda>observable.
       map_option (\<lambda>namespace.
         \<lparr>ob_namespace = namespace, ob_value = os_value observable,
          ob_timestamp = (case first of Some t \<Rightarrow> Some t | None \<Rightarrow> final), ob_last_timestamp = final, ob_count = count,
          ob_tags = (''stix-type:'' @ os_type observable) # said\<rparr>)
         (stix_namespace_for mapping (os_type observable))) observables"

definition from_sighting ::
  "stix_lib \<Rightarrow> (string \<Rightarrow> (string \<times> string \<times> string) list) \<Rightarrow> json \<Rightarrow> by_id \<Rightarrow> stix_mapping \<Rightarrow> observation list" where
  "from_sighting lib comparisons sighting index mapping =
     (let count = count_in_object sighting ''count'';
          first = stix_timestamp lib sighting ''first_seen'';
          final = stix_timestamp lib sighting ''last_seen'';
          tags = describe sighting index @
            concat (map (\<lambda>i. optional_tag ''identity:'' (Option.bind (index i) identity_name)) (refs_in sighting ''where_sighted_refs''));
          target = Option.bind (get_str sighting ''sighting_of_ref'') index;
          (observables, more) =
            (case target of
               None \<Rightarrow> ([], [])
             | Some t \<Rightarrow>
                 if get_str t ''type'' = Some ''indicator''
                 then ((case get_str t ''pattern'' of Some pattern \<Rightarrow> from_pattern comparisons pattern | None \<Rightarrow> []), describe_indicator t index)
                 else (collect_observable t, []));
          observed = concat (map (\<lambda>i. case index i of Some object \<Rightarrow> observables_of object index | None \<Rightarrow> [])
                              (refs_in sighting ''observed_data_refs''))
      in emit (observables @ observed) mapping first final count (dedupe (tags @ more)))"

definition from_observed_data :: "stix_lib \<Rightarrow> json \<Rightarrow> by_id \<Rightarrow> stix_mapping \<Rightarrow> observation list" where
  "from_observed_data lib observed index mapping =
     emit (observables_of observed index) mapping (stix_timestamp lib observed ''first_observed'')
       (stix_timestamp lib observed ''last_observed'') (count_in_object observed ''number_observed'') (dedupe (describe observed index))"

definition from_indicator ::
  "stix_lib \<Rightarrow> (string \<Rightarrow> (string \<times> string \<times> string) list) \<Rightarrow> json \<Rightarrow> by_id \<Rightarrow> stix_mapping \<Rightarrow> observation list" where
  "from_indicator lib comparisons indicator index mapping =
     (case get_str indicator ''pattern'' of
        None \<Rightarrow> []
      | Some pattern \<Rightarrow>
          emit (from_pattern comparisons pattern) mapping (stix_timestamp lib indicator ''valid_from'') None 1
            (dedupe (describe indicator index @ describe_indicator indicator index)))"

definition bundle_members :: "json \<Rightarrow> json list" where
  "bundle_members root =
     (case json_get root ''objects'' of
        Some (JArr objects) \<Rightarrow> objects
      | _ \<Rightarrow> (case root of JArr objects \<Rightarrow> objects | JObj members \<Rightarrow> [JObj members] | _ \<Rightarrow> []))"

definition sighted_refs :: "json list \<Rightarrow> string list" where
  "sighted_refs objects =
     List.map_filter (\<lambda>object. if get_str object ''type'' = Some ''sighting'' then get_str object ''sighting_of_ref'' else None) objects"

definition read_object ::
  "stix_lib \<Rightarrow> (string \<Rightarrow> (string \<times> string \<times> string) list) \<Rightarrow> by_id \<Rightarrow> string list \<Rightarrow> stix_mapping \<Rightarrow> json \<Rightarrow> observation list" where
  "read_object lib comparisons index sighted_ids mapping object =
     (let kind = get_str object ''type''
      in if kind = Some ''sighting'' then from_sighting lib comparisons object index mapping
         else if kind = Some ''observed-data'' then from_observed_data lib object index mapping
         else if kind = Some ''indicator'' then
           (if unwrap_or (get_str object ''id'') [] \<in> set sighted_ids then [] else from_indicator lib comparisons object index mapping)
         else [])"

definition parse_bundle ::
  "stix_lib \<Rightarrow> (string \<Rightarrow> (string \<times> string \<times> string) list) \<Rightarrow> (string \<Rightarrow> 'e + json) \<Rightarrow> string \<Rightarrow> stix_mapping \<Rightarrow> 'e + observation list" where
  "parse_bundle lib comparisons json_in body mapping =
     (case json_in body of
        Inl e \<Rightarrow> Inl e
      | Inr root \<Rightarrow>
          let objects = bundle_members root
          in Inr (concat (map (read_object lib comparisons (index_of objects) (sighted_refs objects) mapping) objects)))"

section \<open>Patterns are read back\<close>

text \<open>
  What the regular expression \<^verbatim>\<open>([a-z0-9_-]+):([a-zA-Z0-9_.\[\]'-]+)\s*=\s*'((?:[^'\\]|\\.)*)'\<close> finds in a
  pattern of one comparison: its three groups, once.
\<close>

definition type_char :: "char \<Rightarrow> bool" where
  "type_char c \<longleftrightarrow> is_ascii_digit c \<or> 97 \<le> (of_char c :: nat) \<and> (of_char c :: nat) \<le> 122 \<or> c = CHR ''_'' \<or> c = CHR ''-''"

definition path_char :: "char \<Rightarrow> bool" where
  "path_char c \<longleftrightarrow> type_char c \<or> is_ascii_alphabetic c \<or> c \<in> {CHR ''.'', CHR ''['', CHR '']'', CHR 0x27}"

fun literal_ok :: "string \<Rightarrow> bool" where
  "literal_ok [] = True"
| "literal_ok [c] = (c \<noteq> CHR 0x27 \<and> c \<noteq> CHR 0x5C)"
| "literal_ok (c # d # s) =
     (if c = CHR 0x27 then False else if c = CHR 0x5C then d \<noteq> CHR 0x0A \<and> literal_ok s else literal_ok (d # s))"

definition comparisons_ok :: "(string \<Rightarrow> (string \<times> string \<times> string) list) \<Rightarrow> bool" where
  "comparisons_ok comparisons \<longleftrightarrow>
     (\<forall>t path literal. t \<noteq> [] \<and> list_all type_char t \<and> path \<noteq> [] \<and> list_all path_char path \<and> literal_ok literal \<longrightarrow>
        comparisons (''['' @ t @ '':'' @ path @ '' = '' @ quoted literal @ '']'') = [(t, path, literal)])"

definition double_backslashes :: "string \<Rightarrow> string" where
  "double_backslashes v = replace_char CHR 0x5C [CHR 0x5C, CHR 0x5C] v"

lemma stix_escape_simps [simp]:
  "stix_escape [] = []"
  "stix_escape (c # s) = (if c = CHR 0x5C then [CHR 0x5C, CHR 0x5C] else if c = CHR 0x27 then [CHR 0x5C, CHR 0x27] else [c]) @ stix_escape s"
  by (simp_all add: stix_escape_def replace_char_def)

lemma double_backslashes_simps [simp]:
  "double_backslashes [] = []"
  "double_backslashes (c # s) = (if c = CHR 0x5C then [CHR 0x5C, CHR 0x5C] else [c]) @ double_backslashes s"
  by (simp_all add: double_backslashes_def replace_char_def)

lemma escape_head: "stix_escape s = [] \<or> hd (stix_escape s) \<noteq> CHR 0x27"
  by (cases s) auto

lemma literal_ok_Cons: "c \<noteq> CHR 0x27 \<Longrightarrow> c \<noteq> CHR 0x5C \<Longrightarrow> literal_ok (c # s) = literal_ok s"
  by (cases s) auto

lemma literal_ok_escape: "literal_ok (stix_escape s)"
  by (induction s) (auto simp: literal_ok_Cons)

lemma unescape_Cons: "c \<noteq> CHR 0x5C \<or> s = [] \<or> hd s \<noteq> CHR 0x27 \<Longrightarrow> unescape_quotes (c # s) = c # unescape_quotes s"
  by (cases s) auto

lemma unescape_escape: "unescape_quotes (stix_escape s) = double_backslashes s"
proof (induction s)
  case (Cons c s)
  consider "c = CHR 0x5C" | "c = CHR 0x27" | "c \<noteq> CHR 0x5C" "c \<noteq> CHR 0x27" by blast
  then show ?case
  proof cases
    case 1
    then show ?thesis using Cons escape_head [of s] by (simp add: unescape_Cons)
  next
    case 3
    then show ?thesis using Cons by (simp add: unescape_Cons)
  qed (use Cons in simp)
qed simp

lemma double_backslashes_id: "double_backslashes s = s \<longleftrightarrow> CHR 0x5C \<notin> set s"
proof -
  have "length s \<le> length (double_backslashes s)" for s by (induction s) auto
  then have "length (double_backslashes s) = length s \<longleftrightarrow> CHR 0x5C \<notin> set s" for s
    by (induction s) (auto, (metis Suc_n_not_le_n le_SucI)+)
  moreover have "CHR 0x5C \<notin> set s \<Longrightarrow> double_backslashes s = s" by (induction s) auto
  ultimately show ?thesis by metis
qed

text \<open>The observable types whose patterns are read back as they are: those in lower case, and files by the
  name of a hash.\<close>

definition readable_type :: "string \<Rightarrow> bool" where
  "readable_type t =
     (case strip_prefix t ''file.'' of
        Some algorithm \<Rightarrow> algorithm \<noteq> [] \<and> list_all path_char algorithm \<and> \<not> edge_char (hd algorithm) \<and> \<not> edge_char (List.last algorithm)
      | None \<Rightarrow> t \<noteq> [] \<and> list_all type_char t)"

lemma trim_hashes: "\<not> starts_with s ''hashes'' \<Longrightarrow> trim_start_text ''hashes'' (''hashes'' @ s) = s"
  unfolding trim_start_text_def by (subst trim_by.simps, subst trim_by.simps) (simp add: starts_with_def)

lemma trim_chars_quoted:
  assumes "s \<noteq> []" "\<not> edge_char (hd s)" "\<not> edge_char (List.last s)"
  shows "trim_chars edge_char (''.'' @ quoted s) = s"
proof -
  have e: "edge_char CHR ''.''" "edge_char CHR 0x27" by (simp_all add: edge_char_def)
  have "dropWhile edge_char (''.'' @ quoted s) = s @ [CHR 0x27]"
    using assms(1,2) e by (cases s) (simp_all add: quoted_def)
  moreover have "dropWhile edge_char (rev s) = rev s"
    using assms(1,3) by (cases s rule: rev_cases) auto
  ultimately show ?thesis using e by (simp add: trim_chars_def)
qed

lemma from_pattern_reads:
  assumes re: "comparisons_ok comparisons" and p: "pattern_for t v = Some pattern" and ok: "readable_type t" and v: "v \<noteq> []"
  shows "from_pattern comparisons pattern = [\<lparr>os_type = t, os_value = double_backslashes v\<rparr>]"
proof -
  have ne: "double_backslashes v \<noteq> []" using v by (cases v) auto
  show ?thesis
  proof (cases "strip_prefix t ''file.''")
    case (Some algorithm)
    let ?path = "''hashes'' @ ''.'' @ quoted algorithm"
    have a: "algorithm \<noteq> []" "list_all path_char algorithm" "\<not> edge_char (hd algorithm)" "\<not> edge_char (List.last algorithm)"
      using ok Some by (simp_all add: readable_type_def)
    have t: "t = ''file.'' @ algorithm" using Some by (simp add: strip_prefix_Some)
    have cls: "list_all type_char ''file''" "list_all path_char ''hashes''" "path_char CHR ''.''" "path_char CHR 0x27" by code_simp+
    have pattern: "pattern = ''['' @ ''file'' @ '':'' @ ?path @ '' = '' @ quoted (stix_escape v) @ '']''"
      using p Some by (simp add: pattern_for_def)
    have "list_all path_char ?path" using a(2) cls by (simp add: quoted_def)
    then have "comparisons pattern = [(''file'', ?path, stix_escape v)]"
      using re cls(1) literal_ok_escape [of v] unfolding comparisons_ok_def pattern by blast
    moreover have "starts_with ?path ''hashes''" by (rule starts_with_append)
    moreover have "trim_start_text ''hashes'' ?path = ''.'' @ quoted algorithm" by (rule trim_hashes) (simp add: starts_with_def)
    ultimately show ?thesis
      using ne trim_chars_quoted [OF a(1,3,4)] unfolding from_pattern_def
      by (simp add: List.map_filter_simps comparison_observable_def unescape_escape t del: append.simps)
  next
    case None
    then have cls: "t \<noteq> []" "list_all type_char t" using ok by (simp_all add: readable_type_def)
    obtain property where shape: "pattern_property t = Some property" "pattern = ''['' @ t @ '':'' @ property @ '' = '' @ quoted (stix_escape v) @ '']''"
      using p None by (auto simp: pattern_for_def)
    have "property \<in> set [''name'', ''key'', ''command_line'', ''user_id'', ''number'', ''value'']"
      using shape(1) by (auto simp: pattern_property_def split: if_splits)
    moreover have "list_all (\<lambda>x. x \<noteq> [] \<and> list_all path_char x \<and> \<not> starts_with x ''hashes'')
        [''name'', ''key'', ''command_line'', ''user_id'', ''number'', ''value'']" by code_simp
    ultimately have "property \<noteq> []" "list_all path_char property" "\<not> starts_with property ''hashes''"
      unfolding list_all_iff [of _ "[_, _, _, _, _, _]"] by blast+
    moreover from this have "comparisons pattern = [(t, property, stix_escape v)]"
      using re cls literal_ok_escape [of v] unfolding comparisons_ok_def shape(2) by blast
    ultimately show ?thesis
      using ne by (simp add: from_pattern_def List.map_filter_simps comparison_observable_def unescape_escape)
  qed
qed

section \<open>A value exported and imported\<close>

lemma get_str_id: "get_str object ''id'' = object_id object"
  by (simp add: get_str_def object_id_def)

lemma index_finds:
  assumes "\<forall>x \<in> set objects. has_id x" "distinct (map id_of objects)" "x \<in> set objects"
  shows "index_of objects (id_of x) = Some x"
proof -
  have pairs: "List.map_filter (\<lambda>object. map_option (\<lambda>i. (i, object)) (get_str object ''id'')) objects = map (\<lambda>x. (id_of x, x)) objects"
    using assms(1) by (induction objects) (auto simp: List.map_filter_simps get_str_id object_id_of)
  have "distinct (map fst (rev (map (\<lambda>x. (id_of x, x)) objects)))" using assms(2) by (simp add: comp_def flip: rev_map)
  moreover have "(id_of x, x) \<in> set (rev (map (\<lambda>x. (id_of x, x)) objects))" using assms(3) by auto
  ultimately show ?thesis unfolding index_of_def pairs by (rule map_of_is_SomeI)
qed

lemma object_types:
  "get_str (stix_identity lib name class) ''type'' = Some ''identity''"
  "get_str (stix_marking level ident) ''type'' = Some ''marking-definition''"
  "get_str (stix_indicator lib ident view pattern author markings fallback) ''type'' = Some ''indicator''"
  "get_str (stix_sighting lib namespace observable view ind author seen_by markings) ''type'' = Some ''sighting''"
  by (simp_all add: get_str_def stix_identity_def stix_marking_def stix_indicator_def stix_sighting_def as_str_def)

lemma single_bundle:
  assumes "value_typing untyped default_type view = Some (t, pattern)"
  shows "\<exists>rest. exported_objects (bundle_of lib [\<lparr>part_namespace = namespace, part_values = [view], part_type = default_type\<rparr>] settings untyped) =
      stix_identity lib (sp_identity settings) (sp_identity_class settings) #
      value_objects lib (identity_id lib (sp_identity settings)) namespace view t pattern @ rest \<and>
    (\<forall>x \<in> set rest. get_str x ''type'' \<notin> {Some ''sighting'', Some ''observed-data'', Some ''indicator''})"
proof -
  let ?a = "identity_id lib (sp_identity settings)" and ?E = "[(namespace, view, t, pattern)]"
  let ?part = "\<lparr>part_namespace = namespace, part_values = [view], part_type = default_type\<rparr>"
  let ?first = "stix_identity lib (sp_identity settings) (sp_identity_class settings)"
  let ?V = "value_objects lib ?a namespace view t pattern"
  let ?R = "first_by_id [] (map (organization lib) (names_of ?E)) @ TLP_markings (levels_of ?E)"
  have E: "exported_items untyped (items_of [?part]) = ?E"
    using assms by (simp add: exported_items_def items_of_def part_items_def List.map_filter_simps)
  have g: "gathered lib settings ?E = (?first # ?V) @ ?R" by (simp add: gathered_def Let_def objects_of_def)
  have ids: "\<forall>x \<in> set ((?first # ?V) @ ?R). has_id x" using gathered_has_ids [of lib settings ?E] unfolding g .
  have kinds: "?a \<noteq> stix_indicator_id lib view (ty_observable t)" "?a \<noteq> sighting_id lib namespace (ty_observable t) view"
    "stix_indicator_id lib view (ty_observable t) \<noteq> sighting_id lib namespace (ty_observable t) view"
    using kinds_of_ids(1,2) [of lib "sp_identity settings"] kinds_of_ids(3,4) [of lib view "ty_observable t"]
      kinds_of_ids(5) [of lib namespace "ty_observable t" view] by auto
  have head: "first_by_id [] (?first # ?V) = ?first # ?V"
    using kinds by (auto simp: value_objects_def Let_def)
  have "get_str x ''type'' \<notin> {Some ''sighting'', Some ''observed-data'', Some ''indicator''}" if "x \<in> set ?R" for x
    using that first_by_id_subset [of "[]" "map (organization lib) (names_of ?E)"]
    by (auto simp: TLP_markings_def organization_def object_types)
  moreover have "exported_objects (bundle_of lib [?part] settings untyped) =
      ?first # ?V @ first_by_id ([] @ map id_of (first_by_id [] (?first # ?V))) ?R"
    unfolding exported_objects_eq E g using first_by_id_append [OF ids, of "[]"] head by simp
  moreover have "set (first_by_id ([] @ map id_of (first_by_id [] (?first # ?V))) ?R) \<subseteq> set ?R" by (rule first_by_id_subset)
  ultimately show ?thesis by (intro exI [of _ "first_by_id ([] @ map id_of (first_by_id [] (?first # ?V))) ?R"]) blast
qed

lemma refs_in_eq: "json_get object key = Some (JArr (map JStr xs)) \<Longrightarrow> refs_in object key = xs"
proof -
  have "List.map_filter as_str (map JStr xs) = xs" by (induction xs) (simp_all add: List.map_filter_simps as_str_def)
  then show "json_get object key = Some (JArr (map JStr xs)) \<Longrightarrow> refs_in object key = xs" by (simp add: refs_in_def)
qed

lemma map_of_optional_at: "map_of (optional_field k v @ rest) k' = (if k = k' \<and> v \<noteq> None then v else map_of rest k')"
  by (simp add: optional_field_def split: option.split)

lemma sighting_fields:
  fixes lib namespace observable view ind author seen_by refs
  defines "s \<equiv> stix_sighting lib namespace observable view ind author (map JStr seen_by) (map JStr refs)"
  shows "count_in_object s ''count'' = clamp_count (v_count view)"
    "stix_timestamp lib s ''first_seen'' = parse_rfc3339 lib (rfc3339 lib (v_first_seen view))"
    "stix_timestamp lib s ''last_seen'' = parse_rfc3339 lib (rfc3339 lib (v_last_seen view))"
    "get_str s ''sighting_of_ref'' = Some ind" "refs_in s ''observed_data_refs'' = []" "refs_in s ''object_marking_refs'' = refs"
proof -
  have "1 \<le> clamp_count n" for n
    by (cases "n = 0") (auto simp: clamp_count_def word_le_nat_alt Suc_le_eq unat_gt_0)
  moreover have "json_get s ''count'' = Some (JNum (uint (clamp_count (v_count view))))" by (simp add: s_def stix_sighting_def)
  ultimately show "count_in_object s ''count'' = clamp_count (v_count view)"
    by (simp add: count_in_object_def as_u64_def unwrap_or_def max.absorb1 uint_lt2p [of "clamp_count (v_count view)", simplified])
  show "refs_in s ''object_marking_refs'' = refs"
  proof (cases "refs = []")
    case True
    then show ?thesis by (simp add: s_def stix_sighting_def refs_in_def map_of_optional_at nonempty_array_def optional_field_def split: option.split)
  next
    case False
    then show ?thesis by (intro refs_in_eq) (simp add: s_def stix_sighting_def map_add_def map_of_optional nonempty_strings)
  qed
qed (simp_all add: s_def stix_sighting_def stix_timestamp_def get_str_def as_str_def refs_in_def map_add_def map_of_optional)

lemma indicator_pattern: "get_str (stix_indicator lib ident view pattern author markings fallback) ''pattern'' = Some pattern"
  by (auto simp: get_str_def stix_indicator_def map_add_def map_of_optional as_str_def)

lemma tlp_of_id_known: "(level, i) \<in> set TLP \<Longrightarrow> tlp_of_id i = Some level"
  by (auto simp: TLP_def tlp_of_id_def)

text \<open>
  C19. A value exported on its own and imported again comes back as one observation: of the same observable type,
  with its count (within what STIX can say), its first and last sighting, and every marking of the traffic light
  protocol it had. The value itself comes back with every backslash doubled, so it is the same value exactly when
  it holds none.
\<close>
theorem stix_value_roundtrip:
  assumes re: "comparisons_ok comparisons"
    and typed: "value_typing untyped default_type view = Some (t, pattern)" "readable_type (ty_observable t)" "v_value view \<noteq> []"
    and times: "parse_rfc3339 lib (rfc3339 lib (v_first_seen view)) = Some (v_first_seen view)"
      "parse_rfc3339 lib (rfc3339 lib (v_last_seen view)) = Some (v_last_seen view)"
    and mapped: "stix_namespace_for mapping (ty_observable t) = Some target"
    and json: "json_in body = Inr (sx_bundle (bundle_of lib
      [\<lparr>part_namespace = namespace, part_values = [view], part_type = default_type\<rparr>] settings untyped))"
  shows "\<exists>ob. parse_bundle lib comparisons json_in body mapping = Inr [ob] \<and>
    ob_namespace ob = target \<and> ob_value ob = double_backslashes (v_value view) \<and>
    (ob_value ob = v_value view \<longleftrightarrow> CHR 0x5C \<notin> set (v_value view)) \<and>
    ob_timestamp ob = Some (v_first_seen view) \<and> ob_last_timestamp ob = Some (v_last_seen view) \<and>
    ob_count ob = clamp_count (v_count view) \<and>
    ''stix-type:'' @ ty_observable t \<in> set (ob_tags ob) \<and>
    {''tlp:'' @ level | level i. (level, i) \<in> set TLP \<and> i \<in> set (value_levels view)} \<subseteq> set (ob_tags ob)"
proof -
  let ?x = "bundle_of lib [\<lparr>part_namespace = namespace, part_values = [view], part_type = default_type\<rparr>] settings untyped"
  let ?author = "stix_identity lib (sp_identity settings) (sp_identity_class settings)"
  let ?a = "identity_id lib (sp_identity settings)" and ?i = "stix_indicator_id lib view (ty_observable t)"
  let ?refs = "push_missing [] (value_levels view)"
  define ind where "ind = stix_indicator lib ?i view pattern ?a (map JStr ?refs) (ty_fallback t)"
  define s where "s = stix_sighting lib namespace (ty_observable t) view ?i ?a (map JStr (value_seen_by lib ?a view)) (map JStr ?refs)"
  define objs where "objs = exported_objects ?x"
  obtain rest where shape: "objs = ?author # [ind, s] @ rest"
      and others: "\<forall>x \<in> set rest. get_str x ''type'' \<notin> {Some ''sighting'', Some ''observed-data'', Some ''indicator''}"
    using single_bundle [OF typed(1), of lib namespace settings] unfolding objs_def by (auto simp: value_objects_def Let_def ind_def s_def)
  have ids: "\<forall>x \<in> set objs. has_id x" "distinct (map id_of objs)"
    using gathered_has_ids first_by_id_subset first_by_id_distinct [OF gathered_has_ids] unfolding objs_def exported_objects_eq by blast+
  have members: "bundle_members (sx_bundle ?x) = objs"
    by (simp add: bundle_members_def objs_def exported_objects_def bundle_of_eq Let_def bundle_json_def bundle_objects_def as_array_def unwrap_or_def)
  let ?index = "index_of objs"
  have target: "?index ?i = Some ind" using index_finds [OF ids, of ind] shape by (simp add: ind_def)
  have sighted: "sighted_refs objs = [?i]"
  proof -
    have "sighted_refs rest = []" using others by (auto simp: sighted_refs_def List.map_filter_def filter_empty_conv)
    then show ?thesis unfolding shape
      by (simp add: sighted_refs_def List.map_filter_simps object_types ind_def s_def sighting_fields(4))
  qed
  note sf = sighting_fields [of lib namespace "ty_observable t" view ?i ?a "value_seen_by lib ?a view" ?refs, folded s_def]
  have p: "pattern_for (ty_observable t) (v_value view) = Some pattern"
    using typed(1) by (auto simp: value_typing_def split: bind_splits)
  define said where "said = describe s ?index @
      concat (map (\<lambda>i. optional_tag ''identity:'' (Option.bind (?index i) identity_name)) (refs_in s ''where_sighted_refs''))"
  define tags where "tags = dedupe (said @ describe_indicator ind ?index)"
  define ob where "ob = \<lparr>ob_namespace = target, ob_value = double_backslashes (v_value view), ob_timestamp = Some (v_first_seen view),
      ob_last_timestamp = Some (v_last_seen view), ob_count = clamp_count (v_count view), ob_tags = (''stix-type:'' @ ty_observable t) # tags\<rparr>"
  have from_s: "from_sighting lib comparisons s ?index mapping = [ob]"
    using from_pattern_reads [OF re p typed(2,3)] indicator_pattern object_types(3)
    unfolding from_sighting_def Let_def sf target option.case Option.bind.simps
    by (simp add: emit_def List.map_filter_simps mapped times ob_def tags_def said_def target ind_def sf)
  define f where "f = read_object lib comparisons ?index [?i] mapping"
  have quiet: "f x = []" if "x = ?author \<or> x = ind \<or> x \<in> set rest" for x
    using that others by (auto simp: f_def read_object_def Let_def object_types ind_def get_str_id unwrap_or_def)
  have "concat (map f rest) = []" using quiet by simp
  moreover have "f s = [ob]" using from_s by (simp add: f_def read_object_def Let_def object_types s_def)
  ultimately have "concat (map f objs) = [ob]" using quiet by (simp add: shape)
  then have read: "parse_bundle lib comparisons json_in body mapping = Inr [ob]"
    by (simp add: parse_bundle_def json members sighted f_def)
  have "''tlp:'' @ level \<in> set tags" if "(level, i) \<in> set TLP" "i \<in> set (value_levels view)" for level i
  proof -
    have "''tlp:'' @ level \<in> set (describe s ?index)"
      using that tlp_of_id_known [OF that(1)] unfolding describe_def sf
      by (auto simp: tlp_level_def optional_tag_def intro!: bexI [of _ i])
    then show ?thesis by (simp add: tags_def dedupe_def said_def)
  qed
  then show ?thesis using read double_backslashes_id by (intro exI [of _ ob]) (auto simp: ob_def)
qed

text \<open>A reader of patterns of one comparison, by hand: up to the colon, up to the blank, and the quoted rest.\<close>

definition sample_comparisons :: "string \<Rightarrow> (string \<times> string \<times> string) list" where
  "sample_comparisons pattern =
     (case split_once CHR '':'' (tl pattern) of
        None \<Rightarrow> []
      | Some (t, rest) \<Rightarrow>
          (case split_once CHR '' '' rest of
             None \<Rightarrow> []
           | Some (path, literal) \<Rightarrow> [(t, path, butlast (butlast (drop 3 literal)))]))"

lemma sample_comparisons_ok: "comparisons_ok sample_comparisons"
proof -
  have "sample_comparisons (''['' @ t @ '':'' @ path @ '' = '' @ quoted literal @ '']'') = [(t, path, literal)]"
    if "list_all type_char t" "list_all path_char path" for t path literal
  proof -
    have "CHR '':'' \<notin> set t" using that(1) by (auto simp: list_all_iff type_char_def is_ascii_digit_def)
    then have "split_once CHR '':'' (t @ CHR '':'' # path @ '' = '' @ quoted literal @ '']'') = Some (t, path @ '' = '' @ quoted literal @ '']'')"
      by (rule split_once_append)
    moreover have "CHR '' '' \<notin> set path" using that(2)
      by (auto simp: list_all_iff path_char_def type_char_def is_ascii_digit_def is_ascii_alphabetic_def)
    then have "split_once CHR '' '' (path @ CHR '' '' # ''= '' @ quoted literal @ '']'') = Some (path, ''= '' @ quoted literal @ '']'')"
      by (rule split_once_append)
    ultimately show ?thesis by (simp add: sample_comparisons_def quoted_def butlast_append)
  qed
  then show ?thesis by (simp add: comparisons_ok_def)
qed

definition sample_import :: stix_mapping where
  "sample_import = \<lparr>smap_types = fmupd ''ipv4-addr'' ''stix/ips'' fmempty, smap_default = None\<rparr>"

theorem stix_value_roundtrip_witness:
  "\<exists>ob. parse_bundle sample_stix sample_comparisons
      (\<lambda>_. Inr (sx_bundle (bundle_of sample_stix [\<lparr>part_namespace = ''a'', part_values = [sample_view ''1.2.3.4''], part_type = Some ''ipv4-addr''\<rparr>]
        stix_Settings_default UntypedSkip)) :: string + json) [] sample_import = Inr [ob] \<and>
     ob_namespace ob = ''stix/ips'' \<and> ob_value ob = ''1.2.3.4'' \<and> ob_count ob = 3 \<and>
     ob_timestamp ob = Some 100 \<and> ob_last_timestamp ob = Some 200 \<and> ''tlp:amber'' \<in> set (ob_tags ob)"
proof -
  have ty: "readable_type (ty_observable \<lparr>ty_observable = ''ipv4-addr'', ty_fallback = False\<rparr>)" by code_simp
  have v: "v_value (sample_view ''1.2.3.4'') \<noteq> []" by (simp add: sample_view_def)
  have t: "parse_rfc3339 sample_stix (rfc3339 sample_stix (v_first_seen (sample_view ''1.2.3.4''))) = Some (v_first_seen (sample_view ''1.2.3.4''))"
    "parse_rfc3339 sample_stix (rfc3339 sample_stix (v_last_seen (sample_view ''1.2.3.4''))) = Some (v_last_seen (sample_view ''1.2.3.4''))"
    by code_simp+
  have m: "stix_namespace_for sample_import (ty_observable \<lparr>ty_observable = ''ipv4-addr'', ty_fallback = False\<rparr>) = Some ''stix/ips''"
    by code_simp
  let ?root = "sx_bundle (bundle_of sample_stix [\<lparr>part_namespace = ''a'', part_values = [sample_view ''1.2.3.4''], part_type = Some ''ipv4-addr''\<rparr>]
      stix_Settings_default UntypedSkip)"
  have json: "(\<lambda>_ :: string. Inr ?root :: string + json) [] = Inr ?root" by (rule refl)
  obtain ob where ob: "parse_bundle sample_stix sample_comparisons (\<lambda>_. Inr ?root :: string + json) [] sample_import = Inr [ob]"
      "ob_namespace ob = ''stix/ips''" "ob_value ob = v_value (sample_view ''1.2.3.4'') \<longleftrightarrow> CHR 0x5C \<notin> set (v_value (sample_view ''1.2.3.4''))"
      "ob_timestamp ob = Some (v_first_seen (sample_view ''1.2.3.4''))" "ob_last_timestamp ob = Some (v_last_seen (sample_view ''1.2.3.4''))"
      "ob_count ob = clamp_count (v_count (sample_view ''1.2.3.4''))"
      "{''tlp:'' @ level | level i. (level, i) \<in> set TLP \<and> i \<in> set (value_levels (sample_view ''1.2.3.4''))} \<subseteq> set (ob_tags ob)"
    using stix_value_roundtrip [where json_in = "\<lambda>_ :: string. Inr ?root :: string + json" and body = "[]",
      OF sample_comparisons_ok sample_typing ty v t m json] by blast
  have "clamp_count (v_count (sample_view ''1.2.3.4'')) = 3" by code_simp
  moreover have "snd (TLP ! 2) \<in> set (value_levels (sample_view ''1.2.3.4''))" "(''amber'', snd (TLP ! 2)) \<in> set TLP" by code_simp+
  then have "''tlp:'' @ ''amber'' \<in> set (ob_tags ob)" using ob(7) by blast
  ultimately show ?thesis using ob by (intro exI [of _ ob]) (simp add: sample_view_def)
qed

end
