(* ===== verification/Ingest.thy ===== *)
theory Ingest
  imports Handlers Ingest_Stix
begin

text \<open>
  \<^verbatim>\<open>src/src/ingest/mod.rs\<close>: subscribing to a ZeroMQ publisher, and writing what is heard.

  The socket belongs to the zeromq crate. What it delivers is the argument: a list of events, each a message (its
  frames, as bytes), the clock when it is handled, whether the minute between reports is over and whether the
  server is shutting down once it is handled; the stream ends where the list does.
\<close>

section \<open>Settings\<close>

datatype zmq_format = FormatMisp | FormatNative

definition Format_parse :: "string \<Rightarrow> string + zmq_format" where
  "Format_parse raw =
     (let other = to_ascii_lowercase (trim raw)
      in if other = ''misp'' then Inr FormatMisp
         else if other = ''native'' then Inr FormatNative
         else Inl (''unknown zmq format '' @ quoted other @ '', expected misp or native''))"

record zmq_settings =
  zq_endpoint :: string
  zq_topics :: "string list"
  zq_format :: zmq_format
  zq_mapping :: misp_mapping
  zq_ttl :: u64
  zq_reconnect :: u64

section \<open>Writing one observation\<close>

text \<open>The loop of \<open>record\<close>: the first write with its instant and its tags, the rest at the later one.\<close>

fun write_rounds ::
  "'f env \<Rightarrow> 'f disk \<Rightarrow> datetime \<Rightarrow> observation \<Rightarrow> u64 option \<Rightarrow> datetime option \<Rightarrow> datetime option \<Rightarrow> string \<Rightarrow> nat \<Rightarrow> database
    \<Rightarrow> database \<times> (api_error + unit)" where
  "write_rounds env disk now ob t when later given 0 db = (db, Inr ())"
| "write_rounds env disk now ob t when later given (Suc n) db =
     (case writer_write_tagged env disk now db (ob_namespace ob) (ob_value ob) when t given of
        (db, Inl e) \<Rightarrow> (db, Inl e)
      | (db, Inr _) \<Rightarrow> write_rounds env disk now ob t later later [] n db)"

definition instant_or :: "(int \<Rightarrow> datetime option) \<Rightarrow> int option \<Rightarrow> datetime option \<Rightarrow> api_error + datetime option" where
  "instant_or from_timestamp ts other =
     (case ts of
        None \<Rightarrow> Inr other
      | Some seconds \<Rightarrow> (case timestamp_to_instant from_timestamp seconds of Inl e \<Rightarrow> Inl e | Inr d \<Rightarrow> Inr (Some d)))"

definition ingest_record ::
  "'f env \<Rightarrow> 'f disk \<Rightarrow> datetime \<Rightarrow> (int \<Rightarrow> datetime option) \<Rightarrow> database \<Rightarrow> u64 \<Rightarrow> observation \<Rightarrow> database \<times> (api_error + unit)" where
  "ingest_record env disk now from_timestamp db t ob =
     (case instant_or from_timestamp (ob_timestamp ob) None of
        Inl e \<Rightarrow> (db, Inl e)
      | Inr first \<Rightarrow>
          (case instant_or from_timestamp (ob_last_timestamp ob) first of
             Inl e \<Rightarrow> (db, Inl e)
           | Inr final \<Rightarrow>
               write_rounds env disk now ob (if t > 0 then Some t else None) first final (join '','' (ob_tags ob))
                 (unat (max (ob_count ob) 1)) db))"

section \<open>Consuming a stream\<close>

record zmq_event =
  ev_frames :: "string list"
  ev_now :: datetime
  ev_report_due :: bool
  ev_stopped :: bool

record ingest_stats =
  st_written :: u64
  st_rejected :: u64
  st_ignored :: u64
  st_malformed :: u64

definition Stats_new :: ingest_stats where
  "Stats_new = \<lparr>st_written = 0, st_rejected = 0, st_ignored = 0, st_malformed = 0\<rparr>"

definition Stats_maybe_report :: "ingest_stats \<Rightarrow> bool \<Rightarrow> ingest_stats" where
  "Stats_maybe_report st due = (if due then Stats_new else st)"

definition body_of :: "string list \<Rightarrow> string option" where
  "body_of frames = (if frames = [] then None else if valid_utf8 (List.last frames) then Some (List.last frames) else None)"

definition ingest_one ::
  "('f, 'w) runtime \<Rightarrow> datetime \<Rightarrow> u64 \<Rightarrow> observation \<Rightarrow> shared_state \<times> ingest_stats \<Rightarrow> shared_state \<times> ingest_stats" where
  "ingest_one rt now t ob acc =
     (case acc of
        (sh, st) \<Rightarrow>
          (case ingest_record (rt_env rt) (rt_disk rt) now (rt_from_timestamp rt) (sh_db sh) t ob of
             (db, Inr _) \<Rightarrow> (sh\<lparr>sh_db := db\<rparr>, st\<lparr>st_written := st_written st + 1\<rparr>)
           | (db, Inl e) \<Rightarrow>
               (sh\<lparr>sh_db := db, sh_rejections := Rejections_record (sh_rejections sh) (timestamp now) (ob_namespace ob) (ob_value ob)
                    (ApiError_to_string e) SourceIngest\<rparr>,
                st\<lparr>st_rejected := st_rejected st + 1\<rparr>)))"

text \<open>What one message does. \<open>digest\<close> is the sha2 crate and \<open>native_in\<close> reads a native batch.\<close>

definition ingest_message ::
  "('f, 'w) runtime \<Rightarrow> (string \<Rightarrow> string) \<Rightarrow> (string \<Rightarrow> string + native_item list) \<Rightarrow> zmq_settings \<Rightarrow> zmq_event
    \<Rightarrow> shared_state \<times> ingest_stats \<Rightarrow> shared_state \<times> ingest_stats" where
  "ingest_message rt digest native_in settings ev acc =
     (case acc of
        (sh, st) \<Rightarrow>
          (case body_of (ev_frames ev) of
             None \<Rightarrow> (sh, st\<lparr>st_malformed := st_malformed st + 1\<rparr>)
           | Some body \<Rightarrow>
               let parsed = (case zq_format settings of
                               FormatMisp \<Rightarrow> misp_parse digest (rt_json_in rt) (strip_topic body) (zq_mapping settings)
                             | FormatNative \<Rightarrow> parse_native native_in (strip_topic body));
                   (sh, st) = (case parsed of
                               Inr obs \<Rightarrow>
                                 fold (ingest_one rt (ev_now ev) (zq_ttl settings)) obs
                                   (sh, if obs = [] then st\<lparr>st_ignored := st_ignored st + 1\<rparr> else st)
                             | Inl e \<Rightarrow> (sh, st\<lparr>st_malformed := st_malformed st + 1\<rparr>))
               in (sh, Stats_maybe_report st (ev_report_due ev))))"

text \<open>A message without a body is counted and passed over before the check for shutdown.\<close>

fun consume ::
  "('f, 'w) runtime \<Rightarrow> (string \<Rightarrow> string) \<Rightarrow> (string \<Rightarrow> string + native_item list) \<Rightarrow> zmq_settings \<Rightarrow> zmq_event list
    \<Rightarrow> shared_state \<times> ingest_stats \<Rightarrow> shared_state \<times> ingest_stats" where
  "consume rt digest native_in settings [] acc = acc"
| "consume rt digest native_in settings (ev # evs) acc =
     (let acc = ingest_message rt digest native_in settings ev acc
      in if body_of (ev_frames ev) \<noteq> None \<and> ev_stopped ev then acc else consume rt digest native_in settings evs acc)"

section \<open>Staying subscribed\<close>

definition subscriptions :: "zmq_settings \<Rightarrow> string list" where
  "subscriptions settings = (if zq_topics settings = [] then [[]] else zq_topics settings)"

definition backoff :: "zmq_settings \<Rightarrow> u64" where
  "backoff settings = max (zq_reconnect settings) 1"

text \<open>Each round of \<open>run\<close>: whether the server is stopping before it, what the connection delivered if it was made,
  and whether the server is stopping after it.\<close>

record zmq_round =
  rd_stopped :: bool
  rd_events :: "zmq_event list option"
  rd_stopped_after :: bool

fun ingest_run ::
  "('f, 'w) runtime \<Rightarrow> (string \<Rightarrow> string) \<Rightarrow> (string \<Rightarrow> string + native_item list) \<Rightarrow> zmq_settings \<Rightarrow> zmq_round list \<Rightarrow> shared_state \<Rightarrow> shared_state" where
  "ingest_run rt digest native_in settings [] sh = sh"
| "ingest_run rt digest native_in settings (turn # turns) sh =
     (if rd_stopped turn then sh
      else case rd_events turn of
             None \<Rightarrow> ingest_run rt digest native_in settings turns sh
           | Some evs \<Rightarrow>
               let sh = fst (consume rt digest native_in settings evs (sh, Stats_new))
               in if rd_stopped_after turn then sh else ingest_run rt digest native_in settings turns sh)"

section \<open>What an observation does to the database\<close>

text \<open>The attribute after so many writes.\<close>

fun resight :: "string \<Rightarrow> datetime \<Rightarrow> datetime \<Rightarrow> u64 option \<Rightarrow> nat \<Rightarrow> string \<Rightarrow> nat \<Rightarrow> attribute \<Rightarrow> attribute" where
  "resight node when later t retention given 0 a = a"
| "resight node when later t retention given (Suc n) a =
     resight node later later t retention [] n (stored_attr (sight a node when t retention given))"

definition held_attr :: "logical \<Rightarrow> string \<Rightarrow> string \<Rightarrow> attribute" where
  "held_attr C namespace v = fm_get (Attribute_new v) (values_of C namespace) v"

lemma ingest_write_step:
  assumes inv: "db_inv env disk db" and cons: "consensus_ok (db_node db) (contents env disk db)"
    and few: "card (holders (contents env disk db) v) < 2 ^ 64 - 1" and ok: "check db namespace v = Inr ()"
    and wr: "writer_write_tagged env disk now db namespace v when t given = (db', r)"
  defines "C \<equiv> contents env disk db" and "C' \<equiv> contents env disk db'"
  shows "(\<exists>w. r = Inr w) \<and> db_inv env disk db' \<and> same_setup db' db \<and> consensus_ok (db_node db') C' \<and>
    holders C' v = insert namespace (holders C v) \<and> fmlookup (values_of C' namespace) v \<noteq> None \<and>
    held_attr C' namespace v = stored_attr (sight (held_attr C namespace v) (db_node db) (unwrap_or when now)
      (write_ttl (db_policy_of db) namespace \<lparr>wo_consensus = True, wo_ttl = t\<rparr>) (stats_retention (db_policy_of db)) given) \<and>
    (\<forall>n. n \<noteq> namespace \<and> n \<noteq> ALL_NAMESPACE \<longrightarrow> C' n = C n) \<and>
    (\<forall>n x. x \<noteq> v \<longrightarrow> fmlookup (values_of C' n) x = fmlookup (values_of C n) x)"
proof -
  let ?db = "db\<lparr>db_activity := Activity_record_write (db_activity db) namespace (timestamp now)\<rparr>"
    and ?opts = "\<lparr>wo_consensus = True, wo_ttl = t\<rparr>"
  obtain db1 w where w: "Database_record_write env disk now ?db (db_node db) namespace v (unwrap_or when now) ?opts given = (db1, w)"
    by fastforce
  have r: "r = Inr w" "db' = db1\<lparr>db_latest := Latest_record_at (db_latest db1) namespace v (timestamp now)\<rparr>"
    using wr ok w by (auto simp: writer_write_tagged_def writer_write_tagged_as_def Database_write_tagged_as_def Let_def unwrap_or_def)
  have ext: "counts_towards_consensus namespace" using ok by (auto simp: check_def split: if_splits intro: external_counts)
  then have not_all: "namespace \<noteq> ALL_NAMESPACE" using all_does_not_count by metis
  have pre: "db_inv env disk ?db" "consensus_ok (db_node ?db) (contents env disk ?db)" "card (holders (contents env disk ?db) v) < 2 ^ 64 - 1"
    using inv cons few by simp_all
  note eff = record_write_effect [OF pre(1) w] and keeps = write_keeps_consensus [OF pre(1,2) ext _ pre(3) w]
  define S where "S = sighted C (db_node db) namespace v (unwrap_or when now) (write_ttl (db_policy_of db) namespace ?opts)
      (stats_retention (db_policy_of db)) given"
  have C': "C' = (if w_new w then sighted_by db S (db_node db) ALL_NAMESPACE v (unwrap_or when now) WriteOpts_default [] else S)"
    using eff unfolding C'_def C_def S_def r by (simp add: Let_def sighted_by_def cong: if_cong)
  have here: "C' namespace = S namespace" using not_all by (simp add: C' sighted_by_def sighted_def)
  have others: "C' n = C n" if "n \<noteq> namespace" "n \<noteq> ALL_NAMESPACE" for n
    using that by (simp add: C' sighted_by_def sighted_def S_def)
  have vals: "values_of C' namespace = fmupd v (stored_attr (sight (held_attr C namespace v) (db_node db) (unwrap_or when now)
      (write_ttl (db_policy_of db) namespace ?opts) (stats_retention (db_policy_of db)) given)) (values_of C namespace)"
    by (simp add: values_of_def [of C' namespace] here S_def sighted_def held_attr_def)
  have aside: "fmlookup (values_of C' n) x = fmlookup (values_of C n) x" if "x \<noteq> v" for n x
  proof -
    consider "n = namespace" | "n = ALL_NAMESPACE" "n \<noteq> namespace" | "n \<noteq> namespace" "n \<noteq> ALL_NAMESPACE" by blast
    then show ?thesis
      using that vals others not_all by cases (auto simp: C' S_def sighted_by_def sighted_def values_of_def)
  qed
  have "n \<in> holders C' v \<longleftrightarrow> n \<in> insert namespace (holders C v)" for n
  proof (cases "n = namespace \<or> n = ALL_NAMESPACE")
    case True
    then show ?thesis using ext vals by (auto simp: holders_def)
  next
    case False
    then have "values_of C' n = values_of C n" using others by (simp add: values_of_def)
    then show ?thesis using False by (simp add: holders_def)
  qed
  then have hold: "holders C' v = insert namespace (holders C v)" by blast
  have cfg: "same_setup db' db" "db_inv env disk db'" using eff unfolding r by simp_all
  have "consensus_ok (db_node db') C'" using keeps(1) unfolding r C'_def by simp
  then show ?thesis
    using r(1) cfg hold vals others aside by (auto simp: held_attr_def fm_get_def)
qed

lemma rounds_effect:
  assumes "db_inv env disk db" "consensus_ok (db_node db) (contents env disk db)"
    and "card (insert (ob_namespace ob) (holders (contents env disk db) (ob_value ob))) < 2 ^ 64 - 1"
    and "check db (ob_namespace ob) (ob_value ob) = Inr ()"
    and "write_rounds env disk now ob t when later given n db = (db', r)"
  shows "r = Inr () \<and> db_inv env disk db' \<and> same_setup db' db \<and> consensus_ok (db_node db') (contents env disk db') \<and>
    (0 < n \<longrightarrow> ob_namespace ob \<in> holders (contents env disk db') (ob_value ob)) \<and>
    held_attr (contents env disk db') (ob_namespace ob) (ob_value ob) =
      resight (db_node db) (unwrap_or when now) (unwrap_or later now)
        (write_ttl (db_policy_of db) (ob_namespace ob) \<lparr>wo_consensus = True, wo_ttl = t\<rparr>) (stats_retention (db_policy_of db)) given n
        (held_attr (contents env disk db) (ob_namespace ob) (ob_value ob)) \<and>
    (\<forall>m. m \<noteq> ob_namespace ob \<and> m \<noteq> ALL_NAMESPACE \<longrightarrow> contents env disk db' m = contents env disk db m) \<and>
    (\<forall>m x. x \<noteq> ob_value ob \<longrightarrow> fmlookup (values_of (contents env disk db') m) x = fmlookup (values_of (contents env disk db) m) x) \<and>
    holders (contents env disk db') (ob_value ob) \<subseteq> insert (ob_namespace ob) (holders (contents env disk db) (ob_value ob))"
  using assms
proof (induction n arbitrary: db "when" given)
  case (Suc n)
  let ?ns = "ob_namespace ob" and ?v = "ob_value ob" and ?C = "contents env disk db"
  obtain db1 w where w: "writer_write_tagged env disk now db ?ns ?v when t given = (db1, w)" by fastforce
  have few: "card (holders ?C ?v) < 2 ^ 64 - 1"
    using Suc.prems(3) card_insert_le [of "holders ?C ?v" ?ns] by linarith
  note s = ingest_write_step [OF Suc.prems(1,2) few Suc.prems(4) w]
  have cfg: "db_node db1 = db_node db" "db_policy_of db1 = db_policy_of db" "db_stores db1 = db_stores db"
    using s by (simp_all add: same_setup_def)
  have ok1: "check db1 ?ns ?v = Inr ()" using Suc.prems(4) cfg(3) check_stores by metis
  have few1: "card (insert ?ns (holders (contents env disk db1) ?v)) < 2 ^ 64 - 1" using s Suc.prems(3) by simp
  obtain u where u: "w = Inr u" using s by blast
  have rest: "write_rounds env disk now ob t later later [] n db1 = (db', r)" using Suc.prems(5) w u by simp
  have inv1: "db_inv env disk db1" "consensus_ok (db_node db1) (contents env disk db1)" using s by blast+
  note ih = Suc.IH [OF inv1 few1 ok1 rest]
  have "?ns \<in> holders (contents env disk db') ?v"
  proof (cases n)
    case 0
    then show ?thesis using rest s by simp
  qed (use ih in simp)
  then show ?case using ih s same_setup_trans by (auto simp: cfg)
qed auto

lemma resight_counts:
  "fm_get0 (counts (resight node when later t retention given n a)) m =
     fm_get0 (counts a) m + (if m = node then of_nat n else 0)"
proof (induction n arbitrary: a "when" given)
  case (Suc n)
  have "counts (stored_attr (sight a node when t retention given)) = fmupd node (fm_get0 (counts a) node + 1) (counts a)"
    by (simp add: stored_attr_def sight_fields)
  then have "fm_get0 (counts (stored_attr (sight a node when t retention given))) m = fm_get0 (counts a) m + (if m = node then 1 else 0)"
    by (simp add: fm_get_def)
  then show ?case by (simp add: Suc.IH)
qed simp

lemma refused_rounds:
  assumes "check db (ob_namespace ob) (ob_value ob) = Inl e" "0 < n"
  shows "write_rounds env disk now ob t when later given n db = (db, Inl e)"
  using assms by (cases n) (simp_all add: writer_write_tagged_def writer_write_tagged_as_def)

text \<open>
  C15. Recording an observation is all or nothing. An instant the calendar cannot hold, an empty value, a namespace
  the server keeps to itself or one it does not store refuses the whole observation, with the database as it was.
  Otherwise every repetition of it is written: this server's count of the value grows by the count the observation
  carries (by one when it carries zero), what other servers counted is untouched, the namespace holds the value, no
  other namespace but the index of all values changes, and the invariant and the tallies of the consensus hold.
\<close>
theorem ingest_record_all_or_nothing:
  assumes inv: "db_inv env disk db" and cons: "consensus_ok (db_node db) (contents env disk db)"
    and few: "card (insert (ob_namespace ob) (holders (contents env disk db) (ob_value ob))) < 2 ^ 64 - 1"
    and run: "ingest_record env disk now ft db t ob = (db', r)"
  defines "C \<equiv> contents env disk db" and "C' \<equiv> contents env disk db'"
  shows "case r of
      Inl e \<Rightarrow> db' = db \<and>
        (e = EmptyValue \<and> ob_value ob = [] \<or> e = InternalNamespace (ob_namespace ob) \<and> is_internal (ob_namespace ob) \<or>
         e = NotStored (ob_namespace ob) \<and> \<not> StoragePolicy_holds (db_stores db) (ob_namespace ob) \<or>
         (\<exists>ts. e = InvalidTimestamp ts \<and> ft ts = None \<and> (ob_timestamp ob = Some ts \<or> ob_last_timestamp ob = Some ts)))
    | Inr _ \<Rightarrow>
        db_inv env disk db' \<and> consensus_ok (db_node db') C' \<and>
        \<not> is_internal (ob_namespace ob) \<and> ob_namespace ob \<in> holders C' (ob_value ob) \<and>
        (\<forall>m. fm_get0 (counts (held_attr C' (ob_namespace ob) (ob_value ob))) m =
          fm_get0 (counts (held_attr C (ob_namespace ob) (ob_value ob))) m + (if m = db_node db then max (ob_count ob) 1 else 0)) \<and>
        (\<forall>n. n = ob_namespace ob \<or> n = ALL_NAMESPACE \<or> C' n = C n)"
proof -
  let ?ns = "ob_namespace ob" and ?v = "ob_value ob" and ?n = "unat (max (ob_count ob) 1)"
  have n: "0 < ?n" by (auto simp: unat_gt_0 max_def)
  consider (bad) ts where "r = Inl (InvalidTimestamp ts)" "db' = db" "ft ts = None" "ob_timestamp ob = Some ts \<or> ob_last_timestamp ob = Some ts"
    | (rounds) first final where "write_rounds env disk now ob (if t > 0 then Some t else None) first final (join '','' (ob_tags ob)) ?n db = (db', r)"
    using run unfolding ingest_record_def instant_or_def timestamp_to_instant_def
    by (auto split: option.splits sum.splits)
  then show ?thesis
  proof cases
    case bad
    then show ?thesis by auto
  next
    case rounds
    show ?thesis
    proof (cases "check db ?ns ?v")
      case (Inl e)
      then have "db' = db" "r = Inl e" using rounds by (simp_all add: refused_rounds [OF Inl n])
      then show ?thesis using Inl by (auto simp: check_def split: if_splits)
    next
      case (Inr u)
      then have ok: "check db ?ns ?v = Inr ()" by simp
      note eff = rounds_effect [OF inv cons few ok rounds]
      have "\<not> is_internal ?ns" using ok by (auto simp: check_def split: if_splits)
      then show ?thesis using eff n by (auto simp: C_def C'_def resight_counts)
    qed
  qed
qed

definition sample_sighted :: observation where
  "sample_sighted = \<lparr>ob_namespace = ''feeds/a'', ob_value = ''v'', ob_timestamp = None, ob_last_timestamp = None,
     ob_count = 3, ob_tags = [''misp-type:url'']\<rparr>"

theorem ingest_record_all_or_nothing_witness:
  "\<exists>db'. ingest_record sample_env fmempty (DateTime 100 0) sample_chrono sample_store_db 0 sample_sighted = (db', Inr ()) \<and>
     fm_get0 (counts (held_attr (contents sample_env fmempty db') ''feeds/a'' ''v'')) ''local'' = 3"
proof -
  obtain db' r where run: "ingest_record sample_env fmempty (DateTime 100 0) sample_chrono sample_store_db 0 sample_sighted = (db', r)"
    by fastforce
  have inv: "db_inv sample_env fmempty sample_store_db" using sample_store_inv by (rule inv_mono) simp
  have few: "card (insert (ob_namespace sample_sighted) (holders (contents sample_env fmempty sample_store_db) (ob_value sample_sighted))) < 2 ^ 64 - 1"
    by (simp add: holders_def values_of_def sample_start)
  note app = ingest_record_all_or_nothing [OF inv sample_start_ok few run]
  have ext: "\<not> is_internal ''feeds/a''" by code_simp
  have stores: "StoragePolicy_holds (db_stores sample_store_db) ''feeds/a''" by (simp add: sample_defs)
  have node: "db_node sample_store_db = ''local''" by (simp add: sample_defs)
  have start: "fm_get0 (counts (held_attr (contents sample_env fmempty sample_store_db) ''feeds/a'' ''v'')) ''local'' = 0"
    by (simp add: held_attr_def values_of_def sample_start fm_get_def Attribute_new_def)
  show ?thesis using app run ext stores node start by (cases r) (auto simp: sample_sighted_def)
qed

end
