(* ===== verification/Config.thy ===== *)
theory Config
  imports Peers_File Ingest Stix
begin

text \<open>
  \<^verbatim>\<open>src/src/config.rs\<close>: from the text of \<^verbatim>\<open>sightingdb.toml\<close> to the settings the rest of the program runs with.

  The file system and the toml crate are the record \<open>config_env\<close>: the absolute form of a path, whether a file
  exists, what it holds, and the parsed form of each kind of file. What \<open>serde\<close> makes of a table is written out:
  \<open>daemon_table\<close> is a \<open>[daemon]\<close> table with the keys it has, and \<open>RawDaemon_deserialize\<close> fills in the defaults of
  the others. The other sections are given with their defaults filled in.
\<close>

section \<open>The file's own shape\<close>

record daemon_table =
  dt_enabled :: "bool option"
  dt_listen_ip :: "string option"
  dt_listen_port :: "u16 option"
  dt_authenticate :: "bool option"
  dt_daemonize :: "bool option"
  dt_ssl :: "bool option"
  dt_ssl_cert :: "string option"
  dt_ssl_key :: "string option"
  dt_post_limit :: "nat option"
  dt_log_out :: "string option"
  dt_log_err :: "string option"
  dt_dbdir :: "string option"
  dt_snapshot_interval :: "u64 option"
  dt_compression_level :: "int option"
  dt_sweep_interval :: "u64 option"
  dt_stats_retention :: "nat option"
  dt_shadow_ttl :: "u64 option"
  dt_rejection_log :: "nat option"
  dt_activity :: "bool option"
  dt_latest_writes :: "nat option"
  dt_node_id :: "string option"
  dt_acl_file :: "string option"
  dt_tags_file :: "string option"

record raw_daemon =
  rd_enabled :: bool
  rd_listen_ip :: string
  rd_listen_port :: u16
  rd_authenticate :: bool
  rd_daemonize :: bool
  rd_ssl :: bool
  rd_ssl_cert :: "string option"
  rd_ssl_key :: "string option"
  rd_post_limit :: nat
  rd_log_out :: string
  rd_log_err :: string
  rd_dbdir :: "string option"
  rd_snapshot_interval :: u64
  rd_compression_level :: int
  rd_sweep_interval :: u64
  rd_stats_retention :: nat
  rd_shadow_ttl :: u64
  rd_rejection_log :: nat
  rd_activity :: bool
  rd_latest_writes :: nat
  rd_node_id :: "string option"
  rd_acl_file :: "string option"
  rd_tags_file :: "string option"

definition default_listen_ip :: string where "default_listen_ip = ''0.0.0.0''"
definition default_listen_port :: u16 where "default_listen_port = 9999"
definition DEFAULT_POST_LIMIT :: nat where "DEFAULT_POST_LIMIT = 2500000000"
definition dev_null :: string where "dev_null = ''/dev/null''"
definition default_snapshot_interval :: u64 where "default_snapshot_interval = 300"
definition default_compression_level :: int where "default_compression_level = 3"
definition default_sweep_interval :: u64 where "default_sweep_interval = 60"
definition default_rejection_log :: nat where "default_rejection_log = DEFAULT_CAPACITY"
definition default_latest_writes :: nat where "default_latest_writes = 10000"

text \<open>\<open>#[derive(Default)]\<close>, for a file without a \<open>[daemon]\<close> table.\<close>

definition RawDaemon_default :: raw_daemon where
  "RawDaemon_default =
     \<lparr>rd_enabled = False, rd_listen_ip = [], rd_listen_port = 0, rd_authenticate = False, rd_daemonize = False, rd_ssl = False,
      rd_ssl_cert = None, rd_ssl_key = None, rd_post_limit = 0, rd_log_out = [], rd_log_err = [], rd_dbdir = None,
      rd_snapshot_interval = 0, rd_compression_level = 0, rd_sweep_interval = 0, rd_stats_retention = 0, rd_shadow_ttl = 0,
      rd_rejection_log = 0, rd_activity = False, rd_latest_writes = 0, rd_node_id = None, rd_acl_file = None, rd_tags_file = None\<rparr>"

text \<open>\<open>#[serde(default = ...)]\<close>, key by key.\<close>

definition RawDaemon_deserialize :: "daemon_table \<Rightarrow> raw_daemon" where
  "RawDaemon_deserialize t =
     \<lparr>rd_enabled = unwrap_or (dt_enabled t) True, rd_listen_ip = unwrap_or (dt_listen_ip t) default_listen_ip,
      rd_listen_port = unwrap_or (dt_listen_port t) default_listen_port, rd_authenticate = unwrap_or (dt_authenticate t) True,
      rd_daemonize = unwrap_or (dt_daemonize t) False, rd_ssl = unwrap_or (dt_ssl t) True, rd_ssl_cert = dt_ssl_cert t,
      rd_ssl_key = dt_ssl_key t, rd_post_limit = unwrap_or (dt_post_limit t) DEFAULT_POST_LIMIT,
      rd_log_out = unwrap_or (dt_log_out t) dev_null, rd_log_err = unwrap_or (dt_log_err t) dev_null, rd_dbdir = dt_dbdir t,
      rd_snapshot_interval = unwrap_or (dt_snapshot_interval t) default_snapshot_interval,
      rd_compression_level = unwrap_or (dt_compression_level t) default_compression_level,
      rd_sweep_interval = unwrap_or (dt_sweep_interval t) default_sweep_interval,
      rd_stats_retention = unwrap_or (dt_stats_retention t) 0, rd_shadow_ttl = unwrap_or (dt_shadow_ttl t) 0,
      rd_rejection_log = unwrap_or (dt_rejection_log t) default_rejection_log, rd_activity = unwrap_or (dt_activity t) True,
      rd_latest_writes = unwrap_or (dt_latest_writes t) default_latest_writes, rd_node_id = dt_node_id t,
      rd_acl_file = dt_acl_file t, rd_tags_file = dt_tags_file t\<rparr>"

record raw_storage =
  rs_default_tier :: string
  rs_warm_idle :: u64
  rs_tiers :: "(string, toml_value) fmap"
  rs_tiers_file :: "string option"
  rs_namespaces :: "string list option"

record raw_exposed =
  re_namespace :: string
  re_encoding :: string

record raw_dns =
  rn_enabled :: bool
  rn_listen_ip :: string
  rn_listen_port :: u16
  rn_zone :: string
  rn_ttl :: u32
  rn_rate_limit :: u32
  rn_threads :: nat
  rn_shadow :: bool
  rn_namespaces :: "(string, raw_exposed) fmap"

record raw_zmq =
  rz_enabled :: bool
  rz_endpoint :: string
  rz_topics :: "string list"
  rz_format :: string
  rz_require_to_ids :: bool
  rz_default_namespace :: "string option"
  rz_ttl :: u64
  rz_reconnect :: u64
  rz_types :: "toml_value option"
  rz_hashed_namespace :: "string option"
  rz_store_values :: bool

record raw_stix =
  rx_default_namespace :: "string option"
  rx_ttl :: u64
  rx_types :: "toml_value option"
  rx_identity :: "string option"
  rx_identity_class :: "string option"

record raw_config =
  rc_daemon :: "daemon_table option"
  rc_acl :: "(string, string) fmap option"
  rc_storage :: "raw_storage option"
  rc_galaxy :: "raw_galaxy option"
  rc_dns :: "raw_dns option"
  rc_zmq :: "raw_zmq option"
  rc_stix :: "raw_stix option"

section \<open>What the rest of the program sees\<close>

record tls_settings =
  tls_cert :: string
  tls_key :: string

record dns_settings =
  ds_listen :: string
  ds_zone :: string
  ds_ttl :: u32
  ds_rate_limit :: u32
  ds_threads :: nat
  ds_shadow :: bool
  ds_exposed :: "exposed list"

record settings =
  set_http_enabled :: bool
  set_listen :: string
  set_authenticate :: bool
  set_daemonize :: bool
  set_tls :: "tls_settings option"
  set_post_limit :: nat
  set_log_out :: string
  set_log_err :: string
  set_dbdir :: "string option"
  set_snapshot_interval :: u64
  set_compression_level :: int
  set_sweep_interval :: u64
  set_stats_retention :: nat
  set_shadow_ttl :: u64
  set_rejection_log :: nat
  set_activity :: bool
  set_latest_writes :: nat
  set_node_id :: string
  set_acl :: "acl option"
  set_acl_file :: "string option"
  set_tags :: vocabulary
  set_tags_file :: "string option"
  set_tiers :: tier_policy
  set_tiers_file :: "string option"
  set_dns :: "dns_settings option"
  set_zmq :: "zmq_settings option"
  set_stix :: stix_settings
  set_storage :: storage_policy
  set_galaxy :: "galaxy_config option"

definition Settings_database_policy :: "settings \<Rightarrow> db_policy" where
  "Settings_database_policy s = \<lparr>stats_retention = set_stats_retention s, shadow_ttl = set_shadow_ttl s\<rparr>"

section \<open>Errors and surroundings\<close>

datatype config_error =
    ConfigUnreadable | ConfigUnparsable
  | NoSslCert | NoSslKey
  | StorageNamespace acl_error
  | NodeIdTooLong | NodeIdCharacters
  | GalaxySection galaxy_error
  | TiersFile tier_error | StorageTier string tier_error | DefaultTier tier_error
  | AclUnreadable | AclUnparsable | AclEntry string acl_error
  | ZoneEmpty | ExposesInternal string string | ExposedEncoding string string
  | ZmqFormat string
  | TypeIsTable string string | TypeNotString string string | TypeInternal string string string
  | OptionInternal string string string
  | NothingRecorded | HashingNeedsMisp
  | NothingToDo

record config_env =
  ce_absolute :: "string \<Rightarrow> string option"
  ce_exists :: "string \<Rightarrow> bool"
  ce_read :: "string \<Rightarrow> string option"
  ce_config :: "string \<Rightarrow> raw_config option"
  ce_tiers :: "string \<Rightarrow> tier_file option"
  ce_acl :: "string \<Rightarrow> (string, string) fmap option"
  ce_tags :: "string \<Rightarrow> string + (string, tag) fmap"
  ce_peers :: "string \<Rightarrow> string + raw_peer list"
  ce_seed :: string

section \<open>Paths of files\<close>

text \<open>\<open>Path::parent\<close> and \<open>Path::join\<close> on Unix.\<close>

definition trim_end_slashes :: "string \<Rightarrow> string" where
  "trim_end_slashes p = rev (dropWhile (\<lambda>c. c = CHR ''/'') (rev p))"

definition path_parent :: "string \<Rightarrow> string option" where
  "path_parent p =
     (let q = trim_end_slashes p
      in if q = [] then None
         else if CHR ''/'' \<notin> set q then Some []
         else let d = trim_end_slashes (rev (dropWhile (\<lambda>c. c \<noteq> CHR ''/'') (rev q)))
              in Some (if d = [] then ''/'' else d))"

definition path_joined :: "string \<Rightarrow> string \<Rightarrow> string" where
  "path_joined base v =
     (if starts_with v ''/'' then v else if base = [] then v else if ends_with base ''/'' then base @ v else base @ ''/'' @ v)"

definition config_resolve :: "config_env \<Rightarrow> string \<Rightarrow> string \<Rightarrow> string" where
  "config_resolve env base v =
     (let joined = (if starts_with v ''/'' then v else path_joined base v)
      in unwrap_or (ce_absolute env joined) joined)"

section \<open>Sections\<close>

definition bind_sum :: "'e + 'a \<Rightarrow> ('a \<Rightarrow> 'e + 'b) \<Rightarrow> 'e + 'b" where
  "bind_sum m f = (case m of Inl e \<Rightarrow> Inl e | Inr x \<Rightarrow> f x)"

text \<open>The keys.\<close>

fun build_acl :: "(string \<times> string) list \<Rightarrow> acl \<Rightarrow> config_error + acl" where
  "build_acl [] acl = Inr acl"
| "build_acl ((key, spec) # entries) acl =
     (case parse_grants spec of
        Inl e \<Rightarrow> Inl (AclEntry key e)
      | Inr grants \<Rightarrow> build_acl entries (Acl_set acl key grants))"

definition load_acl :: "config_env \<Rightarrow> (string, string) fmap option \<Rightarrow> string option \<Rightarrow> config_error + acl option" where
  "load_acl env inline acl_file =
     (case acl_file of
        Some file \<Rightarrow>
          if \<not> ce_exists env file then Inr (Some Acl_new)
          else (case ce_read env file of
                  None \<Rightarrow> Inl AclUnreadable
                | Some body \<Rightarrow>
                    (case ce_acl env body of
                       None \<Rightarrow> Inl AclUnparsable
                     | Some entries \<Rightarrow> bind_sum (build_acl (sorted_list_of_fmap entries) Acl_new) (\<lambda>acl. Inr (Some acl))))
      | None \<Rightarrow>
          (case inline of
             Some entries \<Rightarrow> bind_sum (build_acl (sorted_list_of_fmap entries) Acl_new) (\<lambda>acl. Inr (Some acl))
           | None \<Rightarrow> Inr None))"

text \<open>The tag vocabulary.\<close>

definition load_tags :: "config_env \<Rightarrow> string option \<Rightarrow> vocabulary" where
  "load_tags env tags_file =
     (let seeded = Vocabulary_seeded (ce_tags env) (ce_seed env)
      in case tags_file of
           None \<Rightarrow> seeded
         | Some path \<Rightarrow>
             if \<not> ce_exists env path then seeded
             else (case ce_read env path of
                     None \<Rightarrow> seeded
                   | Some body \<Rightarrow> (case Vocabulary_from_toml (ce_tags env) body of Inl _ \<Rightarrow> seeded | Inr voc \<Rightarrow> voc)))"

text \<open>Where types go.\<close>

fun type_map_loop :: "string \<Rightarrow> (string \<times> toml_value) list \<Rightarrow> (string, string) fmap \<Rightarrow> config_error + (string, string) fmap" where
  "type_map_loop table [] types = Inr types"
| "type_map_loop table ((key, entry) # entries) types =
     (case entry of
        TomlString s \<Rightarrow>
          let namespace = trim s
          in if starts_with namespace ''_'' then Inl (TypeInternal table key namespace)
             else type_map_loop table entries (fmupd (trim key) namespace types)
      | TomlTable _ \<Rightarrow> Inl (TypeIsTable table key)
      | _ \<Rightarrow> Inl (TypeNotString table key))"

definition type_map :: "toml_value option \<Rightarrow> string \<Rightarrow> config_error + (string, string) fmap" where
  "type_map v table = (case v of Some (TomlTable entries) \<Rightarrow> type_map_loop table entries fmempty | _ \<Rightarrow> Inr fmempty)"

definition trimmed_option :: "string option \<Rightarrow> string option" where
  "trimmed_option v = (case v of None \<Rightarrow> None | Some s \<Rightarrow> if trim s = [] then None else Some (trim s))"

definition namespace_option :: "string option \<Rightarrow> string \<Rightarrow> string \<Rightarrow> config_error + string option" where
  "namespace_option v table key =
     (case trimmed_option v of
        None \<Rightarrow> Inr None
      | Some namespace \<Rightarrow> if starts_with namespace ''_'' then Inl (OptionInternal table key namespace) else Inr (Some namespace))"

text \<open>\<open>[storage]\<close>.\<close>

fun to_policy_loop :: "(string \<times> toml_value) list \<Rightarrow> (string, tier_entry) fmap \<Rightarrow> config_error + (string, tier_entry) fmap" where
  "to_policy_loop [] entries = Inr entries"
| "to_policy_loop ((namespace, v) # rest) entries =
     (case parse_entry v of
        Inl e \<Rightarrow> Inl (StorageTier namespace e)
      | Inr entry \<Rightarrow> to_policy_loop rest (fmupd (shard_key namespace) entry entries))"

definition RawStorage_to_policy :: "raw_storage \<Rightarrow> config_error + tier_policy" where
  "RawStorage_to_policy raw =
     bind_sum (to_policy_loop (sorted_list_of_fmap (rs_tiers raw)) fmempty) (\<lambda>entries.
       case Tier_parse (rs_default_tier raw) of
         Inl e \<Rightarrow> Inl (DefaultTier e)
       | Inr t \<Rightarrow> Inr \<lparr>default_tier = t, tp_entries = entries, tp_warm_idle = rs_warm_idle raw\<rparr>)"

definition storage_tiers :: "config_env \<Rightarrow> string \<Rightarrow> raw_storage option \<Rightarrow> config_error + tier_policy \<times> string option" where
  "storage_tiers env base storage =
     (case storage of
        None \<Rightarrow> Inr (TierPolicy_default, None)
      | Some raw \<Rightarrow>
          (case map_option (config_resolve env base) (rs_tiers_file raw) of
             Some path \<Rightarrow>
               bind_sum (if ce_exists env path
                         then (case TierPolicy_load (ce_read env) (ce_tiers env) path of Inl e \<Rightarrow> Inl (TiersFile e) | Inr p \<Rightarrow> Inr p)
                         else RawStorage_to_policy raw) (\<lambda>policy. Inr (policy, Some path))
           | None \<Rightarrow> bind_sum (RawStorage_to_policy raw) (\<lambda>policy. Inr (policy, None))))"

fun validate_storage_prefixes :: "string list \<Rightarrow> config_error + unit" where
  "validate_storage_prefixes [] = Inr ()"
| "validate_storage_prefixes (prefix # prefixes) =
     (case validate_namespace prefix of Inl e \<Rightarrow> Inl (StorageNamespace e) | Inr _ \<Rightarrow> validate_storage_prefixes prefixes)"

text \<open>\<open>[dns]\<close>.\<close>

definition listen_text :: "string \<Rightarrow> u16 \<Rightarrow> string" where
  "listen_text ip port = ip @ '':'' @ show_nat (unat port)"

fun expose :: "(string \<times> raw_exposed) list \<Rightarrow> config_error + exposed list" where
  "expose [] = Inr []"
| "expose ((label, entry) # entries) =
     (if starts_with (re_namespace entry) ''_'' then Inl (ExposesInternal label (re_namespace entry))
      else case Encoding_parse (re_encoding entry) of
             Inl e \<Rightarrow> Inl (ExposedEncoding label e)
           | Inr encoding \<Rightarrow>
               bind_sum (expose entries) (\<lambda>rest.
                 Inr (\<lparr>ex_label = to_ascii_lowercase (trim label), ex_namespace = re_namespace entry, ex_encoding = encoding\<rparr> # rest)))"

definition RawDns_into_settings :: "raw_dns \<Rightarrow> config_error + dns_settings option" where
  "RawDns_into_settings raw =
     (if \<not> rn_enabled raw then Inr None
      else let zone = to_ascii_lowercase (trim_matches CHR ''.'' (trim (rn_zone raw)))
           in if zone = [] then Inl ZoneEmpty
              else bind_sum (expose (sorted_list_of_fmap (rn_namespaces raw))) (\<lambda>exposeds.
                     Inr (Some \<lparr>ds_listen = listen_text (rn_listen_ip raw) (rn_listen_port raw), ds_zone = zone, ds_ttl = rn_ttl raw,
                                ds_rate_limit = rn_rate_limit raw, ds_threads = rn_threads raw, ds_shadow = rn_shadow raw,
                                ds_exposed = sort_key ex_label exposeds\<rparr>)))"

text \<open>\<open>[zmq]\<close> and \<open>[stix]\<close>.\<close>

definition RawZmq_into_settings :: "raw_zmq \<Rightarrow> config_error + zmq_settings option" where
  "RawZmq_into_settings raw =
     (if \<not> rz_enabled raw then Inr None
      else bind_sum (case Format_parse (rz_format raw) of Inl e \<Rightarrow> Inl (ZmqFormat e) | Inr f \<Rightarrow> Inr f) (\<lambda>format.
           bind_sum (type_map (rz_types raw) ''zmq.types'') (\<lambda>types.
           bind_sum (namespace_option (rz_default_namespace raw) ''zmq'' ''default_namespace'') (\<lambda>default_namespace.
           bind_sum (namespace_option (rz_hashed_namespace raw) ''zmq'' ''hashed_namespace'') (\<lambda>hashed_namespace.
             if \<not> rz_store_values raw \<and> hashed_namespace = None then Inl NothingRecorded
             else if \<not> rz_store_values raw \<and> format \<noteq> FormatMisp then Inl HashingNeedsMisp
             else Inr (Some \<lparr>zq_endpoint = rz_endpoint raw, zq_topics = rz_topics raw, zq_format = format,
                             zq_mapping = \<lparr>mm_types = types, mm_default_namespace = default_namespace,
                                           mm_require_to_ids = rz_require_to_ids raw, mm_hashed_namespace = hashed_namespace,
                                           mm_store_values = rz_store_values raw\<rparr>,
                             zq_ttl = rz_ttl raw, zq_reconnect = rz_reconnect raw\<rparr>))))))"

definition RawStix_into_settings :: "raw_stix \<Rightarrow> config_error + stix_settings" where
  "RawStix_into_settings raw =
     bind_sum (type_map (rx_types raw) ''stix.types'') (\<lambda>types.
     bind_sum (namespace_option (rx_default_namespace raw) ''stix'' ''default_namespace'') (\<lambda>default_namespace.
       Inr \<lparr>stx_mapping = \<lparr>smap_types = types, smap_default = default_namespace\<rparr>, stx_ttl = rx_ttl raw,
            stx_export = \<lparr>sp_identity = unwrap_or (trimmed_option (rx_identity raw)) (sp_identity stix_Settings_default),
                          sp_identity_class = unwrap_or (trimmed_option (rx_identity_class raw)) (sp_identity_class stix_Settings_default)\<rparr>\<rparr>))"

definition StixSettings_default :: stix_settings where
  "StixSettings_default = \<lparr>stx_mapping = \<lparr>smap_types = fmempty, smap_default = None\<rparr>, stx_ttl = 0, stx_export = stix_Settings_default\<rparr>"

section \<open>The whole file\<close>

definition config_tls :: "config_env \<Rightarrow> string \<Rightarrow> raw_daemon \<Rightarrow> config_error + tls_settings option" where
  "config_tls env base daemon =
     (if rd_ssl daemon then
        (case rd_ssl_cert daemon of
           None \<Rightarrow> Inl NoSslCert
         | Some cert \<Rightarrow>
             (case rd_ssl_key daemon of
                None \<Rightarrow> Inl NoSslKey
              | Some key \<Rightarrow> Inr (Some \<lparr>tls_cert = config_resolve env base cert, tls_key = config_resolve env base key\<rparr>)))
      else Inr None)"

definition node_id_char :: "char \<Rightarrow> bool" where
  "node_id_char c \<longleftrightarrow> is_ascii_alphanumeric c \<or> c = CHR ''-'' \<or> c = CHR ''_'' \<or> c = CHR ''.''"

definition config_node_id :: "string option \<Rightarrow> config_error + string" where
  "config_node_id given =
     (case map_option trim given of
        None \<Rightarrow> Inr LOCAL_NODE
      | Some i \<Rightarrow>
          if i = [] then Inr LOCAL_NODE
          else if length i > 64 then Inl NodeIdTooLong
          else if \<not> list_all node_id_char i then Inl NodeIdCharacters
          else Inr i)"

definition config_galaxy :: "config_env \<Rightarrow> string \<Rightarrow> raw_galaxy option \<Rightarrow> config_error + galaxy_config option" where
  "config_galaxy env base galaxy =
     (case galaxy of
        None \<Rightarrow> Inr None
      | Some raw \<Rightarrow>
          let peers_file = map_option (config_resolve env base) (rg_peers_file raw);
              held = (case peers_file of Some f \<Rightarrow> if ce_exists env f then ce_read env f else None | None \<Rightarrow> None)
          in (case RawGalaxy_into_settings (ce_peers env) peers_file held raw of Inl e \<Rightarrow> Inl (GalaxySection e) | Inr g \<Rightarrow> Inr (Some g)))"

definition optional_section :: "('a \<Rightarrow> 'e + 'b) \<Rightarrow> 'b \<Rightarrow> 'a option \<Rightarrow> 'e + 'b" where
  "optional_section f absent raw = (case raw of Some r \<Rightarrow> f r | None \<Rightarrow> Inr absent)"

definition RawConfig_into_settings :: "config_env \<Rightarrow> string \<Rightarrow> raw_config \<Rightarrow> config_error + settings" where
  "RawConfig_into_settings env path raw =
     (let base = unwrap_or (path_parent path) ''.'';
          daemon = (case rc_daemon raw of Some t \<Rightarrow> RawDaemon_deserialize t | None \<Rightarrow> RawDaemon_default);
          storage_policy = (case Option.bind (rc_storage raw) rs_namespaces of
                              Some list \<Rightarrow> StoragePolicy_from_prefixes list | None \<Rightarrow> StoragePolicy_everything);
          acl_file = map_option (config_resolve env base) (rd_acl_file daemon);
          tags_file = map_option (config_resolve env base) (rd_tags_file daemon)
      in bind_sum (config_tls env base daemon) (\<lambda>tls.
         bind_sum (validate_storage_prefixes (sp_prefixes storage_policy)) (\<lambda>_.
         bind_sum (config_node_id (rd_node_id daemon)) (\<lambda>node_id.
         bind_sum (config_galaxy env base (rc_galaxy raw)) (\<lambda>galaxy.
         bind_sum (storage_tiers env base (rc_storage raw)) (\<lambda>(tiers, tiers_file).
         bind_sum (load_acl env (rc_acl raw) acl_file) (\<lambda>acl.
         bind_sum (optional_section RawDns_into_settings None (rc_dns raw)) (\<lambda>dns.
         bind_sum (optional_section RawZmq_into_settings None (rc_zmq raw)) (\<lambda>zmq.
         bind_sum (optional_section RawStix_into_settings StixSettings_default (rc_stix raw)) (\<lambda>stix.
           if \<not> rd_enabled daemon \<and> dns = None \<and> zmq = None then Inl NothingToDo
           else Inr
             \<lparr>set_http_enabled = rd_enabled daemon, set_listen = listen_text (rd_listen_ip daemon) (rd_listen_port daemon),
              set_authenticate = rd_authenticate daemon, set_daemonize = rd_daemonize daemon, set_tls = tls,
              set_post_limit = rd_post_limit daemon, set_log_out = rd_log_out daemon, set_log_err = rd_log_err daemon,
              set_dbdir = rd_dbdir daemon, set_snapshot_interval = rd_snapshot_interval daemon,
              set_compression_level = rd_compression_level daemon, set_sweep_interval = rd_sweep_interval daemon,
              set_stats_retention = rd_stats_retention daemon, set_shadow_ttl = rd_shadow_ttl daemon,
              set_rejection_log = rd_rejection_log daemon, set_activity = rd_activity daemon,
              set_latest_writes = rd_latest_writes daemon, set_node_id = node_id, set_acl = acl, set_acl_file = acl_file,
              set_tags = load_tags env tags_file, set_tags_file = tags_file, set_tiers = tiers, set_tiers_file = tiers_file,
              set_dns = dns, set_zmq = zmq, set_stix = stix, set_storage = storage_policy, set_galaxy = galaxy\<rparr>))))))))))"

definition Settings_load :: "config_env \<Rightarrow> string \<Rightarrow> config_error + settings" where
  "Settings_load env path =
     (case ce_read env path of
        None \<Rightarrow> Inl ConfigUnreadable
      | Some body \<Rightarrow> (case ce_config env body of None \<Rightarrow> Inl ConfigUnparsable | Some raw \<Rightarrow> RawConfig_into_settings env path raw))"

text \<open>\<open>locate\<close>: the first of the two places that has a file.\<close>

definition config_candidates :: "string option \<Rightarrow> string list" where
  "config_candidates home =
     ''/etc/sightingdb/sightingdb.toml'' #
     (case home of Some h \<Rightarrow> [path_joined (path_joined h ''.sightingdb'') ''sightingdb.toml''] | None \<Rightarrow> [])"

definition locate :: "config_env \<Rightarrow> string option \<Rightarrow> string list + string" where
  "locate env home =
     (case find (ce_exists env) (config_candidates home) of
        Some path \<Rightarrow> Inr path
      | None \<Rightarrow> Inl (config_candidates home))"

end
