(* ===== verification/Config_Laws.thy ===== *)
theory Config_Laws
  imports Config
begin

text \<open>
  What a configuration that was accepted guarantees to the parts it configures: the sections one by one, the
  settings as a whole, the file of keys across a restart, and the promise that a subscription which is not to store
  values stores none.
\<close>

section \<open>Sections\<close>

lemma bind_sum_Inr [simp]: "bind_sum m f = Inr y \<longleftrightarrow> (\<exists>x. m = Inr x \<and> f x = Inr y)"
  by (auto simp: bind_sum_def split: sum.splits)

lemma validate_storage_prefixes_iff: "validate_storage_prefixes ps = Inr () \<longleftrightarrow> list_all (\<lambda>p. validate_namespace p = Inr ()) ps"
  by (induction ps) (auto split: sum.splits)

definition public_namespace :: "string \<Rightarrow> bool" where
  "public_namespace namespace \<longleftrightarrow> \<not> starts_with namespace ''_''"

lemma expose_public:
  "expose entries = Inr es \<Longrightarrow> list_all (\<lambda>e. public_namespace (ex_namespace e)) es"
  by (induction entries arbitrary: es) (auto simp: public_namespace_def split: if_splits sum.splits)

lemma type_map_loop_public:
  assumes "type_map_loop table entries types = Inr types'" "fmpred (\<lambda>_. public_namespace) types"
  shows "fmpred (\<lambda>_. public_namespace) types'"
  using assms
proof (induction table entries types rule: type_map_loop.induct)
  case (2 table key entry entries types)
  then show ?case
    by (cases entry) (auto simp: Let_def public_namespace_def split: if_splits)
qed simp

lemma type_map_public: "type_map v table = Inr types \<Longrightarrow> fmpred (\<lambda>_. public_namespace) types"
  unfolding type_map_def by (auto split: option.splits toml_value.splits intro: type_map_loop_public)

lemma namespace_option_public:
  assumes "namespace_option v table key = Inr r"
  shows "pred_option public_namespace r"
proof (cases r)
  case (Some namespace)
  then show ?thesis using assms by (auto simp: namespace_option_def public_namespace_def split: option.splits if_splits)
qed simp

definition dns_valid :: "dns_settings \<Rightarrow> bool" where
  "dns_valid d \<longleftrightarrow> ds_zone d \<noteq> [] \<and> sorted (map ex_label (ds_exposed d)) \<and> list_all (\<lambda>e. public_namespace (ex_namespace e)) (ds_exposed d)"

definition zmq_valid :: "zmq_settings \<Rightarrow> bool" where
  "zmq_valid z \<longleftrightarrow>
     fmpred (\<lambda>_. public_namespace) (mm_types (zq_mapping z)) \<and> pred_option public_namespace (mm_default_namespace (zq_mapping z)) \<and>
     pred_option public_namespace (mm_hashed_namespace (zq_mapping z)) \<and>
     (mm_store_values (zq_mapping z) \<or> mm_hashed_namespace (zq_mapping z) \<noteq> None \<and> zq_format z = FormatMisp)"

definition stix_valid :: "stix_settings \<Rightarrow> bool" where
  "stix_valid s \<longleftrightarrow>
     fmpred (\<lambda>_. public_namespace) (smap_types (stx_mapping s)) \<and> pred_option public_namespace (smap_default (stx_mapping s)) \<and>
     sp_identity (stx_export s) \<noteq> [] \<and> sp_identity_class (stx_export s) \<noteq> []"

definition galaxy_valid :: "galaxy_config \<Rightarrow> bool" where
  "galaxy_valid g \<longleftrightarrow> gs_max_hops g \<noteq> 0 \<and> gc_health_interval g \<noteq> 0 \<and> \<not> (gs_acl_authority g \<and> gc_acl_replaceable g)"

definition node_id_valid :: "string \<Rightarrow> bool" where
  "node_id_valid i \<longleftrightarrow> i \<noteq> [] \<and> length i \<le> 64 \<and> list_all node_id_char i"

lemma set_sort_key_all: "list_all P (sort_key f xs) = list_all P xs"
  by (simp add: list_all_iff)

lemma dns_section_valid: "RawDns_into_settings raw = Inr d \<Longrightarrow> pred_option dns_valid d"
  by (auto simp: RawDns_into_settings_def Let_def dns_valid_def set_sort_key_all expose_public split: if_splits)

lemma zmq_section_valid:
  assumes "RawZmq_into_settings raw = Inr z"
  shows "pred_option zmq_valid z"
proof (cases "rz_enabled raw")
  case True
  then show ?thesis
    using assms
    by (auto simp: RawZmq_into_settings_def zmq_valid_def type_map_public namespace_option_public
        dest: namespace_option_public split: if_splits)
qed (use assms in \<open>simp add: RawZmq_into_settings_def\<close>)

lemma trimmed_option_nonempty: "trimmed_option v = Some s \<Longrightarrow> s \<noteq> []"
  by (auto simp: trimmed_option_def split: option.splits if_splits)

lemma identity_given: "d \<noteq> [] \<Longrightarrow> unwrap_or (trimmed_option v) d \<noteq> []"
  using trimmed_option_nonempty by (cases "trimmed_option v") (auto simp: unwrap_or_def)

lemma default_publisher: "sp_identity stix_Settings_default \<noteq> []" "sp_identity_class stix_Settings_default \<noteq> []"
  by (simp_all add: stix_Settings_default_def SIGHTINGDB_def)

lemma stix_section_valid: "RawStix_into_settings raw = Inr s \<Longrightarrow> stix_valid s"
  by (auto simp: RawStix_into_settings_def stix_valid_def identity_given default_publisher
      type_map_public namespace_option_public)

lemma stix_default_valid: "stix_valid StixSettings_default"
  by (simp add: stix_valid_def StixSettings_default_def default_publisher)

lemma galaxy_section_valid: "config_galaxy env base raw = Inr g \<Longrightarrow> pred_option galaxy_valid g"
  by (auto simp: config_galaxy_def RawGalaxy_into_settings_def Let_def galaxy_valid_def split: option.splits sum.splits if_splits)

lemma node_id_section_valid: "config_node_id given = Inr i \<Longrightarrow> node_id_valid i"
  by (auto simp: config_node_id_def node_id_valid_def LOCAL_NODE_def node_id_char_def is_ascii_alphanumeric_def
      split: option.splits if_splits)

section \<open>The settings as a whole\<close>

definition settings_valid :: "settings \<Rightarrow> bool" where
  "settings_valid s \<longleftrightarrow>
     node_id_valid (set_node_id s) \<and> list_all (\<lambda>p. validate_namespace p = Inr ()) (sp_prefixes (set_storage s)) \<and>
     pred_option galaxy_valid (set_galaxy s) \<and> pred_option dns_valid (set_dns s) \<and> pred_option zmq_valid (set_zmq s) \<and>
     stix_valid (set_stix s) \<and> (set_http_enabled s \<or> set_dns s \<noteq> None \<or> set_zmq s \<noteq> None)"

definition effective_daemon :: "raw_config \<Rightarrow> raw_daemon" where
  "effective_daemon raw = (case rc_daemon raw of Some t \<Rightarrow> RawDaemon_deserialize t | None \<Rightarrow> RawDaemon_default)"

lemma optional_section_valid:
  assumes "optional_section f absent raw = Inr x" "\<And>r y. f r = Inr y \<Longrightarrow> P y" "P absent"
  shows "P x"
  using assms by (cases raw) (auto simp: optional_section_def)

lemma tls_section: "config_tls env base daemon = Inr t \<Longrightarrow> t \<noteq> None \<longleftrightarrow> rd_ssl daemon"
  by (auto simp: config_tls_def split: if_splits option.splits)

text \<open>The parts a configuration that was accepted is made of.\<close>

lemma into_settings_parts:
  assumes "RawConfig_into_settings env path raw = Inr s"
  defines "base \<equiv> unwrap_or (path_parent path) ''.''"
  shows "config_tls env base (effective_daemon raw) = Inr (set_tls s)" "validate_storage_prefixes (sp_prefixes (set_storage s)) = Inr ()"
    "config_node_id (rd_node_id (effective_daemon raw)) = Inr (set_node_id s)" "config_galaxy env base (rc_galaxy raw) = Inr (set_galaxy s)"
    "optional_section RawDns_into_settings None (rc_dns raw) = Inr (set_dns s)"
    "optional_section RawZmq_into_settings None (rc_zmq raw) = Inr (set_zmq s)"
    "optional_section RawStix_into_settings StixSettings_default (rc_stix raw) = Inr (set_stix s)"
    "set_http_enabled s = rd_enabled (effective_daemon raw)" "set_authenticate s = rd_authenticate (effective_daemon raw)"
    "set_http_enabled s \<or> set_dns s \<noteq> None \<or> set_zmq s \<noteq> None"
    "load_acl env (rc_acl raw) (set_acl_file s) = Inr (set_acl s)"
  using assms by (auto simp: RawConfig_into_settings_def Let_def effective_daemon_def split: if_splits)

text \<open>
  C25. A configuration that is accepted is one the server can run with. Its name is one to sixty-four characters of
  those a counter may carry; the namespaces it stores are well-formed and none is internal; a galaxy has at least
  one hop and probes its peers, and is never both the authority on keys and replaceable; DNS has a zone, exposes no
  internal namespace and looks labels up in order; a subscription writes to no internal namespace and, when it may
  not store values, has a namespace for digests and a format that makes them; and there is something to serve.
  Where HTTP is served at all, it is served without authentication or without TLS only if the file says so.
\<close>
theorem accepted_configuration_is_valid:
  assumes "RawConfig_into_settings env path raw = Inr s"
  shows "settings_valid s \<and>
    (set_http_enabled s \<longrightarrow>
      (set_authenticate s \<or> (\<exists>t. rc_daemon raw = Some t \<and> dt_authenticate t = Some False)) \<and>
      (set_tls s \<noteq> None \<or> (\<exists>t. rc_daemon raw = Some t \<and> dt_ssl t = Some False)))"
proof -
  note p = into_settings_parts [OF assms]
  have "settings_valid s"
    unfolding settings_valid_def
    using p(10) node_id_section_valid [OF p(3)] p(2) [unfolded validate_storage_prefixes_iff] galaxy_section_valid [OF p(4)]
      optional_section_valid [OF p(5), of "pred_option dns_valid"] dns_section_valid
      optional_section_valid [OF p(6), of "pred_option zmq_valid"] zmq_section_valid
      optional_section_valid [OF p(7), of stix_valid] stix_section_valid stix_default_valid by simp
  moreover have "rd_enabled (effective_daemon raw) \<Longrightarrow> \<exists>t. rc_daemon raw = Some t \<and> effective_daemon raw = RawDaemon_deserialize t"
    by (auto simp: effective_daemon_def RawDaemon_default_def split: option.splits)
  moreover have "rd_authenticate (RawDaemon_deserialize t) \<or> dt_authenticate t = Some False"
    "rd_ssl (RawDaemon_deserialize t) \<or> dt_ssl t = Some False" for t
    by (cases "dt_authenticate t"; cases "dt_ssl t"; simp add: RawDaemon_deserialize_def unwrap_or_def)+
  ultimately show ?thesis using p(8,9) tls_section [OF p(1)] by metis
qed

section \<open>A subscription that stores no value\<close>

text \<open>What is left alone: every namespace but some and the index of all values, and every value outside a set.\<close>

definition leaves_alone :: "string set \<Rightarrow> string set \<Rightarrow> logical \<Rightarrow> logical \<Rightarrow> bool" where
  "leaves_alone H V C C' \<longleftrightarrow> (\<forall>n. n \<in> H \<or> n = ALL_NAMESPACE \<or> C' n = C n) \<and>
     (\<forall>n x. x \<in> V \<or> fmlookup (values_of C' n) x = fmlookup (values_of C n) x)"

lemma leaves_alone_refl [simp]: "leaves_alone H V C C"
  by (simp add: leaves_alone_def)

lemma leaves_aloneD: "leaves_alone H V C C' \<Longrightarrow> n \<notin> H \<Longrightarrow> n \<noteq> ALL_NAMESPACE \<Longrightarrow> C' n = C n"
  unfolding leaves_alone_def by blast

lemma leaves_alone_trans: "leaves_alone H V A B \<Longrightarrow> leaves_alone H V B C \<Longrightarrow> leaves_alone H V A C"
  unfolding leaves_alone_def by metis

text \<open>A database observations for these namespaces can be written to, whatever their values.\<close>

definition writable :: "'f env \<Rightarrow> 'f disk \<Rightarrow> string set \<Rightarrow> database \<Rightarrow> bool" where
  "writable env disk H db \<longleftrightarrow> db_inv env disk db \<and> consensus_ok (db_node db) (contents env disk db) \<and> finite H \<and>
     (\<forall>v. card (H \<union> holders (contents env disk db) v) < 2 ^ 64 - 1)"

lemma rounds_alone:
  assumes "writable env disk H db" "ob_namespace ob \<in> H" "check db (ob_namespace ob) (ob_value ob) = Inr ()" "ob_value ob \<in> V"
    and "write_rounds env disk now ob t when later given n db = (db', r)"
  shows "writable env disk H db' \<and> leaves_alone H V (contents env disk db) (contents env disk db')"
proof -
  let ?h = "ob_namespace ob" and ?C = "contents env disk db" and ?C' = "contents env disk db'"
  have pre: "db_inv env disk db" "consensus_ok (db_node db) ?C" "finite H" "card (H \<union> holders ?C v) < 2 ^ 64 - 1" for v
    using assms(1) unfolding writable_def by blast+
  have fin: "finite (H \<union> holders ?C v)" for v using pre(3) by (simp add: finite_holders_db)
  have "card (insert ?h (holders ?C (ob_value ob))) \<le> card (H \<union> holders ?C (ob_value ob))"
    using fin assms(2) by (intro card_mono) auto
  then have few: "card (insert ?h (holders ?C (ob_value ob))) < 2 ^ 64 - 1" using pre(4) le_less_trans by blast
  note eff = rounds_effect [OF pre(1,2) few assms(3,5)]
  have "holders ?C' v \<subseteq> insert ?h (holders ?C v)" for v
    using eff by (cases "v = ob_value ob") (auto simp: holders_def fmlookup_dom'_iff)
  then have "card (H \<union> holders ?C' v) \<le> card (H \<union> holders ?C v)" for v
    using assms(2) by (intro card_mono fin) blast
  then have "card (H \<union> holders ?C' v) < 2 ^ 64 - 1" for v using pre(4) [of v] le_less_trans by blast
  moreover have "x \<in> V \<or> fmlookup (values_of ?C' n) x = fmlookup (values_of ?C n) x" for n x using eff assms(4) by metis
  moreover have "n \<in> H \<or> n = ALL_NAMESPACE \<or> ?C' n = ?C n" for n using eff assms(2) by metis
  ultimately show ?thesis using eff pre(3) by (simp add: writable_def leaves_alone_def)
qed

lemma record_alone:
  assumes w: "writable env disk H db" and h: "ob_namespace ob \<in> H" and v: "ob_value ob \<in> V"
    and run: "ingest_record env disk now ft db t ob = (db', r)"
  shows "writable env disk H db' \<and> leaves_alone H V (contents env disk db) (contents env disk db')"
proof (cases "db' = db")
  case False
  have n: "0 < unat (max (ob_count ob) 1)" by (auto simp: unat_gt_0 max_def)
  from False obtain first final where rounds: "write_rounds env disk now ob (if t > 0 then Some t else None) first final
      (join '','' (ob_tags ob)) (unat (max (ob_count ob) 1)) db = (db', r)"
    using run unfolding ingest_record_def by (auto split: sum.splits)
  show ?thesis
  proof (cases "check db (ob_namespace ob) (ob_value ob)")
    case (Inl e)
    then show ?thesis using rounds False by (simp add: refused_rounds [OF Inl n])
  next
    case (Inr u)
    then show ?thesis using rounds_alone [OF w h _ v rounds] by simp
  qed
qed (use w in simp)

lemma one_alone:
  assumes "writable (rt_env rt) (rt_disk rt) H (sh_db sh)" "ob_namespace ob \<in> H" "ob_value ob \<in> V" "ingest_one rt now t ob (sh, st) = (sh', st')"
  shows "writable (rt_env rt) (rt_disk rt) H (sh_db sh') \<and>
    leaves_alone H V (contents (rt_env rt) (rt_disk rt) (sh_db sh)) (contents (rt_env rt) (rt_disk rt) (sh_db sh'))"
proof -
  obtain db' r where run: "ingest_record (rt_env rt) (rt_disk rt) now (rt_from_timestamp rt) (sh_db sh) t ob = (db', r)" by fastforce
  then have "sh_db sh' = db'" using assms(4) by (auto simp: ingest_one_def split: sum.splits)
  with record_alone [OF assms(1,2,3) run] show ?thesis by simp
qed

text \<open>What a stream of digests for one namespace does, over the steps that consume it.\<close>

definition only_digests :: "('f, 'w) runtime \<Rightarrow> string \<Rightarrow> string set \<Rightarrow> shared_state \<Rightarrow> shared_state \<Rightarrow> bool" where
  "only_digests rt h V sh sh' \<longleftrightarrow> (writable (rt_env rt) (rt_disk rt) {h} (sh_db sh) \<longrightarrow>
     writable (rt_env rt) (rt_disk rt) {h} (sh_db sh') \<and>
     leaves_alone {h} V (contents (rt_env rt) (rt_disk rt) (sh_db sh)) (contents (rt_env rt) (rt_disk rt) (sh_db sh')))"

lemma only_digests_refl [simp]: "only_digests rt h V sh sh"
  by (simp add: only_digests_def)

lemma only_digests_trans [trans]: "only_digests rt h V a b \<Longrightarrow> only_digests rt h V b c \<Longrightarrow> only_digests rt h V a c"
  unfolding only_digests_def by (blast intro: leaves_alone_trans)

lemma fold_alone:
  assumes "list_all (\<lambda>ob. ob_namespace ob = h \<and> ob_value ob \<in> V) obs"
  shows "only_digests rt h V (fst acc) (fst (fold (ingest_one rt now t) obs acc))"
  using assms
proof (induction obs arbitrary: acc)
  case (Cons ob obs)
  obtain sh st sh1 st1 where acc: "acc = (sh, st)" "ingest_one rt now t ob (sh, st) = (sh1, st1)" by (metis surj_pair)
  have "only_digests rt h V sh sh1"
    unfolding only_digests_def using one_alone [OF _ _ _ acc(2)] Cons.prems by auto
  also have "only_digests rt h V sh1 (fst (fold (ingest_one rt now t) obs (sh1, st1)))"
    using Cons.IH [of "(sh1, st1)"] Cons.prems by simp
  finally show ?case by (simp add: acc)
qed simp

lemma message_alone:
  assumes "zq_format z = FormatMisp" "\<not> mm_store_values (zq_mapping z)" "mm_hashed_namespace (zq_mapping z) = Some h"
  shows "only_digests rt h (range (sha256_hex digest)) (fst acc) (fst (ingest_message rt digest native_in z ev acc))"
proof -
  obtain sh st where acc: "acc = (sh, st)" by fastforce
  show ?thesis
  proof (cases "body_of (ev_frames ev)")
    case (Some body)
    show ?thesis
    proof (cases "misp_parse digest (rt_json_in rt) (strip_topic body) (zq_mapping z)")
      case (Inr obs)
      have "list_all (\<lambda>ob. ob_namespace ob = h \<and> ob_value ob \<in> range (sha256_hex digest)) obs"
        using parse_allowed [OF Inr] assms(2,3)
        by (auto simp: list_all_iff allowed_def digest_observation_def plain_observation_def)
      from fold_alone [OF this, where acc = "(sh, if obs = [] then st\<lparr>st_ignored := st_ignored st + 1\<rparr> else st)" and rt = rt
          and now = "ev_now ev" and t = "zq_ttl z"]
      show ?thesis by (simp add: ingest_message_def acc Some assms(1) Inr Let_def case_prod_beta)
    qed (simp add: ingest_message_def acc Some assms(1) Let_def)
  qed (simp add: ingest_message_def acc)
qed

lemma consume_alone:
  assumes "zq_format z = FormatMisp" "\<not> mm_store_values (zq_mapping z)" "mm_hashed_namespace (zq_mapping z) = Some h"
  shows "only_digests rt h (range (sha256_hex digest)) (fst acc) (fst (consume rt digest native_in z evs acc))"
proof (induction evs arbitrary: acc)
  case (Cons ev evs)
  show ?case
    using message_alone [OF assms] Cons.IH only_digests_trans by (simp add: Let_def) blast
qed simp

lemma run_alone:
  assumes "zq_format z = FormatMisp" "\<not> mm_store_values (zq_mapping z)" "mm_hashed_namespace (zq_mapping z) = Some h"
  shows "only_digests rt h (range (sha256_hex digest)) sh (ingest_run rt digest native_in z turns sh)"
proof (induction turns arbitrary: sh)
  case (Cons turn turns)
  show ?case
    using consume_alone [OF assms, of rt digest "(sh, Stats_new)"] Cons.IH
    by (auto simp: Let_def split: option.splits intro: only_digests_trans)
qed simp

text \<open>
  C14. A subscription configured not to store values stores none, whatever the publisher sends and for as long as it
  runs. From the section of the configuration to the database: every namespace but the one for digests and the
  index of all values is as it was, what was known of any value that is not a digest is as it was in every
  namespace, and the invariant of the database and the tallies of the consensus hold throughout.
\<close>
theorem hashed_subscription_stores_no_value:
  assumes "RawZmq_into_settings raw = Inr (Some z)" "\<not> rz_store_values raw"
    and "mm_hashed_namespace (zq_mapping z) = Some h" "writable (rt_env rt) (rt_disk rt) {h} (sh_db sh)"
    and "ingest_run rt digest native_in z turns sh = sh'"
  shows "writable (rt_env rt) (rt_disk rt) {h} (sh_db sh') \<and>
    leaves_alone {h} (range (sha256_hex digest)) (contents (rt_env rt) (rt_disk rt) (sh_db sh)) (contents (rt_env rt) (rt_disk rt) (sh_db sh'))"
proof -
  have "\<not> mm_store_values (zq_mapping z)" using assms(1,2) by (auto simp: RawZmq_into_settings_def split: if_splits)
  moreover from this have "zq_format z = FormatMisp" using zmq_section_valid [OF assms(1)] by (simp add: zmq_valid_def)
  ultimately show ?thesis using run_alone assms(3-5) unfolding only_digests_def by blast
qed

definition sample_zmq :: raw_zmq where
  "sample_zmq = \<lparr>rz_enabled = True, rz_endpoint = ''tcp://misp:50000'', rz_topics = [''misp_json''], rz_format = ''misp'',
     rz_require_to_ids = False, rz_default_namespace = None, rz_ttl = 0, rz_reconnect = 5, rz_types = None,
     rz_hashed_namespace = Some '' hashes '', rz_store_values = False\<rparr>"

definition sample_zmq_settings :: zmq_settings where
  "sample_zmq_settings = \<lparr>zq_endpoint = ''tcp://misp:50000'', zq_topics = [''misp_json''], zq_format = FormatMisp,
     zq_mapping = sample_hashing, zq_ttl = 0, zq_reconnect = 5\<rparr>"

lemma sample_zmq_accepted: "RawZmq_into_settings sample_zmq = Inr (Some sample_zmq_settings)"
proof -
  have "Format_parse ''misp'' = Inr FormatMisp" "trimmed_option (Some '' hashes '') = Some ''hashes''" "\<not> starts_with ''hashes'' ''_''" by code_simp+
  then show ?thesis
    by (simp add: RawZmq_into_settings_def sample_zmq_def sample_zmq_settings_def sample_hashing_def bind_sum_def type_map_def
        namespace_option_def trimmed_option_def)
qed

text \<open>One message heard, and the connection lost.\<close>

definition sample_turns :: "zmq_round list" where
  "sample_turns = [\<lparr>rd_stopped = False,
     rd_events = Some [\<lparr>ev_frames = [''misp_json'', ''event''], ev_now = DateTime 100 0, ev_report_due = False, ev_stopped = False\<rparr>],
     rd_stopped_after = False\<rparr>]"

theorem hashed_subscription_stores_no_value_witness:
  "contents sample_env fmempty (sh_db (ingest_run (sample_runtime\<lparr>rt_json_in := \<lambda>_. Inr sample_publication\<rparr>) id (\<lambda>_. Inl [])
     sample_zmq_settings sample_turns sample_state)) ''feeds/a'' = None"
proof -
  let ?rt = "sample_runtime\<lparr>rt_json_in := \<lambda>_. Inr sample_publication\<rparr>"
  have env: "rt_env ?rt = sample_env" "rt_disk ?rt = fmempty" "sh_db sample_state = sample_store_db"
    by (simp_all add: sample_runtime_def sample_state_def)
  have inv: "db_inv sample_env fmempty sample_store_db" using sample_store_inv by (rule inv_mono) simp
  have "card ({''hashes''} \<union> holders (contents sample_env fmempty sample_store_db) v) < 2 ^ 64 - 1" for v
    by (simp add: holders_def values_of_def sample_start)
  then have w: "writable (rt_env ?rt) (rt_disk ?rt) {''hashes''} (sh_db sample_state)"
    unfolding writable_def env using inv sample_start_ok by simp
  have z: "\<not> rz_store_values sample_zmq" "mm_hashed_namespace (zq_mapping sample_zmq_settings) = Some ''hashes''"
    by (simp_all add: sample_zmq_def sample_zmq_settings_def sample_hashing_def)
  note app = hashed_subscription_stores_no_value [OF sample_zmq_accepted z w refl, where digest = id and native_in = "\<lambda>_. Inl []"
      and turns = sample_turns]
  have "''feeds/a'' \<notin> {''hashes''}" "''feeds/a'' \<noteq> ALL_NAMESPACE" by (simp_all add: ALL_NAMESPACE_def)
  note leaves_aloneD [OF conjunct2 [OF app] this]
  then show ?thesis unfolding env by (simp add: sample_start)
qed

section \<open>The file of keys across a restart\<close>

lemma build_acl_prints:
  assumes "list_all (\<lambda>(key, gs). gs \<noteq> [] \<and> list_all grant_wf gs) entries"
  shows "build_acl (map (\<lambda>(key, gs). (key, join '', '' (map Grant_to_spec gs))) entries) acl =
    Inr (fold (\<lambda>(key, gs) acl. fmupd key gs acl) entries acl)"
  using assms
proof (induction entries arbitrary: acl)
  case (Cons entry entries)
  obtain key gs where e: "entry = (key, gs)" by fastforce
  have "parse_grants (join '', '' (map Grant_to_spec gs)) = Inr gs"
    using Cons.prems by (intro parse_print) (auto simp: e list_all_iff)
  then show ?case using Cons by (simp add: e Acl_set_def)
qed simp

text \<open>What is written is read back; the toml crate gives back the table it was written.\<close>

lemma key_file_read_back:
  assumes "ce_exists env file" "ce_read env file = Some (Acl_to_toml acl)"
    and "ce_acl env (Acl_to_toml acl) = Some (fmmap (\<lambda>gs. join '', '' (map Grant_to_spec gs)) acl)"
    and "fmpred (\<lambda>_ gs. gs \<noteq> [] \<and> list_all grant_wf gs) acl"
  shows "load_acl env inline (Some file) = Inr (Some acl)"
proof -
  let ?specs = "sorted_list_of_fmap (fmmap (\<lambda>gs. join '', '' (map Grant_to_spec gs)) acl)"
  have "list_all (\<lambda>(key, gs). gs \<noteq> [] \<and> list_all grant_wf gs) (sorted_list_of_fmap acl)"
    using assms(4) by (auto simp: list_all_iff)
  from build_acl_prints [OF this, of Acl_new]
  have built: "build_acl ?specs Acl_new = Inr (fold (\<lambda>(key, gs) acl. fmupd key gs acl) (sorted_list_of_fmap acl) Acl_new)"
    by (simp add: sorted_list_of_fmmap)
  have "fold (\<lambda>(key, gs) acl. fmupd key gs acl) (sorted_list_of_fmap acl) Acl_new = acl"
    by (rule fmap_ext) (simp add: fm_lift_fold_lookup [where f = "\<lambda>_ c. c"] Acl_new_def split: option.split)
  then show ?thesis using assms(1-3) built by (simp add: load_acl_def bind_sum_def)
qed


text \<open>A file of two keys, and a configuration that points at it.\<close>

definition sample_keys :: acl where
  "sample_keys = fmupd ''reader'' [\<lparr>g_prefix = ''feeds'', g_read = True, g_write = False, g_admin = False\<rparr>]
     (fmupd ''root'' [Grant_all_data, Grant_admin] fmempty)"

definition sample_config_env :: config_env where
  "sample_config_env = \<lparr>ce_absolute = Some, ce_exists = (\<lambda>p. p = ''/etc/keys.toml''),
     ce_read = (\<lambda>p. if p = ''/etc/keys.toml'' then Some (Acl_to_toml sample_keys) else None), ce_config = (\<lambda>_. None),
     ce_tiers = (\<lambda>_. None), ce_acl = (\<lambda>_. Some (fmmap (\<lambda>gs. join '', '' (map Grant_to_spec gs)) sample_keys)), ce_tags = (\<lambda>_. Inr fmempty),
     ce_peers = (\<lambda>_. Inr []), ce_seed = []\<rparr>"


definition sample_daemon :: daemon_table where
  "sample_daemon = \<lparr>dt_enabled = None, dt_listen_ip = None, dt_listen_port = None, dt_authenticate = None, dt_daemonize = None,
     dt_ssl = Some False, dt_ssl_cert = None, dt_ssl_key = None, dt_post_limit = None, dt_log_out = None, dt_log_err = None,
     dt_dbdir = None, dt_snapshot_interval = None, dt_compression_level = None, dt_sweep_interval = None, dt_stats_retention = None,
     dt_shadow_ttl = None, dt_rejection_log = None, dt_activity = None, dt_latest_writes = None, dt_node_id = Some ''node-1'',
     dt_acl_file = None, dt_tags_file = None\<rparr>"

definition sample_config :: raw_config where
  "sample_config = \<lparr>rc_daemon = Some sample_daemon, rc_acl = None, rc_storage = None, rc_galaxy = None, rc_dns = None,
     rc_zmq = Some sample_zmq, rc_stix = None\<rparr>"

lemma sample_node_id: "config_node_id (Some ''node-1'') = Inr ''node-1''"
  by code_simp

lemma sample_config_accepted:
  "\<exists>s. RawConfig_into_settings sample_config_env ''/etc/sightingdb.toml'' sample_config = Inr s \<and> set_http_enabled s \<and> set_tls s = None \<and>
     set_authenticate s \<and> set_node_id s = ''node-1''"
  by (simp add: RawConfig_into_settings_def sample_config_def sample_daemon_def RawDaemon_deserialize_def Let_def config_tls_def
      config_galaxy_def storage_tiers_def load_acl_def optional_section_def sample_zmq_accepted unwrap_or_def StoragePolicy_everything_def
      sample_node_id)

theorem accepted_configuration_is_valid_witness:
  "\<exists>s. RawConfig_into_settings sample_config_env ''/etc/sightingdb.toml'' sample_config = Inr s \<and> settings_valid s"
  using sample_config_accepted accepted_configuration_is_valid by blast

end
