(* ===== verification/Startup.thy ===== *)
theory Startup
  imports Persistence Config_Laws
begin

text \<open>
  \<^verbatim>\<open>src/src/main.rs\<close>: from the settings to a running server's state, the one-shot import, the periodic work, and the
  way out. Listeners, signals and threads are left out: a worker is the work it does each time it wakes.
\<close>

section \<open>The keys a server starts with\<close>

definition default_apikey :: "string option \<Rightarrow> string option \<Rightarrow> string option" where
  "default_apikey from_cli from_env =
     (case from_cli of
        Some key \<Rightarrow> if key \<noteq> [] then Some key else (case from_env of Some k \<Rightarrow> if k \<noteq> [] then Some k else None | None \<Rightarrow> None)
      | None \<Rightarrow> (case from_env of Some k \<Rightarrow> if k \<noteq> [] then Some k else None | None \<Rightarrow> None))"

definition startup_acl :: "settings \<Rightarrow> database \<Rightarrow> string option \<Rightarrow> acl" where
  "startup_acl s db cli_apikey =
     (let legacy = Database_legacy_apikeys db;
          acl = (case set_acl s of Some acl \<Rightarrow> acl | None \<Rightarrow> fold (\<lambda>key acl. Acl_grant_full acl key) legacy Acl_new);
          acl = (case cli_apikey of
                   Some apikey \<Rightarrow> Acl_grant_full (fst (Acl_remove acl DEFAULT_APIKEY)) apikey
                 | None \<Rightarrow> acl)
      in if Acl_is_empty acl then Acl_grant_full acl DEFAULT_APIKEY else acl)"

section \<open>The database a server starts with\<close>

definition usable_dbdir :: "(string \<Rightarrow> bool) \<Rightarrow> settings \<Rightarrow> string option" where
  "usable_dbdir mkdir_ok s = (case set_dbdir s of None \<Rightarrow> None | Some dbdir \<Rightarrow> if mkdir_ok dbdir then Some dbdir else None)"

definition startup_database ::
  "'f env \<Rightarrow> (string \<Rightarrow> bool) \<Rightarrow> (string \<Rightarrow> bool) \<Rightarrow> datetime \<Rightarrow> settings \<Rightarrow> 'f disk \<Rightarrow> store_error + 'f disk \<times> database" where
  "startup_database env mkdir_ok busy now s disk =
     (let dbdir = usable_dbdir mkdir_ok s
      in case open_database env disk now (Settings_database_policy s) (set_storage s) (set_node_id s) dbdir of
           Inl e \<Rightarrow> Inl e
         | Inr db \<Rightarrow>
             let db = db\<lparr>db_activity := Activity_set_enabled (db_activity db) (set_activity s),
                         db_latest := Latest_set_capacity (db_latest db) (set_latest_writes s)\<rparr>
             in case dbdir of
                  None \<Rightarrow> Inr (disk, db)
                | Some dir \<Rightarrow>
                    (case Database_evict_idle busy env disk (timestamp now)
                            (Database_attach_store db \<lparr>st_dbdir = dir, st_level = set_compression_level s\<rparr> (set_tiers s)) of
                       (disk, db, _) \<Rightarrow> Inr (disk, db)))"

definition startup_state :: "settings \<Rightarrow> database \<Rightarrow> string option \<Rightarrow> shared_state" where
  "startup_state s db apikey =
     \<lparr>sh_db = db, sh_authenticate = set_authenticate s, sh_acl = startup_acl s db apikey, sh_listen = set_listen s,
      sh_acl_file = set_acl_file s, sh_tiers_file = set_tiers_file s, sh_tags = set_tags s, sh_tags_file = set_tags_file s,
      sh_rejections = Rejections_new (set_rejection_log s),
      sh_galaxy = map_option (\<lambda>g. Galaxy_new (galaxy_settings.truncate g)) (set_galaxy s),
      sh_galaxy_peers_file = Option.bind (set_galaxy s) gc_peers_file, sh_revoked = fmempty,
      sh_acl_replaceable = (case set_galaxy s of Some g \<Rightarrow> gc_acl_replaceable g | None \<Rightarrow> False),
      sh_joining = (set_galaxy s \<noteq> None)\<rparr>"

section \<open>What the workers do\<close>

text \<open>The sweeper: expired values, then idle shards.\<close>

definition sweeper_tick ::
  "(string \<Rightarrow> bool) \<Rightarrow> 'f env \<Rightarrow> datetime \<Rightarrow> 'f disk \<Rightarrow> database \<Rightarrow> 'f disk \<times> database" where
  "sweeper_tick busy env now disk db =
     (let (db, _) = Database_sweep busy env disk now db; (disk, db, _) = Database_evict_idle busy env disk (timestamp now) db
      in (disk, db))"

definition snapshot_tick ::
  "'f env \<Rightarrow> bool \<Rightarrow> (string \<Rightarrow> bool) \<Rightarrow> string \<Rightarrow> 'f disk \<Rightarrow> database \<Rightarrow> 'f disk \<times> database" where
  "snapshot_tick env mkdir_ok removable dbdir disk db =
     (case save env mkdir_ok removable disk dbdir False db of (disk, db, _) \<Rightarrow> (disk, db))"

text \<open>The way out: everything is saved.\<close>

definition shutdown_save ::
  "'f env \<Rightarrow> bool \<Rightarrow> (string \<Rightarrow> bool) \<Rightarrow> string option \<Rightarrow> 'f disk \<Rightarrow> database \<Rightarrow> 'f disk \<times> database \<times> (store_error + save_report) option" where
  "shutdown_save env mkdir_ok removable dbdir disk db =
     (case dbdir of
        None \<Rightarrow> (disk, db, None)
      | Some dir \<Rightarrow> (case save env mkdir_ok removable disk dir True db of (disk, db, r) \<Rightarrow> (disk, db, Some r)))"

section \<open>The one-shot import\<close>

text \<open>What the directory listing gives for a path: a file, or the entries of a directory.\<close>

datatype stix_path = StixFile | StixDir "string list"

definition has_json_extension :: "string \<Rightarrow> bool" where
  "has_json_extension p =
     (let name = List.last (split_on CHR ''/'' p)
      in case rsplit_once CHR ''.'' name of
           Some (stem, extension) \<Rightarrow> stem \<noteq> [] \<and> to_ascii_lowercase extension = ''json''
         | None \<Rightarrow> False)"

definition stix_files :: "(string \<Rightarrow> stix_path option) \<Rightarrow> string \<Rightarrow> string list option" where
  "stix_files entries_at p =
     (case entries_at p of
        None \<Rightarrow> None
      | Some StixFile \<Rightarrow> Some [p]
      | Some (StixDir entries) \<Rightarrow> Some (sort (filter has_json_extension entries)))"

definition import_sighting ::
  "'f env \<Rightarrow> 'f disk \<Rightarrow> datetime \<Rightarrow> (int \<Rightarrow> datetime option) \<Rightarrow> u64 \<Rightarrow> observation \<Rightarrow> database \<times> u64 \<Rightarrow> database \<times> u64" where
  "import_sighting env disk now ft t ob acc =
     (case acc of (db, written) \<Rightarrow>
        (case ingest_record env disk now ft db t ob of
           (db, Inr _) \<Rightarrow> (db, written + max (ob_count ob) 1)
         | (db, Inl _) \<Rightarrow> (db, written)))"

definition import_file ::
  "stix_lib \<Rightarrow> (string \<Rightarrow> (string \<times> string \<times> string) list) \<Rightarrow> (string \<Rightarrow> 'e + json) \<Rightarrow> (string \<Rightarrow> string option) \<Rightarrow> 'f env \<Rightarrow> 'f disk \<Rightarrow> datetime
    \<Rightarrow> (int \<Rightarrow> datetime option) \<Rightarrow> stix_settings \<Rightarrow> string \<Rightarrow> database \<times> u64 \<Rightarrow> database \<times> u64" where
  "import_file lib comparisons json_in read env disk now ft settings p acc =
     (case read p of
        None \<Rightarrow> acc
      | Some body \<Rightarrow>
          (case parse_bundle lib comparisons json_in body (stx_mapping settings) of
             Inl _ \<Rightarrow> acc
           | Inr obs \<Rightarrow> fold (import_sighting env disk now ft (stx_ttl settings)) obs acc))"

definition import_stix ::
  "stix_lib \<Rightarrow> (string \<Rightarrow> (string \<times> string \<times> string) list) \<Rightarrow> (string \<Rightarrow> 'e + json) \<Rightarrow> (string \<Rightarrow> string option) \<Rightarrow> (string \<Rightarrow> stix_path option)
    \<Rightarrow> 'f env \<Rightarrow> 'f disk \<Rightarrow> datetime \<Rightarrow> (int \<Rightarrow> datetime option) \<Rightarrow> stix_settings \<Rightarrow> string \<Rightarrow> database \<Rightarrow> database \<times> u64 option" where
  "import_stix lib comparisons json_in read entries_at env disk now ft settings p db =
     (case stix_files entries_at p of
        None \<Rightarrow> (db, None)
      | Some files \<Rightarrow>
          (case fold (import_file lib comparisons json_in read env disk now ft settings) files (db, 0) of (db, written) \<Rightarrow> (db, Some written)))"

section \<open>Nobody is locked out and nobody let in\<close>

lemma granted_lookup:
  "fmlookup (fold (\<lambda>key acl. Acl_grant_full acl key) keys acl) k = (if k \<in> set keys then Some [Grant_all_data, Grant_admin] else fmlookup acl k)"
  by (induction keys arbitrary: acl) (auto simp: Acl_grant_full_def)

lemma acl_empty_iff: "Acl_is_empty acl \<longleftrightarrow> acl = fmempty"
  unfolding Acl_is_empty_def fm_size_alt by (metis card_eq_0_iff finite_fmdom' fmdom'_empty fmrestrict_set_dom fmrestrict_set_null)

text \<open>
  The keys a server starts with: those of the configuration where it has any, else those an older snapshot held,
  with everything they could do; a key given to the process has full access and takes the built-in one away; and the
  built-in key opens nothing unless it was configured or there is no other.
\<close>

lemma startup_keys:
  "startup_acl s db apikey \<noteq> fmempty"
  "set_acl s = Some acl \<Longrightarrow> acl \<noteq> fmempty \<Longrightarrow> startup_acl s db None = acl"
  "set_acl s = None \<Longrightarrow> key \<in> set (Database_legacy_apikeys db) \<Longrightarrow> Acl_is_admin (startup_acl s db None) key"
  "Acl_is_admin (startup_acl s db (Some key)) key"
  "fm_contains (startup_acl s db apikey) DEFAULT_APIKEY \<Longrightarrow> apikey = Some DEFAULT_APIKEY \<or>
     apikey = None \<and> (case set_acl s of Some acl \<Rightarrow> acl = fmempty \<or> fm_contains acl DEFAULT_APIKEY
                      | None \<Rightarrow> Database_legacy_apikeys db = [] \<or> DEFAULT_APIKEY \<in> set (Database_legacy_apikeys db))"
proof -
  show "startup_acl s db apikey \<noteq> fmempty"
    by (auto simp: startup_acl_def Let_def acl_empty_iff Acl_grant_full_def dest!: arg_cong [where f = fmdom'])
  show "set_acl s = Some acl \<Longrightarrow> acl \<noteq> fmempty \<Longrightarrow> startup_acl s db None = acl"
    by (simp add: startup_acl_def acl_empty_iff)
  show "Acl_is_admin (startup_acl s db None) key" if "set_acl s = None" "key \<in> set (Database_legacy_apikeys db)"
    using that granted_lookup [of "Database_legacy_apikeys db" Acl_new key]
    by (auto simp: startup_acl_def Let_def acl_empty_iff Acl_is_admin_def Grant_admin_def)
  show "Acl_is_admin (startup_acl s db (Some key)) key"
    by (auto simp: startup_acl_def Let_def Acl_is_admin_def Acl_grant_full_def Grant_admin_def acl_empty_iff)
  show "apikey = Some DEFAULT_APIKEY \<or>
     apikey = None \<and> (case set_acl s of Some acl \<Rightarrow> acl = fmempty \<or> fm_contains acl DEFAULT_APIKEY
                      | None \<Rightarrow> Database_legacy_apikeys db = [] \<or> DEFAULT_APIKEY \<in> set (Database_legacy_apikeys db))"
    if has: "fm_contains (startup_acl s db apikey) DEFAULT_APIKEY"
  proof (cases apikey)
    case None
    then show ?thesis
    proof (cases "set_acl s")
      case None
      have "Database_legacy_apikeys db = []" if "fold (\<lambda>key acl. Acl_grant_full acl key) (Database_legacy_apikeys db) Acl_new = fmempty"
        using that granted_lookup [of "Database_legacy_apikeys db" Acl_new "hd (Database_legacy_apikeys db)"]
        by (cases "Database_legacy_apikeys db") (auto split: if_splits)
      then show ?thesis using has None \<open>apikey = None\<close>
        by (auto simp: startup_acl_def Let_def acl_empty_iff granted_lookup Acl_new_def fm_contains_def split: if_splits)
    qed (use has in \<open>auto simp: startup_acl_def Let_def acl_empty_iff split: if_splits\<close>)
  next
    case (Some key)
    then show ?thesis using has
      by (auto simp: startup_acl_def Let_def acl_empty_iff Acl_grant_full_def Acl_remove_def fm_contains_def split: if_splits
          dest!: arg_cong [where f = fmdom'])
  qed
qed

section \<open>A restart of the server\<close>

text \<open>
  C4. Stopping a server and starting it again loses nothing. When the save on the way out succeeded, a start with a
  configuration that names the same directory succeeds, and the database it serves from, after the shards its tiers
  do not want in memory were dropped again, holds exactly the namespaces and values that were held, to the second,
  and satisfies the invariant.
\<close>
theorem server_restart_loses_nothing:
  assumes "codec_ok env" and "db_inv_upto env disk X db" and "X \<subseteq> fset (Database_shards db)" and "db_store db = Some st"
    and "dirty_in_memory db" and "fset (db_dirty db) \<subseteq> fmdom' (db_shards db)" and "files_apart env (fmdom' (db_shards db))"
    and "\<forall>p \<in> set (shard_paths disk (st_dbdir st)). \<exists>s \<in> fmdom' (db_shards db). p = shard_file env (st_dbdir st) s"
    and "fmlookup disk (Store.path_join (st_dbdir st) LEGACY_SNAPSHOT) = None" and "\<forall>p. removable p"
    and "shutdown_save env mkdir_ok removable (Some (st_dbdir st)) disk db = (disk', db', Some (Inr report))"
    and "set_dbdir s = Some (st_dbdir st)" and "creatable (st_dbdir st)"
  shows "\<exists>disk2 db2. startup_database env creatable busy now s disk' = Inr (disk2, db2) \<and>
    contents env disk2 db2 = contents env disk db \<and> db_inv env disk2 db2"
proof -
  have sv: "save env mkdir_ok removable disk (st_dbdir st) True db = (disk', db', Inr report)"
    using assms(11) by (auto simp: shutdown_save_def split: prod.splits)
  let ?st = "\<lparr>st_dbdir = st_dbdir st, st_level = set_compression_level s\<rparr>"
  have dir: "usable_dbdir creatable s = Some (st_dbdir st)" using assms(12,13) by (simp add: usable_dbdir_def)
  have same_dir: "st_dbdir ?st = st_dbdir st" by simp
  obtain db2 where o: "open_database env disk' now (Settings_database_policy s) (set_storage s) (set_node_id s) (Some (st_dbdir st)) = Inr db2"
    and c: "contents env disk' (Database_attach_store db2 ?st (set_tiers s)) = contents env disk db"
    and i: "db_inv_upto env disk' {} (Database_attach_store db2 ?st (set_tiers s))" and d: "fmdom' (db_shards db2) \<subseteq> fmdom' (db_shards db)"
    using restart_reopens [OF assms(1-10) sv same_dir] by blast
  define db3 where "db3 = Database_attach_store (db2\<lparr>db_activity := Activity_set_enabled (db_activity db2) (set_activity s),
      db_latest := Latest_set_capacity (db_latest db2) (set_latest_writes s)\<rparr>) ?st (set_tiers s)"
  have db3: "db3 = (Database_attach_store db2 ?st (set_tiers s))\<lparr>db_activity := Activity_set_enabled (db_activity db2) (set_activity s),
      db_latest := Latest_set_capacity (db_latest db2) (set_latest_writes s)\<rparr>"
    by (simp add: db3_def Database_attach_store_def)
  have inv: "db_inv env disk' db3" using inv_mono [OF i] by (simp add: db3)
  have cont: "contents env disk' db3 = contents env disk db" using c by (simp add: db3)
  have apart: "files_apart env (fmdom' (db_shards db3))"
    using assms(7) d by (auto simp: db3_def Database_attach_store_def files_apart_def intro: inj_on_subset)
  obtain disk4 db4 rep where e: "Database_evict_idle busy env disk' (timestamp now) db3 = (disk4, db4, rep)" by (metis prod_cases3)
  have "startup_database env creatable busy now s disk' = Inr (disk4, db4)"
    using o e by (simp add: startup_database_def dir Let_def db3_def)
  then show ?thesis using eviction_keeps [OF assms(1) inv apart e] cont by metis
qed

definition restarted_settings :: settings where
  "restarted_settings =
     \<lparr>set_http_enabled = True, set_listen = ''127.0.0.1:9999'', set_authenticate = True, set_daemonize = False, set_tls = None,
      set_post_limit = 1000, set_log_out = [], set_log_err = [], set_dbdir = Some ''db'', set_snapshot_interval = 60,
      set_compression_level = 9, set_sweep_interval = 60, set_stats_retention = 10, set_shadow_ttl = 100, set_rejection_log = 10,
      set_activity = True, set_latest_writes = 5, set_node_id = ''node-1'', set_acl = None, set_acl_file = None, set_tags = fmempty,
      set_tags_file = None, set_tiers = TierPolicy_default, set_tiers_file = None, set_dns = None, set_zmq = None,
      set_stix = \<lparr>stx_mapping = \<lparr>smap_types = fmempty, smap_default = None\<rparr>, stx_ttl = 0, stx_export = stix_Settings_default\<rparr>,
      set_storage = StoragePolicy_everything, set_galaxy = None\<rparr>"

theorem server_restart_loses_nothing_witness:
  "\<exists>disk' disk2 db2. startup_database sample_env (\<lambda>_. True) (\<lambda>_. False) (DateTime 200 0) restarted_settings disk' = Inr (disk2, db2) \<and>
     contents sample_env disk2 db2 = contents sample_env fmempty (fst sample_write) \<and> db_inv sample_env disk2 db2"
proof -
  let ?db = "fst sample_write" and ?st = "\<lparr>st_dbdir = ''db'', st_level = 3\<rparr>"
  obtain disk' db' report where "save sample_env True (\<lambda>_. True) fmempty ''db'' True ?db = (disk', db', Inr report)"
    using sample_save by fastforce
  then have sv: "shutdown_save sample_env True (\<lambda>_. True) (Some (st_dbdir ?st)) fmempty ?db = (disk', db', Some (Inr report))"
    by (simp add: shutdown_save_def)
  have store: "db_store ?db = Some ?st"
    by (simp add: sample_write_value sample_store_db_def Database_attach_store_def)
  have shards: "fmdom' (db_shards ?db) = {''feeds'', INTERNAL_SHARD}" "fset (db_dirty ?db) = {''feeds'', INTERNAL_SHARD}"
    by (auto simp: sample_write_value)
  have mem: "dirty_in_memory ?db" by (auto simp: dirty_in_memory_def sample_write_value split: if_splits)
  have "shard_name sample_env INTERNAL_SHARD \<noteq> shard_name sample_env ''feeds''" by code_simp
  then have apart: "files_apart sample_env (fmdom' (db_shards ?db))" unfolding shards files_apart_def by auto
  show ?thesis
    using server_restart_loses_nothing [OF sample_env_ok sample_write_inv _ store mem _ apart _ _ _ sv, of restarted_settings "\<lambda>_. True"
        "\<lambda>_. False" "DateTime 200 0"] shards
    by (fastforce simp: shard_paths_def restarted_settings_def)
qed

section \<open>What an import may touch\<close>

definition mapped_namespaces :: "stix_mapping \<Rightarrow> string set" where
  "mapped_namespaces m = fmran' (smap_types m) \<union> set_option (smap_default m)"

lemma emitted_are_mapped:
  assumes "ob \<in> set (emit os m a z n said)"
  shows "ob_namespace ob \<in> mapped_namespaces m"
proof -
  have "\<exists>x :: observable. stix_namespace_for m (os_type x) = Some (ob_namespace ob)"
    using assms unfolding emit_def List.map_filter_def by auto
  then show ?thesis
    by (auto simp: stix_namespace_for_def mapped_namespaces_def intro: fmran'I split: option.splits)
qed

lemma read_object_mapped: "ob \<in> set (read_object lib comparisons ids refs m x) \<Longrightarrow> ob_namespace ob \<in> mapped_namespaces m"
  unfolding read_object_def from_sighting_def from_observed_data_def from_indicator_def Let_def
  by (split if_splits prod.splits option.splits | elim conjE disjE exE | erule emitted_are_mapped | simp)+

lemma read_are_mapped:
  assumes "parse_bundle lib comparisons json_in body m = Inr obs" "ob \<in> set obs"
  shows "ob_namespace ob \<in> mapped_namespaces m"
  using assms by (auto simp: parse_bundle_def Let_def split: sum.splits dest: read_object_mapped)

text \<open>What a step of an import keeps: the database can be written to as before, and nothing unmapped changed.\<close>

definition import_safe :: "'f env \<Rightarrow> 'f disk \<Rightarrow> string set \<Rightarrow> database \<Rightarrow> database \<Rightarrow> bool" where
  "import_safe env disk H db db' \<longleftrightarrow> (writable env disk H db \<longrightarrow>
     writable env disk H db' \<and> leaves_alone H UNIV (contents env disk db) (contents env disk db'))"

lemma import_safe_refl [simp]: "import_safe env disk H db db"
  by (simp add: import_safe_def)

lemma import_safe_trans: "import_safe env disk H a b \<Longrightarrow> import_safe env disk H b c \<Longrightarrow> import_safe env disk H a c"
  unfolding import_safe_def by (blast intro: leaves_alone_trans)

lemma import_safe_fold:
  assumes "\<And>x acc. x \<in> set xs \<Longrightarrow> import_safe env disk H (fst acc) (fst (f x acc))"
  shows "import_safe env disk H (fst acc) (fst (fold f xs acc))"
  using assms
proof (induction xs arbitrary: acc)
  case (Cons x xs)
  have "import_safe env disk H (fst acc) (fst (f x acc))" using Cons.prems by simp
  moreover have "import_safe env disk H (fst (f x acc)) (fst (fold f xs (f x acc)))" using Cons by simp
  ultimately show ?case by (auto intro: import_safe_trans)
qed simp

lemma import_sighting_safe:
  assumes "ob_namespace ob \<in> H"
  shows "import_safe env disk H (fst acc) (fst (import_sighting env disk now ft t ob acc))"
proof (cases acc)
  case (Pair db written)
  obtain db' r where "ingest_record env disk now ft db t ob = (db', r)" by fastforce
  with record_alone [OF _ assms UNIV_I this] show ?thesis
    by (auto simp: Pair import_sighting_def import_safe_def split: sum.splits)
qed

lemma import_file_safe:
  "import_safe env disk (mapped_namespaces (stx_mapping settings)) (fst acc)
     (fst (import_file lib comparisons json_in read env disk now ft settings p acc))"
  by (auto simp: import_file_def split: option.splits sum.splits intro!: import_safe_fold import_sighting_safe dest: read_are_mapped)

text \<open>
  A one-shot import writes only the namespaces the configuration maps observable types to (and the consensus tallies):
  whatever the bundles say, every other namespace is as it was, and the database keeps its invariants.
\<close>

lemma import_touches_only_mapped_namespaces:
  assumes "writable env disk (mapped_namespaces (stx_mapping settings)) db"
    and "import_stix lib comparisons json_in read entries_at env disk now ft settings p db = (db', r)"
    and "n \<notin> mapped_namespaces (stx_mapping settings)" "n \<noteq> ALL_NAMESPACE"
  shows "contents env disk db' n = contents env disk db n \<and> db_inv env disk db' \<and> consensus_ok (db_node db') (contents env disk db')"
proof -
  let ?H = "mapped_namespaces (stx_mapping settings)"
  have all: "import_safe env disk ?H db (fst (fold (import_file lib comparisons json_in read env disk now ft settings) files (db, 0)))"
    for files
  proof -
    have "import_safe env disk ?H (fst (db, 0 :: u64)) (fst (fold (import_file lib comparisons json_in read env disk now ft settings) files (db, 0)))"
      by (rule import_safe_fold) (rule import_file_safe)
    then show ?thesis by simp
  qed
  have "import_safe env disk ?H db db'"
  proof (cases "stix_files entries_at p")
    case (Some files)
    then have "db' = fst (fold (import_file lib comparisons json_in read env disk now ft settings) files (db, 0))"
      using assms(2) by (auto simp: import_stix_def split: prod.splits)
    then show ?thesis using all by simp
  qed (use assms(2) in \<open>simp add: import_stix_def\<close>)
  then show ?thesis using assms(1,3,4) by (auto simp: import_safe_def writable_def dest: leaves_aloneD)
qed

end
