(* ===== verification/Plan.thy ===== *)
theory Plan
  imports Config
begin

text \<open>
  \<^verbatim>\<open>src/src/setup.rs\<close>: the plan of an installation and the texts it gives: what is shown before anything happens, the
  configuration file, the service unit. A text is given by its lines; each ends in a line feed.
\<close>

section \<open>What is decided\<close>

datatype scope = ScopeSystem | ScopeUser

datatype platform = PlatformLinux | PlatformMacOs

definition Platform_detect :: "string \<Rightarrow> platform option" where
  "Platform_detect os = (if os = ''linux'' then Some PlatformLinux else if os = ''macos'' then Some PlatformMacOs else None)"

definition Platform_service_manager :: "platform \<Rightarrow> string" where
  "Platform_service_manager p = (case p of PlatformLinux \<Rightarrow> ''systemd'' | PlatformMacOs \<Rightarrow> ''launchd'')"

datatype setup_mode = Standalone | Node | Router | Both

definition Mode_label :: "setup_mode \<Rightarrow> string" where
  "Mode_label m = (case m of Standalone \<Rightarrow> ''standalone'' | Node \<Rightarrow> ''a node in a galaxy'' | Router \<Rightarrow> ''a router'' | Both \<Rightarrow> ''a node and a router'')"

definition Mode_forwards :: "setup_mode \<Rightarrow> bool" where
  "Mode_forwards m \<longleftrightarrow> m = Router \<or> m = Both"

definition Mode_in_galaxy :: "setup_mode \<Rightarrow> bool" where
  "Mode_in_galaxy m \<longleftrightarrow> m \<noteq> Standalone"

record plan =
  pl_scope :: scope
  pl_platform :: platform
  pl_service_user :: "string option"
  pl_config_dir :: string
  pl_config_path :: string
  pl_acl_path :: string
  pl_tiers_path :: string
  pl_tags_path :: string
  pl_peers_path :: string
  pl_log_config_path :: string
  pl_dbdir :: string
  pl_tls :: "tls_settings option"
  pl_listen_ip :: string
  pl_listen_port :: u16
  pl_authenticate :: bool
  pl_mode :: setup_mode
  pl_namespaces :: "string list option"
  pl_node_id :: string
  pl_admin_key :: string
  pl_binary :: string
  pl_service_path :: string
  pl_create_user :: bool
  pl_install_service :: bool
  pl_start_service :: bool

definition LAUNCHD_LABEL :: string where "LAUNCHD_LABEL = ''com.github.stricaud.sightingdb''"
definition LAUNCHD_LEGACY_LABEL :: string where "LAUNCHD_LEGACY_LABEL = ''com.devo.sightingdb''"
definition SERVICE_USER :: string where "SERVICE_USER = ''sightingdb''"

definition LOG_CONFIG :: string where
  "LOG_CONFIG = ''refresh_rate: 30 seconds'' @ nl @ ''appenders:'' @ nl @ ''  stdout:'' @ nl @ ''    kind: console'' @ nl @ ''root:'' @ nl @
     ''  level: info'' @ nl @ ''  appenders:'' @ nl @ ''    - stdout'' @ nl"

definition service_unit :: "plan \<Rightarrow> string" where
  "service_unit p =
     (case pl_platform p of
        PlatformLinux \<Rightarrow>
          ''# Written by `sightingdb --setup`.'' @ nl @ ''[Unit]'' @ nl @ ''Description=SightingDB'' @ nl @
          ''After=network-online.target'' @ nl @ ''Wants=network-online.target'' @ nl @ nl @ ''[Service]'' @ nl @ ''Type=exec'' @ nl @
          ''ExecStart='' @ pl_binary p @ '' -c '' @ pl_config_path p @ '' -l '' @ pl_log_config_path p @ nl @
          ''# systemd restarts it when it dies, so `kill` does not stop it:'' @ nl @
          ''# use `systemctl stop sightingdb`, or `sightingdb --stop`.'' @ nl @ ''Restart=on-failure'' @ nl @ ''RestartSec=5s'' @ nl @
          ''User='' @ unwrap_or (pl_service_user p) ''%i'' @ nl @ ''KillSignal=SIGTERM'' @ nl @
          ''# Long enough for the final snapshot to be written.'' @ nl @ ''TimeoutStopSec=60s'' @ nl @ ''NoNewPrivileges=yes'' @ nl @
          ''PrivateTmp=yes'' @ nl @ ''ProtectSystem=strict'' @ nl @ ''ProtectHome=yes'' @ nl @ ''ReadWritePaths='' @ pl_dbdir p @ nl @ nl @
          ''[Install]'' @ nl @ ''WantedBy=multi-user.target'' @ nl
      | PlatformMacOs \<Rightarrow>
          ''<?xml version='' @ dquote @ ''1.0'' @ dquote @ '' encoding='' @ dquote @ ''UTF-8'' @ dquote @ ''?>'' @ nl @
          ''<!DOCTYPE plist PUBLIC '' @ dquote @ ''-//Apple//DTD PLIST 1.0//EN'' @ dquote @ '' '' @
          dquote @ ''http://www.apple.com/DTDs/PropertyList-1.0.dtd'' @ dquote @ ''>'' @ nl @
          ''<plist version='' @ dquote @ ''1.0'' @ dquote @ ''>'' @ nl @ ''<dict>'' @ nl @
          ''  <key>Label</key><string>'' @ LAUNCHD_LABEL @ ''</string>'' @ nl @
          ''  <key>ProgramArguments</key>'' @ nl @ ''  <array>'' @ nl @ ''    <string>'' @ pl_binary p @ ''</string>'' @ nl @
          ''    <string>-c</string><string>'' @ pl_config_path p @ ''</string>'' @ nl @
          ''    <string>-l</string><string>'' @ pl_log_config_path p @ ''</string>'' @ nl @ ''  </array>'' @ nl @
          ''  <key>RunAtLoad</key><true/>'' @ nl @ ''  <key>KeepAlive</key><true/>'' @ nl @
          ''  <key>WorkingDirectory</key><string>'' @ pl_config_dir p @ ''</string>'' @ nl @
          ''  <key>StandardOutPath</key><string>'' @ pl_dbdir p @ ''/sightingdb.log</string>'' @ nl @
          ''  <key>StandardErrorPath</key><string>'' @ pl_dbdir p @ ''/sightingdb.err</string>'' @ nl @ ''</dict>'' @ nl @ ''</plist>'' @ nl)"

section \<open>The configuration file\<close>

definition em_dash :: string where
  "em_dash = [CHR 0xE2, CHR 0x80, CHR 0x94]"

definition bool_text :: "bool \<Rightarrow> string" where
  "bool_text b = (if b then ''true'' else ''false'')"

definition lines_text :: "string list \<Rightarrow> string" where
  "lines_text ls = concat (map (\<lambda>l. l @ nl) ls)"

definition config_listening :: "plan \<Rightarrow> string list" where
  "config_listening p =
     [''# Written by `sightingdb --setup`.'', ''#'', ''# Edit freely: the program rewrites only the separate files named'',
      ''# below -- acl_file, tiers_file, tags_file and peers_file -- and only'',
      ''# when the matching thing is changed through the management interface.'',
      ''# Anything set directly here is read-only there, which it will say.'', ''#'',
      ''# This server is set up as '' @ Mode_label (pl_mode p) @ ''.'', [], ''[daemon]'',
      ''# Where the HTTP API listens. 127.0.0.1 answers only this'', ''# machine; 0.0.0.0 answers every interface.'',
      ''listen_ip = '' @ dquote @ pl_listen_ip p @ dquote, ''listen_port = '' @ show_nat (unat (pl_listen_port p)), [],
      ''# Require an API key on the sighting API. The management interface'', ''# always requires one, whatever this says.'',
      ''authenticate = '' @ bool_text (pl_authenticate p), [],
      ''# Detaching is the service manager's job, so this stays false: it'',
      ''# wants a process in the foreground to supervise.'', ''daemonize = false'', []]"

definition config_tls_lines :: "plan \<Rightarrow> string list" where
  "config_tls_lines p =
     (case pl_tls p of
        Some tls \<Rightarrow>
          [''# A self-signed certificate, written by --setup. Replace both'',
           ''# files with a real pair when you have one; nothing else changes.'', ''ssl = true'',
           ''ssl_cert = '' @ dquote @ tls_cert tls @ dquote, ''ssl_key = '' @ dquote @ tls_key tls @ dquote]
      | None \<Rightarrow>
          [''# Plain HTTP. Anything on the network can read the API key as it'',
           ''# goes past, so this wants a trusted network or a proxy in front.'', ''ssl = false''])"

definition config_upkeep :: "plan \<Rightarrow> string list" where
  "config_upkeep p =
     [[], ''# One file per top-level namespace lives here.'', ''dbdir = '' @ dquote @ pl_dbdir p @ dquote, [],
      ''# Seconds between snapshots, and on a clean shutdown as well.'',
      ''# There is no write-ahead log, so a crash loses up to this much.'', ''snapshot_interval = 300'', [],
      ''# How often expired values are reclaimed. A value stops being'',
      ''# visible the moment it expires; this is only when the space'', ''# comes back.'', ''sweep_interval = 60'', [],
      ''# Hourly statistics buckets kept per value. 720 is 30 days.'',
      ''# 0 keeps all of them, and grows one bucket per hour forever.'', ''stats_retention = 720'', [],
      ''# How long a shadow sighting '' @ em_dash @ '' the record that something was'',
      ''# searched for '' @ em_dash @ '' is kept. 2592000 is 30 days; 0 keeps them for'',
      ''# ever, so `_shadow/*` grows without bound.'', ''shadow_ttl = 2_592_000'', [],
      ''# Rejected values kept in memory, so'', ''# /_management/api/rejections can say which values were turned'',
      ''# away and why. 0 switches the record off.'', ''rejection_log = 1000'', [],
      ''# Count reads and writes per top-level namespace for the management'',
      ''# interface's Activity view. Off makes counting a single flag check.'', ''activity = true'', [],
      ''# Recent writes remembered for /_api/latest, each caller shown'', ''# those its key may read. 0 switches it off.'',
      ''latest_writes = 10000'', []]"

definition config_naming :: "plan \<Rightarrow> string list" where
  "config_naming p =
     (if Mode_in_galaxy (pl_mode p)
      then [''# This server's name in its own counters. Sightings are counted'',
            ''# per server so that merging two copies adds separate'', ''# contributions rather than replaying increments.'', ''#'',
            ''# It must be unique in the galaxy: two servers sharing a name'',
            ''# would each take the other's contribution for their own.'']
      else [''# This server's name in its own counters. '' @ dquote @ ''local'' @ dquote @ '' is right for a'',
            ''# server on its own; give each member of a galaxy its own name.'']) @
     [''node_id = '' @ dquote @ pl_node_id p @ dquote, [],
      ''# API keys and what each may reach. Rewritten by the management'',
      ''# interface when a key is saved, so a new key works without a'', ''# restart.'',
      ''acl_file = '' @ dquote @ pl_acl_path p @ dquote, [],
      ''# How tags are shown in the management interface: a colour and a'',
      ''# description each. Rewritten there when a tag is edited.'',
      ''# Presentation only -- a value can carry a tag nothing here'',
      ''# defines, and the interface lists those too so they can be'',
      ''# adopted. A name ending in ':' colours a whole family.'', ''tags_file = '' @ dquote @ pl_tags_path p @ dquote, [],
      ''[storage]'']"

definition config_storing :: "plan \<Rightarrow> string list" where
  "config_storing p =
     (case pl_namespaces p of
        None \<Rightarrow>
          [''# Which namespaces this server stores. Absent means all of'', ''# them, which is what a server on its own wants.'',
           ''#'',
           ''#   namespaces = ['' @ dquote @ ''feeds'' @ dquote @ '', '' @ dquote @ ''threats'' @ dquote @ '']   those subtrees only'',
           ''#   namespaces = []                      nothing: a pure router'', ''#'',
           ''# Prefixes match whole path segments, so '' @ dquote @ ''feeds'' @ dquote @ '' holds'',
           ''# feeds/misp/ips and never feeds-internal.'', ''#namespaces = ['' @ dquote @ ''/'' @ dquote @ '']'']
      | Some held \<Rightarrow>
          if held = []
          then [''# This server stores no namespace of its own: it forwards every'',
                ''# request to the peers below. A write to a namespace no peer'', ''# holds answers 421.'', ''#'',
                ''# The internal namespaces '' @ em_dash @ '' _all, _shadow/*, _config '' @ em_dash @ '' are held'',
                ''# regardless, because a server cannot keep its own consensus'',
                ''# tally otherwise. That tally is why a router is worth putting'',
                ''# in front of a galaxy: ask it /r/_all?val=<value> for a'', ''# value's consensus across everything below it.'',
                ''namespaces = []'']
          else [''# Which namespaces this server stores. Prefixes match whole path'',
                ''# segments, so '' @ dquote @ ''feeds'' @ dquote @ '' holds feeds/misp/ips and never'',
                ''# feeds-internal. A write to anything else answers 421.'',
                ''namespaces = ['' @ join '', '' (map (\<lambda>n. dquote @ n @ dquote) held) @ '']'']) @
     [[], ''# How long a top-level namespace stays in memory: hot is never'',
      ''# evicted, warm is dropped after warm_idle seconds untouched,'', ''# cold is read back on demand.'',
      ''default_tier = '' @ dquote @ ''hot'' @ dquote, ''warm_idle = 3600'',
      ''# Rewritten by the management interface when a tier is changed.'',
      ''tiers_file = '' @ dquote @ pl_tiers_path p @ dquote]"

definition config_peers :: "plan \<Rightarrow> string list" where
  "config_peers p =
     [[], ''# ---------------------------------------------------------------'',
      ''# The other servers this one forwards to.'', ''#'',
      ''# Left commented out because a peer's key comes from that peer's'',
      ''# own ACL, which does not exist until it has been set up. Install'',
      ''# the other servers, create a key on each for this one, then fill'', ''# this in and restart.'', ''#'',
      ''# The key is the bound on what this server may do there: the'',
      ''# peer's own ACL decides, so a key granted '' @ dquote @ ''rw:feeds'' @ dquote @ '' cannot'',
      ''# write anywhere else however this server is configured or'',
      ''# compromised. Give each the narrowest grant that works.'', ''#'',
      ''# `namespaces` on a peer says what that peer holds, so a request'',
      ''# can be sent where it can be served. Absent means a full mirror.'',
      ''# It has to agree with that peer's own [storage] namespaces.'', ''#'',
      ''# Writes go to every mirror of a namespace; reads to one, chosen'',
      ''# by the value so the same value always comes from the same place.'', ''#'',
      ''# max_hops is spent on each hop and refused at zero. A peer may'',
      ''# itself be a router, so this is what stops a miswired cycle.'',
      ''# ---------------------------------------------------------------'',
      ''# The section is live with no peers in it, which is a valid galaxy:'',
      ''# peers can then be added from the management interface, without'',
      ''# editing this file and without a restart. The settings below are'',
      ''# their defaults, shown commented so they can be changed.'', ''[galaxy]'',
      ''# Peers added from the management interface are written here and'',
      ''# take effect at once. Its own file because this one is yours: a'',
      ''# program that rewrote it would destroy these comments.'', ''peers_file = '' @ dquote @ pl_peers_path p @ dquote,
      ''#max_hops = 4'', ''#health_interval = 30'', ''# Seconds between catch-up passes: a server that was down finds'',
      ''# what it missed and pulls it from a peer that was up. 0 switches'',
      ''# it off, leaving such a server behind until someone syncs it by'', ''# hand.'', ''#sync_interval = 300'',
      ''# Seconds between rebuilds of the consensus tally from the galaxy:'',
      ''# a server in front of one counts a value towards consensus when a'',
      ''# mirror says the sighting was new, which only ever rises. This'',
      ''# surveys the galaxy and puts it right. 0 switches it off.'', ''#reconcile_interval = 3600'',
      ''# Seconds between offering this server's keys to its peers, so one'',
      ''# that was down for a key change picks it up. A push goes through'',
      ''# the peer's own management interface, so the peer's ACL decides.'',
      ''# The offer is additive: a revocation made while a peer was down'',
      ''# does not reach it and must be repeated. 0 switches it off.'', ''#gossip_interval = 600'', ''#'',
      ''# One place to manage keys. The offer above is additive and cannot'',
      ''# carry a revocation to a server that was offline for it. Set'',
      ''# acl_authority on the server that owns the galaxy's keys and'',
      ''# acl_replaceable on each that accepts them, and the owner's offer'',
      ''# becomes the whole list, held exactly '' @ em_dash @ '' which does remove. Both'',
      ''# ends must agree, and setting both on one server is refused.'', ''#acl_authority = false'',
      ''#acl_replaceable = false'', ''# Off for a galaxy of self-signed instances, which is what'', ''# --setup produces.'',
      ''#verify_tls = true'', [], ''# A peer written into the list below is shown in the interface but'',
      ''# not editable there, since a change made there would last only'',
      ''# until the next restart. Prefer adding them above.'', ''#peers = ['',
      ''#  { url = '' @ dquote @ ''https://node-a.example:9999'' @ dquote @ '', key = '' @ dquote @ ''...'' @ dquote @ '' },'',
      ''#  { url = '' @ dquote @ ''https://node-b.example:9999'' @ dquote @ '', key = '' @ dquote @ ''...'' @ dquote @ '', namespaces = ['' @ dquote @ ''feeds'' @ dquote @ ''] },'',
      ''#]'']"

definition config_lines :: "plan \<Rightarrow> string list" where
  "config_lines p =
     config_listening p @ config_tls_lines p @ config_upkeep p @ config_naming p @ config_storing p @
     (if Mode_forwards (pl_mode p) then config_peers p else [])"

definition Plan_config_toml :: "plan \<Rightarrow> string" where
  "Plan_config_toml p = lines_text (config_lines p)"

section \<open>What is shown first\<close>

definition Plan_describe :: "plan \<Rightarrow> string" where
  "Plan_describe p =
     lines_text
       ([''SightingDB will be installed '' @ (case pl_scope p of ScopeSystem \<Rightarrow> ''system-wide'' | ScopeUser \<Rightarrow> ''for the current user only'') @
         '' using '' @ Platform_service_manager (pl_platform p) @ ''.'' @ nl] @
        (case pl_service_user p of
           Some user \<Rightarrow> if pl_create_user p then [''  create the system user   '' @ user] else []
         | None \<Rightarrow> []) @
        [''  configuration            '' @ pl_config_path p,
         ''  API keys                 '' @ pl_acl_path p,
         ''  namespace tiers          '' @ pl_tiers_path p,
         ''  logging configuration    '' @ pl_log_config_path p,
         ''  database                 '' @ pl_dbdir p] @
        (case pl_tls p of
           Some tls \<Rightarrow> [''  self-signed certificate  '' @ tls_cert tls, ''  its private key          '' @ tls_key tls]
         | None \<Rightarrow> [''  TLS                      off (plain HTTP)'']) @
        (if pl_install_service p
         then [''  service                  '' @ pl_service_path p, ''  binary                   '' @ pl_binary p] else []) @
        [nl @ ''  listening on             '' @ (if pl_tls p \<noteq> None then ''https'' else ''http'') @ ''://'' @ pl_listen_ip p @ '':'' @
           show_nat (unat (pl_listen_port p)),
         ''  API authentication       '' @ (if pl_authenticate p then ''on'' else ''off''),
         ''  running as               '' @ Mode_label (pl_mode p),
         (case pl_namespaces p of
            None \<Rightarrow> ''  stores                   every namespace''
          | Some held \<Rightarrow> if held = [] then ''  stores                   nothing of its own; forwards to its peers''
                         else ''  stores                   '' @ join '', '' held)] @
        (if Mode_in_galaxy (pl_mode p) then [''  known in the galaxy as   '' @ pl_node_id p] else []) @
        (if Mode_forwards (pl_mode p)
         then [nl @ ''It starts with no peers, because a peer's key comes from that peer's own'',
               ''ACL, which does not exist until it is set up. Install the other servers,'',
               ''create a key on each for this one, then add them under Galaxy in the'',
               ''management interface '' @ em_dash @ '' they take effect at once and are remembered in'',
               pl_peers_path p @ ''.'', [],
               ''Until then it has no peers, so it reports itself as a node rather than'',
               Mode_label (pl_mode p) @ '' '' @ em_dash @ '' which is what it is until they are added.'']
         else []))"

end
