(* ===== verification/Setup.thy ===== *)
theory Setup
  imports Plan
begin

text \<open>
  \<^verbatim>\<open>src/src/setup.rs\<close>: installing the server, taking stock of an installation, controlling its service and taking it
  away again, with \<^verbatim>\<open>install_self_signed\<close> of \<^verbatim>\<open>src/src/tls.rs\<close>.

  The file system is a state, \<open>fsys\<close>: files with their bytes and modes, directories, and the commands that were run.
  What the system answers to each attempt is the record \<open>system\<close>: any operation may be refused, and a write that
  fails may leave anything in the file it was writing to. Commands of other programs change no file of this model.
  Paths have no symbolic links in them but for what \<open>canonicalize\<close> answers. What is typed is a list of lines, after
  which the input has ended. What is only printed is left out.
\<close>

section \<open>The system\<close>

text \<open>\<open>fx_input\<close> is what is still to be typed: a line that cannot be read is \<open>None\<close>.\<close>

record fsys =
  fx_files :: "(string, string) fmap"
  fx_dirs :: "string fset"
  fx_modes :: "(string, nat) fmap"
  fx_ran :: "string list list"
  fx_input :: "string option list"

text \<open>What becomes of a write: all of it, none of it, or a failure that leaves something else.\<close>

datatype put_answer = PutWritten | PutRefused | PutCut string

record system =
  sys_config :: config_env
  sys_os :: string
  sys_home :: "string option"
  sys_exe :: "string option"
  sys_hostname :: "string option"
  sys_uid :: string
  sys_user_root :: bool
  sys_pid :: nat
  sys_canonical :: "string \<Rightarrow> string option"
  sys_mkdir :: "string \<Rightarrow> bool"
  sys_put :: "string \<Rightarrow> put_answer"
  sys_chmod :: "string \<Rightarrow> bool"
  sys_unlink :: "string \<Rightarrow> string option"
  sys_rmdir :: "string \<Rightarrow> bool"
  sys_exec :: "string list \<Rightarrow> (bool \<times> string \<times> string) option"
  sys_generate :: "(string \<times> string) option"

datatype setup_error =
    MkdirFailed string | PutFailed string | ModeFailed string | CopyFailed string | CommandFailed "string list"
  | KeyGenerationFailed | AlreadyThere string
  | NoHome | NoExecutable | AnswerUnreadable | UnknownPlatform string | NotATerminal
  | ServiceThere "string list" | ConfigNotLoaded config_error | UnknownAction string | NoService

type_synonym 'a step = "fsys \<Rightarrow> fsys \<times> (setup_error + 'a)"

definition yields :: "'a \<Rightarrow> 'a step" where
  "yields x fs = (fs, Inr x)"

definition fails :: "setup_error \<Rightarrow> 'a step" where
  "fails e fs = (fs, Inl e)"

definition and_then :: "'a step \<Rightarrow> ('a \<Rightarrow> 'b step) \<Rightarrow> 'b step" where
  "and_then m f fs = (case m fs of (fs, Inl e) \<Rightarrow> (fs, Inl e) | (fs, Inr x) \<Rightarrow> f x fs)"

definition path_exists :: "fsys \<Rightarrow> string \<Rightarrow> bool" where
  "path_exists fs p \<longleftrightarrow> fm_contains (fx_files fs) p \<or> p |\<in>| fx_dirs fs"

lemma trim_end_slashes_length: "length (trim_end_slashes p) \<le> length p"
  by (metis trim_end_slashes_def length_dropWhile_le length_rev)

lemma path_parent_shorter: "path_parent p = Some d \<Longrightarrow> length d < length p"
proof -
  assume d: "path_parent p = Some d"
  let ?q = "trim_end_slashes p"
  have q: "?q \<noteq> []" "length ?q \<le> length p" using d trim_end_slashes_length by (auto simp: path_parent_def Let_def split: if_splits)
  have last: "hd (rev ?q) \<noteq> CHR ''/''"
    using q(1) hd_dropWhile [of "\<lambda>c. c = CHR ''/''" "rev p"] by (simp add: trim_end_slashes_def)
  then obtain c cs where rq: "rev ?q = c # cs" "c \<noteq> CHR ''/''" using q(1) by (cases "rev ?q") auto
  have short: "length (dropWhile (\<lambda>c. c \<noteq> CHR ''/'') (rev ?q)) \<le> length cs"
    using rq length_dropWhile_le [of "\<lambda>c. c \<noteq> CHR ''/''" cs] by simp
  have len: "length ?q = Suc (length cs)" using rq(1) by (metis length_Cons length_rev)
  show ?thesis
  proof (cases "CHR ''/'' \<in> set ?q")
    case True
    then have "cs \<noteq> []" using rq by (metis list.set_intros(1) set_ConsD set_rev empty_iff list.set(1))
    then have "1 < length p" using len q(2) by (cases cs) auto
    then show ?thesis
      using d True q short len trim_end_slashes_length [of "rev (dropWhile (\<lambda>c. c \<noteq> CHR ''/'') (rev ?q))"]
      by (auto simp: path_parent_def Let_def split: if_splits)
  next
    case False
    then show ?thesis using d q len by (auto simp: path_parent_def Let_def split: if_splits)
  qed
qed

text \<open>A directory and those above it.\<close>

function ancestors :: "string \<Rightarrow> string list" where
  "ancestors p = p # (case path_parent p of None \<Rightarrow> [] | Some d \<Rightarrow> if d = [] then [] else ancestors d)"
  by pat_completeness auto
termination
  by (relation "measure length") (auto dest: path_parent_shorter)

declare ancestors.simps [simp del]

definition create_dir_all :: "system \<Rightarrow> string \<Rightarrow> unit step" where
  "create_dir_all sys p fs =
     (if sys_mkdir sys p \<and> \<not> list_ex (fm_contains (fx_files fs)) (ancestors p)
      then (fs\<lparr>fx_dirs := fx_dirs fs |\<union>| fset_of_list (ancestors p)\<rparr>, Inr ())
      else (fs, Inl (MkdirFailed p)))"

definition put_bytes :: "system \<Rightarrow> string \<Rightarrow> string \<Rightarrow> unit step" where
  "put_bytes sys p body fs =
     (if p |\<in>| fx_dirs fs then (fs, Inl (PutFailed p))
      else case sys_put sys p of
             PutWritten \<Rightarrow> (fs\<lparr>fx_files := fmupd p body (fx_files fs)\<rparr>, Inr ())
           | PutRefused \<Rightarrow> (fs, Inl (PutFailed p))
           | PutCut part \<Rightarrow> (fs\<lparr>fx_files := fmupd p part (fx_files fs)\<rparr>, Inl (PutFailed p)))"

definition set_mode :: "system \<Rightarrow> string \<Rightarrow> nat \<Rightarrow> unit step" where
  "set_mode sys p mode fs =
     (if sys_chmod sys p then (fs\<lparr>fx_modes := fmupd p mode (fx_modes fs)\<rparr>, Inr ()) else (fs, Inl (ModeFailed p)))"

definition exec :: "system \<Rightarrow> string list \<Rightarrow> fsys \<Rightarrow> fsys \<times> (bool \<times> string \<times> string) option" where
  "exec sys command fs = (fs\<lparr>fx_ran := fx_ran fs @ [command]\<rparr>, sys_exec sys command)"

definition run_command :: "system \<Rightarrow> string list \<Rightarrow> unit step" where
  "run_command sys command fs =
     (case exec sys command fs of
        (fs, Some (True, _)) \<Rightarrow> (fs, Inr ())
      | (fs, _) \<Rightarrow> (fs, Inl (CommandFailed command)))"

definition setup_write_file :: "system \<Rightarrow> string \<Rightarrow> string \<Rightarrow> nat \<Rightarrow> unit step" where
  "setup_write_file sys p body mode =
     and_then (case path_parent p of Some d \<Rightarrow> create_dir_all sys d | None \<Rightarrow> yields ()) (\<lambda>_.
     and_then (put_bytes sys p body) (\<lambda>_.
     set_mode sys p mode))"

definition write_unless_kept :: "system \<Rightarrow> string \<Rightarrow> string \<Rightarrow> nat \<Rightarrow> string \<Rightarrow> (string \<Rightarrow> string \<Rightarrow> bool step) \<Rightarrow> unit step" where
  "write_unless_kept sys p body mode what decide fs =
     (if path_exists fs p
      then and_then (decide p what) (\<lambda>replace. if replace then setup_write_file sys p body mode else yields ()) fs
      else setup_write_file sys p body mode fs)"

section \<open>Carrying out a plan\<close>

definition create_service_user :: "system \<Rightarrow> unit step" where
  "create_service_user sys fs =
     (case exec sys [''id'', SERVICE_USER] fs of
        (fs, Some (True, _)) \<Rightarrow> (fs, Inr ())
      | (fs, _) \<Rightarrow> run_command sys [''useradd'', ''--system'', ''--no-create-home'', ''--shell'', ''/usr/sbin/nologin'', SERVICE_USER] fs)"

definition chown :: "system \<Rightarrow> string \<Rightarrow> string \<Rightarrow> unit step" where
  "chown sys p user = run_command sys [''chown'', ''-R'', user @ '':'' @ user, p]"

text \<open>\<open>write_private\<close> opens the file anew, readable by its owner alone.\<close>

definition write_private :: "system \<Rightarrow> string \<Rightarrow> string \<Rightarrow> unit step" where
  "write_private sys p body =
     and_then (case path_parent p of Some d \<Rightarrow> create_dir_all sys d | None \<Rightarrow> yields ()) (\<lambda>_ fs.
       if path_exists fs p then (fs, Inl (AlreadyThere p))
       else and_then (\<lambda>fs. put_bytes sys p body (fs\<lparr>fx_modes := fmupd p 384 (fx_modes fs)\<rparr>)) yields fs)"

definition install_self_signed :: "system \<Rightarrow> tls_settings \<Rightarrow> unit step" where
  "install_self_signed sys tls fs =
     (if path_exists fs (tls_cert tls) then (fs, Inl (AlreadyThere (tls_cert tls)))
      else if path_exists fs (tls_key tls) then (fs, Inl (AlreadyThere (tls_key tls)))
      else case sys_generate sys of
             None \<Rightarrow> (fs, Inl KeyGenerationFailed)
           | Some (certificate, key) \<Rightarrow>
               and_then (write_private sys (tls_key tls) key) (\<lambda>_.
               and_then (case path_parent (tls_cert tls) of Some d \<Rightarrow> create_dir_all sys d | None \<Rightarrow> yields ()) (\<lambda>_.
               put_bytes sys (tls_cert tls) certificate)) fs)"

definition install_binary :: "system \<Rightarrow> plan \<Rightarrow> unit step" where
  "install_binary sys p fs =
     (case sys_exe sys of
        None \<Rightarrow> (fs, Inl NoExecutable)
      | Some current \<Rightarrow>
          if current = pl_binary p then (fs, Inr ())
          else and_then (case path_parent (pl_binary p) of Some d \<Rightarrow> create_dir_all sys d | None \<Rightarrow> yields ()) (\<lambda>_.
               and_then (\<lambda>fs. case fmlookup (fx_files fs) current of
                                None \<Rightarrow> (fs, Inl (CopyFailed (pl_binary p)))
                              | Some body \<Rightarrow> put_bytes sys (pl_binary p) body fs) (\<lambda>_.
               set_mode sys (pl_binary p) 493)) fs)"

definition start_service :: "system \<Rightarrow> plan \<Rightarrow> unit step" where
  "start_service sys p =
     (case pl_platform p of
        PlatformLinux \<Rightarrow>
          let user_flag = (if pl_scope p = ScopeUser then [''--user''] else [])
          in and_then (run_command sys ([''systemctl''] @ user_flag @ [''daemon-reload''])) (\<lambda>_.
             run_command sys ([''systemctl''] @ user_flag @ [''enable'', ''--now'', ''sightingdb'']))
      | PlatformMacOs \<Rightarrow>
          let domain = (if pl_scope p = ScopeUser then ''gui/'' @ sys_uid sys else ''system'')
          in (\<lambda>fs. run_command sys [''launchctl'', ''bootstrap'', domain, pl_service_path p]
                    (fst (run_command sys [''launchctl'', ''bootout'', domain @ ''/'' @ LAUNCHD_LABEL] fs))))"

record applied =
  wrote_admin_key :: bool

definition write_keys :: "system \<Rightarrow> plan \<Rightarrow> bool step" where
  "write_keys sys p fs =
     (if path_exists fs (pl_acl_path p) then (fs, Inr False)
      else and_then (setup_write_file sys (pl_acl_path p) (Acl_to_toml (Acl_grant_full Acl_new (pl_admin_key p))) 384) (\<lambda>_. yields True) fs)"

definition write_certificate :: "system \<Rightarrow> plan \<Rightarrow> unit step" where
  "write_certificate sys p fs =
     (case pl_tls p of
        None \<Rightarrow> (fs, Inr ())
      | Some tls \<Rightarrow> if path_exists fs (tls_cert tls) \<or> path_exists fs (tls_key tls) then (fs, Inr ()) else install_self_signed sys tls fs)"

definition only_if :: "bool \<Rightarrow> unit step \<Rightarrow> unit step" where
  "only_if b m = (if b then m else yields ())"

definition setup_apply :: "system \<Rightarrow> plan \<Rightarrow> (string \<Rightarrow> string \<Rightarrow> bool step) \<Rightarrow> applied step" where
  "setup_apply sys p decide =
     and_then (only_if (pl_create_user p) (create_service_user sys)) (\<lambda>_.
     and_then (create_dir_all sys (pl_config_dir p)) (\<lambda>_.
     and_then (create_dir_all sys (pl_dbdir p)) (\<lambda>_.
     and_then (write_unless_kept sys (pl_config_path p) (Plan_config_toml p) 416 ''A configuration'' decide) (\<lambda>_.
     and_then (write_unless_kept sys (pl_log_config_path p) LOG_CONFIG 420 ''A logging configuration'' decide) (\<lambda>_.
     and_then (write_keys sys p) (\<lambda>wrote.
     and_then (write_certificate sys p) (\<lambda>_.
     and_then (set_mode sys (pl_dbdir p) 488) (\<lambda>_.
     and_then (set_mode sys (pl_config_dir p) 488) (\<lambda>_.
     and_then (case pl_service_user p of
                 Some user \<Rightarrow> only_if (pl_create_user p) (and_then (chown sys (pl_dbdir p) user) (\<lambda>_. chown sys (pl_config_dir p) user))
               | None \<Rightarrow> yields ()) (\<lambda>_.
     and_then (only_if (pl_install_service p)
                (and_then (install_binary sys p) (\<lambda>_.
                 and_then (write_unless_kept sys (pl_service_path p) (service_unit p) 420 ''A service unit'' decide) (\<lambda>_.
                 only_if (pl_start_service p) (start_service sys p))))) (\<lambda>_.
     yields \<lparr>wrote_admin_key = wrote\<rparr>)))))))))))"

end
