(* ===== verification/Installed.thy ===== *)
theory Installed
  imports Setup
begin

text \<open>
  \<^verbatim>\<open>src/src/setup.rs\<close>, the rest: what an installation consists of, starting and stopping its service, taking it away,
  and the questions a plan is made from.
\<close>

section \<open>Taking stock\<close>

datatype installed_kind = KindData | KindService | KindConfig | KindOther

record installed =
  in_what :: string
  in_path :: string
  in_note :: string
  in_private :: bool
  in_owned :: bool
  in_kind :: installed_kind

definition path_file_name :: "string \<Rightarrow> string option" where
  "path_file_name p =
     (let segs = filter (\<lambda>s. s \<noteq> []) (split_on CHR ''/'' p)
      in if segs = [] \<or> List.last segs = ''..'' then None else Some (List.last segs))"

text \<open>The loop of \<open>full\<close>: as much as exists is resolved, the rest appended.\<close>

function full_loop :: "system \<Rightarrow> string \<Rightarrow> string list \<Rightarrow> string option" where
  "full_loop sys cursor missing =
     (case path_parent cursor of
        None \<Rightarrow> None
      | Some parent \<Rightarrow>
          let missing = (case path_file_name cursor of Some name \<Rightarrow> missing @ [name] | None \<Rightarrow> missing)
          in case sys_canonical sys parent of
               Some real \<Rightarrow> Some (foldl path_joined real (rev missing))
             | None \<Rightarrow> full_loop sys parent missing)"
  by pat_completeness auto
termination
  by (relation "measure (\<lambda>(_, cursor, _). length cursor)") (auto dest: path_parent_shorter)

declare full_loop.simps [simp del]

definition full_path :: "system \<Rightarrow> string \<Rightarrow> string" where
  "full_path sys p =
     (case sys_canonical sys p of
        Some real \<Rightarrow> real
      | None \<Rightarrow>
          let absolute = unwrap_or (ce_absolute (sys_config sys) p) p
          in unwrap_or (full_loop sys absolute []) absolute)"

definition service_candidates :: "system \<Rightarrow> string list" where
  "service_candidates sys =
     (case Platform_detect (sys_os sys) of
        Some PlatformLinux \<Rightarrow>
          ''/etc/systemd/system/sightingdb.service'' #
          (case sys_home sys of Some home \<Rightarrow> [path_joined home ''.config/systemd/user/sightingdb.service''] | None \<Rightarrow> [])
      | Some PlatformMacOs \<Rightarrow>
          concat (map (\<lambda>label. (''/Library/LaunchDaemons/'' @ label @ ''.plist'') #
            (case sys_home sys of Some home \<Rightarrow> [path_joined home (''Library/LaunchAgents/'' @ label @ ''.plist'')] | None \<Rightarrow> []))
            [LAUNCHD_LABEL, LAUNCHD_LEGACY_LABEL])
      | None \<Rightarrow> [])"

text \<open>\<open>logging_candidates\<close> of \<^verbatim>\<open>src/src/main.rs\<close>.\<close>

definition logging_candidates :: "system \<Rightarrow> string list" where
  "logging_candidates sys =
     [''/etc/sightingdb/log4rs.yml''] @
     (case sys_home sys of Some home \<Rightarrow> [path_joined (path_joined home ''.sightingdb'') ''log4rs.yml''] | None \<Rightarrow> []) @ [''etc/log4rs.yml'']"

definition entry_of :: "string \<Rightarrow> string \<Rightarrow> string \<Rightarrow> bool \<Rightarrow> bool \<Rightarrow> installed_kind \<Rightarrow> installed" where
  "entry_of what p note private owned kind =
     \<lparr>in_what = what, in_path = p, in_note = note, in_private = private, in_owned = owned, in_kind = kind\<rparr>"

definition logging_entries :: "system \<Rightarrow> fsys \<Rightarrow> string \<Rightarrow> string option \<Rightarrow> installed list" where
  "logging_entries sys fs config_path logging_config =
     (case (case logging_config of Some l \<Rightarrow> Some l | None \<Rightarrow> find (path_exists fs) (logging_candidates sys)) of
        None \<Rightarrow> []
      | Some logging \<Rightarrow>
          let ours = (path_parent logging = path_parent config_path)
          in [entry_of ''logging config'' logging (if ours then [] else ''not this installation's; --erase leaves it'') False ours KindConfig])"

definition file_entries :: "string \<Rightarrow> settings \<Rightarrow> installed list" where
  "file_entries config_path s =
     (case set_acl_file s of
        Some acl \<Rightarrow> [entry_of ''API keys'' acl ''rewritten when a key is saved'' True True KindConfig]
      | None \<Rightarrow> [entry_of ''API keys'' config_path ''no acl_file: the keys are in the [acl] section of it'' True False KindConfig]) @
     (case set_tiers_file s of
        Some tiers \<Rightarrow> [entry_of ''tiers'' tiers ''written when a tier is changed'' False True KindConfig]
      | None \<Rightarrow> []) @
     (case set_tls s of
        Some tls \<Rightarrow> [entry_of ''TLS certificate'' (tls_cert tls) [] False True KindConfig, entry_of ''TLS key'' (tls_key tls) [] True True KindConfig]
      | None \<Rightarrow> []) @
     (case set_dbdir s of Some dbdir \<Rightarrow> [entry_of ''database'' dbdir [] False True KindData] | None \<Rightarrow> []) @
     (if set_daemonize s
      then map (\<lambda>(what, p). entry_of what p [] False True KindData)
             (filter (\<lambda>(_, p). p \<noteq> ''/dev/null'') [(''stdout log'', set_log_out s), (''stderr log'', set_log_err s)])
      else [])"

definition service_entries :: "system \<Rightarrow> fsys \<Rightarrow> string \<Rightarrow> installed list" where
  "service_entries sys fs config_path =
     (let there = filter (path_exists fs) (service_candidates sys);
          entry = (\<lambda>p.
            let ours = (case fmlookup (fx_files fs) p of
                          Some body \<Rightarrow> valid_utf8 body \<and> (contains_str body config_path \<or> contains_str body (full_path sys config_path))
                        | None \<Rightarrow> False)
            in entry_of ''service'' p (if ours then [] else ''runs a different configuration; --erase leaves it'') False ours KindService)
      in if there \<noteq> [] then map entry there
         else (case service_candidates sys of
                 p # _ \<Rightarrow> [entry_of ''service'' p ''not installed; `--setup` can add one'' False False KindService]
               | [] \<Rightarrow> []))"

definition inventory :: "system \<Rightarrow> fsys \<Rightarrow> string \<Rightarrow> string option \<Rightarrow> setup_error + installed list" where
  "inventory sys fs config_path logging_config =
     (case Settings_load (sys_config sys) config_path of
        Inl e \<Rightarrow> Inl (ConfigNotLoaded e)
      | Inr s \<Rightarrow>
          Inr (map (\<lambda>entry. entry\<lparr>in_path := full_path sys (in_path entry)\<rparr>)
            (entry_of ''configuration'' config_path [] False True KindConfig #
             logging_entries sys fs config_path logging_config @
             file_entries config_path s @
             (case sys_exe sys of Some binary \<Rightarrow> [entry_of ''binary'' binary ''left alone by --erase'' False False KindOther] | None \<Rightarrow> []) @
             service_entries sys fs config_path)))"

definition refuse_if_a_service_exists :: "system \<Rightarrow> fsys \<Rightarrow> setup_error + unit" where
  "refuse_if_a_service_exists sys fs =
     (let there = filter (path_exists fs) (service_candidates sys) in if there = [] then Inr () else Inl (ServiceThere there))"

section \<open>The service\<close>

datatype service_action = ActionStart | ActionStop | ActionRestart | ActionRemove

definition ServiceAction_parse :: "string \<Rightarrow> setup_error + service_action" where
  "ServiceAction_parse raw =
     (if raw = ''start'' then Inr ActionStart else if raw = ''stop'' then Inr ActionStop
      else if raw = ''restart'' then Inr ActionRestart else Inl (UnknownAction raw))"

definition is_user_service :: "string \<Rightarrow> bool" where
  "is_user_service p \<longleftrightarrow> contains_str p ''/.config/'' \<or> contains_str p ''/Library/LaunchAgents/''"

definition service_commands :: "system \<Rightarrow> string \<Rightarrow> service_action \<Rightarrow> string list list" where
  "service_commands sys p action =
     (let user = is_user_service p
      in if ends_with p ''.plist'' then
           let domain = (if user then ''gui/'' @ sys_uid sys else ''system''); target = domain @ ''/'' @ LAUNCHD_LABEL
           in case action of
                ActionRestart \<Rightarrow> [[''launchctl'', ''kickstart'', ''-k'', target], [''launchctl'', ''unload'', ''-w'', p], [''launchctl'', ''load'', ''-w'', p]]
              | ActionStart \<Rightarrow> [[''launchctl'', ''bootstrap'', domain, p], [''launchctl'', ''load'', ''-w'', p]]
              | ActionStop \<Rightarrow> [[''launchctl'', ''bootout'', target], [''launchctl'', ''unload'', ''-w'', p]]
              | ActionRemove \<Rightarrow> [[''launchctl'', ''bootout'', target], [''launchctl'', ''unload'', ''-w'', p]]
         else
           let systemctl = (\<lambda>verb. [''systemctl''] @ (if user then [''--user''] else []) @ [verb, ''sightingdb''])
           in case action of
                ActionStart \<Rightarrow> [systemctl ''start'']
              | ActionStop \<Rightarrow> [systemctl ''stop'']
              | ActionRestart \<Rightarrow> [systemctl ''restart'']
              | ActionRemove \<Rightarrow> [systemctl ''stop'', systemctl ''disable''])"

fun run_commands :: "system \<Rightarrow> bool \<Rightarrow> string list list \<Rightarrow> fsys \<Rightarrow> fsys" where
  "run_commands sys all_of_them [] fs = fs"
| "run_commands sys all_of_them (command # commands) fs =
     (case exec sys command fs of
        (fs, Some (True, _)) \<Rightarrow> if all_of_them then run_commands sys all_of_them commands fs else fs
      | (fs, _) \<Rightarrow> run_commands sys all_of_them commands fs)"

definition run_service_commands :: "system \<Rightarrow> string \<Rightarrow> service_action \<Rightarrow> fsys \<Rightarrow> fsys" where
  "run_service_commands sys p action =
     run_commands sys (action = ActionRemove \<or> \<not> ends_with p ''.plist'') (service_commands sys p action)"

definition stop_service :: "system \<Rightarrow> string \<Rightarrow> fsys \<Rightarrow> fsys" where
  "stop_service sys p = run_service_commands sys p ActionRemove"

definition installed_service :: "fsys \<Rightarrow> installed list \<Rightarrow> installed option" where
  "installed_service fs entries = find (\<lambda>entry. in_what entry = ''service'' \<and> path_exists fs (in_path entry)) entries"

definition service_control :: "system \<Rightarrow> string \<Rightarrow> string option \<Rightarrow> string \<Rightarrow> unit step" where
  "service_control sys config_path logging_config action fs =
     (case ServiceAction_parse action of
        Inl e \<Rightarrow> (fs, Inl e)
      | Inr act \<Rightarrow>
          (case inventory sys fs config_path logging_config of
             Inl e \<Rightarrow> (fs, Inl e)
           | Inr entries \<Rightarrow>
               (case installed_service fs entries of
                  None \<Rightarrow> (fs, Inl NoService)
                | Some service \<Rightarrow> (run_service_commands sys (in_path service) act fs, Inr ()))))"

definition u32_from_str :: "string \<Rightarrow> nat option" where
  "u32_from_str s = (case u64_from_str s of Some n \<Rightarrow> if unat n < 2 ^ 32 then Some (unat n) else None | None \<Rightarrow> None)"

definition stop_processes :: "system \<Rightarrow> string \<Rightarrow> fsys \<Rightarrow> fsys" where
  "stop_processes sys config_path fs =
     (case exec sys [''pgrep'', ''-f'', config_path] fs of
        (fs, None) \<Rightarrow> fs
      | (fs, Some (_, out, _)) \<Rightarrow>
          let pids = map show_nat (filter (\<lambda>pid. pid \<noteq> sys_pid sys)
                       (List.map_filter (\<lambda>line. u32_from_str (trim line)) (split_on CHR 0x0A (from_utf8_lossy out))))
          in if pids = [] then fs
             else let fs = fst (exec sys (''kill'' # pids) fs);
                      still = filter (\<lambda>pid. case sys_exec sys [''kill'', ''-0'', pid] of Some (True, _) \<Rightarrow> True | _ \<Rightarrow> False) pids;
                      fs = fs\<lparr>fx_ran := fx_ran fs @ map (\<lambda>pid. [''kill'', ''-0'', pid]) pids\<rparr>
                  in if still = [] then fs else fst (exec sys ([''kill'', ''-9''] @ still) fs))"

section \<open>Taking it away\<close>

definition ERASE_WORD :: string where "ERASE_WORD = ''erase''"

definition ask_to_erase :: "bool \<Rightarrow> string \<Rightarrow> setup_error + bool" where
  "ask_to_erase terminal answer = (if \<not> terminal then Inl NotATerminal else Inr (trim answer = ERASE_WORD))"

text \<open>What persistence writes.\<close>

definition snapshot_name :: "string \<Rightarrow> bool" where
  "snapshot_name name \<longleftrightarrow> ends_with name ''.json.zst'' \<or> ends_with name ''.json'' \<or> ends_with name ''.tmp''"

definition children_of :: "fsys \<Rightarrow> string \<Rightarrow> string list" where
  "children_of fs dir = filter (\<lambda>p. path_parent p = Some dir) (fm_keys (fx_files fs) @ sorted_list_of_fset (fx_dirs fs))"

fun remove_children :: "system \<Rightarrow> string list \<Rightarrow> nat \<Rightarrow> nat \<Rightarrow> fsys \<Rightarrow> fsys \<times> (string + nat \<times> nat)" where
  "remove_children sys [] removed left fs = (fs, Inr (removed, left))"
| "remove_children sys (child # children) removed left fs =
     (if snapshot_name (unwrap_or (path_file_name child) []) \<and> fm_contains (fx_files fs) child
      then (case sys_unlink sys child of
              Some e \<Rightarrow> (fs, Inl e)
            | None \<Rightarrow> remove_children sys children (removed + 1) left (fs\<lparr>fx_files := fmdrop child (fx_files fs)\<rparr>))
      else remove_children sys children removed (left + 1) fs)"

definition remove_path :: "system \<Rightarrow> string \<Rightarrow> fsys \<Rightarrow> fsys \<times> (string + string)" where
  "remove_path sys p fs =
     (if fm_contains (fx_files fs) p
      then (case sys_unlink sys p of
              Some _ \<Rightarrow> (fs, Inl (''removing '' @ p))
            | None \<Rightarrow> (fs\<lparr>fx_files := fmdrop p (fx_files fs)\<rparr>, Inr []))
      else if p |\<in>| fx_dirs fs
      then (case remove_children sys (children_of fs p) 0 0 fs of
              (fs, Inl e) \<Rightarrow> (fs, Inl e)
            | (fs, Inr (removed, left)) \<Rightarrow>
                if left = 0
                then (if sys_rmdir sys p
                      then (fs\<lparr>fx_dirs := fx_dirs fs |-| {|p|}\<rparr>, Inr (''('' @ show_nat removed @ '' snapshot file(s))''))
                      else (fs, Inl (''removing '' @ p)))
                else (fs, Inr (''('' @ show_nat removed @ '' snapshot file(s); '' @ show_nat left @ '' other file(s) left, so the directory stays)'')))
      else (fs, Inl (''reading '' @ p)))"

definition NEVER_TIDIED :: "string list" where
  "NEVER_TIDIED = [''/'', ''/etc'', ''/var'', ''/usr'', ''/opt'', ''/tmp'', ''/var/lib'', ''/usr/local'', ''/usr/local/etc'', ''/usr/local/var'']"

text \<open>The components of an absolute path: its root and its segments.\<close>

definition path_depth :: "string \<Rightarrow> nat" where
  "path_depth p = (if starts_with p ''/'' then 1 else 0) + length (filter (\<lambda>s. s \<noteq> [] \<and> s \<noteq> ''.'') (split_on CHR ''/'' p))"

definition safe_to_tidy :: "system \<Rightarrow> string \<Rightarrow> bool" where
  "safe_to_tidy sys dir \<longleftrightarrow> dir \<notin> set NEVER_TIDIED \<and> sys_home sys \<noteq> Some dir \<and> path_depth dir > 2"

fun tidy_dirs :: "system \<Rightarrow> string list \<Rightarrow> string list \<Rightarrow> string list" where
  "tidy_dirs sys [] dirs = dirs"
| "tidy_dirs sys (dir # rest) dirs =
     tidy_dirs sys rest (if dir = [] \<or> \<not> safe_to_tidy sys dir \<or> dir \<in> set dirs then dirs else dirs @ [dir])"

definition tidy_candidates :: "system \<Rightarrow> installed list \<Rightarrow> string list" where
  "tidy_candidates sys entries =
     sort_key (\<lambda>dir. - int (path_depth dir))
       (tidy_dirs sys (concat (map (\<lambda>entry.
          case path_parent (in_path entry) of
            Some parent \<Rightarrow> [parent, unwrap_or (path_parent parent) []]
          | None \<Rightarrow> []) entries)) [])"

fun tidy :: "system \<Rightarrow> string list \<Rightarrow> fsys \<Rightarrow> fsys \<times> string list" where
  "tidy sys [] fs = (fs, [])"
| "tidy sys (dir # dirs) fs =
     (if dir |\<in>| fx_dirs fs \<and> children_of fs dir = [] \<and> sys_rmdir sys dir
      then (case tidy sys dirs (fs\<lparr>fx_dirs := fx_dirs fs |-| {|dir|}\<rparr>) of (fs, gone) \<Rightarrow> (fs, dir # gone))
      else tidy sys dirs fs)"

definition goes :: "fsys \<Rightarrow> bool \<Rightarrow> installed \<Rightarrow> bool" where
  "goes fs hard entry \<longleftrightarrow> in_owned entry \<and> path_exists fs (in_path entry) \<and>
     (case in_kind entry of KindData \<Rightarrow> True | KindService \<Rightarrow> True | KindConfig \<Rightarrow> hard | KindOther \<Rightarrow> False)"

fun remove_all :: "system \<Rightarrow> installed list \<Rightarrow> fsys \<Rightarrow> fsys \<times> (installed \<times> (string + string)) list" where
  "remove_all sys [] fs = (fs, [])"
| "remove_all sys (entry # entries) fs =
     (case remove_path sys (in_path entry) fs of
        (fs, r) \<Rightarrow> (case remove_all sys entries fs of (fs, rs) \<Rightarrow> (fs, (entry, r) # rs)))"

definition pad16 :: "string \<Rightarrow> string" where
  "pad16 s = s @ replicate (16 - length s) CHR '' ''"

definition erase_summary :: "fsys \<Rightarrow> bool \<Rightarrow> installed list \<Rightarrow> string" where
  "erase_summary fs hard entries =
     (let doomed = filter (goes fs hard) entries;
          kept = filter (\<lambda>entry. path_exists fs (in_path entry) \<and> \<not> goes fs hard entry) entries;
          line = (\<lambda>entry. ''  '' @ pad16 (in_what entry) @ '' '' @ in_path entry @ nl)
      in ''This removes:'' @ nl @ concat (map line doomed) @
         (if kept \<noteq> [] then nl @ ''And leaves:'' @ nl @ concat (map line kept) else []) @
         (if \<not> hard \<and> list_ex (\<lambda>entry. in_kind entry = KindConfig) kept
          then nl @ ''`--erase-hard` removes the configuration, the API keys and the certificate too.'' @ nl else []) @
         nl @ ''The data cannot be recovered afterwards.'')"

text \<open>What erasing reports: nothing when it was not confirmed, else each entry with what became of it and the
  directories tidied away.\<close>

type_synonym erased = "((installed \<times> (string + string)) list \<times> string list) option"

definition erase :: "system \<Rightarrow> string \<Rightarrow> string option \<Rightarrow> bool \<Rightarrow> (string \<Rightarrow> setup_error + bool) \<Rightarrow> erased step" where
  "erase sys config_path logging_config hard confirm fs =
     (case inventory sys fs config_path logging_config of
        Inl e \<Rightarrow> (fs, Inl e)
      | Inr entries \<Rightarrow>
          let service = find (\<lambda>entry. in_what entry = ''service'' \<and> in_owned entry \<and> path_exists fs (in_path entry)) entries;
              doomed = filter (goes fs hard) entries
          in case confirm (erase_summary fs hard entries) of
               Inl e \<Rightarrow> (fs, Inl e)
             | Inr sure \<Rightarrow>
                 if \<not> sure then (fs, Inr None)
                 else let fs = (case service of Some s \<Rightarrow> stop_service sys (in_path s) fs | None \<Rightarrow> fs);
                          fs = stop_processes sys config_path fs;
                          (fs, removed) = remove_all sys doomed fs;
                          (fs, gone) = tidy sys (tidy_candidates sys entries) fs
                      in (fs, Inr (Some (removed, gone))))"

section \<open>Asking\<close>

text \<open>Each question takes a line; an input that has ended reads as empty, which is the default.\<close>

fun ask_line :: "string \<Rightarrow> string option list \<Rightarrow> (setup_error + string) \<times> string option list" where
  "ask_line dflt [] = (Inr dflt, [])"
| "ask_line dflt (None # rest) = (Inl AnswerUnreadable, rest)"
| "ask_line dflt (Some line # rest) = (Inr (if trim line = [] then dflt else trim line), rest)"

text \<open>The loops that ask again. They are given the reading of an answer and the answer the default stands for.\<close>

fun ask_until :: "(string \<Rightarrow> 'a option) \<Rightarrow> 'a \<Rightarrow> string option list \<Rightarrow> (setup_error + 'a) \<times> string option list" where
  "ask_until read dflt [] = (Inr dflt, [])"
| "ask_until read dflt (None # rest) = (Inl AnswerUnreadable, rest)"
| "ask_until read dflt (Some line # rest) =
     (if trim line = [] then (Inr dflt, rest)
      else case read (trim line) of Some x \<Rightarrow> (Inr x, rest) | None \<Rightarrow> ask_until read dflt rest)"

definition asking :: "(string option list \<Rightarrow> (setup_error + 'a) \<times> string option list) \<Rightarrow> 'a step" where
  "asking q fs = (case q (fx_input fs) of (r, input) \<Rightarrow> (fs\<lparr>fx_input := input\<rparr>, r))"

definition ask :: "string \<Rightarrow> string step" where
  "ask dflt = asking (ask_line dflt)"

definition yes_or_no :: "string \<Rightarrow> bool option" where
  "yes_or_no answer =
     (let a = to_ascii_lowercase answer
      in if a = ''y'' \<or> a = ''yes'' then Some True else if a = ''n'' \<or> a = ''no'' then Some False else None)"

definition ask_yes_no :: "bool \<Rightarrow> bool step" where
  "ask_yes_no dflt = asking (ask_until yes_or_no dflt)"

definition ask_replace :: "string \<Rightarrow> string \<Rightarrow> bool step" where
  "ask_replace p what = ask_yes_no False"

definition mode_named :: "string \<Rightarrow> setup_mode option" where
  "mode_named answer =
     (if answer = ''1'' then Some Standalone else if answer = ''2'' then Some Node
      else if answer = ''3'' then Some Router else if answer = ''4'' then Some Both else None)"

definition ask_mode :: "setup_mode step" where
  "ask_mode = asking (ask_until mode_named Standalone)"

definition ask_namespaces :: "setup_mode \<Rightarrow> string list option step" where
  "ask_namespaces mode =
     (if mode = Standalone then yields None
      else if mode = Router then yields (Some [])
      else and_then (ask (if mode = Node then ''/'' else ''feeds'')) (\<lambda>answer.
             let held = filter (\<lambda>part. part \<noteq> []) (map (\<lambda>part. trim_matches CHR ''/'' (trim part)) (split_on CHR '','' answer))
             in yields (if held = [] then None else Some held)))"

text \<open>The first word of a text.\<close>

fun word_at :: "string \<Rightarrow> string" where
  "word_at [] = []"
| "word_at (c # s) = (if ws_len (c # s) > 0 then [] else c # word_at s)"

definition first_word :: "string \<Rightarrow> string option" where
  "first_word s = (let w = word_at (trim s) in if w = [] then None else Some w)"

definition host_char :: "char \<Rightarrow> bool" where
  "host_char c \<longleftrightarrow> is_ascii_alphanumeric c \<or> c = CHR ''-'' \<or> c = CHR ''_''"

definition default_node_id :: "system \<Rightarrow> fsys \<Rightarrow> string" where
  "default_node_id sys fs =
     (let from_file = Option.bind (fmlookup (fx_files fs) ''/etc/hostname'') (\<lambda>body. if valid_utf8 body then first_word body else None);
          name = (case from_file of Some n \<Rightarrow> Some n | None \<Rightarrow> Option.bind (sys_hostname sys) first_word);
          short = map_option (\<lambda>n. take 64 (filter host_char (hd (split_on CHR ''.'' n)))) name
      in case short of Some n \<Rightarrow> if n = [] then LOCAL_NODE else n | None \<Rightarrow> LOCAL_NODE)"

definition KEY_ALPHABET :: string where
  "KEY_ALPHABET = ''abcdefghijklmnopqrstuvwxyzABCDEFGHIJKLMNOPQRSTUVWXYZ0123456789''"

text \<open>\<open>random_key\<close>, with the forty numbers below the size of the alphabet that the generator gives.\<close>

definition random_key :: "nat list \<Rightarrow> string" where
  "random_key picks = map (\<lambda>i. KEY_ALPHABET ! i) picks"

section \<open>The wizard\<close>

definition choose_scope :: "bool \<Rightarrow> scope" where
  "choose_scope root = (if root then ScopeSystem else ScopeUser)"

definition is_root :: "system \<Rightarrow> bool" where
  "is_root sys \<longleftrightarrow> sys_user_root sys \<or> sys_uid sys = ''0''"

definition u16_port :: "string \<Rightarrow> u16 option" where
  "u16_port s = (case u64_from_str s of Some n \<Rightarrow> if unat n < 2 ^ 16 then Some (of_nat (unat n)) else None | None \<Rightarrow> None)"

text \<open>Where the configuration, the database, the service and the binary go.\<close>

definition plan_paths :: "system \<Rightarrow> scope \<Rightarrow> platform \<Rightarrow> (string \<times> string \<times> string \<times> string) step" where
  "plan_paths sys scope platform =
     (case scope of
        ScopeSystem \<Rightarrow>
          (case platform of
             PlatformLinux \<Rightarrow> yields (''/etc/sightingdb'', ''/var/lib/sightingdb'', ''/etc/systemd/system/sightingdb.service'', ''/usr/local/bin/sightingdb'')
           | PlatformMacOs \<Rightarrow> yields (''/usr/local/etc/sightingdb'', ''/usr/local/var/sightingdb'',
               ''/Library/LaunchDaemons/'' @ LAUNCHD_LABEL @ ''.plist'', ''/usr/local/bin/sightingdb''))
      | ScopeUser \<Rightarrow>
          (case sys_home sys of
             None \<Rightarrow> fails NoHome
           | Some home \<Rightarrow>
               (case sys_exe sys of
                  None \<Rightarrow> fails NoExecutable
                | Some binary \<Rightarrow>
                    let config_dir = path_joined home ''.sightingdb''
                    in yields (config_dir, path_joined config_dir ''db'',
                         (case platform of PlatformLinux \<Rightarrow> path_joined home ''.config/systemd/user/sightingdb.service''
                          | PlatformMacOs \<Rightarrow> path_joined home (''Library/LaunchAgents/'' @ LAUNCHD_LABEL @ ''.plist'')), binary))))"

definition build_plan :: "system \<Rightarrow> platform \<Rightarrow> scope \<Rightarrow> bool \<Rightarrow> nat list \<Rightarrow> plan step" where
  "build_plan sys platform scope root picks =
     and_then (plan_paths sys scope platform) (\<lambda>(config_dir, dbdir, service_path, binary).
     and_then ask_mode (\<lambda>mode.
     and_then (ask_namespaces mode) (\<lambda>namespaces.
     and_then (if Mode_in_galaxy mode then (\<lambda>fs. ask (default_node_id sys fs) fs) else yields LOCAL_NODE) (\<lambda>node_id.
     and_then (ask ''127.0.0.1'') (\<lambda>listen_ip.
     and_then (asking (ask_until u16_port 9999)) (\<lambda>listen_port.
     and_then (ask_yes_no True) (\<lambda>use_tls.
     and_then (ask_yes_no True) (\<lambda>authenticate.
     and_then (ask dbdir) (\<lambda>dbdir.
     and_then (ask_yes_no True) (\<lambda>install_service.
     and_then (if install_service then ask_yes_no True else yields False) (\<lambda>start_it.
     yields
       \<lparr>pl_scope = scope, pl_platform = platform,
        pl_service_user = (if scope = ScopeSystem \<and> platform = PlatformLinux then Some SERVICE_USER else None),
        pl_config_dir = config_dir, pl_config_path = path_joined config_dir ''sightingdb.toml'', pl_acl_path = path_joined config_dir ''acl.toml'',
        pl_tiers_path = path_joined config_dir ''tiers.toml'', pl_tags_path = path_joined config_dir ''tags.toml'',
        pl_peers_path = path_joined config_dir ''peers.toml'', pl_log_config_path = path_joined config_dir ''log4rs.yml'', pl_dbdir = dbdir,
        pl_tls = (if use_tls then Some \<lparr>tls_cert = path_joined config_dir ''ssl/cert.pem'', tls_key = path_joined config_dir ''ssl/key.pem''\<rparr> else None),
        pl_listen_ip = listen_ip, pl_listen_port = listen_port, pl_authenticate = authenticate, pl_mode = mode, pl_namespaces = namespaces,
        pl_node_id = node_id, pl_admin_key = random_key picks, pl_binary = binary, pl_service_path = service_path,
        pl_create_user = (scope = ScopeSystem \<and> platform = PlatformLinux \<and> root), pl_install_service = install_service,
        pl_start_service = start_it\<rparr>)))))))))))"

definition lift_sum :: "setup_error + 'a \<Rightarrow> 'a step" where
  "lift_sum r fs = (fs, r)"

definition setup_run :: "system \<Rightarrow> bool \<Rightarrow> nat list \<Rightarrow> (plan \<times> applied) option step" where
  "setup_run sys terminal picks =
     (if \<not> terminal then fails NotATerminal
      else case Platform_detect (sys_os sys) of
             None \<Rightarrow> fails (UnknownPlatform (sys_os sys))
           | Some platform \<Rightarrow>
               and_then (\<lambda>fs. lift_sum (refuse_if_a_service_exists sys fs) fs) (\<lambda>_.
               and_then (build_plan sys platform (choose_scope (is_root sys)) (is_root sys) picks) (\<lambda>p.
               and_then (ask_yes_no True) (\<lambda>go.
                 if \<not> go then yields None
                 else and_then (setup_apply sys p ask_replace) (\<lambda>done_with. yields (Some (p, done_with)))))))"

end
