(* ===== verification/Setup_Laws.thy ===== *)
theory Setup_Laws
  imports Installed Config_Laws
begin

text \<open>
  What installing leaves alone, what erasing takes, and that the name the wizard proposes is one the configuration
  accepts.
\<close>

named_theorems sparing

section \<open>Installing\<close>

text \<open>A step that spares a file leaves it with its bytes if it is there, whether the step succeeds or fails.\<close>

definition spares :: "string \<Rightarrow> 'a step \<Rightarrow> bool" where
  "spares p m \<longleftrightarrow> (\<forall>fs body. fmlookup (fx_files fs) p = Some body \<longrightarrow> fmlookup (fx_files (fst (m fs))) p = Some body)"

lemma sparesD: "spares p m \<Longrightarrow> m fs = (fs', r) \<Longrightarrow> fmlookup (fx_files fs) p = Some body \<Longrightarrow> fmlookup (fx_files fs') p = Some body"
  unfolding spares_def by (metis fst_conv)

lemma spares_and_then [sparing]:
  assumes "spares p m" "\<And>x. spares p (f x)"
  shows "spares p (and_then m f)"
  unfolding spares_def
proof (intro allI impI)
  fix fs :: fsys and body :: string
  assume b: "fmlookup (fx_files fs) p = Some body"
  obtain fs' r where m: "m fs = (fs', r)" by fastforce
  have "fmlookup (fx_files fs') p = Some body" using sparesD [OF assms(1) m b] .
  then show "fmlookup (fx_files (fst (and_then m f fs))) p = Some body"
    using assms(2) m by (cases r) (auto simp: and_then_def spares_def)
qed

lemma spares_quiet: "(\<And>fs. fx_files (fst (m fs)) = fx_files fs) \<Longrightarrow> spares p m"
  by (simp add: spares_def)

lemma quiet_steps:
  "fx_files (fst (yields x fs)) = fx_files fs" "fx_files (fst (create_dir_all sys q fs)) = fx_files fs"
  "fx_files (fst (set_mode sys q mode fs)) = fx_files fs" "fx_files (fst (run_command sys command fs)) = fx_files fs"
  "fx_files (fst (exec sys command fs)) = fx_files fs"
  by (auto simp: yields_def create_dir_all_def set_mode_def run_command_def exec_def split: option.splits prod.splits bool.splits)

lemma spares_steps [sparing]:
  "spares p (yields x)" "spares p (create_dir_all sys q)" "spares p (set_mode sys q mode)" "spares p (run_command sys command)"
  by (rule spares_quiet, rule quiet_steps)+

lemma spares_create_service_user [sparing]: "spares p (create_service_user sys)"
  by (rule spares_quiet)
     (auto simp: create_service_user_def quiet_steps split: prod.splits option.splits bool.splits simp: exec_def)

lemma spares_chown [sparing]: "spares p (chown sys q user)"
  by (simp add: chown_def spares_steps)

lemma spares_only_if [sparing]: "spares p m \<Longrightarrow> spares p (only_if b m)"
  by (simp add: only_if_def spares_steps)

lemma spares_parent [sparing]: "spares p (case path_parent q of Some d \<Rightarrow> create_dir_all sys d | None \<Rightarrow> yields ())"
  by (cases "path_parent q") (simp_all add: spares_steps)

lemma spares_put: "p \<noteq> q \<Longrightarrow> spares p (put_bytes sys q body)"
  by (auto simp: spares_def put_bytes_def split: put_answer.splits)

lemma spares_write_file: "p \<noteq> q \<Longrightarrow> spares p (setup_write_file sys q body mode)"
  unfolding setup_write_file_def by (intro sparing spares_put)

lemma spares_start_service [sparing]: "spares p (start_service sys pl)"
proof (cases "pl_platform pl")
  case PlatformLinux
  then show ?thesis by (simp add: start_service_def Let_def spares_and_then spares_steps)
next
  case PlatformMacOs
  then show ?thesis by (intro spares_quiet) (simp add: start_service_def Let_def quiet_steps)
qed

lemma spares_unless_kept:
  assumes "\<And>fs. fx_files (fst (decide q what fs)) = fx_files fs" "p = q \<Longrightarrow> \<forall>fs. snd (decide p what fs) \<noteq> Inr True"
  shows "spares p (write_unless_kept sys q body mode what decide)"
proof (cases "p = q")
  case False
  then show ?thesis
    using spares_and_then [of p "decide q what" "\<lambda>replace. if replace then setup_write_file sys q body mode else yields ()"]
      spares_write_file [OF False] spares_quiet [of "decide q what", OF assms(1)] spares_steps(1) [of p "()"]
    by (auto simp: spares_def write_unless_kept_def)
next
  case True
  have "fmlookup (fx_files (fst (write_unless_kept sys q body mode what decide fs))) p = Some b"
    if "fmlookup (fx_files fs) p = Some b" for fs b
  proof -
    obtain fs' r where d: "decide q what fs = (fs', r)" by fastforce
    have "r \<noteq> Inr True" "fx_files fs' = fx_files fs" using assms(1) [of fs] assms(2) True d by (metis snd_conv, metis fst_conv)
    moreover have "path_exists fs q" using that True by (simp add: path_exists_def fm_contains_def)
    ultimately show ?thesis using that d by (cases r) (auto simp: write_unless_kept_def and_then_def yields_def)
  qed
  then show ?thesis by (simp add: spares_def)
qed

lemma spares_write_keys [sparing]: "spares p (write_keys sys pl)"
proof -
  have "spares p (\<lambda>fs. and_then (setup_write_file sys (pl_acl_path pl) body 384) (\<lambda>_. yields True) fs)" if "p \<noteq> pl_acl_path pl" for body
    by (rule spares_and_then [OF spares_write_file [OF that]]) (rule sparing)
  then show ?thesis
    by (cases "p = pl_acl_path pl") (auto simp: spares_def write_keys_def path_exists_def fm_contains_def)
qed

lemma spares_write_private: "p \<noteq> q \<Longrightarrow> spares p (write_private sys q body)"
proof -
  assume q: "p \<noteq> q"
  have "spares p (\<lambda>fs. if path_exists fs q then (fs, Inl (AlreadyThere q))
      else and_then (\<lambda>fs. put_bytes sys q body (fs\<lparr>fx_modes := fmupd q 384 (fx_modes fs)\<rparr>)) yields fs)"
    using spares_put [OF q] by (auto simp: spares_def and_then_def yields_def split: prod.splits sum.splits) (metis fsys.select_convs(1) fsys.surjective fsys.update_convs(3) fst_conv)+
  then show ?thesis unfolding write_private_def by (intro sparing)
qed

lemma spares_certificate [sparing]: "spares p (write_certificate sys pl)"
proof (cases "pl_tls pl")
  case (Some tls)
  have new: "spares p (install_self_signed sys tls)" if "p \<noteq> tls_cert tls" "p \<noteq> tls_key tls"
  proof (cases "sys_generate sys")
    case (Some pair)
    obtain certificate key where pair: "pair = (certificate, key)" by fastforce
    have "spares p (and_then (write_private sys (tls_key tls) key) (\<lambda>_.
        and_then (case path_parent (tls_cert tls) of Some d \<Rightarrow> create_dir_all sys d | None \<Rightarrow> yields ()) (\<lambda>_.
        put_bytes sys (tls_cert tls) certificate)))"
      by (intro sparing spares_write_private spares_put that)
    then show ?thesis using Some pair by (simp add: spares_def install_self_signed_def)
  qed (simp add: spares_def install_self_signed_def)
  show ?thesis
  proof (cases "p = tls_cert tls \<or> p = tls_key tls")
    case True
    then show ?thesis using Some by (auto simp: spares_def write_certificate_def path_exists_def fm_contains_def)
  next
    case False
    then show ?thesis using Some new by (auto simp: spares_def write_certificate_def)
  qed
qed (simp add: spares_def write_certificate_def)

lemma spares_install_binary:
  assumes "p \<noteq> pl_binary pl \<or> sys_exe sys = Some (pl_binary pl)"
  shows "spares p (install_binary sys pl)"
proof (cases "sys_exe sys")
  case (Some current)
  have "spares p (\<lambda>fs. case fmlookup (fx_files fs) current of
      None \<Rightarrow> (fs, Inl (CopyFailed (pl_binary pl))) | Some body \<Rightarrow> put_bytes sys (pl_binary pl) body fs)" if "p \<noteq> pl_binary pl"
    using spares_put [OF that, of sys] by (auto simp: spares_def split: option.splits)
  then have "spares p (and_then (case path_parent (pl_binary pl) of Some d \<Rightarrow> create_dir_all sys d | None \<Rightarrow> yields ()) (\<lambda>_.
      and_then (\<lambda>fs. case fmlookup (fx_files fs) current of
          None \<Rightarrow> (fs, Inl (CopyFailed (pl_binary pl))) | Some body \<Rightarrow> put_bytes sys (pl_binary pl) body fs) (\<lambda>_.
      set_mode sys (pl_binary pl) 493)))" if "p \<noteq> pl_binary pl"
    using that by (intro sparing) simp
  then show ?thesis using Some assms by (auto simp: spares_def install_binary_def)
qed (simp add: spares_def install_binary_def)

lemma spares_own [sparing]:
  "spares p (case pl_service_user pl of
     Some user \<Rightarrow> only_if b (and_then (chown sys d user) (\<lambda>_. chown sys d' user)) | None \<Rightarrow> yields ())"
  by (cases "pl_service_user pl") (simp_all add: sparing)

text \<open>The steps up to the keys, and those after.\<close>

definition before_keys :: "system \<Rightarrow> plan \<Rightarrow> (string \<Rightarrow> string \<Rightarrow> bool step) \<Rightarrow> unit step" where
  "before_keys sys p decide =
     and_then (only_if (pl_create_user p) (create_service_user sys)) (\<lambda>_.
     and_then (create_dir_all sys (pl_config_dir p)) (\<lambda>_.
     and_then (create_dir_all sys (pl_dbdir p)) (\<lambda>_.
     and_then (write_unless_kept sys (pl_config_path p) (Plan_config_toml p) 416 ''A configuration'' decide) (\<lambda>_.
     write_unless_kept sys (pl_log_config_path p) LOG_CONFIG 420 ''A logging configuration'' decide))))"

definition after_keys :: "system \<Rightarrow> plan \<Rightarrow> (string \<Rightarrow> string \<Rightarrow> bool step) \<Rightarrow> unit step" where
  "after_keys sys p decide =
     and_then (write_certificate sys p) (\<lambda>_.
     and_then (set_mode sys (pl_dbdir p) 488) (\<lambda>_.
     and_then (set_mode sys (pl_config_dir p) 488) (\<lambda>_.
     and_then (case pl_service_user p of
                 Some user \<Rightarrow> only_if (pl_create_user p) (and_then (chown sys (pl_dbdir p) user) (\<lambda>_. chown sys (pl_config_dir p) user))
               | None \<Rightarrow> yields ()) (\<lambda>_.
     only_if (pl_install_service p)
       (and_then (install_binary sys p) (\<lambda>_.
        and_then (write_unless_kept sys (pl_service_path p) (service_unit p) 420 ''A service unit'' decide) (\<lambda>_.
        only_if (pl_start_service p) (start_service sys p))))))))"

lemma and_then_assoc: "and_then (and_then m f) g = and_then m (\<lambda>x. and_then (f x) g)"
  by (auto simp: and_then_def fun_eq_iff split: prod.splits sum.splits)

lemma setup_apply_parts:
  "setup_apply sys p decide =
     and_then (before_keys sys p decide) (\<lambda>_.
     and_then (write_keys sys p) (\<lambda>wrote.
     and_then (after_keys sys p decide) (\<lambda>_. yields \<lparr>wrote_admin_key = wrote\<rparr>)))"
  by (simp add: setup_apply_def before_keys_def after_keys_def and_then_assoc)

text \<open>Answers that change no file, and that never say yes to replacing the one in question.\<close>

definition keeps_file :: "plan \<Rightarrow> string \<Rightarrow> (string \<Rightarrow> string \<Rightarrow> bool step) \<Rightarrow> bool" where
  "keeps_file pl p decide \<longleftrightarrow> (\<forall>q what fs. fx_files (fst (decide q what fs)) = fx_files fs) \<and>
     (p \<in> {pl_config_path pl, pl_log_config_path pl, pl_service_path pl} \<longrightarrow> (\<forall>what fs. snd (decide p what fs) \<noteq> Inr True))"

lemma spares_before: "keeps_file pl p decide \<Longrightarrow> spares p (before_keys sys pl decide)"
  unfolding before_keys_def keeps_file_def by (intro sparing spares_unless_kept) auto

lemma spares_after:
  assumes "\<And>q what fs. fx_files (fst (decide q what fs)) = fx_files fs"
    and "p = pl_service_path pl \<Longrightarrow> \<forall>what fs. snd (decide p what fs) \<noteq> Inr True"
    and "p \<noteq> pl_binary pl \<or> \<not> pl_install_service pl \<or> sys_exe sys = Some (pl_binary pl)"
  shows "spares p (after_keys sys pl decide)"
proof (cases "pl_install_service pl")
  case True
  then have "p \<noteq> pl_binary pl \<or> sys_exe sys = Some (pl_binary pl)" using assms(3) by simp
  then show ?thesis
    using assms(1,2) unfolding after_keys_def by (intro sparing spares_unless_kept spares_install_binary) auto
next
  case False
  then have "only_if (pl_install_service pl) m = yields ()" for m by (simp add: only_if_def)
  then show ?thesis unfolding after_keys_def by (simp add: sparing)
qed


definition sample_system :: system where
  "sample_system = \<lparr>sys_config = sample_config_env, sys_os = ''linux'', sys_home = Some ''/home/u'', sys_exe = Some ''/home/u/sightingdb'',
     sys_hostname = None, sys_uid = ''1000'', sys_user_root = False, sys_pid = 7, sys_canonical = Some, sys_mkdir = (\<lambda>_. True),
     sys_put = (\<lambda>_. PutWritten), sys_chmod = (\<lambda>_. True), sys_unlink = (\<lambda>_. None), sys_rmdir = (\<lambda>_. True),
     sys_exec = (\<lambda>_. Some (True, [], [])), sys_generate = Some (''cert'', ''key'')\<rparr>"

definition sample_plan :: plan where
  "sample_plan = \<lparr>pl_scope = ScopeUser, pl_platform = PlatformLinux, pl_service_user = None, pl_config_dir = ''/c'',
     pl_config_path = ''/c/sightingdb.toml'', pl_acl_path = ''/c/acl.toml'', pl_tiers_path = ''/c/tiers.toml'', pl_tags_path = ''/c/tags.toml'',
     pl_peers_path = ''/c/peers.toml'', pl_log_config_path = ''/c/log4rs.yml'', pl_dbdir = ''/c/db'', pl_tls = None, pl_listen_ip = ''127.0.0.1'',
     pl_listen_port = 9999, pl_authenticate = True, pl_mode = Standalone, pl_namespaces = None, pl_node_id = ''local'', pl_admin_key = ''k'',
     pl_binary = ''/home/u/sightingdb'', pl_service_path = ''/home/u/.config/systemd/user/sightingdb.service'', pl_create_user = False,
     pl_install_service = True, pl_start_service = False\<rparr>"

definition sample_files_there :: fsys where
  "sample_files_there = \<lparr>fx_files = fmupd ''/c/sightingdb.toml'' ''[daemon]'' fmempty, fx_dirs = {|''/'', ''/c''|}, fx_modes = fmempty,
     fx_ran = [], fx_input = []\<rparr>"


section \<open>Erasing\<close>

text \<open>Files only go, and only those meant to; a directory goes only when it may and nothing is left in it.\<close>

definition fs_wf :: "fsys \<Rightarrow> bool" where
  "fs_wf fs \<longleftrightarrow> (\<forall>p. fmlookup (fx_files fs) p \<noteq> None \<longrightarrow> p |\<notin>| fx_dirs fs)"

definition empty_dir :: "fsys \<Rightarrow> string \<Rightarrow> bool" where
  "empty_dir fs d \<longleftrightarrow> (\<forall>q. path_parent q = Some d \<longrightarrow> fmlookup (fx_files fs) q = None \<and> q |\<notin>| fx_dirs fs)"

definition takes :: "(string \<Rightarrow> bool) \<Rightarrow> (string \<Rightarrow> bool) \<Rightarrow> fsys \<Rightarrow> fsys \<Rightarrow> bool" where
  "takes Q D fs fs' \<longleftrightarrow>
     (\<forall>q. fmlookup (fx_files fs') q = fmlookup (fx_files fs) q \<or> fmlookup (fx_files fs') q = None \<and> Q q) \<and>
     fx_dirs fs' |\<subseteq>| fx_dirs fs \<and> (\<forall>d. d |\<in>| fx_dirs fs \<longrightarrow> d |\<notin>| fx_dirs fs' \<longrightarrow> D d \<and> empty_dir fs' d)"

lemma takes_same: "fx_files fs' = fx_files fs \<Longrightarrow> fx_dirs fs' = fx_dirs fs \<Longrightarrow> takes Q D fs fs'"
  by (simp add: takes_def)

lemma takes_trans [trans]:
  assumes "takes Q D a b" "takes Q D b c"
  shows "takes Q D a c"
proof -
  have files: "fmlookup (fx_files c) q = fmlookup (fx_files a) q \<or> fmlookup (fx_files c) q = None \<and> Q q" for q
    using assms unfolding takes_def by metis
  have dirs: "fx_dirs c |\<subseteq>| fx_dirs b" "fx_dirs b |\<subseteq>| fx_dirs a" using assms by (simp_all add: takes_def)
  have "empty_dir b d \<Longrightarrow> empty_dir c d" for d
    using assms(2) dirs(1) unfolding empty_dir_def takes_def by (metis fsubsetD)
  then have "D d \<and> empty_dir c d" if "d |\<in>| fx_dirs a" "d |\<notin>| fx_dirs c" for d
    using assms that unfolding takes_def by (cases "d |\<in>| fx_dirs b") blast+
  then show ?thesis using files dirs unfolding takes_def by (meson fsubset_trans)
qed

lemma takes_wf: "takes Q D fs fs' \<Longrightarrow> fs_wf fs \<Longrightarrow> fs_wf fs'"
  unfolding takes_def fs_wf_def by (metis fsubsetD)

lemma children_iff: "q \<in> set (children_of fs d) \<longleftrightarrow> path_parent q = Some d \<and> (fmlookup (fx_files fs) q \<noteq> None \<or> q |\<in>| fx_dirs fs)"
  by (auto simp: children_of_def fmlookup_dom'_iff)

lemma empty_dir_iff: "children_of fs d = [] \<longleftrightarrow> empty_dir fs d"
  using children_iff [of _ fs d] unfolding empty_dir_def by (metis list.set_intros(1) neq_Nil_conv empty_iff list.set(1))

lemma remove_children_takes:
  assumes "remove_children sys cs n l fs = (fs', r)" "\<And>c. c \<in> set cs \<Longrightarrow> snapshot_name (unwrap_or (path_file_name c) []) \<Longrightarrow> Q c"
  shows "takes Q D fs fs' \<and> fx_dirs fs' = fx_dirs fs \<and>
    (\<forall>n' l'. r = Inr (n', l') \<longrightarrow> l \<le> l' \<and> (l' = l \<longrightarrow> (\<forall>c \<in> set cs. fmlookup (fx_files fs) c \<noteq> None \<and> fmlookup (fx_files fs') c = None)))"
  using assms
proof (induction sys cs n l fs rule: remove_children.induct)
  case (2 sys c cs n l fs)
  show ?case
  proof (cases "snapshot_name (unwrap_or (path_file_name c) []) \<and> fm_contains (fx_files fs) c")
    case True
    show ?thesis
    proof (cases "sys_unlink sys c")
      case None
      let ?fs = "fs\<lparr>fx_files := fmdrop c (fx_files fs)\<rparr>"
      have "remove_children sys cs (n + 1) l ?fs = (fs', r)" using 2(3) True None by simp
      from 2(1) [OF True None this] 2(4)
      have ih: "takes Q D ?fs fs' \<and> fx_dirs fs' = fx_dirs ?fs \<and> (\<forall>n' l'. r = Inr (n', l') \<longrightarrow> l \<le> l' \<and>
          (l' = l \<longrightarrow> (\<forall>c \<in> set cs. fmlookup (fx_files ?fs) c \<noteq> None \<and> fmlookup (fx_files fs') c = None)))"
        by (metis list.set_intros(2))
      have "takes Q D fs ?fs" using True 2(4) [of c] by (auto simp: takes_def)
      then have "takes Q D fs fs'" using ih takes_trans by blast
      moreover have "fmlookup (fx_files fs) c \<noteq> None" "fmlookup (fx_files fs') c = None"
        using True ih unfolding takes_def fm_contains_def by (auto simp: takes_def) (metis fmlookup_drop)
      ultimately show ?thesis using ih by (auto split: if_splits)
    qed (use 2(3) True in \<open>auto simp: takes_same\<close>)
  next
    case False
    then have "remove_children sys cs n (l + 1) fs = (fs', r)" using 2(3) by auto
    from 2(2) [OF False this] 2(4) show ?thesis by fastforce
  qed
qed (auto simp: takes_same)

lemma remove_path_takes:
  assumes "remove_path sys p fs = (fs', r)" "fs_wf fs" "Q p" "D p"
    and "\<And>c. path_parent c = Some p \<Longrightarrow> snapshot_name (unwrap_or (path_file_name c) []) \<Longrightarrow> Q c"
  shows "takes Q D fs fs'"
proof -
  consider (there) "fm_contains (fx_files fs) p" | (dir) "\<not> fm_contains (fx_files fs) p" "p |\<in>| fx_dirs fs"
    | (nothing) "\<not> path_exists fs p"
    by (auto simp: path_exists_def)
  then show ?thesis
  proof cases
    case there
    then show ?thesis using assms(1,3) by (auto simp: remove_path_def takes_def split: option.splits if_splits)
  next
    case dir
    obtain fs1 r1 where c: "remove_children sys (children_of fs p) 0 0 fs = (fs1, r1)" by fastforce
    have "takes Q D fs fs1 \<and> fx_dirs fs1 = fx_dirs fs \<and> (\<forall>n' l'. r1 = Inr (n', l') \<longrightarrow> 0 \<le> l' \<and>
        (l' = 0 \<longrightarrow> (\<forall>c \<in> set (children_of fs p). fmlookup (fx_files fs) c \<noteq> None \<and> fmlookup (fx_files fs1) c = None)))"
      using assms(5) by (intro remove_children_takes [OF c]) (simp add: children_iff)
    note k = this
    show ?thesis
    proof (cases "\<exists>n. r1 = Inr (n, 0) \<and> sys_rmdir sys p")
      case True
      then obtain n where n: "r1 = Inr (n, 0)" "sys_rmdir sys p" by blast
      let ?fs = "fs1\<lparr>fx_dirs := fx_dirs fs1 |-| {|p|}\<rparr>"
      have fs': "fs' = ?fs" using assms(1) dir c n by (simp add: remove_path_def)
      have gone: "\<forall>c \<in> set (children_of fs p). fmlookup (fx_files fs) c \<noteq> None \<and> fmlookup (fx_files fs1) c = None" using k n by simp
      have "empty_dir ?fs p"
        unfolding empty_dir_def
      proof (intro allI impI)
        fix q
        assume q: "path_parent q = Some p"
        have "fmlookup (fx_files fs1) q = None"
          using gone k q children_iff [of q fs p] unfolding takes_def by metis
        moreover have "q |\<notin>| fx_dirs fs" using gone q assms(2) children_iff [of q fs p] unfolding fs_wf_def by metis
        ultimately show "fmlookup (fx_files ?fs) q = None \<and> q |\<notin>| fx_dirs ?fs" using k by simp
      qed
      then have "takes Q D fs1 ?fs" using assms(4) by (auto simp: takes_def)
      then show ?thesis using k takes_trans unfolding fs' by blast
    next
      case False
      then have "fs' = fs1" using assms(1) dir c by (auto simp: remove_path_def split: sum.splits if_splits)
      then show ?thesis using k by simp
    qed
  next
    case nothing
    then show ?thesis using assms(1) by (auto simp: remove_path_def path_exists_def takes_same)
  qed
qed

lemma remove_all_takes:
  assumes "remove_all sys es fs = (fs', rs)" "fs_wf fs"
    and "\<And>e. e \<in> set es \<Longrightarrow> Q (in_path e) \<and> D (in_path e)"
    and "\<And>e c. e \<in> set es \<Longrightarrow> path_parent c = Some (in_path e) \<Longrightarrow> snapshot_name (unwrap_or (path_file_name c) []) \<Longrightarrow> Q c"
  shows "takes Q D fs fs'"
  using assms
proof (induction es arbitrary: fs rs)
  case (Cons e es)
  obtain fs1 r1 where one: "remove_path sys (in_path e) fs = (fs1, r1)" by fastforce
  obtain rs1 where rest: "remove_all sys es fs1 = (fs', rs1)" using Cons.prems(1) one by (auto split: prod.splits)
  have t: "takes Q D fs fs1"
    using Cons.prems(3) [of e] Cons.prems(4) [of e] by (intro remove_path_takes [OF one Cons.prems(2)]) auto
  also have "takes Q D fs1 fs'"
    by (rule Cons.IH [OF rest takes_wf [OF t Cons.prems(2)]]) (meson Cons.prems(3,4) list.set_intros(2))+
  finally show ?case .
qed (simp add: takes_same)

lemma tidy_takes:
  assumes "tidy sys dirs fs = (fs', gone)" "\<And>d. d \<in> set dirs \<Longrightarrow> D d"
  shows "takes Q D fs fs'"
  using assms
proof (induction dirs arbitrary: fs gone)
  case (Cons d dirs)
  show ?case
  proof (cases "d |\<in>| fx_dirs fs \<and> children_of fs d = [] \<and> sys_rmdir sys d")
    case True
    let ?fs = "fs\<lparr>fx_dirs := fx_dirs fs |-| {|d|}\<rparr>"
    obtain g where g: "tidy sys dirs ?fs = (fs', g)" using Cons.prems(1) True by (auto split: prod.splits)
    have "takes Q D fs ?fs" using True Cons.prems(2) by (auto simp: takes_def empty_dir_iff empty_dir_def)
    also have "takes Q D ?fs fs'" using Cons.IH [OF g] Cons.prems(2) by simp
    finally show ?thesis .
  qed (use Cons in auto)
qed (simp add: takes_same)

lemma tidy_dirs_safe: "d \<in> set (tidy_dirs sys ds acc) \<Longrightarrow> d \<in> set acc \<or> safe_to_tidy sys d"
  by (induction sys ds acc rule: tidy_dirs.induct) (auto split: if_splits)

lemma candidates_safe: "d \<in> set (tidy_candidates sys entries) \<Longrightarrow> safe_to_tidy sys d"
  using tidy_dirs_safe [of d sys _ "[]"] by (auto simp: tidy_candidates_def)

lemma commands_quiet:
  "fx_files (run_commands sys b cs fs) = fx_files fs \<and> fx_dirs (run_commands sys b cs fs) = fx_dirs fs"
  by (induction sys b cs fs rule: run_commands.induct) (auto simp: exec_def split: prod.splits option.splits bool.splits)

lemma stop_quiet:
  "fx_files (stop_service sys p fs) = fx_files fs" "fx_dirs (stop_service sys p fs) = fx_dirs fs"
  "fx_files (stop_processes sys config_path fs) = fx_files fs" "fx_dirs (stop_processes sys config_path fs) = fx_dirs fs"
  by (auto simp: stop_service_def run_service_commands_def commands_quiet stop_processes_def exec_def Let_def split: option.splits)

text \<open>
  What belongs to an installation, from its settings: the database directory, the logs of a server that detaches, and
  a service unit that names the configuration; with \<open>hard\<close> also the configuration, the files it names and a logging
  configuration beside it.
\<close>

definition belongs :: "system \<Rightarrow> fsys \<Rightarrow> string \<Rightarrow> string option \<Rightarrow> settings \<Rightarrow> bool \<Rightarrow> string \<Rightarrow> bool" where
  "belongs sys fs config_path logging s hard p \<longleftrightarrow> (\<exists>q. p = full_path sys q \<and>
     (set_dbdir s = Some q \<or> set_daemonize s \<and> q \<in> {set_log_out s, set_log_err s} \<or>
      q \<in> set (service_candidates sys) \<and>
        (\<exists>unit. fmlookup (fx_files fs) q = Some unit \<and> (contains_str unit config_path \<or> contains_str unit (full_path sys config_path))) \<or>
      hard \<and> (q = config_path \<or> set_acl_file s = Some q \<or> set_tiers_file s = Some q \<or>
        (\<exists>tls. set_tls s = Some tls \<and> q \<in> {tls_cert tls, tls_key tls}) \<or>
        (logging = Some q \<or> q \<in> set (logging_candidates sys)) \<and> path_parent q = path_parent config_path)))"

lemma service_belongs:
  assumes "e \<in> set (service_entries sys fs config_path)" "in_owned e"
  shows "belongs sys fs config_path logging s hard (full_path sys (in_path e))"
  using assms
  by (fastforce simp: belongs_def service_entries_def entry_of_def Let_def split: if_splits option.splits list.splits)

lemma logging_belongs:
  assumes "e \<in> set (logging_entries sys fs config_path logging)" "in_owned e"
  shows "belongs sys fs config_path logging s True (full_path sys (in_path e)) \<and> in_kind e = KindConfig"
proof -
  obtain l where l: "(case logging of Some l \<Rightarrow> Some l | None \<Rightarrow> find (path_exists fs) (logging_candidates sys)) = Some l"
    and e: "in_path e = l" "in_kind e = KindConfig" "path_parent l = path_parent config_path"
    using assms by (cases logging; cases "find (path_exists fs) (logging_candidates sys)")
      (auto simp: logging_entries_def entry_of_def Let_def split: if_splits)
  have "logging = Some l \<or> l \<in> set (logging_candidates sys)"
    using l by (auto simp: find_Some_iff split: option.splits)
  then show ?thesis using e unfolding belongs_def by blast
qed

lemma file_belongs:
  assumes "e \<in> set (file_entries config_path s)" "in_owned e" "in_kind e = KindConfig \<Longrightarrow> hard"
  shows "belongs sys fs config_path logging s hard (full_path sys (in_path e))"
proof -
  have "set_dbdir s = Some (in_path e) \<or> set_daemonize s \<and> in_path e \<in> {set_log_out s, set_log_err s} \<or> in_kind e = KindConfig \<and>
      (set_acl_file s = Some (in_path e) \<or> set_tiers_file s = Some (in_path e) \<or> (\<exists>tls. set_tls s = Some tls \<and> in_path e \<in> {tls_cert tls, tls_key tls}))"
    using assms(1,2) unfolding file_entries_def set_append Un_iff
    by (elim disjE; cases "set_tls s") (auto simp: entry_of_def split: if_splits option.splits)
  then show ?thesis using assms(3) unfolding belongs_def by blast
qed

lemma goes_belongs:
  assumes load: "Settings_load (sys_config sys) config_path = Inr s" and inv: "inventory sys fs config_path logging = Inr entries"
    and e: "e \<in> set entries" "goes fs hard e"
  shows "belongs sys fs config_path logging s hard (in_path e)"
proof -
  obtain e0 where path: "in_path e = full_path sys (in_path e0)" and same: "in_owned e0 = in_owned e" "in_kind e0 = in_kind e"
    and e0: "e0 = entry_of ''configuration'' config_path [] False True KindConfig \<or> e0 \<in> set (logging_entries sys fs config_path logging) \<or>
      e0 \<in> set (file_entries config_path s) \<or> (\<exists>binary. e0 = entry_of ''binary'' binary ''left alone by --erase'' False False KindOther) \<or>
      e0 \<in> set (service_entries sys fs config_path)"
  proof -
    have "e \<in> (\<lambda>entry. entry\<lparr>in_path := full_path sys (in_path entry)\<rparr>) `
        ({entry_of ''configuration'' config_path [] False True KindConfig} \<union> set (logging_entries sys fs config_path logging) \<union>
         set (file_entries config_path s) \<union> range (\<lambda>binary. entry_of ''binary'' binary ''left alone by --erase'' False False KindOther) \<union>
         set (service_entries sys fs config_path))"
      using e(1) inv load by (auto simp: inventory_def split: option.splits)
    then obtain e0 where "e = e0\<lparr>in_path := full_path sys (in_path e0)\<rparr>"
      "e0 \<in> {entry_of ''configuration'' config_path [] False True KindConfig} \<union> set (logging_entries sys fs config_path logging) \<union>
         set (file_entries config_path s) \<union> range (\<lambda>binary. entry_of ''binary'' binary ''left alone by --erase'' False False KindOther) \<union>
         set (service_entries sys fs config_path)" by (rule imageE)
    then show ?thesis by (intro that [of e0]) auto
  qed
  have owned: "in_owned e0" "in_kind e0 = KindConfig \<Longrightarrow> hard" using e(2) same by (auto simp: goes_def)
  from e0 show ?thesis
    unfolding path
  proof (elim disjE exE)
    assume "e0 = entry_of ''configuration'' config_path [] False True KindConfig"
    then show "belongs sys fs config_path logging s hard (full_path sys (in_path e0))"
      using owned(2) by (auto simp: belongs_def entry_of_def)
  next
    assume "e0 \<in> set (logging_entries sys fs config_path logging)"
    then show "belongs sys fs config_path logging s hard (full_path sys (in_path e0))"
      using logging_belongs [OF _ owned(1)] owned(2) by auto
  qed (use owned in \<open>auto simp: entry_of_def intro: file_belongs service_belongs\<close>)
qed

text \<open>What erasing means to take: what belongs to the installation, and the snapshots in a directory that does.\<close>

definition condemned :: "(string \<Rightarrow> bool) \<Rightarrow> string \<Rightarrow> bool" where
  "condemned own q \<longleftrightarrow> own q \<or> (\<exists>d. own d \<and> path_parent q = Some d) \<and> snapshot_name (unwrap_or (path_file_name q) [])"

lemma erase_takes:
  assumes load: "Settings_load (sys_config sys) config_path = Inr s" and inv: "inventory sys fs config_path logging = Inr entries"
    and wf: "fs_wf fs" and run: "erase sys config_path logging hard confirm fs = (fs', Inr (Some report))"
  shows "takes (condemned (belongs sys fs config_path logging s hard)) (\<lambda>d. belongs sys fs config_path logging s hard d \<or> safe_to_tidy sys d) fs fs'"
    (is "takes ?Q ?D fs fs'")
proof -
  have own: "belongs sys fs config_path logging s hard (in_path e)" if "e \<in> set entries" "goes fs hard e" for e
    using goes_belongs [OF load inv that] .
  define fs1 where "fs1 = stop_processes sys config_path (case find (\<lambda>entry. in_what entry = ''service'' \<and> in_owned entry \<and>
      path_exists fs (in_path entry)) entries of Some s \<Rightarrow> stop_service sys (in_path s) fs | None \<Rightarrow> fs)"
  have sure: "confirm (erase_summary fs hard entries) = Inr True"
    using run inv by (auto simp: erase_def Let_def split: sum.splits if_splits)
  obtain fs2 rs where two: "remove_all sys (filter (goes fs hard) entries) fs1 = (fs2, rs)" by fastforce
  obtain gone where three: "tidy sys (tidy_candidates sys entries) fs2 = (fs', gone)"
    using run inv sure two by (auto simp: erase_def Let_def fs1_def split: prod.splits)
  have same: "fx_files fs1 = fx_files fs" "fx_dirs fs1 = fx_dirs fs" by (auto simp: fs1_def stop_quiet split: option.splits)
  have "takes ?Q ?D fs fs1" using same by (rule takes_same)
  also have "takes ?Q ?D fs1 fs2"
    using wf same by (intro remove_all_takes [OF two]) (auto simp: condemned_def fs_wf_def dest: own)
  also have "takes ?Q ?D fs2 fs'"
    by (rule tidy_takes [OF three]) (simp add: candidates_safe)
  finally show ?thesis .
qed

text \<open>
  C28. Erasing takes only what belongs to the installation. Unless it is confirmed nothing changes and no command
  runs; once confirmed, a file that goes is one the settings name as the installation's own, a service unit that runs
  this configuration, or a file named like a snapshot directly in a directory of its own; no other file changes by a
  byte, and a directory goes only if it is the installation's or may be tidied away, and only when nothing is left in
  it. Without \<open>hard\<close> the configuration, the keys and the certificate are not among what belongs.
\<close>
theorem erase_takes_only_its_own:
  assumes "Settings_load (sys_config sys) config_path = Inr s" "fs_wf fs"
    and "erase sys config_path logging hard confirm fs = (fs', r)"
  shows "case r of
      Inr (Some _) \<Rightarrow>
        (\<forall>q. fmlookup (fx_files fs') q = fmlookup (fx_files fs) q \<or>
           fmlookup (fx_files fs') q = None \<and> condemned (belongs sys fs config_path logging s hard) q) \<and>
        (\<forall>d. d |\<in>| fx_dirs fs' \<or> d |\<notin>| fx_dirs fs \<or>
           (belongs sys fs config_path logging s hard d \<or> safe_to_tidy sys d) \<and> empty_dir fs' d)
    | _ \<Rightarrow> fs' = fs"
proof -
  obtain entries where inv: "inventory sys fs config_path logging = Inr entries" using assms(1) by (simp add: inventory_def)
  show ?thesis
  proof (cases "\<exists>report. r = Inr (Some report)")
    case True
    then obtain report where r: "r = Inr (Some report)" by blast
    have "takes (condemned (belongs sys fs config_path logging s hard)) (\<lambda>d. belongs sys fs config_path logging s hard d \<or> safe_to_tidy sys d) fs fs'"
      by (rule erase_takes [OF assms(1) inv assms(2) assms(3) [unfolded r]])
    then show ?thesis unfolding takes_def r by auto
  next
    case False
    then have "fs' = fs"
      using inv assms(3) by (auto simp: erase_def Let_def split: sum.splits if_splits prod.splits)
    then show ?thesis using False by (auto split: sum.splits option.splits)
  qed
qed

text \<open>An installation with a database directory in which something else lies as well.\<close>

definition sample_erase_config :: raw_config where
  "sample_erase_config = sample_config\<lparr>rc_daemon := Some (sample_daemon\<lparr>dt_dbdir := Some ''/srv/db/data''\<rparr>), rc_zmq := None\<rparr>"

definition sample_erase_system :: system where
  "sample_erase_system = sample_system\<lparr>sys_config := sample_config_env\<lparr>ce_read := (\<lambda>_. Some []), ce_config := (\<lambda>_. Some sample_erase_config)\<rparr>\<rparr>"

definition sample_erase_files :: fsys where
  "sample_erase_files = \<lparr>fx_files = fmupd ''/srv/db/data/feeds.json.zst'' [] (fmupd ''/srv/db/data/notes'' ''mine'' fmempty),
     fx_dirs = {|''/srv/db/data''|}, fx_modes = fmempty, fx_ran = [], fx_input = []\<rparr>"

definition sample_entries :: "installed list" where
  "sample_entries =
     [entry_of ''configuration'' ''/c/sightingdb.toml'' [] False True KindConfig,
      entry_of ''logging config'' ''/c/log4rs.yml'' [] False True KindConfig,
      entry_of ''API keys'' ''/c/sightingdb.toml'' ''no acl_file: the keys are in the [acl] section of it'' True False KindConfig,
      entry_of ''database'' ''/srv/db/data'' [] False True KindData,
      entry_of ''binary'' ''/home/u/sightingdb'' ''left alone by --erase'' False False KindOther,
      entry_of ''service'' ''/etc/systemd/system/sightingdb.service'' ''not installed; `--setup` can add one'' False False KindService]"

lemma sample_loaded:
  "\<exists>s. Settings_load (sys_config sample_erase_system) ''/c/sightingdb.toml'' = Inr s \<and> set_acl_file s = None \<and> set_tiers_file s = None \<and>
     set_tls s = None \<and> set_dbdir s = Some ''/srv/db/data'' \<and> \<not> set_daemonize s"
  by (simp add: Settings_load_def RawConfig_into_settings_def sample_erase_system_def sample_erase_config_def sample_config_def sample_daemon_def
      RawDaemon_deserialize_def Let_def config_tls_def config_galaxy_def storage_tiers_def load_acl_def optional_section_def unwrap_or_def
      StoragePolicy_everything_def sample_node_id)

lemma sample_inventory: "inventory sample_erase_system sample_erase_files ''/c/sightingdb.toml'' (Some ''/c/log4rs.yml'') = Inr sample_entries"
proof -
  have full: "full_path sample_erase_system p = p" for p by (simp add: full_path_def sample_erase_system_def sample_system_def)
  have parents: "path_parent ''/c/log4rs.yml'' = path_parent ''/c/sightingdb.toml''" by code_simp
  have services: "service_candidates sample_erase_system =
      [''/etc/systemd/system/sightingdb.service'', ''/home/u/.config/systemd/user/sightingdb.service'']"
    by code_simp
  obtain s where "Settings_load (sys_config sample_erase_system) ''/c/sightingdb.toml'' = Inr s" "set_acl_file s = None" "set_tiers_file s = None"
    "set_tls s = None" "set_dbdir s = Some ''/srv/db/data''" "\<not> set_daemonize s" using sample_loaded by blast
  then show ?thesis
    by (simp add: inventory_def full parents services logging_entries_def file_entries_def service_entries_def sample_entries_def entry_of_def
        path_exists_def fm_contains_def sample_erase_files_def Let_def) (simp add: sample_erase_system_def sample_system_def entry_of_def)
qed

theorem erase_takes_only_its_own_witness:
  "\<exists>report fs'. erase sample_erase_system ''/c/sightingdb.toml'' (Some ''/c/log4rs.yml'') False (\<lambda>_. Inr True) sample_erase_files =
       (fs', Inr (Some report)) \<and> fmlookup (fx_files fs') ''/srv/db/data/notes'' = Some ''mine''"
proof -
  obtain fs' r where run: "erase sample_erase_system ''/c/sightingdb.toml'' (Some ''/c/log4rs.yml'') False (\<lambda>_. Inr True) sample_erase_files = (fs', r)"
    by fastforce
  have wf: "fs_wf sample_erase_files" by (auto simp: fs_wf_def sample_erase_files_def)
  obtain report where r: "r = Inr (Some report)"
    using run by (auto simp: erase_def sample_inventory Let_def split: prod.splits)
  have name: "\<not> snapshot_name (unwrap_or (path_file_name ''/srv/db/data/notes'') [])" by code_simp
  have full: "full_path sample_erase_system p = p" for p by (simp add: full_path_def sample_erase_system_def sample_system_def)
  have services: "''/srv/db/data/notes'' \<notin> set (service_candidates sample_erase_system)" by code_simp
  obtain s where load: "Settings_load (sys_config sample_erase_system) ''/c/sightingdb.toml'' = Inr s"
    and s: "set_dbdir s = Some ''/srv/db/data''" "\<not> set_daemonize s" using sample_loaded by blast
  let ?own = "belongs sample_erase_system sample_erase_files ''/c/sightingdb.toml'' (Some ''/c/log4rs.yml'') s False"
  have "\<not> ?own ''/srv/db/data/notes''" using s services by (simp add: belongs_def full)
  then have "\<not> condemned ?own ''/srv/db/data/notes''" using name by (simp add: condemned_def)
  moreover have "fmlookup (fx_files fs') ''/srv/db/data/notes'' = fmlookup (fx_files sample_erase_files) ''/srv/db/data/notes'' \<or>
      condemned ?own ''/srv/db/data/notes''"
    using erase_takes_only_its_own [OF load wf run] unfolding r by auto
  ultimately have "fmlookup (fx_files fs') ''/srv/db/data/notes'' = Some ''mine''" by (simp add: sample_erase_files_def)
  then show ?thesis using run r by blast
qed

section \<open>The name the wizard proposes\<close>

lemma plain_trim: "list_all plain s \<Longrightarrow> trim s = s"
proof (rule trim_fixed)
  assume s: "list_all plain s"
  show "ws_len s = 0" using s by (cases s) (simp_all add: ws_len_plain)
  show "ws_len_rev (rev s) = 0" using s by (cases s rule: rev_cases) (simp_all add: ws_len_rev_plain)
qed

lemma node_char_plain: "node_id_char c \<Longrightarrow> plain c"
  by (auto simp: node_id_char_def plain_def is_ascii_alphanumeric_def is_ascii_digit_def)

text \<open>The name the wizard proposes for a server, from the host's, is one the configuration takes as it stands.\<close>

lemma default_node_id_accepted: "config_node_id (Some (default_node_id sys fs)) = Inr (default_node_id sys fs)"
proof -
  have valid: "node_id_valid (default_node_id sys fs)"
  proof -
    have "node_id_valid LOCAL_NODE" by (simp add: node_id_valid_def LOCAL_NODE_def node_id_char_def is_ascii_alphanumeric_def is_ascii_digit_def)
    moreover have "node_id_valid (take 64 (filter host_char n))" if "take 64 (filter host_char n) \<noteq> []" for n
      using that by (auto simp: node_id_valid_def list_all_iff host_char_def node_id_char_def dest!: in_set_takeD)
    ultimately show ?thesis by (auto simp: default_node_id_def Let_def split: option.splits)
  qed
  then have "trim (default_node_id sys fs) = default_node_id sys fs"
    by (intro plain_trim) (auto simp: node_id_valid_def list_all_iff node_char_plain)
  then show ?thesis using valid by (simp add: config_node_id_def node_id_valid_def)
qed

end
