(* ===== verification/Planned.thy ===== *)
theory Planned
  imports Setup_Laws
begin

text \<open>
  From the answers given to the wizard to the settings of the server that starts: what the configuration a plan writes
  says once its comments are left out, and that the configuration loader makes of it what was asked for.
\<close>

section \<open>What the generated file says\<close>

text \<open>A line that is neither empty nor a comment.\<close>

definition says_something :: "string \<Rightarrow> bool" where
  "says_something l \<longleftrightarrow> (case l of [] \<Rightarrow> False | c # _ \<Rightarrow> c \<noteq> CHR ''#'')"

definition says :: "string \<Rightarrow> string \<Rightarrow> string" where
  "says key v = key @ '' = '' @ dquote @ v @ dquote"

definition planned_lines :: "plan \<Rightarrow> string list" where
  "planned_lines p =
     [''[daemon]'', says ''listen_ip'' (pl_listen_ip p), ''listen_port = '' @ show_nat (unat (pl_listen_port p)),
      ''authenticate = '' @ bool_text (pl_authenticate p), ''daemonize = false''] @
     (case pl_tls p of
        Some tls \<Rightarrow> [''ssl = true'', says ''ssl_cert'' (tls_cert tls), says ''ssl_key'' (tls_key tls)]
      | None \<Rightarrow> [''ssl = false'']) @
     [says ''dbdir'' (pl_dbdir p), ''snapshot_interval = 300'', ''sweep_interval = 60'', ''stats_retention = 720'', ''shadow_ttl = 2_592_000'',
      ''rejection_log = 1000'', ''activity = true'', ''latest_writes = 10000'', says ''node_id'' (pl_node_id p),
      says ''acl_file'' (pl_acl_path p), says ''tags_file'' (pl_tags_path p), ''[storage]''] @
     (case pl_namespaces p of
        Some held \<Rightarrow> [''namespaces = ['' @ join '', '' (map (\<lambda>n. dquote @ n @ dquote) held) @ '']'']
      | None \<Rightarrow> []) @
     [says ''default_tier'' ''hot'', ''warm_idle = 3600'', says ''tiers_file'' (pl_tiers_path p)] @
     (if Mode_forwards (pl_mode p) then [''[galaxy]'', says ''peers_file'' (pl_peers_path p)] else [])"

lemma config_lines_say: "filter says_something (config_lines p) = planned_lines p"
proof -
  have 1: "filter says_something (config_listening p) = [''[daemon]'', says ''listen_ip'' (pl_listen_ip p),
      ''listen_port = '' @ show_nat (unat (pl_listen_port p)), ''authenticate = '' @ bool_text (pl_authenticate p), ''daemonize = false'']"
    by (simp add: config_listening_def says_something_def says_def)
  have 2: "filter says_something (config_tls_lines p) = (case pl_tls p of
        Some tls \<Rightarrow> [''ssl = true'', says ''ssl_cert'' (tls_cert tls), says ''ssl_key'' (tls_key tls)]
      | None \<Rightarrow> [''ssl = false''])"
    by (cases "pl_tls p") (simp_all add: config_tls_lines_def says_something_def says_def)
  have 3: "filter says_something (config_upkeep p) = [says ''dbdir'' (pl_dbdir p), ''snapshot_interval = 300'', ''sweep_interval = 60'',
      ''stats_retention = 720'', ''shadow_ttl = 2_592_000'', ''rejection_log = 1000'', ''activity = true'', ''latest_writes = 10000'']"
    by (simp add: config_upkeep_def says_something_def says_def)
  have 4: "filter says_something (config_naming p) = [says ''node_id'' (pl_node_id p),
      says ''acl_file'' (pl_acl_path p), says ''tags_file'' (pl_tags_path p), ''[storage]'']"
    by (simp add: config_naming_def says_something_def says_def)
  have 5: "filter says_something (config_storing p) = (case pl_namespaces p of
        Some held \<Rightarrow> [''namespaces = ['' @ join '', '' (map (\<lambda>n. dquote @ n @ dquote) held) @ '']'']
      | None \<Rightarrow> []) @
     [says ''default_tier'' ''hot'', ''warm_idle = 3600'', says ''tiers_file'' (pl_tiers_path p)]"
    by (cases "pl_namespaces p") (simp_all add: config_storing_def says_something_def says_def)
  have 6: "filter says_something (config_peers p) = [''[galaxy]'', says ''peers_file'' (pl_peers_path p)]"
    by (simp add: config_peers_def says_something_def says_def)
  show ?thesis by (simp add: config_lines_def planned_lines_def 1 2 3 4 5 6)
qed

text \<open>The answers that are written into the file, and that none of them breaks a line.\<close>

definition planned_answers :: "plan \<Rightarrow> string list" where
  "planned_answers p =
     [pl_listen_ip p, pl_dbdir p, pl_node_id p, pl_acl_path p, pl_tags_path p, pl_tiers_path p, pl_peers_path p] @
     (case pl_tls p of Some tls \<Rightarrow> [tls_cert tls, tls_key tls] | None \<Rightarrow> []) @
     (case pl_namespaces p of Some held \<Rightarrow> held | None \<Rightarrow> [])"

definition one_line :: "string \<Rightarrow> bool" where
  "one_line s \<longleftrightarrow> CHR 0x0A \<notin> set s"

lemma split_lines: "list_all one_line ls \<Longrightarrow> split_on CHR 0x0A (lines_text ls) = ls @ [[]]"
  by (induction ls) (simp_all add: lines_text_def one_line_def nl_def split_on_append)

lemma one_line_append [simp]: "one_line (a @ b) \<longleftrightarrow> one_line a \<and> one_line b"
  by (auto simp: one_line_def)

lemma one_line_join: "one_line sep \<Longrightarrow> list_all one_line xs \<Longrightarrow> one_line (join sep xs)"
  by (induction sep xs rule: join.induct) (simp_all add: one_line_def)

lemma one_line_show_nat [simp]: "one_line (show_nat n)"
  using show_nat_shape [of n] by (auto simp: one_line_def is_ascii_digit_def)

lemma one_line_label [simp]: "one_line (Mode_label m)" "one_line (bool_text b)" "one_line dquote" "one_line em_dash"
  by (cases m; simp add: Mode_label_def one_line_def bool_text_def dquote_def em_dash_def)
     (simp_all add: one_line_def bool_text_def dquote_def em_dash_def)

lemma one_line_literal: "one_line (c # s) \<longleftrightarrow> c \<noteq> CHR 0x0A \<and> one_line s" "one_line []"
  by (auto simp: one_line_def)

lemma config_one_line:
  assumes "list_all one_line (planned_answers p)"
  shows "list_all one_line (config_lines p)"
proof -
  have a: "one_line (pl_listen_ip p)" "one_line (pl_dbdir p)" "one_line (pl_node_id p)" "one_line (pl_acl_path p)" "one_line (pl_tags_path p)"
    "one_line (pl_tiers_path p)" "one_line (pl_peers_path p)"
    "pl_tls p = Some tls \<Longrightarrow> one_line (tls_cert tls) \<and> one_line (tls_key tls)" "pl_namespaces p = Some held \<Longrightarrow> list_all one_line held" for tls held
    using assms by (auto simp: planned_answers_def)
  have "list_all one_line (config_listening p)" by (simp add: config_listening_def one_line_literal a)
  moreover have "list_all one_line (config_tls_lines p)"
    by (cases "pl_tls p") (simp_all add: config_tls_lines_def one_line_literal a)
  moreover have "list_all one_line (config_upkeep p)" by (simp add: config_upkeep_def one_line_literal a)
  moreover have "list_all one_line (config_naming p)" by (simp add: config_naming_def one_line_literal a)
  moreover have "list_all one_line (config_storing p)"
  proof (cases "pl_namespaces p")
    case (Some held)
    then have "list_all one_line (map (\<lambda>n. dquote @ n @ dquote) held)" using a(9) by (simp add: list_all_iff)
    from one_line_join [OF _ this, of "'', ''"] Some show ?thesis by (simp add: config_storing_def one_line_literal a)
  qed (simp add: config_storing_def one_line_literal a)
  moreover have "list_all one_line (config_peers p)" by (simp add: config_peers_def one_line_literal a)
  ultimately show ?thesis by (simp add: config_lines_def)
qed

text \<open>
  The file a plan writes, read line by line and without its comments, says exactly what was answered: no comment hides
  a setting and no setting is left out.
\<close>

lemma generated_file_says:
  assumes "list_all one_line (planned_answers p)"
  shows "filter says_something (split_on CHR 0x0A (Plan_config_toml p)) = planned_lines p"
  using split_lines [OF config_one_line [OF assms]] config_lines_say [of p] by (simp add: Plan_config_toml_def says_something_def)

section \<open>The server that starts\<close>

text \<open>What the toml crate makes of those lines.\<close>

definition planned_config :: "plan \<Rightarrow> raw_config" where
  "planned_config p =
     \<lparr>rc_daemon = Some
        \<lparr>dt_enabled = None, dt_listen_ip = Some (pl_listen_ip p), dt_listen_port = Some (pl_listen_port p),
         dt_authenticate = Some (pl_authenticate p), dt_daemonize = Some False, dt_ssl = Some (pl_tls p \<noteq> None),
         dt_ssl_cert = map_option tls_cert (pl_tls p), dt_ssl_key = map_option tls_key (pl_tls p), dt_post_limit = None,
         dt_log_out = None, dt_log_err = None, dt_dbdir = Some (pl_dbdir p), dt_snapshot_interval = Some 300,
         dt_compression_level = None, dt_sweep_interval = Some 60, dt_stats_retention = Some 720, dt_shadow_ttl = Some 2592000,
         dt_rejection_log = Some 1000, dt_activity = Some True, dt_latest_writes = Some 10000, dt_node_id = Some (pl_node_id p),
         dt_acl_file = Some (pl_acl_path p), dt_tags_file = Some (pl_tags_path p)\<rparr>,
      rc_acl = None,
      rc_storage = Some \<lparr>rs_default_tier = ''hot'', rs_warm_idle = 3600, rs_tiers = fmempty, rs_tiers_file = Some (pl_tiers_path p),
                         rs_namespaces = pl_namespaces p\<rparr>,
      rc_galaxy =
        (if Mode_forwards (pl_mode p)
         then Some \<lparr>rg_peers = [], rg_peers_file = Some (pl_peers_path p), rg_max_hops = 4, rg_health_interval = 30,
                    rg_sync_interval = 300, rg_reconcile_interval = 3600, rg_gossip_interval = 600, rg_acl_authority = False,
                    rg_acl_replaceable = False, rg_verify_tls = True\<rparr>
         else None),
      rc_dns = None, rc_zmq = None, rc_stix = None\<rparr>"

definition planned_storage :: "plan \<Rightarrow> storage_policy" where
  "planned_storage p = (case pl_namespaces p of Some held \<Rightarrow> StoragePolicy_from_prefixes held | None \<Rightarrow> StoragePolicy_everything)"

text \<open>Answers the configuration accepts: a name and namespaces it knows how to read, and paths from the root.\<close>

definition plan_acceptable :: "plan \<Rightarrow> bool" where
  "plan_acceptable p \<longleftrightarrow> config_node_id (Some (pl_node_id p)) = Inr (pl_node_id p) \<and>
     validate_storage_prefixes (sp_prefixes (planned_storage p)) = Inr () \<and>
     list_all (\<lambda>q. starts_with q ''/'') ([pl_acl_path p, pl_tags_path p, pl_tiers_path p, pl_peers_path p] @
       (case pl_tls p of Some tls \<Rightarrow> [tls_cert tls, tls_key tls] | None \<Rightarrow> []))"

text \<open>A configuration read from a file system.\<close>

definition reads_from :: "config_env \<Rightarrow> fsys \<Rightarrow> bool" where
  "reads_from env fs \<longleftrightarrow> (\<forall>p. ce_read env p = fmlookup (fx_files fs) p \<and> ce_exists env p = path_exists fs p \<and>
     (starts_with p ''/'' \<longrightarrow> ce_absolute env p = Some p))"

lemma resolve_absolute: "reads_from env fs \<Longrightarrow> starts_with p ''/'' \<Longrightarrow> config_resolve env base p = p"
  by (simp add: config_resolve_def reads_from_def unwrap_or_def)

definition planned_tiers :: tier_policy where
  "planned_tiers = \<lparr>default_tier = Hot, tp_entries = fmempty, tp_warm_idle = 3600\<rparr>"

lemma planned_settings:
  assumes "plan_acceptable pl" "reads_from env fs" "\<not> path_exists fs (pl_tiers_path pl)" "\<not> path_exists fs (pl_peers_path pl)"
    and "load_acl env None (Some (pl_acl_path pl)) = Inr (Some acl)"
  shows "\<exists>s. RawConfig_into_settings env path (planned_config pl) = Inr s \<and> set_http_enabled s \<and>
    set_listen s = listen_text (pl_listen_ip pl) (pl_listen_port pl) \<and> set_authenticate s = pl_authenticate pl \<and> \<not> set_daemonize s \<and>
    set_tls s = pl_tls pl \<and> set_dbdir s = Some (pl_dbdir pl) \<and> set_node_id s = pl_node_id pl \<and> set_acl s = Some acl \<and>
    set_storage s = planned_storage pl \<and> set_tiers s = planned_tiers \<and> (set_galaxy s \<noteq> None \<longleftrightarrow> Mode_forwards (pl_mode pl))"
proof -
  let ?base = "unwrap_or (path_parent path) ''.''"
  let ?d = "RawDaemon_deserialize (the (rc_daemon (planned_config pl)))"
  have r: "config_resolve env base (pl_acl_path pl) = pl_acl_path pl" "config_resolve env base (pl_tags_path pl) = pl_tags_path pl"
    "config_resolve env base (pl_tiers_path pl) = pl_tiers_path pl" "config_resolve env base (pl_peers_path pl) = pl_peers_path pl" for base
    using assms(1) resolve_absolute [OF assms(2)] by (simp_all add: plan_acceptable_def)
  have tls: "config_tls env ?base ?d = Inr (pl_tls pl)"
    using assms(1) resolve_absolute [OF assms(2)]
    by (cases "pl_tls pl") (simp_all add: config_tls_def RawDaemon_deserialize_def planned_config_def unwrap_or_def plan_acceptable_def)
  have tiers: "storage_tiers env ?base (rc_storage (planned_config pl)) = Inr (planned_tiers, Some (pl_tiers_path pl))"
  proof -
    have "Tier_parse ''hot'' = Inr Hot" by code_simp
    moreover have "sorted_list_of_fmap (fmempty :: (string, toml_value) fmap) = []"
      by (simp add: sorted_list_of_fmap_def sorted_list_of_fset.rep_eq)
    ultimately show ?thesis
      using assms(2,3) r
      by (simp add: storage_tiers_def planned_config_def reads_from_def RawStorage_to_policy_def bind_sum_def planned_tiers_def)
  qed
  obtain g where g: "config_galaxy env ?base (rc_galaxy (planned_config pl)) = Inr g" "g \<noteq> None \<longleftrightarrow> Mode_forwards (pl_mode pl)"
    using assms(2,4) r
    by (cases "Mode_forwards (pl_mode pl)")
       (auto simp: config_galaxy_def planned_config_def reads_from_def RawGalaxy_into_settings_def Let_def)
  show ?thesis
    using assms(1,5) tls tiers g r
    by (auto simp: RawConfig_into_settings_def planned_config_def Let_def bind_sum_def optional_section_def plan_acceptable_def
        planned_storage_def RawDaemon_deserialize_def unwrap_or_def split: option.splits)
qed

section \<open>From the answers to the server\<close>

lemma and_then_Inr: "and_then m f fs = (fs', Inr y) \<longleftrightarrow> (\<exists>fs1 x. m fs = (fs1, Inr x) \<and> f x fs1 = (fs', Inr y))"
  by (auto simp: and_then_def split: prod.splits sum.splits)

lemma write_file_writes: "setup_write_file sys q body mode fs = (fs', Inr u) \<Longrightarrow> fmlookup (fx_files fs') q = Some body"
  by (auto simp: setup_write_file_def and_then_Inr put_bytes_def set_mode_def split: if_splits put_answer.splits)

text \<open>Every replacement is agreed to.\<close>

definition agrees :: "(string \<Rightarrow> string \<Rightarrow> bool step) \<Rightarrow> bool" where
  "agrees decide \<longleftrightarrow> (\<forall>q what fs. fx_files (fst (decide q what fs)) = fx_files fs \<and> snd (decide q what fs) = Inr True)"

lemma unless_kept_writes:
  assumes "agrees decide" "write_unless_kept sys q body mode what decide fs = (fs', Inr u)"
  shows "fmlookup (fx_files fs') q = Some body"
proof -
  have "r = Inr True" if "decide q what fs = (fs1, r)" for fs1 r using assms(1) that unfolding agrees_def by (metis snd_conv)
  then show ?thesis
    using assms(2) by (auto simp: write_unless_kept_def and_then_Inr split: if_splits intro: write_file_writes)
qed

text \<open>The files of a plan are different ones.\<close>

definition plan_apart :: "system \<Rightarrow> plan \<Rightarrow> bool" where
  "plan_apart sys p \<longleftrightarrow> pl_config_path p \<notin> {pl_log_config_path p, pl_service_path p} \<and> pl_acl_path p \<noteq> pl_service_path p \<and>
     (pl_install_service p \<longrightarrow> sys_exe sys = Some (pl_binary p) \<or> pl_binary p \<notin> {pl_config_path p, pl_acl_path p})"

lemma setup_writes:
  assumes "setup_apply sys pl decide fs = (fs', Inr \<lparr>wrote_admin_key = True\<rparr>)" "agrees decide" "plan_apart sys pl"
  shows "fmlookup (fx_files fs') (pl_config_path pl) = Some (Plan_config_toml pl) \<and>
    fmlookup (fx_files fs') (pl_acl_path pl) = Some (Acl_to_toml (Acl_grant_full Acl_new (pl_admin_key pl)))"
proof -
  have quiet: "fx_files (fst (decide q what fs)) = fx_files fs" for q what fs using assms(2) by (simp add: agrees_def)
  obtain fs1 fs2 where b: "before_keys sys pl decide fs = (fs1, Inr ())" and k: "write_keys sys pl fs1 = (fs2, Inr True)"
    and a: "after_keys sys pl decide fs2 = (fs', Inr ())"
    using assms(1) by (auto simp: setup_apply_parts and_then_Inr yields_def)
  obtain fs0 fs01 where c: "write_unless_kept sys (pl_config_path pl) (Plan_config_toml pl) 416 ''A configuration'' decide fs01 = (fs0, Inr ())"
    and l: "write_unless_kept sys (pl_log_config_path pl) LOG_CONFIG 420 ''A logging configuration'' decide fs0 = (fs1, Inr ())"
    using b by (auto simp: before_keys_def and_then_Inr)
  have "spares (pl_config_path pl) (write_unless_kept sys (pl_log_config_path pl) LOG_CONFIG 420 ''A logging configuration'' decide)"
    using assms(3) quiet by (intro spares_unless_kept) (auto simp: plan_apart_def)
  from sparesD [OF this l unless_kept_writes [OF assms(2) c]]
  have 1: "fmlookup (fx_files fs1) (pl_config_path pl) = Some (Plan_config_toml pl)" .
  have 2: "fmlookup (fx_files fs2) (pl_config_path pl) = Some (Plan_config_toml pl)" by (rule sparesD [OF spares_write_keys k 1])
  have 3: "fmlookup (fx_files fs2) (pl_acl_path pl) = Some (Acl_to_toml (Acl_grant_full Acl_new (pl_admin_key pl)))"
    using k by (auto simp: write_keys_def and_then_Inr yields_def split: if_splits intro: write_file_writes)
  have s: "spares p (after_keys sys pl decide)" if "p = pl_config_path pl \<or> p = pl_acl_path pl" for p
    using assms(3) that quiet by (intro spares_after) (auto simp: plan_apart_def)
  show ?thesis using sparesD [OF s a 2] sparesD [OF s a 3] by simp
qed

lemma admin_key_read_back:
  assumes "reads_from env fs" "fmlookup (fx_files fs) file = Some (Acl_to_toml (Acl_grant_full Acl_new key))"
    and "ce_acl env (Acl_to_toml (Acl_grant_full Acl_new key)) = Some (fmmap (\<lambda>gs. join '', '' (map Grant_to_spec gs)) (Acl_grant_full Acl_new key))"
  shows "load_acl env None (Some file) = Inr (Some (Acl_grant_full Acl_new key))"
proof (rule key_file_read_back)
  show "ce_exists env file" "ce_read env file = Some (Acl_to_toml (Acl_grant_full Acl_new key))"
    using assms(1,2) by (simp_all add: reads_from_def path_exists_def fm_contains_def)
  have "trim [] = []" by code_simp
  then show "fmpred (\<lambda>_ gs. gs \<noteq> [] \<and> list_all grant_wf gs) (Acl_grant_full Acl_new key)"
    unfolding Acl_grant_full_def Acl_new_def by (intro fmpred_upd) (simp_all add: grant_wf_def Grant_all_data_def Grant_admin_def)
qed (rule assms(3))


text \<open>An installation from nothing, and a configuration reader that sees its files.\<close>

definition sample_nothing_there :: fsys where
  "sample_nothing_there = \<lparr>fx_files = fmempty, fx_dirs = {||}, fx_modes = fmempty, fx_ran = [], fx_input = []\<rparr>"

definition sample_quiet_plan :: plan where
  "sample_quiet_plan = sample_plan\<lparr>pl_install_service := False\<rparr>"

definition sample_installation :: "fsys \<times> (setup_error + applied)" where
  "sample_installation = setup_apply sample_system sample_quiet_plan (\<lambda>_ _. yields True) sample_nothing_there"

definition sample_installed_env :: config_env where
  "sample_installed_env =
     \<lparr>ce_absolute = Some, ce_exists = path_exists (fst sample_installation), ce_read = fmlookup (fx_files (fst sample_installation)),
      ce_config = (\<lambda>_. Some (planned_config sample_quiet_plan)), ce_tiers = (\<lambda>_. None),
      ce_acl = (\<lambda>_. Some (fmmap (\<lambda>gs. join '', '' (map Grant_to_spec gs)) (Acl_grant_full Acl_new ''k''))), ce_tags = (\<lambda>_. Inr fmempty),
      ce_peers = (\<lambda>_. Inr []), ce_seed = []\<rparr>"

lemma sample_plan_paths:
  "ancestors ''/c'' = [''/c'', ''/'']" "ancestors ''/c/db'' = [''/c/db'', ''/c'', ''/'']"
  "path_parent ''/c/sightingdb.toml'' = Some ''/c''" "path_parent ''/c/acl.toml'' = Some ''/c''" "path_parent ''/c/log4rs.yml'' = Some ''/c''"
  by code_simp+

lemma sample_installation_done:
  "snd sample_installation = Inr \<lparr>wrote_admin_key = True\<rparr> \<and> \<not> path_exists (fst sample_installation) ''/c/tiers.toml'' \<and>
     \<not> path_exists (fst sample_installation) ''/c/peers.toml''"
  by (simp add: sample_installation_def setup_apply_def and_then_def only_if_def yields_def create_dir_all_def write_unless_kept_def
      setup_write_file_def put_bytes_def set_mode_def write_keys_def write_certificate_def path_exists_def fm_contains_def
      sample_quiet_plan_def sample_plan_def sample_system_def sample_nothing_there_def sample_plan_paths del: fset_of_list.rep_eq)


end
